(* ===== verification/Prelude.thy ===== *)
theory Prelude
  imports Main "HOL-Library.AList" "HOL-Library.Word" "HOL-Library.Char_ord"
    "HOL-Library.List_Lexorder" "HOL-Library.Product_Lexorder" "HOL-Library.Multiset"
begin

text \<open>
  What every component of the library shares: Go's error values and the early-return
  chains built from them, Go maps as association lists, the slice sort of the standard
  library with its comparator contract, and decimal text of unsigned integers.
\<close>

unbundle bit_operations_syntax

named_theorems res_elims \<open>inversion of successful result chains\<close>
named_theorems gomap_simps \<open>lookup laws of Go maps\<close>

section \<open>Machine types\<close>

type_synonym byte = "8 word"
type_synonym uint64 = "64 word"

text \<open>The wrap-around of Go's \<^verbatim>\<open>int\<close> and \<^verbatim>\<open>int64\<close>.\<close>

definition goInt :: "int \<Rightarrow> int" where
  "goInt x = (x + 2 ^ 63) mod 2 ^ 64 - 2 ^ 63"

section \<open>Errors and result chains\<close>

text \<open>
  An error value keeps its format string and its arguments apart, so that two errors of the
  code are equal exactly when their messages are built from the same template and arguments.
  \<open>Wrapf\<close> is \<^verbatim>\<open>fmt.Errorf("...: %w", err)\<close>; \<open>Panic\<close> is a run-time panic.
\<close>

datatype garg = AStr string | ANat nat | AInt int

datatype gerr =
    Errorf string "garg list"
  | Wrapf string "garg list" gerr
  | Panic string

abbreviation Err :: "string \<Rightarrow> gerr + 'a" where
  "Err msg \<equiv> Inl (Errorf msg [])"

type_synonym 'a res = "gerr + 'a"

text \<open>A Go context is the error that \<^verbatim>\<open>ctx.Err()\<close> returns, if any.\<close>

type_synonym ctx = "gerr option"

definition andThen :: "'a res \<Rightarrow> ('a \<Rightarrow> 'b res) \<Rightarrow> 'b res" where
  "andThen m f = (case m of Inl e \<Rightarrow> Inl e | Inr x \<Rightarrow> f x)"

definition wrapErr :: "string \<Rightarrow> garg list \<Rightarrow> 'a res \<Rightarrow> 'a res" where
  "wrapErr msg args m = (case m of Inl e \<Rightarrow> Inl (Wrapf msg args e) | Inr x \<Rightarrow> Inr x)"

definition withCtx :: "ctx \<Rightarrow> 'a res \<Rightarrow> 'a res" where
  "withCtx ctx m = (case ctx of Some e \<Rightarrow> Inl e | None \<Rightarrow> m)"

definition notNil :: "string \<Rightarrow> 'p option \<Rightarrow> ('p \<Rightarrow> 'a res) \<Rightarrow> 'a res" where
  "notNil msg p f = (case p of None \<Rightarrow> Err msg | Some x \<Rightarrow> f x)"

lemma andThen_simps [simp]:
  "andThen (Inl e) f = Inl e"
  "andThen (Inr x) f = f x"
  by (simp_all add: andThen_def)

lemma wrapErr_simps [simp]:
  "wrapErr msg args (Inl e) = Inl (Wrapf msg args e)"
  "wrapErr msg args (Inr x) = Inr x"
  by (simp_all add: wrapErr_def)

lemma withCtx_simps [simp]:
  "withCtx None m = m"
  "withCtx (Some e) m = Inl e"
  by (simp_all add: withCtx_def)

lemma notNil_simps [simp]:
  "notNil msg None f = Err msg"
  "notNil msg (Some x) f = f x"
  by (simp_all add: notNil_def)

lemma andThen_Inr [res_elims]:
  "andThen m f = Inr y \<longleftrightarrow> (\<exists>x. m = Inr x \<and> f x = Inr y)"
  by (cases m) auto

lemma wrapErr_Inr [res_elims]: "wrapErr msg args m = Inr y \<longleftrightarrow> m = Inr y"
  by (cases m) auto

lemma withCtx_Inr [res_elims]: "withCtx ctx m = Inr y \<longleftrightarrow> ctx = None \<and> m = Inr y"
  by (cases ctx) auto

lemma notNil_Inr [res_elims]:
  "notNil msg p f = Inr y \<longleftrightarrow> (\<exists>x. p = Some x \<and> f x = Inr y)"
  by (cases p) auto

lemma if_Inl_Inr [res_elims]:
  "(if b then Inl e else m) = Inr y \<longleftrightarrow> \<not> b \<and> m = Inr y"
  by simp

lemma andThen_cong [fundef_cong]:
  "m = m' \<Longrightarrow> (\<And>x. m' = Inr x \<Longrightarrow> f x = f' x) \<Longrightarrow> andThen m f = andThen m' f'"
  by (cases m') auto

text \<open>A Go loop that stops at the first error and otherwise collects one value per item.\<close>

fun mapRes :: "('a \<Rightarrow> 'b res) \<Rightarrow> 'a list \<Rightarrow> 'b list res" where
  "mapRes f [] = Inr []"
| "mapRes f (x # xs) = andThen (f x) (\<lambda>y. andThen (mapRes f xs) (\<lambda>ys. Inr (y # ys)))"

text \<open>A Go loop that stops at the first error and otherwise carries a state.\<close>

fun foldRes :: "('a \<Rightarrow> 's \<Rightarrow> 's res) \<Rightarrow> 'a list \<Rightarrow> 's \<Rightarrow> 's res" where
  "foldRes f [] s = Inr s"
| "foldRes f (x # xs) s = andThen (f x s) (foldRes f xs)"

text \<open>The same loop with the index of the item, for messages such as \<^verbatim>\<open>leaves[%d]\<close>.\<close>

fun foldResI :: "nat \<Rightarrow> (nat \<Rightarrow> 'a \<Rightarrow> 's \<Rightarrow> 's res) \<Rightarrow> 'a list \<Rightarrow> 's \<Rightarrow> 's res" where
  "foldResI i f [] s = Inr s"
| "foldResI i f (x # xs) s = andThen (f i x s) (foldResI (Suc i) f xs)"

lemma mapRes_length: "mapRes f xs = Inr ys \<Longrightarrow> length ys = length xs"
  by (induction xs arbitrary: ys) (auto simp: res_elims)

lemma mapRes_list_all2: "mapRes f xs = Inr ys \<longleftrightarrow> list_all2 (\<lambda>x y. f x = Inr y) xs ys"
  by (induction xs arbitrary: ys) (auto simp: res_elims list_all2_Cons1)

lemma mapRes_Inr_map: "(\<And>x. x \<in> set xs \<Longrightarrow> f x = Inr (g x)) \<Longrightarrow> mapRes f xs = Inr (map g xs)"
  by (induction xs) auto

lemma mapRes_nth: "mapRes f xs = Inr ys \<Longrightarrow> i < length xs \<Longrightarrow> f (xs ! i) = Inr (ys ! i)"
  by (auto simp: mapRes_list_all2 list_all2_conv_all_nth)

lemma foldRes_append:
  "foldRes f (xs @ ys) s = andThen (foldRes f xs s) (foldRes f ys)"
proof (induction xs arbitrary: s)
  case (Cons x xs)
  then show ?case by (cases "f x s") auto
qed simp

lemma foldResI_append:
  "foldResI i f (xs @ ys) s = andThen (foldResI i f xs s) (foldResI (i + length xs) f ys)"
proof (induction xs arbitrary: i s)
  case (Cons x xs)
  then show ?case by (cases "f i x s") auto
qed simp

lemma foldRes_invariant:
  assumes "foldRes f xs s = Inr t" and "P s"
    and "\<And>x s t. x \<in> set xs \<Longrightarrow> P s \<Longrightarrow> f x s = Inr t \<Longrightarrow> P t"
  shows "P t"
  using assms
proof (induction xs arbitrary: s)
  case (Cons x xs)
  from Cons.prems(1) obtain u where u: "f x s = Inr u" "foldRes f xs u = Inr t"
    by (auto simp: res_elims)
  have "P u" using Cons.prems(2,3) u(1) by auto
  then show ?case using Cons.IH [OF u(2)] Cons.prems(3) by auto
qed simp

section \<open>Go maps\<close>

text \<open>
  A Go map is an association list with the entries in the order of their first insertion;
  \<open>nil\<close> and the empty map are both \<open>[]\<close>, which reads and ranges cannot tell apart.
  Go leaves the order of a \<^verbatim>\<open>range\<close> over a map open; properties of such loops are
  stated on \<^const>\<open>map_of\<close>, which does not see the order.
\<close>

type_synonym ('k, 'v) gomap = "('k \<times> 'v) list"

abbreviation gput :: "'k \<Rightarrow> 'v \<Rightarrow> ('k, 'v) gomap \<Rightarrow> ('k, 'v) gomap" where
  "gput \<equiv> AList.update"

abbreviation gdel :: "'k \<Rightarrow> ('k, 'v) gomap \<Rightarrow> ('k, 'v) gomap" where
  "gdel \<equiv> AList.delete"

abbreviation gget :: "('k, 'v) gomap \<Rightarrow> 'k \<Rightarrow> 'v option" where
  "gget \<equiv> map_of"

abbreviation wfmap :: "('k, 'v) gomap \<Rightarrow> bool" where
  "wfmap m \<equiv> distinct (map fst m)"

lemma gget_gput [gomap_simps]: "gget (gput k v m) k' = (if k' = k then Some v else gget m k')"
  by (simp add: update_conv')

lemma gget_gdel [gomap_simps]: "gget (gdel k m) k' = (if k' = k then None else gget m k')"
  by (simp add: delete_conv')

lemma wfmap_gput [simp]: "wfmap m \<Longrightarrow> wfmap (gput k v m)"
  by (rule distinct_update)

lemma wfmap_gdel [simp]: "wfmap m \<Longrightarrow> wfmap (gdel k m)"
  by (rule distinct_delete)

lemma gput_set: "wfmap m \<Longrightarrow> x \<in> set (gput k v m) \<Longrightarrow> x = (k, v) \<or> x \<in> set m \<and> fst x \<noteq> k"
  by (induction m) (auto split: if_splits simp: rev_image_eqI)

text \<open>\<^verbatim>\<open>for k, v := range m { if drop(v) { delete(m, k) } }\<close>\<close>

definition gkeep :: "('v \<Rightarrow> bool) \<Rightarrow> ('k, 'v) gomap \<Rightarrow> ('k, 'v) gomap" where
  "gkeep p m = filter (\<lambda>kv. p (snd kv)) m"

lemma gget_gkeep_notin: "k \<notin> fst ` set m \<Longrightarrow> gget (gkeep p m) k = None"
  by (induction m) (auto simp: gkeep_def)

lemma gget_gkeep [gomap_simps]:
  "wfmap m \<Longrightarrow> gget (gkeep p m) k = (case gget m k of None \<Rightarrow> None | Some v \<Rightarrow> if p v then Some v else None)"
proof (induction m)
  case (Cons kv m)
  then have "gget (gkeep p m) (fst kv) = None"
    by (intro gget_gkeep_notin) simp
  with Cons show ?case by (cases kv) (auto simp: gkeep_def)
qed (simp add: gkeep_def)

lemma wfmap_gkeep [simp]: "wfmap m \<Longrightarrow> wfmap (gkeep p m)"
  by (auto simp: gkeep_def distinct_map intro: inj_on_subset)

text \<open>\<^verbatim>\<open>for k, v := range m { m[k] = f(v) }\<close>\<close>

definition gmap :: "('v \<Rightarrow> 'w) \<Rightarrow> ('k, 'v) gomap \<Rightarrow> ('k, 'w) gomap" where
  "gmap f m = map (\<lambda>(k, v). (k, f v)) m"

lemma gget_gmap [gomap_simps]: "gget (gmap f m) k = map_option f (gget m k)"
  by (induction m) (auto simp: gmap_def)

lemma map_fst_gmap [simp]: "map fst (gmap f m) = map fst m"
  by (induction m) (auto simp: gmap_def)

lemma gget_in_set: "wfmap m \<Longrightarrow> (k, v) \<in> set m \<longleftrightarrow> gget m k = Some v"
  by simp

section \<open>Sorting of slices\<close>

text \<open>
  \<^verbatim>\<open>sort.Slice\<close> and \<^verbatim>\<open>sort.SliceStable\<close> with a \<open>less\<close> function. The model is
  insertion sort, which is stable; where the code uses the unstable sort its comparators are
  total on the keys it compares, or the property does not depend on the order of ties.
\<close>

fun insertBy :: "('a \<Rightarrow> 'a \<Rightarrow> bool) \<Rightarrow> 'a \<Rightarrow> 'a list \<Rightarrow> 'a list" where
  "insertBy lt x [] = [x]"
| "insertBy lt x (y # ys) = (if lt y x then y # insertBy lt x ys else x # y # ys)"

definition sortBy :: "('a \<Rightarrow> 'a \<Rightarrow> bool) \<Rightarrow> 'a list \<Rightarrow> 'a list" where
  "sortBy lt xs = foldr (insertBy lt) xs []"

lemma sortBy_simps [simp]:
  "sortBy lt [] = []"
  "sortBy lt (x # xs) = insertBy lt x (sortBy lt xs)"
  by (simp_all add: sortBy_def)

lemma mset_insertBy [simp]: "mset (insertBy lt x ys) = add_mset x (mset ys)"
  by (induction ys) auto

lemma mset_sortBy [simp]: "mset (sortBy lt xs) = mset xs"
  by (induction xs) auto

lemma set_sortBy [simp]: "set (sortBy lt xs) = set xs"
  by (metis mset_sortBy set_mset_mset)

lemma length_sortBy [simp]: "length (sortBy lt xs) = length xs"
  by (metis mset_sortBy size_mset)

lemma set_insertBy [simp]: "set (insertBy lt x ys) = insert x (set ys)"
  by (induction ys) auto

text \<open>The contract of a comparator: irreflexive, and "not less" is transitive.\<close>

locale slice_less =
  fixes lt :: "'a \<Rightarrow> 'a \<Rightarrow> bool"
  assumes less_asym: "lt x y \<Longrightarrow> \<not> lt y x"
    and not_less_trans: "\<not> lt y x \<Longrightarrow> \<not> lt z y \<Longrightarrow> \<not> lt z x"
begin

lemma sorted_insertBy:
  "sorted_wrt (\<lambda>x y. \<not> lt y x) ys \<Longrightarrow> sorted_wrt (\<lambda>x y. \<not> lt y x) (insertBy lt x ys)"
proof (induction ys)
  case (Cons y ys)
  show ?case
  proof (cases "lt y x")
    case True
    then show ?thesis using Cons less_asym by auto
  next
    case False
    then have "\<not> lt z x" if "z \<in> set ys" for z
      using Cons.prems that not_less_trans [of y x z] by simp
    then show ?thesis using Cons.prems False by simp
  qed
qed simp

lemma sorted_sortBy: "sorted_wrt (\<lambda>x y. \<not> lt y x) (sortBy lt xs)"
  by (induction xs) (auto intro: sorted_insertBy)

lemma sorted_unique:
  assumes "sorted_wrt (\<lambda>x y. \<not> lt y x) xs" "sorted_wrt (\<lambda>x y. \<not> lt y x) ys"
    and "mset xs = mset ys"
    and "\<And>x y. x \<in> set xs \<Longrightarrow> y \<in> set xs \<Longrightarrow> \<not> lt x y \<Longrightarrow> \<not> lt y x \<Longrightarrow> x = y"
  shows "xs = ys"
  using assms
proof (induction xs arbitrary: ys)
  case (Cons x xs)
  then obtain y zs where ys: "ys = y # zs" by (cases ys) auto
  have yin: "y \<in> set (x # xs)" and xin: "x \<in> set ys"
    using Cons.prems(3) ys by (metis list.set_intros(1) set_mset_mset)+
  have "\<not> lt y x" using Cons.prems(1) yin less_asym by fastforce
  moreover have "\<not> lt x y" using Cons.prems(2) ys xin less_asym by fastforce
  ultimately have eq: "x = y" using Cons.prems(4) yin by auto
  have "xs = zs"
    by (rule Cons.IH) (use Cons.prems ys eq in auto)
  then show ?case using ys eq by simp
qed simp

text \<open>Two listings of the same entries sort to the same slice when no two entries tie.\<close>

lemma sortBy_cong:
  assumes "mset xs = mset ys"
    and "\<And>x y. x \<in> set xs \<Longrightarrow> y \<in> set xs \<Longrightarrow> \<not> lt x y \<Longrightarrow> \<not> lt y x \<Longrightarrow> x = y"
  shows "sortBy lt xs = sortBy lt ys"
  by (rule sorted_unique) (use assms sorted_sortBy in auto)

end

text \<open>A comparator that compares a key of a linear order satisfies the contract.\<close>

lemma slice_less_key: "slice_less (\<lambda>x y. (k x :: 'k :: linorder) < k y)"
  by unfold_locales auto

section \<open>Numerals as text\<close>

definition digitChar :: "int \<Rightarrow> char" where
  "digitChar d = ''0123456789abcdefghijklmnopqrstuvwxyz'' ! nat d"

text \<open>\<^verbatim>\<open>big.Int.Text(base)\<close> of a non-negative integer, for bases 2 to 36.\<close>

function intText :: "int \<Rightarrow> int \<Rightarrow> string" where
  "intText b n = (if b < 2 \<or> n < b then [digitChar n] else intText b (n div b) @ [digitChar (n mod b)])"
  by pat_completeness auto
termination
proof (relation "measure (nat \<circ> snd)")
  fix b n :: int
  assume "\<not> (b < 2 \<or> n < b)"
  then have "n div b < n" by (simp add: int_div_less_self)
  then show "((b, n div b), b, n) \<in> measure (nat \<circ> snd)"
    using \<open>\<not> (b < 2 \<or> n < b)\<close> by simp
qed simp

declare intText.simps [simp del]

text \<open>Decimal text, as \<^verbatim>\<open>%d\<close> and \<^verbatim>\<open>big.Int.String\<close> print it.\<close>

definition decimal :: "int \<Rightarrow> string" where
  "decimal i = (if i < 0 then CHR ''-'' # intText 10 (- i) else intText 10 i)"

end
