(* ===== verification/Hex.thy ===== *)
theory Hex
  imports Prelude
begin

text \<open>
  Models \<^verbatim>\<open>pkg/crypto/bytes.go\<close>, \<^verbatim>\<open>pkg/crypto/token.go\<close> and the
  Keccak helpers of \<^verbatim>\<open>pkg/crypto/hash.go\<close>: hex and decimal text of integers and
  bytes, and token identifiers. A Go string is its list of bytes. \<^verbatim>\<open>strings.ToLower\<close> is
  modelled on ASCII letters, other bytes are kept. The Keccak function comes from a
  third-party module and is the parameter \<open>keccak\<close>.
\<close>

section \<open>The standard library functions used\<close>

definition digitVal :: "char \<Rightarrow> int option" where
  "digitVal c = (let n = of_char c :: int in
     if 48 \<le> n \<and> n \<le> 57 then Some (n - 48)
     else if 97 \<le> n \<and> n \<le> 122 then Some (n - 87)
     else if 65 \<le> n \<and> n \<le> 90 then Some (n - 55)
     else None)"

fun digitsVal :: "int \<Rightarrow> int \<Rightarrow> string \<Rightarrow> int option" where
  "digitsVal b acc [] = Some acc"
| "digitsVal b acc (c # cs) = (case digitVal c of
      None \<Rightarrow> None
    | Some d \<Rightarrow> if d < b then digitsVal b (acc * b + d) cs else None)"

text \<open>\<^verbatim>\<open>new(big.Int).SetString(s, base)\<close> for bases 10 and 16: an optional sign, then digits
  up to the end of the string.\<close>

definition magnitude :: "int \<Rightarrow> string \<Rightarrow> int option" where
  "magnitude b s = (if s = [] then None else digitsVal b 0 s)"

definition SetString :: "string \<Rightarrow> int \<Rightarrow> int option" where
  "SetString s b = (case s of
      [] \<Rightarrow> None
    | c # cs \<Rightarrow>
        if c = CHR ''-'' then map_option uminus (magnitude b cs)
        else if c = CHR ''+'' then magnitude b cs
        else magnitude b s)"

text \<open>\<^verbatim>\<open>strings.TrimSpace\<close>: the UTF-8 encodings of all code points of \<^verbatim>\<open>unicode.IsSpace\<close>.\<close>

definition spaces :: "string list" where
  "spaces = map (\<lambda>c. [c]) [CHR 0x09, CHR 0x0A, CHR 0x0B, CHR 0x0C, CHR 0x0D, CHR 0x20] @
     [[CHR 0xC2, CHR 0x85], [CHR 0xC2, CHR 0xA0], [CHR 0xE1, CHR 0x9A, CHR 0x80]] @
     map (\<lambda>c. [CHR 0xE2, CHR 0x80, c])
       [CHR 0x80, CHR 0x81, CHR 0x82, CHR 0x83, CHR 0x84, CHR 0x85, CHR 0x86, CHR 0x87,
        CHR 0x88, CHR 0x89, CHR 0x8A, CHR 0xA8, CHR 0xA9, CHR 0xAF] @
     [[CHR 0xE2, CHR 0x81, CHR 0x9F], [CHR 0xE3, CHR 0x80, CHR 0x80]]"

function trimLeftSeqs :: "string list \<Rightarrow> string \<Rightarrow> string" where
  "trimLeftSeqs us s = (case find (\<lambda>u. u \<noteq> [] \<and> s \<noteq> [] \<and> take (length u) s = u) us of
      None \<Rightarrow> s
    | Some u \<Rightarrow> trimLeftSeqs us (drop (length u) s))"
  by pat_completeness auto
termination
  by (relation "measure (length \<circ> snd)") (auto simp: find_Some_iff)

declare trimLeftSeqs.simps [simp del]

definition TrimSpace :: "string \<Rightarrow> string" where
  "TrimSpace s = rev (trimLeftSeqs (map rev spaces) (rev (trimLeftSeqs spaces s)))"

definition HasPrefix :: "string \<Rightarrow> string \<Rightarrow> bool" where
  "HasPrefix s p \<longleftrightarrow> take (length p) s = p"

definition TrimPrefix :: "string \<Rightarrow> string \<Rightarrow> string" where
  "TrimPrefix s p = (if HasPrefix s p then drop (length p) s else s)"

definition lowerChar :: "char \<Rightarrow> char" where
  "lowerChar c = (let n = of_char c :: nat in if 65 \<le> n \<and> n \<le> 90 then char_of (n + 32) else c)"

definition ToLower :: "string \<Rightarrow> string" where
  "ToLower s = map lowerChar s"

definition Repeat0 :: "nat \<Rightarrow> string" where
  "Repeat0 n = replicate n (CHR ''0'')"

text \<open>\<^verbatim>\<open>hex.DecodeString\<close> and \<^verbatim>\<open>hex.EncodeToString\<close>.\<close>

definition hexVal :: "char \<Rightarrow> int option" where
  "hexVal c = (case digitVal c of Some d \<Rightarrow> if d < 16 then Some d else None | None \<Rightarrow> None)"

definition invalidByte :: "char \<Rightarrow> gerr" where
  "invalidByte c = Errorf ''encoding/hex: invalid byte: %#U'' [AStr [c]]"

fun hexDecode :: "string \<Rightarrow> byte list res" where
  "hexDecode [] = Inr []"
| "hexDecode [c] = (case hexVal c of
      None \<Rightarrow> Inl (invalidByte c)
    | Some _ \<Rightarrow> Err ''encoding/hex: odd length hex string'')"
| "hexDecode (a # b # cs) = (case hexVal a of
      None \<Rightarrow> Inl (invalidByte a)
    | Some x \<Rightarrow> (case hexVal b of
        None \<Rightarrow> Inl (invalidByte b)
      | Some y \<Rightarrow> andThen (hexDecode cs) (\<lambda>bs. Inr (word_of_int (16 * x + y) # bs))))"

definition hexEncode :: "byte list \<Rightarrow> string" where
  "hexEncode bs = concat (map (\<lambda>w. [digitChar (uint w div 16), digitChar (uint w mod 16)]) bs)"

section \<open>pkg/crypto/bytes.go\<close>

definition SNARKPrime :: int where
  "SNARKPrime = 21888242871839275222246405745257275088548364400416034343698204186575808495617"

definition MerkleZeroValue :: int where
  "MerkleZeroValue = 0x0488f89b25bc7011eaf6a5edce71aeafb9fe706faa3c0a5cd9cbe868ae3b9ffc"

definition Strip0x :: "string \<Rightarrow> string" where
  "Strip0x value = TrimPrefix (TrimPrefix (TrimSpace value) ''0x'') ''0X''"

definition Prefix0x :: "string \<Rightarrow> string" where
  "Prefix0x value =
     (if HasPrefix value ''0x'' \<or> HasPrefix value ''0X'' then ''0x'' @ ToLower (Strip0x value)
      else ''0x'' @ ToLower value)"

definition HexToBigInt :: "string \<Rightarrow> int res" where
  "HexToBigInt value = (let value = Strip0x value in
     if value = [] then Err ''empty hex bigint''
     else (case SetString value 16 of
         None \<Rightarrow> Inl (Errorf ''invalid hex bigint %q'' [AStr value])
       | Some n \<Rightarrow> Inr n))"

definition NumberishToBigInt :: "string \<Rightarrow> int res" where
  "NumberishToBigInt value = (let value = TrimSpace value in
     if HasPrefix value ''0x'' \<or> HasPrefix value ''0X'' then HexToBigInt value
     else (case SetString value 10 of
         None \<Rightarrow> Inl (Errorf ''invalid decimal bigint %q'' [AStr value])
       | Some n \<Rightarrow> Inr n))"

text \<open>The cut and pad to a fixed number of digits that both formatters do.\<close>

definition fitDigits :: "nat \<Rightarrow> string \<Rightarrow> string" where
  "fitDigits n s = (let s = (if length s > n then drop (length s - n) s else s) in
     if length s < n then Repeat0 (n - length s) @ s else s)"

definition BigIntToHex :: "int option \<Rightarrow> nat \<Rightarrow> bool \<Rightarrow> string res" where
  "BigIntToHex value byteLength prefix = (case value of
      None \<Rightarrow> Err ''nil bigint''
    | Some v \<Rightarrow>
        if v < 0 then Err ''bigint must be positive''
        else (let hexValue = ToLower (fitDigits (byteLength * 2) (intText 16 v))
              in Inr (if prefix then ''0x'' @ hexValue else hexValue)))"

definition FormatHexToByteLength :: "string \<Rightarrow> int \<Rightarrow> bool \<Rightarrow> string res" where
  "FormatHexToByteLength value byteLength prefix =
     (if byteLength \<le> 0 then Err ''byte length must be positive''
      else (let hexValue = ToLower (Strip0x value);
                hexValue = (if hexValue = [] then ''0'' else hexValue)
            in (case SetString hexValue 16 of
                  None \<Rightarrow> Inl (Errorf ''invalid hex value %q'' [AStr value])
                | Some _ \<Rightarrow>
                    (let out = fitDigits (nat byteLength * 2) hexValue
                     in Inr (if prefix then ''0x'' @ out else out)))))"

definition HexToBytes :: "string \<Rightarrow> byte list res" where
  "HexToBytes value = (let value = Strip0x value in
     if value = [] then Inr []
     else hexDecode (if odd (length value) then ''0'' @ value else value))"

definition BytesToHex :: "byte list \<Rightarrow> bool \<Rightarrow> string" where
  "BytesToHex value prefix = (let out = ToLower (hexEncode value) in if prefix then ''0x'' @ out else out)"

section \<open>pkg/crypto/hash.go: the Keccak helpers\<close>

definition Keccak256HexBytes :: "(byte list \<Rightarrow> byte list) \<Rightarrow> byte list \<Rightarrow> string" where
  "Keccak256HexBytes keccak data = BytesToHex (keccak data) False"

definition Keccak256Hex :: "(byte list \<Rightarrow> byte list) \<Rightarrow> string \<Rightarrow> string res" where
  "Keccak256Hex keccak value = andThen (HexToBytes value) (\<lambda>data. Inr (Keccak256HexBytes keccak data))"

section \<open>pkg/crypto/token.go\<close>

definition TokenTypeERC20 :: int where "TokenTypeERC20 = 0"
definition TokenTypeERC721 :: int where "TokenTypeERC721 = 1"
definition TokenTypeERC1155 :: int where "TokenTypeERC1155 = 2"

record TokenData =
  TokenAddress :: string
  TokenType :: int
  TokenSubID :: string

definition FormatHexToByteLengthFromNumberish :: "string \<Rightarrow> nat \<Rightarrow> bool \<Rightarrow> string res" where
  "FormatHexToByteLengthFromNumberish value byteLength prefix =
     andThen (NumberishToBigInt value) (\<lambda>n. BigIntToHex (Some n) byteLength prefix)"

definition SerializeTokenData :: "string \<Rightarrow> int \<Rightarrow> string \<Rightarrow> TokenData res" where
  "SerializeTokenData tokenAddress tokenType tokenSubID =
     andThen (wrapErr ''token address: %w'' [] (FormatHexToByteLength tokenAddress 20 True)) (\<lambda>address.
     andThen (wrapErr ''token sub id: %w'' [] (FormatHexToByteLengthFromNumberish tokenSubID 32 True)) (\<lambda>subID.
     Inr \<lparr>TokenAddress = address, TokenType = tokenType, TokenSubID = subID\<rparr>))"

definition TokenDataERC20 :: "string \<Rightarrow> TokenData res" where
  "TokenDataERC20 tokenAddress = SerializeTokenData tokenAddress TokenTypeERC20 ''0''"

definition TokenDataNFT :: "string \<Rightarrow> int \<Rightarrow> string \<Rightarrow> TokenData res" where
  "TokenDataNFT tokenAddress tokenType tokenSubID =
     (if tokenType \<noteq> TokenTypeERC721 \<and> tokenType \<noteq> TokenTypeERC1155
      then Inl (Errorf ''invalid NFT token type %d'' [AInt tokenType])
      else SerializeTokenData tokenAddress tokenType tokenSubID)"

definition TokenDataHashERC20 :: "string \<Rightarrow> string res" where
  "TokenDataHashERC20 tokenAddress = FormatHexToByteLength tokenAddress 32 False"

definition TokenDataHashNFT :: "(byte list \<Rightarrow> byte list) \<Rightarrow> TokenData \<Rightarrow> string res" where
  "TokenDataHashNFT keccak tokenData =
     andThen (BigIntToHex (Some (TokenType tokenData)) 32 False) (\<lambda>tokenTypeHex.
     andThen (wrapErr ''token address: %w'' [] (FormatHexToByteLength (TokenAddress tokenData) 32 False)) (\<lambda>tokenAddressHex.
     andThen (wrapErr ''token sub id: %w'' [] (NumberishToBigInt (TokenSubID tokenData))) (\<lambda>tokenSubID.
     andThen (BigIntToHex (Some tokenSubID) 32 False) (\<lambda>tokenSubIDHex.
     andThen (Keccak256Hex keccak (tokenTypeHex @ tokenAddressHex @ tokenSubIDHex)) (\<lambda>hashed.
     andThen (HexToBigInt hashed) (\<lambda>hashedBigInt.
     BigIntToHex (Some (hashedBigInt mod SNARKPrime)) 32 False))))))"

definition TokenDataHash :: "(byte list \<Rightarrow> byte list) \<Rightarrow> TokenData \<Rightarrow> string res" where
  "TokenDataHash keccak tokenData =
     (if TokenType tokenData = TokenTypeERC20 then TokenDataHashERC20 (TokenAddress tokenData)
      else if TokenType tokenData = TokenTypeERC721 \<or> TokenType tokenData = TokenTypeERC1155
      then TokenDataHashNFT keccak tokenData
      else Inl (Errorf ''unrecognized token type %d'' [AInt (TokenType tokenData)]))"

section \<open>Digit strings and their values\<close>

abbreviation hexString :: "string \<Rightarrow> bool" where
  "hexString s \<equiv> \<forall>c \<in> set s. hexVal c \<noteq> None"

lemma digitVal_digitChar: "0 \<le> d \<Longrightarrow> d < 36 \<Longrightarrow> digitVal (digitChar d) = Some d"
proof -
  assume "0 \<le> d" "d < 36"
  then have "d \<in> set [0..35]" by simp
  moreover have "\<forall>d \<in> set [0..35]. digitVal (digitChar d) = Some d" by code_simp
  ultimately show ?thesis by blast
qed

lemma lowerChar_digitChar: "0 \<le> d \<Longrightarrow> d < 36 \<Longrightarrow> lowerChar (digitChar d) = digitChar d"
proof -
  assume "0 \<le> d" "d < 36"
  then have "d \<in> set [0..35]" by simp
  moreover have "\<forall>d \<in> set [0..35]. lowerChar (digitChar d) = digitChar d" by code_simp
  ultimately show ?thesis by blast
qed

lemma digitVal_nonneg: "digitVal c = Some d \<Longrightarrow> 0 \<le> d"
  by (auto simp: digitVal_def Let_def split: if_splits)

lemma hexVal_bounds: "hexVal c = Some d \<Longrightarrow> 0 \<le> d \<and> d < 16"
  by (auto simp: hexVal_def digitVal_nonneg split: option.splits if_splits)

lemma hexVal_digitChar: "0 \<le> d \<Longrightarrow> d < 16 \<Longrightarrow> hexVal (digitChar d) = Some d"
  by (simp add: hexVal_def digitVal_digitChar)

lemma digitsVal_append:
  "digitsVal b a (s @ t) = (case digitsVal b a s of None \<Rightarrow> None | Some v \<Rightarrow> digitsVal b v t)"
  by (induction s arbitrary: a) (auto split: option.splits)

lemma digitsVal_shift:
  "digitsVal b a s = map_option (\<lambda>w. a * b ^ length s + w) (digitsVal b 0 s)"
proof (induction s arbitrary: a)
  case (Cons c s)
  show ?case
  proof (cases "digitVal c")
    case (Some d)
    have "digitsVal b (a * b + d) s = map_option (\<lambda>w. (a * b + d) * b ^ length s + w) (digitsVal b 0 s)"
      by (rule Cons.IH)
    moreover have "digitsVal b d s = map_option (\<lambda>w. d * b ^ length s + w) (digitsVal b 0 s)"
      by (rule Cons.IH)
    ultimately show ?thesis
      using Some by (cases "digitsVal b 0 s") (auto simp: algebra_simps)
  qed simp
qed simp

lemma digitsVal_Cons_Some:
  assumes "digitsVal b 0 (c # s) = Some v"
  obtains d w where "digitVal c = Some d" "d < b" "digitsVal b 0 s = Some w" "v = d * b ^ length s + w"
proof -
  obtain d where d: "digitVal c = Some d" "d < b" "digitsVal b d s = Some v"
    using assms by (auto split: option.splits if_splits)
  then show thesis using that digitsVal_shift [of b d s] by (cases "digitsVal b 0 s") auto
qed

lemma digitsVal_bounds: "digitsVal b 0 s = Some v \<Longrightarrow> 0 < b \<Longrightarrow> 0 \<le> v \<and> v < b ^ length s"
proof (induction s arbitrary: v)
  case (Cons c s)
  obtain d w where d: "digitVal c = Some d" "d < b" "digitsVal b 0 s = Some w" "v = d * b ^ length s + w"
    using Cons.prems(1) by (rule digitsVal_Cons_Some)
  have w: "0 \<le> w" "w < b ^ length s" using Cons.IH d(3) Cons.prems(2) by auto
  have d0: "0 \<le> d" using d(1) by (rule digitVal_nonneg)
  have "(d + 1) * b ^ length s \<le> b * b ^ length s"
    using d(2) Cons.prems(2) by (intro mult_right_mono) auto
  then have "d * b ^ length s + w < b * b ^ length s"
    using w(2) by (simp add: algebra_simps)
  moreover have "0 \<le> d * b ^ length s" using d0 Cons.prems(2) by simp
  ultimately show ?case using d(4) w(1) by simp
qed simp

lemma digitsVal_suffix:
  assumes "digitsVal b 0 (s @ t) = Some v" "0 < b"
  shows "digitsVal b 0 t = Some (v mod b ^ length t)"
proof -
  obtain u w where u: "digitsVal b 0 s = Some u" "digitsVal b 0 t = Some w" "v = u * b ^ length t + w"
  proof -
    obtain u where u: "digitsVal b 0 s = Some u" "digitsVal b u t = Some v"
      using assms(1) by (auto simp: digitsVal_append split: option.splits)
    then show thesis using that digitsVal_shift [of b u t] by (cases "digitsVal b 0 t") auto
  qed
  moreover have "0 \<le> w" "w < b ^ length t" using digitsVal_bounds [OF u(2) assms(2)] by auto
  ultimately show ?thesis by simp
qed

lemma digitsVal_intText:
  assumes "2 \<le> b" "b \<le> 36" "0 \<le> n"
  shows "digitsVal b 0 (intText b n) = Some n"
  using assms
proof (induction b n rule: intText.induct)
  case (1 b n)
  show ?case
  proof (cases "b < 2 \<or> n < b")
    case True
    then show ?thesis using "1.prems" by (simp add: intText.simps [of b n] digitVal_digitChar)
  next
    case False
    have "0 \<le> n mod b" "n mod b < b" using "1.prems"(1) by simp_all
    then have "digitVal (digitChar (n mod b)) = Some (n mod b)"
      using "1.prems"(2) by (intro digitVal_digitChar) linarith+
    moreover have "digitsVal b 0 (intText b (n div b)) = Some (n div b)"
      using "1.IH" [OF False] "1.prems" by (simp add: pos_imp_zdiv_nonneg_iff)
    ultimately show ?thesis
      using False \<open>n mod b < b\<close> by (simp add: intText.simps [of b n] digitsVal_append)
  qed
qed

lemma intText_chars:
  "2 \<le> b \<Longrightarrow> 0 \<le> n \<Longrightarrow> set (intText b n) \<subseteq> digitChar ` {0..<b}"
proof (induction b n rule: intText.induct)
  case (1 b n)
  show ?case
  proof (cases "b < 2 \<or> n < b")
    case True
    then show ?thesis using "1.prems" by (auto simp: intText.simps [of b n])
  next
    case False
    have "0 \<le> n mod b" "n mod b < b" using "1.prems"(1) by simp_all
    then show ?thesis using False "1.IH" [OF False] "1.prems"
      by (auto simp: intText.simps [of b n] pos_imp_zdiv_nonneg_iff)
  qed
qed

lemma intText_not_Nil [simp]: "intText b n \<noteq> []"
  by (subst intText.simps) simp

lemma length_intText: "0 \<le> v \<Longrightarrow> v < 16 ^ Suc n \<Longrightarrow> length (intText 16 v) \<le> Suc n"
proof (induction n arbitrary: v)
  case 0
  then show ?case by (simp add: intText.simps [of 16 v])
next
  case (Suc n)
  have "v div 16 < 16 ^ Suc n"
    using Suc.prems(2) by (simp add: div_less_iff_less_mult mult.commute)
  then have "length (intText 16 (v div 16)) \<le> Suc n"
    using Suc by (simp add: pos_imp_zdiv_nonneg_iff)
  then show ?case
    by (simp add: intText.simps [of 16 v])
qed

lemma hexString_intText: "0 \<le> n \<Longrightarrow> hexString (intText 16 n)"
proof
  fix c assume "0 \<le> n" "c \<in> set (intText 16 n)"
  then obtain d where "c = digitChar d" "0 \<le> d" "d < 16" using intText_chars [of 16 n] by auto
  then show "hexVal c \<noteq> None" by (simp add: hexVal_digitChar)
qed

lemma ToLower_intText: "0 \<le> n \<Longrightarrow> ToLower (intText 16 n) = intText 16 n"
  unfolding ToLower_def
proof (rule map_idI)
  fix c assume "0 \<le> n" "c \<in> set (intText 16 n)"
  then obtain d where "c = digitChar d" "0 \<le> d" "d < 16" using intText_chars [of 16 n] by auto
  then show "lowerChar c = c" by (simp add: lowerChar_digitChar)
qed

lemma hexString_digitsVal: "hexString s \<Longrightarrow> \<exists>v. digitsVal 16 a s = Some v"
  by (induction s arbitrary: a) (auto simp: hexVal_def split: option.splits if_splits)

lemma digitsVal_hexString: "digitsVal 16 a s = Some v \<Longrightarrow> hexString s"
proof (induction s arbitrary: a)
  case (Cons c s)
  then obtain d where d: "digitVal c = Some d" "d < 16" "digitsVal 16 (a * 16 + d) s = Some v"
    by (auto split: option.splits if_splits)
  then show ?case using Cons.IH [OF d(3)] by (simp add: hexVal_def)
qed simp

lemma digitsVal_Repeat0: "digitsVal 16 0 (Repeat0 n @ s) = digitsVal 16 0 s"
proof (induction n)
  case (Suc n)
  have "digitVal (CHR ''0'') = Some 0" by code_simp
  then show ?case using Suc by (simp add: Repeat0_def)
qed (simp add: Repeat0_def)

section \<open>Stripping leaves digit strings alone\<close>

lemma spaces_not_hex:
  "\<forall>u \<in> set spaces. u \<noteq> [] \<and> hexVal (hd u) = None"
  "\<forall>u \<in> set (map rev spaces). u \<noteq> [] \<and> hexVal (hd u) = None"
  by code_simp+

lemma trimLeftSeqs_hex:
  assumes "\<forall>u \<in> set us. u \<noteq> [] \<and> hexVal (hd u) = None" "hexString s"
  shows "trimLeftSeqs us s = s"
proof -
  have "\<not> (u \<noteq> [] \<and> s \<noteq> [] \<and> take (length u) s = u)" if "u \<in> set us" for u
  proof
    assume a: "u \<noteq> [] \<and> s \<noteq> [] \<and> take (length u) s = u"
    then have "hd u = hd s" by (metis hd_take length_greater_0_conv)
    then show False using assms that a by (metis list.set_sel(1))
  qed
  then have "find (\<lambda>u. u \<noteq> [] \<and> s \<noteq> [] \<and> take (length u) s = u) us = None"
    by (simp add: find_None_iff)
  then show ?thesis by (subst trimLeftSeqs.simps) simp
qed

lemma TrimSpace_hex: "hexString s \<Longrightarrow> TrimSpace s = s"
  unfolding TrimSpace_def
  by (subst trimLeftSeqs_hex [OF spaces_not_hex(1)], assumption,
      subst trimLeftSeqs_hex [OF spaces_not_hex(2)]) simp_all

lemma HasPrefix_hex:
  assumes "hexString s" "hexVal c = None"
  shows "\<not> HasPrefix s [a, c]"
proof
  assume "HasPrefix s [a, c]"
  then have "take 2 s = [a, c]" by (simp add: HasPrefix_def numeral_2_eq_2)
  then have "c \<in> set s" by (metis in_set_takeD list.set_intros(1) list.set_intros(2))
  then show False using assms by blast
qed

lemma HasPrefix_0x_hex: "hexString s \<Longrightarrow> \<not> HasPrefix s ''0x''" "hexString s \<Longrightarrow> \<not> HasPrefix s ''0X''"
proof -
  have "hexVal (CHR ''x'') = None" "hexVal (CHR ''X'') = None" by code_simp+
  then show "hexString s \<Longrightarrow> \<not> HasPrefix s ''0x''" "hexString s \<Longrightarrow> \<not> HasPrefix s ''0X''"
    using HasPrefix_hex by auto
qed

lemma Strip0x_hex: "hexString s \<Longrightarrow> Strip0x s = s"
  by (simp add: Strip0x_def TrimSpace_hex TrimPrefix_def HasPrefix_0x_hex)

lemma SetString_hex: "hexString s \<Longrightarrow> s \<noteq> [] \<Longrightarrow> SetString s 16 = digitsVal 16 0 s"
proof -
  have "hexVal (CHR ''-'') = None" "hexVal (CHR ''+'') = None" by code_simp+
  then show "hexString s \<Longrightarrow> s \<noteq> [] \<Longrightarrow> SetString s 16 = digitsVal 16 0 s"
    by (auto simp: SetString_def magnitude_def split: list.splits)
qed

lemma HexToBigInt_hex:
  "hexString s \<Longrightarrow> s \<noteq> [] \<Longrightarrow> HexToBigInt s = Inr (the (digitsVal 16 0 s))"
  using hexString_digitsVal [of s 0]
  by (auto simp: HexToBigInt_def Let_def Strip0x_hex SetString_hex)

section \<open>Fixed-width hex\<close>

lemma length_fitDigits [simp]: "length (fitDigits n s) = n"
  by (auto simp: fitDigits_def Repeat0_def Let_def)

lemma digitsVal_fitDigits:
  assumes "digitsVal 16 0 s = Some v"
  shows "digitsVal 16 0 (fitDigits n s) = Some (v mod 16 ^ n)"
proof (cases "length s > n")
  case True
  have "digitsVal 16 0 (take (length s - n) s @ drop (length s - n) s) = Some v" using assms by simp
  from digitsVal_suffix [OF this] show ?thesis using True by (simp add: fitDigits_def)
next
  case False
  have v: "0 \<le> v" "v < 16 ^ length s" using digitsVal_bounds [OF assms] by auto
  moreover have "(16 :: int) ^ length s \<le> 16 ^ n" using False by (intro power_increasing) auto
  ultimately have "v mod 16 ^ n = v" by (intro mod_pos_pos_trivial) linarith+
  then show ?thesis using False assms by (auto simp: fitDigits_def Let_def digitsVal_Repeat0)
qed

lemma hexString_fitDigits: "hexString s \<Longrightarrow> hexString (fitDigits n s)"
  using hexString_digitsVal [of s 0] digitsVal_fitDigits [of s _ n] digitsVal_hexString by fastforce

lemma ToLower_fitDigits: "ToLower (fitDigits n s) = fitDigits n (ToLower s)"
proof -
  have "lowerChar (CHR ''0'') = CHR ''0''" by code_simp
  then show ?thesis by (simp add: fitDigits_def ToLower_def Repeat0_def Let_def drop_map)
qed

text \<open>The canonical 32-byte text of a number below \<open>2 ^ 256\<close>.\<close>

definition hexWidth :: "nat \<Rightarrow> int \<Rightarrow> string" where
  "hexWidth n v = fitDigits (2 * n) (intText 16 v)"

lemma BigIntToHex_Some:
  "0 \<le> v \<Longrightarrow> BigIntToHex (Some v) n p = Inr ((if p then ''0x'' else []) @ hexWidth n v)"
  by (simp add: BigIntToHex_def Let_def ToLower_fitDigits ToLower_intText hexWidth_def mult.commute)

lemma hexString_hexWidth: "0 \<le> v \<Longrightarrow> hexString (hexWidth n v)"
  unfolding hexWidth_def by (intro hexString_fitDigits hexString_intText)

lemma length_hexWidth [simp]: "length (hexWidth n v) = 2 * n"
  by (simp add: hexWidth_def)

lemma HexToBigInt_hexWidth:
  assumes "0 \<le> v" "0 < n"
  shows "HexToBigInt (hexWidth n v) = Inr (v mod 16 ^ (2 * n))"
proof -
  have "hexWidth n v \<noteq> []" using length_hexWidth [of n v] assms(2) by (metis length_0_conv mult_eq_0_iff not_gr_zero zero_neq_numeral)
  then show ?thesis
    using HexToBigInt_hex [OF hexString_hexWidth [OF assms(1)]]
      digitsVal_fitDigits [OF digitsVal_intText [of 16 v]] assms(1)
    by (simp add: hexWidth_def)
qed

lemma hexWidth_roundtrip:
  "0 \<le> v \<Longrightarrow> v < 16 ^ (2 * n) \<Longrightarrow> 0 < n \<Longrightarrow> HexToBigInt (hexWidth n v) = Inr v"
  by (simp add: HexToBigInt_hexWidth)

section \<open>Prefixed hex\<close>

lemma trimLeftSeqs_head:
  assumes "\<forall>u \<in> set us. u \<noteq> [] \<and> hd u \<noteq> hd s"
  shows "trimLeftSeqs us s = s"
proof -
  have "\<not> (u \<noteq> [] \<and> s \<noteq> [] \<and> take (length u) s = u)" if "u \<in> set us" for u
    using assms that by (metis hd_take length_greater_0_conv)
  then have "find (\<lambda>u. u \<noteq> [] \<and> s \<noteq> [] \<and> take (length u) s = u) us = None"
    by (simp add: find_None_iff)
  then show ?thesis by (subst trimLeftSeqs.simps) simp
qed

lemma TrimSpace_0x:
  assumes "hexString s"
  shows "TrimSpace (''0x'' @ s) = ''0x'' @ s"
proof -
  have sp: "\<forall>u \<in> set spaces. u \<noteq> [] \<and> hd u \<noteq> CHR ''0''" "\<forall>u \<in> set (map rev spaces). u \<noteq> [] \<and> hd u \<noteq> CHR ''x''"
    by code_simp+
  have left: "trimLeftSeqs spaces (''0x'' @ s) = ''0x'' @ s"
    using sp(1) by (intro trimLeftSeqs_head) simp
  have "trimLeftSeqs (map rev spaces) (rev (''0x'' @ s)) = rev (''0x'' @ s)"
  proof (rule trimLeftSeqs_head)
    show "\<forall>u \<in> set (map rev spaces). u \<noteq> [] \<and> hd u \<noteq> hd (rev (''0x'' @ s))"
    proof (cases "s = []")
      case True
      then show ?thesis using sp(2) by simp
    next
      case False
      then have "hexVal (hd (rev (''0x'' @ s))) \<noteq> None" using assms by (simp add: hd_append hd_rev)
      then show ?thesis using spaces_not_hex(2) by metis
    qed
  qed
  then show ?thesis unfolding TrimSpace_def left by simp
qed

lemma HasPrefix_0x [simp]: "HasPrefix (CHR ''0'' # CHR ''x'' # s) ''0x''"
  by (simp add: HasPrefix_def)

lemma Strip0x_0x: "hexString s \<Longrightarrow> Strip0x (''0x'' @ s) = s"
  unfolding Strip0x_def by (simp add: TrimSpace_0x [simplified] TrimPrefix_def HasPrefix_0x_hex)

lemma HexToBigInt_0x: "hexString s \<Longrightarrow> HexToBigInt (''0x'' @ s) = HexToBigInt s"
  unfolding HexToBigInt_def by (simp only: Strip0x_0x Strip0x_hex)

section \<open>Bytes as hex text\<close>

abbreviation lowerHex :: "string \<Rightarrow> bool" where
  "lowerHex s \<equiv> \<forall>c \<in> set s. hexVal c \<noteq> None \<and> lowerChar c = c"

lemma lowerHex_digit: "hexVal c = Some d \<Longrightarrow> lowerChar c = c \<Longrightarrow> digitChar d = c"
proof -
  have "\<forall>c \<in> set Enum.enum. case hexVal c of None \<Rightarrow> True | Some d \<Rightarrow> lowerChar c = c \<longrightarrow> digitChar d = c"
    by code_simp
  then show "hexVal c = Some d \<Longrightarrow> lowerChar c = c \<Longrightarrow> ?thesis"
    unfolding UNIV_enum [symmetric] by (auto dest!: spec [of _ c])
qed

lemma lowerHex_ToLower: "lowerHex s \<longleftrightarrow> hexString s \<and> ToLower s = s"
  using map_eq_conv [of lowerChar s id] by (auto simp: ToLower_def)

lemma nibbles: "0 \<le> uint (b :: byte) div 16 \<and> uint b div 16 < 16 \<and> 0 \<le> uint b mod 16 \<and> uint b mod 16 < 16"
  using uint_lt2p [of b] uint_ge_0 [of b] by (simp add: pos_imp_zdiv_nonneg_iff)

lemma lowerHex_hexEncode: "lowerHex (hexEncode bs)"
proof
  fix c assume "c \<in> set (hexEncode bs)"
  then obtain b :: byte where "c = digitChar (uint b div 16) \<or> c = digitChar (uint b mod 16)"
    by (auto simp: hexEncode_def)
  then obtain d where "c = digitChar d" "0 \<le> d" "d < 16"
    using nibbles [of b] by auto
  then show "hexVal c \<noteq> None \<and> lowerChar c = c"
    by (simp add: hexVal_digitChar lowerChar_digitChar)
qed

lemma BytesToHex_hexEncode [simp]: "BytesToHex bs False = hexEncode bs"
  using lowerHex_hexEncode [of bs] by (simp only: BytesToHex_def lowerHex_ToLower Let_def if_False)

lemma hexEncode_simps [simp]:
  "hexEncode [] = []"
  "hexEncode (b # bs) = digitChar (uint b div 16) # digitChar (uint b mod 16) # hexEncode bs"
  "hexEncode (as @ bs) = hexEncode as @ hexEncode bs"
  by (simp_all add: hexEncode_def)

lemma length_hexEncode [simp]: "length (hexEncode bs) = 2 * length bs"
  by (induction bs) simp_all

lemma hexDecode_hexEncode [simp]: "hexDecode (hexEncode bs) = Inr bs"
proof (induction bs)
  case (Cons b bs)
  have "word_of_int (16 * (uint b div 16) + uint b mod 16) = b"
    by (simp only: mult_div_mod_eq word_of_int_uint)
  then show ?case
    using Cons nibbles [of b] by (simp add: hexVal_digitChar)
qed simp

lemma hexDecode_hexString: "hexDecode s = Inr bs \<Longrightarrow> hexString s"
  by (induction s arbitrary: bs rule: hexDecode.induct) (auto split: option.splits simp: andThen_Inr)

lemma hexEncode_hexDecode: "hexDecode s = Inr bs \<Longrightarrow> ToLower s = s \<Longrightarrow> hexEncode bs = s"
proof (induction s arbitrary: bs rule: hexDecode.induct)
  case (3 a b cs)
  then obtain x y cs' where v: "hexVal a = Some x" "hexVal b = Some y" "hexDecode cs = Inr cs'"
      "bs = word_of_int (16 * x + y) # cs'"
    by (auto split: option.splits simp: andThen_Inr)
  have xy: "0 \<le> x" "x < 16" "0 \<le> y" "y < 16"
    using hexVal_bounds v(1,2) by blast+
  have u: "uint (word_of_int (16 * x + y) :: byte) = 16 * x + y"
    unfolding uint_word_of_int using xy by simp
  show ?case
    using 3 v xy by (simp add: ToLower_def lowerHex_digit u [simplified])
qed (auto split: option.splits)

lemma hexDecode_total: "hexString s \<Longrightarrow> even (length s) \<Longrightarrow> \<exists>bs. hexDecode s = Inr bs"
  by (induction s rule: hexDecode.induct) (fastforce split: option.split)+

lemma lowerChar_idem [simp]: "lowerChar (lowerChar c) = lowerChar c"
  by (auto simp: lowerChar_def Let_def)

lemma ToLower_idem [simp]: "ToLower (ToLower s) = ToLower s"
  by (simp add: ToLower_def)

lemma ToLower_append: "ToLower (s @ t) = ToLower s @ ToLower t"
  by (simp add: ToLower_def)

section \<open>Decimal text\<close>

lemma digit_not_sign: "0 \<le> d \<Longrightarrow> d < 36 \<Longrightarrow> digitChar d \<notin> {CHR ''-'', CHR ''+'', CHR '':''}"
  using digitVal_digitChar [of d] by (auto simp: digitVal_def)

lemma intText_no_sign: "2 \<le> b \<Longrightarrow> b \<le> 36 \<Longrightarrow> 0 \<le> n \<Longrightarrow> set (intText b n) \<inter> {CHR ''-'', CHR ''+'', CHR '':''} = {}"
  using intText_chars [of b n] digit_not_sign by fastforce

lemma SetString_decimal [simp]: "SetString (decimal i) 10 = Some i"
proof -
  have abs: "magnitude 10 (intText 10 n) = Some n" if "0 \<le> n" for n
    using that by (simp add: magnitude_def digitsVal_intText)
  show ?thesis
  proof (cases "i < 0")
    case True
    then show ?thesis by (simp add: SetString_def decimal_def abs)
  next
    case False
    obtain c cs where cs: "intText 10 i = c # cs"
      by (cases "intText 10 i") auto
    then have "c \<notin> {CHR ''-'', CHR ''+''}"
      using intText_no_sign [of 10 i] False by auto
    then show ?thesis
      using False abs [of i] by (simp add: SetString_def decimal_def cs)
  qed
qed

lemma decimal_inject [simp]: "decimal i = decimal j \<longleftrightarrow> i = j"
  by (metis SetString_decimal option.inject)

lemma decimal_no_colon: "CHR '':'' \<notin> set (decimal i)"
  using intText_no_sign [of 10 "\<bar>i\<bar>"] by (auto simp: decimal_def split: if_splits)

end
