(* ===== verification/Poseidon.thy ===== *)
theory Poseidon
  imports Hex
begin

text \<open>
  Models \<^verbatim>\<open>pkg/crypto/poseidon.go\<close>: the Poseidon permutation over the SNARK field.
  The embedded file \<^verbatim>\<open>poseidon_constants_opt.json\<close> is data; its decoded content is
  the argument \<open>raw\<close> of every definition that hashes. The slice accesses of the code are
  in range exactly when \<open>constantsCover\<close> holds; otherwise the code panics.
\<close>

record poseidonConstantsRaw =
  rawC :: "string list list"
  rawS :: "string list list"
  rawM :: "string list list list"
  rawP :: "string list list list"

record poseidonConstants =
  constC :: "int list list"
  constS :: "int list list"
  constM :: "int list list list"
  constP :: "int list list list"

definition nRoundsF :: nat where
  "nRoundsF = 8"

definition nRoundsP :: "nat list" where
  "nRoundsP = [56, 57, 56, 60, 60, 63, 64, 63, 60, 66, 60, 65, 70, 60, 64, 68]"

section \<open>Field arithmetic\<close>

definition field :: "int \<Rightarrow> int" where
  "field value = (let out = value mod SNARKPrime in if out < 0 then out + SNARKPrime else out)"

definition fadd :: "int \<Rightarrow> int \<Rightarrow> int" where
  "fadd left right = (left + right) mod SNARKPrime"

definition fmul :: "int \<Rightarrow> int \<Rightarrow> int" where
  "fmul left right = (left * right) mod SNARKPrime"

definition exp5 :: "int \<Rightarrow> int" where
  "exp5 value = field value ^ 5 mod SNARKPrime"

section \<open>Loading the constants\<close>

definition parseConstantRow :: "nat \<Rightarrow> string list \<Rightarrow> int list res" where
  "parseConstantRow i row = foldResI 0 (\<lambda>j value out.
     andThen (wrapErr ''constant row %d item %d: %w'' [ANat i, ANat j] (HexToBigInt value)) (\<lambda>n.
     Inr (out @ [field n]))) row []"

definition parseConstantRows :: "string list list \<Rightarrow> int list list res" where
  "parseConstantRows rows = foldResI 0 (\<lambda>i row out.
     andThen (parseConstantRow i row) (\<lambda>r. Inr (out @ [r]))) rows []"

definition parseConstantMatrix :: "nat \<Rightarrow> string list list \<Rightarrow> int list list res" where
  "parseConstantMatrix i matrix = foldResI 0 (\<lambda>j row out.
     andThen (foldResI 0 (\<lambda>k value o2.
       andThen (wrapErr ''constant matrix %d row %d item %d: %w'' [ANat i, ANat j, ANat k] (HexToBigInt value)) (\<lambda>n.
       Inr (o2 @ [field n]))) row []) (\<lambda>r. Inr (out @ [r]))) matrix []"

definition parseConstantMatrices :: "string list list list \<Rightarrow> int list list list res" where
  "parseConstantMatrices matrices = foldResI 0 (\<lambda>i matrix out.
     andThen (parseConstantMatrix i matrix) (\<lambda>m. Inr (out @ [m]))) matrices []"

definition loadPoseidonConstants :: "poseidonConstantsRaw \<Rightarrow> poseidonConstants res" where
  "loadPoseidonConstants raw =
     andThen (parseConstantRows (rawC raw)) (\<lambda>c.
     andThen (parseConstantRows (rawS raw)) (\<lambda>s.
     andThen (parseConstantMatrices (rawM raw)) (\<lambda>m.
     andThen (parseConstantMatrices (rawP raw)) (\<lambda>p.
     Inr \<lparr>constC = c, constS = s, constM = m, constP = p\<rparr>))))"

section \<open>Rounds\<close>

definition sbox :: "int list \<Rightarrow> int list" where
  "sbox state = map exp5 state"

definition arc :: "int list \<Rightarrow> int list \<Rightarrow> int list" where
  "arc state c = map (\<lambda>i. fadd (state ! i) (c ! i)) [0..<length state]"

definition mix :: "int list \<Rightarrow> int list list \<Rightarrow> int list" where
  "mix state m = map (\<lambda>i. foldl (\<lambda>lc j. fadd lc (fmul (m ! j ! i) (state ! j))) 0 [0..<length state])
     [0..<length state]"

definition fullRound :: "int list \<Rightarrow> int list \<Rightarrow> int list list \<Rightarrow> int list" where
  "fullRound state c m = mix (arc (sbox state) c) m"

definition slice :: "'a list \<Rightarrow> nat \<Rightarrow> nat \<Rightarrow> 'a list" where
  "slice xs a b = take (b - a) (drop a xs)"

definition partialRound :: "nat \<Rightarrow> int list \<Rightarrow> int list \<Rightarrow> nat \<Rightarrow> int list \<Rightarrow> int list" where
  "partialRound t c s r state =
     (let x0 = fadd (exp5 (state ! 0)) (c ! ((nRoundsF div 2 + 1) * t + r));
          state = state[0 := x0];
          s0 = foldl (\<lambda>a i. fadd a (fmul (s ! ((t * 2 - 1) * r + i)) (state ! i))) 0 [0..<t]
      in s0 # map (\<lambda>k. fadd (state ! k) (fmul x0 (s ! ((t * 2 - 1) * r + t + k - 1)))) [1..<t])"

definition constantsCover :: "poseidonConstants \<Rightarrow> nat \<Rightarrow> nat \<Rightarrow> bool" where
  "constantsCover K t nP \<longleftrightarrow>
     t - 2 < length (constC K) \<and> nRoundsF * t + nP \<le> length (constC K ! (t - 2)) \<and>
     t - 2 < length (constS K) \<and> (t * 2 - 1) * nP \<le> length (constS K ! (t - 2)) \<and>
     t - 2 < length (constM K) \<and> t \<le> length (constM K ! (t - 2)) \<and>
       (\<forall>j < t. t \<le> length (constM K ! (t - 2) ! j)) \<and>
     t - 2 < length (constP K) \<and> t \<le> length (constP K ! (t - 2)) \<and>
       (\<forall>j < t. t \<le> length (constP K ! (t - 2) ! j))"

definition permute :: "poseidonConstants \<Rightarrow> nat \<Rightarrow> nat \<Rightarrow> int list \<Rightarrow> int list" where
  "permute K t nPartialRounds state =
     (let c = constC K ! (t - 2); s = constS K ! (t - 2); m = constM K ! (t - 2); p = constP K ! (t - 2);
          state = arc state (slice c 0 t);
          state = fold (\<lambda>r st. fullRound st (slice c ((r + 1) * t) ((r + 2) * t))
                       (if r = nRoundsF div 2 - 1 then p else m)) [0..<nRoundsF div 2] state;
          state = fold (partialRound t c s) [0..<nPartialRounds] state;
          state = fold (\<lambda>r st. let start = (nRoundsF div 2 + 1) * t + nPartialRounds + r * t
                       in fullRound st (slice c start (start + t)) m) [0..<nRoundsF div 2 - 1] state
      in mix (sbox state) m)"

definition Poseidon :: "poseidonConstantsRaw \<Rightarrow> int list \<Rightarrow> int res" where
  "Poseidon raw inputs =
     (if inputs = [] then Err ''poseidon requires at least one input''
      else if length inputs > length nRoundsP
      then Inl (Errorf ''poseidon supports at most %d inputs'' [ANat (length nRoundsP)])
      else andThen (loadPoseidonConstants raw) (\<lambda>K.
        let t = length inputs + 1; nPartialRounds = nRoundsP ! (t - 2)
        in if constantsCover K t nPartialRounds
           then Inr (permute K t nPartialRounds (0 # map field inputs) ! 0)
           else Inl (Panic ''runtime error: index out of range'')))"

definition PoseidonHex :: "poseidonConstantsRaw \<Rightarrow> string list \<Rightarrow> string res" where
  "PoseidonHex raw inputs =
     andThen (mapRes HexToBigInt inputs) (\<lambda>bigInputs.
     andThen (Poseidon raw bigInputs) (\<lambda>hash. BigIntToHex (Some hash) 32 False))"

section \<open>The hash is a field element\<close>

lemma SNARKPrime_pos: "0 < SNARKPrime"
  by (simp add: SNARKPrime_def)

lemma SNARKPrime_bound: "SNARKPrime < 16 ^ 64"
  by (simp add: SNARKPrime_def)

lemma field_eq: "field v = v mod SNARKPrime"
  using pos_mod_sign [OF SNARKPrime_pos, of v] by (simp add: field_def Let_def)

lemma foldl_fadd_range:
  "0 \<le> a \<Longrightarrow> a < SNARKPrime \<Longrightarrow>
   0 \<le> foldl (\<lambda>lc j. fadd lc (g j)) a js \<and> foldl (\<lambda>lc j. fadd lc (g j)) a js < SNARKPrime"
  by (induction js arbitrary: a) (auto simp: fadd_def SNARKPrime_pos)

lemma mix_range: "x \<in> set (mix state m) \<Longrightarrow> 0 \<le> x \<and> x < SNARKPrime"
proof -
  assume "x \<in> set (mix state m)"
  then obtain i where "x = foldl (\<lambda>lc j. fadd lc (fmul (m ! j ! i) (state ! j))) 0 [0..<length state]"
    by (auto simp: mix_def)
  then show ?thesis
    using foldl_fadd_range [of 0 "\<lambda>j. fmul (m ! j ! i) (state ! j)"] SNARKPrime_pos by simp
qed

lemma length_rounds [simp]:
  "length (sbox st) = length st" "length (arc st c) = length st"
  "length (mix st m) = length st" "length (fullRound st c m) = length st"
  by (simp_all add: sbox_def arc_def mix_def fullRound_def)

lemma length_partialRound: "0 < t \<Longrightarrow> length st = t \<Longrightarrow> length (partialRound t c s r st) = t"
  by (simp add: partialRound_def Let_def)

lemma fold_length:
  "(\<And>r st. length st = n \<Longrightarrow> length (f r st) = n) \<Longrightarrow> length st = n \<Longrightarrow> length (fold f rs st) = n"
  by (induction rs arbitrary: st) auto

lemma length_permute: "0 < t \<Longrightarrow> length st = t \<Longrightarrow> length (permute K t nP st) = t"
  by (auto simp: permute_def Let_def intro!: fold_length length_partialRound)

lemma permute_range:
  "x \<in> set (permute K t nP st) \<Longrightarrow> 0 \<le> x \<and> x < SNARKPrime"
  by (auto simp: permute_def Let_def dest: mix_range)

theorem Poseidon_range: "Poseidon raw inputs = Inr h \<Longrightarrow> 0 \<le> h \<and> h < SNARKPrime"
proof -
  assume "Poseidon raw inputs = Inr h"
  then obtain K where "h = permute K (length inputs + 1) (nRoundsP ! (length inputs + 1 - 2)) (0 # map field inputs) ! 0"
    by (auto simp: Poseidon_def res_elims Let_def split: if_splits)
  then have "h \<in> set (permute K (length inputs + 1) (nRoundsP ! (length inputs + 1 - 2)) (0 # map field inputs))"
    using length_permute [of "length inputs + 1" "0 # map field inputs"] by (metis One_nat_def Suc_eq_plus1 length_Cons length_map nth_mem zero_less_Suc)
  then show ?thesis by (rule permute_range)
qed

text \<open>The inputs only count modulo the field order.\<close>

lemma Poseidon_field: "Poseidon raw (map field inputs) = Poseidon raw inputs"
proof -
  have "map field (map field inputs) = map field inputs" by (simp add: field_eq)
  then show ?thesis unfolding Poseidon_def by (simp only: length_map map_is_Nil_conv)
qed

text \<open>Constants that load and cover every width make the hash total on 1 to 16 inputs.\<close>

definition constantsOk :: "poseidonConstantsRaw \<Rightarrow> nat \<Rightarrow> bool" where
  "constantsOk raw n \<longleftrightarrow>
     (case loadPoseidonConstants raw of Inl _ \<Rightarrow> False
      | Inr K \<Rightarrow> 0 < n \<and> n \<le> 16 \<and> constantsCover K (n + 1) (nRoundsP ! (n - 1)))"

lemma Poseidon_total: "constantsOk raw (length inputs) \<Longrightarrow> \<exists>h. Poseidon raw inputs = Inr h"
  by (auto simp: constantsOk_def Poseidon_def nRoundsP_def Let_def split: sum.splits)

section \<open>A sample table\<close>

text \<open>A small constants file that covers every width, for examples.\<close>

definition sampleConstants :: poseidonConstantsRaw where
  "sampleConstants = \<lparr>rawC = replicate 16 (replicate 400 ''1''), rawS = replicate 16 (replicate 2500 ''1''),
     rawM = replicate 16 (replicate 17 (replicate 17 ''1'')), rawP = replicate 16 (replicate 17 (replicate 17 ''1''))\<rparr>"

lemma foldResI_replicate:
  "(\<And>j out. f j x out = Inr (out @ [y])) \<Longrightarrow> foldResI i f (replicate n x) acc = Inr (acc @ replicate n y)"
  by (induction n arbitrary: i acc) auto

lemma parse_one: "HexToBigInt ''1'' = Inr 1" "field 1 = 1"
  by code_simp+

lemma parse_replicate_rows:
  "parseConstantRows (replicate n (replicate k ''1'')) = Inr (replicate n (replicate k 1))"
  by (simp add: parseConstantRows_def parseConstantRow_def foldResI_replicate [where y = "replicate k 1"]
      foldResI_replicate [where y = 1] parse_one)

lemma parse_replicate_matrices:
  "parseConstantMatrices (replicate n (replicate k (replicate l ''1''))) = Inr (replicate n (replicate k (replicate l 1)))"
  by (simp add: parseConstantMatrices_def parseConstantMatrix_def foldResI_replicate [where y = "replicate k (replicate l 1)"]
      foldResI_replicate [where y = "replicate l 1"] foldResI_replicate [where y = 1] parse_one)

lemma sampleConstants_ok: "0 < n \<Longrightarrow> n \<le> 16 \<Longrightarrow> constantsOk sampleConstants n"
proof -
  assume n: "0 < n" "n \<le> 16"
  have "\<forall>x \<in> set nRoundsP. x \<le> 70" by (simp add: nRoundsP_def)
  moreover have "nRoundsP ! (n - 1) \<in> set nRoundsP" using n by (intro nth_mem) (simp add: nRoundsP_def)
  ultimately have b: "nRoundsP ! (n - 1) \<le> 70" by blast
  have "(2 * n + 1) * nRoundsP ! (n - 1) \<le> 33 * 70"
    by (intro mult_le_mono) (use b n in auto)
  then show ?thesis using n b
    by (simp add: constantsOk_def loadPoseidonConstants_def sampleConstants_def parse_replicate_rows
        parse_replicate_matrices constantsCover_def nRoundsF_def mult.commute add.commute)
qed

end
