(* ===== verification/Merkle.thy ===== *)
theory Merkle
  imports Poseidon
begin

text \<open>
  Models \<^verbatim>\<open>pkg/merkletree/merkletree.go\<close>: proofs, their root and their check, and the
  sparse-tree engine that \<^verbatim>\<open>pkg/utxotree/store.go\<close> and
  \<^verbatim>\<open>pkg/txid/merkletree.go\<close> both contain word for word. The engine takes the node
  hash \<open>H\<close> as an argument; the stores pass \<^verbatim>\<open>HashLeftRight\<close>. The locale
  \<open>node_hash\<close> is the one law the tree needs of its hash.
\<close>

section \<open>pkg/merkletree\<close>

definition TreeDepth :: nat where
  "TreeDepth = 16"

record MerkleProof =
  prfLeaf :: string
  prfIndices :: string
  prfElements :: "string list"
  prfRoot :: string

definition HashLeftRight :: "poseidonConstantsRaw \<Rightarrow> int \<Rightarrow> int \<Rightarrow> int res" where
  "HashLeftRight raw left right = Poseidon raw [left, right]"

definition rootStep :: "(int \<Rightarrow> int \<Rightarrow> int res) \<Rightarrow> int \<Rightarrow> nat \<Rightarrow> string \<Rightarrow> int \<Rightarrow> int res" where
  "rootStep H indices i elementHex current =
     andThen (HexToBigInt elementHex) (\<lambda>element.
     if bit indices i then H element current else H current element)"

definition CalculateRoot :: "poseidonConstantsRaw \<Rightarrow> MerkleProof \<Rightarrow> string res" where
  "CalculateRoot raw proof =
     andThen (HexToBigInt (prfIndices proof)) (\<lambda>indices.
     andThen (HexToBigInt (prfLeaf proof)) (\<lambda>current.
     andThen (foldResI 0 (rootStep (HashLeftRight raw) indices) (prfElements proof) current) (\<lambda>current.
     BigIntToHex (Some current) 32 False)))"

definition normalizeHex :: "string \<Rightarrow> string" where
  "normalizeHex value =
     (let value = dropWhile (\<lambda>c. c = CHR ''0'') (Strip0x value)
      in if value = [] then ''0'' else ToLower value)"

definition VerifyProof :: "poseidonConstantsRaw \<Rightarrow> MerkleProof \<Rightarrow> bool res" where
  "VerifyProof raw proof =
     andThen (CalculateRoot raw proof) (\<lambda>root. Inr (normalizeHex root = normalizeHex (prfRoot proof)))"

definition CreateDummyProof :: "poseidonConstantsRaw \<Rightarrow> string \<Rightarrow> MerkleProof res" where
  "CreateDummyProof raw leaf =
     andThen (BigIntToHex (Some 0) 32 False) (\<lambda>indices.
     andThen (BigIntToHex (Some 0) 32 False) (\<lambda>zero.
     let proof = \<lparr>prfLeaf = leaf, prfIndices = indices, prfElements = replicate TreeDepth zero, prfRoot = []\<rparr>
     in andThen (CalculateRoot raw proof) (\<lambda>root. Inr (proof\<lparr>prfRoot := root\<rparr>))))"

section \<open>The sparse tree engine\<close>

definition hashHexPair :: "(int \<Rightarrow> int \<Rightarrow> int res) \<Rightarrow> string \<Rightarrow> string \<Rightarrow> string res" where
  "hashHexPair H left right =
     andThen (HexToBigInt left) (\<lambda>leftBigInt.
     andThen (HexToBigInt right) (\<lambda>rightBigInt.
     andThen (H leftBigInt rightBigInt) (\<lambda>hash.
     BigIntToHex (Some hash) 32 False)))"

text \<open>The table that \<^verbatim>\<open>zeroHashOnce\<close> fills; an error there makes every reader panic.\<close>

definition zeroHashList :: "(int \<Rightarrow> int \<Rightarrow> int res) \<Rightarrow> string list res" where
  "zeroHashList H =
     andThen (BigIntToHex (Some MerkleZeroValue) 32 False) (\<lambda>z.
     foldRes (\<lambda>level zs. andThen (hashHexPair H (zs ! (level - 1)) (zs ! (level - 1))) (\<lambda>h. Inr (zs @ [h])))
       [1..<TreeDepth + 1] [z])"

definition zeroHashes :: "(int \<Rightarrow> int \<Rightarrow> int res) \<Rightarrow> string list res" where
  "zeroHashes H = (case zeroHashList H of Inl _ \<Rightarrow> Inl (Panic ''zeroHashErr'') | Inr zs \<Rightarrow> Inr zs)"

definition ZeroHash :: "(int \<Rightarrow> int \<Rightarrow> int res) \<Rightarrow> int \<Rightarrow> string res" where
  "ZeroHash H level =
     (let level = (if level < 0 then 0 else level)
      in andThen (zeroHashes H) (\<lambda>zeros.
         Inr (if level \<ge> int (length zeros) then zeros ! (length zeros - 1) else zeros ! nat level)))"

type_synonym levels = "(uint64, string) gomap list"

definition nodeAtLevel :: "(int \<Rightarrow> int \<Rightarrow> int res) \<Rightarrow> levels \<Rightarrow> nat \<Rightarrow> uint64 \<Rightarrow> string res" where
  "nodeAtLevel H levels level index =
     (case (if level < length levels then gget (levels ! level) index else None) of
        Some value \<Rightarrow> Inr value
      | None \<Rightarrow> ZeroHash H (int level))"

text \<open>One turn of the loop over the indices of a level, with \<^verbatim>\<open>seenParents\<close> and \<^verbatim>\<open>next\<close>.\<close>

definition parentStep ::
  "(int \<Rightarrow> int \<Rightarrow> int res) \<Rightarrow> levels \<Rightarrow> nat \<Rightarrow> uint64
   \<Rightarrow> uint64 list \<times> (uint64, string) gomap \<Rightarrow> (uint64 list \<times> (uint64, string) gomap) res" where
  "parentStep H levels level index st =
     (case st of (seenParents, nxt) \<Rightarrow>
      let parent = drop_bit 1 index
      in if parent \<in> set seenParents then Inr (seenParents, nxt)
         else (let leftIndex = push_bit 1 parent; rightIndex = leftIndex + 1 in
           andThen (nodeAtLevel H levels level leftIndex) (\<lambda>left.
           andThen (nodeAtLevel H levels level rightIndex) (\<lambda>right.
           andThen (hashHexPair H left right) (\<lambda>hash.
           andThen (ZeroHash H (int level + 1)) (\<lambda>z.
           Inr (parent # seenParents, if hash \<noteq> z then gput parent hash nxt else nxt))))))) "

definition raiseLevel :: "(int \<Rightarrow> int \<Rightarrow> int res) \<Rightarrow> nat \<Rightarrow> levels \<Rightarrow> levels res" where
  "raiseLevel H level levels =
     andThen (foldRes (parentStep H levels level) (map fst (levels ! level)) ([], []))
       (\<lambda>(_, nxt). Inr (levels @ [nxt]))"

definition raiseLevels :: "(int \<Rightarrow> int \<Rightarrow> int res) \<Rightarrow> (uint64, string) gomap \<Rightarrow> levels res" where
  "raiseLevels H leaves = foldRes (raiseLevel H) [0..<TreeDepth] [leaves]"

definition proofElements :: "(int \<Rightarrow> int \<Rightarrow> int res) \<Rightarrow> levels \<Rightarrow> uint64 \<Rightarrow> string list res" where
  "proofElements H levels index =
     mapRes (\<lambda>level. nodeAtLevel H levels level (drop_bit level index XOR 1)) [0..<TreeDepth]"

section \<open>The full tree, as the specification\<close>

text \<open>The value of a node of the full binary tree over the leaves, absent leaves being the zero value.\<close>

fun fullNode :: "(int \<Rightarrow> int \<Rightarrow> int res) \<Rightarrow> (uint64 \<Rightarrow> string option) \<Rightarrow> nat \<Rightarrow> uint64 \<Rightarrow> string res" where
  "fullNode H leaf 0 i = (case leaf i of
      Some h \<Rightarrow> Inr h
    | None \<Rightarrow> BigIntToHex (Some MerkleZeroValue) 32 False)"
| "fullNode H leaf (Suc l) i =
     andThen (fullNode H leaf l (push_bit 1 i)) (\<lambda>left.
     andThen (fullNode H leaf l (push_bit 1 i + 1)) (\<lambda>right. hashHexPair H left right))"

section \<open>The contract of a node hash\<close>

locale node_hash =
  fixes H :: "int \<Rightarrow> int \<Rightarrow> int res"
  assumes hash_range: "H l r = Inr h \<Longrightarrow> 0 \<le> h \<and> h < 16 ^ 64"
begin

lemma hashHexPair_Inr:
  "hashHexPair H left right = Inr out \<longleftrightarrow>
   (\<exists>l r h. HexToBigInt left = Inr l \<and> HexToBigInt right = Inr r \<and> H l r = Inr h \<and> out = hexWidth 32 h)"
  using hash_range by (fastforce simp: hashHexPair_def res_elims BigIntToHex_Some)

lemma hashHexPair_value:
  "hashHexPair H left right = Inr out \<Longrightarrow> \<exists>h. 0 \<le> h \<and> h < 16 ^ 64 \<and> out = hexWidth 32 h \<and> HexToBigInt out = Inr h"
  using hash_range hexWidth_roundtrip [of _ 32] by (fastforce simp: hashHexPair_Inr)

end

interpretation poseidon_hash: node_hash "HashLeftRight raw" for raw
  using Poseidon_range SNARKPrime_bound by unfold_locales (fastforce simp: HashLeftRight_def)

lemma HashLeftRight_total: "constantsOk raw 2 \<Longrightarrow> \<exists>h. HashLeftRight raw l r = Inr h"
  using Poseidon_total [of raw "[l, r]"] by (simp add: HashLeftRight_def numeral_2_eq_2)

section \<open>Index arithmetic\<close>

lemma uint_drop1: "uint (drop_bit 1 (j :: uint64)) = uint j div 2"
  using uint_bounded [of j] by (subst unsigned_drop_bit_eq) (simp add: drop_bit_eq_div take_bit_int_eq_self)

lemma uint_push_drop: "uint (push_bit 1 (drop_bit 1 (j :: uint64))) = 2 * (uint j div 2)"
proof -
  have "2 * (uint j div 2) < 2 ^ 64" using uint_bounded [of j] by simp
  then show ?thesis using uint_drop1 [of j]
    by (simp add: push_bit_eq_mult uint_word_ariths algebra_simps)
qed

lemma even_uint: "even (uint (j :: uint64)) \<longleftrightarrow> even j"
  using bit_uint_iff [of j 0] by (simp add: bit_0)

lemma push_drop_even:
  assumes "even (j :: uint64)"
  shows "push_bit 1 (drop_bit 1 j) = j" "push_bit 1 (drop_bit 1 j) + 1 = j XOR 1"
proof -
  show "push_bit 1 (drop_bit 1 j) = j"
    using uint_push_drop [of j] assms even_uint [of j] by (simp add: word_uint_eq_iff)
  then show "push_bit 1 (drop_bit 1 j) + 1 = j XOR 1" using assms by (simp add: xor_one_eq)
qed

lemma push_drop_odd:
  assumes "odd (j :: uint64)"
  shows "push_bit 1 (drop_bit 1 j) = j XOR 1" "push_bit 1 (drop_bit 1 j) + 1 = j"
proof -
  define w where "w = push_bit 1 (drop_bit 1 j)"
  have u: "uint w + 1 = uint j"
    unfolding w_def uint_push_drop using assms even_uint [of j] by presburger
  then have "uint w + 1 < 2 ^ 64" using uint_bounded [of j] by simp
  then have "uint (w + 1) = uint w + 1" by (simp add: uint_word_ariths)
  then have w1: "w + 1 = j" using u by (simp only: word_uint_eq_iff)
  then have "w = j - 1" by (metis add_diff_cancel_right')
  moreover have "j XOR 1 = j - 1" using assms by (simp add: xor_one_eq)
  ultimately show "push_bit 1 (drop_bit 1 j) = j XOR 1" unfolding w_def by (rule trans [OF _ sym])
  show "push_bit 1 (drop_bit 1 j) + 1 = j" using w1 unfolding w_def .
qed

text \<open>The node indices of a level, bounded so that doubling does not wrap.\<close>

abbreviation inRange :: "nat \<Rightarrow> uint64 \<Rightarrow> bool" where
  "inRange l i \<equiv> uint i < 2 ^ (63 - l)"

lemma children:
  assumes "inRange (Suc l) i" "l < 63"
  shows "uint (push_bit 1 i) = 2 * uint i" "uint (push_bit 1 i + 1) = 2 * uint i + 1"
    "inRange l (push_bit 1 i)" "inRange l (push_bit 1 i + 1)"
    "drop_bit 1 (push_bit 1 i) = i" "drop_bit 1 (push_bit 1 i + 1) = i"
proof -
  have p: "2 * 2 ^ (63 - Suc l) = (2 :: int) ^ (63 - l)" using assms(2)
    by (metis Suc_diff_Suc power_Suc)
  then have lt: "2 * uint i + 1 < 2 ^ (63 - l)" using assms(1) by linarith
  moreover have "(2 :: int) ^ (63 - l) \<le> 2 ^ 63" by (intro power_increasing) auto
  ultimately have b: "2 * uint i + 1 < 2 ^ 64" by simp
  then show l: "uint (push_bit 1 i) = 2 * uint i"
    by (simp add: push_bit_eq_mult uint_word_ariths algebra_simps)
  then show r: "uint (push_bit 1 i + 1) = 2 * uint i + 1"
    using b by (simp add: uint_word_ariths)
  show "inRange l (push_bit 1 i)" "inRange l (push_bit 1 i + 1)"
    using l r lt by simp_all
  have "uint (drop_bit 1 (push_bit 1 i)) = uint i" "uint (drop_bit 1 (push_bit 1 i + 1)) = uint i"
    unfolding uint_drop1 l r by simp_all
  then show "drop_bit 1 (push_bit 1 i) = i" "drop_bit 1 (push_bit 1 i + 1) = i"
    by (simp_all only: word_uint_eq_iff)
qed

lemma children_of:
  "drop_bit 1 (j :: uint64) = i \<Longrightarrow> j = push_bit 1 i \<or> j = push_bit 1 i + 1"
  using push_drop_even [of j] push_drop_odd [of j] by metis

section \<open>The sparse tree computes the full tree\<close>

abbreviation parses :: "string \<Rightarrow> bool" where
  "parses s \<equiv> \<exists>n. HexToBigInt s = Inr n"

definition pairHash :: "(int \<Rightarrow> int \<Rightarrow> int res) \<Rightarrow> levels \<Rightarrow> nat \<Rightarrow> uint64 \<Rightarrow> string res" where
  "pairHash H levels l p =
     andThen (nodeAtLevel H levels l (push_bit 1 p)) (\<lambda>left.
     andThen (nodeAtLevel H levels l (push_bit 1 p + 1)) (\<lambda>right. hashHexPair H left right))"

lemma mapRes_append_one:
  "mapRes f (xs @ [x]) = Inr ys \<longleftrightarrow> (\<exists>zs y. mapRes f xs = Inr zs \<and> f x = Inr y \<and> ys = zs @ [y])"
  by (induction xs arbitrary: ys) (auto simp: res_elims)

context node_hash
begin

lemma MerkleZeroValue_hex:
  "BigIntToHex (Some MerkleZeroValue) 32 False = Inr (hexWidth 32 MerkleZeroValue)"
  by (simp add: BigIntToHex_Some MerkleZeroValue_def)

lemma zero_parses: "parses (hexWidth 32 MerkleZeroValue)"
  using HexToBigInt_hexWidth [of MerkleZeroValue 32] by (simp add: MerkleZeroValue_def)

lemma hashHexPair_parses: "hashHexPair H left right = Inr out \<Longrightarrow> parses out"
  using hashHexPair_value by blast

lemma hashHexPair_total:
  "(\<And>l r. \<exists>h. H l r = Inr h) \<Longrightarrow> parses left \<Longrightarrow> parses right \<Longrightarrow> \<exists>out. hashHexPair H left right = Inr out"
  unfolding hashHexPair_Inr by blast

lemma zeroTable:
  "foldRes (\<lambda>level zs. andThen (hashHexPair H (zs ! (level - 1)) (zs ! (level - 1))) (\<lambda>h. Inr (zs @ [h])))
     [1..<Suc n] [z] = Inr zs \<Longrightarrow>
   length zs = Suc n \<and> zs ! 0 = z \<and> (\<forall>l < n. hashHexPair H (zs ! l) (zs ! l) = Inr (zs ! Suc l))"
proof (induction n arbitrary: zs)
  case (Suc n)
  from Suc.prems obtain ys h where ys:
    "foldRes (\<lambda>level zs. andThen (hashHexPair H (zs ! (level - 1)) (zs ! (level - 1))) (\<lambda>h. Inr (zs @ [h])))
       [1..<Suc n] [z] = Inr ys" "hashHexPair H (ys ! n) (ys ! n) = Inr h" "zs = ys @ [h]"
    by (auto simp: foldRes_append res_elims upt_Suc_append simp del: upt_Suc)
  from Suc.IH [OF ys(1)] ys(2,3) show ?case by (auto simp: nth_append less_Suc_eq)
qed simp

lemma zeroTable_total:
  assumes "\<And>l r. \<exists>h. H l r = Inr h" "parses z"
  shows "\<exists>zs. foldRes (\<lambda>level zs. andThen (hashHexPair H (zs ! (level - 1)) (zs ! (level - 1))) (\<lambda>h. Inr (zs @ [h])))
     [1..<Suc n] [z] = Inr zs \<and> parses (zs ! n)"
proof (induction n)
  case 0
  then show ?case using assms by simp
next
  case (Suc n)
  then obtain zs where zs: "foldRes (\<lambda>level zs. andThen (hashHexPair H (zs ! (level - 1)) (zs ! (level - 1))) (\<lambda>h. Inr (zs @ [h])))
     [1..<Suc n] [z] = Inr zs" "parses (zs ! n)" by blast
  obtain h where h: "hashHexPair H (zs ! n) (zs ! n) = Inr h" using hashHexPair_total [OF assms(1) zs(2) zs(2)] by blast
  have "length zs = Suc n" using zeroTable [OF zs(1)] by simp
  then show ?case using zs h hashHexPair_parses [OF h]
    by (auto simp: foldRes_append upt_Suc_append nth_append simp del: upt_Suc)
qed

lemma zeroHashes_Inr:
  assumes "zeroHashes H = Inr zs"
  shows "length zs = 17" "zs ! 0 = hexWidth 32 MerkleZeroValue"
    "l < 16 \<Longrightarrow> hashHexPair H (zs ! l) (zs ! l) = Inr (zs ! Suc l)"
    "l \<le> 16 \<Longrightarrow> ZeroHash H (int l) = Inr (zs ! l)"
proof -
  have z: "zeroHashList H = Inr zs" using assms by (auto simp: zeroHashes_def split: sum.splits)
  then have "foldRes (\<lambda>level zs. andThen (hashHexPair H (zs ! (level - 1)) (zs ! (level - 1))) (\<lambda>h. Inr (zs @ [h])))
     [1..<Suc 16] [hexWidth 32 MerkleZeroValue] = Inr zs"
    unfolding zeroHashList_def MerkleZeroValue_hex TreeDepth_def by (simp del: upt_Suc)
  from zeroTable [OF this] show l: "length zs = 17" and "zs ! 0 = hexWidth 32 MerkleZeroValue"
    and "l < 16 \<Longrightarrow> hashHexPair H (zs ! l) (zs ! l) = Inr (zs ! Suc l)" by auto
  show "l \<le> 16 \<Longrightarrow> ZeroHash H (int l) = Inr (zs ! l)"
    using assms l by (simp add: ZeroHash_def)
qed

lemma zeroHashes_total:
  assumes "\<And>l r. \<exists>h. H l r = Inr h"
  shows "\<exists>zs. zeroHashes H = Inr zs"
  using zeroTable_total [OF assms zero_parses, of 16]
  by (auto simp: zeroHashes_def zeroHashList_def MerkleZeroValue_hex TreeDepth_def simp del: upt_Suc)

text \<open>What one level holds while its parents are being filled in.\<close>

definition levelInv where
  "levelInv levels l z st \<longleftrightarrow>
     (\<forall>p. p \<notin> set (fst st) \<longrightarrow> gget (snd st) p = None) \<and>
     (\<forall>p \<in> set (fst st). \<exists>h. pairHash H levels l p = Inr h \<and> gget (snd st) p = (if h = z then None else Some h))"

lemma parentStep_inv:
  assumes "parentStep H levels l index st = Inr st'" "ZeroHash H (int l + 1) = Inr z" "levelInv levels l z st"
  shows "levelInv levels l z st' \<and> set (fst st') = insert (drop_bit 1 index) (set (fst st))"
proof (cases st)
  case (Pair seen nxt)
  show ?thesis
  proof (cases "drop_bit 1 index \<in> set seen")
    case True
    then show ?thesis using assms Pair by (auto simp: parentStep_def Let_def)
  next
    case False
    then obtain h where h: "pairHash H levels l (drop_bit 1 index) = Inr h"
      "st' = (drop_bit 1 index # seen, if h \<noteq> z then gput (drop_bit 1 index) h nxt else nxt)"
      using assms(1,2) Pair by (auto simp: parentStep_def Let_def res_elims pairHash_def)
    show ?thesis using assms(3) h False Pair unfolding levelInv_def by (auto simp: gomap_simps)
  qed
qed

lemma parentSteps_inv:
  assumes "foldRes (parentStep H levels l) ks st = Inr st'" "ZeroHash H (int l + 1) = Inr z" "levelInv levels l z st"
  shows "levelInv levels l z st' \<and> set (fst st') = drop_bit 1 ` set ks \<union> set (fst st)"
  using assms
proof (induction ks arbitrary: st)
  case (Cons k ks)
  from Cons.prems(1) obtain s where s: "parentStep H levels l k st = Inr s" "foldRes (parentStep H levels l) ks s = Inr st'"
    by (auto simp: res_elims)
  note p = parentStep_inv [OF s(1) Cons.prems(2,3)]
  from Cons.IH [OF s(2) Cons.prems(2) conjunct1 [OF p]] p show ?case by auto
qed simp

lemma parentSteps_total:
  assumes "\<And>l r. \<exists>h. H l r = Inr h" "ZeroHash H (int l + 1) = Inr z"
    and "\<And>i. \<exists>v. nodeAtLevel H levels l i = Inr v \<and> parses v"
  shows "\<exists>st'. foldRes (parentStep H levels l) ks st = Inr st'"
proof (induction ks arbitrary: st)
  case (Cons k ks)
  obtain seen nxt where st: "st = (seen, nxt)" by fastforce
  obtain left right where n: "nodeAtLevel H levels l (push_bit 1 (drop_bit 1 k)) = Inr left" "parses left"
    "nodeAtLevel H levels l (push_bit 1 (drop_bit 1 k) + 1) = Inr right" "parses right"
    using assms(3) by meson
  obtain h where "hashHexPair H left right = Inr h" using hashHexPair_total [OF assms(1) n(2,4)] by blast
  then have "\<exists>s. parentStep H levels l k st = Inr s"
    using n(1,3) assms(2) st by (simp add: parentStep_def Let_def)
  then show ?case using Cons.IH by auto
qed simp

text \<open>The invariant between levels, and one level more.\<close>

definition treeInv where
  "treeInv leaf n levels \<longleftrightarrow> length levels = Suc n \<and>
     (\<forall>l \<le> n. (\<forall>i v. gget (levels ! l) i = Some v \<longrightarrow> parses v) \<and>
       (\<forall>i. inRange l i \<longrightarrow> nodeAtLevel H levels l i = fullNode H leaf l i))"

lemma nodeAtLevel_append:
  "l < length levels \<Longrightarrow> nodeAtLevel H (levels @ xs) l i = nodeAtLevel H levels l i"
  by (simp add: nodeAtLevel_def nth_append)

lemma ZeroHash_parses:
  assumes "zeroHashes H = Inr zs" "l \<le> 16"
  shows "parses (zs ! l)"
proof (cases l)
  case 0
  then show ?thesis using zeroHashes_Inr(2) [OF assms(1)] zero_parses by simp
next
  case (Suc k)
  then show ?thesis using zeroHashes_Inr(3) [OF assms(1), of k] assms(2) hashHexPair_parses by auto
qed

lemma nodeAtLevel_parses:
  assumes "zeroHashes H = Inr zs" "l \<le> 16" "\<And>i v. gget (levels ! l) i = Some v \<Longrightarrow> parses v"
  shows "\<exists>v. nodeAtLevel H levels l i = Inr v \<and> parses v"
  using assms zeroHashes_Inr(4) [OF assms(1,2)] ZeroHash_parses [OF assms(1,2)]
  by (auto simp: nodeAtLevel_def split: option.splits if_splits)

lemma raiseLevel_step:
  assumes "zeroHashes H = Inr zs" "n < 16" "treeInv leaf n levels" "raiseLevel H n levels = Inr levels'"
  shows "treeInv leaf (Suc n) levels'"
proof -
  from assms(4) obtain seen nxt where f:
    "foldRes (parentStep H levels n) (map fst (levels ! n)) ([], []) = Inr (seen, nxt)" "levels' = levels @ [nxt]"
    by (auto simp: raiseLevel_def res_elims)
  have len: "length levels = Suc n" using assms(3) by (simp add: treeInv_def)
  have z: "ZeroHash H (int n + 1) = Inr (zs ! Suc n)"
    using zeroHashes_Inr(4) [OF assms(1), of "Suc n"] assms(2) by (simp add: add.commute)
  have inv: "levelInv levels n (zs ! Suc n) (seen, nxt)" "set seen = drop_bit 1 ` set (map fst (levels ! n))"
    using parentSteps_inv [OF f(1) z] by (auto simp: levelInv_def)
  have node: "nodeAtLevel H levels' (Suc n) p = pairHash H levels n p" if p: "inRange (Suc n) p" for p
  proof (cases "p \<in> set seen")
    case True
    then show ?thesis using inv(1) z len f(2)
      by (force simp: levelInv_def nodeAtLevel_def nth_append add.commute)
  next
    case False
    have "gget (levels ! n) j = None" if "drop_bit 1 j = p" for j
      using False that inv(2) by (fastforce simp: map_of_eq_None_iff)
    then have "nodeAtLevel H levels n (push_bit 1 p) = Inr (zs ! n)" "nodeAtLevel H levels n (push_bit 1 p + 1) = Inr (zs ! n)"
      using children(5,6) [OF p] assms(2) zeroHashes_Inr(4) [OF assms(1), of n] by (simp_all add: nodeAtLevel_def)
    then have "pairHash H levels n p = Inr (zs ! Suc n)"
      using zeroHashes_Inr(3) [OF assms(1,2)] by (simp add: pairHash_def)
    moreover have "nodeAtLevel H levels' (Suc n) p = Inr (zs ! Suc n)"
      using False inv(1) z len f(2) by (simp add: levelInv_def nodeAtLevel_def nth_append add.commute)
    ultimately show ?thesis by simp
  qed
  have full: "pairHash H levels n p = fullNode H leaf (Suc n) p" if p: "inRange (Suc n) p" for p
    using assms(2,3) children(3,4) [OF p] by (simp add: pairHash_def treeInv_def)
  have "parses v" if "gget nxt p = Some v" for p v
  proof -
    have "p \<in> set seen" using that inv(1) by (auto simp: levelInv_def)
    then have "pairHash H levels n p = Inr v" using that inv(1) by (auto simp: levelInv_def split: if_splits)
    then show ?thesis using hashHexPair_parses by (auto simp: pairHash_def res_elims)
  qed
  then show ?thesis
    using assms(3) len f(2) node full by (auto simp: treeInv_def nth_append le_Suc_eq nodeAtLevel_append)
qed

lemma raiseLevels_spec_aux:
  assumes "\<And>l r. \<exists>h. H l r = Inr h" "zeroHashes H = Inr zs" "\<And>i v. gget leaves i = Some v \<Longrightarrow> parses v" "n \<le> 16"
  shows "\<exists>levels. foldRes (raiseLevel H) [0..<n] [leaves] = Inr levels \<and> treeInv (gget leaves) n levels"
  using assms(4)
proof (induction n)
  case 0
  have "nodeAtLevel H [leaves] 0 i = fullNode H (gget leaves) 0 i" for i
    using zeroHashes_Inr(2) [OF assms(2)] zeroHashes_Inr(4) [OF assms(2), of 0] MerkleZeroValue_hex
    by (auto simp: nodeAtLevel_def split: option.splits)
  then show ?case using assms(3) by (auto simp: treeInv_def)
next
  case (Suc n)
  then obtain levels where l: "foldRes (raiseLevel H) [0..<n] [leaves] = Inr levels" "treeInv (gget leaves) n levels"
    by auto
  have "\<exists>v. nodeAtLevel H levels n i = Inr v \<and> parses v" for i
    using nodeAtLevel_parses [OF assms(2), where l = n and levels = levels] l(2) Suc.prems by (auto simp: treeInv_def)
  moreover have "ZeroHash H (int n + 1) = Inr (zs ! Suc n)"
    using zeroHashes_Inr(4) [OF assms(2), of "Suc n"] Suc.prems by (simp add: add.commute)
  ultimately obtain st where "foldRes (parentStep H levels n) (map fst (levels ! n)) ([], []) = Inr st"
    using parentSteps_total [OF assms(1)] by blast
  then have r: "raiseLevel H n levels = Inr (levels @ [snd st])" by (simp add: raiseLevel_def split: prod.splits)
  with raiseLevel_step [OF assms(2) _ l(2)] Suc.prems have "treeInv (gget leaves) (Suc n) (levels @ [snd st])" by simp
  then show ?case using l(1) r by (auto simp: foldRes_append)
qed

lemma raiseLevels_spec:
  assumes "\<And>l r. \<exists>h. H l r = Inr h" "\<And>i v. gget leaves i = Some v \<Longrightarrow> parses v"
  obtains levels where "raiseLevels H leaves = Inr levels" "treeInv (gget leaves) 16 levels"
    "\<And>l i. l \<le> 16 \<Longrightarrow> inRange l i \<Longrightarrow>
       nodeAtLevel H levels l i = fullNode H (gget leaves) l i \<and> (\<exists>v. nodeAtLevel H levels l i = Inr v \<and> parses v)"
proof -
  obtain zs where zs: "zeroHashes H = Inr zs" using zeroHashes_total [OF assms(1)] by blast
  obtain levels where l: "foldRes (raiseLevel H) [0..<16] [leaves] = Inr levels" "treeInv (gget leaves) 16 levels"
    using raiseLevels_spec_aux [OF assms(1) zs, where leaves = leaves and n = 16] assms(2) by auto
  show thesis
  proof (rule that)
    show "raiseLevels H leaves = Inr levels" using l(1) by (simp add: raiseLevels_def TreeDepth_def)
    show "treeInv (gget leaves) 16 levels" by (rule l(2))
    show "nodeAtLevel H levels k i = fullNode H (gget leaves) k i \<and> (\<exists>v. nodeAtLevel H levels k i = Inr v \<and> parses v)"
      if "k \<le> 16" "inRange k i" for k i
    proof
      show "nodeAtLevel H levels k i = fullNode H (gget leaves) k i" using l(2) that by (simp add: treeInv_def)
      show "\<exists>v. nodeAtLevel H levels k i = Inr v \<and> parses v"
        by (rule nodeAtLevel_parses [OF zs that(1)]) (use l(2) that in \<open>auto simp: treeInv_def\<close>)
    qed
  qed
qed

text \<open>Walking up from a leaf along the sibling elements reproduces the root.\<close>

lemma fullNode_parent:
  assumes "fullNode H leaf l (j XOR 1) = Inr sib" "fullNode H leaf l j = Inr cur"
  shows "fullNode H leaf (Suc l) (drop_bit 1 j) =
     (if odd j then hashHexPair H sib cur else hashHexPair H cur sib)"
proof (cases "odd j")
  case True
  then show ?thesis using push_drop_odd [of j] assms by simp
next
  case False
  then show ?thesis using push_drop_even [of j] assms by simp
qed

lemma climb:
  assumes "mapRes (\<lambda>l. fullNode H leaf l (drop_bit l idx XOR 1)) [0..<n] = Inr els" "n < 64"
    and "fullNode H leaf n (drop_bit n idx) = Inr tp" "parses tp"
    and "\<And>l. l \<le> n \<Longrightarrow> \<exists>v. fullNode H leaf l (drop_bit l idx) = Inr v"
    and "leaf idx = Some lf" "HexToBigInt lf = Inr c0"
  shows "\<exists>c. foldResI 0 (rootStep H (uint idx)) els c0 = Inr c \<and> HexToBigInt tp = Inr c"
  using assms(1-5)
proof (induction n arbitrary: els tp)
  case 0
  then show ?case using assms(6,7) by simp
next
  case (Suc n)
  obtain es e where es: "mapRes (\<lambda>l. fullNode H leaf l (drop_bit l idx XOR 1)) [0..<n] = Inr es"
    "fullNode H leaf n (drop_bit n idx XOR 1) = Inr e" "els = es @ [e]"
    using Suc.prems(1) by (auto simp: mapRes_append_one)
  obtain v where v: "fullNode H leaf n (drop_bit n idx) = Inr v" using Suc.prems(5) [of n] by auto
  have d: "drop_bit (Suc n) idx = drop_bit 1 (drop_bit n idx)" by simp
  note par = fullNode_parent [OF es(2) v, folded d]
  obtain l r h where h: "HexToBigInt (if odd (drop_bit n idx) then e else v) = Inr l"
      "HexToBigInt (if odd (drop_bit n idx) then v else e) = Inr r"
      "H l r = Inr h" "tp = hexWidth 32 h"
    using par Suc.prems(3) by (auto simp: hashHexPair_Inr split: if_splits)
  then have pv: "parses v" by (auto split: if_splits)
  obtain c where c: "foldResI 0 (rootStep H (uint idx)) es c0 = Inr c" "HexToBigInt v = Inr c"
    using Suc.IH [OF es(1) _ v pv] Suc.prems(2,5) by auto
  have len: "length es = n" using mapRes_length [OF es(1)] by simp
  have "bit (uint idx) n \<longleftrightarrow> bit idx n" using Suc.prems(2) by (simp add: bit_uint_iff)
  then have b: "bit (uint idx) n \<longleftrightarrow> odd (drop_bit n idx)" by (simp only: bit_iff_odd_drop_bit [of idx])
  have "rootStep H (uint idx) n e c = Inr h"
    using h(1-3) c(2) b by (auto simp: rootStep_def split: if_splits)
  moreover have "HexToBigInt tp = Inr h"
    using h(3,4) hash_range hexWidth_roundtrip [of h 32] by auto
  ultimately show ?case using c(1) es(3) len by (simp add: foldResI_append)
qed

end

end
