(* ===== verification/LeafMap.thy ===== *)
theory LeafMap
  imports Merkle
begin

text \<open>
  Two-level maps \<^verbatim>\<open>map[uint64]map[uint64]Leaf\<close>, the state of every Merkle leaf store,
  with their lookup laws, their sorted listings and the proofs read off them; the model of a
  JSON file on disk that the file-backed stores share; and the interface \<open>leaf_store\<close> that clients of a leaf store rely on.
\<close>

section \<open>Two-level maps\<close>

type_synonym 'l leafmap = "(uint64, (uint64, 'l) gomap) gomap"

definition inner :: "'l leafmap \<Rightarrow> uint64 \<Rightarrow> (uint64, 'l) gomap" where
  "inner m t = (case gget m t of None \<Rightarrow> [] | Some x \<Rightarrow> x)"

definition get2 :: "'l leafmap \<Rightarrow> uint64 \<Rightarrow> uint64 \<Rightarrow> 'l option" where
  "get2 m t i = gget (inner m t) i"

definition put2 :: "uint64 \<Rightarrow> uint64 \<Rightarrow> 'l \<Rightarrow> 'l leafmap \<Rightarrow> 'l leafmap" where
  "put2 t i l m = gput t (gput i l (inner m t)) m"

text \<open>Delete the entries that fail the test, then the trees left empty.\<close>

definition keep2 :: "('l \<Rightarrow> bool) \<Rightarrow> 'l leafmap \<Rightarrow> 'l leafmap" where
  "keep2 p m = gkeep (\<lambda>x. x \<noteq> []) (gmap (gkeep p) m)"

definition vals2 :: "'l leafmap \<Rightarrow> 'l list" where
  "vals2 m = concat (map (\<lambda>(_, x). map snd x) m)"

definition wf2 :: "'l leafmap \<Rightarrow> bool" where
  "wf2 m \<longleftrightarrow> wfmap m \<and> (\<forall>t. wfmap (inner m t))"

definition keyed2 :: "('l \<Rightarrow> uint64 \<times> uint64) \<Rightarrow> 'l leafmap \<Rightarrow> bool" where
  "keyed2 key m \<longleftrightarrow> (\<forall>t i l. get2 m t i = Some l \<longrightarrow> key l = (t, i))"

lemma inner_put2: "inner (put2 t i l m) t' = (if t' = t then gput i l (inner m t) else inner m t')"
  by (simp add: inner_def put2_def gomap_simps)

lemma get2_Nil [simp]: "get2 [] t i = None"
  by (simp add: get2_def inner_def)

lemma get2_put2 [gomap_simps]: "get2 (put2 t i l m) t' i' = (if t' = t \<and> i' = i then Some l else get2 m t' i')"
  by (simp add: get2_def inner_put2 gomap_simps)

lemma wf2_Nil [simp]: "wf2 []"
  by (simp add: wf2_def inner_def)

lemma wf2_put2 [simp]: "wf2 m \<Longrightarrow> wf2 (put2 t i l m)"
  using wfmap_gput [of m t "gput i l (inner m t)"] by (auto simp: wf2_def inner_put2) (simp add: put2_def)

lemma keyed2_Nil [simp]: "keyed2 key []"
  by (simp add: keyed2_def)

lemma keyed2_put2: "keyed2 key m \<Longrightarrow> key l = (t, i) \<Longrightarrow> keyed2 key (put2 t i l m)"
  by (auto simp: keyed2_def gomap_simps)

lemma gkeep_empty_iff: "gkeep p m = [] \<longleftrightarrow> (\<forall>kv \<in> set m. \<not> p (snd kv))"
  by (auto simp: gkeep_def filter_empty_conv)

lemma gkeep_Nil [simp]: "gkeep p [] = []"
  by (simp add: gkeep_def)

lemma inner_keep2: "wf2 m \<Longrightarrow> inner (keep2 p m) t = gkeep p (inner m t)"
  by (cases "gget m t") (simp_all add: inner_def keep2_def wf2_def gget_gkeep gget_gmap)

lemma get2_keep2 [gomap_simps]:
  "wf2 m \<Longrightarrow> get2 (keep2 p m) t i = (case get2 m t i of None \<Rightarrow> None | Some l \<Rightarrow> if p l then Some l else None)"
  by (simp add: get2_def inner_keep2 wf2_def gomap_simps)

lemma wf2_keep2 [simp]: "wf2 m \<Longrightarrow> wf2 (keep2 p m)"
proof -
  assume w: "wf2 m"
  then have "wfmap (keep2 p m)" unfolding keep2_def wf2_def by (intro wfmap_gkeep) simp
  then show ?thesis using w by (simp add: wf2_def inner_keep2)
qed

lemma keyed2_keep2: "wf2 m \<Longrightarrow> keyed2 key m \<Longrightarrow> keyed2 key (keep2 p m)"
  by (auto simp: keyed2_def gomap_simps split: option.splits if_splits)

lemma inner_in_set: "wf2 m \<Longrightarrow> (t, x) \<in> set m \<Longrightarrow> inner m t = x \<and> wfmap x"
  by (metis inner_def wf2_def gget_in_set option.simps(5))

lemma set_vals2:
  assumes "wf2 m"
  shows "l \<in> set (vals2 m) \<longleftrightarrow> (\<exists>t i. get2 m t i = Some l)"
proof
  assume "l \<in> set (vals2 m)"
  then obtain t x i where x: "(t, x) \<in> set m" "(i, l) \<in> set x" by (auto simp: vals2_def)
  then have "get2 m t i = Some l" using inner_in_set [OF assms x(1)] by (simp add: get2_def)
  then show "\<exists>t i. get2 m t i = Some l" by blast
next
  assume "\<exists>t i. get2 m t i = Some l"
  then obtain t i where g: "gget (inner m t) i = Some l" by (auto simp: get2_def)
  then obtain x where x: "gget m t = Some x" "inner m t = x" by (auto simp: inner_def split: option.splits)
  show "l \<in> set (vals2 m)"
    using map_of_SomeD [OF x(1)] map_of_SomeD [OF g] x(2) by (force simp: vals2_def)
qed

lemma distinct_snd_keyed:
  "wfmap x \<Longrightarrow> (\<And>i l. (i, l) \<in> set x \<Longrightarrow> key l = (t, i)) \<Longrightarrow> distinct (map snd x)"
proof (induction x)
  case (Cons kv x)
  obtain i l where kv: "kv = (i, l)" by fastforce
  have "l \<notin> set (map snd x)"
  proof
    assume "l \<in> set (map snd x)"
    then obtain j where j: "(j, l) \<in> set x" by auto
    then have "key l = (t, j)" "key l = (t, i)" using Cons.prems(2) kv by auto
    then show False using Cons.prems(1) kv j by (auto intro: rev_image_eqI)
  qed
  then show ?case using Cons kv by auto
qed simp

lemma distinct_vals2:
  assumes "wf2 m" "keyed2 key m"
  shows "distinct (vals2 m)"
proof -
  have k: "key l = (t, i)" if "(t, x) \<in> set m" "(i, l) \<in> set x" for t x i l
    using inner_in_set [OF assms(1) that(1)] that(2) assms(2) by (auto simp: keyed2_def get2_def)
  have "distinct (vals2 xs)" if "set xs \<subseteq> set m" "wfmap xs" for xs
    using that
  proof (induction xs)
    case (Cons tx xs)
    obtain t x where tx: "tx = (t, x)" by fastforce
    then have inm: "(t, x) \<in> set m" using Cons.prems(1) by auto
    have "distinct (map snd x)"
      by (rule distinct_snd_keyed [where key = key and t = t]) (use inner_in_set [OF assms(1) inm] k [OF inm] in auto)
    moreover have "set (map snd x) \<inter> set (vals2 xs) = {}"
    proof (rule ccontr)
      assume "set (map snd x) \<inter> set (vals2 xs) \<noteq> {}"
      then obtain l i t' x' j where l: "(i, l) \<in> set x" "(t', x') \<in> set xs" "(j, l) \<in> set x'"
        by (auto simp: vals2_def)
      have "(t', x') \<in> set m" using l(2) Cons.prems(1) by auto
      then have "t = t'" using k [OF inm l(1)] k [OF _ l(3), of t'] by simp
      then show False using l(2) Cons.prems(2) tx by (auto intro: rev_image_eqI)
    qed
    ultimately show ?case using Cons tx by (auto simp: vals2_def)
  qed (simp add: vals2_def)
  then show ?thesis using assms(1) by (simp add: wf2_def)
qed

text \<open>Loading a listing of distinct keys gives back the map.\<close>

definition putAll2 :: "('l \<Rightarrow> uint64 \<times> uint64) \<Rightarrow> 'l list \<Rightarrow> 'l leafmap \<Rightarrow> 'l leafmap" where
  "putAll2 key ls m = fold (\<lambda>l. put2 (fst (key l)) (snd (key l)) l) ls m"

lemma putAll2_wf: "wf2 m \<Longrightarrow> wf2 (putAll2 key ls m)"
  unfolding putAll2_def by (induction ls arbitrary: m) auto

lemma putAll2_keyed: "keyed2 key m \<Longrightarrow> keyed2 key (putAll2 key ls m)"
  unfolding putAll2_def
proof (induction ls arbitrary: m)
  case (Cons l ls)
  have "keyed2 key (put2 (fst (key l)) (snd (key l)) l m)" using Cons.prems by (rule keyed2_put2) simp
  then show ?case using Cons.IH by simp
qed simp

lemma get2_putAll2:
  "distinct (map key ls) \<Longrightarrow> get2 (putAll2 key ls m) t i =
     (case find (\<lambda>l. key l = (t, i)) ls of Some l \<Rightarrow> Some l | None \<Rightarrow> get2 m t i)"
  unfolding putAll2_def
proof (induction ls arbitrary: m)
  case (Cons l ls)
  have "find (\<lambda>l. key l = (t, i)) ls = None" if "key l = (t, i)"
    using Cons.prems that by (auto simp: find_None_iff rev_image_eqI)
  then show ?case using Cons by (auto simp: gomap_simps prod_eq_iff split: option.splits)
qed simp

lemma distinct_key_map:
  "distinct ls \<Longrightarrow> (\<And>x y. x \<in> set ls \<Longrightarrow> y \<in> set ls \<Longrightarrow> key x = key y \<Longrightarrow> x = y) \<Longrightarrow> distinct (map key ls)"
  by (auto simp: distinct_map inj_on_def)

text \<open>Entries that share a key are equal, so a sorted listing determines the map.\<close>

lemma keyed2_same: "wf2 m \<Longrightarrow> keyed2 key m \<Longrightarrow> x \<in> set (vals2 m) \<Longrightarrow> y \<in> set (vals2 m) \<Longrightarrow> key x = key y \<Longrightarrow> x = y"
  by (fastforce simp: set_vals2 keyed2_def)

lemma get2_reload:
  assumes "wf2 m" "keyed2 key m" "mset ls = mset (vals2 m)"
  shows "get2 (putAll2 key ls []) t i = get2 m t i"
proof -
  have set: "set ls = set (vals2 m)" using assms(3) by (metis set_mset_mset)
  have "distinct ls" using distinct_vals2 [OF assms(1,2)] assms(3) by (metis mset_eq_imp_distinct_iff)
  then have d: "distinct (map key ls)"
    by (rule distinct_key_map) (use keyed2_same [OF assms(1,2)] set in auto)
  show ?thesis
  proof (cases "find (\<lambda>l. key l = (t, i)) ls")
    case None
    then have "\<forall>l \<in> set (vals2 m). key l \<noteq> (t, i)" using set by (simp add: find_None_iff)
    then have "get2 m t i = None" using assms(1,2) by (metis keyed2_def not_Some_eq set_vals2)
    then show ?thesis using None d by (simp add: get2_putAll2)
  next
    case (Some l)
    then have l: "l \<in> set (vals2 m)" "key l = (t, i)" using set by (auto simp: find_Some_iff)
    then have "get2 m t i = Some l" using assms(1,2) by (metis keyed2_def prod.inject set_vals2)
    then show ?thesis using Some d by (simp add: get2_putAll2)
  qed
qed

section \<open>JSON files\<close>

text \<open>
  The file of a file-backed store: absent, unreadable, of length zero, not the JSON of the
  expected type (with the decoder's error), or the JSON text of a value. The JSON text is
  represented by the value it decodes to. The environment says which calls of a save fail.
\<close>

datatype 'd jsonfile = FileMissing | FileReadError gerr | FileEmpty | FileGarbled gerr | FileDoc 'd

record saveEnv =
  mkdirErr :: "gerr option"
  writeErr :: "gerr option"
  renameErr :: "gerr option"

text \<open>A file-backed store: its \<^verbatim>\<open>Path\<close> and the file found there.\<close>

record 'd fileStore =
  Path :: string
  fsFile :: "'d jsonfile"

definition readFile :: "'d jsonfile \<Rightarrow> 'm \<Rightarrow> ('d \<Rightarrow> 'm res) \<Rightarrow> 'm res" where
  "readFile f empt parse = (case f of
      FileMissing \<Rightarrow> Inr empt
    | FileReadError e \<Rightarrow> Inl e
    | FileEmpty \<Rightarrow> Inr empt
    | FileGarbled e \<Rightarrow> Inl e
    | FileDoc d \<Rightarrow> parse d)"

text \<open>\<^verbatim>\<open>MkdirAll\<close>, \<^verbatim>\<open>WriteFile\<close> of the temporary file, \<^verbatim>\<open>Rename\<close> over the file.\<close>

definition writeFile :: "saveEnv \<Rightarrow> 'd \<Rightarrow> 'd jsonfile res" where
  "writeFile env d = withCtx (mkdirErr env) (withCtx (writeErr env) (withCtx (renameErr env) (Inr (FileDoc d))))"

lemma writeFile_Inr [res_elims]:
  "writeFile env d = Inr f \<longleftrightarrow> mkdirErr env = None \<and> writeErr env = None \<and> renameErr env = None \<and> f = FileDoc d"
  by (auto simp: writeFile_def res_elims)

section \<open>Listings and loading\<close>

text \<open>Sorted by tree, then by index: the order of both packages' listings.\<close>

definition keyLess :: "('l \<Rightarrow> uint64 \<times> uint64) \<Rightarrow> 'l \<Rightarrow> 'l \<Rightarrow> bool" where
  "keyLess key x y \<longleftrightarrow>
     (if fst (key x) \<noteq> fst (key y) then fst (key x) < fst (key y) else snd (key x) < snd (key y))"

lemma keyLess_lex: "keyLess key = (\<lambda>x y. key x < key y)"
  by (auto simp: keyLess_def fun_eq_iff less_prod_def)

interpretation key_order: slice_less "keyLess key" for key :: "'l \<Rightarrow> uint64 \<times> uint64"
  unfolding keyLess_lex by (rule slice_less_key)

lemma listing_sorted: "sorted_wrt (\<lambda>x y. key x \<le> key y) (sortBy (keyLess key) xs)"
  using key_order.sorted_sortBy [of key xs] by (simp add: keyLess_lex not_less)

lemma listing_distinct:
  "wf2 m \<Longrightarrow> keyed2 key m \<Longrightarrow> distinct (sortBy (keyLess key) (vals2 m))"
  using distinct_vals2 by (metis mset_eq_imp_distinct_iff mset_sortBy)

text \<open>The listing does not depend on the order in which the maps are walked.\<close>

lemma listing_cong:
  assumes "wf2 m" "keyed2 key m" "wf2 m'" "keyed2 key m'" "\<And>t i. get2 m t i = get2 m' t i"
  shows "sortBy (keyLess key) (vals2 m) = sortBy (keyLess key) (vals2 m')"
proof (rule key_order.sortBy_cong)
  have "set (vals2 m) = set (vals2 m')" using set_vals2 [OF assms(1)] set_vals2 [OF assms(3)] assms(5) by auto
  then show "mset (vals2 m) = mset (vals2 m')"
    using distinct_vals2 [OF assms(1,2)] distinct_vals2 [OF assms(3,4)] by (simp add: set_eq_iff_mset_eq_distinct)
  fix x y assume "x \<in> set (vals2 m)" "y \<in> set (vals2 m)" "\<not> keyLess key x y" "\<not> keyLess key y x"
  then show "x = y" using keyed2_same [OF assms(1,2)] by (auto simp: keyLess_lex)
qed

lemma load_all:
  "(\<And>l. l \<in> set ls \<Longrightarrow> validate l = Inr ()) \<Longrightarrow>
   foldResI i (\<lambda>i l m. andThen (wrapErr msg [ANat i] (validate l)) (\<lambda>_. Inr (put2 (fst (key l)) (snd (key l)) l m))) ls m
     = Inr (putAll2 key ls m)"
  by (induction ls arbitrary: i m) (auto simp: putAll2_def)

lemma load_all_valid:
  "foldResI i (\<lambda>i l m. andThen (wrapErr msg [ANat i] (validate l)) (\<lambda>_. Inr (put2 (fst (key l)) (snd (key l)) l m))) ls m
     = Inr m' \<Longrightarrow> (\<forall>l \<in> set ls. validate l = Inr ()) \<and> m' = putAll2 key ls m"
  by (induction ls arbitrary: i m) (auto simp: putAll2_def res_elims)

lemma validate_all:
  "foldResI i (\<lambda>i l _. wrapErr msg [ANat i] (validate l)) ls () = Inr u \<longleftrightarrow> (\<forall>l \<in> set ls. validate l = Inr ())"
  by (induction ls arbitrary: i) (auto simp: res_elims)

definition all2 :: "('l \<Rightarrow> bool) \<Rightarrow> 'l leafmap \<Rightarrow> bool" where
  "all2 P m \<longleftrightarrow> (\<forall>t i l. get2 m t i = Some l \<longrightarrow> P l)"

lemma all2_Nil [simp]: "all2 P []"
  by (simp add: all2_def)

lemma all2_put2: "all2 P m \<Longrightarrow> P l \<Longrightarrow> all2 P (put2 t i l m)"
  by (auto simp: all2_def gomap_simps)

lemma all2_keep2: "wf2 m \<Longrightarrow> all2 P m \<Longrightarrow> all2 P (keep2 p m)"
  by (auto simp: all2_def gomap_simps split: option.splits if_splits)

lemma all2_putAll2: "all2 P m \<Longrightarrow> (\<And>l. l \<in> set ls \<Longrightarrow> P l) \<Longrightarrow> all2 P (putAll2 key ls m)"
  unfolding putAll2_def by (induction ls arbitrary: m) (auto intro: all2_put2)

lemma all2_vals2: "wf2 m \<Longrightarrow> all2 P m \<Longrightarrow> l \<in> set (vals2 m) \<Longrightarrow> P l"
  by (auto simp: set_vals2 all2_def)

text \<open>The maps that a store holds: well formed, keyed by the leaf's own position, leaves valid.\<close>

definition goodMap :: "('l \<Rightarrow> uint64 \<times> uint64) \<Rightarrow> ('l \<Rightarrow> bool) \<Rightarrow> 'l leafmap \<Rightarrow> bool" where
  "goodMap key P m \<longleftrightarrow> wf2 m \<and> keyed2 key m \<and> all2 P m"

lemma goodMap_Nil [simp]: "goodMap key P []"
  by (simp add: goodMap_def)

lemma goodMap_put2: "goodMap key P m \<Longrightarrow> P l \<Longrightarrow> goodMap key P (put2 (fst (key l)) (snd (key l)) l m)"
  by (simp add: goodMap_def keyed2_put2 all2_put2)

lemma goodMap_keep2: "goodMap key P m \<Longrightarrow> goodMap key P (keep2 p m)"
  by (simp add: goodMap_def keyed2_keep2 all2_keep2)

lemma goodMap_putAll2: "goodMap key P m \<Longrightarrow> (\<And>l. l \<in> set ls \<Longrightarrow> P l) \<Longrightarrow> goodMap key P (putAll2 key ls m)"
  by (simp add: goodMap_def putAll2_wf putAll2_keyed all2_putAll2)

lemma goodMap_listing: "goodMap key P m \<Longrightarrow> l \<in> set (sortBy lt (vals2 m)) \<Longrightarrow> P l"
  by (auto simp: goodMap_def dest: all2_vals2)

text \<open>Saving the listing and loading it again gives the same leaves.\<close>

lemma goodMap_reload:
  assumes "goodMap key P m"
  shows "get2 (putAll2 key (sortBy (keyLess key) (vals2 m)) []) t i = get2 m t i"
  using assms by (intro get2_reload) (auto simp: goodMap_def)

lemma goodMap_listing_iff:
  assumes "goodMap key P m"
  shows "l \<in> set (sortBy lt (vals2 m)) \<longleftrightarrow> get2 m (fst (key l)) (snd (key l)) = Some l"
proof -
  have "get2 m (fst (key l)) (snd (key l)) = Some l" if "get2 m t i = Some l" for t i
    using assms that by (auto simp: goodMap_def keyed2_def)
  then show ?thesis using assms by (auto simp: goodMap_def set_vals2)
qed

section \<open>Proofs from a level-zero map\<close>

lemma mapRes_cong: "(\<And>x. x \<in> set xs \<Longrightarrow> f x = g x) \<Longrightarrow> mapRes f xs = mapRes g xs"
  by (induction xs) auto

lemma mapRes_total: "(\<And>x. x \<in> set xs \<Longrightarrow> \<exists>y. f x = Inr y) \<Longrightarrow> \<exists>ys. mapRes f xs = Inr ys"
  by (induction xs) fastforce+

lemma div_pow_le: "0 \<le> (a :: int) \<Longrightarrow> a div 2 ^ l \<le> a"
  using zdiv_mono2 [of a 1 "2 ^ l"] by simp

lemma uint_drop_bit_index: "uint (drop_bit l (idx :: uint64)) = uint idx div 2 ^ l"
  using uint_bounded [of idx] div_pow_le [of "uint idx" l]
  by (subst unsigned_drop_bit_eq) (simp add: drop_bit_eq_div take_bit_int_eq_self)

lemma index_inRange:
  assumes "idx < (65536 :: uint64)" "l \<le> 17"
  shows "inRange l (drop_bit l idx)"
proof -
  have "uint idx < 2 ^ 16" using assms(1) by (simp add: word_less_def)
  moreover have "uint (drop_bit l idx) \<le> uint idx" by (simp add: uint_drop_bit_index div_pow_le)
  moreover have "(2 :: int) ^ 16 \<le> 2 ^ (63 - l)" using assms(2) by (intro power_increasing) auto
  ultimately show ?thesis by linarith
qed

lemma sibling_inRange:
  assumes "inRange (Suc l) (drop_bit (Suc l) idx)" "l < 63"
  shows "inRange l (drop_bit l idx XOR 1)"
proof -
  have "drop_bit (Suc l) idx = drop_bit 1 (drop_bit l idx)" by simp
  then show ?thesis
    using children(3,4) [OF assms] push_drop_even(2) [of "drop_bit l idx"] push_drop_odd(1) [of "drop_bit l idx"]
    by (cases "odd (drop_bit l idx)") metis+
qed

lemma index_drop16: "idx < (65536 :: uint64) \<Longrightarrow> drop_bit 16 idx = 0"
  by (simp add: word_uint_eq_iff uint_drop_bit_index word_less_def)

context node_hash
begin

text \<open>
  The proof read off the sparse levels verifies: the root recomputed from the leaf along the
  elements is the root that the levels hold, and that is the root of the full tree.
\<close>

lemma proof_sound:
  assumes tot: "\<And>l r. \<exists>h. H l r = Inr h"
    and par: "\<And>i v. gget leaves i = Some v \<Longrightarrow> parses v"
    and lf: "gget leaves idx = Some lf" "idx < 65536"
  obtains levels elements root c0 c where "raiseLevels H leaves = Inr levels"
    "proofElements H levels idx = Inr elements" "nodeAtLevel H levels 16 0 = Inr root"
    "fullNode H (gget leaves) 16 0 = Inr root" "length elements = 16"
    "HexToBigInt lf = Inr c0" "foldResI 0 (rootStep H (uint idx)) elements c0 = Inr c"
    "0 \<le> c" "root = hexWidth 32 c"
    "mapRes (\<lambda>l. fullNode H (gget leaves) l (drop_bit l idx XOR 1)) [0..<16] = Inr elements"
proof -
  obtain levels where l: "raiseLevels H leaves = Inr levels"
    "\<And>l i. l \<le> 16 \<Longrightarrow> inRange l i \<Longrightarrow>
       nodeAtLevel H levels l i = fullNode H (gget leaves) l i \<and> (\<exists>v. nodeAtLevel H levels l i = Inr v \<and> parses v)"
  proof (rule raiseLevels_spec [OF tot])
    show "\<And>i v. gget leaves i = Some v \<Longrightarrow> parses v" by (rule par)
  qed (rule that)
  have rng: "inRange l (drop_bit l idx)" if "l \<le> 17" for l
    using index_inRange lf(2) that by simp
  have sib: "inRange l (drop_bit l idx XOR 1)" if "l \<le> 16" for l
    using sibling_inRange rng [of "Suc l"] that by simp
  have node: "\<exists>v. nodeAtLevel H levels l i = Inr v \<and> fullNode H (gget leaves) l i = Inr v \<and> parses v"
    if "l \<le> 16" "inRange l i" for l i
    using l(2) [OF that] by metis
  have "mapRes (\<lambda>l. nodeAtLevel H levels l (drop_bit l idx XOR 1)) [0..<16]
      = mapRes (\<lambda>l. fullNode H (gget leaves) l (drop_bit l idx XOR 1)) [0..<16]"
  proof (rule mapRes_cong)
    fix l :: nat assume "l \<in> set [0..<16]"
    then show "nodeAtLevel H levels l (drop_bit l idx XOR 1) = fullNode H (gget leaves) l (drop_bit l idx XOR 1)"
      using node [OF _ sib, of l] by auto
  qed
  moreover obtain els where els: "mapRes (\<lambda>l. fullNode H (gget leaves) l (drop_bit l idx XOR 1)) [0..<16] = Inr els"
  proof -
    have "\<exists>v. fullNode H (gget leaves) l (drop_bit l idx XOR 1) = Inr v" if "l \<in> set [0..<16]" for l
      using node [OF _ sib, of l] that by auto
    then show thesis using mapRes_total that by meson
  qed
  ultimately have pe: "proofElements H levels idx = Inr els"
    unfolding proofElements_def TreeDepth_def by (rule trans)
  have dz: "drop_bit 16 idx = 0" using index_drop16 lf(2) by simp
  obtain root where root: "nodeAtLevel H levels 16 0 = Inr root" "fullNode H (gget leaves) 16 0 = Inr root" "parses root"
  proof -
    have "inRange 16 0" by simp
    then show thesis using node [of 16 0] that by blast
  qed
  obtain c0 where c0: "HexToBigInt lf = Inr c0" using par lf(1) by blast
  have "\<exists>c. foldResI 0 (rootStep H (uint idx)) els c0 = Inr c \<and> HexToBigInt root = Inr c"
  proof (rule climb [OF els _ _ root(3) _ lf(1) c0])
    show "fullNode H (gget leaves) 16 (drop_bit 16 idx) = Inr root" unfolding dz by (rule root(2))
    show "\<exists>v. fullNode H (gget leaves) l (drop_bit l idx) = Inr v" if "l \<le> 16" for l
      using node [OF that rng] that by auto
  qed simp
  then obtain c where c: "foldResI 0 (rootStep H (uint idx)) els c0 = Inr c" "HexToBigInt root = Inr c" by blast
  have "(16 :: nat) = Suc 15" by simp
  then have "fullNode H (gget leaves) (Suc 15) 0 = Inr root" using root(2) by metis
  then obtain left right where "hashHexPair H left right = Inr root"
    unfolding fullNode.simps(2) andThen_Inr by blast
  then have "0 \<le> c \<and> root = hexWidth 32 c" using hashHexPair_value c(2) by fastforce
  then show thesis
    using that [OF l(1) pe root(1,2) _ c0 c(1) _ _ els] mapRes_length [OF els] by simp
qed

end

section \<open>Leaf documents\<close>

text \<open>The map that a leaf file holds, when its document has valid leaves only.\<close>

definition docOk :: "('l \<Rightarrow> bool) \<Rightarrow> 'l list jsonfile \<Rightarrow> bool" where
  "docOk P f = (case f of FileMissing \<Rightarrow> True | FileEmpty \<Rightarrow> True | FileDoc ls \<Rightarrow> (\<forall>l \<in> set ls. P l) | _ \<Rightarrow> False)"

definition docMap :: "('l \<Rightarrow> uint64 \<times> uint64) \<Rightarrow> 'l list jsonfile \<Rightarrow> 'l leafmap" where
  "docMap key f = (case f of FileDoc ls \<Rightarrow> putAll2 key ls [] | _ \<Rightarrow> [])"

lemma docMap_good: "docOk P f \<Longrightarrow> goodMap key P (docMap key f)"
  by (auto simp: docOk_def docMap_def goodMap_putAll2 split: jsonfile.splits)

lemma docMap_load:
  "docOk (\<lambda>l. validate l = Inr ()) f \<Longrightarrow>
   readFile f [] (\<lambda>state. foldResI 0 (\<lambda>i l m. andThen (wrapErr msg [ANat i] (validate l))
     (\<lambda>_. Inr (put2 (fst (key l)) (snd (key l)) l m))) state []) = Inr (docMap key f)"
  using load_all [of _ validate 0 msg key "[]"]
  by (auto simp: docOk_def docMap_def readFile_def split: jsonfile.splits)

lemma docMap_saved:
  assumes "goodMap key P m"
  shows "docOk P (FileDoc (sortBy (keyLess key) (vals2 m)))"
    "get2 (docMap key (FileDoc (sortBy (keyLess key) (vals2 m)))) t i = get2 m t i"
  using goodMap_listing [OF assms] goodMap_reload [OF assms] by (auto simp: docOk_def docMap_def)

section \<open>Trees of leaves\<close>

text \<open>
  The level-building loop of both packages, over the leaf's hash and validation, and what it
  gives for the leaves of a valid store. The locale is the contract of a leaf type.
\<close>

definition levelsOf ::
  "(int \<Rightarrow> int \<Rightarrow> int res) \<Rightarrow> ('l \<Rightarrow> unit res) \<Rightarrow> ('l \<Rightarrow> string) \<Rightarrow> (uint64, 'l) gomap \<Rightarrow> levels res" where
  "levelsOf H validate hash leaves =
     andThen (foldRes (\<lambda>(index, leaf) level0. andThen (validate leaf) (\<lambda>_. Inr (gput index (hash leaf) level0)))
        leaves []) (\<lambda>level0. raiseLevels H level0)"

definition rootOf where
  "rootOf H validate hash leaves = andThen (levelsOf H validate hash leaves) (\<lambda>levels. nodeAtLevel H levels TreeDepth 0)"

text \<open>The leaf hashes of a tree as the full tree sees them.\<close>

definition hashesOf :: "('l \<Rightarrow> string) \<Rightarrow> 'l leafmap \<Rightarrow> uint64 \<Rightarrow> uint64 \<Rightarrow> string option" where
  "hashesOf hash m t i = map_option hash (get2 m t i)"

lemma level0_fold:
  "wfmap (acc @ leaves) \<Longrightarrow> (\<forall>kv \<in> set leaves. validate (snd kv) = Inr ()) \<Longrightarrow>
   foldRes (\<lambda>(index, leaf) level0. andThen (validate leaf) (\<lambda>_. Inr (gput index (hash leaf) level0)))
     leaves (gmap hash acc) = Inr (gmap hash (acc @ leaves))"
proof (induction leaves arbitrary: acc)
  case (Cons kv leaves)
  obtain k l where kv: "kv = (k, l)" by fastforce
  have "k \<notin> fst ` set (gmap hash acc)" using Cons.prems(1) kv by (auto simp: gmap_def image_iff)
  then have "gput k (hash l) (gmap hash acc) = gmap hash (acc @ [kv])"
    by (simp add: gmap_def kv) (induction acc, auto)
  then show ?case using Cons.IH [of "acc @ [kv]"] Cons.prems kv by simp
qed simp

lemma levelsOf_valid:
  "wfmap leaves \<Longrightarrow> (\<forall>kv \<in> set leaves. validate (snd kv) = Inr ()) \<Longrightarrow>
   levelsOf H validate hash leaves = raiseLevels H (gmap hash leaves)"
  using level0_fold [of "[]" leaves validate hash] by (simp add: levelsOf_def gmap_def)

locale leaf_tree = node_hash H for H +
  fixes key :: "'l \<Rightarrow> uint64 \<times> uint64" and hash :: "'l \<Rightarrow> string" and validate :: "'l \<Rightarrow> unit res"
  assumes validate_ok: "validate l = Inr () \<Longrightarrow> snd (key l) < 65536 \<and> parses (hash l)"
begin

abbreviation good :: "'l leafmap \<Rightarrow> bool" where
  "good \<equiv> goodMap key (\<lambda>l. validate l = Inr ())"

lemma good_inner:
  assumes "good m"
  shows "levelsOf H validate hash (inner m t) = raiseLevels H (gmap hash (inner m t))"
    "gget (gmap hash (inner m t)) = hashesOf hash m t"
    "get2 m t i = Some l \<Longrightarrow> validate l = Inr () \<and> key l = (t, i)"
proof -
  have w: "wfmap (inner m t)" using assms by (simp add: goodMap_def wf2_def)
  have "validate b = Inr ()" if "gget (inner m t) a = Some b" for a b
    using assms that by (auto simp: goodMap_def all2_def get2_def)
  then have "\<forall>kv \<in> set (inner m t). validate (snd kv) = Inr ()"
    using w by (metis gget_in_set prod.collapse)
  then show "levelsOf H validate hash (inner m t) = raiseLevels H (gmap hash (inner m t))"
    by (rule levelsOf_valid [OF w])
  show "gget (gmap hash (inner m t)) = hashesOf hash m t"
    by (simp add: fun_eq_iff gomap_simps get2_def hashesOf_def)
  show "get2 m t i = Some l \<Longrightarrow> validate l = Inr () \<and> key l = (t, i)"
    using assms by (auto simp: goodMap_def all2_def keyed2_def)
qed

lemma hashes_parse: "good m \<Longrightarrow> gget (gmap hash (inner m t)) i = Some v \<Longrightarrow> parses v"
  using validate_ok unfolding good_inner(2)
  by (auto simp: hashesOf_def goodMap_def all2_def)

lemma root_spec:
  assumes "good m" "\<And>l r. \<exists>h. H l r = Inr h"
  shows "\<exists>root. rootOf H validate hash (inner m t) = Inr root \<and> fullNode H (hashesOf hash m t) 16 0 = Inr root"
proof -
  obtain levels where l: "raiseLevels H (gmap hash (inner m t)) = Inr levels"
    "nodeAtLevel H levels 16 0 = fullNode H (hashesOf hash m t) 16 0 \<and> (\<exists>v. nodeAtLevel H levels 16 0 = Inr v \<and> parses v)"
  proof (rule raiseLevels_spec [OF assms(2) hashes_parse [OF assms(1)]])
    fix levels assume a: "raiseLevels H (gmap hash (inner m t)) = Inr levels"
      "\<And>l i. l \<le> 16 \<Longrightarrow> inRange l i \<Longrightarrow> nodeAtLevel H levels l i = fullNode H (gget (gmap hash (inner m t))) l i \<and>
         (\<exists>v. nodeAtLevel H levels l i = Inr v \<and> parses v)"
    have "inRange 16 0" by simp
    then show thesis using that [OF a(1)] a(2) [of 16 0] unfolding good_inner(2) [OF assms(1)] by blast
  qed
  then show ?thesis
    unfolding rootOf_def good_inner(1) [OF assms(1)] TreeDepth_def by (metis andThen_simps(2))
qed

lemma proof_spec:
  assumes "good m" "\<And>l r. \<exists>h. H l r = Inr h" "get2 m t i = Some leaf"
  obtains levels elements root c0 c where
    "levelsOf H validate hash (inner m t) = Inr levels" "proofElements H levels i = Inr elements"
    "nodeAtLevel H levels TreeDepth 0 = Inr root" "rootOf H validate hash (inner m t) = Inr root"
    "mapRes (\<lambda>l. fullNode H (hashesOf hash m t) l (drop_bit l i XOR 1)) [0..<16] = Inr elements"
    "length elements = 16" "HexToBigInt (hash leaf) = Inr c0"
    "foldResI 0 (rootStep H (uint i)) elements c0 = Inr c" "0 \<le> c" "root = hexWidth 32 c"
    "i < 65536" "key leaf = (t, i)"
proof -
  note lf = good_inner(3) [OF assms(1,3)]
  have "gget (gmap hash (inner m t)) i = Some (hash leaf)"
    using assms(3) unfolding good_inner(2) [OF assms(1)] by (simp add: hashesOf_def)
  moreover have i: "i < 65536" using lf validate_ok by fastforce
  ultimately obtain levels els root c0 c where p: "raiseLevels H (gmap hash (inner m t)) = Inr levels"
    "proofElements H levels i = Inr els" "nodeAtLevel H levels 16 0 = Inr root" "length els = 16"
    "HexToBigInt (hash leaf) = Inr c0" "foldResI 0 (rootStep H (uint i)) els c0 = Inr c"
    "0 \<le> c" "root = hexWidth 32 c"
    "mapRes (\<lambda>l. fullNode H (gget (gmap hash (inner m t))) l (drop_bit l i XOR 1)) [0..<16] = Inr els"
    by - (rule proof_sound [OF assms(2) hashes_parse [OF assms(1)]], (assumption | rule that)+)
  show thesis
  proof (rule that [OF _ p(2) _ _ _ p(4-8) i])
    show "levelsOf H validate hash (inner m t) = Inr levels" using p(1) by (simp add: good_inner(1) [OF assms(1)])
    then show "rootOf H validate hash (inner m t) = Inr root" using p(3) by (simp add: rootOf_def TreeDepth_def)
    show "nodeAtLevel H levels TreeDepth 0 = Inr root" using p(3) by (simp add: TreeDepth_def)
    show "mapRes (\<lambda>l. fullNode H (hashesOf hash m t) l (drop_bit l i XOR 1)) [0..<16] = Inr els"
      using p(9) unfolding good_inner(2) [OF assms(1)] .
    show "key leaf = (t, i)" using lf by simp
  qed
qed

lemma root_cong:
  assumes "\<And>l r. \<exists>h. H l r = Inr h" "good m" "good m'" "\<And>i. get2 m t i = get2 m' t i"
  shows "rootOf H validate hash (inner m t) = rootOf H validate hash (inner m' t)"
proof -
  have "hashesOf hash m t = hashesOf hash m' t" using assms(4) by (simp add: hashesOf_def fun_eq_iff)
  then show ?thesis using root_spec [OF assms(2,1), of t] root_spec [OF assms(3,1), of t] by auto
qed

end

section \<open>The leaf store interface\<close>

text \<open>
  What clients of \<^verbatim>\<open>utxotree.Store\<close> and \<^verbatim>\<open>txid.MerkleTreeStore\<close> rely on, for
  the stores in a valid state: an upsert is a point update, a listing has exactly the stored
  leaves, and a rollback keeps exactly the leaves of earlier blocks.
\<close>

locale leaf_store =
  fixes valid :: "'s \<Rightarrow> bool"
    and key :: "'l \<Rightarrow> uint64 \<times> uint64"
    and block :: "'l \<Rightarrow> uint64"
    and upsert :: "'s \<Rightarrow> 'l \<Rightarrow> 's res"
    and get :: "'s \<Rightarrow> uint64 \<Rightarrow> uint64 \<Rightarrow> 'l option res"
    and list :: "'s \<Rightarrow> 'l list res"
    and rollback :: "'s \<Rightarrow> uint64 \<Rightarrow> 's res"
  assumes upsert_valid: "valid s \<Longrightarrow> upsert s l = Inr s' \<Longrightarrow> valid s'"
    and upsert_get: "valid s \<Longrightarrow> upsert s l = Inr s' \<Longrightarrow>
      get s' t i = (if (t, i) = key l then Inr (Some l) else get s t i)"
    and get_total: "valid s \<Longrightarrow> \<exists>r. get s t i = Inr r"
    and get_key: "valid s \<Longrightarrow> get s t i = Inr (Some l) \<Longrightarrow> key l = (t, i)"
    and list_total: "valid s \<Longrightarrow> \<exists>ls. list s = Inr ls"
    and list_get: "valid s \<Longrightarrow> list s = Inr ls \<Longrightarrow> l \<in> set ls \<longleftrightarrow> get s (fst (key l)) (snd (key l)) = Inr (Some l)"
    and rollback_valid: "valid s \<Longrightarrow> rollback s b = Inr s' \<Longrightarrow> valid s'"
    and rollback_get: "valid s \<Longrightarrow> rollback s b = Inr s' \<Longrightarrow>
      get s' t i = andThen (get s t i) (\<lambda>r. Inr (case r of None \<Rightarrow> None | Some l \<Rightarrow> if block l < b then Some l else None))"
begin

lemma rollback_drops:
  "valid s \<Longrightarrow> rollback s b = Inr s' \<Longrightarrow> get s' t i = Inr (Some l) \<Longrightarrow> block l < b"
  by (auto simp: rollback_get res_elims split: option.splits if_splits)

lemma rollback_twice:
  assumes "valid s" "rollback s b = Inr s'" "rollback s' c = Inr s''" "c \<le> b" "rollback s c = Inr u"
  shows "get s'' t i = get u t i"
proof -
  obtain r where r: "get s t i = Inr r" using get_total assms(1) by blast
  have "block x < c \<Longrightarrow> block x < b" for x using assms(4) by simp
  then show ?thesis
    unfolding rollback_get [OF assms(1,5)] rollback_get [OF rollback_valid [OF assms(1,2)] assms(3)]
      rollback_get [OF assms(1,2)] r
    by (cases r) auto
qed

text \<open>Rolling back to the block of a freshly added leaf undoes the addition.\<close>

lemma rollback_upsert:
  assumes "valid s" "upsert s l = Inr s'" "rollback s' b = Inr s''" "b \<le> block l"
    and "get s (fst (key l)) (snd (key l)) = Inr None"
    and "\<And>t i x. get s t i = Inr (Some x) \<Longrightarrow> block x < b"
  shows "get s'' t i = get s t i"
proof -
  obtain r where r: "get s t i = Inr r" using get_total assms(1) by blast
  show ?thesis
  proof (cases "(t, i) = key l")
    case True
    then have "get s t i = Inr None" using assms(5) by (metis fst_conv snd_conv)
    then show ?thesis using True assms(4)
      unfolding rollback_get [OF upsert_valid [OF assms(1,2)] assms(3)] upsert_get [OF assms(1,2)] by simp
  next
    case False
    then show ?thesis using assms(6) [of t i]
      unfolding rollback_get [OF upsert_valid [OF assms(1,2)] assms(3)] upsert_get [OF assms(1,2)] r
      by (cases r) auto
  qed
qed

end

end
