(* ===== verification/Railgun.thy ===== *)
theory Railgun
  imports Poseidon
begin

text \<open>
  Models \<^verbatim>\<open>pkg/crypto/railgun.go\<close>: the note, nullifier and blinded-commitment hashes.
  Keccak is the argument \<open>keccak\<close>; the Poseidon constants are the argument \<open>raw\<close>.
\<close>

definition MasterPublicKey :: "poseidonConstantsRaw \<Rightarrow> int \<times> int \<Rightarrow> int \<Rightarrow> int res" where
  "MasterPublicKey raw spendingPublicKey nullifyingKey =
     Poseidon raw [fst spendingPublicKey, snd spendingPublicKey, nullifyingKey]"

definition NotePublicKey :: "poseidonConstantsRaw \<Rightarrow> int \<Rightarrow> string \<Rightarrow> int res" where
  "NotePublicKey raw masterPublicKey randomHex =
     andThen (HexToBigInt randomHex) (\<lambda>random. Poseidon raw [masterPublicKey, random])"

definition NoteHash :: "poseidonConstantsRaw \<Rightarrow> int \<Rightarrow> string \<Rightarrow> int \<Rightarrow> int res" where
  "NoteHash raw notePublicKey tokenHash value =
     andThen (HexToBigInt tokenHash) (\<lambda>token. Poseidon raw [notePublicKey, token, value])"

definition NoteHashFromTokenData ::
  "poseidonConstantsRaw \<Rightarrow> (byte list \<Rightarrow> byte list) \<Rightarrow> int \<Rightarrow> TokenData \<Rightarrow> int \<Rightarrow> int res" where
  "NoteHashFromTokenData raw keccak notePublicKey tokenData value =
     andThen (TokenDataHash keccak tokenData) (\<lambda>tokenHash. NoteHash raw notePublicKey tokenHash value)"

definition UnshieldNoteHash ::
  "poseidonConstantsRaw \<Rightarrow> (byte list \<Rightarrow> byte list) \<Rightarrow> string \<Rightarrow> TokenData \<Rightarrow> int \<Rightarrow> int res" where
  "UnshieldNoteHash raw keccak toAddress tokenData value =
     andThen (HexToBigInt toAddress) (\<lambda>npk. NoteHashFromTokenData raw keccak npk tokenData value)"

definition Nullifier :: "poseidonConstantsRaw \<Rightarrow> int \<Rightarrow> uint64 \<Rightarrow> int res" where
  "Nullifier raw nullifyingKey leafIndex = Poseidon raw [nullifyingKey, uint leafIndex]"

definition BlindedCommitment :: "poseidonConstantsRaw \<Rightarrow> string \<Rightarrow> int \<Rightarrow> int \<Rightarrow> string res" where
  "BlindedCommitment raw commitmentHash npk globalTreePosition =
     andThen (HexToBigInt commitmentHash) (\<lambda>commitment.
     andThen (Poseidon raw [commitment, npk, globalTreePosition]) (\<lambda>hash. BigIntToHex (Some hash) 32 True))"

definition BlindedUnshield :: "string \<Rightarrow> string res" where
  "BlindedUnshield railgunTxid =
     andThen (HexToBigInt railgunTxid) (\<lambda>n. BigIntToHex (Some n) 32 True)"

section \<open>Constants of pkg/crypto/memo.go\<close>

definition OutputTypeChange :: int where
  "OutputTypeChange = 2"

definition MemoSenderRandomNull :: string where
  "MemoSenderRandomNull = ''000000000000000000000000000000''"

end
