(* ===== verification/Chain.thy ===== *)
theory Chain
  imports Prelude
begin

text \<open>
  Models \<^verbatim>\<open>pkg/chain/chain.go\<close>: the 64-bit network id of a chain and the list of chains
  that support V3, which is the state passed in and returned.
\<close>

record Chain =
  ChainType :: int
  ChainID :: uint64

text \<open>\<^verbatim>\<open>%0nx\<close> of a non-negative number.\<close>

definition padHex :: "nat \<Rightarrow> int \<Rightarrow> string" where
  "padHex n v = (let s = intText 16 v in replicate (n - length s) (CHR ''0'') @ s)"

definition FullNetworkIDHex :: "Chain \<Rightarrow> string res" where
  "FullNetworkIDHex chain =
     (if ChainType chain < 0 \<or> ChainType chain > 255 then Err ''chain type exceeds uint8''
      else if ChainID chain \<ge> push_bit 56 1 then Err ''chain id exceeds uint56''
      else Inr (padHex 2 (ChainType chain) @ padHex 14 (uint (ChainID chain))))"

definition FullNetworkIDUint64 :: "Chain \<Rightarrow> uint64 res" where
  "FullNetworkIDUint64 chain =
     andThen (FullNetworkIDHex chain) (\<lambda>_.
     Inr (push_bit 56 (word_of_int (ChainType chain)) OR ChainID chain))"

definition SupportsV3 :: "Chain list \<Rightarrow> Chain \<Rightarrow> bool" where
  "SupportsV3 chainsSupportingV3 chain \<longleftrightarrow>
     (\<exists>c \<in> set chainsSupportingV3. ChainID chain = ChainID c \<and> ChainType chain = ChainType c)"

definition AssertSupportsV3 :: "Chain list \<Rightarrow> Chain \<Rightarrow> unit res" where
  "AssertSupportsV3 chainsSupportingV3 chain =
     (if SupportsV3 chainsSupportingV3 chain then Inr ()
      else Inl (Errorf ''Chain does not support V3: %d:%d. Set supportsV3 'true' in loadNetwork.''
        [AInt (ChainType chain), ANat (unat (ChainID chain))]))"

definition AddSupportsV3 :: "Chain list \<Rightarrow> Chain \<Rightarrow> Chain list" where
  "AddSupportsV3 chainsSupportingV3 chain =
     (if SupportsV3 chainsSupportingV3 chain then chainsSupportingV3 else chainsSupportingV3 @ [chain])"

section \<open>The packed id\<close>

lemma packed_id:
  assumes "0 \<le> t" "t \<le> 255" "i < push_bit 56 (1 :: uint64)"
  shows "uint (push_bit 56 (word_of_int t) OR i :: uint64) = t * 2 ^ 56 + uint i"
proof -
  have i: "uint i < 2 ^ 56" using assms(3) by (simp add: word_less_def push_bit_eq_mult)
  have t: "uint (word_of_int t :: uint64) = t" using assms(1,2) by (simp add: uint_word_of_int_eq take_bit_int_eq_self)
  have "t * 2 ^ 56 < 2 ^ 64" using assms(2) by simp
  then have p: "uint (push_bit 56 (word_of_int t :: uint64)) = t * 2 ^ 56"
    using t assms(1) by (simp add: push_bit_eq_mult uint_word_ariths)
  have dis: "push_bit 56 (word_of_int t) AND i = (0 :: uint64)"
  proof (rule bit_word_eqI)
    fix n
    have "\<not> bit i n" if "56 \<le> n"
    proof -
      have "take_bit 56 (uint i) = uint i" using i by (simp add: take_bit_int_eq_self)
      then have "\<not> bit (uint i) n" using that by (metis bit_take_bit_iff not_le)
      then show ?thesis using bit_imp_le_length [of i n] by (auto simp: bit_uint_iff)
    qed
    then show "bit (push_bit 56 (word_of_int t) AND i) n = bit (0 :: uint64) n"
      by (auto simp: bit_and_iff bit_push_bit_iff not_le)
  qed
  have "push_bit 56 (word_of_int t) OR i = push_bit 56 (word_of_int t) + i"
    using dis by (simp add: disjunctive_add_eq_or)
  moreover have "t * 2 ^ 56 + uint i < 2 ^ 64" using assms(2) i by simp
  ultimately show ?thesis using p assms(1) by (simp add: uint_word_ariths)
qed

section \<open>Properties\<close>

text \<open>Two chains with the same 64-bit network id have the same type and
  the same id: the type is the top byte, the id the 56 bits below, and neither overflows.\<close>

theorem network_id_injective:
  assumes "FullNetworkIDUint64 a = Inr n" "FullNetworkIDUint64 b = Inr n"
  shows "ChainType a = ChainType b \<and> ChainID a = ChainID b \<and> uint n = ChainType a * 2 ^ 56 + uint (ChainID a)"
proof -
  have u: "uint n = ChainType c * 2 ^ 56 + uint (ChainID c) \<and> ChainType c = uint n div 2 ^ 56 \<and>
      uint (ChainID c) = uint n mod 2 ^ 56" if "FullNetworkIDUint64 c = Inr n" for c
  proof -
    have r: "0 \<le> ChainType c" "ChainType c \<le> 255" "ChainID c < push_bit 56 1"
      "n = push_bit 56 (word_of_int (ChainType c)) OR ChainID c"
      using that by (auto simp: FullNetworkIDUint64_def FullNetworkIDHex_def res_elims not_le)
    have i: "0 \<le> uint (ChainID c)" "uint (ChainID c) < 2 ^ 56" using r(3) by (simp_all add: word_less_def push_bit_eq_mult)
    have dm: "(x * 2 ^ 56 + y) div 2 ^ 56 = x" "(x * 2 ^ 56 + y) mod 2 ^ 56 = y" if "0 \<le> y" "y < 2 ^ 56" for x y :: int
      using that by simp_all
    show ?thesis unfolding r(4) packed_id [OF r(1-3)] dm(1) [OF i] dm(2) [OF i] by simp
  qed
  show ?thesis using u [OF assms(1)] u [OF assms(2)] by (metis word_uint_eq_iff)
qed

theorem network_id_injective_witness:
  "FullNetworkIDUint64 \<lparr>ChainType = 1, ChainID = 137\<rparr> = Inr 72057594037928073 \<and>
   (72057594037928073 :: int) = 1 * 2 ^ 56 + 137"
proof -
  have r: "FullNetworkIDUint64 \<lparr>ChainType = 1, ChainID = 137\<rparr> = Inr 72057594037928073" by code_simp
  show ?thesis using network_id_injective [OF r r] r by simp
qed

text \<open>Registering a chain makes it supported, changes no other chain, and
  registering it again changes nothing.\<close>

theorem v3_registry:
  "(SupportsV3 (AddSupportsV3 cs c) d \<longleftrightarrow>
     (ChainType d = ChainType c \<and> ChainID d = ChainID c) \<or> SupportsV3 cs d) \<and>
   AddSupportsV3 (AddSupportsV3 cs c) c = AddSupportsV3 cs c"
  by (auto simp: SupportsV3_def AddSupportsV3_def)

end
