(* ===== verification/Events.thy ===== *)
theory Events
  imports Hex
begin

text \<open>
  The event types of \<^verbatim>\<open>pkg/events/v2.go\<close> and \<^verbatim>\<open>pkg/events/v3.go\<close> that the
  stores index. A Go pointer field is an option; a Go \<^verbatim>\<open>int\<close> is an \<open>int\<close>.
\<close>

record CiphertextGCM =
  gcmIV :: string
  gcmTag :: string
  gcmData :: "string list"

record CiphertextXChaCha =
  xccAlgorithm :: string
  xccNonce :: string
  xccBundle :: string

record PreImage =
  preNPK :: string
  preToken :: TokenData
  preValue :: string

record CommitmentCiphertextV2Event =
  v2Ciphertext :: CiphertextGCM
  v2BlindedSenderViewingKey :: string
  v2BlindedReceiverViewingKey :: string
  v2AnnotationData :: string
  v2Memo :: string

record CommitmentCiphertextV3Event =
  v3Ciphertext :: CiphertextXChaCha
  v3BlindedSenderViewingKey :: string
  v3BlindedReceiverViewingKey :: string

text \<open>The Go structs \<^verbatim>\<open>Commitment\<close> and \<^verbatim>\<open>V3Commitment\<close> differ in the ciphertext only.\<close>

record 'c commitment =
  cmCommitmentType :: string
  cmHash :: string
  cmTxid :: string
  cmTimestamp :: "uint64 option"
  cmBlockNumber :: uint64
  cmUTXOTree :: int
  cmUTXOIndex :: int
  cmPreImage :: "PreImage option"
  cmEncryptedBundle :: "string list"
  cmShieldKey :: string
  cmFee :: string
  cmFrom :: string
  cmCiphertext :: "'c option"
  cmRailgunTxid :: string
  cmSenderCiphertext :: string
  cmTransactCommitmentBatchIndex :: "int option"

type_synonym Commitment = "CommitmentCiphertextV2Event commitment"
type_synonym V3Commitment = "CommitmentCiphertextV3Event commitment"

record 'c commitmentEvent =
  ceTxid :: string
  ceTreeNumber :: int
  ceStartPosition :: int
  ceCommitments :: "'c commitment list"
  ceBlockNumber :: uint64

type_synonym CommitmentEvent = "CommitmentCiphertextV2Event commitmentEvent"
type_synonym V3CommitmentEvent = "CommitmentCiphertextV3Event commitmentEvent"

record UnshieldStoredEvent =
  unTxid :: string
  unTimestamp :: "uint64 option"
  unToAddress :: string
  unTokenType :: int
  unTokenAddress :: string
  unTokenSubID :: string
  unAmount :: string
  unFee :: string
  unBlockNumber :: uint64
  unEventLogIndex :: "uint64 option"
  unRailgunTxid :: string

record Nullifier =
  nuTxid :: string
  nuNullifier :: string
  nuTreeNumber :: int
  nuBlockNumber :: uint64

record ContractLog =
  lgTopics :: "string list"
  lgData :: string
  lgTransactionHash :: string
  lgBlockNumber :: uint64
  lgIndex :: uint64

record UnshieldRailgunTransactionData =
  urTokenData :: TokenData
  urToAddress :: string
  urValue :: string

record RailgunTransactionV3 =
  r3Version :: string
  r3Commitments :: "string list"
  r3Nullifiers :: "string list"
  r3BoundParamsHash :: string
  r3BlockNumber :: uint64
  r3Txid :: string
  r3Unshield :: "UnshieldRailgunTransactionData option"
  r3UTXOTreeIn :: int
  r3UTXOTreeOut :: int
  r3UTXOBatchStartPositionOut :: int
  r3VerificationHash :: string

record V2AccumulatedEvents =
  a2CommitmentEvents :: "CommitmentEvent list"
  a2NullifierEvents :: "Nullifier list"
  a2UnshieldEvents :: "UnshieldStoredEvent list"

record V3AccumulatorEvents =
  a3CommitmentEvents :: "V3CommitmentEvent list"
  a3NullifierEvents :: "Nullifier list"
  a3UnshieldEvents :: "UnshieldStoredEvent list"
  a3RailgunTransactionEvents :: "RailgunTransactionV3 list"

end
