(* ===== verification/UtxoTree.thy ===== *)
theory UtxoTree
  imports LeafMap Events
begin

text \<open>
  Models \<^verbatim>\<open>pkg/utxotree/store.go\<close>: the UTXO Merkle leaf stores in memory and in a
  file, their roots and proofs, and the indexing of commitment events into a store. A store
  pointer is an option (\<open>None\<close> is nil); an operation that changes a store returns the
  changed store, and an error leaves it as it was. The mutexes make the operations atomic.
\<close>

section \<open>Leaves\<close>

definition TreeMaxItems :: uint64 where
  "TreeMaxItems = 65536"

record Leaf =
  leafTree :: uint64
  leafIndex :: uint64
  leafHash :: string
  leafTXID :: string
  leafCommitmentType :: string
  leafBlockNumber :: uint64

definition leafKey :: "Leaf \<Rightarrow> uint64 \<times> uint64" where
  "leafKey l = (leafTree l, leafIndex l)"

definition validateLeaf :: "Leaf \<Rightarrow> unit res" where
  "validateLeaf leaf =
     (if leafIndex leaf \<ge> TreeMaxItems then Err ''utxo merkle tree index exceeds tree size''
      else if leafHash leaf = [] then Err ''utxo merkle leaf hash is required''
      else wrapErr ''utxo merkle leaf hash: %w'' [] (andThen (HexToBigInt (leafHash leaf)) (\<lambda>_. Inr ())))"

definition leafFromCommitment :: "string \<Rightarrow> string \<Rightarrow> string \<Rightarrow> uint64 \<Rightarrow> int \<Rightarrow> int \<Rightarrow> Leaf res" where
  "leafFromCommitment hash txid commitmentType blockNumber tree index =
     (if tree < 0 \<or> index < 0 then Err ''utxo tree and index must be non-negative''
      else andThen (wrapErr ''commitment hash: %w'' [] (FormatHexToByteLength hash 32 False)) (\<lambda>formattedHash.
        let leaf = \<lparr>leafTree = word_of_int tree, leafIndex = word_of_int index, leafHash = formattedHash,
                    leafTXID = txid, leafCommitmentType = commitmentType, leafBlockNumber = blockNumber\<rparr>
        in andThen (validateLeaf leaf) (\<lambda>_. Inr leaf)))"

definition LeafFromV2Commitment :: "Commitment \<Rightarrow> Leaf res" where
  "LeafFromV2Commitment c =
     leafFromCommitment (cmHash c) (cmTxid c) (cmCommitmentType c) (cmBlockNumber c) (cmUTXOTree c) (cmUTXOIndex c)"

definition LeafFromV3Commitment :: "V3Commitment \<Rightarrow> Leaf res" where
  "LeafFromV3Commitment c =
     leafFromCommitment (cmHash c) (cmTxid c) (cmCommitmentType c) (cmBlockNumber c) (cmUTXOTree c) (cmUTXOIndex c)"

definition leafLess :: "Leaf \<Rightarrow> Leaf \<Rightarrow> bool" where
  "leafLess a b \<longleftrightarrow> (if leafTree a \<noteq> leafTree b then leafTree a < leafTree b else leafIndex a < leafIndex b)"

definition sortedLeaves :: "Leaf leafmap \<Rightarrow> Leaf list" where
  "sortedLeaves leaves = sortBy leafLess (vals2 leaves)"

section \<open>Levels, roots and proofs\<close>

definition buildTreeLevels ::
  "(int \<Rightarrow> int \<Rightarrow> int res) \<Rightarrow> (uint64, Leaf) gomap \<Rightarrow> levels res" where
  "buildTreeLevels H leaves =
     andThen (foldRes (\<lambda>(index, leaf) level0. andThen (validateLeaf leaf) (\<lambda>_. Inr (gput index (leafHash leaf) level0)))
        leaves []) (\<lambda>level0. raiseLevels H level0)"

definition proofFromLeaves ::
  "(int \<Rightarrow> int \<Rightarrow> int res) \<Rightarrow> (uint64, Leaf) gomap \<Rightarrow> uint64 \<Rightarrow> MerkleProof res" where
  "proofFromLeaves H leaves index =
     (if index \<ge> TreeMaxItems then Err ''utxo merkle tree index exceeds tree size''
      else case gget leaves index of
        None \<Rightarrow> Inl (Errorf ''missing utxo merkle leaf at index %d'' [ANat (unat index)])
      | Some leaf \<Rightarrow>
        andThen (buildTreeLevels H leaves) (\<lambda>levels.
        andThen (proofElements H levels index) (\<lambda>elements.
        andThen (BigIntToHex (Some (uint (leafIndex leaf))) 32 False) (\<lambda>indices.
        andThen (nodeAtLevel H levels TreeDepth 0) (\<lambda>root.
        Inr \<lparr>prfLeaf = leafHash leaf, prfIndices = indices, prfElements = elements, prfRoot = root\<rparr>)))))"

section \<open>The memory store\<close>

type_synonym MemoryStore = "Leaf leafmap option"

abbreviation storeRequired :: string where
  "storeRequired \<equiv> ''utxo merkle tree store is required''"

definition putLeaf :: "Leaf \<Rightarrow> Leaf leafmap \<Rightarrow> Leaf leafmap" where
  "putLeaf leaf leaves = put2 (leafTree leaf) (leafIndex leaf) leaf leaves"

definition validateLeaves :: "Leaf list \<Rightarrow> unit res" where
  "validateLeaves leaves = foldResI 0 (\<lambda>i leaf _. wrapErr ''leaves[%d]: %w'' [ANat i] (validateLeaf leaf)) leaves ()"

definition NewMemoryStore :: MemoryStore where
  "NewMemoryStore = Some []"

definition MemoryStore_UpsertLeaf :: "ctx \<Rightarrow> MemoryStore \<Rightarrow> Leaf \<Rightarrow> MemoryStore res" where
  "MemoryStore_UpsertLeaf ctx store leaf =
     withCtx ctx (notNil storeRequired store (\<lambda>leaves.
     andThen (validateLeaf leaf) (\<lambda>_. Inr (Some (putLeaf leaf leaves)))))"

definition MemoryStore_UpsertLeaves :: "ctx \<Rightarrow> MemoryStore \<Rightarrow> Leaf list \<Rightarrow> MemoryStore res" where
  "MemoryStore_UpsertLeaves ctx store new =
     withCtx ctx (notNil storeRequired store (\<lambda>leaves.
     andThen (validateLeaves new) (\<lambda>_. Inr (Some (fold putLeaf new leaves)))))"

definition MemoryStore_GetLeaf :: "ctx \<Rightarrow> MemoryStore \<Rightarrow> uint64 \<Rightarrow> uint64 \<Rightarrow> Leaf option res" where
  "MemoryStore_GetLeaf ctx store tree index =
     withCtx ctx (notNil storeRequired store (\<lambda>leaves. Inr (get2 leaves tree index)))"

definition MemoryStore_ListLeaves :: "ctx \<Rightarrow> MemoryStore \<Rightarrow> Leaf list res" where
  "MemoryStore_ListLeaves ctx store =
     withCtx ctx (notNil storeRequired store (\<lambda>leaves. Inr (sortedLeaves leaves)))"

definition MemoryStore_Root :: "(int \<Rightarrow> int \<Rightarrow> int res) \<Rightarrow> ctx \<Rightarrow> MemoryStore \<Rightarrow> uint64 \<Rightarrow> string res" where
  "MemoryStore_Root H ctx store tree =
     withCtx ctx (notNil storeRequired store (\<lambda>leaves.
     andThen (buildTreeLevels H (inner leaves tree)) (\<lambda>levels. nodeAtLevel H levels TreeDepth 0)))"

definition MemoryStore_Proof ::
  "(int \<Rightarrow> int \<Rightarrow> int res) \<Rightarrow> ctx \<Rightarrow> MemoryStore \<Rightarrow> uint64 \<Rightarrow> uint64 \<Rightarrow> MerkleProof res" where
  "MemoryStore_Proof H ctx store tree index =
     withCtx ctx (notNil storeRequired store (\<lambda>leaves. proofFromLeaves H (inner leaves tree) index))"

definition rollbackLeaves :: "uint64 \<Rightarrow> Leaf leafmap \<Rightarrow> Leaf leafmap" where
  "rollbackLeaves fromBlock leaves = keep2 (\<lambda>leaf. \<not> leafBlockNumber leaf \<ge> fromBlock) leaves"

definition MemoryStore_RollbackToBlock :: "ctx \<Rightarrow> MemoryStore \<Rightarrow> uint64 \<Rightarrow> MemoryStore res" where
  "MemoryStore_RollbackToBlock ctx store fromBlock =
     withCtx ctx (notNil storeRequired store (\<lambda>leaves. Inr (Some (rollbackLeaves fromBlock leaves))))"

section \<open>The file store\<close>

text \<open>The document of the file is the list \<^verbatim>\<open>fileState.Leaves\<close>.\<close>

type_synonym FileStore = "Leaf list fileStore option"

definition NewFileStore :: "string \<Rightarrow> Leaf list jsonfile \<Rightarrow> FileStore" where
  "NewFileStore path onDisk = Some \<lparr>Path = path, fsFile = onDisk\<rparr>"

definition FileStore_loadLocked :: "Leaf list fileStore \<Rightarrow> Leaf leafmap res" where
  "FileStore_loadLocked store =
     (if Path store = [] then Err ''utxo merkle tree store file path is required''
      else readFile (fsFile store) [] (\<lambda>state.
        foldResI 0 (\<lambda>i leaf leaves. andThen (wrapErr ''leaves[%d]: %w'' [ANat i] (validateLeaf leaf))
          (\<lambda>_. Inr (putLeaf leaf leaves))) state []))"

definition FileStore_saveLocked :: "saveEnv \<Rightarrow> Leaf list fileStore \<Rightarrow> Leaf leafmap \<Rightarrow> Leaf list fileStore res" where
  "FileStore_saveLocked env store leaves =
     (if Path store = [] then Err ''utxo merkle tree store file path is required''
      else andThen (writeFile env (sortedLeaves leaves)) (\<lambda>f. Inr (store\<lparr>fsFile := f\<rparr>)))"

definition FileStore_load :: "FileStore \<Rightarrow> Leaf leafmap res" where
  "FileStore_load store = notNil storeRequired store FileStore_loadLocked"

definition FileStore_update ::
  "saveEnv \<Rightarrow> FileStore \<Rightarrow> (Leaf leafmap \<Rightarrow> Leaf leafmap res) \<Rightarrow> FileStore res" where
  "FileStore_update env store update =
     notNil storeRequired store (\<lambda>s.
     andThen (FileStore_loadLocked s) (\<lambda>leaves.
     andThen (update leaves) (\<lambda>leaves.
     andThen (FileStore_saveLocked env s leaves) (\<lambda>s'. Inr (Some s')))))"

definition FileStore_UpsertLeaf :: "saveEnv \<Rightarrow> ctx \<Rightarrow> FileStore \<Rightarrow> Leaf \<Rightarrow> FileStore res" where
  "FileStore_UpsertLeaf env ctx store leaf =
     withCtx ctx (andThen (validateLeaf leaf) (\<lambda>_.
     FileStore_update env store (\<lambda>leaves. Inr (putLeaf leaf leaves))))"

definition FileStore_UpsertLeaves :: "saveEnv \<Rightarrow> ctx \<Rightarrow> FileStore \<Rightarrow> Leaf list \<Rightarrow> FileStore res" where
  "FileStore_UpsertLeaves env ctx store new =
     withCtx ctx (andThen (validateLeaves new) (\<lambda>_.
     FileStore_update env store (\<lambda>existing. Inr (fold putLeaf new existing))))"

definition FileStore_GetLeaf :: "ctx \<Rightarrow> FileStore \<Rightarrow> uint64 \<Rightarrow> uint64 \<Rightarrow> Leaf option res" where
  "FileStore_GetLeaf ctx store tree index =
     withCtx ctx (andThen (FileStore_load store) (\<lambda>leaves. Inr (get2 leaves tree index)))"

definition FileStore_ListLeaves :: "ctx \<Rightarrow> FileStore \<Rightarrow> Leaf list res" where
  "FileStore_ListLeaves ctx store =
     withCtx ctx (andThen (FileStore_load store) (\<lambda>leaves. Inr (sortedLeaves leaves)))"

definition FileStore_Root :: "(int \<Rightarrow> int \<Rightarrow> int res) \<Rightarrow> ctx \<Rightarrow> FileStore \<Rightarrow> uint64 \<Rightarrow> string res" where
  "FileStore_Root H ctx store tree =
     withCtx ctx (andThen (FileStore_load store) (\<lambda>leaves.
     andThen (buildTreeLevels H (inner leaves tree)) (\<lambda>levels. nodeAtLevel H levels TreeDepth 0)))"

definition FileStore_Proof ::
  "(int \<Rightarrow> int \<Rightarrow> int res) \<Rightarrow> ctx \<Rightarrow> FileStore \<Rightarrow> uint64 \<Rightarrow> uint64 \<Rightarrow> MerkleProof res" where
  "FileStore_Proof H ctx store tree index =
     withCtx ctx (andThen (FileStore_load store) (\<lambda>leaves. proofFromLeaves H (inner leaves tree) index))"

definition FileStore_RollbackToBlock :: "saveEnv \<Rightarrow> ctx \<Rightarrow> FileStore \<Rightarrow> uint64 \<Rightarrow> FileStore res" where
  "FileStore_RollbackToBlock env ctx store fromBlock =
     withCtx ctx (FileStore_update env store (\<lambda>leaves. Inr (rollbackLeaves fromBlock leaves)))"

section \<open>Indexing commitment events\<close>

text \<open>
  A store value of the Go interface: its optional extensions, found by type assertion, and
  its \<^verbatim>\<open>UpsertLeaf\<close>. Every operation returns the store it leaves behind.
\<close>

record ('s, 'e) storeIface =
  upsertEvents :: "(ctx \<Rightarrow> 's \<Rightarrow> 'e list \<Rightarrow> 's \<times> (nat \<times> gerr option)) option"
  upsertLeaves :: "(ctx \<Rightarrow> 's \<Rightarrow> Leaf list \<Rightarrow> 's res) option"
  upsertLeaf :: "ctx \<Rightarrow> 's \<Rightarrow> Leaf \<Rightarrow> 's res"

text \<open>The leaves of the events in order, up to the first error.\<close>

fun collectLeaves :: "ctx \<Rightarrow> ('c \<Rightarrow> Leaf res) \<Rightarrow> 'c list \<Rightarrow> Leaf list \<times> gerr option" where
  "collectLeaves ctx conv [] = ([], None)"
| "collectLeaves ctx conv (c # cs) =
     (case withCtx ctx (conv c) of
        Inl e \<Rightarrow> ([], Some e)
      | Inr leaf \<Rightarrow> (case collectLeaves ctx conv cs of (ls, e) \<Rightarrow> (leaf # ls, e)))"

text \<open>The loop over \<^verbatim>\<open>UpsertLeaf\<close>, with the count of leaves stored so far.\<close>

fun upsertEach :: "(ctx \<Rightarrow> 's \<Rightarrow> Leaf \<Rightarrow> 's res) \<Rightarrow> ctx \<Rightarrow> nat \<Rightarrow> Leaf list \<Rightarrow> 's \<Rightarrow> 's \<times> (nat \<times> gerr option)" where
  "upsertEach up ctx n [] s = (s, n, None)"
| "upsertEach up ctx n (l # ls) s =
     (case up ctx s l of Inl e \<Rightarrow> (s, n, Some e) | Inr s' \<Rightarrow> upsertEach up ctx (Suc n) ls s')"

definition indexLeaves :: "ctx \<Rightarrow> ('s, 'e) storeIface \<Rightarrow> 's \<Rightarrow> Leaf list \<Rightarrow> 's \<times> (nat \<times> gerr option)" where
  "indexLeaves ctx iface s leaves =
     (case upsertLeaves iface of
        Some bulk \<Rightarrow> (case bulk ctx s leaves of Inl e \<Rightarrow> (s, 0, Some e) | Inr s' \<Rightarrow> (s', length leaves, None))
      | None \<Rightarrow> upsertEach (upsertLeaf iface) ctx 0 leaves s)"

definition IndexV2CommitmentEvents ::
  "ctx \<Rightarrow> ('s, CommitmentEvent) storeIface option \<Rightarrow> 's \<Rightarrow> CommitmentEvent list \<Rightarrow> 's \<times> (nat \<times> gerr option)" where
  "IndexV2CommitmentEvents ctx store s events =
     (case store of
        None \<Rightarrow> (s, 0, Some (Errorf storeRequired []))
      | Some iface \<Rightarrow> (case upsertEvents iface of
          Some up \<Rightarrow> up ctx s events
        | None \<Rightarrow> (case collectLeaves ctx LeafFromV2Commitment (concat (map ceCommitments events)) of
            (leaves, Some e) \<Rightarrow> (s, length leaves, Some e)
          | (leaves, None) \<Rightarrow> indexLeaves ctx iface s leaves)))"

definition IndexV3CommitmentEvents ::
  "ctx \<Rightarrow> ('s, V3CommitmentEvent) storeIface option \<Rightarrow> 's \<Rightarrow> V3CommitmentEvent list \<Rightarrow> 's \<times> (nat \<times> gerr option)" where
  "IndexV3CommitmentEvents ctx store s events =
     (case store of
        None \<Rightarrow> (s, 0, Some (Errorf storeRequired []))
      | Some iface \<Rightarrow> (case upsertEvents iface of
          Some up \<Rightarrow> up ctx s events
        | None \<Rightarrow> (case collectLeaves ctx LeafFromV3Commitment (concat (map ceCommitments events)) of
            (leaves, Some e) \<Rightarrow> (s, length leaves, Some e)
          | (leaves, None) \<Rightarrow> indexLeaves ctx iface s leaves)))"

definition memoryIface :: "(MemoryStore, 'e) storeIface" where
  "memoryIface = \<lparr>upsertEvents = None, upsertLeaves = Some MemoryStore_UpsertLeaves, upsertLeaf = MemoryStore_UpsertLeaf\<rparr>"

section \<open>Valid leaves and valid maps\<close>

abbreviation leafOk :: "Leaf \<Rightarrow> bool" where
  "leafOk l \<equiv> validateLeaf l = Inr ()"

abbreviation goodLeaves :: "Leaf leafmap \<Rightarrow> bool" where
  "goodLeaves \<equiv> goodMap leafKey leafOk"

lemma leafKey_simps [simp]: "fst (leafKey l) = leafTree l" "snd (leafKey l) = leafIndex l"
  by (simp_all add: leafKey_def)

lemma leafOk_iff:
  "leafOk l \<longleftrightarrow> leafIndex l < TreeMaxItems \<and> leafHash l \<noteq> [] \<and> parses (leafHash l)"
  by (auto simp: validateLeaf_def res_elims not_le)

lemma leafLess_key: "leafLess = keyLess leafKey"
  by (simp add: fun_eq_iff leafLess_def keyLess_def)

lemma putLeaf_key: "putLeaf l = put2 (fst (leafKey l)) (snd (leafKey l)) l"
  by (simp add: putLeaf_def fun_eq_iff)

lemma fold_putLeaf: "fold putLeaf ls m = putAll2 leafKey ls m"
  by (simp add: putAll2_def putLeaf_key cong: fold_cong)

lemma goodLeaves_putLeaf: "goodLeaves m \<Longrightarrow> leafOk l \<Longrightarrow> goodLeaves (putLeaf l m)"
  by (simp add: putLeaf_key goodMap_put2 del: leafKey_simps)

lemma goodLeaves_fold: "goodLeaves m \<Longrightarrow> \<forall>l \<in> set ls. leafOk l \<Longrightarrow> goodLeaves (fold putLeaf ls m)"
  by (simp add: fold_putLeaf goodMap_putAll2)

lemma goodLeaves_rollback: "goodLeaves m \<Longrightarrow> goodLeaves (rollbackLeaves b m)"
  by (simp add: rollbackLeaves_def goodMap_keep2)

lemma get2_rollback:
  "goodLeaves m \<Longrightarrow> get2 (rollbackLeaves b m) t i =
     (case get2 m t i of None \<Rightarrow> None | Some l \<Rightarrow> if leafBlockNumber l < b then Some l else None)"
  by (simp add: rollbackLeaves_def goodMap_def gomap_simps not_le)

lemma validateLeaves_Inr: "validateLeaves ls = Inr u \<longleftrightarrow> (\<forall>l \<in> set ls. leafOk l)"
  by (simp add: validateLeaves_def validate_all)

section \<open>Levels of a valid tree\<close>

interpretation utxo_tree: leaf_tree "HashLeftRight raw" leafKey leafHash validateLeaf for raw
  by unfold_locales (auto simp: leafOk_iff TreeMaxItems_def)

lemma buildTreeLevels_levelsOf: "buildTreeLevels H leaves = levelsOf H validateLeaf leafHash leaves"
  by (simp add: buildTreeLevels_def levelsOf_def)

lemma MemoryStore_Root_eq: "MemoryStore_Root H None (Some m) t = rootOf H validateLeaf leafHash (inner m t)"
  by (simp add: MemoryStore_Root_def rootOf_def buildTreeLevels_levelsOf)

lemma Proof_spec:
  assumes "goodLeaves m" "constantsOk raw 2" "get2 m t i = Some leaf"
  obtains elements root c0 c where
    "MemoryStore_Proof (HashLeftRight raw) None (Some m) t i =
       Inr \<lparr>prfLeaf = leafHash leaf, prfIndices = hexWidth 32 (uint i), prfElements = elements, prfRoot = root\<rparr>"
    "MemoryStore_Root (HashLeftRight raw) None (Some m) t = Inr root"
    "mapRes (\<lambda>l. fullNode (HashLeftRight raw) (hashesOf leafHash m t) l (drop_bit l i XOR 1)) [0..<16] = Inr elements"
    "length elements = 16" "HexToBigInt (leafHash leaf) = Inr c0"
    "foldResI 0 (rootStep (HashLeftRight raw) (uint i)) elements c0 = Inr c" "0 \<le> c" "root = hexWidth 32 c"
proof (rule utxo_tree.proof_spec [OF assms(1) HashLeftRight_total [OF assms(2)] assms(3)])
  fix levels els root c0 c
  assume p: "levelsOf (HashLeftRight raw) validateLeaf leafHash (inner m t) = Inr levels"
    "proofElements (HashLeftRight raw) levels i = Inr els" "nodeAtLevel (HashLeftRight raw) levels TreeDepth 0 = Inr root"
    "rootOf (HashLeftRight raw) validateLeaf leafHash (inner m t) = Inr root"
    "mapRes (\<lambda>l. fullNode (HashLeftRight raw) (hashesOf leafHash m t) l (drop_bit l i XOR 1)) [0..<16] = Inr els"
    "length els = 16" "HexToBigInt (leafHash leaf) = Inr c0"
    "foldResI 0 (rootStep (HashLeftRight raw) (uint i)) els c0 = Inr c" "0 \<le> c" "root = hexWidth 32 c"
    "i < 65536" "leafKey leaf = (t, i)"
  have "gget (inner m t) i = Some leaf" using assms(3) by (simp add: get2_def)
  then have "MemoryStore_Proof (HashLeftRight raw) None (Some m) t i =
       Inr \<lparr>prfLeaf = leafHash leaf, prfIndices = hexWidth 32 (uint i), prfElements = els, prfRoot = root\<rparr>"
    using p(1-3,11,12) by (simp add: MemoryStore_Proof_def proofFromLeaves_def buildTreeLevels_levelsOf
        TreeMaxItems_def not_le BigIntToHex_Some leafKey_def)
  then show thesis using p(4-10) by (intro that) (simp_all only: MemoryStore_Root_eq)
qed

section \<open>What the file holds\<close>

definition fileOk :: "FileStore \<Rightarrow> bool" where
  "fileOk s \<longleftrightarrow> (case s of None \<Rightarrow> False | Some f \<Rightarrow> Path f \<noteq> [] \<and> docOk leafOk (fsFile f))"

definition onDisk :: "FileStore \<Rightarrow> Leaf leafmap" where
  "onDisk s = (case s of None \<Rightarrow> [] | Some f \<Rightarrow> docMap leafKey (fsFile f))"

lemma onDisk_good: "fileOk s \<Longrightarrow> goodLeaves (onDisk s)"
  by (auto simp: fileOk_def onDisk_def docMap_good split: option.splits)

lemma FileStore_load_ok: "fileOk s \<Longrightarrow> FileStore_load s = Inr (onDisk s)"
  by (auto simp: fileOk_def onDisk_def FileStore_load_def FileStore_loadLocked_def putLeaf_key docMap_load
      split: option.splits simp del: leafKey_simps)

definition noFault :: saveEnv where
  "noFault = \<lparr>mkdirErr = None, writeErr = None, renameErr = None\<rparr>"

lemma FileStore_update_iff:
  assumes "fileOk s"
  shows "FileStore_update env s (\<lambda>m. Inr (f m)) = Inr s' \<longleftrightarrow>
     mkdirErr env = None \<and> writeErr env = None \<and> renameErr env = None \<and>
     s' = Some (the s\<lparr>fsFile := FileDoc (sortedLeaves (f (onDisk s)))\<rparr>)"
  using assms FileStore_load_ok [OF assms]
  by (auto simp: FileStore_update_def FileStore_load_def FileStore_saveLocked_def res_elims fileOk_def split: option.splits)

lemma FileStore_update_noFault:
  "fileOk s \<Longrightarrow> FileStore_update noFault s (\<lambda>m. Inr (f m)) =
     Inr (Some (the s\<lparr>fsFile := FileDoc (sortedLeaves (f (onDisk s)))\<rparr>))"
  by (simp add: FileStore_update_iff noFault_def)

lemma saved_file:
  assumes "fileOk s" "goodLeaves m" "s' = Some (the s\<lparr>fsFile := FileDoc (sortedLeaves m)\<rparr>)"
  shows "fileOk s'" "get2 (onDisk s') t i = get2 m t i"
  using assms docMap_saved [OF assms(2)]
  by (auto simp: fileOk_def onDisk_def sortedLeaves_def leafLess_key split: option.splits)

section \<open>Both stores are leaf stores\<close>

definition memOk :: "MemoryStore \<Rightarrow> bool" where
  "memOk s \<longleftrightarrow> (\<exists>m. s = Some m \<and> goodLeaves m)"

lemma MemoryStore_ops:
  assumes "goodLeaves m"
  shows "MemoryStore_UpsertLeaf None (Some m) l = Inr s' \<longleftrightarrow> leafOk l \<and> s' = Some (putLeaf l m)"
    "MemoryStore_GetLeaf None (Some m) t i = Inr (get2 m t i)"
    "MemoryStore_ListLeaves None (Some m) = Inr (sortedLeaves m)"
    "MemoryStore_RollbackToBlock None (Some m) b = Inr (Some (rollbackLeaves b m))"
  by (auto simp: MemoryStore_UpsertLeaf_def MemoryStore_GetLeaf_def MemoryStore_ListLeaves_def
      MemoryStore_RollbackToBlock_def res_elims)

lemma get2_putLeaf: "get2 (putLeaf l m) t i = (if (t, i) = leafKey l then Some l else get2 m t i)"
  by (simp add: putLeaf_def leafKey_def gomap_simps)

interpretation utxo_mem: leaf_store memOk leafKey leafBlockNumber "MemoryStore_UpsertLeaf None" "MemoryStore_GetLeaf None"
  "MemoryStore_ListLeaves None" "MemoryStore_RollbackToBlock None"
proof (unfold_locales, unfold memOk_def, goal_cases)
  case (1 s l s')
  then show ?case using MemoryStore_ops goodLeaves_putLeaf by blast
next
  case (2 s l s' t i)
  then obtain m where "s = Some m" "goodLeaves m" "s' = Some (putLeaf l m)" "leafOk l" using MemoryStore_ops by blast
  then show ?case using MemoryStore_ops(2) [OF goodLeaves_putLeaf] by (simp add: MemoryStore_ops get2_putLeaf)
next
  case (3 s t i)
  then show ?case using MemoryStore_ops by blast
next
  case (4 s t i l)
  then show ?case using MemoryStore_ops(2) by (auto simp: goodMap_def keyed2_def)
next
  case (5 s)
  then show ?case using MemoryStore_ops by blast
next
  case (6 s ls l)
  then obtain m where "s = Some m" "goodLeaves m" "ls = sortedLeaves m" using MemoryStore_ops(3) by fastforce
  then show ?case using goodMap_listing_iff [of leafKey leafOk m l] by (auto simp: MemoryStore_ops sortedLeaves_def)
next
  case (7 s b s')
  then show ?case using MemoryStore_ops(4) goodLeaves_rollback by fastforce
next
  case (8 s b s' t i)
  then obtain m where m: "s = Some m" "goodLeaves m" "s' = Some (rollbackLeaves b m)" using MemoryStore_ops(4) by fastforce
  then show ?case
    using MemoryStore_ops(2) [OF goodLeaves_rollback [OF m(2)]] by (simp add: MemoryStore_ops get2_rollback)
qed

lemma FileStore_GetLeaf_ok: "fileOk s \<Longrightarrow> FileStore_GetLeaf None s t i = Inr (get2 (onDisk s) t i)"
  by (simp add: FileStore_GetLeaf_def FileStore_load_ok)

lemma FileStore_ListLeaves_ok: "fileOk s \<Longrightarrow> FileStore_ListLeaves None s = Inr (sortedLeaves (onDisk s))"
  by (simp add: FileStore_ListLeaves_def FileStore_load_ok)

lemma FileStore_UpsertLeaf_ok:
  assumes "fileOk s" "FileStore_UpsertLeaf env None s l = Inr s'"
  shows "leafOk l" "fileOk s'" "get2 (onDisk s') t i = get2 (putLeaf l (onDisk s)) t i"
proof -
  have a: "leafOk l" "s' = Some (the s\<lparr>fsFile := FileDoc (sortedLeaves (putLeaf l (onDisk s)))\<rparr>)"
    using assms(2) by (auto simp: FileStore_UpsertLeaf_def res_elims FileStore_update_iff [OF assms(1)])
  note g = goodLeaves_putLeaf [OF onDisk_good [OF assms(1)] a(1)]
  show "leafOk l" "fileOk s'" "get2 (onDisk s') t i = get2 (putLeaf l (onDisk s)) t i"
    using a saved_file [OF assms(1) g a(2)] by auto
qed

lemma FileStore_Rollback_ok:
  assumes "fileOk s" "FileStore_RollbackToBlock env None s b = Inr s'"
  shows "fileOk s'" "get2 (onDisk s') t i = get2 (rollbackLeaves b (onDisk s)) t i"
proof -
  have a: "s' = Some (the s\<lparr>fsFile := FileDoc (sortedLeaves (rollbackLeaves b (onDisk s)))\<rparr>)"
    using assms(2) by (auto simp: FileStore_RollbackToBlock_def FileStore_update_iff [OF assms(1)])
  note g = goodLeaves_rollback [OF onDisk_good [OF assms(1)]]
  show "fileOk s'" "get2 (onDisk s') t i = get2 (rollbackLeaves b (onDisk s)) t i"
    using saved_file [OF assms(1) g a] by auto
qed

interpretation utxo_file: leaf_store fileOk leafKey leafBlockNumber "FileStore_UpsertLeaf env None" "FileStore_GetLeaf None"
  "FileStore_ListLeaves None" "FileStore_RollbackToBlock env None" for env
proof (unfold_locales, goal_cases)
  case (1 s l s')
  then show ?case by (rule FileStore_UpsertLeaf_ok(2))
next
  case (2 s l s' t i)
  then show ?case using FileStore_UpsertLeaf_ok(2,3) [OF 2] by (simp add: FileStore_GetLeaf_ok get2_putLeaf)
next
  case (3 s t i)
  then show ?case by (simp add: FileStore_GetLeaf_ok)
next
  case (4 s t i l)
  then show ?case using onDisk_good [of s] by (simp add: FileStore_GetLeaf_ok goodMap_def keyed2_def)
next
  case (5 s)
  then show ?case by (simp add: FileStore_ListLeaves_ok)
next
  case (6 s ls l)
  then show ?case using goodMap_listing_iff [OF onDisk_good, of s l]
    by (auto simp: FileStore_ListLeaves_ok FileStore_GetLeaf_ok sortedLeaves_def)
next
  case (7 s b s')
  then show ?case by (rule FileStore_Rollback_ok(1))
next
  case (8 s b s' t i)
  then show ?case using FileStore_Rollback_ok [OF 8]
    by (simp add: FileStore_GetLeaf_ok get2_rollback [OF onDisk_good])
qed

section \<open>The reads see the lookups only\<close>

lemma Root_cong:
  assumes "constantsOk raw 2" "goodLeaves m" "goodLeaves m'" "\<And>t i. get2 m t i = get2 m' t i"
  shows "MemoryStore_Root (HashLeftRight raw) None (Some m) t = MemoryStore_Root (HashLeftRight raw) None (Some m') t"
  unfolding MemoryStore_Root_eq by (rule utxo_tree.root_cong [OF HashLeftRight_total [OF assms(1)] assms(2-4)])

lemma Proof_cong:
  assumes "constantsOk raw 2" "goodLeaves m" "goodLeaves m'" "\<And>t i. get2 m t i = get2 m' t i"
  shows "MemoryStore_Proof (HashLeftRight raw) None (Some m) t i = MemoryStore_Proof (HashLeftRight raw) None (Some m') t i"
proof (cases "get2 m t i")
  case None
  then show ?thesis using assms(4) [of t i] by (simp add: MemoryStore_Proof_def proofFromLeaves_def get2_def)
next
  case (Some leaf)
  have lh: "hashesOf leafHash m t = hashesOf leafHash m' t" using assms(4) by (simp add: hashesOf_def fun_eq_iff)
  have Some': "get2 m' t i = Some leaf" using Some assms(4) by simp
  show ?thesis
  proof (rule Proof_spec [OF assms(2,1) Some], rule Proof_spec [OF assms(3,1) Some'], unfold lh)
    fix els root els' root'
    assume a: "MemoryStore_Proof (HashLeftRight raw) None (Some m) t i =
         Inr \<lparr>prfLeaf = leafHash leaf, prfIndices = hexWidth 32 (uint i), prfElements = els, prfRoot = root\<rparr>"
      "MemoryStore_Root (HashLeftRight raw) None (Some m) t = Inr root"
      "mapRes (\<lambda>l. fullNode (HashLeftRight raw) (hashesOf leafHash m' t) l (drop_bit l i XOR 1)) [0..<16] = Inr els"
      and b: "MemoryStore_Proof (HashLeftRight raw) None (Some m') t i =
         Inr \<lparr>prfLeaf = leafHash leaf, prfIndices = hexWidth 32 (uint i), prfElements = els', prfRoot = root'\<rparr>"
      "MemoryStore_Root (HashLeftRight raw) None (Some m') t = Inr root'"
      "mapRes (\<lambda>l. fullNode (HashLeftRight raw) (hashesOf leafHash m' t) l (drop_bit l i XOR 1)) [0..<16] = Inr els'"
    have "els = els'" using a(3) b(3) by (metis sum.inject(2))
    moreover have "root = root'" using a(2) b(2) Root_cong [OF assms, of t] by (metis sum.inject(2))
    ultimately show ?thesis using a(1) b(1) by simp
  qed
qed

lemma List_cong:
  assumes "goodLeaves m" "goodLeaves m'" "\<And>t i. get2 m t i = get2 m' t i"
  shows "sortedLeaves m = sortedLeaves m'"
  unfolding sortedLeaves_def leafLess_key
  by (rule listing_cong) (use assms in \<open>auto simp: goodMap_def\<close>)

section \<open>Runs of operations\<close>

datatype storeOp = OpUpsert Leaf | OpUpserts "Leaf list" | OpRollback uint64

fun memStep :: "storeOp \<Rightarrow> MemoryStore \<Rightarrow> MemoryStore res" where
  "memStep (OpUpsert l) s = MemoryStore_UpsertLeaf None s l"
| "memStep (OpUpserts ls) s = MemoryStore_UpsertLeaves None s ls"
| "memStep (OpRollback b) s = MemoryStore_RollbackToBlock None s b"

fun fileStep :: "saveEnv \<Rightarrow> storeOp \<Rightarrow> FileStore \<Rightarrow> FileStore res" where
  "fileStep env (OpUpsert l) s = FileStore_UpsertLeaf env None s l"
| "fileStep env (OpUpserts ls) s = FileStore_UpsertLeaves env None s ls"
| "fileStep env (OpRollback b) s = FileStore_RollbackToBlock env None s b"

inductive memReach :: "MemoryStore \<Rightarrow> bool" where
  new: "memReach NewMemoryStore"
| step: "memReach s \<Longrightarrow> memStep op s = Inr s' \<Longrightarrow> memReach s'"

definition opLeaves :: "storeOp \<Rightarrow> Leaf leafmap \<Rightarrow> Leaf leafmap" where
  "opLeaves op m = (case op of OpUpsert l \<Rightarrow> putLeaf l m | OpUpserts ls \<Rightarrow> fold putLeaf ls m | OpRollback b \<Rightarrow> rollbackLeaves b m)"

definition opCheck :: "storeOp \<Rightarrow> unit res" where
  "opCheck op = (case op of OpUpsert l \<Rightarrow> validateLeaf l | OpUpserts ls \<Rightarrow> validateLeaves ls | OpRollback b \<Rightarrow> Inr ())"

lemma memStep_eq: "memStep op (Some m) = andThen (opCheck op) (\<lambda>_. Inr (Some (opLeaves op m)))"
  by (cases op) (simp_all add: opCheck_def opLeaves_def MemoryStore_UpsertLeaf_def MemoryStore_UpsertLeaves_def
      MemoryStore_RollbackToBlock_def)

lemma fileStep_eq:
  "fileStep env op s = andThen (opCheck op) (\<lambda>_. FileStore_update env s (\<lambda>m. Inr (opLeaves op m)))"
  by (cases op) (simp_all add: opCheck_def opLeaves_def FileStore_UpsertLeaf_def FileStore_UpsertLeaves_def
      FileStore_RollbackToBlock_def)

lemma opLeaves_good: "goodLeaves m \<Longrightarrow> opCheck op = Inr () \<Longrightarrow> goodLeaves (opLeaves op m)"
  by (cases op) (auto simp: opCheck_def opLeaves_def validateLeaves_Inr goodLeaves_putLeaf goodLeaves_fold goodLeaves_rollback)

lemma get2_fold_putLeaf_cong:
  "(\<And>t i. get2 m t i = get2 m' t i) \<Longrightarrow> get2 (fold putLeaf ls m) t i = get2 (fold putLeaf ls m') t i"
  by (induction ls arbitrary: m m') (auto simp: get2_putLeaf)

lemma opLeaves_cong:
  assumes "goodLeaves m" "goodLeaves m'" "\<And>t i. get2 m t i = get2 m' t i"
  shows "get2 (opLeaves op m) t i = get2 (opLeaves op m') t i"
  using assms by (cases op) (simp_all add: opLeaves_def get2_putLeaf get2_rollback get2_fold_putLeaf_cong [OF assms(3)])

lemma memReach_good: "memReach s \<Longrightarrow> \<exists>m. s = Some m \<and> goodLeaves m"
proof (induction rule: memReach.induct)
  case (step s op s')
  then show ?case using opLeaves_good by (auto simp: memStep_eq res_elims)
qed (simp add: NewMemoryStore_def)

definition simStore :: "FileStore \<Rightarrow> MemoryStore \<Rightarrow> bool" where
  "simStore s s' \<longleftrightarrow> fileOk s \<and> (\<exists>m. s' = Some m \<and> goodLeaves m \<and> (\<forall>t i. get2 (onDisk s) t i = get2 m t i))"

lemma simStore_step:
  assumes "simStore s (Some m)"
  shows "case memStep op (Some m) of Inl e \<Rightarrow> fileStep noFault op s = Inl e
    | Inr y \<Rightarrow> (\<exists>x. fileStep noFault op s = Inr x \<and> simStore x y)"
proof (cases "opCheck op")
  case (Inr u)
  have ok: "fileOk s" "goodLeaves m" "\<And>t i. get2 (onDisk s) t i = get2 m t i" using assms by (auto simp: simStore_def)
  define x where "x = Some (the s\<lparr>fsFile := FileDoc (sortedLeaves (opLeaves op (onDisk s)))\<rparr>)"
  have g: "goodLeaves (opLeaves op (onDisk s))" "goodLeaves (opLeaves op m)"
    using opLeaves_good onDisk_good [OF ok(1)] ok(2) Inr by auto
  have "fileStep noFault op s = Inr x" using Inr by (simp add: fileStep_eq FileStore_update_noFault [OF ok(1)] x_def)
  moreover have "simStore x (Some (opLeaves op m))"
    using saved_file [OF ok(1) g(1) x_def] g(2) opLeaves_cong [OF onDisk_good [OF ok(1)] ok(2,3)]
    by (simp add: simStore_def)
  ultimately show ?thesis using Inr by (simp add: memStep_eq)
qed (simp add: memStep_eq fileStep_eq)

lemma simStore_run:
  "simStore s s' \<Longrightarrow> case foldRes memStep ops s' of Inl e \<Rightarrow> foldRes (fileStep noFault) ops s = Inl e
    | Inr y \<Rightarrow> (\<exists>x. foldRes (fileStep noFault) ops s = Inr x \<and> simStore x y)"
proof (induction ops arbitrary: s s')
  case (Cons op ops)
  obtain m where m: "s' = Some m" using Cons.prems by (auto simp: simStore_def)
  show ?case
  proof (cases "memStep op s'")
    case (Inl e)
    then show ?thesis using simStore_step [of s m op] Cons.prems m by simp
  next
    case (Inr y)
    then obtain x where x: "fileStep noFault op s = Inr x" "simStore x y"
      using simStore_step [of s m op] Cons.prems m by auto
    then show ?thesis using Cons.IH [OF x(2)] x(1) Inr by (simp split: sum.splits)
  qed
qed simp

lemma simStore_reads:
  assumes "simStore s s'" "constantsOk raw 2"
  shows "FileStore_GetLeaf None s t i = MemoryStore_GetLeaf None s' t i"
    "FileStore_ListLeaves None s = MemoryStore_ListLeaves None s'"
    "FileStore_Root (HashLeftRight raw) None s t = MemoryStore_Root (HashLeftRight raw) None s' t"
    "FileStore_Proof (HashLeftRight raw) None s t i = MemoryStore_Proof (HashLeftRight raw) None s' t i"
proof -
  obtain m where m: "s' = Some m" "goodLeaves m" "\<And>t i. get2 (onDisk s) t i = get2 m t i" "fileOk s"
    using assms(1) by (auto simp: simStore_def)
  note d = onDisk_good [OF m(4)]
  show "FileStore_GetLeaf None s t i = MemoryStore_GetLeaf None s' t i"
    using m by (simp add: FileStore_GetLeaf_ok MemoryStore_GetLeaf_def)
  show "FileStore_ListLeaves None s = MemoryStore_ListLeaves None s'"
    using m List_cong [OF d m(2,3)] by (simp add: FileStore_ListLeaves_ok MemoryStore_ListLeaves_def)
  show "FileStore_Root (HashLeftRight raw) None s t = MemoryStore_Root (HashLeftRight raw) None s' t"
    using m(1) Root_cong [OF assms(2) d m(2,3), of t]
    by (simp add: FileStore_Root_def FileStore_load_ok [OF m(4)] MemoryStore_Root_def)
  show "FileStore_Proof (HashLeftRight raw) None s t i = MemoryStore_Proof (HashLeftRight raw) None s' t i"
    using m(1) Proof_cong [OF assms(2) d m(2,3), of t i]
    by (simp add: FileStore_Proof_def FileStore_load_ok [OF m(4)] MemoryStore_Proof_def)
qed

lemma collectLeaves_all:
  "collectLeaves ctx conv cs = (ls, None) \<Longrightarrow> list_all2 (\<lambda>c l. conv c = Inr l) cs ls"
  by (induction cs arbitrary: ls) (auto split: sum.splits prod.splits simp: withCtx_Inr)

text \<open>After storing a list, a position holds the last leaf of the list with that position.\<close>

lemma get2_fold_putLeaf:
  "get2 (fold putLeaf ls m) tree index =
      (case find (\<lambda>l. (leafTree l, leafIndex l) = (tree, index)) (rev ls) of
         Some l \<Rightarrow> Some l | None \<Rightarrow> get2 m tree index)"
  by (induction ls rule: rev_induct) (auto simp: get2_putLeaf leafKey_def split: option.splits)

section \<open>Properties\<close>

text \<open>The proof that the store gives of a leaf.\<close>

lemma memory_proof:
  assumes "constantsOk raw 2" "memReach s" "MemoryStore_GetLeaf None s tree index = Inr (Some leaf)"
  shows "\<exists>p. MemoryStore_Proof (HashLeftRight raw) None s tree index = Inr p \<and>
      prfLeaf p = leafHash leaf \<and> HexToBigInt (prfIndices p) = Inr (uint index) \<and>
      length (prfElements p) = TreeDepth \<and>
      MemoryStore_Root (HashLeftRight raw) None s tree = Inr (prfRoot p) \<and>
      VerifyProof raw p = Inr True"
proof -
  obtain m where m: "s = Some m" "goodLeaves m" using memReach_good [OF assms(2)] by auto
  have "get2 m tree index = Some leaf" using assms(3) m by (simp add: MemoryStore_GetLeaf_def)
  then obtain els root c0 c where p:
    "MemoryStore_Proof (HashLeftRight raw) None (Some m) tree index =
       Inr \<lparr>prfLeaf = leafHash leaf, prfIndices = hexWidth 32 (uint index), prfElements = els, prfRoot = root\<rparr>"
    "MemoryStore_Root (HashLeftRight raw) None (Some m) tree = Inr root"
    "length els = 16" "HexToBigInt (leafHash leaf) = Inr c0"
    "foldResI 0 (rootStep (HashLeftRight raw) (uint index)) els c0 = Inr c" "0 \<le> c" "root = hexWidth 32 c"
    by - (rule Proof_spec [OF m(2) assms(1)], (assumption | rule that)+)
  have "uint index < 2 ^ 64" using uint_bounded [of index] by simp
  then have i: "HexToBigInt (hexWidth 32 (uint index)) = Inr (uint index)" by (intro hexWidth_roundtrip) simp_all
  then have "VerifyProof raw \<lparr>prfLeaf = leafHash leaf, prfIndices = hexWidth 32 (uint index), prfElements = els, prfRoot = root\<rparr> = Inr True"
    using p(4-7) by (simp add: VerifyProof_def CalculateRoot_def BigIntToHex_Some)
  then show ?thesis using p(1-3) i m(1) by (simp add: TreeDepth_def)
qed

text \<open>C1: In every reachable memory store, the proof of a stored leaf is
  produced, names the leaf and its index, has one element per level, carries the root that
  \<^verbatim>\<open>Root\<close> returns, and is accepted by \<^verbatim>\<open>VerifyProof\<close>, with the
  Poseidon constants covering two inputs.\<close>

theorem memory_proof_verifies:
  assumes "constantsOk raw 2" "memReach s" "MemoryStore_GetLeaf None s tree index = Inr (Some leaf)"
  shows "\<exists>p. MemoryStore_Proof (HashLeftRight raw) None s tree index = Inr p \<and>
      prfLeaf p = leafHash leaf \<and> HexToBigInt (prfIndices p) = Inr (uint index) \<and>
      length (prfElements p) = TreeDepth \<and>
      MemoryStore_Root (HashLeftRight raw) None s tree = Inr (prfRoot p) \<and>
      VerifyProof raw p = Inr True"
  using assms by (rule memory_proof)

definition sampleLeaf :: Leaf where
  "sampleLeaf = \<lparr>leafTree = 0, leafIndex = 5, leafHash = ''0a'', leafTXID = [], leafCommitmentType = [], leafBlockNumber = 7\<rparr>"

lemma sampleLeaf_ok: "leafOk sampleLeaf"
  by code_simp

lemma sample_reach: "memReach (Some (putLeaf sampleLeaf []))"
  by (rule memReach.step [OF memReach.new, where op = "OpUpsert sampleLeaf"])
    (simp add: NewMemoryStore_def MemoryStore_UpsertLeaf_def sampleLeaf_ok)

theorem memory_proof_verifies_witness:
  "\<exists>p. MemoryStore_Proof (HashLeftRight sampleConstants) None (Some (putLeaf sampleLeaf [])) 0 5 = Inr p \<and>
      VerifyProof sampleConstants p = Inr True"
proof -
  have "MemoryStore_GetLeaf None (Some (putLeaf sampleLeaf [])) 0 5 = Inr (Some sampleLeaf)" by code_simp
  from memory_proof_verifies [OF sampleConstants_ok sample_reach this] show ?thesis by auto
qed

text \<open>C2: The sparse computation of \<^verbatim>\<open>Root\<close>, which hashes
  only the parents of stored leaves and drops nodes equal to the zero hash, returns the root of
  the full tree of depth 16 in which every absent leaf is the Merkle zero value.\<close>

theorem memory_root_is_full_tree:
  assumes "constantsOk raw 2" "memReach s"
  shows "\<exists>root. MemoryStore_Root (HashLeftRight raw) None s tree = Inr root \<and>
    fullNode (HashLeftRight raw) (\<lambda>i. case MemoryStore_GetLeaf None s tree i of
        Inr (Some leaf) \<Rightarrow> Some (leafHash leaf) | _ \<Rightarrow> None) 16 0 = Inr root"
proof -
  obtain m where m: "s = Some m" "goodLeaves m" using memReach_good [OF assms(2)] by auto
  have "(\<lambda>i. case MemoryStore_GetLeaf None s tree i of
        Inr (Some leaf) \<Rightarrow> Some (leafHash leaf) | _ \<Rightarrow> None) = hashesOf leafHash m tree"
    using m by (auto simp: MemoryStore_GetLeaf_def hashesOf_def fun_eq_iff split: option.splits)
  then show ?thesis using utxo_tree.root_spec [OF m(2) HashLeftRight_total [OF assms(1)], of tree] m(1)
    by (simp only: MemoryStore_Root_eq)
qed

theorem memory_root_is_full_tree_witness:
  "\<exists>root. MemoryStore_Root (HashLeftRight sampleConstants) None (Some (putLeaf sampleLeaf [])) 0 = Inr root"
  using memory_root_is_full_tree [OF sampleConstants_ok sample_reach] by force

text \<open>Two reachable memory stores with the same lookups list the
  same leaves in the same order, and have the same roots and the same proofs, whatever the
  order in which their maps are walked.\<close>

theorem reads_ignore_map_order:
  assumes "constantsOk raw 2" "memReach s" "memReach s'"
    and "\<And>t i. MemoryStore_GetLeaf None s t i = MemoryStore_GetLeaf None s' t i"
  shows "MemoryStore_ListLeaves None s = MemoryStore_ListLeaves None s' \<and>
    MemoryStore_Root (HashLeftRight raw) None s tree = MemoryStore_Root (HashLeftRight raw) None s' tree \<and>
    MemoryStore_Proof (HashLeftRight raw) None s tree index = MemoryStore_Proof (HashLeftRight raw) None s' tree index"
proof -
  obtain m m' where m: "s = Some m" "goodLeaves m" "s' = Some m'" "goodLeaves m'"
    using memReach_good [OF assms(2)] memReach_good [OF assms(3)] by auto
  have eq: "\<And>t i. get2 m t i = get2 m' t i" using assms(4) m(1,3) by (simp add: MemoryStore_GetLeaf_def)
  show ?thesis
    using Root_cong [OF assms(1) m(2,4) eq] Proof_cong [OF assms(1) m(2,4) eq]
      List_cong [OF m(2,4) eq] m(1,3)
    by (simp add: MemoryStore_ListLeaves_def)
qed

definition sampleLeaf2 :: Leaf where
  "sampleLeaf2 = sampleLeaf\<lparr>leafIndex := 6, leafHash := ''0b''\<rparr>"

lemma sample_reach2:
  "memReach (Some (putLeaf sampleLeaf2 (putLeaf sampleLeaf [])))"
  "memReach (Some (putLeaf sampleLeaf (putLeaf sampleLeaf2 [])))"
proof -
  have ok: "leafOk sampleLeaf2" by code_simp
  have r: "memReach (Some (putLeaf sampleLeaf2 []))"
    by (rule memReach.step [OF memReach.new, where op = "OpUpsert sampleLeaf2"])
      (simp add: NewMemoryStore_def MemoryStore_UpsertLeaf_def ok)
  show "memReach (Some (putLeaf sampleLeaf2 (putLeaf sampleLeaf [])))"
    by (rule memReach.step [OF sample_reach, where op = "OpUpsert sampleLeaf2"])
      (simp add: MemoryStore_UpsertLeaf_def ok)
  show "memReach (Some (putLeaf sampleLeaf (putLeaf sampleLeaf2 [])))"
    by (rule memReach.step [OF r, where op = "OpUpsert sampleLeaf"])
      (simp add: MemoryStore_UpsertLeaf_def sampleLeaf_ok)
qed

theorem reads_ignore_map_order_witness:
  "putLeaf sampleLeaf2 (putLeaf sampleLeaf []) \<noteq> putLeaf sampleLeaf (putLeaf sampleLeaf2 []) \<and>
   MemoryStore_ListLeaves None (Some (putLeaf sampleLeaf2 (putLeaf sampleLeaf []))) =
   MemoryStore_ListLeaves None (Some (putLeaf sampleLeaf (putLeaf sampleLeaf2 [])))"
proof
  show "putLeaf sampleLeaf2 (putLeaf sampleLeaf []) \<noteq> putLeaf sampleLeaf (putLeaf sampleLeaf2 [])" by code_simp
  have "MemoryStore_GetLeaf None (Some (putLeaf sampleLeaf2 (putLeaf sampleLeaf []))) t i =
      MemoryStore_GetLeaf None (Some (putLeaf sampleLeaf (putLeaf sampleLeaf2 []))) t i" for t i
    by (simp add: MemoryStore_GetLeaf_def get2_putLeaf leafKey_def sampleLeaf2_def sampleLeaf_def)
  from reads_ignore_map_order [OF sampleConstants_ok sample_reach2 this]
  show "MemoryStore_ListLeaves None (Some (putLeaf sampleLeaf2 (putLeaf sampleLeaf []))) =
    MemoryStore_ListLeaves None (Some (putLeaf sampleLeaf (putLeaf sampleLeaf2 [])))" by simp
qed

text \<open>C15: A file store started on a missing file and a fresh memory store
  that run the same upserts, bulk upserts and rollbacks, with no fault of the file system, stop
  with the same error or both succeed, and then answer every lookup, listing, root and proof
  alike.\<close>

theorem file_refines_memory:
  assumes "constantsOk raw 2" "path \<noteq> []"
  shows "case foldRes memStep ops NewMemoryStore of
      Inl e \<Rightarrow> foldRes (fileStep noFault) ops (NewFileStore path FileMissing) = Inl e
    | Inr mem \<Rightarrow> (\<exists>fil. foldRes (fileStep noFault) ops (NewFileStore path FileMissing) = Inr fil \<and>
        (\<forall>tree index.
          FileStore_GetLeaf None fil tree index = MemoryStore_GetLeaf None mem tree index \<and>
          FileStore_ListLeaves None fil = MemoryStore_ListLeaves None mem \<and>
          FileStore_Root (HashLeftRight raw) None fil tree = MemoryStore_Root (HashLeftRight raw) None mem tree \<and>
          FileStore_Proof (HashLeftRight raw) None fil tree index = MemoryStore_Proof (HashLeftRight raw) None mem tree index))"
proof -
  have "simStore (NewFileStore path FileMissing) NewMemoryStore"
    using assms(2) by (simp add: simStore_def NewFileStore_def NewMemoryStore_def fileOk_def onDisk_def docOk_def docMap_def)
  from simStore_run [OF this, of ops] show ?thesis
    using simStore_reads [OF _ assms(1)] by (fastforce split: sum.splits)
qed

theorem file_refines_memory_witness:
  "\<exists>fil. foldRes (fileStep noFault) [OpUpsert sampleLeaf, OpRollback 7] (NewFileStore ''leaves.json'' FileMissing) = Inr fil \<and>
     FileStore_ListLeaves None fil = Inr []"
proof -
  have m: "foldRes memStep [OpUpsert sampleLeaf, OpRollback 7] NewMemoryStore = Inr (Some [])" by code_simp
  have l: "MemoryStore_ListLeaves None (Some []) = Inr []" by code_simp
  show ?thesis
    using file_refines_memory [OF sampleConstants_ok, of "''leaves.json''" "[OpUpsert sampleLeaf, OpRollback 7]"] l
    unfolding m by auto
qed

text \<open>C26: Indexing the commitments of events into a memory
  store either reports an error and leaves the store as it was, or stores the leaf of every
  commitment, a later one at the same position replacing an earlier one, keeps every other
  position, and reports the number of commitments.\<close>

theorem index_commitments_all_or_nothing:
  assumes "IndexV2CommitmentEvents ctx (Some memoryIface) s events = (s', n, e)"
  shows "(case e of
      Some err \<Rightarrow> s' = s
    | None \<Rightarrow> n = length (concat (map ceCommitments events)) \<and>
       (\<exists>leaves. list_all2 (\<lambda>c l. LeafFromV2Commitment c = Inr l) (concat (map ceCommitments events)) leaves \<and>
         (\<forall>tree index. MemoryStore_GetLeaf None s' tree index =
            (case find (\<lambda>l. (leafTree l, leafIndex l) = (tree, index)) (rev leaves) of
               Some l \<Rightarrow> Inr (Some l) | None \<Rightarrow> MemoryStore_GetLeaf None s tree index))))"
proof -
  obtain ls eo where c: "collectLeaves ctx LeafFromV2Commitment (concat (map ceCommitments events)) = (ls, eo)" by fastforce
  show ?thesis
  proof (cases eo)
    case (Some err)
    then show ?thesis using assms c by (auto simp: IndexV2CommitmentEvents_def memoryIface_def)
  next
    case None
    then have l: "list_all2 (\<lambda>c l. LeafFromV2Commitment c = Inr l) (concat (map ceCommitments events)) ls"
      using collectLeaves_all c by blast
    have run: "indexLeaves ctx memoryIface s ls = (s', n, e)"
      using assms c None by (simp add: IndexV2CommitmentEvents_def memoryIface_def indexLeaves_def)
    show ?thesis
    proof (cases "MemoryStore_UpsertLeaves ctx s ls")
      case (Inl err)
      then show ?thesis using run by (auto simp: indexLeaves_def memoryIface_def)
    next
      case (Inr x)
      then obtain m where m: "s = Some m" "x = Some (fold putLeaf ls m)"
        by (auto simp: MemoryStore_UpsertLeaves_def res_elims)
      have "s' = x" "n = length ls" "e = None" using run Inr by (auto simp: indexLeaves_def memoryIface_def)
      moreover have "MemoryStore_GetLeaf None x tree index =
            (case find (\<lambda>l. (leafTree l, leafIndex l) = (tree, index)) (rev ls) of
               Some l \<Rightarrow> Inr (Some l) | None \<Rightarrow> MemoryStore_GetLeaf None s tree index)" for tree index
        using get2_fold_putLeaf [of ls m tree index] m by (simp add: MemoryStore_GetLeaf_def split: option.splits)
      ultimately show ?thesis using l list_all2_lengthD [OF l] by auto
    qed
  qed
qed

definition sampleCommitment :: Commitment where
  "sampleCommitment = \<lparr>cmCommitmentType = ''ShieldCommitment'', cmHash = ''0x0a'', cmTxid = ''aa'', cmTimestamp = None,
     cmBlockNumber = 7, cmUTXOTree = 0, cmUTXOIndex = 5, cmPreImage = None, cmEncryptedBundle = [], cmShieldKey = [],
     cmFee = [], cmFrom = [], cmCiphertext = None, cmRailgunTxid = [], cmSenderCiphertext = [],
     cmTransactCommitmentBatchIndex = None\<rparr>"

definition sampleEvent :: CommitmentEvent where
  "sampleEvent = \<lparr>ceTxid = ''aa'', ceTreeNumber = 0, ceStartPosition = 5, ceCommitments = [sampleCommitment], ceBlockNumber = 7\<rparr>"

theorem index_commitments_all_or_nothing_witness:
  "\<exists>s'. IndexV2CommitmentEvents None (Some memoryIface) NewMemoryStore [sampleEvent] = (s', 1, None) \<and>
     (\<exists>leaf. LeafFromV2Commitment sampleCommitment = Inr leaf \<and> MemoryStore_GetLeaf None s' 0 5 = Inr (Some leaf))"
proof -
  obtain s' n e where r: "IndexV2CommitmentEvents None (Some memoryIface) NewMemoryStore [sampleEvent] = (s', n, e)"
    by (cases "IndexV2CommitmentEvents None (Some memoryIface) NewMemoryStore [sampleEvent]") auto
  have e: "snd (snd (IndexV2CommitmentEvents None (Some memoryIface) NewMemoryStore [sampleEvent])) = None" by code_simp
  obtain leaf where leaf: "LeafFromV2Commitment sampleCommitment = Inr leaf" "(leafTree leaf, leafIndex leaf) = (0, 5)"
  proof -
    have "case LeafFromV2Commitment sampleCommitment of Inl _ \<Rightarrow> False | Inr l \<Rightarrow> (leafTree l, leafIndex l) = (0, 5)" by code_simp
    then show thesis using that by (auto split: sum.splits)
  qed
  show ?thesis
    using index_commitments_all_or_nothing [OF r] r e leaf
    by (auto simp: sampleEvent_def list_all2_Cons1 split: option.splits)
qed

end
