(* ===== verification/TxidTree.thy ===== *)
theory TxidTree
  imports LeafMap
begin

text \<open>
  Models \<^verbatim>\<open>pkg/txid\<close>: the Railgun transaction id and its leaf hash
  (\<^verbatim>\<open>txid.go\<close>), the TXID Merkle leaf stores and the append of a transaction
  (\<^verbatim>\<open>merkletree.go\<close>), and the transaction stores (\<^verbatim>\<open>store.go\<close>). The
  conventions are those of \<open>UtxoTree\<close>; a \<^verbatim>\<open>*big.Int\<close> is an \<open>int option\<close> where
  the code tests for nil.
\<close>

section \<open>txid.go\<close>

definition txidTreeMaxItems :: int where
  "txidTreeMaxItems = 65536"

definition GetGlobalTreePosition :: "uint64 \<Rightarrow> uint64 \<Rightarrow> int" where
  "GetGlobalTreePosition tree index = uint tree * txidTreeMaxItems + uint index"

definition parseHexList :: "string list \<Rightarrow> int list res" where
  "parseHexList values = mapRes HexToBigInt values"

definition padTo13 :: "int list \<Rightarrow> int list" where
  "padTo13 values = values @ replicate (13 - length values) MerkleZeroValue"

definition validateBigIntList :: "string \<Rightarrow> int option list \<Rightarrow> unit res" where
  "validateBigIntList name values =
     foldResI 0 (\<lambda>i value _. if value = None then Inl (Errorf ''%s[%d] is required'' [AStr name, ANat i]) else Inr ()) values ()"

definition RailgunTransactionIDFromBigInts ::
  "poseidonConstantsRaw \<Rightarrow> int option list \<Rightarrow> int option list \<Rightarrow> int option \<Rightarrow> int res" where
  "RailgunTransactionIDFromBigInts raw nullifiers commitments boundParamsHash =
     andThen (validateBigIntList ''nullifiers'' nullifiers) (\<lambda>_.
     andThen (validateBigIntList ''commitments'' commitments) (\<lambda>_.
     notNil ''bound params hash is required'' boundParamsHash (\<lambda>boundParamsHash.
     andThen (Poseidon raw (padTo13 (map the nullifiers))) (\<lambda>nullifiersHash.
     andThen (Poseidon raw (padTo13 (map the commitments))) (\<lambda>commitmentsHash.
     Poseidon raw [nullifiersHash, commitmentsHash, boundParamsHash])))))"

definition RailgunTransactionID ::
  "poseidonConstantsRaw \<Rightarrow> string list \<Rightarrow> string list \<Rightarrow> string \<Rightarrow> int res" where
  "RailgunTransactionID raw nullifiers commitments boundParamsHash =
     andThen (parseHexList nullifiers) (\<lambda>ns.
     andThen (parseHexList commitments) (\<lambda>cs.
     andThen (HexToBigInt boundParamsHash) (\<lambda>boundParams.
     RailgunTransactionIDFromBigInts raw (map Some ns) (map Some cs) (Some boundParams))))"

definition RailgunTransactionIDHex ::
  "poseidonConstantsRaw \<Rightarrow> string list \<Rightarrow> string list \<Rightarrow> string \<Rightarrow> string res" where
  "RailgunTransactionIDHex raw nullifiers commitments boundParamsHash =
     andThen (RailgunTransactionID raw nullifiers commitments boundParamsHash) (\<lambda>id.
     BigIntToHex (Some id) 32 False)"

definition RailgunTxidLeafHash ::
  "poseidonConstantsRaw \<Rightarrow> int option \<Rightarrow> uint64 \<Rightarrow> int option \<Rightarrow> string res" where
  "RailgunTxidLeafHash raw railgunTxid utxoTreeIn globalTreePosition =
     notNil ''railgun txid is required'' railgunTxid (\<lambda>txid.
     notNil ''global tree position is required'' globalTreePosition (\<lambda>pos.
     andThen (Poseidon raw [txid, uint utxoTreeIn, pos]) (\<lambda>hash. BigIntToHex (Some hash) 32 False)))"

definition CalculateVerificationHash ::
  "(byte list \<Rightarrow> byte list) \<Rightarrow> string \<Rightarrow> string \<Rightarrow> string res" where
  "CalculateVerificationHash keccak previousVerificationHash firstNullifier =
     andThen (HexToBytes previousVerificationHash) (\<lambda>previous.
     andThen (HexToBytes firstNullifier) (\<lambda>nullifier.
     Inr (''0x'' @ Keccak256HexBytes keccak (previous @ nullifier))))"

section \<open>store.go: transactions\<close>

record UnshieldData =
  usTokenData :: TokenData
  usToAddress :: string
  usValue :: string
  usFee :: string

record Transaction =
  txVersion :: string
  txRailgunTxid :: string
  txTxid :: string
  txBlockNumber :: uint64
  txCommitments :: "string list"
  txNullifiers :: "string list"
  txBoundParamsHash :: string
  txUnshield :: "UnshieldData option"
  txUTXOTreeIn :: int
  txUTXOTreeOut :: int
  txUTXOBatchStartPositionOut :: int
  txVerificationHash :: string

text \<open>The deep copy: a value of its own with the same fields.\<close>

definition cloneTransaction :: "Transaction \<Rightarrow> Transaction" where
  "cloneTransaction transaction =
     transaction\<lparr>txCommitments := [] @ txCommitments transaction,
       txNullifiers := [] @ txNullifiers transaction,
       txUnshield := map_option (\<lambda>unshield. unshield) (txUnshield transaction)\<rparr>"

definition transactionLess :: "Transaction \<Rightarrow> Transaction \<Rightarrow> bool" where
  "transactionLess a b \<longleftrightarrow>
     (if txBlockNumber a \<noteq> txBlockNumber b then txBlockNumber a < txBlockNumber b
      else if txTxid a \<noteq> txTxid b then txTxid a < txTxid b
      else txRailgunTxid a < txRailgunTxid b)"

definition sortedTransactions :: "(string, Transaction) gomap \<Rightarrow> Transaction list" where
  "sortedTransactions transactions = sortBy transactionLess (map (cloneTransaction \<circ> snd) transactions)"

type_synonym MemoryTransactionStore = "(string, Transaction) gomap option"

abbreviation txStoreRequired :: string where
  "txStoreRequired \<equiv> ''transaction store is required''"

definition NewMemoryTransactionStore :: MemoryTransactionStore where
  "NewMemoryTransactionStore = Some []"

definition MemoryTransactionStore_UpsertTransaction ::
  "ctx \<Rightarrow> MemoryTransactionStore \<Rightarrow> Transaction \<Rightarrow> MemoryTransactionStore res" where
  "MemoryTransactionStore_UpsertTransaction ctx store transaction =
     withCtx ctx (notNil txStoreRequired store (\<lambda>transactions.
     if txRailgunTxid transaction = [] then Err ''railgun txid is required''
     else Inr (Some (gput (txRailgunTxid transaction) (cloneTransaction transaction) transactions))))"

definition MemoryTransactionStore_GetByRailgunTxid ::
  "ctx \<Rightarrow> MemoryTransactionStore \<Rightarrow> string \<Rightarrow> Transaction option res" where
  "MemoryTransactionStore_GetByRailgunTxid ctx store railgunTxid =
     withCtx ctx (notNil txStoreRequired store (\<lambda>transactions.
     Inr (map_option cloneTransaction (gget transactions railgunTxid))))"

definition MemoryTransactionStore_ListTransactions :: "ctx \<Rightarrow> MemoryTransactionStore \<Rightarrow> Transaction list res" where
  "MemoryTransactionStore_ListTransactions ctx store =
     withCtx ctx (notNil txStoreRequired store (\<lambda>transactions. Inr (sortedTransactions transactions)))"

definition rollbackTransactions :: "uint64 \<Rightarrow> (string, Transaction) gomap \<Rightarrow> (string, Transaction) gomap" where
  "rollbackTransactions fromBlock = gkeep (\<lambda>transaction. \<not> txBlockNumber transaction \<ge> fromBlock)"

definition MemoryTransactionStore_RollbackToBlock ::
  "ctx \<Rightarrow> MemoryTransactionStore \<Rightarrow> uint64 \<Rightarrow> MemoryTransactionStore res" where
  "MemoryTransactionStore_RollbackToBlock ctx store fromBlock =
     withCtx ctx (notNil txStoreRequired store (\<lambda>transactions. Inr (Some (rollbackTransactions fromBlock transactions))))"

text \<open>The document of the file is the list \<^verbatim>\<open>transactionFileState.Transactions\<close>.\<close>

type_synonym FileTransactionStore = "Transaction list fileStore option"

definition FileTransactionStore_loadLocked :: "Transaction list fileStore \<Rightarrow> (string, Transaction) gomap res" where
  "FileTransactionStore_loadLocked store =
     (if Path store = [] then Err ''transaction store file path is required''
      else readFile (fsFile store) [] (\<lambda>state.
        foldResI 0 (\<lambda>i transaction transactions.
          if txRailgunTxid transaction = []
          then Inl (Errorf ''transactions[%d]: railgun txid is required'' [ANat i])
          else Inr (gput (txRailgunTxid transaction) (cloneTransaction transaction) transactions)) state []))"

definition FileTransactionStore_saveLocked ::
  "saveEnv \<Rightarrow> Transaction list fileStore \<Rightarrow> (string, Transaction) gomap \<Rightarrow> Transaction list fileStore res" where
  "FileTransactionStore_saveLocked env store transactions =
     (if Path store = [] then Err ''transaction store file path is required''
      else andThen (writeFile env (sortedTransactions transactions)) (\<lambda>f. Inr (store\<lparr>fsFile := f\<rparr>)))"

definition FileTransactionStore_load :: "FileTransactionStore \<Rightarrow> (string, Transaction) gomap res" where
  "FileTransactionStore_load store = notNil txStoreRequired store FileTransactionStore_loadLocked"

definition FileTransactionStore_update ::
  "saveEnv \<Rightarrow> FileTransactionStore \<Rightarrow> ((string, Transaction) gomap \<Rightarrow> (string, Transaction) gomap res)
   \<Rightarrow> FileTransactionStore res" where
  "FileTransactionStore_update env store update =
     notNil txStoreRequired store (\<lambda>s.
     andThen (FileTransactionStore_loadLocked s) (\<lambda>transactions.
     andThen (update transactions) (\<lambda>transactions.
     andThen (FileTransactionStore_saveLocked env s transactions) (\<lambda>s'. Inr (Some s')))))"

definition FileTransactionStore_UpsertTransaction ::
  "saveEnv \<Rightarrow> ctx \<Rightarrow> FileTransactionStore \<Rightarrow> Transaction \<Rightarrow> FileTransactionStore res" where
  "FileTransactionStore_UpsertTransaction env ctx store transaction =
     withCtx ctx (if txRailgunTxid transaction = [] then Err ''railgun txid is required''
     else FileTransactionStore_update env store (\<lambda>transactions.
       Inr (gput (txRailgunTxid transaction) (cloneTransaction transaction) transactions)))"

definition FileTransactionStore_GetByRailgunTxid ::
  "ctx \<Rightarrow> FileTransactionStore \<Rightarrow> string \<Rightarrow> Transaction option res" where
  "FileTransactionStore_GetByRailgunTxid ctx store railgunTxid =
     withCtx ctx (andThen (FileTransactionStore_load store) (\<lambda>transactions.
     Inr (map_option cloneTransaction (gget transactions railgunTxid))))"

definition FileTransactionStore_ListTransactions :: "ctx \<Rightarrow> FileTransactionStore \<Rightarrow> Transaction list res" where
  "FileTransactionStore_ListTransactions ctx store =
     withCtx ctx (andThen (FileTransactionStore_load store) (\<lambda>transactions. Inr (sortedTransactions transactions)))"

definition FileTransactionStore_RollbackToBlock ::
  "saveEnv \<Rightarrow> ctx \<Rightarrow> FileTransactionStore \<Rightarrow> uint64 \<Rightarrow> FileTransactionStore res" where
  "FileTransactionStore_RollbackToBlock env ctx store fromBlock =
     withCtx ctx (FileTransactionStore_update env store (\<lambda>transactions. Inr (rollbackTransactions fromBlock transactions)))"

section \<open>merkletree.go: leaves\<close>

record MerkleLeaf =
  mlTree :: uint64
  mlIndex :: uint64
  mlHash :: string
  mlRailgunTxid :: string
  mlBlockNumber :: uint64

definition merkleKey :: "MerkleLeaf \<Rightarrow> uint64 \<times> uint64" where
  "merkleKey l = (mlTree l, mlIndex l)"

definition TransactionLeafHash :: "poseidonConstantsRaw \<Rightarrow> Transaction \<Rightarrow> string res" where
  "TransactionLeafHash raw transaction =
     (if txRailgunTxid transaction = [] then Err ''railgun txid is required''
      else if txUTXOTreeIn transaction < 0 \<or> txUTXOTreeOut transaction < 0 \<or> txUTXOBatchStartPositionOut transaction < 0
      then Err ''transaction tree fields must be non-negative''
      else andThen (HexToBigInt (txRailgunTxid transaction)) (\<lambda>railgunTxid.
        let globalTreePosition = GetGlobalTreePosition (word_of_int (txUTXOTreeOut transaction))
              (word_of_int (txUTXOBatchStartPositionOut transaction))
        in RailgunTxidLeafHash raw (Some railgunTxid) (word_of_int (txUTXOTreeIn transaction)) (Some globalTreePosition)))"

definition MerkleLeafFromTransaction ::
  "poseidonConstantsRaw \<Rightarrow> Transaction \<Rightarrow> uint64 \<Rightarrow> uint64 \<Rightarrow> MerkleLeaf res" where
  "MerkleLeafFromTransaction raw transaction tree index =
     andThen (TransactionLeafHash raw transaction) (\<lambda>hash.
     Inr \<lparr>mlTree = tree, mlIndex = index, mlHash = hash, mlRailgunTxid = txRailgunTxid transaction,
          mlBlockNumber = txBlockNumber transaction\<rparr>)"

definition validateMerkleLeaf :: "MerkleLeaf \<Rightarrow> unit res" where
  "validateMerkleLeaf leaf =
     (if mlIndex leaf \<ge> word_of_int txidTreeMaxItems then Err ''txid merkle tree index exceeds tree size''
      else if mlHash leaf = [] then Err ''txid merkle leaf hash is required''
      else wrapErr ''txid merkle leaf hash: %w'' [] (andThen (HexToBigInt (mlHash leaf)) (\<lambda>_. Inr ())))"

definition merkleLess :: "MerkleLeaf \<Rightarrow> MerkleLeaf \<Rightarrow> bool" where
  "merkleLess a b \<longleftrightarrow> (if mlTree a \<noteq> mlTree b then mlTree a < mlTree b else mlIndex a < mlIndex b)"

definition sortedMerkleLeaves :: "MerkleLeaf leafmap \<Rightarrow> MerkleLeaf list" where
  "sortedMerkleLeaves leaves = sortBy merkleLess (vals2 leaves)"

definition txidBuildTreeLevels ::
  "(int \<Rightarrow> int \<Rightarrow> int res) \<Rightarrow> (uint64, MerkleLeaf) gomap \<Rightarrow> levels res" where
  "txidBuildTreeLevels H leaves =
     andThen (foldRes (\<lambda>(index, leaf) level0. andThen (validateMerkleLeaf leaf) (\<lambda>_. Inr (gput index (mlHash leaf) level0)))
        leaves []) (\<lambda>level0. raiseLevels H level0)"

definition txidProofFromLeaves ::
  "(int \<Rightarrow> int \<Rightarrow> int res) \<Rightarrow> (uint64, MerkleLeaf) gomap \<Rightarrow> uint64 \<Rightarrow> MerkleProof res" where
  "txidProofFromLeaves H leaves index =
     (if index \<ge> word_of_int txidTreeMaxItems then Err ''txid merkle tree index exceeds tree size''
      else case gget leaves index of
        None \<Rightarrow> Inl (Errorf ''missing txid merkle leaf at index %d'' [ANat (unat index)])
      | Some leaf \<Rightarrow>
        andThen (txidBuildTreeLevels H leaves) (\<lambda>levels.
        andThen (proofElements H levels index) (\<lambda>elements.
        andThen (BigIntToHex (Some (uint (mlIndex leaf))) 32 False) (\<lambda>indices.
        andThen (nodeAtLevel H levels TreeDepth 0) (\<lambda>root.
        Inr \<lparr>prfLeaf = mlHash leaf, prfIndices = indices, prfElements = elements, prfRoot = root\<rparr>)))))"

section \<open>merkletree.go: the memory store\<close>

type_synonym MemoryMerkleTreeStore = "MerkleLeaf leafmap option"

abbreviation merkleStoreRequired :: string where
  "merkleStoreRequired \<equiv> ''txid merkle tree store is required''"

definition putMerkleLeaf :: "MerkleLeaf \<Rightarrow> MerkleLeaf leafmap \<Rightarrow> MerkleLeaf leafmap" where
  "putMerkleLeaf leaf leaves = put2 (mlTree leaf) (mlIndex leaf) leaf leaves"

definition NewMemoryMerkleTreeStore :: MemoryMerkleTreeStore where
  "NewMemoryMerkleTreeStore = Some []"

definition MemoryMerkleTreeStore_UpsertLeaf ::
  "ctx \<Rightarrow> MemoryMerkleTreeStore \<Rightarrow> MerkleLeaf \<Rightarrow> MemoryMerkleTreeStore res" where
  "MemoryMerkleTreeStore_UpsertLeaf ctx store leaf =
     withCtx ctx (notNil merkleStoreRequired store (\<lambda>leaves.
     andThen (validateMerkleLeaf leaf) (\<lambda>_. Inr (Some (putMerkleLeaf leaf leaves)))))"

definition MemoryMerkleTreeStore_GetLeaf ::
  "ctx \<Rightarrow> MemoryMerkleTreeStore \<Rightarrow> uint64 \<Rightarrow> uint64 \<Rightarrow> MerkleLeaf option res" where
  "MemoryMerkleTreeStore_GetLeaf ctx store tree index =
     withCtx ctx (notNil merkleStoreRequired store (\<lambda>leaves. Inr (get2 leaves tree index)))"

definition MemoryMerkleTreeStore_ListLeaves :: "ctx \<Rightarrow> MemoryMerkleTreeStore \<Rightarrow> MerkleLeaf list res" where
  "MemoryMerkleTreeStore_ListLeaves ctx store =
     withCtx ctx (notNil merkleStoreRequired store (\<lambda>leaves. Inr (sortedMerkleLeaves leaves)))"

definition MemoryMerkleTreeStore_Root ::
  "(int \<Rightarrow> int \<Rightarrow> int res) \<Rightarrow> ctx \<Rightarrow> MemoryMerkleTreeStore \<Rightarrow> uint64 \<Rightarrow> string res" where
  "MemoryMerkleTreeStore_Root H ctx store tree =
     withCtx ctx (notNil merkleStoreRequired store (\<lambda>leaves.
     andThen (txidBuildTreeLevels H (inner leaves tree)) (\<lambda>levels. nodeAtLevel H levels TreeDepth 0)))"

definition MemoryMerkleTreeStore_Proof ::
  "(int \<Rightarrow> int \<Rightarrow> int res) \<Rightarrow> ctx \<Rightarrow> MemoryMerkleTreeStore \<Rightarrow> uint64 \<Rightarrow> uint64 \<Rightarrow> MerkleProof res" where
  "MemoryMerkleTreeStore_Proof H ctx store tree index =
     withCtx ctx (notNil merkleStoreRequired store (\<lambda>leaves. txidProofFromLeaves H (inner leaves tree) index))"

definition rollbackMerkleLeaves :: "uint64 \<Rightarrow> MerkleLeaf leafmap \<Rightarrow> MerkleLeaf leafmap" where
  "rollbackMerkleLeaves fromBlock leaves = keep2 (\<lambda>leaf. \<not> mlBlockNumber leaf \<ge> fromBlock) leaves"

definition MemoryMerkleTreeStore_RollbackToBlock ::
  "ctx \<Rightarrow> MemoryMerkleTreeStore \<Rightarrow> uint64 \<Rightarrow> MemoryMerkleTreeStore res" where
  "MemoryMerkleTreeStore_RollbackToBlock ctx store fromBlock =
     withCtx ctx (notNil merkleStoreRequired store (\<lambda>leaves. Inr (Some (rollbackMerkleLeaves fromBlock leaves))))"

section \<open>merkletree.go: the file store\<close>

type_synonym FileMerkleTreeStore = "MerkleLeaf list fileStore option"

definition FileMerkleTreeStore_loadLocked :: "MerkleLeaf list fileStore \<Rightarrow> MerkleLeaf leafmap res" where
  "FileMerkleTreeStore_loadLocked store =
     (if Path store = [] then Err ''txid merkle tree store file path is required''
      else readFile (fsFile store) [] (\<lambda>state.
        foldResI 0 (\<lambda>i leaf leaves. andThen (wrapErr ''leaves[%d]: %w'' [ANat i] (validateMerkleLeaf leaf))
          (\<lambda>_. Inr (putMerkleLeaf leaf leaves))) state []))"

definition FileMerkleTreeStore_saveLocked ::
  "saveEnv \<Rightarrow> MerkleLeaf list fileStore \<Rightarrow> MerkleLeaf leafmap \<Rightarrow> MerkleLeaf list fileStore res" where
  "FileMerkleTreeStore_saveLocked env store leaves =
     (if Path store = [] then Err ''txid merkle tree store file path is required''
      else andThen (writeFile env (sortedMerkleLeaves leaves)) (\<lambda>f. Inr (store\<lparr>fsFile := f\<rparr>)))"

definition FileMerkleTreeStore_load :: "FileMerkleTreeStore \<Rightarrow> MerkleLeaf leafmap res" where
  "FileMerkleTreeStore_load store = notNil merkleStoreRequired store FileMerkleTreeStore_loadLocked"

definition FileMerkleTreeStore_update ::
  "saveEnv \<Rightarrow> FileMerkleTreeStore \<Rightarrow> (MerkleLeaf leafmap \<Rightarrow> MerkleLeaf leafmap res) \<Rightarrow> FileMerkleTreeStore res" where
  "FileMerkleTreeStore_update env store update =
     notNil merkleStoreRequired store (\<lambda>s.
     andThen (FileMerkleTreeStore_loadLocked s) (\<lambda>leaves.
     andThen (update leaves) (\<lambda>leaves.
     andThen (FileMerkleTreeStore_saveLocked env s leaves) (\<lambda>s'. Inr (Some s')))))"

definition FileMerkleTreeStore_UpsertLeaf ::
  "saveEnv \<Rightarrow> ctx \<Rightarrow> FileMerkleTreeStore \<Rightarrow> MerkleLeaf \<Rightarrow> FileMerkleTreeStore res" where
  "FileMerkleTreeStore_UpsertLeaf env ctx store leaf =
     withCtx ctx (andThen (validateMerkleLeaf leaf) (\<lambda>_.
     FileMerkleTreeStore_update env store (\<lambda>leaves. Inr (putMerkleLeaf leaf leaves))))"

definition FileMerkleTreeStore_GetLeaf ::
  "ctx \<Rightarrow> FileMerkleTreeStore \<Rightarrow> uint64 \<Rightarrow> uint64 \<Rightarrow> MerkleLeaf option res" where
  "FileMerkleTreeStore_GetLeaf ctx store tree index =
     withCtx ctx (andThen (FileMerkleTreeStore_load store) (\<lambda>leaves. Inr (get2 leaves tree index)))"

definition FileMerkleTreeStore_ListLeaves :: "ctx \<Rightarrow> FileMerkleTreeStore \<Rightarrow> MerkleLeaf list res" where
  "FileMerkleTreeStore_ListLeaves ctx store =
     withCtx ctx (andThen (FileMerkleTreeStore_load store) (\<lambda>leaves. Inr (sortedMerkleLeaves leaves)))"

definition FileMerkleTreeStore_Root ::
  "(int \<Rightarrow> int \<Rightarrow> int res) \<Rightarrow> ctx \<Rightarrow> FileMerkleTreeStore \<Rightarrow> uint64 \<Rightarrow> string res" where
  "FileMerkleTreeStore_Root H ctx store tree =
     withCtx ctx (andThen (FileMerkleTreeStore_load store) (\<lambda>leaves.
     andThen (txidBuildTreeLevels H (inner leaves tree)) (\<lambda>levels. nodeAtLevel H levels TreeDepth 0)))"

definition FileMerkleTreeStore_Proof ::
  "(int \<Rightarrow> int \<Rightarrow> int res) \<Rightarrow> ctx \<Rightarrow> FileMerkleTreeStore \<Rightarrow> uint64 \<Rightarrow> uint64 \<Rightarrow> MerkleProof res" where
  "FileMerkleTreeStore_Proof H ctx store tree index =
     withCtx ctx (andThen (FileMerkleTreeStore_load store) (\<lambda>leaves. txidProofFromLeaves H (inner leaves tree) index))"

definition FileMerkleTreeStore_RollbackToBlock ::
  "saveEnv \<Rightarrow> ctx \<Rightarrow> FileMerkleTreeStore \<Rightarrow> uint64 \<Rightarrow> FileMerkleTreeStore res" where
  "FileMerkleTreeStore_RollbackToBlock env ctx store fromBlock =
     withCtx ctx (FileMerkleTreeStore_update env store (\<lambda>leaves. Inr (rollbackMerkleLeaves fromBlock leaves)))"

section \<open>merkletree.go: appending a transaction\<close>

text \<open>The two operations that the append calls on the store interface.\<close>

record 's merkleIface =
  ListLeaves :: "ctx \<Rightarrow> 's \<Rightarrow> MerkleLeaf list res"
  UpsertLeaf :: "ctx \<Rightarrow> 's \<Rightarrow> MerkleLeaf \<Rightarrow> 's res"

definition maxPosition :: "MerkleLeaf list \<Rightarrow> int option" where
  "maxPosition leaves = fold (\<lambda>leaf best.
     let position = GetGlobalTreePosition (mlTree leaf) (mlIndex leaf)
     in (case best of None \<Rightarrow> Some position | Some b \<Rightarrow> if position > b then Some position else Some b)) leaves None"

definition isUint64 :: "int \<Rightarrow> bool" where
  "isUint64 n \<longleftrightarrow> 0 \<le> n \<and> n < 2 ^ 64"

definition NextMerkleTreePosition :: "ctx \<Rightarrow> 's merkleIface option \<Rightarrow> 's \<Rightarrow> (uint64 \<times> uint64) res" where
  "NextMerkleTreePosition ctx store s =
     notNil merkleStoreRequired store (\<lambda>iface.
     andThen (ListLeaves iface ctx s) (\<lambda>leaves.
     case maxPosition leaves of
       None \<Rightarrow> Inr (0, 0)
     | Some m \<Rightarrow>
         let nxt = m + 1; tree = nxt div txidTreeMaxItems; index = nxt mod txidTreeMaxItems
         in if \<not> isUint64 tree \<or> \<not> isUint64 index then Err ''txid merkle tree position exceeds uint64''
            else Inr (word_of_int tree, word_of_int index)))"

definition AppendTransactionLeaf ::
  "poseidonConstantsRaw \<Rightarrow> ctx \<Rightarrow> 's merkleIface option \<Rightarrow> 's \<Rightarrow> Transaction \<Rightarrow> ('s \<times> MerkleLeaf) res" where
  "AppendTransactionLeaf raw ctx store s transaction =
     notNil merkleStoreRequired store (\<lambda>iface.
     andThen (NextMerkleTreePosition ctx store s) (\<lambda>(tree, index).
     andThen (MerkleLeafFromTransaction raw transaction tree index) (\<lambda>leaf.
     andThen (UpsertLeaf iface ctx s leaf) (\<lambda>s'. Inr (s', leaf)))))"

definition memoryMerkleIface :: "MemoryMerkleTreeStore merkleIface" where
  "memoryMerkleIface = \<lparr>ListLeaves = MemoryMerkleTreeStore_ListLeaves, UpsertLeaf = MemoryMerkleTreeStore_UpsertLeaf\<rparr>"

definition fileMerkleIface :: "saveEnv \<Rightarrow> FileMerkleTreeStore merkleIface" where
  "fileMerkleIface env = \<lparr>ListLeaves = FileMerkleTreeStore_ListLeaves, UpsertLeaf = FileMerkleTreeStore_UpsertLeaf env\<rparr>"

section \<open>Valid leaves\<close>

abbreviation merkleOk :: "MerkleLeaf \<Rightarrow> bool" where
  "merkleOk l \<equiv> validateMerkleLeaf l = Inr ()"

abbreviation goodMerkle :: "MerkleLeaf leafmap \<Rightarrow> bool" where
  "goodMerkle \<equiv> goodMap merkleKey merkleOk"

lemma merkleKey_simps [simp]: "fst (merkleKey l) = mlTree l" "snd (merkleKey l) = mlIndex l"
  by (simp_all add: merkleKey_def)

lemma merkleOk_iff: "merkleOk l \<longleftrightarrow> mlIndex l < 65536 \<and> mlHash l \<noteq> [] \<and> parses (mlHash l)"
  by (auto simp: validateMerkleLeaf_def txidTreeMaxItems_def res_elims not_le)

lemma merkleLess_key: "merkleLess = keyLess merkleKey"
  by (simp add: fun_eq_iff merkleLess_def keyLess_def)

lemma putMerkleLeaf_key: "putMerkleLeaf l = put2 (fst (merkleKey l)) (snd (merkleKey l)) l"
  by (simp add: putMerkleLeaf_def fun_eq_iff)

lemma get2_putMerkleLeaf: "get2 (putMerkleLeaf l m) t i = (if (t, i) = merkleKey l then Some l else get2 m t i)"
  by (simp add: putMerkleLeaf_def merkleKey_def gomap_simps)

lemma goodMerkle_put: "goodMerkle m \<Longrightarrow> merkleOk l \<Longrightarrow> goodMerkle (putMerkleLeaf l m)"
  by (simp add: putMerkleLeaf_key goodMap_put2 del: merkleKey_simps)

lemma goodMerkle_rollback: "goodMerkle m \<Longrightarrow> goodMerkle (rollbackMerkleLeaves b m)"
  by (simp add: rollbackMerkleLeaves_def goodMap_keep2)

lemma get2_rollbackMerkle:
  "goodMerkle m \<Longrightarrow> get2 (rollbackMerkleLeaves b m) t i =
     (case get2 m t i of None \<Rightarrow> None | Some l \<Rightarrow> if mlBlockNumber l < b then Some l else None)"
  by (simp add: rollbackMerkleLeaves_def goodMap_def gomap_simps not_le)

lemma get2_merkle_valid: "goodMerkle m \<Longrightarrow> get2 m t i = Some l \<Longrightarrow> merkleKey l = (t, i) \<and> merkleOk l"
  by (auto simp: goodMap_def keyed2_def all2_def)

interpretation txid_tree: leaf_tree "HashLeftRight raw" merkleKey mlHash validateMerkleLeaf for raw
  by unfold_locales (auto simp: merkleOk_iff)

section \<open>Appending to a store\<close>

lemma position_inj:
  assumes "GetGlobalTreePosition t i = GetGlobalTreePosition t' i'" "uint i < 65536" "uint i' < 65536"
  shows "t = t' \<and> i = i'"
proof -
  have dm: "(a * 65536 + b) div 65536 = a" "(a * 65536 + b) mod 65536 = b" if "0 \<le> b" "b < 65536" for a b :: int
    using that by simp_all
  have eq: "uint t * 65536 + uint i = uint t' * 65536 + uint i'"
    using assms(1) by (simp add: GetGlobalTreePosition_def txidTreeMaxItems_def)
  have "uint t = uint t'" using dm(1) [of "uint i" "uint t"] dm(1) [of "uint i'" "uint t'"] assms(2,3) eq by simp
  moreover have "uint i = uint i'" using dm(2) [of "uint i" "uint t"] dm(2) [of "uint i'" "uint t'"] assms(2,3) eq by simp
  ultimately show ?thesis by (simp add: word_uint_eq_iff)
qed

lemma position_of_div_mod:
  assumes "isUint64 (n div 65536)" "isUint64 (n mod 65536)"
  shows "GetGlobalTreePosition (word_of_int (n div 65536)) (word_of_int (n mod 65536)) = n"
    "uint (word_of_int (n mod 65536) :: uint64) < 65536"
proof -
  have "uint (word_of_int (n div 65536) :: uint64) = n div 65536" "uint (word_of_int (n mod 65536) :: uint64) = n mod 65536"
    using assms by (simp_all add: isUint64_def uint_word_of_int_eq take_bit_int_eq_self)
  then show "GetGlobalTreePosition (word_of_int (n div 65536)) (word_of_int (n mod 65536)) = n"
    "uint (word_of_int (n mod 65536) :: uint64) < 65536"
    by (simp_all add: GetGlobalTreePosition_def txidTreeMaxItems_def)
qed

abbreviation leafPos :: "MerkleLeaf \<Rightarrow> int" where
  "leafPos l \<equiv> GetGlobalTreePosition (mlTree l) (mlIndex l)"

lemma maxPosition_aux:
  "fold (\<lambda>leaf best. let position = leafPos leaf
     in (case best of None \<Rightarrow> Some position | Some b \<Rightarrow> if position > b then Some position else Some b)) ls (Some m)
   = Some (Max (insert m (leafPos ` set ls)))"
proof (induction ls arbitrary: m)
  case (Cons l ls)
  have "Max (insert (max m (leafPos l)) (leafPos ` set ls)) = Max (insert m (leafPos ` set (l # ls)))"
    by (cases "ls = []") (simp_all add: max.assoc)
  then show ?case using Cons [of "max m (leafPos l)"] by (auto simp: max_def Let_def)
qed simp

lemma maxPosition_Max: "maxPosition ls = (if ls = [] then None else Some (Max (leafPos ` set ls)))"
  using maxPosition_aux by (cases ls) (simp_all add: maxPosition_def Let_def)

text \<open>A store, seen through the interface that the append uses.\<close>

locale merkle_client =
  leaf_store valid merkleKey mlBlockNumber "UpsertLeaf iface None" get "ListLeaves iface None" rollback
  for valid :: "'s \<Rightarrow> bool" and iface :: "'s merkleIface" and get rollback +
  assumes index_bound: "valid s \<Longrightarrow> get s t i = Inr (Some l) \<Longrightarrow> uint i < 65536"
begin

lemma next_position:
  assumes "valid s" "NextMerkleTreePosition None (Some iface) s = Inr (t, i)"
  shows "uint i < 65536" "get s t i = Inr None"
    "get s t' i' = Inr (Some l) \<Longrightarrow> GetGlobalTreePosition t' i' < GetGlobalTreePosition t i"
    "GetGlobalTreePosition t i = 0 \<or> (\<exists>t' i' l. get s t' i' = Inr (Some l) \<and> GetGlobalTreePosition t i = GetGlobalTreePosition t' i' + 1)"
proof -
  obtain ls where ls: "ListLeaves iface None s = Inr ls" using list_total assms(1) by blast
  have mem: "l \<in> set ls \<longleftrightarrow> get s (mlTree l) (mlIndex l) = Inr (Some l)" for l
    using list_get [OF assms(1) ls] by simp
  have "uint i < 65536 \<and> (\<forall>l \<in> set ls. leafPos l < GetGlobalTreePosition t i) \<and>
      (GetGlobalTreePosition t i = 0 \<or> (\<exists>l \<in> set ls. GetGlobalTreePosition t i = leafPos l + 1))"
  proof (cases "ls = []")
    case True
    then have "t = 0" "i = 0" using assms(2) ls by (auto simp: NextMerkleTreePosition_def maxPosition_Max)
    then show ?thesis using True by (simp add: GetGlobalTreePosition_def)
  next
    case False
    define n where "n = Max (leafPos ` set ls) + 1"
    have ti: "isUint64 (n div 65536)" "isUint64 (n mod 65536)" "t = word_of_int (n div 65536)" "i = word_of_int (n mod 65536)"
      using assms(2) ls False
      by (auto simp: NextMerkleTreePosition_def maxPosition_Max n_def txidTreeMaxItems_def Let_def split: if_splits)
    have "leafPos l < n" if "l \<in> set ls" for l using that by (simp add: n_def zle_add1_eq_le)
    moreover have "Max (leafPos ` set ls) \<in> leafPos ` set ls" using False by (intro Max_in) auto
    then have "\<exists>l \<in> set ls. n = leafPos l + 1" by (auto simp: n_def)
    ultimately show ?thesis using position_of_div_mod [OF ti(1,2)] ti(3,4) by simp
  qed
  note a = this
  show "uint i < 65536" using a by simp
  show less_pos: "GetGlobalTreePosition t' i' < GetGlobalTreePosition t i" if "get s t' i' = Inr (Some l)" for t' i' l
  proof -
    have "merkleKey l = (t', i')" by (rule get_key [OF assms(1) that])
    then have "mlTree l = t'" "mlIndex l = i'" by (simp_all add: merkleKey_def)
    then show ?thesis using a mem [of l] that by auto
  qed
  show "get s t i = Inr None"
  proof -
    obtain r where "get s t i = Inr r" using get_total assms(1) by blast
    then show ?thesis using less_pos [of t i] by (cases r) auto
  qed
  show "GetGlobalTreePosition t i = 0 \<or> (\<exists>t' i' l. get s t' i' = Inr (Some l) \<and> GetGlobalTreePosition t i = GetGlobalTreePosition t' i' + 1)"
    using a mem by blast
qed

text \<open>The stored positions are exactly the first \<open>n\<close> ones.\<close>

definition dense :: "'s \<Rightarrow> int \<Rightarrow> bool" where
  "dense s n \<longleftrightarrow> valid s \<and> 0 \<le> n \<and>
     (\<forall>t i. uint i < 65536 \<longrightarrow> ((\<exists>l. get s t i = Inr (Some l)) \<longleftrightarrow> GetGlobalTreePosition t i < n))"

lemma append_step:
  assumes "valid s" "AppendTransactionLeaf raw None (Some iface) s tx = Inr (s', leaf)"
  shows "valid s'" "get s (mlTree leaf) (mlIndex leaf) = Inr None" "uint (mlIndex leaf) < 65536"
    "get s' t i = (if (t, i) = merkleKey leaf then Inr (Some leaf) else get s t i)"
    "NextMerkleTreePosition None (Some iface) s = Inr (mlTree leaf, mlIndex leaf)"
    "MerkleLeafFromTransaction raw tx (mlTree leaf) (mlIndex leaf) = Inr leaf"
proof -
  obtain t i where a: "NextMerkleTreePosition None (Some iface) s = Inr (t, i)"
    "MerkleLeafFromTransaction raw tx t i = Inr leaf" "UpsertLeaf iface None s leaf = Inr s'"
    using assms(2) by (auto simp: AppendTransactionLeaf_def res_elims)
  then have k: "mlTree leaf = t" "mlIndex leaf = i" by (auto simp: MerkleLeafFromTransaction_def res_elims)
  show "valid s'" "get s' t' i' = (if (t', i') = merkleKey leaf then Inr (Some leaf) else get s t' i')" for t' i'
    using upsert_valid [OF assms(1) a(3)] upsert_get [OF assms(1) a(3)] by auto
  show "get s (mlTree leaf) (mlIndex leaf) = Inr None" "uint (mlIndex leaf) < 65536"
    using next_position(1,2) [OF assms(1) a(1)] k by auto
  show "NextMerkleTreePosition None (Some iface) s = Inr (mlTree leaf, mlIndex leaf)"
    "MerkleLeafFromTransaction raw tx (mlTree leaf) (mlIndex leaf) = Inr leaf" using a k by auto
qed

lemma append_dense:
  assumes "dense s n" "AppendTransactionLeaf raw None (Some iface) s tx = Inr (s', leaf)"
  shows "dense s' (n + 1)" "leafPos leaf = n"
proof -
  have v: "valid s" using assms(1) by (simp add: dense_def)
  note st = append_step [OF v assms(2)]
  note nx = next_position [OF v st(5)]
  have lt: "leafPos leaf \<ge> n" using nx(2) st(3) assms(1) by (force simp: dense_def not_less)
  have "leafPos leaf \<le> n"
    using nx(4)
  proof
    assume "\<exists>t' i' l. get s t' i' = Inr (Some l) \<and> leafPos leaf = GetGlobalTreePosition t' i' + 1"
    then obtain t' i' l where l: "get s t' i' = Inr (Some l)" "leafPos leaf = GetGlobalTreePosition t' i' + 1" by blast
    then have "GetGlobalTreePosition t' i' < n" using assms(1) index_bound [OF v l(1)] by (auto simp: dense_def)
    then show ?thesis using l(2) by simp
  qed (use assms(1) in \<open>simp add: dense_def\<close>)
  with lt show pos: "leafPos leaf = n" by simp
  have "(\<exists>l. get s' t i = Inr (Some l)) \<longleftrightarrow> GetGlobalTreePosition t i < n + 1" if "uint i < 65536" for t i
  proof (cases "(t, i) = merkleKey leaf")
    case True
    then show ?thesis using st(4) pos by (auto simp: merkleKey_def)
  next
    case False
    then have "GetGlobalTreePosition t i \<noteq> n"
      using position_inj [OF _ that st(3), of t "mlTree leaf"] pos by (auto simp: merkleKey_def)
    then show ?thesis using False st(4) assms(1) that by (auto simp: dense_def)
  qed
  then show "dense s' (n + 1)" using st(1) assms(1) by (simp add: dense_def)
qed

lemma next_total:
  assumes "dense s n" "n < 2 ^ 80"
  shows "\<exists>t i. NextMerkleTreePosition None (Some iface) s = Inr (t, i)"
proof -
  have v: "valid s" using assms(1) by (simp add: dense_def)
  obtain ls where ls: "ListLeaves iface None s = Inr ls" using list_total v by blast
  show ?thesis
  proof (cases "ls = []")
    case True
    then show ?thesis using ls by (simp add: NextMerkleTreePosition_def maxPosition_Max)
  next
    case False
    define m where "m = Max (leafPos ` set ls) + 1"
    have "Max (leafPos ` set ls) \<in> leafPos ` set ls" using False by (intro Max_in) auto
    then obtain l where l: "l \<in> set ls" "m = leafPos l + 1" by (auto simp: m_def)
    have g: "get s (mlTree l) (mlIndex l) = Inr (Some l)" using list_get [OF v ls] l(1) by simp
    have "leafPos l < n" using g index_bound [OF v g] assms(1) by (auto simp: dense_def)
    then have "0 \<le> m" "m < 2 ^ 80" using l(2) assms(2) by (auto simp: GetGlobalTreePosition_def txidTreeMaxItems_def)
    moreover have "m = m div 65536 * 65536 + m mod 65536" "0 \<le> m mod 65536" "m mod 65536 < 65536" by simp_all
    ultimately have "0 \<le> m div 65536" "m div 65536 < 2 ^ 64" "0 \<le> m mod 65536" "m mod 65536 < 2 ^ 64" by simp_all
    then have "isUint64 (m div 65536)" "isUint64 (m mod 65536)" unfolding isUint64_def by blast+
    then show ?thesis using ls False
      by (simp add: NextMerkleTreePosition_def maxPosition_Max m_def [symmetric] txidTreeMaxItems_def Let_def)
  qed
qed

end

section \<open>Leaves of transactions\<close>

definition txOk :: "Transaction \<Rightarrow> bool" where
  "txOk tx \<longleftrightarrow> txRailgunTxid tx \<noteq> [] \<and> parses (txRailgunTxid tx) \<and>
     0 \<le> txUTXOTreeIn tx \<and> 0 \<le> txUTXOTreeOut tx \<and> 0 \<le> txUTXOBatchStartPositionOut tx"

lemma MerkleLeafFromTransaction_total:
  assumes "constantsOk raw 3" "txOk tx"
  shows "\<exists>leaf. MerkleLeafFromTransaction raw tx t i = Inr leaf"
proof -
  obtain n where n: "HexToBigInt (txRailgunTxid tx) = Inr n" using assms(2) by (auto simp: txOk_def)
  obtain h where h: "Poseidon raw [n, uint (word_of_int (txUTXOTreeIn tx) :: uint64),
      GetGlobalTreePosition (word_of_int (txUTXOTreeOut tx)) (word_of_int (txUTXOBatchStartPositionOut tx))] = Inr h"
    using Poseidon_total [of raw] assms(1) by (metis length_Cons list.size(3) numeral_3_eq_3)
  then show ?thesis
    using assms(2) n Poseidon_range [OF h] by (simp add: MerkleLeafFromTransaction_def TransactionLeafHash_def
        RailgunTxidLeafHash_def txOk_def BigIntToHex_Some)
qed

lemma MerkleLeafFromTransaction_fields:
  assumes "MerkleLeafFromTransaction raw tx t i = Inr leaf" "i < 65536"
  shows "merkleOk leaf" "mlRailgunTxid leaf = txRailgunTxid tx" "mlBlockNumber leaf = txBlockNumber tx"
proof -
  obtain n h where h: "Poseidon raw n = Inr h" "mlHash leaf = hexWidth 32 h"
    using assms(1) Poseidon_range
    by (auto simp: MerkleLeafFromTransaction_def TransactionLeafHash_def RailgunTxidLeafHash_def res_elims
        BigIntToHex_Some Let_def)
  have "mlHash leaf \<noteq> []" using length_hexWidth [of 32 h] h(2) by (cases "hexWidth 32 h") auto
  moreover have "parses (mlHash leaf)"
    using hexWidth_roundtrip [of h 32] Poseidon_range [OF h(1)] SNARKPrime_bound h(2) by auto
  ultimately show "merkleOk leaf" "mlRailgunTxid leaf = txRailgunTxid tx" "mlBlockNumber leaf = txBlockNumber tx"
    using assms by (auto simp: merkleOk_iff MerkleLeafFromTransaction_def res_elims)
qed

section \<open>Both leaf stores serve the append\<close>

definition memMerkleOk :: "MemoryMerkleTreeStore \<Rightarrow> bool" where
  "memMerkleOk s \<longleftrightarrow> (\<exists>m. s = Some m \<and> goodMerkle m)"

lemma MemoryMerkle_ops:
  "MemoryMerkleTreeStore_UpsertLeaf None (Some m) l = Inr s' \<longleftrightarrow> merkleOk l \<and> s' = Some (putMerkleLeaf l m)"
  "MemoryMerkleTreeStore_GetLeaf None (Some m) t i = Inr (get2 m t i)"
  "MemoryMerkleTreeStore_ListLeaves None (Some m) = Inr (sortedMerkleLeaves m)"
  "MemoryMerkleTreeStore_RollbackToBlock None (Some m) b = Inr (Some (rollbackMerkleLeaves b m))"
  by (auto simp: MemoryMerkleTreeStore_UpsertLeaf_def MemoryMerkleTreeStore_GetLeaf_def
      MemoryMerkleTreeStore_ListLeaves_def MemoryMerkleTreeStore_RollbackToBlock_def res_elims)

interpretation txid_mem: merkle_client memMerkleOk memoryMerkleIface "MemoryMerkleTreeStore_GetLeaf None"
  "MemoryMerkleTreeStore_RollbackToBlock None"
proof (unfold_locales, unfold memMerkleOk_def memoryMerkleIface_def merkleIface.simps, goal_cases)
  case (1 s l s')
  then show ?case using goodMerkle_put by (auto simp: MemoryMerkle_ops)
next
  case (2 s l s' t i)
  then show ?case by (auto simp: MemoryMerkle_ops get2_putMerkleLeaf)
next
  case (6 s ls l)
  then obtain m where m: "s = Some m" "goodMerkle m" by blast
  then show ?case using 6(2) goodMap_listing_iff [OF m(2), of l] by (auto simp: MemoryMerkle_ops sortedMerkleLeaves_def)
next
  case (7 s b s')
  then show ?case using goodMerkle_rollback by (auto simp: MemoryMerkle_ops)
next
  case (8 s b s' t i)
  then show ?case by (auto simp: MemoryMerkle_ops get2_rollbackMerkle)
next
  case (9 s t i l)
  then obtain m where m: "goodMerkle m" "get2 m t i = Some l" by (auto simp: MemoryMerkle_ops)
  then show ?case using get2_merkle_valid [OF m] by (auto simp: merkleKey_def merkleOk_iff word_less_def)
qed (auto simp: MemoryMerkle_ops dest: get2_merkle_valid)

definition fileMerkleOk :: "FileMerkleTreeStore \<Rightarrow> bool" where
  "fileMerkleOk s \<longleftrightarrow> (case s of None \<Rightarrow> False | Some f \<Rightarrow> Path f \<noteq> [] \<and> docOk merkleOk (fsFile f))"

definition merkleOnDisk :: "FileMerkleTreeStore \<Rightarrow> MerkleLeaf leafmap" where
  "merkleOnDisk s = (case s of None \<Rightarrow> [] | Some f \<Rightarrow> docMap merkleKey (fsFile f))"

lemma merkleOnDisk_good: "fileMerkleOk s \<Longrightarrow> goodMerkle (merkleOnDisk s)"
  by (auto simp: fileMerkleOk_def merkleOnDisk_def docMap_good split: option.splits)

lemma FileMerkle_load: "fileMerkleOk s \<Longrightarrow> FileMerkleTreeStore_load s = Inr (merkleOnDisk s)"
  by (auto simp: fileMerkleOk_def merkleOnDisk_def FileMerkleTreeStore_load_def FileMerkleTreeStore_loadLocked_def
      putMerkleLeaf_key docMap_load split: option.splits simp del: merkleKey_simps)

lemma FileMerkle_update:
  assumes "fileMerkleOk s" "FileMerkleTreeStore_update env s (\<lambda>m. Inr (f m)) = Inr s'" "goodMerkle (f (merkleOnDisk s))"
  shows "fileMerkleOk s'" "get2 (merkleOnDisk s') t i = get2 (f (merkleOnDisk s)) t i"
proof -
  have "s' = Some (the s\<lparr>fsFile := FileDoc (sortedMerkleLeaves (f (merkleOnDisk s)))\<rparr>)"
    using assms(1,2) FileMerkle_load [OF assms(1)]
    by (auto simp: FileMerkleTreeStore_update_def FileMerkleTreeStore_load_def FileMerkleTreeStore_saveLocked_def
        res_elims fileMerkleOk_def)
  then show "fileMerkleOk s'" "get2 (merkleOnDisk s') t i = get2 (f (merkleOnDisk s)) t i"
    using assms(1) docMap_saved [OF assms(3)]
    by (auto simp: fileMerkleOk_def merkleOnDisk_def sortedMerkleLeaves_def merkleLess_key split: option.splits)
qed

lemma FileMerkle_reads:
  "fileMerkleOk s \<Longrightarrow> FileMerkleTreeStore_GetLeaf None s t i = Inr (get2 (merkleOnDisk s) t i)"
  "fileMerkleOk s \<Longrightarrow> FileMerkleTreeStore_ListLeaves None s = Inr (sortedMerkleLeaves (merkleOnDisk s))"
  by (simp_all add: FileMerkleTreeStore_GetLeaf_def FileMerkleTreeStore_ListLeaves_def FileMerkle_load)

lemma FileMerkle_upsert:
  assumes "fileMerkleOk s" "FileMerkleTreeStore_UpsertLeaf env None s l = Inr s'"
  shows "fileMerkleOk s'" "get2 (merkleOnDisk s') t i = (if (t, i) = merkleKey l then Some l else get2 (merkleOnDisk s) t i)"
proof -
  have "merkleOk l" and u: "FileMerkleTreeStore_update env s (\<lambda>m. Inr (putMerkleLeaf l m)) = Inr s'"
    using assms(2) by (auto simp: FileMerkleTreeStore_UpsertLeaf_def res_elims)
  then have "goodMerkle (putMerkleLeaf l (merkleOnDisk s))" using merkleOnDisk_good [OF assms(1)] goodMerkle_put by blast
  from FileMerkle_update [OF assms(1) u this]
  show "fileMerkleOk s'" "get2 (merkleOnDisk s') t i = (if (t, i) = merkleKey l then Some l else get2 (merkleOnDisk s) t i)"
    by (simp_all add: get2_putMerkleLeaf)
qed

lemma FileMerkle_rollback:
  assumes "fileMerkleOk s" "FileMerkleTreeStore_RollbackToBlock env None s b = Inr s'"
  shows "fileMerkleOk s'" "get2 (merkleOnDisk s') t i = get2 (rollbackMerkleLeaves b (merkleOnDisk s)) t i"
  using FileMerkle_update [OF assms(1), where f = "rollbackMerkleLeaves b"] assms(2)
    goodMerkle_rollback [OF merkleOnDisk_good [OF assms(1)], of b]
  by (auto simp: FileMerkleTreeStore_RollbackToBlock_def)

interpretation txid_file: merkle_client fileMerkleOk "fileMerkleIface env" "FileMerkleTreeStore_GetLeaf None"
  "FileMerkleTreeStore_RollbackToBlock env None" for env
proof (unfold_locales, unfold fileMerkleIface_def merkleIface.simps, goal_cases)
  case (1 s l s')
  then show ?case by (rule FileMerkle_upsert(1))
next
  case (2 s l s' t i)
  then show ?case using FileMerkle_upsert [OF 2] by (simp add: FileMerkle_reads)
next
  case (3 s t i)
  then show ?case by (simp add: FileMerkle_reads)
next
  case (4 s t i l)
  then show ?case using get2_merkle_valid [OF merkleOnDisk_good] by (simp add: FileMerkle_reads)
next
  case (5 s)
  then show ?case by (simp add: FileMerkle_reads)
next
  case (6 s ls l)
  then show ?case using goodMap_listing_iff [OF merkleOnDisk_good, of s l]
    by (auto simp: FileMerkle_reads sortedMerkleLeaves_def)
next
  case (7 s b s')
  then show ?case by (rule FileMerkle_rollback(1))
next
  case (8 s b s' t i)
  then show ?case using FileMerkle_rollback [OF 8] by (simp add: FileMerkle_reads get2_rollbackMerkle [OF merkleOnDisk_good])
next
  case (9 s t i l)
  then show ?case using get2_merkle_valid [OF merkleOnDisk_good, of s t i l]
    by (auto simp: FileMerkle_reads merkleKey_def merkleOk_iff word_less_def)
qed

section \<open>Appending a list of transactions\<close>

definition appendAll ::
  "poseidonConstantsRaw \<Rightarrow> 's merkleIface \<Rightarrow> Transaction list \<Rightarrow> 's \<Rightarrow> ('s \<times> MerkleLeaf list) res" where
  "appendAll raw iface txs s =
     foldRes (\<lambda>tx (s, out). andThen (AppendTransactionLeaf raw None (Some iface) s tx)
       (\<lambda>(s', leaf). Inr (s', out @ [leaf]))) txs (s, [])"

lemma appendAll_Nil: "appendAll raw iface [] s = Inr (s, [])"
  by (simp add: appendAll_def)

lemma appendAll_snoc:
  "appendAll raw iface (txs @ [tx]) s = andThen (appendAll raw iface txs s) (\<lambda>(s', out).
     andThen (AppendTransactionLeaf raw None (Some iface) s' tx) (\<lambda>(s'', leaf). Inr (s'', out @ [leaf])))"
  by (cases "appendAll raw iface txs s") (auto simp: appendAll_def foldRes_append andThen_def split: sum.splits prod.splits)

context merkle_client
begin

definition appended :: "poseidonConstantsRaw \<Rightarrow> Transaction list \<Rightarrow> 's \<Rightarrow> MerkleLeaf list \<Rightarrow> bool" where
  "appended raw txs s leaves \<longleftrightarrow> dense s (int (length txs)) \<and> length leaves = length txs \<and>
     (\<forall>k < length txs. leafPos (leaves ! k) = int k \<and> uint (mlIndex (leaves ! k)) < 65536 \<and>
        get s (mlTree (leaves ! k)) (mlIndex (leaves ! k)) = Inr (Some (leaves ! k)) \<and>
        MerkleLeafFromTransaction raw (txs ! k) (mlTree (leaves ! k)) (mlIndex (leaves ! k)) = Inr (leaves ! k))"

lemma appended_snoc:
  assumes "appended raw txs s leaves" "AppendTransactionLeaf raw None (Some iface) s tx = Inr (s', leaf)"
  shows "appended raw (txs @ [tx]) s' (leaves @ [leaf])"
proof -
  have d: "dense s (int (length txs))" and v: "valid s" using assms(1) by (auto simp: appended_def dense_def)
  note st = append_step [OF v assms(2)] and dn = append_dense [OF d assms(2)]
  have "get s' (mlTree (leaves ! k)) (mlIndex (leaves ! k)) = Inr (Some (leaves ! k))" if "k < length txs" for k
  proof -
    have "get s (mlTree (leaves ! k)) (mlIndex (leaves ! k)) = Inr (Some (leaves ! k))" "leafPos (leaves ! k) \<noteq> leafPos leaf"
      using assms(1) that dn(2) by (auto simp: appended_def)
    then show ?thesis unfolding st(4) by (auto simp: merkleKey_def)
  qed
  moreover have "get s' (mlTree leaf) (mlIndex leaf) = Inr (Some leaf)" unfolding st(4) by (simp add: merkleKey_def)
  moreover have "dense s' (int (length (txs @ [tx])))" using dn(1) by (simp add: add.commute)
  ultimately show ?thesis
    using assms(1) st(3,6) dn(2) unfolding appended_def by (simp add: nth_append less_Suc_eq)
qed

lemma appendAll_appended:
  assumes "appended raw [] s []" "constantsOk raw 3" "\<forall>tx \<in> set txs. txOk tx" "length txs < 2 ^ 64"
    and up: "\<And>s l. valid s \<Longrightarrow> merkleOk l \<Longrightarrow> \<exists>s'. UpsertLeaf iface None s l = Inr s'"
  shows "\<exists>s' leaves. appendAll raw iface txs s = Inr (s', leaves) \<and> appended raw txs s' leaves"
  using assms(3,4)
proof (induction txs rule: rev_induct)
  case (snoc tx txs)
  then obtain s' leaves where a: "appendAll raw iface txs s = Inr (s', leaves)" "appended raw txs s' leaves" by auto
  have d: "dense s' (int (length txs))" and v: "valid s'" using a(2) by (auto simp: appended_def dense_def)
  have "int (length txs) < 2 ^ 80" using snoc.prems(2) by simp
  then obtain t i where n: "NextMerkleTreePosition None (Some iface) s' = Inr (t, i)" using next_total [OF d] by blast
  obtain leaf where l: "MerkleLeafFromTransaction raw tx t i = Inr leaf"
    using MerkleLeafFromTransaction_total [OF assms(2), of tx t i] snoc.prems(1) by auto
  have "i < 65536" using next_position(1) [OF v n] by (simp add: word_less_def)
  then obtain s'' where u: "UpsertLeaf iface None s' leaf = Inr s''"
    using up [OF v] MerkleLeafFromTransaction_fields(1) [OF l] by blast
  have ap: "AppendTransactionLeaf raw None (Some iface) s' tx = Inr (s'', leaf)"
    using n l u by (simp add: AppendTransactionLeaf_def)
  show ?case using a(1) ap appended_snoc [OF a(2) ap] by (simp add: appendAll_snoc)
qed (use assms(1) in \<open>simp add: appendAll_Nil\<close>)

end

section \<open>Reads of a valid memory store\<close>

lemma txidBuildTreeLevels_levelsOf: "txidBuildTreeLevels H leaves = levelsOf H validateMerkleLeaf mlHash leaves"
  by (simp add: txidBuildTreeLevels_def levelsOf_def)

lemma memMerkle_proof_verifies:
  assumes "goodMerkle m" "constantsOk raw 2" "get2 m t i = Some leaf"
  shows "\<exists>p. MemoryMerkleTreeStore_Proof (HashLeftRight raw) None (Some m) t i = Inr p \<and> prfLeaf p = mlHash leaf \<and>
    MemoryMerkleTreeStore_Root (HashLeftRight raw) None (Some m) t = Inr (prfRoot p) \<and> VerifyProof raw p = Inr True"
proof (rule txid_tree.proof_spec [OF assms(1) HashLeftRight_total [OF assms(2)] assms(3)])
  fix levels els root c0 c
  assume p: "levelsOf (HashLeftRight raw) validateMerkleLeaf mlHash (inner m t) = Inr levels"
    "proofElements (HashLeftRight raw) levels i = Inr els" "nodeAtLevel (HashLeftRight raw) levels TreeDepth 0 = Inr root"
    "HexToBigInt (mlHash leaf) = Inr c0"
    "foldResI 0 (rootStep (HashLeftRight raw) (uint i)) els c0 = Inr c" "0 \<le> c" "root = hexWidth 32 c"
    "i < 65536" "merkleKey leaf = (t, i)"
  have g: "gget (inner m t) i = Some leaf" using assms(3) by (simp add: get2_def)
  have "uint i < 2 ^ 64" using uint_bounded [of i] by simp
  then have x: "HexToBigInt (hexWidth 32 (uint i)) = Inr (uint i)" by (intro hexWidth_roundtrip) simp_all
  show ?thesis
    using p g x by (simp add: MemoryMerkleTreeStore_Proof_def MemoryMerkleTreeStore_Root_def txidProofFromLeaves_def
        txidBuildTreeLevels_levelsOf txidTreeMaxItems_def not_le BigIntToHex_Some merkleKey_def VerifyProof_def CalculateRoot_def)
qed

section \<open>Properties\<close>

lemma memory_run:
  assumes "constantsOk raw 3" "\<forall>tx \<in> set txs. txOk tx" "length txs < 2 ^ 64"
  shows "\<exists>s leaves. appendAll raw memoryMerkleIface txs NewMemoryMerkleTreeStore = Inr (s, leaves) \<and>
    txid_mem.appended raw txs s leaves"
proof (rule txid_mem.appendAll_appended [OF _ assms])
  show "txid_mem.appended raw [] NewMemoryMerkleTreeStore []"
    by (auto simp: txid_mem.appended_def txid_mem.dense_def memMerkleOk_def NewMemoryMerkleTreeStore_def
        MemoryMerkle_ops GetGlobalTreePosition_def txidTreeMaxItems_def not_less)
  show "\<exists>s'. UpsertLeaf memoryMerkleIface None s l = Inr s'" if "memMerkleOk s" "merkleOk l" for s l
    using that by (auto simp: memMerkleOk_def memoryMerkleIface_def MemoryMerkleTreeStore_UpsertLeaf_def)
qed

text \<open>C3: Appending well-formed transactions one after the other to a fresh
  TXID store succeeds and puts the k-th transaction at global position k, counting from zero
  and filling each tree of 65536 leaves before the next; the leaf is the one computed from its
  transaction, no append overwrites an earlier leaf, and afterwards every proof of a leaf is
  accepted by \<^verbatim>\<open>VerifyProof\<close> against the root of its tree.\<close>

theorem appended_positions:
  assumes "constantsOk raw 3" "constantsOk raw 2" "\<forall>tx \<in> set txs. txOk tx" "length txs < 2 ^ 64"
  shows "\<exists>s leaves. appendAll raw memoryMerkleIface txs NewMemoryMerkleTreeStore = Inr (s, leaves) \<and>
    length leaves = length txs \<and>
    (\<forall>k < length txs. let leaf = leaves ! k in
       GetGlobalTreePosition (mlTree leaf) (mlIndex leaf) = int k \<and> mlIndex leaf < 65536 \<and>
       MerkleLeafFromTransaction raw (txs ! k) (mlTree leaf) (mlIndex leaf) = Inr leaf \<and>
       MemoryMerkleTreeStore_GetLeaf None s (mlTree leaf) (mlIndex leaf) = Inr (Some leaf) \<and>
       (\<exists>p. MemoryMerkleTreeStore_Proof (HashLeftRight raw) None s (mlTree leaf) (mlIndex leaf) = Inr p \<and>
          MemoryMerkleTreeStore_Root (HashLeftRight raw) None s (mlTree leaf) = Inr (prfRoot p) \<and>
          VerifyProof raw p = Inr True))"
proof -
  obtain s leaves where a: "appendAll raw memoryMerkleIface txs NewMemoryMerkleTreeStore = Inr (s, leaves)"
    "txid_mem.appended raw txs s leaves"
    using memory_run [OF assms(1,3,4)] by blast
  obtain m where m: "s = Some m" "goodMerkle m"
    using a(2) by (auto simp: txid_mem.appended_def txid_mem.dense_def memMerkleOk_def)
  have "\<exists>p. MemoryMerkleTreeStore_Proof (HashLeftRight raw) None s (mlTree l) (mlIndex l) = Inr p \<and>
      MemoryMerkleTreeStore_Root (HashLeftRight raw) None s (mlTree l) = Inr (prfRoot p) \<and> VerifyProof raw p = Inr True"
    if "MemoryMerkleTreeStore_GetLeaf None s (mlTree l) (mlIndex l) = Inr (Some l)" for l
    using memMerkle_proof_verifies [OF m(2) assms(2), of "mlTree l" "mlIndex l" l] that m(1)
    by (auto simp: MemoryMerkle_ops)
  then show ?thesis using a by (auto simp: txid_mem.appended_def Let_def word_less_def)
qed

definition sampleTransaction :: Transaction where
  "sampleTransaction = \<lparr>txVersion = ''V2'', txRailgunTxid = ''0a'', txTxid = ''0b'', txBlockNumber = 3, txCommitments = [],
     txNullifiers = [], txBoundParamsHash = ''0c'', txUnshield = None, txUTXOTreeIn = 0, txUTXOTreeOut = 0,
     txUTXOBatchStartPositionOut = 0, txVerificationHash = []\<rparr>"

lemma sampleTransaction_ok: "txOk sampleTransaction"
proof -
  have "case HexToBigInt (txRailgunTxid sampleTransaction) of Inl _ \<Rightarrow> False | Inr _ \<Rightarrow> True" by code_simp
  then show ?thesis by (auto simp: txOk_def sampleTransaction_def split: sum.splits)
qed

theorem appended_positions_witness:
  "\<exists>s leaves. appendAll sampleConstants memoryMerkleIface [sampleTransaction, sampleTransaction] NewMemoryMerkleTreeStore = Inr (s, leaves) \<and>
    GetGlobalTreePosition (mlTree (leaves ! 1)) (mlIndex (leaves ! 1)) = 1"
  using appended_positions [OF sampleConstants_ok sampleConstants_ok, of "[sampleTransaction, sampleTransaction]"]
    sampleTransaction_ok
  by (fastforce simp: Let_def less_Suc_eq)

text \<open>On any valid file store, a successful append writes one leaf, at a
  position that held none, above every stored position and below the tree size, and leaves
  every other position as it was.\<close>

theorem append_fresh_position:
  assumes "fileMerkleOk s" "AppendTransactionLeaf raw None (Some (fileMerkleIface env)) s transaction = Inr (s', leaf)"
  shows "FileMerkleTreeStore_GetLeaf None s (mlTree leaf) (mlIndex leaf) = Inr None \<and>
    uint (mlIndex leaf) < 65536 \<and>
    (\<forall>tree index l. FileMerkleTreeStore_GetLeaf None s tree index = Inr (Some l) \<longrightarrow>
       GetGlobalTreePosition tree index < GetGlobalTreePosition (mlTree leaf) (mlIndex leaf)) \<and>
    (\<forall>tree index. FileMerkleTreeStore_GetLeaf None s' tree index =
       (if tree = mlTree leaf \<and> index = mlIndex leaf then Inr (Some leaf)
        else FileMerkleTreeStore_GetLeaf None s tree index)) \<and>
    fileMerkleOk s'"
proof -
  note st = txid_file.append_step [OF assms]
  note nx = txid_file.next_position [OF assms(1) st(5)]
  show ?thesis using st(1,2,3) nx(3) unfolding st(4) by (auto simp: merkleKey_def)
qed

text \<open>The Railgun transaction id of up to 16 nullifiers and up to 16
  commitments is the Poseidon hash of the hashes of the two lists, each padded with the Merkle
  zero value to 13 entries, and of the bound parameters hash; it is a field element, and its
  hex text of 32 bytes reads back as the id. With more than 16 of either the id is an error.\<close>

theorem transaction_id_hash:
  assumes "\<forall>n. 0 < n \<and> n \<le> 16 \<longrightarrow> constantsOk raw n"
    and "parseHexList nullifiers = Inr ns" "parseHexList commitments = Inr cs" "HexToBigInt boundParamsHash = Inr bp"
  shows "if length ns \<le> 16 \<and> length cs \<le> 16
    then \<exists>hn hc id. Poseidon raw (padTo13 ns) = Inr hn \<and> Poseidon raw (padTo13 cs) = Inr hc \<and>
      Poseidon raw [hn, hc, bp] = Inr id \<and>
      RailgunTransactionID raw nullifiers commitments boundParamsHash = Inr id \<and> 0 \<le> id \<and> id < SNARKPrime \<and>
      (\<exists>h. RailgunTransactionIDHex raw nullifiers commitments boundParamsHash = Inr h \<and> HexToBigInt h = Inr id)
    else \<exists>e. RailgunTransactionID raw nullifiers commitments boundParamsHash = Inl e"
proof -
  have val: "validateBigIntList nm (map Some xs) = Inr ()" for nm xs
  proof -
    have "foldResI i (\<lambda>i value _. if value = None then Inl (Errorf ''%s[%d] is required'' [AStr nm, ANat i]) else Inr ()) (map Some xs) () = Inr ()" for i
      by (induction xs arbitrary: i) auto
    then show ?thesis by (simp add: validateBigIntList_def)
  qed
  have eq: "RailgunTransactionID raw nullifiers commitments boundParamsHash =
     andThen (Poseidon raw (padTo13 ns)) (\<lambda>hn. andThen (Poseidon raw (padTo13 cs)) (\<lambda>hc. Poseidon raw [hn, hc, bp]))"
    using assms(2-4) by (simp add: RailgunTransactionID_def RailgunTransactionIDFromBigInts_def val comp_def)
  have pad: "\<exists>h. Poseidon raw (padTo13 xs) = Inr h" if "length xs \<le> 16" for xs
    using Poseidon_total [of raw "padTo13 xs"] assms(1) that by (simp add: padTo13_def)
  have big: "\<exists>e. Poseidon raw (padTo13 xs) = Inl e" if "\<not> length xs \<le> 16" for xs
    using that by (auto simp: Poseidon_def padTo13_def nRoundsP_def)
  show ?thesis
  proof (cases "length ns \<le> 16 \<and> length cs \<le> 16")
    case True
    then obtain hn hc where h: "Poseidon raw (padTo13 ns) = Inr hn" "Poseidon raw (padTo13 cs) = Inr hc" using pad by blast
    obtain id where id: "Poseidon raw [hn, hc, bp] = Inr id" using Poseidon_total [of raw "[hn, hc, bp]"] assms(1) by auto
    note r = Poseidon_range [OF id]
    have "HexToBigInt (hexWidth 32 id) = Inr id" using r SNARKPrime_bound by (intro hexWidth_roundtrip) auto
    then show ?thesis using True h id r eq by (simp add: RailgunTransactionIDHex_def BigIntToHex_Some)
  next
    case False
    then show ?thesis
    proof (cases "length ns \<le> 16")
      case True
      then show ?thesis using False pad [of ns] big [of cs] by (auto simp: eq)
    qed (use big [of ns] False in \<open>auto simp: eq\<close>)
  qed
qed

theorem transaction_id_hash_witness:
  "\<exists>id. RailgunTransactionID sampleConstants [''01''] [''02'', ''03''] ''04'' = Inr id \<and> 0 \<le> id \<and> id < SNARKPrime"
proof -
  have p: "parseHexList [''01''] = Inr [1]" "parseHexList [''02'', ''03''] = Inr [2, 3]" "HexToBigInt ''04'' = Inr 4"
    by code_simp+
  show ?thesis using transaction_id_hash [OF _ p, of sampleConstants] sampleConstants_ok by auto
qed

end
