(* ===== verification/Solutions.thy ===== *)
theory Solutions
  imports Railgun
begin

text \<open>
  Models \<^verbatim>\<open>pkg/transaction/solutions.go\<close>: the selection of UTXOs that fill a value,
  the groups built from them, and their change. A \<^verbatim>\<open>*big.Int\<close> is an \<open>int option\<close>;
  a slice that may be nil is an option where the code tells nil from empty. The clone helpers
  copy values, which the model does not need.
\<close>

section \<open>Data\<close>

definition validNullifierCounts :: "nat \<Rightarrow> bool" where
  "validNullifierCounts n \<longleftrightarrow> n \<in> {1, 2, 3, 4, 5, 6, 7, 8, 9, 10}"

record SolutionTXO =
  stxID :: string
  stxTXID :: string
  stxTree :: int
  stxPosition :: uint64
  stxValue :: "int option"

record TreeBalance =
  tbBalance :: "int option"
  tbUTXOs :: "SolutionTXO list"

record SolutionOutput =
  soID :: string
  soValue :: "int option"
  soTokenData :: TokenData

record SpendingSolutionGroup =
  sgSpendingTree :: nat
  sgUTXOs :: "SolutionTXO list"
  sgTokenOutputs :: "SolutionOutput list"
  sgUnshieldValue :: "int option"
  sgTokenData :: TokenData

record SimpleUTXOGroup =
  simUTXOs :: "SolutionTXO list"
  simSpendingTree :: nat
  simAmount :: int

section \<open>Sums, filters and the order\<close>

definition CalculateTotalSpend :: "SolutionTXO list \<Rightarrow> int" where
  "CalculateTotalSpend utxos =
     foldl (\<lambda>total utxo. case stxValue utxo of None \<Rightarrow> total | Some v \<Rightarrow> total + v) 0 utxos"

definition filterZeroUTXOs :: "SolutionTXO list \<Rightarrow> SolutionTXO list" where
  "filterZeroUTXOs utxos = filter (\<lambda>utxo. case stxValue utxo of None \<Rightarrow> False | Some v \<Rightarrow> v \<noteq> 0) utxos"

text \<open>The value of a UTXO that passed the filter.\<close>

abbreviation valueOf :: "SolutionTXO \<Rightarrow> int" where
  "valueOf u \<equiv> the (stxValue u)"

definition sortUTXOsByAscendingValue :: "SolutionTXO list \<Rightarrow> SolutionTXO list" where
  "sortUTXOsByAscendingValue utxos = sortBy (\<lambda>a b. valueOf a < valueOf b) utxos"

definition utxoIDPosition :: "SolutionTXO \<Rightarrow> string" where
  "utxoIDPosition utxo = stxTXID utxo @ ''-'' @ decimal (uint (stxPosition utxo))"

definition minBigInt :: "int \<Rightarrow> int \<Rightarrow> int" where
  "minBigInt a b = (if a < b then a else b)"

definition nextNullifierTarget :: "nat \<Rightarrow> nat" where
  "nextNullifierTarget utxoCount =
     (case find validNullifierCounts [utxoCount + 1..<11] of Some i \<Rightarrow> i | None \<Rightarrow> 0)"

definition shouldAddMoreUTXOsForSolutionBatch :: "nat \<Rightarrow> nat \<Rightarrow> int \<Rightarrow> int \<Rightarrow> bool" where
  "shouldAddMoreUTXOsForSolutionBatch currentNullifierCount totalNullifierCount currentSpend totalRequired =
     (if currentSpend \<ge> totalRequired then False
      else let nullifierTarget = nextNullifierTarget currentNullifierCount
        in if nullifierTarget = 0 then False else nullifierTarget \<le> totalNullifierCount)"

section \<open>Exact solutions\<close>

text \<open>Take from the sorted list while the total is below the requirement.\<close>

fun selectOver :: "int \<Rightarrow> SolutionTXO list \<Rightarrow> SolutionTXO list \<Rightarrow> SolutionTXO list" where
  "selectOver totalRequired selected [] = selected"
| "selectOver totalRequired selected (u # us) =
     (if CalculateTotalSpend selected < totalRequired then selectOver totalRequired (selected @ [u]) us else selected)"

definition FindExactSolutionsOverTargetValue :: "TreeBalance \<Rightarrow> int option \<Rightarrow> SolutionTXO list option" where
  "FindExactSolutionsOverTargetValue treeBalance totalRequired =
     (case (tbBalance treeBalance, totalRequired) of
        (Some balance, Some required) \<Rightarrow>
          if balance < required then Some []
          else let filtered = filterZeroUTXOs (tbUTXOs treeBalance)
            in (case find (\<lambda>utxo. valueOf utxo = required) filtered of
                 Some utxo \<Rightarrow> Some [utxo]
               | None \<Rightarrow>
                   let selected = selectOver required [] (sortUTXOsByAscendingValue filtered)
                   in if CalculateTotalSpend selected < required then None
                      else if \<not> validNullifierCounts (length selected) then None
                      else Some selected)
      | _ \<Rightarrow> Some [])"

text \<open>The loop over the trees keeps the last tree that has a solution; \<open>None\<close> is tree \<open>-1\<close>.\<close>

definition CreateSimpleSatisfyingUTXOGroup :: "TreeBalance list \<Rightarrow> int option \<Rightarrow> SimpleUTXOGroup res" where
  "CreateSimpleSatisfyingUTXOGroup treeSortedBalances amountRequired =
     (case fold (\<lambda>(tree, treeBalance) best.
              case FindExactSolutionsOverTargetValue treeBalance amountRequired of
                None \<Rightarrow> best
              | Some solutions \<Rightarrow> Some (tree, solutions))
            (zip [0..<length treeSortedBalances] treeSortedBalances) None of
        None \<Rightarrow> Err ''no spending solutions found''
      | Some (spendingTree, selected) \<Rightarrow>
          Inr \<lparr>simUTXOs = selected, simSpendingTree = spendingTree, simAmount = CalculateTotalSpend selected\<rparr>)"

section \<open>Batches\<close>

fun selectBatch :: "int \<Rightarrow> nat \<Rightarrow> SolutionTXO list \<Rightarrow> SolutionTXO list \<Rightarrow> SolutionTXO list" where
  "selectBatch totalRequired cnt selected [] = selected"
| "selectBatch totalRequired cnt selected (u # us) =
     (if shouldAddMoreUTXOsForSolutionBatch (length selected) cnt (CalculateTotalSpend selected) totalRequired
      then selectBatch totalRequired cnt (selected @ [u]) us else selected)"

definition spendable :: "TreeBalance \<Rightarrow> string list \<Rightarrow> SolutionTXO list" where
  "spendable treeBalance excluded =
     filter (\<lambda>utxo. utxoIDPosition utxo \<notin> set excluded) (filterZeroUTXOs (tbUTXOs treeBalance))"

definition findNextSolutionBatch :: "TreeBalance \<Rightarrow> int \<Rightarrow> string list \<Rightarrow> SolutionTXO list option" where
  "findNextSolutionBatch treeBalance totalRequired excludedUTXOIDPositions =
     (let filtered = spendable treeBalance excludedUTXOIDPositions
      in if filtered = [] then None
         else case find (\<lambda>utxo. valueOf utxo = totalRequired) filtered of
           Some utxo \<Rightarrow> Some [utxo]
         | None \<Rightarrow>
             let selected = selectBatch totalRequired (length filtered) [] (sortUTXOsByAscendingValue filtered)
             in if \<not> validNullifierCounts (length selected) then None else Some selected)"

section \<open>Spending solutions\<close>

definition replaceOrRemoveRemainingOutput :: "SolutionOutput list \<Rightarrow> int \<Rightarrow> SolutionOutput list" where
  "replaceOrRemoveRemainingOutput remaining amountToFill =
     (case remaining of
        [] \<Rightarrow> []
      | deleted # rest \<Rightarrow> if amountToFill > 0 then deleted\<lparr>soValue := Some amountToFill\<rparr> # rest else rest)"

definition createSpendingSolutionGroup ::
  "SolutionOutput \<Rightarrow> nat \<Rightarrow> int \<Rightarrow> SolutionTXO list \<Rightarrow> bool \<Rightarrow> SpendingSolutionGroup" where
  "createSpendingSolutionGroup output tree solutionValue utxos isUnshield =
     (if isUnshield
      then \<lparr>sgSpendingTree = tree, sgUTXOs = utxos, sgTokenOutputs = [], sgUnshieldValue = Some solutionValue,
            sgTokenData = soTokenData output\<rparr>
      else \<lparr>sgSpendingTree = tree, sgUTXOs = utxos,
            sgTokenOutputs = [\<lparr>soID = soID output, soValue = Some solutionValue, soTokenData = soTokenData output\<rparr>],
            sgUnshieldValue = Some 0, sgTokenData = soTokenData output\<rparr>)"

record fillState =
  fsAmount :: int
  fsGroups :: "SpendingSolutionGroup list"
  fsExcluded :: "string list"
  fsRemaining :: "SolutionOutput list"

text \<open>
  The body of the inner loop for one batch. A secondary output without a value makes
  \<^verbatim>\<open>minBigInt\<close> dereference nil, which is a panic.
\<close>

definition fillBatch ::
  "bool \<Rightarrow> SolutionOutput \<Rightarrow> SolutionOutput option \<Rightarrow> nat \<Rightarrow> SolutionTXO list \<Rightarrow> fillState \<Rightarrow> fillState res" where
  "fillBatch isUnshield primary secondary tree utxos st =
     (let excluded = fsExcluded st @ map utxoIDPosition utxos;
          totalSpend = CalculateTotalSpend utxos;
          solutionValue = minBigInt totalSpend (fsAmount st);
          grp = createSpendingSolutionGroup primary tree solutionValue utxos isUnshield;
          amountToFill = fsAmount st - totalSpend;
          remaining = replaceOrRemoveRemainingOutput (fsRemaining st) amountToFill;
          st' = \<lparr>fsAmount = amountToFill, fsGroups = fsGroups st @ [grp], fsExcluded = excluded, fsRemaining = remaining\<rparr>
      in if amountToFill \<le> 0 \<and> - amountToFill > 0 \<and> \<not> isUnshield
         then (case secondary of
             None \<Rightarrow> Inr st'
           | Some sec \<Rightarrow> (case soValue sec of
                 None \<Rightarrow> Inl (Panic ''nil pointer dereference'')
               | Some sv \<Rightarrow>
                   let secondaryNoteValue = minBigInt sv (- amountToFill);
                       finalAmountToFill = sv - secondaryNoteValue;
                       grp' = grp\<lparr>sgTokenOutputs := sgTokenOutputs grp @
                         [\<lparr>soID = soID sec, soValue = Some secondaryNoteValue, soTokenData = soTokenData sec\<rparr>]\<rparr>
                   in Inr (st'\<lparr>fsGroups := fsGroups st @ [grp'],
                        fsRemaining := replaceOrRemoveRemainingOutput remaining finalAmountToFill\<rparr>)))
         else Inr st')"

lemma CalculateTotalSpend_sum: "CalculateTotalSpend us = (\<Sum>u \<leftarrow> us. case stxValue u of None \<Rightarrow> 0 | Some v \<Rightarrow> v)"
proof -
  have "foldl (\<lambda>total utxo. case stxValue utxo of None \<Rightarrow> total | Some v \<Rightarrow> total + v) a us
      = a + (\<Sum>u \<leftarrow> us. case stxValue u of None \<Rightarrow> 0 | Some v \<Rightarrow> v)" for a
    by (induction us arbitrary: a) (auto split: option.splits)
  then show ?thesis by (simp add: CalculateTotalSpend_def)
qed

lemma selectOver_prefix: "\<exists>n. selectOver r sel us = sel @ take n us"
proof (induction us arbitrary: sel)
  case (Cons u us)
  obtain n where "selectOver r (sel @ [u]) us = (sel @ [u]) @ take n us" using Cons by blast
  then have "selectOver r sel (u # us) = sel @ take (if CalculateTotalSpend sel < r then Suc n else 0) (u # us)" by simp
  then show ?case by blast
qed simp

lemma selectBatch_prefix: "\<exists>n. selectBatch r t sel us = sel @ take n us"
proof (induction us arbitrary: sel)
  case (Cons u us)
  obtain n where "selectBatch r t (sel @ [u]) us = (sel @ [u]) @ take n us" using Cons by blast
  then have "selectBatch r t sel (u # us) =
      sel @ take (if shouldAddMoreUTXOsForSolutionBatch (length sel) t (CalculateTotalSpend sel) r then Suc n else 0) (u # us)" by simp
  then show ?case by blast
qed simp

text \<open>A batch is a non-empty part of the UTXOs that are still spendable.\<close>

lemma findNextSolutionBatch_sub:
  assumes "findNextSolutionBatch tb r ex = Some us"
  shows "us \<noteq> []" "mset us \<subseteq># mset (spendable tb ex)" "validNullifierCounts (length us)"
proof -
  let ?f = "spendable tb ex"
  have "us \<noteq> [] \<and> mset us \<subseteq># mset ?f \<and> validNullifierCounts (length us)"
  proof (cases "find (\<lambda>utxo. valueOf utxo = r) ?f")
    case (Some u)
    then have "u \<in> set ?f" by (auto simp: find_Some_iff)
    moreover have "us = [u]" using assms Some by (auto simp: findNextSolutionBatch_def Let_def split: if_splits)
    ultimately show ?thesis by (simp add: validNullifierCounts_def)
  next
    case None
    then have us: "us = selectBatch r (length ?f) [] (sortUTXOsByAscendingValue ?f)" "validNullifierCounts (length us)"
      using assms by (auto simp: findNextSolutionBatch_def Let_def split: if_splits)
    obtain n where "us = take n (sortUTXOsByAscendingValue ?f)" using us(1) selectBatch_prefix by (metis append_Nil)
    then have "mset us \<subseteq># mset (sortUTXOsByAscendingValue ?f)"
      by (metis append_take_drop_id mset_append mset_subset_eq_add_left)
    then show ?thesis using us(2) by (auto simp: sortUTXOsByAscendingValue_def validNullifierCounts_def)
  qed
  then show "us \<noteq> []" "mset us \<subseteq># mset ?f" "validNullifierCounts (length us)" by auto
qed

lemma spendable_less:
  assumes "us \<noteq> []" "mset us \<subseteq># mset (spendable tb ex)"
  shows "length (spendable tb (ex @ map utxoIDPosition us)) < length (spendable tb ex)"
proof -
  obtain u where u: "u \<in> set us" using assms(1) by (cases us) auto
  then have "u \<in> set (spendable tb ex)" using set_mset_mono [OF assms(2)] by auto
  moreover have "spendable tb (ex @ map utxoIDPosition us) =
      filter (\<lambda>x. utxoIDPosition x \<notin> utxoIDPosition ` set us) (spendable tb ex)"
    unfolding spendable_def filter_filter by (rule filter_cong) auto
  ultimately show ?thesis using u by (auto intro!: length_filter_less)
qed

lemma fillBatch_excluded: "fillBatch un p s t us st = Inr st' \<Longrightarrow> fsExcluded st' = fsExcluded st @ map utxoIDPosition us"
  by (auto simp: fillBatch_def Let_def split: if_splits option.splits)

text \<open>The inner loop over one tree; every batch uses up a spendable UTXO.\<close>

function fillTree ::
  "bool \<Rightarrow> SolutionOutput \<Rightarrow> SolutionOutput option \<Rightarrow> nat \<Rightarrow> TreeBalance \<Rightarrow> fillState \<Rightarrow> fillState res" where
  "fillTree isUnshield primary secondary tree treeBalance st =
     (if fsAmount st > 0
      then (case findNextSolutionBatch treeBalance (fsAmount st) (fsExcluded st) of
          None \<Rightarrow> Inr st
        | Some utxos \<Rightarrow>
            andThen (fillBatch isUnshield primary secondary tree utxos st)
              (fillTree isUnshield primary secondary tree treeBalance))
      else Inr st)"
  by pat_completeness auto
termination
  by (relation "measure (\<lambda>(_, _, _, _, tb, st). length (spendable tb (fsExcluded st)))")
    (auto simp: fillBatch_excluded dest: findNextSolutionBatch_sub intro: spendable_less)

declare fillTree.simps [simp del]

definition nullUTXO :: SolutionTXO where
  "nullUTXO = \<lparr>stxID = ''null'', stxTXID = Prefix0x ''00'', stxTree = 0, stxPosition = 100000, stxValue = Some 0\<rparr>"

definition CreateSpendingSolutionsForValue ::
  "TreeBalance list \<Rightarrow> SolutionOutput list \<Rightarrow> string list \<Rightarrow> bool
   \<Rightarrow> (SpendingSolutionGroup list \<times> SolutionOutput list \<times> string list) res" where
  "CreateSpendingSolutionsForValue treeSortedBalances remainingOutputs excluded isUnshield =
     (case remainingOutputs of
        [] \<Rightarrow> Inr ([], [], excluded)
      | primaryOutput # others \<Rightarrow>
          let secondaryOutput = (case others of [] \<Rightarrow> None | sec # _ \<Rightarrow> Some sec)
          in (case soValue primaryOutput of
              None \<Rightarrow> Err ''primary output value is required''
            | Some value \<Rightarrow>
                if value = 0
                then Inr ([createSpendingSolutionGroup primaryOutput 0 0 [nullUTXO] isUnshield],
                          replaceOrRemoveRemainingOutput remainingOutputs 0, excluded)
                else andThen (foldRes (\<lambda>(tree, treeBalance). fillTree isUnshield primaryOutput secondaryOutput tree treeBalance)
                       (zip [0..<length treeSortedBalances] treeSortedBalances)
                       \<lparr>fsAmount = value, fsGroups = [], fsExcluded = excluded, fsRemaining = remainingOutputs\<rparr>) (\<lambda>st.
                     if fsAmount st > 0
                     then Err ''balance too low: requires additional UTXOs to satisfy spending solution''
                     else Inr (fsGroups st, fsRemaining st, fsExcluded st))))"

section \<open>Change\<close>

definition ChangeValue :: "SpendingSolutionGroup \<Rightarrow> int res" where
  "ChangeValue grp =
     (let totalIn = CalculateTotalSpend (sgUTXOs grp);
          totalOut = foldl (\<lambda>total output. case soValue output of None \<Rightarrow> total | Some v \<Rightarrow> total + v)
            (case sgUnshieldValue grp of None \<Rightarrow> 0 | Some v \<Rightarrow> v) (sgTokenOutputs grp);
          change = totalIn - totalOut
      in if change < 0 then Err ''negative change value - transaction not possible'' else Inr change)"

record RequestTransactOutput =
  rtReceiverMasterPublicKey :: int
  rtReceiverViewingPublicKey :: "byte list"
  rtRandom :: string
  rtValue :: int
  rtTokenData :: TokenData
  rtSenderRandom :: string
  rtOutputType :: int
  rtWalletSource :: string
  rtMemoText :: string

text \<open>No change is \<open>None\<close>; otherwise the output, its note public key and its hash.\<close>

definition CreateChangeOutput ::
  "poseidonConstantsRaw \<Rightarrow> (byte list \<Rightarrow> byte list) \<Rightarrow> int \<Rightarrow> byte list \<Rightarrow> SpendingSolutionGroup \<Rightarrow> string \<Rightarrow> string
   \<Rightarrow> (RequestTransactOutput \<times> int \<times> int) option res" where
  "CreateChangeOutput raw keccak walletMasterPublicKey walletViewingPublicKey grp random walletSource =
     andThen (ChangeValue grp) (\<lambda>change.
     if change = 0 then Inr None
     else andThen (NotePublicKey raw walletMasterPublicKey random) (\<lambda>notePublicKey.
       andThen (NoteHashFromTokenData raw keccak notePublicKey (sgTokenData grp) change) (\<lambda>hash.
       Inr (Some (\<lparr>rtReceiverMasterPublicKey = walletMasterPublicKey, rtReceiverViewingPublicKey = walletViewingPublicKey,
         rtRandom = random, rtValue = change, rtTokenData = sgTokenData grp, rtSenderRandom = MemoSenderRandomNull,
         rtOutputType = OutputTypeChange, rtWalletSource = walletSource, rtMemoText = []\<rparr>, notePublicKey, hash)))))"

section \<open>What a fill preserves\<close>

definition valSum :: "int option list \<Rightarrow> int" where
  "valSum vs = (\<Sum>v \<leftarrow> vs. case v of None \<Rightarrow> 0 | Some x \<Rightarrow> x)"

definition groupOut :: "SpendingSolutionGroup \<Rightarrow> int" where
  "groupOut g = valSum (sgUnshieldValue g # map soValue (sgTokenOutputs g))"

definition groupIDs :: "SpendingSolutionGroup list \<Rightarrow> string list" where
  "groupIDs gs = concat (map (\<lambda>g. map utxoIDPosition (sgUTXOs g)) gs)"

lemma valSum_simps [simp]:
  "valSum [] = 0" "valSum (None # vs) = valSum vs" "valSum (Some x # vs) = x + valSum vs"
  "valSum (vs @ ws) = valSum vs + valSum ws"
  by (simp_all add: valSum_def)

lemma groupIDs_snoc [simp]: "groupIDs (gs @ [g]) = groupIDs gs @ map utxoIDPosition (sgUTXOs g)"
  by (simp add: groupIDs_def)

lemma ChangeValue_out:
  "ChangeValue g = (if CalculateTotalSpend (sgUTXOs g) < groupOut g
     then Err ''negative change value - transaction not possible'' else Inr (CalculateTotalSpend (sgUTXOs g) - groupOut g))"
proof -
  have "foldl (\<lambda>total output. case soValue output of None \<Rightarrow> total | Some v \<Rightarrow> total + v) a os = a + valSum (map soValue os)" for a and os :: "SolutionOutput list"
    by (induction os arbitrary: a) (auto simp: valSum_def split: option.splits)
  then show ?thesis by (cases "sgUnshieldValue g") (auto simp: ChangeValue_def groupOut_def Let_def)
qed

text \<open>What a group must satisfy: one to ten inputs of its tree, enough for its outputs.\<close>

definition groupOk :: "TreeBalance list \<Rightarrow> SpendingSolutionGroup \<Rightarrow> bool" where
  "groupOk trees g \<longleftrightarrow> validNullifierCounts (length (sgUTXOs g)) \<and> groupOut g \<le> CalculateTotalSpend (sgUTXOs g) \<and>
     sgSpendingTree g < length trees \<and> set (sgUTXOs g) \<subseteq> set (tbUTXOs (trees ! sgSpendingTree g))"

definition fillInv ::
  "SolutionOutput \<Rightarrow> SolutionOutput list \<Rightarrow> TreeBalance list \<Rightarrow> string list \<Rightarrow> fillState \<Rightarrow> bool" where
  "fillInv primary others trees ex st \<longleftrightarrow>
     (fsAmount st > 0 \<longrightarrow> fsRemaining st = primary\<lparr>soValue := Some (fsAmount st)\<rparr> # others) \<and>
     sum_list (map groupOut (fsGroups st)) + valSum (map soValue (fsRemaining st)) = valSum (map soValue (primary # others)) \<and>
     (\<forall>g \<in> set (fsGroups st). groupOk trees g) \<and>
     fsExcluded st = ex @ groupIDs (fsGroups st) \<and>
     distinct (groupIDs (fsGroups st)) \<and> set (groupIDs (fsGroups st)) \<inter> set ex = {}"

lemma batch_ids:
  assumes "mset us \<subseteq># mset (spendable tb ex)" "distinct (map utxoIDPosition (tbUTXOs tb))"
  shows "distinct (map utxoIDPosition us)" "set (map utxoIDPosition us) \<inter> set ex = {}" "set us \<subseteq> set (tbUTXOs tb)"
proof -
  have "mset (spendable tb ex) \<subseteq># mset (tbUTXOs tb)"
    unfolding spendable_def filterZeroUTXOs_def by (simp add: filter_filter multiset_filter_subset)
  then have "mset us \<subseteq># mset (tbUTXOs tb)" using assms(1) by (rule subset_mset.order_trans [rotated])
  then have m: "mset (map utxoIDPosition us) \<subseteq># mset (map utxoIDPosition (tbUTXOs tb))"
    by (simp add: image_mset_subseteq_mono)
  have "count (mset (map utxoIDPosition us)) x \<le> 1" for x
    using assms(2) mset_subset_eq_count [OF m, of x] by (metis distinct_count_atmost_1 le_trans of_bool_def zero_le_one order_refl)
  then show "distinct (map utxoIDPosition us)"
    by (metis One_nat_def count_mset_0_iff distinct_count_atmost_1 le_Suc_eq le_zero_eq set_mset_mset)
  show "set us \<subseteq> set (tbUTXOs tb)" using set_mset_mono [OF \<open>mset us \<subseteq># mset (tbUTXOs tb)\<close>] by simp
  have "set us \<subseteq> set (spendable tb ex)" using set_mset_mono [OF assms(1)] by simp
  then show "set (map utxoIDPosition us) \<inter> set ex = {}" by (auto simp: spendable_def)
qed

lemma createGroup_simps [simp]:
  "sgUTXOs (createSpendingSolutionGroup p t v us un) = us"
  "sgSpendingTree (createSpendingSolutionGroup p t v us un) = t"
  "groupOut (createSpendingSolutionGroup p t v us un) = v"
  by (simp_all add: createSpendingSolutionGroup_def groupOut_def)

lemma groupOut_add: "groupOut (g\<lparr>sgTokenOutputs := sgTokenOutputs g @ [out]\<rparr>) = groupOut g + valSum [soValue out]"
  by (cases "sgUnshieldValue g") (simp_all add: groupOut_def)

lemma valSum_replace:
  "rem = out # rest \<Longrightarrow> soValue out = Some v \<Longrightarrow> 0 \<le> a \<Longrightarrow>
   valSum (map soValue (replaceOrRemoveRemainingOutput rem a)) = a + valSum (map soValue rest)"
  by (simp add: replaceOrRemoveRemainingOutput_def)

lemma fillBatch_inv:
  assumes inv: "fillInv primary others trees ex st" and amt: "fsAmount st > 0"
    and us: "mset us \<subseteq># mset (spendable (trees ! tree) (fsExcluded st))" "validNullifierCounts (length us)"
    and tree: "tree < length trees" "distinct (map utxoIDPosition (tbUTXOs (trees ! tree)))"
    and nn: "0 \<le> CalculateTotalSpend us"
    and run: "fillBatch un primary (case others of [] \<Rightarrow> None | sec # _ \<Rightarrow> Some sec) tree us st = Inr st'"
  shows "fillInv primary others trees ex st'" "fsAmount st' = fsAmount st - CalculateTotalSpend us"
proof -
  define total where "total = CalculateTotalSpend us"
  define g where "g = createSpendingSolutionGroup primary tree (minBigInt total (fsAmount st)) us un"
  have g: "sgUTXOs g = us" "sgSpendingTree g = tree" "groupOut g = minBigInt total (fsAmount st)" by (simp_all add: g_def)
  have rem: "fsRemaining st = primary\<lparr>soValue := Some (fsAmount st)\<rparr> # others" using inv amt by (simp add: fillInv_def)
  note ids = batch_ids [OF us(1) tree(2)]
  have keep: "groupOk trees h \<Longrightarrow> sgUTXOs h = us \<Longrightarrow>
      sum_list (map groupOut (fsGroups st)) + groupOut h + valSum (map soValue r) = valSum (map soValue (primary # others)) \<Longrightarrow>
      (a > 0 \<longrightarrow> r = primary\<lparr>soValue := Some a\<rparr> # others) \<Longrightarrow>
      fillInv primary others trees ex
        \<lparr>fsAmount = a, fsGroups = fsGroups st @ [h], fsExcluded = fsExcluded st @ map utxoIDPosition us, fsRemaining = r\<rparr>" for h r a
    using inv ids by (auto simp: fillInv_def)
  have ok: "groupOk trees h" if "sgUTXOs h = us" "sgSpendingTree h = tree" "groupOut h \<le> total" for h
    using that us(2) tree(1) ids(3) by (simp add: groupOk_def total_def)
  have sum: "sum_list (map groupOut (fsGroups st)) + fsAmount st + valSum (map soValue others) = valSum (map soValue (primary # others))"
    using inv rem by (simp add: fillInv_def)
  show "fsAmount st' = fsAmount st - CalculateTotalSpend us"
    using run by (auto simp: fillBatch_def Let_def split: if_splits option.splits)
  show "fillInv primary others trees ex st'"
  proof (cases "fsAmount st - total > 0")
    case True
    then have st': "st' = \<lparr>fsAmount = fsAmount st - total, fsGroups = fsGroups st @ [g],
        fsExcluded = fsExcluded st @ map utxoIDPosition us,
        fsRemaining = primary\<lparr>soValue := Some (fsAmount st - total)\<rparr> # others\<rparr>"
      using run rem by (simp add: fillBatch_def Let_def total_def [symmetric] g_def [symmetric] replaceOrRemoveRemainingOutput_def)
    show ?thesis unfolding st'
      by (rule keep [OF ok]) (use True g sum in \<open>simp_all add: minBigInt_def\<close>)
  next
    case False
    then have r: "replaceOrRemoveRemainingOutput (fsRemaining st) (fsAmount st - total) = others"
      by (simp add: rem replaceOrRemoveRemainingOutput_def)
    have go: "groupOut g = fsAmount st" using g False by (simp add: minBigInt_def)
    show ?thesis
    proof (cases "total - fsAmount st > 0 \<and> \<not> un \<and> others \<noteq> []")
      case True
      then obtain sec rest where o: "others = sec # rest" by (cases others) auto
      obtain sv where sv: "soValue sec = Some sv"
        using run True False o by (cases "soValue sec") (auto simp: fillBatch_def Let_def total_def [symmetric])
      define nv where "nv = minBigInt sv (total - fsAmount st)"
      define h where "h = g\<lparr>sgTokenOutputs := sgTokenOutputs g @ [\<lparr>soID = soID sec, soValue = Some nv, soTokenData = soTokenData sec\<rparr>]\<rparr>"
      have st': "st' = \<lparr>fsAmount = fsAmount st - total, fsGroups = fsGroups st @ [h],
          fsExcluded = fsExcluded st @ map utxoIDPosition us,
          fsRemaining = replaceOrRemoveRemainingOutput others (sv - nv)\<rparr>"
        using run True False o sv r by (simp add: fillBatch_def Let_def total_def [symmetric] g_def h_def nv_def)
      have h: "sgUTXOs h = us" "sgSpendingTree h = tree" "groupOut h = fsAmount st + nv"
        unfolding h_def groupOut_add go using g by simp_all
      have "nv \<le> total - fsAmount st" "0 \<le> sv - nv" using True by (auto simp: nv_def minBigInt_def)
      then show ?thesis unfolding st'
        by (intro keep ok) (use h sum valSum_replace [OF o sv] o sv False in auto)
    next
      case no: False
      then have st': "st' = \<lparr>fsAmount = fsAmount st - total, fsGroups = fsGroups st @ [g],
          fsExcluded = fsExcluded st @ map utxoIDPosition us, fsRemaining = others\<rparr>"
        using run False r
        by (auto simp: fillBatch_def Let_def total_def [symmetric] g_def [symmetric] split: list.splits option.splits if_splits)
      show ?thesis unfolding st'
        by (rule keep [OF ok]) (use g go sum False in simp_all)
    qed
  qed
qed

section \<open>The loop over a tree\<close>

text \<open>A tree as the wallet builds it: no negative value, no two UTXOs with one id.\<close>

definition treeOk :: "TreeBalance \<Rightarrow> bool" where
  "treeOk tb \<longleftrightarrow> distinct (map utxoIDPosition (tbUTXOs tb)) \<and>
     (\<forall>u \<in> set (tbUTXOs tb). case stxValue u of None \<Rightarrow> True | Some v \<Rightarrow> 0 \<le> v)"

definition treeIDs :: "TreeBalance \<Rightarrow> string set" where
  "treeIDs tb = utxoIDPosition ` set (tbUTXOs tb)"

lemma treeOk_nonneg:
  assumes "treeOk tb" "set us \<subseteq> set (tbUTXOs tb)"
  shows "0 \<le> CalculateTotalSpend us"
  unfolding CalculateTotalSpend_sum
proof (rule sum_list_nonneg)
  fix x assume "x \<in> set (map (\<lambda>u. case stxValue u of None \<Rightarrow> 0 | Some v \<Rightarrow> v) us)"
  then obtain u where u: "u \<in> set us" "x = (case stxValue u of None \<Rightarrow> 0 | Some v \<Rightarrow> v)" by auto
  then have "case stxValue u of None \<Rightarrow> True | Some v \<Rightarrow> 0 \<le> v" using assms unfolding treeOk_def by blast
  then show "0 \<le> x" using u(2) by (cases "stxValue u") simp_all
qed

text \<open>A batch and what is spendable after it make up what was spendable before it.\<close>

lemma spendable_split:
  assumes "treeOk tb" "mset us \<subseteq># mset (spendable tb ex)"
  shows "CalculateTotalSpend (spendable tb ex) =
     CalculateTotalSpend us + CalculateTotalSpend (spendable tb (ex @ map utxoIDPosition us))"
proof -
  let ?F = "spendable tb ex" and ?id = utxoIDPosition
  have d: "distinct (map ?id (tbUTXOs tb))" using assms(1) by (simp add: treeOk_def)
  have sub: "set us \<subseteq> set ?F" using set_mset_mono [OF assms(2)] by simp
  have dF: "distinct (map ?id ?F)" using d by (auto simp: spendable_def filterZeroUTXOs_def distinct_map intro: inj_on_subset)
  have du: "distinct us" using batch_ids(1) [OF assms(2) d] by (auto simp: distinct_map)
  have "set (filter (\<lambda>u. u \<in> set us) ?F) = set us" using sub by auto
  then have m: "mset (filter (\<lambda>u. u \<in> set us) ?F) = mset us"
    using du dF by (intro iffD1 [OF set_eq_iff_mset_eq_distinct]) (auto simp: distinct_map)
  have "spendable tb (ex @ map ?id us) = filter (\<lambda>u. ?id u \<notin> ?id ` set us) ?F"
    unfolding spendable_def filter_filter by (rule filter_cong) auto
  also have "\<dots> = filter (\<lambda>u. u \<notin> set us) ?F"
    using dF sub by (intro filter_cong refl) (auto simp: distinct_map inj_on_def)
  finally have "mset ?F = mset us + mset (spendable tb (ex @ map ?id us))" using m multiset_partition [of "mset ?F" "\<lambda>u. u \<in> set us"] by simp
  then have "mset (map (\<lambda>u. case stxValue u of None \<Rightarrow> 0 | Some v \<Rightarrow> v) ?F) =
      mset (map (\<lambda>u. case stxValue u of None \<Rightarrow> 0 | Some v \<Rightarrow> v) (us @ spendable tb (ex @ map ?id us)))" by simp
  then show ?thesis unfolding CalculateTotalSpend_sum by (metis map_append sum_list_append sum_mset_sum_list)
qed

lemma validNullifierCounts_iff: "validNullifierCounts n \<longleftrightarrow> 1 \<le> n \<and> n \<le> 10"
  unfolding validNullifierCounts_def by (simp, presburger)

lemma nextNullifierTarget_eq: "nextNullifierTarget n = (if n < 10 then Suc n else 0)"
proof (cases "n < 10")
  case True
  then have "[n + 1..<11] = Suc n # [Suc (Suc n)..<11]" by (simp add: upt_conv_Cons)
  then show ?thesis using True by (simp add: nextNullifierTarget_def validNullifierCounts_iff)
qed (simp add: nextNullifierTarget_def)

lemma selectBatch_length: "length sel \<le> 10 \<Longrightarrow> length (selectBatch r n sel us) \<le> 10"
  by (induction us arbitrary: sel) (auto simp: shouldAddMoreUTXOsForSolutionBatch_def nextNullifierTarget_eq Let_def split: if_splits)

lemma selectBatch_ge: "length sel \<le> length (selectBatch r n sel us)"
  using selectBatch_prefix [of r n sel us] by auto

text \<open>There is a next batch as long as something is spendable.\<close>

lemma findNextSolutionBatch_None:
  assumes "0 < r"
  shows "findNextSolutionBatch tb r ex = None \<longleftrightarrow> spendable tb ex = []"
proof
  assume none: "findNextSolutionBatch tb r ex = None"
  show "spendable tb ex = []"
  proof (rule ccontr)
    let ?F = "spendable tb ex"
    assume ne: "?F \<noteq> []"
    then have bad: "\<not> validNullifierCounts (length (selectBatch r (length ?F) [] (sortUTXOsByAscendingValue ?F)))"
      using none by (auto simp: findNextSolutionBatch_def Let_def split: option.splits if_splits)
    have "sortUTXOsByAscendingValue ?F \<noteq> []" using ne by (metis length_0_conv length_sortBy sortUTXOsByAscendingValue_def)
    then obtain u us where us: "sortUTXOsByAscendingValue ?F = u # us" by (cases "sortUTXOsByAscendingValue ?F") auto
    have "shouldAddMoreUTXOsForSolutionBatch 0 (length ?F) 0 r"
      using assms ne by (simp add: shouldAddMoreUTXOsForSolutionBatch_def nextNullifierTarget_eq Suc_le_eq)
    then have "selectBatch r (length ?F) [] (sortUTXOsByAscendingValue ?F) = selectBatch r (length ?F) [u] us"
      by (simp add: us CalculateTotalSpend_def)
    then show False
      using bad selectBatch_ge [of "[u]" r "length ?F" us] selectBatch_length [of "[u]" r "length ?F" us]
      by (simp add: validNullifierCounts_iff)
  qed
qed (simp add: findNextSolutionBatch_def)

lemma fillTree_spec:
  assumes "tree < length trees" "treeOk (trees ! tree)" "0 < length others \<Longrightarrow> sec = Some (hd others)" "others = [] \<Longrightarrow> sec = None"
  shows "fillTree un primary sec tree (trees ! tree) st = Inr st' \<Longrightarrow> fillInv primary others trees ex st \<Longrightarrow>
    fillInv primary others trees ex st' \<and>
    (\<exists>E. fsExcluded st' = fsExcluded st @ E \<and> set E \<subseteq> treeIDs (trees ! tree)) \<and>
    (fsAmount st' > 0 \<longrightarrow> fsAmount st' = fsAmount st - CalculateTotalSpend (spendable (trees ! tree) (fsExcluded st)))"
proof (induction "length (spendable (trees ! tree) (fsExcluded st))" arbitrary: st rule: less_induct)
  case less
  let ?tb = "trees ! tree"
  have sec: "sec = (case others of [] \<Rightarrow> None | s # _ \<Rightarrow> Some s)" using assms(3,4) by (cases others) auto
  show ?case
  proof (cases "0 < fsAmount st \<and> spendable ?tb (fsExcluded st) \<noteq> []")
    case False
    then have "findNextSolutionBatch ?tb (fsAmount st) (fsExcluded st) = None" if "0 < fsAmount st"
      using that findNextSolutionBatch_None by blast
    then have "st' = st" using less.prems(1)
      by (auto simp: fillTree.simps [of un primary sec tree ?tb st] split: if_splits option.splits)
    then show ?thesis using less.prems(2) False by (auto simp: CalculateTotalSpend_def)
  next
    case True
    then obtain us where us: "findNextSolutionBatch ?tb (fsAmount st) (fsExcluded st) = Some us"
      using findNextSolutionBatch_None by (metis not_Some_eq)
    note sub = findNextSolutionBatch_sub [OF us]
    obtain st1 where st1: "fillBatch un primary sec tree us st = Inr st1" "fillTree un primary sec tree ?tb st1 = Inr st'"
      using less.prems(1) True us by (auto simp: fillTree.simps [of un primary sec tree ?tb st] res_elims)
    have d: "distinct (map utxoIDPosition (tbUTXOs ?tb))" using assms(2) by (simp add: treeOk_def)
    note ids = batch_ids [OF sub(2) d]
    note b = fillBatch_inv [OF less.prems(2) _ sub(2,3) assms(1) d treeOk_nonneg [OF assms(2) ids(3)] st1(1) [unfolded sec]]
    have ex: "fsExcluded st1 = fsExcluded st @ map utxoIDPosition us" by (rule fillBatch_excluded [OF st1(1)])
    have "length (spendable ?tb (fsExcluded st1)) < length (spendable ?tb (fsExcluded st))"
      unfolding ex by (rule spendable_less [OF sub(1,2)])
    note ih = less.hyps [OF this st1(2) b(1)]
    have "set (map utxoIDPosition us) \<subseteq> treeIDs ?tb" using ids(3) by (auto simp: treeIDs_def)
    then show ?thesis
      using ih True b(2) spendable_split [OF assms(2) sub(2)] unfolding ex by fastforce
  qed
qed

lemma fillBatch_total:
  "un \<or> sec = None \<or> (\<exists>s v. sec = Some s \<and> soValue s = Some v) \<Longrightarrow> \<exists>st'. fillBatch un primary sec tree us st = Inr st'"
  by (auto simp: fillBatch_def Let_def)

lemma fillTree_total:
  assumes "un \<or> sec = None \<or> (\<exists>s v. sec = Some s \<and> soValue s = Some v)"
  shows "\<exists>st'. fillTree un primary sec tree tb st = Inr st'"
proof (induction "length (spendable tb (fsExcluded st))" arbitrary: st rule: less_induct)
  case less
  show ?case
  proof (cases "0 < fsAmount st \<and> findNextSolutionBatch tb (fsAmount st) (fsExcluded st) \<noteq> None")
    case False
    then show ?thesis by (auto simp: fillTree.simps [of un primary sec tree tb st] split: option.splits)
  next
    case True
    then obtain us where us: "findNextSolutionBatch tb (fsAmount st) (fsExcluded st) = Some us" by auto
    obtain st1 where st1: "fillBatch un primary sec tree us st = Inr st1" using fillBatch_total [OF assms] by blast
    have "length (spendable tb (fsExcluded st1)) < length (spendable tb (fsExcluded st))"
      unfolding fillBatch_excluded [OF st1] by (rule spendable_less [OF findNextSolutionBatch_sub(1,2) [OF us]])
    then show ?thesis using less.hyps True us st1 by (auto simp: fillTree.simps [of un primary sec tree tb st])
  qed
qed

section \<open>The loop over the trees\<close>

lemma zip_Suc:
  "k < length trees \<Longrightarrow> zip [0..<Suc k] (take (Suc k) trees) = zip [0..<k] (take k trees) @ [(k, trees ! k)]"
  by (simp add: take_Suc_conv_app_nth)

lemma fillTrees_spec:
  assumes ok: "\<forall>tb \<in> set trees. treeOk tb"
    and init: "fillInv primary others trees ex st0" "fsExcluded st0 = ex" "k \<le> length trees"
    and run: "foldRes (\<lambda>(tree, tb). fillTree un primary (case others of [] \<Rightarrow> None | s # _ \<Rightarrow> Some s) tree tb)
      (zip [0..<k] (take k trees)) st0 = Inr st"
  shows "fillInv primary others trees ex st \<and>
    (\<exists>E. fsExcluded st = ex @ E \<and> set E \<subseteq> (\<Union>i < k. treeIDs (trees ! i))) \<and>
    ((\<forall>i j. i < j \<longrightarrow> j < length trees \<longrightarrow> treeIDs (trees ! i) \<inter> treeIDs (trees ! j) = {}) \<longrightarrow> fsAmount st > 0 \<longrightarrow>
       fsAmount st = fsAmount st0 - (\<Sum>i < k. CalculateTotalSpend (spendable (trees ! i) ex)))"
  using init(3) run
proof (induction k arbitrary: st)
  case 0
  then show ?case using init(1,2) by simp
next
  case (Suc k)
  have k: "k < length trees" "treeOk (trees ! k)" using Suc.prems(1) ok by auto
  obtain st1 where st1:
    "foldRes (\<lambda>(tree, tb). fillTree un primary (case others of [] \<Rightarrow> None | s # _ \<Rightarrow> Some s) tree tb)
      (zip [0..<k] (take k trees)) st0 = Inr st1"
    "fillTree un primary (case others of [] \<Rightarrow> None | s # _ \<Rightarrow> Some s) k (trees ! k) st1 = Inr st"
    using Suc.prems(2) by (auto simp: zip_Suc [OF k(1)] foldRes_append res_elims simp del: upt_Suc)
  note ih = Suc.IH [OF less_imp_le [OF k(1)] st1(1)]
  obtain E where E: "fsExcluded st1 = ex @ E" "set E \<subseteq> (\<Union>i < k. treeIDs (trees ! i))" using ih by blast
  have sec: "0 < length others \<Longrightarrow> (case others of [] \<Rightarrow> None | s # _ \<Rightarrow> Some s) = Some (hd others)"
    "others = [] \<Longrightarrow> (case others of [] \<Rightarrow> None | s # _ \<Rightarrow> Some s) = None" by (cases others, simp_all)
  have inv1: "fillInv primary others trees ex st1" using ih by blast
  note step = fillTree_spec [OF k sec st1(2) inv1]
  obtain E' where E': "fsExcluded st = fsExcluded st1 @ E'" "set E' \<subseteq> treeIDs (trees ! k)" using step by blast
  have "set (E @ E') \<subseteq> (\<Union>i < Suc k. treeIDs (trees ! i))"
    using E(2) E'(2) unfolding lessThan_Suc by fastforce
  then have ex: "\<exists>E. fsExcluded st = ex @ E \<and> set E \<subseteq> (\<Union>i < Suc k. treeIDs (trees ! i))"
    using E'(1) E(1) by (metis append_assoc)
  have amount: "fsAmount st = fsAmount st0 - (\<Sum>i < Suc k. CalculateTotalSpend (spendable (trees ! i) ex))"
    if dis: "\<forall>i j. i < j \<longrightarrow> j < length trees \<longrightarrow> treeIDs (trees ! i) \<inter> treeIDs (trees ! j) = {}" and pos: "fsAmount st > 0"
  proof -
    have "utxoIDPosition u \<notin> set E" if "u \<in> set (tbUTXOs (trees ! k))" for u
    proof
      assume "utxoIDPosition u \<in> set E"
      then obtain i where i: "i < k" "utxoIDPosition u \<in> treeIDs (trees ! i)" using E(2) by blast
      moreover have "utxoIDPosition u \<in> treeIDs (trees ! k)" using that by (simp add: treeIDs_def)
      ultimately show False using dis k(1) by blast
    qed
    then have same: "spendable (trees ! k) (fsExcluded st1) = spendable (trees ! k) ex"
      unfolding spendable_def E(1) filterZeroUTXOs_def by (intro filter_cong refl) simp
    have "fsAmount st1 > 0"
    proof (rule ccontr)
      assume "\<not> fsAmount st1 > 0"
      then show False using st1(2) pos by (simp add: fillTree.simps)
    qed
    then have "fsAmount st1 = fsAmount st0 - (\<Sum>i < k. CalculateTotalSpend (spendable (trees ! i) ex))" using ih dis by blast
    moreover have "fsAmount st = fsAmount st1 - CalculateTotalSpend (spendable (trees ! k) ex)" using step pos same by simp
    ultimately show ?thesis by simp
  qed
  show ?case using step ex amount by blast
qed

lemma fillTrees_total:
  assumes "un \<or> sec = None \<or> (\<exists>s v. sec = Some s \<and> soValue s = Some v)"
  shows "\<exists>st'. foldRes (\<lambda>(tree, tb). fillTree un primary sec tree tb) ts st = Inr st'"
proof (induction ts arbitrary: st)
  case (Cons t ts)
  obtain i tb where t: "t = (i, tb)" by fastforce
  obtain st1 where "fillTree un primary sec i tb st = Inr st1" using fillTree_total [OF assms] by blast
  then show ?case using Cons t by simp
qed simp

lemma fillInv_start:
  assumes "soValue primary = Some value"
  shows "fillInv primary others trees ex \<lparr>fsAmount = value, fsGroups = [], fsExcluded = ex, fsRemaining = primary # others\<rparr>"
proof -
  have "primary = primary\<lparr>soValue := Some value\<rparr>" using assms by simp
  then show ?thesis by (simp add: fillInv_def groupIDs_def)
qed

section \<open>The first output\<close>

text \<open>A group gives a value to the first output: as the value to unshield, or in an output that is the
  first one with that value. The last group may also give a value to the second output.\<close>

definition givesFirst :: "bool \<Rightarrow> SolutionOutput \<Rightarrow> SpendingSolutionGroup \<Rightarrow> int \<Rightarrow> bool" where
  "givesFirst isUnshield primary g v \<longleftrightarrow>
     (if isUnshield then sgUnshieldValue g = Some v \<and> sgTokenOutputs g = []
      else sgUnshieldValue g = Some 0 \<and> (\<exists>more. sgTokenOutputs g = primary\<lparr>soValue := Some v\<rparr> # more))"

definition secondAfter :: "bool \<Rightarrow> SolutionOutput list \<Rightarrow> SpendingSolutionGroup list \<Rightarrow> SolutionOutput list \<Rightarrow> bool" where
  "secondAfter isUnshield others groups remaining \<longleftrightarrow> remaining = others \<or>
     (\<not> isUnshield \<and> (\<exists>sec rest sv given. others = sec # rest \<and> soValue sec = Some sv \<and> given \<le> sv \<and>
        tl (sgTokenOutputs (last groups)) = [sec\<lparr>soValue := Some given\<rparr>] \<and>
        remaining = (if given = sv then rest else sec\<lparr>soValue := Some (sv - given)\<rparr> # rest)))"

definition firstInv :: "bool \<Rightarrow> SolutionOutput \<Rightarrow> int \<Rightarrow> SolutionOutput list \<Rightarrow> fillState \<Rightarrow> bool" where
  "firstInv un primary value others st \<longleftrightarrow> (\<exists>vs. list_all2 (givesFirst un primary) (fsGroups st) vs \<and>
     (if fsAmount st > 0 then fsRemaining st = primary\<lparr>soValue := Some (fsAmount st)\<rparr> # others \<and> sum_list vs = value - fsAmount st
      else sum_list vs = value \<and> secondAfter un others (fsGroups st) (fsRemaining st)))"

lemma fillBatch_first:
  assumes inv: "firstInv un primary value others st" and amt: "fsAmount st > 0"
    and run: "fillBatch un primary (case others of [] \<Rightarrow> None | sec # _ \<Rightarrow> Some sec) tree us st = Inr st'"
  shows "firstInv un primary value others st'"
proof -
  define total where "total = CalculateTotalSpend us"
  define given where "given = minBigInt total (fsAmount st)"
  define g where "g = createSpendingSolutionGroup primary tree given us un"
  have g: "givesFirst un primary g given" "un \<or> tl (sgTokenOutputs g) = []"
    by (auto simp: g_def createSpendingSolutionGroup_def givesFirst_def)
  obtain vs where vs: "list_all2 (givesFirst un primary) (fsGroups st) vs" "sum_list vs = value - fsAmount st"
    and rem: "fsRemaining st = primary\<lparr>soValue := Some (fsAmount st)\<rparr> # others"
    using inv amt by (auto simp: firstInv_def)
  have keep: "list_all2 (givesFirst un primary) (fsGroups st @ [h]) (vs @ [given])" if "givesFirst un primary h given" for h
    using vs(1) that by (auto intro: list_all2_appendI)
  show ?thesis
  proof (cases "fsAmount st - total > 0")
    case True
    then have "given = total" by (simp add: given_def minBigInt_def)
    moreover have "fsAmount st' = fsAmount st - total" "fsGroups st' = fsGroups st @ [g]"
        "fsRemaining st' = primary\<lparr>soValue := Some (fsAmount st - total)\<rparr> # others"
      using run True rem
      by (auto simp: fillBatch_def Let_def total_def [symmetric] g_def given_def [symmetric] replaceOrRemoveRemainingOutput_def)
    ultimately show ?thesis using True keep [OF g(1)] vs(2) by (auto simp: firstInv_def intro!: exI [of _ "vs @ [given]"])
  next
    case False
    then have given: "given = fsAmount st" by (simp add: given_def minBigInt_def)
    have r: "replaceOrRemoveRemainingOutput (fsRemaining st) (fsAmount st - total) = others"
      using False by (simp add: rem replaceOrRemoveRemainingOutput_def)
    show ?thesis
    proof (cases "total - fsAmount st > 0 \<and> \<not> un \<and> others \<noteq> []")
      case True
      then obtain sec rest where o: "others = sec # rest" by (cases others) auto
      obtain sv where sv: "soValue sec = Some sv"
        using run True False o by (cases "soValue sec") (auto simp: fillBatch_def Let_def total_def [symmetric])
      define nv where "nv = minBigInt sv (total - fsAmount st)"
      define h where "h = g\<lparr>sgTokenOutputs := sgTokenOutputs g @ [\<lparr>soID = soID sec, soValue = Some nv, soTokenData = soTokenData sec\<rparr>]\<rparr>"
      have st': "fsAmount st' = fsAmount st - total" "fsGroups st' = fsGroups st @ [h]"
          "fsRemaining st' = replaceOrRemoveRemainingOutput others (sv - nv)"
        using run True False o sv r by (auto simp: fillBatch_def Let_def total_def [symmetric] given_def [symmetric] g_def h_def nv_def)
      have h: "givesFirst un primary h given" using g(1) True by (auto simp: h_def givesFirst_def)
      have sec: "tl (sgTokenOutputs h) = [sec\<lparr>soValue := Some nv\<rparr>]" using g True by (auto simp: h_def givesFirst_def)
      have "nv \<le> sv" by (simp add: nv_def minBigInt_def)
      then have "fsRemaining st' = (if nv = sv then rest else sec\<lparr>soValue := Some (sv - nv)\<rparr> # rest)"
        unfolding st'(3) o by (simp add: replaceOrRemoveRemainingOutput_def)
      then have "secondAfter un others (fsGroups st @ [h]) (fsRemaining st')"
        using o sv \<open>nv \<le> sv\<close> sec True unfolding secondAfter_def by auto
      then show ?thesis
        using False keep [OF h] vs(2) given st'(1,2) by (auto simp: firstInv_def intro!: exI [of _ "vs @ [given]"])
    next
      case no: False
      then have "fsAmount st' = fsAmount st - total" "fsGroups st' = fsGroups st @ [g]" "fsRemaining st' = others"
        using run False r
        by (auto simp: fillBatch_def Let_def total_def [symmetric] given_def [symmetric] g_def [symmetric] split: list.splits option.splits if_splits)
      then show ?thesis
        using False keep [OF g(1)] vs(2) given by (auto simp: firstInv_def secondAfter_def intro!: exI [of _ "vs @ [given]"])
    qed
  qed
qed

lemma fillTree_first:
  "fillTree un primary (case others of [] \<Rightarrow> None | sec # _ \<Rightarrow> Some sec) tree tb st = Inr st' \<Longrightarrow> firstInv un primary value others st \<Longrightarrow>
    firstInv un primary value others st'"
proof (induction "length (spendable tb (fsExcluded st))" arbitrary: st rule: less_induct)
  case less
  let ?sec = "case others of [] \<Rightarrow> None | sec # _ \<Rightarrow> Some sec"
  show ?case
  proof (cases "0 < fsAmount st \<and> findNextSolutionBatch tb (fsAmount st) (fsExcluded st) \<noteq> None")
    case False
    then have "st' = st" using less.prems(1) by (auto simp: fillTree.simps [of un primary ?sec tree tb st] split: option.splits)
    then show ?thesis using less.prems(2) by simp
  next
    case True
    then obtain us where us: "findNextSolutionBatch tb (fsAmount st) (fsExcluded st) = Some us" by auto
    obtain st1 where st1: "fillBatch un primary ?sec tree us st = Inr st1" "fillTree un primary ?sec tree tb st1 = Inr st'"
      using less.prems(1) True us by (auto simp: fillTree.simps [of un primary ?sec tree tb st] res_elims)
    have "length (spendable tb (fsExcluded st1)) < length (spendable tb (fsExcluded st))"
      unfolding fillBatch_excluded [OF st1(1)] by (rule spendable_less [OF findNextSolutionBatch_sub(1,2) [OF us]])
    from less.hyps [OF this st1(2) fillBatch_first [OF less.prems(2) _ st1(1)]] show ?thesis using True by simp
  qed
qed

section \<open>Properties\<close>

text \<open>C14: When outputs are filled from trees of UTXOs with
  non-negative values and distinct ids, a success fills a first output of positive value exactly: every group gives a
  part of it (as the value to unshield, or as an output that is the first one with that value), and the parts add up to
  its value. The other outputs remain as they were, except that the last group may also give
  a part of the second output, which then remains with the rest of its value (and is gone when nothing is left). The values
  given to the groups and left in the remaining outputs add up to the values asked for; every
  group spends one to ten UTXOs of its own tree, worth at least its outputs, so that its change
  is non-negative; no UTXO is spent twice or was excluded, and the returned exclusions are the
  given ones followed by the spent ones.\<close>

theorem spending_solutions_conserve:
  assumes "CreateSpendingSolutionsForValue trees (primary # others) excluded isUnshield = Inr (groups, remaining, excluded')"
    and "soValue primary = Some value" "value \<noteq> 0" "\<forall>tb \<in> set trees. treeOk tb"
  shows "(0 < value \<longrightarrow>
      (\<exists>parts. list_all2 (givesFirst isUnshield primary) groups parts \<and> sum_list parts = value) \<and>
      secondAfter isUnshield others groups remaining) \<and>
    sum_list (map groupOut groups) + valSum (map soValue remaining) = valSum (map soValue (primary # others)) \<and>
    (\<forall>g \<in> set groups. 1 \<le> length (sgUTXOs g) \<and> length (sgUTXOs g) \<le> 10 \<and>
       sgSpendingTree g < length trees \<and> set (sgUTXOs g) \<subseteq> set (tbUTXOs (trees ! sgSpendingTree g)) \<and>
       (\<exists>change. ChangeValue g = Inr change \<and> 0 \<le> change)) \<and>
    excluded' = excluded @ groupIDs groups \<and> distinct (groupIDs groups) \<and> set (groupIDs groups) \<inter> set excluded = {}"
proof -
  let ?start = "\<lparr>fsAmount = value, fsGroups = [], fsExcluded = excluded, fsRemaining = primary # others\<rparr>"
  let ?sec = "case others of [] \<Rightarrow> None | s # _ \<Rightarrow> Some s"
  obtain st where st: "foldRes (\<lambda>(tree, tb). fillTree isUnshield primary ?sec tree tb)
      (zip [0..<length trees] (take (length trees) trees)) ?start = Inr st"
    "groups = fsGroups st" "remaining = fsRemaining st" "excluded' = fsExcluded st" "\<not> fsAmount st > 0"
    using assms(1-3) by (auto simp: CreateSpendingSolutionsForValue_def Let_def res_elims split: if_splits)
  have inv: "fillInv primary others trees excluded st"
    using fillTrees_spec [OF assms(4) fillInv_start [OF assms(2)] _ le_refl st(1)] by simp
  have "firstInv isUnshield primary value others st" if "0 < value"
  proof (rule foldRes_invariant [OF st(1), of "firstInv isUnshield primary value others"])
    have "primary = primary\<lparr>soValue := Some value\<rparr>" using assms(2) by simp
    then show "firstInv isUnshield primary value others ?start" using that by (simp add: firstInv_def)
  qed (auto intro: fillTree_first)
  then have "(\<exists>parts. list_all2 (givesFirst isUnshield primary) groups parts \<and> sum_list parts = value) \<and>
      secondAfter isUnshield others groups remaining" if "0 < value"
    using that st(2,3,5) by (auto simp: firstInv_def)
  then show ?thesis using inv unfolding st(2-4) fillInv_def
    by (auto simp: groupOk_def validNullifierCounts_iff ChangeValue_out)
qed

definition sampleToken :: TokenData where
  "sampleToken = \<lparr>TokenAddress = ''aa'', TokenType = 0, TokenSubID = ''0''\<rparr>"

definition sampleTXO :: "string \<Rightarrow> int \<Rightarrow> SolutionTXO" where
  "sampleTXO i v = \<lparr>stxID = i, stxTXID = i, stxTree = 0, stxPosition = 0, stxValue = Some v\<rparr>"

definition sampleTrees :: "TreeBalance list" where
  "sampleTrees = [\<lparr>tbBalance = Some 9, tbUTXOs = [sampleTXO ''a'' 4, sampleTXO ''b'' 5]\<rparr>,
     \<lparr>tbBalance = Some 8, tbUTXOs = [sampleTXO ''c'' 8]\<rparr>]"

definition sampleOutput :: "string \<Rightarrow> int \<Rightarrow> SolutionOutput" where
  "sampleOutput i v = \<lparr>soID = i, soValue = Some v, soTokenData = sampleToken\<rparr>"

lemma sampleTrees_ok: "\<forall>tb \<in> set sampleTrees. treeOk tb"
  by (simp add: sampleTrees_def treeOk_def sampleTXO_def utxoIDPosition_def)

theorem spending_solutions_conserve_witness:
  "\<exists>groups remaining excluded. CreateSpendingSolutionsForValue sampleTrees [sampleOutput ''x'' 12, sampleOutput ''y'' 7] [] False
      = Inr (groups, remaining, excluded) \<and>
    sum_list (map groupOut groups) + valSum (map soValue remaining) = 19"
proof -
  have "case CreateSpendingSolutionsForValue sampleTrees [sampleOutput ''x'' 12, sampleOutput ''y'' 7] [] False of
      Inl _ \<Rightarrow> False | Inr _ \<Rightarrow> True" by code_simp
  then obtain gs rem ex where r: "CreateSpendingSolutionsForValue sampleTrees [sampleOutput ''x'' 12, sampleOutput ''y'' 7] [] False
      = Inr (gs, rem, ex)" by (auto split: sum.splits)
  show ?thesis
    using spending_solutions_conserve [OF r _ _ sampleTrees_ok, of 12] r by (simp add: sampleOutput_def)
qed

text \<open>C22: With a positive first output, ids distinct over all
  trees, and a second output that has a value (or an unshield, which has no second output), the
  fill succeeds whenever the UTXOs that are neither zero nor excluded are worth at least
  the first output.\<close>

theorem spending_solutions_complete:
  assumes "soValue primary = Some value" "0 < value" "\<forall>tb \<in> set trees. treeOk tb"
    and "\<forall>i j. i < j \<longrightarrow> j < length trees \<longrightarrow> treeIDs (trees ! i) \<inter> treeIDs (trees ! j) = {}"
    and "isUnshield \<or> others = [] \<or> (\<exists>v. soValue (hd others) = Some v)"
    and enough: "value \<le> (\<Sum>i < length trees. CalculateTotalSpend (spendable (trees ! i) excluded))"
  shows "\<exists>r. CreateSpendingSolutionsForValue trees (primary # others) excluded isUnshield = Inr r"
proof -
  let ?sec = "case others of [] \<Rightarrow> None | s # _ \<Rightarrow> Some s"
  have "isUnshield \<or> ?sec = None \<or> (\<exists>s v. ?sec = Some s \<and> soValue s = Some v)"
    using assms(5) by (cases others) auto
  from fillTrees_total [OF this]
  obtain st where st: "foldRes (\<lambda>(tree, tb). fillTree isUnshield primary ?sec tree tb)
      (zip [0..<length trees] (take (length trees) trees))
      \<lparr>fsAmount = value, fsGroups = [], fsExcluded = excluded, fsRemaining = primary # others\<rparr> = Inr st" by blast
  have "\<not> fsAmount st > 0"
    using fillTrees_spec [OF assms(3) fillInv_start [OF assms(1)] _ le_refl st] assms(4) enough by auto
  then show ?thesis using st assms(1,2) by (simp add: CreateSpendingSolutionsForValue_def)
qed

theorem spending_solutions_complete_witness:
  "\<exists>r. CreateSpendingSolutionsForValue sampleTrees [sampleOutput ''x'' 17] [] True = Inr r"
proof (rule spending_solutions_complete [OF _ _ sampleTrees_ok])
  show "soValue (sampleOutput ''x'' 17) = Some 17" by (simp add: sampleOutput_def)
  show "\<forall>i j. i < j \<longrightarrow> j < length sampleTrees \<longrightarrow> treeIDs (sampleTrees ! i) \<inter> treeIDs (sampleTrees ! j) = {}"
    by (auto simp: sampleTrees_def treeIDs_def less_Suc_eq sampleTXO_def utxoIDPosition_def nth_Cons split: nat.splits)
  show "17 \<le> (\<Sum>i < length sampleTrees. CalculateTotalSpend (spendable (sampleTrees ! i) []))" by code_simp
qed simp_all

text \<open>C33: A tree whose balance is too low counts as a solution with no
  UTXOs, and a later tree replaces an earlier one: with a first tree that covers the amount and
  a second that does not, the simple selection returns an empty group of the second tree.\<close>

theorem simple_group_overwritten:
  assumes "tbBalance low = Some b" "b < amount"
  shows "CreateSimpleSatisfyingUTXOGroup (trees @ [low]) (Some amount) =
    Inr \<lparr>simUTXOs = [], simSpendingTree = length trees, simAmount = 0\<rparr>"
  using assms by (simp add: CreateSimpleSatisfyingUTXOGroup_def FindExactSolutionsOverTargetValue_def CalculateTotalSpend_def)

theorem simple_group_overwritten_witness:
  "FindExactSolutionsOverTargetValue (sampleTrees ! 0) (Some 9) = Some [sampleTXO ''a'' 4, sampleTXO ''b'' 5] \<and>
   CreateSimpleSatisfyingUTXOGroup sampleTrees (Some 9) = Inr \<lparr>simUTXOs = [], simSpendingTree = 1, simAmount = 0\<rparr>"
proof
  show "FindExactSolutionsOverTargetValue (sampleTrees ! 0) (Some 9) = Some [sampleTXO ''a'' 4, sampleTXO ''b'' 5]" by code_simp
  show "CreateSimpleSatisfyingUTXOGroup sampleTrees (Some 9) = Inr \<lparr>simUTXOs = [], simSpendingTree = 1, simAmount = 0\<rparr>"
    using simple_group_overwritten [of "sampleTrees ! 1" 8 9 "[sampleTrees ! 0]"] by (simp add: sampleTrees_def)
qed

end
