(* ===== verification/Scan.thy ===== *)
theory Scan
  imports Events LeafMap
begin

text \<open>
  Models \<^verbatim>\<open>pkg/events/scanner.go\<close> and \<^verbatim>\<open>pkg/events/checkpoint.go\<close>: the
  chunked scan of a block range, the checkpoint stores, and the scan that continues from a
  checkpoint. The log provider, the block number provider and the decoder of the logs are
  arguments. A handler changes a state \<open>'s\<close>, which an error leaves as it then is.
\<close>

section \<open>scanner.go\<close>

record LogFilter =
  lfAddresses :: "string list"
  lfFromBlock :: uint64
  lfToBlock :: uint64
  lfTopics :: "string list list"

type_synonym logProvider = "ctx \<Rightarrow> LogFilter \<Rightarrow> ContractLog list res"

record ScanRange =
  srAddresses :: "string list"
  srFromBlock :: uint64
  srToBlock :: uint64
  srChunkSize :: uint64

record ScannedLogChunk =
  scFromBlock :: uint64
  scToBlock :: uint64
  scLogs :: nat

text \<open>The last block of the chunk that starts at \<open>from\<close>; the sum wraps at 64 bits.\<close>

definition chunkEnd :: "ScanRange \<Rightarrow> uint64 \<Rightarrow> uint64" where
  "chunkEnd scan start =
     (if srChunkSize scan > 0
      then (let chunkTo = start + srChunkSize scan - 1
            in if chunkTo < start \<or> chunkTo > srToBlock scan then srToBlock scan else chunkTo)
      else srToBlock scan)"

lemma chunkEnd_less:
  assumes "chunkEnd scan start \<noteq> srToBlock scan"
  shows "start \<le> chunkEnd scan start" "chunkEnd scan start < srToBlock scan"
  using assms by (auto simp: chunkEnd_def Let_def split: if_splits)

lemma chunk_measure:
  assumes "chunkEnd scan start \<noteq> srToBlock scan"
  shows "unat (srToBlock scan - (chunkEnd scan start + 1)) < unat (srToBlock scan - start)"
proof -
  note c = chunkEnd_less [OF assms]
  have "uint start \<le> uint (chunkEnd scan start)" "uint (chunkEnd scan start) < uint (srToBlock scan)"
    using c by (simp_all add: word_le_def word_less_def)
  moreover from this have "uint (chunkEnd scan start + 1) = uint (chunkEnd scan start) + 1"
    using uint_bounded [of "srToBlock scan"] by (simp add: uint_word_ariths)
  moreover from calculation have "uint (srToBlock scan - (chunkEnd scan start + 1)) = uint (srToBlock scan) - uint (chunkEnd scan start) - 1"
    "uint (srToBlock scan - start) = uint (srToBlock scan) - uint start"
    by (simp_all add: uint_sub_if')
  ultimately have "uint (srToBlock scan - (chunkEnd scan start + 1)) < uint (srToBlock scan - start)" by linarith
  then have "srToBlock scan - (chunkEnd scan start + 1) < srToBlock scan - start" by (simp add: word_less_def)
  then show ?thesis by (simp add: word_less_nat_alt)
qed

function scanFrom ::
  "ctx \<Rightarrow> logProvider \<Rightarrow> ScanRange \<Rightarrow> string list list \<Rightarrow> (ContractLog list \<Rightarrow> ScannedLogChunk \<Rightarrow> 's \<Rightarrow> 's \<times> gerr option)
   \<Rightarrow> uint64 \<Rightarrow> 's \<Rightarrow> 's \<times> gerr option" where
  "scanFrom ctx provider scan topics handle start s =
     (let stop = chunkEnd scan start in
      case provider ctx \<lparr>lfAddresses = srAddresses scan, lfFromBlock = start, lfToBlock = stop, lfTopics = topics\<rparr> of
        Inl e \<Rightarrow> (s, Some (Wrapf ''filter logs %d-%d: %w'' [ANat (unat start), ANat (unat stop)] e))
      | Inr logs \<Rightarrow>
          (case handle logs \<lparr>scFromBlock = start, scToBlock = stop, scLogs = length logs\<rparr> s of
             (s', Some e) \<Rightarrow> (s', Some (Wrapf ''handle logs %d-%d: %w'' [ANat (unat start), ANat (unat stop)] e))
           | (s', None) \<Rightarrow> if stop = srToBlock scan then (s', None)
               else scanFrom ctx provider scan topics handle (stop + 1) s'))"
  by pat_completeness auto
termination
  by (relation "measure (\<lambda>(_, _, scan, _, _, start, _). unat (srToBlock scan - start))")
    (auto intro: chunk_measure)

declare scanFrom.simps [simp del]

definition scanLogChunks ::
  "ctx \<Rightarrow> logProvider option \<Rightarrow> ScanRange \<Rightarrow> string list list \<Rightarrow> (ContractLog list \<Rightarrow> ScannedLogChunk \<Rightarrow> 's \<Rightarrow> 's \<times> gerr option)
   \<Rightarrow> 's \<Rightarrow> 's \<times> gerr option" where
  "scanLogChunks ctx provider scan topics handle s =
     (case provider of
        None \<Rightarrow> (s, Some (Errorf ''log provider is required'' []))
      | Some p \<Rightarrow>
          if srToBlock scan < srFromBlock scan
          then (s, Some (Errorf ''toBlock must be greater than or equal to fromBlock'' []))
          else scanFrom ctx p scan topics handle (srFromBlock scan) s)"

definition emptyV2AccumulatedEvents :: V2AccumulatedEvents where
  "emptyV2AccumulatedEvents = \<lparr>a2CommitmentEvents = [], a2NullifierEvents = [], a2UnshieldEvents = []\<rparr>"

definition emptyV3AccumulatorEvents :: V3AccumulatorEvents where
  "emptyV3AccumulatorEvents =
     \<lparr>a3CommitmentEvents = [], a3NullifierEvents = [], a3UnshieldEvents = [], a3RailgunTransactionEvents = []\<rparr>"

definition appendV2AccumulatedEvents :: "V2AccumulatedEvents \<Rightarrow> V2AccumulatedEvents \<Rightarrow> V2AccumulatedEvents" where
  "appendV2AccumulatedEvents dst src =
     \<lparr>a2CommitmentEvents = a2CommitmentEvents dst @ a2CommitmentEvents src,
      a2NullifierEvents = a2NullifierEvents dst @ a2NullifierEvents src,
      a2UnshieldEvents = a2UnshieldEvents dst @ a2UnshieldEvents src\<rparr>"

definition appendV3AccumulatorEvents :: "V3AccumulatorEvents \<Rightarrow> V3AccumulatorEvents \<Rightarrow> V3AccumulatorEvents" where
  "appendV3AccumulatorEvents dst src =
     \<lparr>a3CommitmentEvents = a3CommitmentEvents dst @ a3CommitmentEvents src,
      a3NullifierEvents = a3NullifierEvents dst @ a3NullifierEvents src,
      a3UnshieldEvents = a3UnshieldEvents dst @ a3UnshieldEvents src,
      a3RailgunTransactionEvents = a3RailgunTransactionEvents dst @ a3RailgunTransactionEvents src\<rparr>"

text \<open>
  The decoder of the V2 contract: its four topics (\<^verbatim>\<open>loadV2EventTopics\<close>) and
  \<^verbatim>\<open>AccumulateV2Logs\<close>; the decoder of the V3 accumulator likewise.
\<close>

record v2Topics =
  tShield :: string
  tTransact :: string
  tUnshield :: string
  tNullified :: string

definition v2FilterTopics :: "v2Topics res \<Rightarrow> string list res" where
  "v2FilterTopics loadV2EventTopics =
     andThen loadV2EventTopics (\<lambda>topics. Inr [tShield topics, tTransact topics, tUnshield topics, tNullified topics])"

text \<open>The handler that decodes the logs of a chunk first.\<close>

definition decodeThen ::
  "(ContractLog list \<Rightarrow> 'ev res) \<Rightarrow> ('ev \<Rightarrow> ScannedLogChunk \<Rightarrow> 's \<Rightarrow> 's \<times> gerr option)
   \<Rightarrow> ContractLog list \<Rightarrow> ScannedLogChunk \<Rightarrow> 's \<Rightarrow> 's \<times> gerr option" where
  "decodeThen accumulate handle logs chunk s =
     (case accumulate logs of Inl e \<Rightarrow> (s, Some e) | Inr events \<Rightarrow> handle events chunk s)"

definition ScanV2EventChunks ::
  "v2Topics res \<Rightarrow> (ContractLog list \<Rightarrow> V2AccumulatedEvents res) \<Rightarrow> ctx \<Rightarrow> logProvider option \<Rightarrow> ScanRange
   \<Rightarrow> (V2AccumulatedEvents \<Rightarrow> ScannedLogChunk \<Rightarrow> 's \<Rightarrow> 's \<times> gerr option) \<Rightarrow> 's \<Rightarrow> 's \<times> gerr option" where
  "ScanV2EventChunks topics accumulate ctx provider scan handle s =
     (case v2FilterTopics topics of
        Inl e \<Rightarrow> (s, Some e)
      | Inr ts \<Rightarrow> scanLogChunks ctx provider scan [ts]
          (decodeThen accumulate handle) s)"

definition ScanV2Events ::
  "v2Topics res \<Rightarrow> (ContractLog list \<Rightarrow> V2AccumulatedEvents res) \<Rightarrow> ctx \<Rightarrow> logProvider option \<Rightarrow> ScanRange
   \<Rightarrow> V2AccumulatedEvents res" where
  "ScanV2Events topics accumulate ctx provider scan =
     (case ScanV2EventChunks topics accumulate ctx provider scan
             (\<lambda>events _ out. (appendV2AccumulatedEvents out events, None)) emptyV2AccumulatedEvents of
        (_, Some e) \<Rightarrow> Inl e
      | (out, None) \<Rightarrow> Inr out)"

definition ScanV3EventChunks ::
  "string res \<Rightarrow> (ContractLog list \<Rightarrow> V3AccumulatorEvents res) \<Rightarrow> ctx \<Rightarrow> logProvider option \<Rightarrow> ScanRange
   \<Rightarrow> (V3AccumulatorEvents \<Rightarrow> ScannedLogChunk \<Rightarrow> 's \<Rightarrow> 's \<times> gerr option) \<Rightarrow> 's \<Rightarrow> 's \<times> gerr option" where
  "ScanV3EventChunks topic accumulate ctx provider scan handle s =
     (case topic of
        Inl e \<Rightarrow> (s, Some e)
      | Inr t \<Rightarrow> scanLogChunks ctx provider scan [[t]]
          (decodeThen accumulate handle) s)"

definition ScanV3Events ::
  "string res \<Rightarrow> (ContractLog list \<Rightarrow> V3AccumulatorEvents res) \<Rightarrow> ctx \<Rightarrow> logProvider option \<Rightarrow> ScanRange
   \<Rightarrow> V3AccumulatorEvents res" where
  "ScanV3Events topic accumulate ctx provider scan =
     (case ScanV3EventChunks topic accumulate ctx provider scan
             (\<lambda>events _ out. (appendV3AccumulatorEvents out events, None)) emptyV3AccumulatorEvents of
        (_, Some e) \<Rightarrow> Inl e
      | (out, None) \<Rightarrow> Inr out)"

section \<open>checkpoint.go: the stores\<close>

record ScanCheckpoint =
  NextBlock :: uint64

type_synonym checkpoints = "(string, ScanCheckpoint) gomap"
type_synonym MemoryCheckpointStore = "checkpoints option"

abbreviation checkpointStoreRequired :: string where
  "checkpointStoreRequired \<equiv> ''checkpoint store is required''"

definition MemoryCheckpointStore_LoadCheckpoint :: "ctx \<Rightarrow> MemoryCheckpointStore \<Rightarrow> string \<Rightarrow> ScanCheckpoint option res" where
  "MemoryCheckpointStore_LoadCheckpoint ctx store key =
     withCtx ctx (notNil checkpointStoreRequired store (\<lambda>cps. Inr (gget cps key)))"

definition MemoryCheckpointStore_SaveCheckpoint ::
  "ctx \<Rightarrow> MemoryCheckpointStore \<Rightarrow> string \<Rightarrow> ScanCheckpoint \<Rightarrow> MemoryCheckpointStore res" where
  "MemoryCheckpointStore_SaveCheckpoint ctx store key checkpoint =
     withCtx ctx (notNil checkpointStoreRequired store (\<lambda>cps. Inr (Some (gput key checkpoint cps))))"

definition MemoryCheckpointStore_RollbackCheckpoint ::
  "ctx \<Rightarrow> MemoryCheckpointStore \<Rightarrow> string \<Rightarrow> uint64 \<Rightarrow> MemoryCheckpointStore res" where
  "MemoryCheckpointStore_RollbackCheckpoint ctx store key nextBlock =
     withCtx ctx (notNil checkpointStoreRequired store (\<lambda>cps.
     if key = [] then Err ''checkpoint key is required''
     else case gget cps key of
         Some checkpoint \<Rightarrow>
           if nextBlock \<ge> NextBlock checkpoint then Inr (Some cps)
           else Inr (Some (gput key \<lparr>NextBlock = nextBlock\<rparr> cps))
       | None \<Rightarrow> Inr (Some (gput key \<lparr>NextBlock = nextBlock\<rparr> cps))))"

text \<open>The document of the file is the map itself.\<close>

type_synonym FileCheckpointStore = "checkpoints fileStore"

definition FileCheckpointStore_loadAll :: "FileCheckpointStore \<Rightarrow> checkpoints res" where
  "FileCheckpointStore_loadAll store = readFile (fsFile store) [] (\<lambda>cps. Inr cps)"

definition FileCheckpointStore_saveAll :: "saveEnv \<Rightarrow> FileCheckpointStore \<Rightarrow> checkpoints \<Rightarrow> FileCheckpointStore res" where
  "FileCheckpointStore_saveAll env store cps =
     andThen (writeFile env cps) (\<lambda>f. Inr (store\<lparr>fsFile := f\<rparr>))"

definition FileCheckpointStore_LoadCheckpoint :: "ctx \<Rightarrow> FileCheckpointStore \<Rightarrow> string \<Rightarrow> ScanCheckpoint option res" where
  "FileCheckpointStore_LoadCheckpoint ctx store key =
     withCtx ctx (if Path store = [] then Err ''checkpoint file path is required''
     else andThen (FileCheckpointStore_loadAll store) (\<lambda>cps. Inr (gget cps key)))"

definition FileCheckpointStore_SaveCheckpoint ::
  "saveEnv \<Rightarrow> ctx \<Rightarrow> FileCheckpointStore \<Rightarrow> string \<Rightarrow> ScanCheckpoint \<Rightarrow> FileCheckpointStore res" where
  "FileCheckpointStore_SaveCheckpoint env ctx store key checkpoint =
     withCtx ctx (if Path store = [] then Err ''checkpoint file path is required''
     else andThen (FileCheckpointStore_loadAll store) (\<lambda>cps. FileCheckpointStore_saveAll env store (gput key checkpoint cps)))"

definition FileCheckpointStore_RollbackCheckpoint ::
  "saveEnv \<Rightarrow> ctx \<Rightarrow> FileCheckpointStore \<Rightarrow> string \<Rightarrow> uint64 \<Rightarrow> FileCheckpointStore res" where
  "FileCheckpointStore_RollbackCheckpoint env ctx store key nextBlock =
     withCtx ctx (if Path store = [] then Err ''checkpoint file path is required''
     else if key = [] then Err ''checkpoint key is required''
     else andThen (FileCheckpointStore_loadAll store) (\<lambda>cps.
       case gget cps key of
         Some checkpoint \<Rightarrow>
           if nextBlock \<ge> NextBlock checkpoint then Inr store
           else FileCheckpointStore_saveAll env store (gput key \<lparr>NextBlock = nextBlock\<rparr> cps)
       | None \<Rightarrow> FileCheckpointStore_saveAll env store (gput key \<lparr>NextBlock = nextBlock\<rparr> cps)))"

text \<open>The interface \<^verbatim>\<open>CheckpointStore\<close>, with the rollback that some stores offer.\<close>

record 's checkpointIface =
  LoadCheckpoint :: "ctx \<Rightarrow> 's \<Rightarrow> string \<Rightarrow> ScanCheckpoint option res"
  SaveCheckpoint :: "ctx \<Rightarrow> 's \<Rightarrow> string \<Rightarrow> ScanCheckpoint \<Rightarrow> 's res"
  RollbackCheckpoint :: "(ctx \<Rightarrow> 's \<Rightarrow> string \<Rightarrow> uint64 \<Rightarrow> 's res) option"

definition RollbackScanCheckpoint :: "ctx \<Rightarrow> 's checkpointIface option \<Rightarrow> 's \<Rightarrow> string \<Rightarrow> uint64 \<Rightarrow> 's res" where
  "RollbackScanCheckpoint ctx store s key nextBlock =
     notNil checkpointStoreRequired store (\<lambda>iface.
     case RollbackCheckpoint iface of
       Some rollback \<Rightarrow> rollback ctx s key nextBlock
     | None \<Rightarrow>
         if key = [] then Err ''checkpoint key is required''
         else andThen (LoadCheckpoint iface ctx s key) (\<lambda>found.
           case found of
             Some checkpoint \<Rightarrow>
               if nextBlock \<ge> NextBlock checkpoint then Inr s
               else SaveCheckpoint iface ctx s key \<lparr>NextBlock = nextBlock\<rparr>
           | None \<Rightarrow> SaveCheckpoint iface ctx s key \<lparr>NextBlock = nextBlock\<rparr>))"

section \<open>checkpoint.go: scans from a checkpoint\<close>

record CheckpointedScan =
  csKey :: string
  csAddresses :: "string list"
  csStartBlock :: uint64
  csChunkSize :: uint64
  csConfirmations :: uint64

record checkpointedProvider =
  FilterLogs :: logProvider
  BlockNumber :: "ctx \<Rightarrow> uint64 res"

definition checkpointStartBlock :: "ctx \<Rightarrow> 's checkpointIface option \<Rightarrow> 's \<Rightarrow> CheckpointedScan \<Rightarrow> uint64 res" where
  "checkpointStartBlock ctx store s scan =
     notNil checkpointStoreRequired store (\<lambda>iface.
     if csKey scan = [] then Err ''checkpoint key is required''
     else andThen (LoadCheckpoint iface ctx s (csKey scan)) (\<lambda>found.
       Inr (case found of Some checkpoint \<Rightarrow> NextBlock checkpoint | None \<Rightarrow> csStartBlock scan)))"

definition finalizedToBlock :: "ctx \<Rightarrow> checkpointedProvider option \<Rightarrow> uint64 \<Rightarrow> uint64 option res" where
  "finalizedToBlock ctx provider confirmations =
     notNil ''block number provider is required'' provider (\<lambda>p.
     andThen (BlockNumber p ctx) (\<lambda>latest.
     Inr (if latest < confirmations then None else Some (latest - confirmations))))"

text \<open>
  The two scans from a checkpoint differ in the events only. The result is the store left
  behind, the events and the checkpoint.
\<close>

definition scanFromCheckpoint ::
  "(ScanRange \<Rightarrow> 'ev res) \<Rightarrow> 'ev \<Rightarrow> ctx \<Rightarrow> checkpointedProvider option \<Rightarrow> 's checkpointIface option \<Rightarrow> 's
   \<Rightarrow> CheckpointedScan \<Rightarrow> ('s \<times> 'ev \<times> ScanCheckpoint) res" where
  "scanFromCheckpoint scanEvents empt ctx provider store s scan =
     andThen (checkpointStartBlock ctx store s scan) (\<lambda>start.
     andThen (finalizedToBlock ctx provider (csConfirmations scan)) (\<lambda>final.
     case final of
       None \<Rightarrow> Inr (s, empt, \<lparr>NextBlock = start\<rparr>)
     | Some stop \<Rightarrow>
         if stop < start then Inr (s, empt, \<lparr>NextBlock = start\<rparr>)
         else andThen (scanEvents \<lparr>srAddresses = csAddresses scan, srFromBlock = start, srToBlock = stop, srChunkSize = csChunkSize scan\<rparr>) (\<lambda>out.
           notNil checkpointStoreRequired store (\<lambda>iface.
           andThen (SaveCheckpoint iface ctx s (csKey scan) \<lparr>NextBlock = stop + 1\<rparr>) (\<lambda>s'.
           Inr (s', out, \<lparr>NextBlock = stop + 1\<rparr>))))))"

definition ScanV2EventsFromCheckpoint where
  "ScanV2EventsFromCheckpoint topics accumulate ctx provider store s scan =
     scanFromCheckpoint (ScanV2Events topics accumulate ctx (map_option FilterLogs provider))
       emptyV2AccumulatedEvents ctx provider store s scan"

definition ScanV3EventsFromCheckpoint where
  "ScanV3EventsFromCheckpoint topic accumulate ctx provider store s scan =
     scanFromCheckpoint (ScanV3Events topic accumulate ctx (map_option FilterLogs provider))
       emptyV3AccumulatorEvents ctx provider store s scan"

section \<open>Blocks of a scan\<close>

lemma block_succ: "a < (b :: uint64) \<Longrightarrow> uint (a + 1) = uint a + 1"
  using uint_bounded [of b] by (simp add: word_less_def uint_word_ariths)

text \<open>The provider's contract: the logs of a range are those of its parts, in order.\<close>

definition rangeAdditive :: "ctx \<Rightarrow> logProvider \<Rightarrow> bool" where
  "rangeAdditive ctx provider \<longleftrightarrow>
     (\<forall>f a b c. a \<le> b \<longrightarrow> b < c \<longrightarrow>
        provider ctx (f\<lparr>lfFromBlock := a, lfToBlock := c\<rparr>) =
        andThen (provider ctx (f\<lparr>lfFromBlock := a, lfToBlock := b\<rparr>)) (\<lambda>x.
        andThen (provider ctx (f\<lparr>lfFromBlock := b + 1, lfToBlock := c\<rparr>)) (\<lambda>y. Inr (x @ y))))"

text \<open>What a decoder of logs must satisfy: it works log by log.\<close>

locale accumulator =
  fixes accumulate :: "ContractLog list \<Rightarrow> 'ev res" and empt :: 'ev and append :: "'ev \<Rightarrow> 'ev \<Rightarrow> 'ev"
  assumes append_assoc: "append (append x y) z = append x (append y z)"
    and append_empt: "append empt x = x"
    and accumulate_append: "accumulate (a @ b) = Inr z \<longleftrightarrow>
      (\<exists>x y. accumulate a = Inr x \<and> accumulate b = Inr y \<and> z = append x y)"
begin

abbreviation wholeFilter :: "ScanRange \<Rightarrow> string list list \<Rightarrow> uint64 \<Rightarrow> uint64 \<Rightarrow> LogFilter" where
  "wholeFilter scan topics a b \<equiv> \<lparr>lfAddresses = srAddresses scan, lfFromBlock = a, lfToBlock = b, lfTopics = topics\<rparr>"

abbreviation gather :: "ContractLog list \<Rightarrow> ScannedLogChunk \<Rightarrow> 'ev \<Rightarrow> 'ev \<times> gerr option" where
  "gather \<equiv> decodeThen accumulate (\<lambda>e _ s. (append s e, None))"

lemma scanFrom_whole:
  assumes add: "rangeAdditive ctx provider" and le: "start \<le> srToBlock scan"
  shows "scanFrom ctx provider scan topics gather start s = (s', None) \<longleftrightarrow>
    (\<exists>logs ev. provider ctx (wholeFilter scan topics start (srToBlock scan)) = Inr logs \<and>
       accumulate logs = Inr ev \<and> s' = append s ev)"
  using le
proof (induction "unat (srToBlock scan - start)" arbitrary: start s rule: less_induct)
  case less
  let ?f = "wholeFilter scan topics" and ?stop = "chunkEnd scan start"
  have step: "scanFrom ctx provider scan topics gather start s = (s', None) \<longleftrightarrow>
      (\<exists>x ex. provider ctx (?f start ?stop) = Inr x \<and> accumulate x = Inr ex \<and>
         (if ?stop = srToBlock scan then s' = append s ex
          else scanFrom ctx provider scan topics gather (?stop + 1) (append s ex) = (s', None)))"
    by (subst scanFrom.simps) (auto simp: Let_def decodeThen_def res_elims split: sum.splits)
  show ?case
  proof (cases "?stop = srToBlock scan")
    case True
    then show ?thesis unfolding step by auto
  next
    case False
    note c = chunkEnd_less [OF False]
    have "?stop + 1 \<le> srToBlock scan" using block_succ [OF c(2)] c(2) by (simp add: word_le_def word_less_def)
    note ih = less.hyps [OF chunk_measure [OF False] this]
    have whole: "provider ctx (?f start (srToBlock scan)) = andThen (provider ctx (?f start ?stop)) (\<lambda>x.
        andThen (provider ctx (?f (?stop + 1) (srToBlock scan))) (\<lambda>y. Inr (x @ y)))"
      using add [unfolded rangeAdditive_def, rule_format, OF c, of "?f start ?stop"] by simp
    have "(\<exists>logs ev. provider ctx (?f start (srToBlock scan)) = Inr logs \<and> accumulate logs = Inr ev \<and> s' = append s ev) \<longleftrightarrow>
        (\<exists>x ex y ey. provider ctx (?f start ?stop) = Inr x \<and> accumulate x = Inr ex \<and>
           provider ctx (?f (?stop + 1) (srToBlock scan)) = Inr y \<and> accumulate y = Inr ey \<and> s' = append s (append ex ey))"
      unfolding whole andThen_Inr by (auto simp: accumulate_append)
    then show ?thesis unfolding step ih using False by (simp add: append_assoc)
  qed
qed

text \<open>A scan by chunks finds what one request for the whole range finds.\<close>

lemma scanLogChunks_whole:
  assumes "rangeAdditive ctx provider" "srFromBlock scan \<le> srToBlock scan"
  shows "scanLogChunks ctx (Some provider) scan topics gather empt = (s', None) \<longleftrightarrow>
    (\<exists>logs. provider ctx (wholeFilter scan topics (srFromBlock scan) (srToBlock scan)) = Inr logs \<and> accumulate logs = Inr s')"
  using scanFrom_whole [OF assms, of topics empt s'] assms(2) by (auto simp: scanLogChunks_def append_empt)

end

section \<open>The checkpoint store interface\<close>

text \<open>What the scans rely on: a save is a point update, and a rollback only lowers.\<close>

definition loweredTo :: "ScanCheckpoint option \<Rightarrow> uint64 \<Rightarrow> ScanCheckpoint" where
  "loweredTo found n = (case found of None \<Rightarrow> \<lparr>NextBlock = n\<rparr> | Some c \<Rightarrow> \<lparr>NextBlock = min n (NextBlock c)\<rparr>)"

locale checkpoint_store =
  fixes valid :: "'s \<Rightarrow> bool" and iface :: "'s checkpointIface"
  assumes load_total: "valid s \<Longrightarrow> \<exists>c. LoadCheckpoint iface None s k = Inr c"
    and save_valid: "valid s \<Longrightarrow> SaveCheckpoint iface None s k c = Inr s' \<Longrightarrow> valid s'"
    and save_load: "valid s \<Longrightarrow> SaveCheckpoint iface None s k c = Inr s' \<Longrightarrow>
      LoadCheckpoint iface None s' k' = (if k' = k then Inr (Some c) else LoadCheckpoint iface None s k')"
    and rollback_load: "valid s \<Longrightarrow> RollbackCheckpoint iface = Some r \<Longrightarrow> r None s k n = Inr s' \<Longrightarrow>
      valid s' \<and> LoadCheckpoint iface None s' k' =
        (if k' = k then andThen (LoadCheckpoint iface None s k) (\<lambda>found. Inr (Some (loweredTo found n)))
         else LoadCheckpoint iface None s k')"
begin

lemma rollback_scan:
  assumes "valid s" "RollbackScanCheckpoint None (Some iface) s k n = Inr s'"
  shows "valid s' \<and> LoadCheckpoint iface None s' k' =
        (if k' = k then andThen (LoadCheckpoint iface None s k) (\<lambda>found. Inr (Some (loweredTo found n)))
         else LoadCheckpoint iface None s k')"
proof (cases "RollbackCheckpoint iface")
  case (Some r)
  then show ?thesis using assms rollback_load [OF assms(1) Some] by (simp add: RollbackScanCheckpoint_def)
next
  case None
  obtain found where f: "LoadCheckpoint iface None s k = Inr found" using load_total assms(1) by blast
  show ?thesis
  proof (cases "\<exists>c. found = Some c \<and> n \<ge> NextBlock c")
    case True
    then obtain c where "found = Some c" "NextBlock c \<le> n" by blast
    then show ?thesis using assms None f
      by (auto simp: RollbackScanCheckpoint_def loweredTo_def min_def split: if_splits)
  next
    case False
    then have "SaveCheckpoint iface None s k (loweredTo found n) = Inr s'"
      using assms(2) None f by (auto simp: RollbackScanCheckpoint_def loweredTo_def min_def split: option.splits if_splits)
    then show ?thesis using save_valid [OF assms(1)] save_load [OF assms(1)] f by auto
  qed
qed

end

definition memoryCheckpointIface :: "MemoryCheckpointStore checkpointIface" where
  "memoryCheckpointIface = \<lparr>LoadCheckpoint = MemoryCheckpointStore_LoadCheckpoint,
     SaveCheckpoint = MemoryCheckpointStore_SaveCheckpoint, RollbackCheckpoint = Some MemoryCheckpointStore_RollbackCheckpoint\<rparr>"

definition fileCheckpointIface :: "saveEnv \<Rightarrow> FileCheckpointStore checkpointIface" where
  "fileCheckpointIface env = \<lparr>LoadCheckpoint = FileCheckpointStore_LoadCheckpoint,
     SaveCheckpoint = FileCheckpointStore_SaveCheckpoint env, RollbackCheckpoint = Some (FileCheckpointStore_RollbackCheckpoint env)\<rparr>"

definition memCheckpointOk :: "MemoryCheckpointStore \<Rightarrow> bool" where
  "memCheckpointOk s \<longleftrightarrow> s \<noteq> None"

definition fileCheckpointOk :: "FileCheckpointStore \<Rightarrow> bool" where
  "fileCheckpointOk s \<longleftrightarrow> Path s \<noteq> [] \<and> (case fsFile s of FileReadError _ \<Rightarrow> False | FileGarbled _ \<Rightarrow> False | _ \<Rightarrow> True)"

interpretation mem_cp: checkpoint_store memCheckpointOk memoryCheckpointIface
proof (unfold_locales, goal_cases)
  case (4 s r k n s' k')
  then obtain cps where "s = Some cps" by (auto simp: memCheckpointOk_def)
  then show ?case using 4
    by (auto simp: memoryCheckpointIface_def memCheckpointOk_def MemoryCheckpointStore_RollbackCheckpoint_def
        MemoryCheckpointStore_LoadCheckpoint_def loweredTo_def gomap_simps min_def split: if_splits option.splits)
qed (auto simp: memoryCheckpointIface_def memCheckpointOk_def MemoryCheckpointStore_LoadCheckpoint_def
    MemoryCheckpointStore_SaveCheckpoint_def gomap_simps)

definition onFile :: "FileCheckpointStore \<Rightarrow> checkpoints" where
  "onFile s = (case fsFile s of FileDoc cps \<Rightarrow> cps | _ \<Rightarrow> [])"

lemma fileCheckpoint_loadAll: "fileCheckpointOk s \<Longrightarrow> FileCheckpointStore_loadAll s = Inr (onFile s)"
  by (auto simp: fileCheckpointOk_def FileCheckpointStore_loadAll_def readFile_def onFile_def split: jsonfile.splits)

lemma fileCheckpoint_saveAll:
  "fileCheckpointOk s \<Longrightarrow> FileCheckpointStore_saveAll env s cps = Inr s' \<Longrightarrow> fileCheckpointOk s' \<and> onFile s' = cps"
  by (auto simp: FileCheckpointStore_saveAll_def res_elims fileCheckpointOk_def onFile_def)

lemma fileCheckpoint_load: "fileCheckpointOk s \<Longrightarrow> FileCheckpointStore_LoadCheckpoint None s k = Inr (gget (onFile s) k)"
  using fileCheckpoint_loadAll by (auto simp: FileCheckpointStore_LoadCheckpoint_def fileCheckpointOk_def)

interpretation file_cp: checkpoint_store fileCheckpointOk "fileCheckpointIface env" for env
proof (unfold_locales, unfold fileCheckpointIface_def checkpointIface.simps, goal_cases)
  case (1 s k)
  then show ?case by (simp add: fileCheckpoint_load)
next
  case (2 s k c s')
  then show ?case using fileCheckpoint_saveAll by (auto simp: FileCheckpointStore_SaveCheckpoint_def res_elims)
next
  case (3 s k c s' k')
  then have "fileCheckpointOk s' \<and> onFile s' = gput k c (onFile s)"
    using fileCheckpoint_saveAll fileCheckpoint_loadAll by (auto simp: FileCheckpointStore_SaveCheckpoint_def res_elims)
  then show ?case using 3 by (simp add: fileCheckpoint_load gomap_simps)
next
  case (4 s r k n s' k')
  then have r: "FileCheckpointStore_RollbackCheckpoint env None s k n = Inr s'" by simp
  show ?case
  proof (cases "\<exists>c. gget (onFile s) k = Some c \<and> n \<ge> NextBlock c")
    case True
    then have "s' = s" using r fileCheckpoint_loadAll [OF 4(1)]
      by (auto simp: FileCheckpointStore_RollbackCheckpoint_def split: if_splits)
    then show ?thesis using True 4(1) by (auto simp: fileCheckpoint_load loweredTo_def min_def)
  next
    case False
    then have "FileCheckpointStore_saveAll env s (gput k (loweredTo (gget (onFile s) k) n) (onFile s)) = Inr s'"
      using r fileCheckpoint_loadAll [OF 4(1)]
      by (auto simp: FileCheckpointStore_RollbackCheckpoint_def loweredTo_def min_def split: if_splits option.splits)
    from fileCheckpoint_saveAll [OF 4(1) this] show ?thesis using 4(1) by (simp add: fileCheckpoint_load gomap_simps)
  qed
qed

section \<open>The chunks of a scan\<close>

lemma chunkEnd_size:
  assumes "start \<le> srToBlock scan" "0 < srChunkSize scan"
  shows "uint (chunkEnd scan start) - uint start < uint (srChunkSize scan)"
proof -
  have cs: "1 \<le> uint (srChunkSize scan)" using assms(2) by (simp add: word_less_def)
  have to: "uint (srToBlock scan) < 2 ^ 64" using uint_bounded [of "srToBlock scan"] by simp
  show ?thesis
  proof (cases "uint start + uint (srChunkSize scan) - 1 < 2 ^ 64")
    case True
    have "0 \<le> uint start + (uint (srChunkSize scan) - 1)" using cs by simp
    moreover have "uint (start + srChunkSize scan - 1) = (uint start + uint (srChunkSize scan) - 1) mod 2 ^ 64"
      by (simp add: uint_word_ariths mod_simps)
    ultimately have "uint (start + srChunkSize scan - 1) = uint start + uint (srChunkSize scan) - 1" using True by simp
    then show ?thesis using cs assms(2)
      by (auto simp: chunkEnd_def Let_def word_less_def)
  next
    case False
    have "uint (chunkEnd scan start) < 2 ^ 64" using uint_bounded [of "chunkEnd scan start"] by simp
    then show ?thesis using False by linarith
  qed
qed

lemma chunkEnd_ge: "start \<le> srToBlock scan \<Longrightarrow> start \<le> chunkEnd scan start"
  using chunkEnd_less(1) [of scan start] by (cases "chunkEnd scan start = srToBlock scan") auto

lemma upto_split: "(a :: int) \<le> b \<Longrightarrow> b < c \<Longrightarrow> [a..b] @ [b + 1..c] = [a..c]"
  using upto_split1 [of a "b + 1" c] by simp

text \<open>The logs of a chunk are the provider's answer to the filter with the addresses and topics of the scan
  and the first and last block of the chunk, which is not larger than asked.\<close>

definition chunkAnswered :: "ctx \<Rightarrow> logProvider \<Rightarrow> ScanRange \<Rightarrow> string list list \<Rightarrow> ContractLog list \<times> ScannedLogChunk \<Rightarrow> bool" where
  "chunkAnswered ctx provider scan topics = (\<lambda>(logs, c).
     provider ctx \<lparr>lfAddresses = srAddresses scan, lfFromBlock = scFromBlock c, lfToBlock = scToBlock c, lfTopics = topics\<rparr> = Inr logs \<and>
     scLogs c = length logs \<and> scFromBlock c \<le> scToBlock c \<and>
     (0 < srChunkSize scan \<longrightarrow> uint (scToBlock c) - uint (scFromBlock c) < uint (srChunkSize scan)))"

abbreviation collectChunk :: "ContractLog list \<Rightarrow> ScannedLogChunk \<Rightarrow> (ContractLog list \<times> ScannedLogChunk) list
    \<Rightarrow> (ContractLog list \<times> ScannedLogChunk) list \<times> gerr option" where
  "collectChunk logs chunk cs \<equiv> (cs @ [(logs, chunk)], None)"

lemma scanFrom_tiles:
  assumes answers: "\<And>a b. srFromBlock scan \<le> a \<Longrightarrow> a \<le> b \<Longrightarrow> b \<le> srToBlock scan \<Longrightarrow>
      \<exists>logs. provider ctx \<lparr>lfAddresses = srAddresses scan, lfFromBlock = a, lfToBlock = b, lfTopics = topics\<rparr> = Inr logs"
    and "srFromBlock scan \<le> start" "start \<le> srToBlock scan"
  shows "\<exists>chunks. scanFrom ctx provider scan topics collectChunk start cs = (cs @ chunks, None) \<and>
    concat (map (\<lambda>(_, c). [uint (scFromBlock c)..uint (scToBlock c)]) chunks) = [uint start..uint (srToBlock scan)] \<and>
    list_all (chunkAnswered ctx provider scan topics) chunks"
  using assms(2,3)
proof (induction "unat (srToBlock scan - start)" arbitrary: start cs rule: less_induct)
  case less
  let ?stop = "chunkEnd scan start"
  have stop: "start \<le> ?stop" "?stop \<le> srToBlock scan"
    by (rule chunkEnd_ge [OF less.prems(2)]) (metis chunkEnd_less(2) order_less_imp_le order_refl)
  obtain logs where l: "provider ctx \<lparr>lfAddresses = srAddresses scan, lfFromBlock = start, lfToBlock = ?stop, lfTopics = topics\<rparr> = Inr logs"
    using answers [OF less.prems(1) stop] by blast
  define chunk where "chunk = (logs, \<lparr>scFromBlock = start, scToBlock = ?stop, scLogs = length logs\<rparr>)"
  have ok: "chunkAnswered ctx provider scan topics chunk"
    using l stop(1) chunkEnd_size [OF less.prems(2)] by (simp add: chunk_def chunkAnswered_def)
  have run: "scanFrom ctx provider scan topics collectChunk start cs =
      (if ?stop = srToBlock scan then (cs @ [chunk], None)
       else scanFrom ctx provider scan topics collectChunk (?stop + 1) (cs @ [chunk]))"
    using l by (subst scanFrom.simps) (simp add: Let_def chunk_def)
  show ?case
  proof (cases "?stop = srToBlock scan")
    case True
    then show ?thesis using run ok by (intro exI [of _ "[chunk]"]) (simp add: chunk_def)
  next
    case False
    note c = chunkEnd_less [OF False]
    have nx: "uint (?stop + 1) = uint ?stop + 1" by (rule block_succ [OF c(2)])
    have le: "srFromBlock scan \<le> ?stop + 1" "?stop + 1 \<le> srToBlock scan"
      using nx c less.prems(1) by (simp_all add: word_le_def word_less_def)
    obtain chunks where ih: "scanFrom ctx provider scan topics collectChunk (?stop + 1) (cs @ [chunk]) = ((cs @ [chunk]) @ chunks, None)"
      "concat (map (\<lambda>(_, c). [uint (scFromBlock c)..uint (scToBlock c)]) chunks) = [uint ?stop + 1..uint (srToBlock scan)]"
      "list_all (chunkAnswered ctx provider scan topics) chunks"
      using less.hyps [OF chunk_measure [OF False] le, of "cs @ [chunk]"] unfolding nx by blast
    have "[uint start..uint ?stop] @ [uint ?stop + 1..uint (srToBlock scan)] = [uint start..uint (srToBlock scan)]"
      using c by (intro upto_split) (simp_all add: word_le_def word_less_def)
    then show ?thesis using run False ih ok by (intro exI [of _ "chunk # chunks"]) (simp add: chunk_def)
  qed
qed

section \<open>Properties\<close>

text \<open>C21: A chunked scan with a provider that answers the filters within the range sends the
  provider one filter per chunk, with the addresses and topics of the scan and from the first to the last block
  of the chunk, and hands the logs of that answer to the handler. The chunks hold the blocks from the
  first to the last exactly once and in order, each at most the chunk size (a size
  of zero asks for everything at once), and the scan ends, also when a chunk would end past the last
  64-bit block number.\<close>

theorem scan_tiles_range:
  assumes "\<And>a b. srFromBlock scan \<le> a \<Longrightarrow> a \<le> b \<Longrightarrow> b \<le> srToBlock scan \<Longrightarrow>
      \<exists>logs. provider ctx \<lparr>lfAddresses = srAddresses scan, lfFromBlock = a, lfToBlock = b, lfTopics = topics\<rparr> = Inr logs"
    and "srFromBlock scan \<le> srToBlock scan"
  shows "\<exists>chunks. scanLogChunks ctx (Some provider) scan topics (\<lambda>logs chunk cs. (cs @ [(logs, chunk)], None)) [] = (chunks, None) \<and>
    concat (map (\<lambda>(_, c). [uint (scFromBlock c)..uint (scToBlock c)]) chunks) = [uint (srFromBlock scan)..uint (srToBlock scan)] \<and>
    (\<forall>(logs, c) \<in> set chunks.
       provider ctx \<lparr>lfAddresses = srAddresses scan, lfFromBlock = scFromBlock c, lfToBlock = scToBlock c, lfTopics = topics\<rparr> = Inr logs \<and>
       scLogs c = length logs \<and> scFromBlock c \<le> scToBlock c \<and>
       (0 < srChunkSize scan \<longrightarrow> uint (scToBlock c) - uint (scFromBlock c) < uint (srChunkSize scan)))"
  using scanFrom_tiles [where provider = provider and ctx = ctx and scan = scan and start = "srFromBlock scan"
      and cs = "[]" and topics = topics] assms
  by (simp add: scanLogChunks_def list_all_iff chunkAnswered_def)

theorem scan_tiles_range_witness:
  "\<exists>chunks. scanLogChunks None (Some (\<lambda>_ f. if lfFromBlock f < 18446744073709551610 then Inl (Errorf [] []) else Inr [])) \<lparr>srAddresses = [], srFromBlock = 18446744073709551610,
      srToBlock = 18446744073709551615, srChunkSize = 4\<rparr> [] (\<lambda>logs chunk cs. (cs @ [(logs, chunk)], None)) [] = (chunks, None) \<and>
    concat (map (\<lambda>(_, c). [uint (scFromBlock c)..uint (scToBlock c)]) chunks) = [18446744073709551610..18446744073709551615]"
proof -
  let ?p = "\<lambda>_ f. if lfFromBlock f < 18446744073709551610 then Inl (Errorf [] []) else Inr []"
  let ?scan = "\<lparr>srAddresses = [], srFromBlock = 18446744073709551610, srToBlock = 18446744073709551615, srChunkSize = 4\<rparr>"
  have answers: "\<exists>logs. ?p None \<lparr>lfAddresses = srAddresses ?scan, lfFromBlock = a, lfToBlock = b, lfTopics = []\<rparr> = Inr logs"
    if "srFromBlock ?scan \<le> a" for a b
    using that by (auto simp: not_less [symmetric])
  show ?thesis using scan_tiles_range [where provider = ?p and ctx = None and scan = ?scan and topics = "[]", OF answers] by fastforce
qed

text \<open>C27: After a successful checkpoint rollback of a file store, the
  checkpoint of the key is the lower of the old one and the asked one (the asked one if there
  was none), every other key is as before, and the next scan of the key starts exactly there, whatever the
  start block that the scan itself names.\<close>

theorem rollback_never_advances:
  assumes "fileCheckpointOk s" "RollbackScanCheckpoint None (Some (fileCheckpointIface env)) s key n = Inr s'"
  shows "fileCheckpointOk s' \<and>
    (\<exists>found. FileCheckpointStore_LoadCheckpoint None s key = Inr found \<and>
      (let lowered = (case found of None \<Rightarrow> n | Some old \<Rightarrow> if NextBlock old < n then NextBlock old else n) in
        (\<forall>k. FileCheckpointStore_LoadCheckpoint None s' k =
           (if k = key then Inr (Some \<lparr>NextBlock = lowered\<rparr>) else FileCheckpointStore_LoadCheckpoint None s k)) \<and>
        (csKey scan = key \<longrightarrow> checkpointStartBlock None (Some (fileCheckpointIface env)) s' scan = Inr lowered)))"
proof -
  have r: "fileCheckpointOk s' \<and> FileCheckpointStore_LoadCheckpoint None s' k =
       (if k = key then andThen (FileCheckpointStore_LoadCheckpoint None s key) (\<lambda>found. Inr (Some (loweredTo found n)))
        else FileCheckpointStore_LoadCheckpoint None s k)" for k
    using file_cp.rollback_scan [OF assms, of k] by (simp add: fileCheckpointIface_def)
  have key: "key \<noteq> []" using assms(2)
    by (auto simp: RollbackScanCheckpoint_def fileCheckpointIface_def FileCheckpointStore_RollbackCheckpoint_def split: if_splits)
  obtain found where found: "FileCheckpointStore_LoadCheckpoint None s key = Inr found"
    using assms(1) by (auto simp: fileCheckpoint_load)
  define lowered where "lowered = (case found of None \<Rightarrow> n | Some old \<Rightarrow> if NextBlock old < n then NextBlock old else n)"
  have low: "loweredTo found n = \<lparr>NextBlock = lowered\<rparr>"
    by (auto simp: loweredTo_def lowered_def split: option.splits)
  have "checkpointStartBlock None (Some (fileCheckpointIface env)) s' scan = Inr lowered" if "csKey scan = key"
    using r [of key] that key found by (simp add: checkpointStartBlock_def fileCheckpointIface_def low)
  then show ?thesis using r found low by (auto simp: Let_def lowered_def)
qed

theorem rollback_never_advances_witness:
  "\<exists>s'. RollbackScanCheckpoint None (Some (fileCheckpointIface \<lparr>mkdirErr = None, writeErr = None, renameErr = None\<rparr>))
      \<lparr>Path = ''cp'', fsFile = FileDoc [(''k'', \<lparr>NextBlock = 90\<rparr>)]\<rparr> ''k'' 50 = Inr s' \<and>
    FileCheckpointStore_LoadCheckpoint None s' ''k'' = Inr (Some \<lparr>NextBlock = 50\<rparr>)"
proof -
  let ?env = "\<lparr>mkdirErr = None, writeErr = None, renameErr = None\<rparr>"
  let ?s = "\<lparr>Path = ''cp'', fsFile = FileDoc [(''k'', \<lparr>NextBlock = 90\<rparr>)]\<rparr> :: FileCheckpointStore"
  have ok: "fileCheckpointOk ?s" by (simp add: fileCheckpointOk_def)
  have r: "RollbackScanCheckpoint None (Some (fileCheckpointIface ?env)) ?s ''k'' 50 =
      Inr \<lparr>Path = ''cp'', fsFile = FileDoc [(''k'', \<lparr>NextBlock = 50\<rparr>)]\<rparr>" by code_simp
  have l: "FileCheckpointStore_LoadCheckpoint None ?s ''k'' = Inr (Some \<lparr>NextBlock = 90\<rparr>)" by code_simp
  show ?thesis using rollback_never_advances [OF ok r] r l by (auto simp: Let_def)
qed

end
