(* ===== verification/EventsV2.thy ===== *)
theory EventsV2
  imports Railgun Scan
begin

text \<open>
  Models the V2 event decoding of \<^verbatim>\<open>pkg/events/v2.go\<close> and the V2 half of
  \<^verbatim>\<open>pkg/events/accumulator.go\<close>. The ABI of go-ethereum is the argument \<open>abi\<close>: the
  topic of an event, the unpacked arguments of a log's data, and the checksummed text of an
  address. A fixed byte array is a byte list; a Go \<^verbatim>\<open>int\<close> is an integer in the range of
  64 bits, and \<open>goInt\<close> is its wrap-around.
\<close>

section \<open>Decoded events\<close>

record abiTokenData =
  atTokenType :: nat
  atTokenAddress :: "byte list"
  atTokenSubID :: "int option"

record abiCommitmentPreimage =
  apNPK :: "byte list"
  apToken :: abiTokenData
  apValue :: "int option"

record abiShieldCiphertext =
  asEncryptedBundle :: "byte list list"
  asShieldKey :: "byte list"

record abiCommitmentCiphertextV2 =
  acCiphertext :: "byte list list"
  acBlindedSenderViewingKey :: "byte list"
  acBlindedReceiverViewingKey :: "byte list"
  acAnnotationData :: "byte list"
  acMemo :: "byte list"

record abiShieldEvent =
  shTreeNumber :: "int option"
  shStartPosition :: "int option"
  shCommitments :: "abiCommitmentPreimage list"
  shShieldCiphertext :: "abiShieldCiphertext list"
  shFees :: "int option list"

record abiTransactEvent =
  taTreeNumber :: "int option"
  taStartPosition :: "int option"
  taHash :: "byte list list"
  taCiphertext :: "abiCommitmentCiphertextV2 list"

record abiUnshieldEvent =
  auTo :: "byte list"
  auToken :: abiTokenData
  auAmount :: "int option"
  auFee :: "int option"

record abiNullifiedEvent =
  anTreeNumber :: nat
  anNullifier :: "byte list list"

record abiV2 =
  eventTopic :: "string \<Rightarrow> string res"
  unpackShield :: "byte list \<Rightarrow> abiShieldEvent res"
  unpackTransact :: "byte list \<Rightarrow> abiTransactEvent res"
  unpackUnshield :: "byte list \<Rightarrow> abiUnshieldEvent res"
  unpackNullified :: "byte list \<Rightarrow> abiNullifiedEvent res"
  addressHex :: "byte list \<Rightarrow> string"

section \<open>Helpers\<close>

definition formatBytes32 :: "string \<Rightarrow> string res" where
  "formatBytes32 value = FormatHexToByteLength value 32 False"

definition bytes32Hex :: "byte list \<Rightarrow> string" where
  "bytes32Hex value = BytesToHex value False"

definition dynamicBytesHex :: "byte list \<Rightarrow> string" where
  "dynamicBytesHex value = BytesToHex value True"

definition shieldBundleHex :: "byte list list \<Rightarrow> string list" where
  "shieldBundleHex bundle = map (\<lambda>chunk. ''0x'' @ bytes32Hex chunk) bundle"

definition feeString :: "int option list \<Rightarrow> nat \<Rightarrow> string" where
  "feeString fees index =
     (if index \<ge> length fees then []
      else case fees ! index of None \<Rightarrow> [] | Some fee \<Rightarrow> if fee = 0 then [] else decimal fee)"

definition intFromBigInt :: "int option \<Rightarrow> string \<Rightarrow> int res" where
  "intFromBigInt value name =
     (case value of
        None \<Rightarrow> Inl (Errorf ''%s is required'' [AStr name])
      | Some v \<Rightarrow>
          if \<not> (- (2 ^ 63) \<le> v \<and> v < 2 ^ 63) then Inl (Errorf ''%s is too large'' [AStr name]) else Inr v)"

definition defaultBigInt :: "int option \<Rightarrow> int" where
  "defaultBigInt value = (case value of None \<Rightarrow> 0 | Some v \<Rightarrow> v)"

text \<open>\<^verbatim>\<open>strings.EqualFold\<close> on ASCII text.\<close>

definition EqualFold :: "string \<Rightarrow> string \<Rightarrow> bool" where
  "EqualFold s t \<longleftrightarrow> map lowerChar s = map lowerChar t"

definition tokenDataFromABI :: "abiV2 \<Rightarrow> abiTokenData \<Rightarrow> TokenData res" where
  "tokenDataFromABI abi token =
     SerializeTokenData (ToLower (addressHex abi (atTokenAddress token))) (int (atTokenType token))
       (decimal (defaultBigInt (atTokenSubID token)))"

definition preImageFromABI :: "abiV2 \<Rightarrow> abiCommitmentPreimage \<Rightarrow> PreImage res" where
  "preImageFromABI abi preimage =
     andThen (tokenDataFromABI abi (apToken preimage)) (\<lambda>token.
     andThen (BigIntToHex (Some (defaultBigInt (apValue preimage))) 16 False) (\<lambda>value.
     Inr \<lparr>preNPK = bytes32Hex (apNPK preimage), preToken = token, preValue = value\<rparr>))"

definition CommitmentTypeShield :: string where
  "CommitmentTypeShield = ''ShieldCommitment''"

definition CommitmentTypeTransactV2 :: string where
  "CommitmentTypeTransactV2 = ''TransactCommitmentV2''"

section \<open>Commitments\<close>

definition formatV2ShieldCommitment ::
  "abiV2 \<Rightarrow> poseidonConstantsRaw \<Rightarrow> (byte list \<Rightarrow> byte list) \<Rightarrow> string \<Rightarrow> uint64 \<Rightarrow> int \<Rightarrow> int \<Rightarrow> int option list
   \<Rightarrow> nat \<Rightarrow> abiCommitmentPreimage \<times> abiShieldCiphertext \<Rightarrow> Commitment res" where
  "formatV2ShieldCommitment abi raw keccak txid blockNumber utxoTree startIndex fees i pc =
     (let (preimage, ciphertext) = pc in
      andThen (wrapErr ''commitment[%d] preimage: %w'' [ANat i] (preImageFromABI abi preimage)) (\<lambda>nativePreimage.
      andThen (wrapErr ''commitment[%d] npk: %w'' [ANat i] (HexToBigInt (preNPK nativePreimage))) (\<lambda>notePublicKey.
      andThen (wrapErr ''commitment[%d] hash: %w'' [ANat i]
         (NoteHashFromTokenData raw keccak notePublicKey (preToken nativePreimage) (defaultBigInt (apValue preimage)))) (\<lambda>noteHash.
      andThen (BigIntToHex (Some noteHash) 32 False) (\<lambda>hash.
      Inr \<lparr>cmCommitmentType = CommitmentTypeShield, cmHash = hash, cmTxid = txid, cmTimestamp = None,
        cmBlockNumber = blockNumber, cmUTXOTree = utxoTree, cmUTXOIndex = goInt (startIndex + int i),
        cmPreImage = Some nativePreimage, cmEncryptedBundle = shieldBundleHex (asEncryptedBundle ciphertext),
        cmShieldKey = ''0x'' @ bytes32Hex (asShieldKey ciphertext), cmFee = feeString fees i, cmFrom = [],
        cmCiphertext = None, cmRailgunTxid = [], cmSenderCiphertext = [], cmTransactCommitmentBatchIndex = None\<rparr>)))))"

definition formatV2ShieldCommitments ::
  "abiV2 \<Rightarrow> poseidonConstantsRaw \<Rightarrow> (byte list \<Rightarrow> byte list) \<Rightarrow> string \<Rightarrow> abiCommitmentPreimage list
   \<Rightarrow> abiShieldCiphertext list \<Rightarrow> uint64 \<Rightarrow> int \<Rightarrow> int \<Rightarrow> int option list \<Rightarrow> Commitment list res" where
  "formatV2ShieldCommitments abi raw keccak transactionHash preimages ciphertexts blockNumber utxoTree startIndex fees =
     (if length preimages \<noteq> length ciphertexts then Err ''shield commitments and ciphertext lengths differ''
      else andThen (formatBytes32 transactionHash) (\<lambda>txid.
        mapRes (\<lambda>(i, pc). formatV2ShieldCommitment abi raw keccak txid blockNumber utxoTree startIndex fees i pc)
          (zip [0..<length preimages] (zip preimages ciphertexts))))"

definition formatV2CommitmentCiphertext :: "abiCommitmentCiphertextV2 \<Rightarrow> CommitmentCiphertextV2Event res" where
  "formatV2CommitmentCiphertext ciphertext =
     (let ivTag = bytes32Hex (acCiphertext ciphertext ! 0)
      in if length ivTag \<noteq> 64 then Err ''invalid iv/tag length''
         else Inr \<lparr>v2Ciphertext = \<lparr>gcmIV = take 32 ivTag, gcmTag = drop 32 ivTag,
                     gcmData = map bytes32Hex (tl (acCiphertext ciphertext))\<rparr>,
                v2BlindedSenderViewingKey = bytes32Hex (acBlindedSenderViewingKey ciphertext),
                v2BlindedReceiverViewingKey = bytes32Hex (acBlindedReceiverViewingKey ciphertext),
                v2AnnotationData = dynamicBytesHex (acAnnotationData ciphertext),
                v2Memo = dynamicBytesHex (acMemo ciphertext)\<rparr>)"

definition formatV2TransactCommitment ::
  "string \<Rightarrow> uint64 \<Rightarrow> int \<Rightarrow> int \<Rightarrow> nat \<Rightarrow> byte list \<times> abiCommitmentCiphertextV2 \<Rightarrow> Commitment res" where
  "formatV2TransactCommitment txid blockNumber utxoTree startIndex i hc =
     andThen (wrapErr ''commitment[%d] ciphertext: %w'' [ANat i] (formatV2CommitmentCiphertext (snd hc))) (\<lambda>formatted.
     Inr \<lparr>cmCommitmentType = CommitmentTypeTransactV2, cmHash = bytes32Hex (fst hc), cmTxid = txid, cmTimestamp = None,
       cmBlockNumber = blockNumber, cmUTXOTree = utxoTree, cmUTXOIndex = goInt (startIndex + int i),
       cmPreImage = None, cmEncryptedBundle = [], cmShieldKey = [], cmFee = [], cmFrom = [],
       cmCiphertext = Some formatted, cmRailgunTxid = [], cmSenderCiphertext = [], cmTransactCommitmentBatchIndex = None\<rparr>)"

definition formatV2TransactCommitments ::
  "string \<Rightarrow> byte list list \<Rightarrow> abiCommitmentCiphertextV2 list \<Rightarrow> uint64 \<Rightarrow> int \<Rightarrow> int \<Rightarrow> Commitment list res" where
  "formatV2TransactCommitments transactionHash hashes ciphertexts blockNumber utxoTree startIndex =
     (if length hashes \<noteq> length ciphertexts then Err ''transact hash and ciphertext lengths differ''
      else andThen (formatBytes32 transactionHash) (\<lambda>txid.
        mapRes (\<lambda>(i, hc). formatV2TransactCommitment txid blockNumber utxoTree startIndex i hc)
          (zip [0..<length ciphertexts] (zip hashes ciphertexts))))"

section \<open>Events\<close>

definition FormatV2ShieldEvent ::
  "abiV2 \<Rightarrow> poseidonConstantsRaw \<Rightarrow> (byte list \<Rightarrow> byte list) \<Rightarrow> abiShieldEvent \<Rightarrow> string \<Rightarrow> uint64 \<Rightarrow> CommitmentEvent res" where
  "FormatV2ShieldEvent abi raw keccak event transactionHash blockNumber =
     andThen (intFromBigInt (shTreeNumber event) ''treeNumber'') (\<lambda>treeNumber.
     andThen (intFromBigInt (shStartPosition event) ''startPosition'') (\<lambda>startPosition.
     andThen (formatV2ShieldCommitments abi raw keccak transactionHash (shCommitments event) (shShieldCiphertext event)
        blockNumber treeNumber startPosition (shFees event)) (\<lambda>commitments.
     andThen (formatBytes32 transactionHash) (\<lambda>txid.
     Inr \<lparr>ceTxid = txid, ceTreeNumber = treeNumber, ceStartPosition = startPosition, ceCommitments = commitments,
          ceBlockNumber = blockNumber\<rparr>))))"

definition FormatV2TransactEvent :: "abiTransactEvent \<Rightarrow> string \<Rightarrow> uint64 \<Rightarrow> CommitmentEvent res" where
  "FormatV2TransactEvent event transactionHash blockNumber =
     andThen (intFromBigInt (taTreeNumber event) ''treeNumber'') (\<lambda>treeNumber.
     andThen (intFromBigInt (taStartPosition event) ''startPosition'') (\<lambda>startPosition.
     andThen (formatV2TransactCommitments transactionHash (taHash event) (taCiphertext event)
        blockNumber treeNumber startPosition) (\<lambda>commitments.
     andThen (formatBytes32 transactionHash) (\<lambda>txid.
     Inr \<lparr>ceTxid = txid, ceTreeNumber = treeNumber, ceStartPosition = startPosition, ceCommitments = commitments,
          ceBlockNumber = blockNumber\<rparr>))))"

definition FormatV2UnshieldEvent :: "abiV2 \<Rightarrow> abiUnshieldEvent \<Rightarrow> string \<Rightarrow> uint64 \<Rightarrow> uint64 \<Rightarrow> UnshieldStoredEvent res" where
  "FormatV2UnshieldEvent abi event transactionHash blockNumber eventLogIndex =
     andThen (tokenDataFromABI abi (auToken event)) (\<lambda>token.
     andThen (formatBytes32 transactionHash) (\<lambda>txid.
     Inr \<lparr>unTxid = txid, unTimestamp = None, unToAddress = addressHex abi (auTo event), unTokenType = TokenType token,
          unTokenAddress = TokenAddress token, unTokenSubID = TokenSubID token,
          unAmount = decimal (defaultBigInt (auAmount event)), unFee = decimal (defaultBigInt (auFee event)),
          unBlockNumber = blockNumber, unEventLogIndex = Some eventLogIndex, unRailgunTxid = []\<rparr>))"

definition FormatV2NullifiedEvents :: "abiNullifiedEvent \<Rightarrow> string \<Rightarrow> uint64 \<Rightarrow> Nullifier list res" where
  "FormatV2NullifiedEvents event transactionHash blockNumber =
     andThen (formatBytes32 transactionHash) (\<lambda>txid.
     Inr (map (\<lambda>nullifier. \<lparr>nuTxid = txid, nuNullifier = bytes32Hex nullifier, nuTreeNumber = int (anTreeNumber event),
        nuBlockNumber = blockNumber\<rparr>) (anNullifier event)))"

definition V2EventTopic :: "abiV2 \<Rightarrow> string \<Rightarrow> string res" where
  "V2EventTopic abi eventName = eventTopic abi eventName"

definition unpackV2EventLog :: "abiV2 \<Rightarrow> ContractLog \<Rightarrow> string \<Rightarrow> (byte list \<Rightarrow> 'e res) \<Rightarrow> 'e res" where
  "unpackV2EventLog abi log eventName unpack =
     andThen (eventTopic abi eventName) (\<lambda>topic.
     case lgTopics log of
       [] \<Rightarrow> Err ''missing event topic''
     | t # _ \<Rightarrow>
         if \<not> EqualFold t topic then Inl (Errorf ''event topic %s invalid: expected %s'' [AStr t, AStr topic])
         else andThen (HexToBytes (lgData log)) unpack)"

definition ParseV2ShieldLog ::
  "abiV2 \<Rightarrow> poseidonConstantsRaw \<Rightarrow> (byte list \<Rightarrow> byte list) \<Rightarrow> ContractLog \<Rightarrow> CommitmentEvent res" where
  "ParseV2ShieldLog abi raw keccak log =
     andThen (unpackV2EventLog abi log ''Shield'' (unpackShield abi)) (\<lambda>decoded.
     FormatV2ShieldEvent abi raw keccak decoded (lgTransactionHash log) (lgBlockNumber log))"

definition ParseV2TransactLog :: "abiV2 \<Rightarrow> ContractLog \<Rightarrow> CommitmentEvent res" where
  "ParseV2TransactLog abi log =
     andThen (unpackV2EventLog abi log ''Transact'' (unpackTransact abi)) (\<lambda>decoded.
     FormatV2TransactEvent decoded (lgTransactionHash log) (lgBlockNumber log))"

definition ParseV2UnshieldLog :: "abiV2 \<Rightarrow> ContractLog \<Rightarrow> UnshieldStoredEvent res" where
  "ParseV2UnshieldLog abi log =
     andThen (unpackV2EventLog abi log ''Unshield'' (unpackUnshield abi)) (\<lambda>decoded.
     FormatV2UnshieldEvent abi decoded (lgTransactionHash log) (lgBlockNumber log) (lgIndex log))"

definition ParseV2NullifiedLog :: "abiV2 \<Rightarrow> ContractLog \<Rightarrow> Nullifier list res" where
  "ParseV2NullifiedLog abi log =
     andThen (unpackV2EventLog abi log ''Nullified'' (unpackNullified abi)) (\<lambda>decoded.
     FormatV2NullifiedEvents decoded (lgTransactionHash log) (lgBlockNumber log))"

section \<open>accumulator.go\<close>

definition loadV2EventTopics :: "abiV2 \<Rightarrow> v2Topics res" where
  "loadV2EventTopics abi =
     andThen (V2EventTopic abi ''Shield'') (\<lambda>shield.
     andThen (V2EventTopic abi ''Transact'') (\<lambda>transact.
     andThen (V2EventTopic abi ''Unshield'') (\<lambda>unshield.
     andThen (V2EventTopic abi ''Nullified'') (\<lambda>nullified.
     Inr \<lparr>tShield = shield, tTransact = transact, tUnshield = unshield, tNullified = nullified\<rparr>))))"

definition firstTopic :: "ContractLog \<Rightarrow> string" where
  "firstTopic log = (case lgTopics log of [] \<Rightarrow> [] | t # _ \<Rightarrow> t)"

definition accumulateV2Log ::
  "abiV2 \<Rightarrow> poseidonConstantsRaw \<Rightarrow> (byte list \<Rightarrow> byte list) \<Rightarrow> v2Topics \<Rightarrow> nat \<Rightarrow> ContractLog
   \<Rightarrow> V2AccumulatedEvents \<Rightarrow> V2AccumulatedEvents res" where
  "accumulateV2Log abi raw keccak topics i log out =
     (let topic = firstTopic log in
      if topic = [] then Inr out
      else if EqualFold topic (tShield topics)
      then andThen (wrapErr ''v2 shield log[%d]: %w'' [ANat i] (ParseV2ShieldLog abi raw keccak log)) (\<lambda>event.
        Inr (out\<lparr>a2CommitmentEvents := a2CommitmentEvents out @ [event]\<rparr>))
      else if EqualFold topic (tTransact topics)
      then andThen (wrapErr ''v2 transact log[%d]: %w'' [ANat i] (ParseV2TransactLog abi log)) (\<lambda>event.
        Inr (out\<lparr>a2CommitmentEvents := a2CommitmentEvents out @ [event]\<rparr>))
      else if EqualFold topic (tUnshield topics)
      then andThen (wrapErr ''v2 unshield log[%d]: %w'' [ANat i] (ParseV2UnshieldLog abi log)) (\<lambda>event.
        Inr (out\<lparr>a2UnshieldEvents := a2UnshieldEvents out @ [event]\<rparr>))
      else if EqualFold topic (tNullified topics)
      then andThen (wrapErr ''v2 nullified log[%d]: %w'' [ANat i] (ParseV2NullifiedLog abi log)) (\<lambda>events.
        Inr (out\<lparr>a2NullifierEvents := a2NullifierEvents out @ events\<rparr>))
      else Inr out)"

definition AccumulateV2Logs ::
  "abiV2 \<Rightarrow> poseidonConstantsRaw \<Rightarrow> (byte list \<Rightarrow> byte list) \<Rightarrow> ContractLog list \<Rightarrow> V2AccumulatedEvents res" where
  "AccumulateV2Logs abi raw keccak logs =
     andThen (loadV2EventTopics abi) (\<lambda>topics.
     foldResI 0 (accumulateV2Log abi raw keccak topics) logs emptyV2AccumulatedEvents)"

section \<open>The decoder works log by log\<close>

lemma append_simps [simp]:
  "appendV2AccumulatedEvents emptyV2AccumulatedEvents x = x"
  "appendV2AccumulatedEvents x emptyV2AccumulatedEvents = x"
  by (simp_all add: appendV2AccumulatedEvents_def emptyV2AccumulatedEvents_def)

lemma append_assoc_V2:
  "appendV2AccumulatedEvents (appendV2AccumulatedEvents x y) z = appendV2AccumulatedEvents x (appendV2AccumulatedEvents y z)"
  by (simp add: appendV2AccumulatedEvents_def)

lemma accumulateV2Log_append:
  "accumulateV2Log abi raw keccak topics i log out = Inr out' \<longleftrightarrow>
   (\<exists>d. accumulateV2Log abi raw keccak topics 0 log emptyV2AccumulatedEvents = Inr d \<and>
      out' = appendV2AccumulatedEvents out d)"
  by (auto simp: accumulateV2Log_def Let_def res_elims appendV2AccumulatedEvents_def emptyV2AccumulatedEvents_def)

lemma foldResI_accumulate:
  assumes "\<And>i x s t. f i x s = Inr t \<longleftrightarrow> (\<exists>d. f 0 x e = Inr d \<and> t = app s d)"
    and "\<And>x y z. app (app x y) z = app x (app y z)" "\<And>x. app e x = x" "\<And>x. app x e = x"
  shows "foldResI i f xs s = Inr t \<longleftrightarrow> (\<exists>d. foldResI 0 f xs e = Inr d \<and> t = app s d)"
proof (induction xs arbitrary: i s t)
  case (Cons x xs)
  have step: "foldResI i f (x # xs) s = Inr t \<longleftrightarrow>
      (\<exists>d d'. f 0 x e = Inr d \<and> foldResI 0 f xs e = Inr d' \<and> t = app (app s d) d')" for i s t
    unfolding foldResI.simps andThen_Inr assms(1) [of i x s] Cons.IH [of "Suc i"] by blast
  show ?case unfolding step assms(2,3) by blast
qed (use assms(4) in auto)

lemma AccumulateV2Logs_append:
  "AccumulateV2Logs abi raw keccak (a @ b) = Inr z \<longleftrightarrow>
   (\<exists>x y. AccumulateV2Logs abi raw keccak a = Inr x \<and> AccumulateV2Logs abi raw keccak b = Inr y \<and>
      z = appendV2AccumulatedEvents x y)"
proof (cases "loadV2EventTopics abi")
  case (Inr topics)
  let ?f = "accumulateV2Log abi raw keccak topics" and ?e = emptyV2AccumulatedEvents
  have fold: "foldResI i ?f xs s = Inr t \<longleftrightarrow> (\<exists>d. foldResI 0 ?f xs ?e = Inr d \<and> t = appendV2AccumulatedEvents s d)" for i xs s t
    by (rule foldResI_accumulate, rule accumulateV2Log_append, rule append_assoc_V2, rule append_simps, rule append_simps)
  show ?thesis
    unfolding AccumulateV2Logs_def Inr andThen_simps foldResI_append andThen_Inr fold [of "0 + length a" b] by blast
qed (simp add: AccumulateV2Logs_def)

interpretation v2_logs: accumulator "AccumulateV2Logs abi raw keccak" emptyV2AccumulatedEvents appendV2AccumulatedEvents
  for abi raw keccak
  by unfold_locales (simp_all add: append_assoc_V2 AccumulateV2Logs_append)

section \<open>Positions of the commitments\<close>

lemma formatV2ShieldCommitment_fields:
  "formatV2ShieldCommitment abi raw keccak txid bn tree start fees i pc = Inr c \<Longrightarrow>
   cmUTXOTree c = tree \<and> cmUTXOIndex c = goInt (start + int i) \<and> cmTxid c = txid \<and> cmBlockNumber c = bn"
  by (auto simp: formatV2ShieldCommitment_def Let_def res_elims split: prod.splits)

lemma formatV2TransactCommitment_fields:
  "formatV2TransactCommitment txid bn tree start i hc = Inr c \<Longrightarrow>
   cmUTXOTree c = tree \<and> cmUTXOIndex c = goInt (start + int i) \<and> cmTxid c = txid \<and> cmBlockNumber c = bn"
  by (auto simp: formatV2TransactCommitment_def res_elims)

text \<open>An event whose commitments stand one after the other from its start position.\<close>

definition consecutive :: "'c commitmentEvent \<Rightarrow> bool" where
  "consecutive ev \<longleftrightarrow> (\<forall>i < length (ceCommitments ev).
     cmUTXOTree (ceCommitments ev ! i) = ceTreeNumber ev \<and>
     cmUTXOIndex (ceCommitments ev ! i) = goInt (ceStartPosition ev + int i) \<and>
     cmTxid (ceCommitments ev ! i) = ceTxid ev \<and> cmBlockNumber (ceCommitments ev ! i) = ceBlockNumber ev)"

lemma shield_consecutive:
  assumes "FormatV2ShieldEvent abi raw keccak event hash bn = Inr ev"
  shows "consecutive ev \<and> length (ceCommitments ev) = length (shCommitments event) \<and> ceBlockNumber ev = bn"
proof -
  obtain tree start cs txid where e: "intFromBigInt (shTreeNumber event) ''treeNumber'' = Inr tree"
    "formatV2ShieldCommitments abi raw keccak hash (shCommitments event) (shShieldCiphertext event) bn tree start (shFees event) = Inr cs"
    "formatBytes32 hash = Inr txid"
    "ev = \<lparr>ceTxid = txid, ceTreeNumber = tree, ceStartPosition = start, ceCommitments = cs, ceBlockNumber = bn\<rparr>"
    using assms by (auto simp: FormatV2ShieldEvent_def res_elims)
  let ?xs = "zip [0..<length (shCommitments event)] (zip (shCommitments event) (shShieldCiphertext event))"
  have len: "length (shCommitments event) = length (shShieldCiphertext event)"
    and m: "mapRes (\<lambda>(i, pc). formatV2ShieldCommitment abi raw keccak txid bn tree start (shFees event) i pc) ?xs = Inr cs"
    using e(2,3) by (auto simp: formatV2ShieldCommitments_def split: if_splits)
  have l: "length cs = length (shCommitments event)" using mapRes_length [OF m] len by simp
  have "cmUTXOTree (cs ! i) = tree \<and> cmUTXOIndex (cs ! i) = goInt (start + int i) \<and> cmTxid (cs ! i) = txid \<and>
      cmBlockNumber (cs ! i) = bn" if "i < length cs" for i
    using mapRes_nth [OF m, of i] that l len formatV2ShieldCommitment_fields by fastforce
  then show ?thesis using e(4) l by (simp add: consecutive_def)
qed

lemma transact_consecutive:
  assumes "FormatV2TransactEvent event hash bn = Inr ev"
  shows "consecutive ev \<and> length (ceCommitments ev) = length (taHash event) \<and> ceBlockNumber ev = bn"
proof -
  obtain tree start cs txid where e: "intFromBigInt (taTreeNumber event) ''treeNumber'' = Inr tree"
    "formatV2TransactCommitments hash (taHash event) (taCiphertext event) bn tree start = Inr cs"
    "formatBytes32 hash = Inr txid"
    "ev = \<lparr>ceTxid = txid, ceTreeNumber = tree, ceStartPosition = start, ceCommitments = cs, ceBlockNumber = bn\<rparr>"
    using assms by (auto simp: FormatV2TransactEvent_def res_elims)
  let ?xs = "zip [0..<length (taCiphertext event)] (zip (taHash event) (taCiphertext event))"
  have len: "length (taHash event) = length (taCiphertext event)"
    and m: "mapRes (\<lambda>(i, hc). formatV2TransactCommitment txid bn tree start i hc) ?xs = Inr cs"
    using e(2,3) by (auto simp: formatV2TransactCommitments_def split: if_splits)
  have l: "length cs = length (taHash event)" using mapRes_length [OF m] len by simp
  have "cmUTXOTree (cs ! i) = tree \<and> cmUTXOIndex (cs ! i) = goInt (start + int i) \<and> cmTxid (cs ! i) = txid \<and>
      cmBlockNumber (cs ! i) = bn" if "i < length cs" for i
    using mapRes_nth [OF m, of i] that l len formatV2TransactCommitment_fields by fastforce
  then show ?thesis using e(4) l by (simp add: consecutive_def)
qed

section \<open>One scan from a checkpoint\<close>

definition startOf :: "checkpoints \<Rightarrow> CheckpointedScan \<Rightarrow> uint64" where
  "startOf cps scan = (case gget cps (csKey scan) of Some c \<Rightarrow> NextBlock c | None \<Rightarrow> csStartBlock scan)"

definition logsOf where
  "logsOf abi provider scan a b = andThen (v2FilterTopics (loadV2EventTopics abi)) (\<lambda>topics.
     provider None \<lparr>lfAddresses = csAddresses scan, lfFromBlock = a, lfToBlock = b, lfTopics = [topics]\<rparr>)"

text \<open>A run on the memory store, when the head of the chain is at height \<open>h\<close>.\<close>

definition scanTo where
  "scanTo abi raw keccak provider scan h s =
     ScanV2EventsFromCheckpoint (loadV2EventTopics abi) (AccumulateV2Logs abi raw keccak) None
       (Some \<lparr>FilterLogs = provider, BlockNumber = (\<lambda>_. Inr h)\<rparr>) (Some memoryCheckpointIface) s scan"

lemma scan_result:
  "(case r of (out, None) \<Rightarrow> Inr out | (_, Some e) \<Rightarrow> Inl e) = Inr ev \<longleftrightarrow> r = (ev, None)"
  by (auto split: prod.splits option.splits)

lemma scan_run:
  assumes "rangeAdditive None provider"
  shows "scanTo abi raw keccak provider scan h (Some cps) = Inr (s', ev, cp) \<longleftrightarrow> csKey scan \<noteq> [] \<and>
    (if h < csConfirmations scan \<or> h - csConfirmations scan < startOf cps scan
     then s' = Some cps \<and> ev = emptyV2AccumulatedEvents \<and> cp = \<lparr>NextBlock = startOf cps scan\<rparr>
     else (\<exists>logs. logsOf abi provider scan (startOf cps scan) (h - csConfirmations scan) = Inr logs \<and>
        AccumulateV2Logs abi raw keccak logs = Inr ev \<and> cp = \<lparr>NextBlock = h - csConfirmations scan + 1\<rparr> \<and>
        s' = Some (gput (csKey scan) cp cps)))"
proof -
  have ev: "ScanV2Events (loadV2EventTopics abi) (AccumulateV2Logs abi raw keccak) None (Some provider)
      \<lparr>srAddresses = csAddresses scan, srFromBlock = a, srToBlock = b, srChunkSize = csChunkSize scan\<rparr> = Inr ev \<longleftrightarrow>
      (\<exists>logs. logsOf abi provider scan a b = Inr logs \<and> AccumulateV2Logs abi raw keccak logs = Inr ev)" if "a \<le> b" for a b ev
    using v2_logs.scanLogChunks_whole [OF assms, of "\<lparr>srAddresses = csAddresses scan, srFromBlock = a, srToBlock = b,
        srChunkSize = csChunkSize scan\<rparr>" _ abi raw keccak] that
    unfolding ScanV2Events_def ScanV2EventChunks_def logsOf_def
    by (cases "v2FilterTopics (loadV2EventTopics abi)") (simp_all add: scan_result)
  show ?thesis
    by (auto simp: scanTo_def ScanV2EventsFromCheckpoint_def scanFromCheckpoint_def checkpointStartBlock_def finalizedToBlock_def
        memoryCheckpointIface_def MemoryCheckpointStore_LoadCheckpoint_def MemoryCheckpointStore_SaveCheckpoint_def
        startOf_def [symmetric] res_elims ev not_less)
qed

section \<open>Properties\<close>

text \<open>Every commitment event that a successful accumulation of V2
  logs returns comes from one of the logs, with its block number and transaction hash, and its
  commitments stand in the event's tree one after the other from its start position.\<close>

theorem accumulated_consecutive:
  assumes "AccumulateV2Logs abi raw keccak logs = Inr out" "ev \<in> set (a2CommitmentEvents out)"
  shows "consecutive ev \<and> (\<exists>log \<in> set logs. ceBlockNumber ev = lgBlockNumber log \<and> formatBytes32 (lgTransactionHash log) = Inr (ceTxid ev))"
  using assms
proof (induction logs arbitrary: out rule: rev_induct)
  case Nil
  then show ?case by (auto simp: AccumulateV2Logs_def emptyV2AccumulatedEvents_def res_elims)
next
  case (snoc log logs)
  obtain x y where xy: "AccumulateV2Logs abi raw keccak logs = Inr x" "AccumulateV2Logs abi raw keccak [log] = Inr y"
    "out = appendV2AccumulatedEvents x y"
    using snoc.prems(1) unfolding AccumulateV2Logs_append by blast
  show ?case
  proof (cases "ev \<in> set (a2CommitmentEvents x)")
    case True
    then show ?thesis using snoc.IH [OF xy(1)] by auto
  next
    case False
    then have "ev \<in> set (a2CommitmentEvents y)" using snoc.prems(2) xy(3) by (simp add: appendV2AccumulatedEvents_def)
    then have "ParseV2ShieldLog abi raw keccak log = Inr ev \<or> ParseV2TransactLog abi log = Inr ev"
      using xy(2) by (auto simp: AccumulateV2Logs_def accumulateV2Log_def Let_def emptyV2AccumulatedEvents_def res_elims split: if_splits)
    then have "consecutive ev \<and> ceBlockNumber ev = lgBlockNumber log \<and> formatBytes32 (lgTransactionHash log) = Inr (ceTxid ev)"
    proof
      assume "ParseV2ShieldLog abi raw keccak log = Inr ev"
      then obtain d where d: "FormatV2ShieldEvent abi raw keccak d (lgTransactionHash log) (lgBlockNumber log) = Inr ev"
        by (auto simp: ParseV2ShieldLog_def res_elims)
      then show ?thesis using shield_consecutive [OF d] by (auto simp: FormatV2ShieldEvent_def res_elims)
    next
      assume "ParseV2TransactLog abi log = Inr ev"
      then obtain d where d: "FormatV2TransactEvent d (lgTransactionHash log) (lgBlockNumber log) = Inr ev"
        by (auto simp: ParseV2TransactLog_def res_elims)
      then show ?thesis using transact_consecutive [OF d] by (auto simp: FormatV2TransactEvent_def res_elims)
    qed
    then show ?thesis by auto
  qed
qed

text \<open>With a provider that answers a range by the logs of its parts
  in order, a scan of V2 events by chunks of any size returns what decoding the logs of the
  whole range at once returns.\<close>

theorem chunking_changes_nothing:
  assumes "rangeAdditive ctx provider" "srFromBlock scan \<le> srToBlock scan"
    and "v2FilterTopics (loadV2EventTopics abi) = Inr topics"
    and "provider ctx \<lparr>lfAddresses = srAddresses scan, lfFromBlock = srFromBlock scan, lfToBlock = srToBlock scan,
      lfTopics = [topics]\<rparr> = Inr logs"
    and "AccumulateV2Logs abi raw keccak logs = Inr events"
  shows "ScanV2Events (loadV2EventTopics abi) (AccumulateV2Logs abi raw keccak) ctx (Some provider) scan = Inr events"
  using v2_logs.scanLogChunks_whole [OF assms(1,2), of "[topics]" abi raw keccak events] assms(3-5)
  by (simp add: ScanV2Events_def ScanV2EventChunks_def)

text \<open>C16: A scan of V2 events that continues from its checkpoint in two runs,
  at two heights of the chain, returns the events and leaves the checkpoint of one run at the
  later height: no block is skipped or scanned twice (the last 64-bit block number apart).\<close>

theorem resumed_scan_composes:
  assumes "rangeAdditive None provider" "h1 \<le> h2" "h1 < - 1" "memCheckpointOk s"
    and "scanTo abi raw keccak provider scan h1 s = Inr (s1, ev1, cp1)"
    and "scanTo abi raw keccak provider scan h2 s1 = Inr (s2, ev2, cp2)"
    and "scanTo abi raw keccak provider scan h2 s = Inr (s3, ev3, cp3)"
  shows "ev3 = appendV2AccumulatedEvents ev1 ev2 \<and> cp3 = cp2 \<and>
    MemoryCheckpointStore_LoadCheckpoint None s3 (csKey scan) = MemoryCheckpointStore_LoadCheckpoint None s2 (csKey scan)"
proof -
  obtain cps where s: "s = Some cps" using assms(4) by (auto simp: memCheckpointOk_def)
  let ?c = "csConfirmations scan" and ?a = "startOf cps scan"
  note r = scan_run [OF assms(1)]
  note r1 = assms(5) [unfolded s r] and r3 = assms(7) [unfolded s r]
  show ?thesis
  proof (cases "h1 < ?c \<or> h1 - ?c < ?a")
    case True
    then have "s1 = s" "ev1 = emptyV2AccumulatedEvents" using r1 s by auto
    then show ?thesis using assms(6,7) by simp
  next
    case False
    then obtain l1 where l1: "logsOf abi provider scan ?a (h1 - ?c) = Inr l1" "AccumulateV2Logs abi raw keccak l1 = Inr ev1"
      "cp1 = \<lparr>NextBlock = h1 - ?c + 1\<rparr>" "s1 = Some (gput (csKey scan) cp1 cps)" "csKey scan \<noteq> []"
      using r1 by auto
    have c: "?c \<le> h1" "?c \<le> h2" "?a \<le> h1 - ?c" using False assms(2) by (auto simp: not_less)
    have st: "startOf (gput (csKey scan) cp1 cps) scan = h1 - ?c + 1" using l1(3) by (simp add: startOf_def gomap_simps)
    note r2 = assms(6) [unfolded l1(4) r st]
    have le: "h1 - ?c \<le> h2 - ?c" using assms(2) c(1,2) by (simp add: word_le_def uint_sub_if')
    have lt: "h1 - ?c < - 1" using assms(3) c(1) by (simp add: word_less_def uint_sub_if' word_le_def) (use uint_ge_0 [of ?c] in linarith)
    have suc: "h2 - ?c < h1 - ?c + 1 \<longleftrightarrow> h2 - ?c = h1 - ?c"
      using block_succ [OF lt] le by (simp add: word_less_def word_le_def word_uint_eq_iff, linarith?)
    have n2: "\<not> h2 < ?c" "\<not> h2 - ?c < ?a" using c le by auto
    obtain l3 where l3: "logsOf abi provider scan ?a (h2 - ?c) = Inr l3" "AccumulateV2Logs abi raw keccak l3 = Inr ev3"
      "cp3 = \<lparr>NextBlock = h2 - ?c + 1\<rparr>" "s3 = Some (gput (csKey scan) cp3 cps)"
      using r3 n2 by auto
    show ?thesis
    proof (cases "h2 - ?c = h1 - ?c")
      case True
      then have "s2 = s1" "ev2 = emptyV2AccumulatedEvents" "cp2 = \<lparr>NextBlock = h1 - ?c + 1\<rparr>" using r2 suc l1(4) by auto
      then show ?thesis using True l1 l3 by simp
    next
      case neq: False
      then obtain l2 where l2: "logsOf abi provider scan (h1 - ?c + 1) (h2 - ?c) = Inr l2" "AccumulateV2Logs abi raw keccak l2 = Inr ev2"
        "cp2 = \<lparr>NextBlock = h2 - ?c + 1\<rparr>" "s2 = Some (gput (csKey scan) cp2 (gput (csKey scan) cp1 cps))"
        using r2 suc n2(1) by auto
      have "h1 - ?c < h2 - ?c" using le neq by (metis order_le_neq_trans)
      then have "logsOf abi provider scan ?a (h2 - ?c) =
          andThen (logsOf abi provider scan ?a (h1 - ?c)) (\<lambda>x. andThen (logsOf abi provider scan (h1 - ?c + 1) (h2 - ?c)) (\<lambda>y. Inr (x @ y)))"
        using assms(1) [unfolded rangeAdditive_def, rule_format, OF c(3), of "h2 - ?c"
            "\<lparr>lfAddresses = csAddresses scan, lfFromBlock = ?a, lfToBlock = ?a, lfTopics = [topics]\<rparr>" for topics]
        by (cases "v2FilterTopics (loadV2EventTopics abi)") (simp_all add: logsOf_def)
      then have "l3 = l1 @ l2" using l1(1) l2(1) l3(1) by simp
      then have "ev3 = appendV2AccumulatedEvents ev1 ev2" using l3(2) l1(2) l2(2) by (simp add: AccumulateV2Logs_append)
      then show ?thesis using l2 l3 by (simp add: MemoryCheckpointStore_LoadCheckpoint_def gomap_simps)
    qed
  qed
qed


definition sampleAbi :: abiV2 where
  "sampleAbi = \<lparr>eventTopic = Inr,
     unpackShield = (\<lambda>_. Err ''short''),
     unpackTransact = (\<lambda>_. Inr \<lparr>taTreeNumber = Some 0, taStartPosition = Some 7,
       taHash = [replicate 32 1, replicate 32 2],
       taCiphertext = replicate 2 \<lparr>acCiphertext = replicate 4 (replicate 32 0), acBlindedSenderViewingKey = [],
         acBlindedReceiverViewingKey = [], acAnnotationData = [], acMemo = []\<rparr>\<rparr>),
     unpackUnshield = (\<lambda>_. Err ''short''), unpackNullified = (\<lambda>_. Err ''short''),
     addressHex = (\<lambda>_. ''0x00'')\<rparr>"

definition sampleLog :: "uint64 \<Rightarrow> ContractLog" where
  "sampleLog b = \<lparr>lgTopics = [''Transact''], lgData = ''0x'', lgTransactionHash = ''0x0b'', lgBlockNumber = b, lgIndex = 0\<rparr>"

definition sampleAccumulated :: "ContractLog list \<Rightarrow> V2AccumulatedEvents res" where
  "sampleAccumulated = AccumulateV2Logs sampleAbi sampleConstants (\<lambda>_. [])"

theorem accumulated_consecutive_witness:
  "\<exists>out. sampleAccumulated [sampleLog 9] = Inr out \<and> (\<forall>ev \<in> set (a2CommitmentEvents out). consecutive ev) \<and>
     length (a2CommitmentEvents out) = 1"
proof -
  have "case sampleAccumulated [sampleLog 9] of Inl _ \<Rightarrow> False | Inr out \<Rightarrow> length (a2CommitmentEvents out) = 1" by code_simp
  then obtain out where o: "sampleAccumulated [sampleLog 9] = Inr out" "length (a2CommitmentEvents out) = 1"
    by (auto split: sum.splits)
  show ?thesis using accumulated_consecutive [OF o(1) [unfolded sampleAccumulated_def]] o by auto
qed

text \<open>The provider of the example has one log, in block 3.\<close>

definition sampleProvider :: logProvider where
  "sampleProvider ctx f = Inr (if lfFromBlock f \<le> 3 \<and> 3 \<le> lfToBlock f then [sampleLog 3] else [])"

lemma sampleProvider_additive: "rangeAdditive ctx sampleProvider"
  unfolding rangeAdditive_def
proof (intro allI impI)
  fix f :: LogFilter and a b c :: uint64
  assume "a \<le> b" "b < c"
  then have "b + 1 \<le> 3 \<longleftrightarrow> \<not> 3 \<le> b" using block_succ [of b c] by (simp add: word_le_def zle_add1_eq_le not_le) linarith
  then show "sampleProvider ctx (f\<lparr>lfFromBlock := a, lfToBlock := c\<rparr>) =
      andThen (sampleProvider ctx (f\<lparr>lfFromBlock := a, lfToBlock := b\<rparr>)) (\<lambda>x.
      andThen (sampleProvider ctx (f\<lparr>lfFromBlock := b + 1, lfToBlock := c\<rparr>)) (\<lambda>y. Inr (x @ y)))"
    using \<open>a \<le> b\<close> \<open>b < c\<close> by (cases "3 \<le> b") (auto simp: sampleProvider_def)
qed

theorem chunking_changes_nothing_witness:
  "\<exists>events. ScanV2Events (loadV2EventTopics sampleAbi) sampleAccumulated None (Some sampleProvider)
     \<lparr>srAddresses = [], srFromBlock = 1, srToBlock = 6, srChunkSize = 2\<rparr> = Inr events \<and>
   sampleAccumulated [sampleLog 3] = Inr events"
proof -
  have "case sampleAccumulated [sampleLog 3] of Inl _ \<Rightarrow> False | Inr _ \<Rightarrow> True" by code_simp
  then obtain ev where ev: "sampleAccumulated [sampleLog 3] = Inr ev" by (auto split: sum.splits)
  show ?thesis
    using chunking_changes_nothing [OF sampleProvider_additive, where abi = sampleAbi and raw = sampleConstants
        and keccak = "\<lambda>_. []" and ctx = None and topics = "[''Shield'', ''Transact'', ''Unshield'', ''Nullified'']"
        and logs = "[sampleLog 3]" and events = ev
        and scan = "\<lparr>srAddresses = [], srFromBlock = 1, srToBlock = 6, srChunkSize = 2\<rparr>"] ev
    by (simp add: sampleAccumulated_def v2FilterTopics_def loadV2EventTopics_def V2EventTopic_def sampleAbi_def sampleProvider_def)
qed

definition sampleScan :: CheckpointedScan where
  "sampleScan = \<lparr>csKey = ''k'', csAddresses = [], csStartBlock = 1, csChunkSize = 2, csConfirmations = 1\<rparr>"

definition sampleScanTo where
  "sampleScanTo = scanTo sampleAbi sampleConstants (\<lambda>_. []) sampleProvider sampleScan"

theorem resumed_scan_composes_witness:
  "\<exists>s1 ev1 s2 ev2 s3 ev3 cp. sampleScanTo 2 (Some []) = Inr (s1, ev1, \<lparr>NextBlock = 2\<rparr>) \<and>
     sampleScanTo 6 s1 = Inr (s2, ev2, cp) \<and> sampleScanTo 6 (Some []) = Inr (s3, ev3, cp) \<and>
     ev3 = appendV2AccumulatedEvents ev1 ev2 \<and> length (a2CommitmentEvents ev3) = 1"
proof -
  have acc: "case sampleAccumulated [sampleLog 3] of Inl _ \<Rightarrow> False | Inr out \<Rightarrow> length (a2CommitmentEvents out) = 1" by code_simp
  then obtain ev where ev: "AccumulateV2Logs sampleAbi sampleConstants (\<lambda>_. []) [sampleLog 3] = Inr ev"
    "length (a2CommitmentEvents ev) = 1" by (auto simp: sampleAccumulated_def split: sum.splits)
  have nil: "AccumulateV2Logs sampleAbi sampleConstants (\<lambda>_. []) [] = Inr emptyV2AccumulatedEvents" by code_simp
  have topics: "v2FilterTopics (loadV2EventTopics sampleAbi) = Inr [''Shield'', ''Transact'', ''Unshield'', ''Nullified'']"
    by (simp add: v2FilterTopics_def loadV2EventTopics_def V2EventTopic_def sampleAbi_def)
  note run = scan_run [OF sampleProvider_additive, where abi = sampleAbi and raw = sampleConstants and keccak = "\<lambda>_. []"
      and scan = sampleScan]
  note defs = sampleScan_def logsOf_def startOf_def topics sampleProvider_def nil ev(1) gomap_simps word_le_def
  have 1: "sampleScanTo 2 (Some []) = Inr (Some (gput ''k'' \<lparr>NextBlock = 2\<rparr> []), emptyV2AccumulatedEvents, \<lparr>NextBlock = 2\<rparr>)"
    unfolding sampleScanTo_def run by (simp add: defs)
  have 2: "sampleScanTo 6 (Some (gput ''k'' \<lparr>NextBlock = 2\<rparr> [])) =
      Inr (Some (gput ''k'' \<lparr>NextBlock = 6\<rparr> (gput ''k'' \<lparr>NextBlock = 2\<rparr> [])), ev, \<lparr>NextBlock = 6\<rparr>)"
    unfolding sampleScanTo_def run by (simp add: defs)
  have 3: "sampleScanTo 6 (Some []) = Inr (Some (gput ''k'' \<lparr>NextBlock = 6\<rparr> []), ev, \<lparr>NextBlock = 6\<rparr>)"
    unfolding sampleScanTo_def run by (simp add: defs)
  have "ev = appendV2AccumulatedEvents emptyV2AccumulatedEvents ev"
    using resumed_scan_composes [OF sampleProvider_additive, where ?h1.0 = 2 and ?h2.0 = 6 and s = "Some []",
        OF _ _ _ 1 [unfolded sampleScanTo_def] 2 [unfolded sampleScanTo_def] 3 [unfolded sampleScanTo_def]]
    by (simp add: memCheckpointOk_def)
  then show ?thesis using 1 2 3 ev(2) by blast
qed

end
