(* ===== verification/Cipher.thy ===== *)
theory Cipher
  imports Events
begin

text \<open>
  Models \<^verbatim>\<open>pkg/crypto/aes.go\<close> and \<^verbatim>\<open>pkg/crypto/xchacha.go\<close>: the ciphers over
  hexadecimal text. The primitives of the standard library and of \<^verbatim>\<open>golang.org/x/crypto\<close>
  are the fields of \<open>ciphers\<close>; \<open>cipherLaws\<close> states what their documentation promises:
  opening undoes sealing, the tag has 16 bytes, and a key stream is undone by applying it again.
\<close>

record ciphers =
  gcmSeal :: "byte list \<Rightarrow> byte list \<Rightarrow> byte list \<Rightarrow> byte list"
  gcmOpen :: "byte list \<Rightarrow> byte list \<Rightarrow> byte list \<Rightarrow> byte list res"
  ctrXOR :: "byte list \<Rightarrow> byte list \<Rightarrow> byte list \<Rightarrow> byte list"
  polySeal :: "byte list \<Rightarrow> byte list \<Rightarrow> byte list \<Rightarrow> byte list"
  polyOpen :: "byte list \<Rightarrow> byte list \<Rightarrow> byte list \<Rightarrow> byte list res"
  chachaXOR :: "byte list \<Rightarrow> byte list \<Rightarrow> byte list \<Rightarrow> byte list"
  sha256 :: "byte list \<Rightarrow> byte list"

definition cipherLaws :: "ciphers \<Rightarrow> bool" where
  "cipherLaws c \<longleftrightarrow>
     (\<forall>k iv p. length k = 32 \<and> length iv = 16 \<longrightarrow>
        length (gcmSeal c k iv p) = length p + 16 \<and> gcmOpen c k iv (gcmSeal c k iv p) = Inr p \<and>
        length (ctrXOR c k iv p) = length p \<and> ctrXOR c k iv (ctrXOR c k iv p) = p) \<and>
     (\<forall>k n p. length k = 32 \<longrightarrow> polyOpen c k n (polySeal c k n p) = Inr p \<and>
        length (chachaXOR c k n p) = length p \<and> chachaXOR c k n (chachaXOR c k n p) = p)"

section \<open>aes.go\<close>

record CiphertextCTR =
  ctrIV :: string
  ctrData :: "string list"

definition fixedBytesFromHex :: "string \<Rightarrow> nat \<Rightarrow> string \<Rightarrow> byte list res" where
  "fixedBytesFromHex v expectedLength name =
     andThen (wrapErr ''%s: %w'' [AStr name] (HexToBytes v)) (\<lambda>out.
     if length out \<noteq> expectedLength
     then Inl (Errorf ''invalid %s length: expected %d bytes, got %d'' [AStr name, ANat expectedLength, ANat (length out)])
     else Inr out)"

definition concatHexBlocks :: "string list \<Rightarrow> (byte list \<times> nat list) res" where
  "concatHexBlocks vs = foldResI 0 (\<lambda>i v (out, lengths).
     andThen (wrapErr ''block[%d]: %w'' [ANat i] (HexToBytes v)) (\<lambda>decoded.
     Inr (out @ decoded, lengths @ [length decoded]))) vs ([], [])"

fun splitHexBlocks :: "byte list \<Rightarrow> nat list \<Rightarrow> string list" where
  "splitHexBlocks v [] = []"
| "splitHexBlocks v (n # ns) = BytesToHex (take n v) False # splitHexBlocks (drop n v) ns"

definition AESGCMEncryptHex :: "ciphers \<Rightarrow> string list \<Rightarrow> string \<Rightarrow> string \<Rightarrow> CiphertextGCM res" where
  "AESGCMEncryptHex c plaintext keyHex ivHex =
     andThen (fixedBytesFromHex keyHex 32 ''key'') (\<lambda>key.
     andThen (fixedBytesFromHex ivHex 16 ''iv'') (\<lambda>iv.
     andThen (concatHexBlocks plaintext) (\<lambda>(plaintextBytes, lengths).
     let sealed = gcmSeal c key iv plaintextBytes;
         ciphertext = take (length sealed - 16) sealed;
         tag = drop (length sealed - 16) sealed
     in Inr \<lparr>gcmIV = BytesToHex iv False, gcmTag = BytesToHex tag False, gcmData = splitHexBlocks ciphertext lengths\<rparr>)))"

definition AESGCMDecryptHex :: "ciphers \<Rightarrow> CiphertextGCM \<Rightarrow> string \<Rightarrow> string list res" where
  "AESGCMDecryptHex c ciphertext keyHex =
     andThen (fixedBytesFromHex keyHex 32 ''key'') (\<lambda>key.
     andThen (fixedBytesFromHex (gcmIV ciphertext) 16 ''iv'') (\<lambda>iv.
     andThen (fixedBytesFromHex (gcmTag ciphertext) 16 ''tag'') (\<lambda>tag.
     andThen (concatHexBlocks (gcmData ciphertext)) (\<lambda>(ciphertextBytes, lengths).
     andThen (wrapErr ''unable to decrypt ciphertext: %w'' [] (gcmOpen c key iv (ciphertextBytes @ tag))) (\<lambda>plaintext.
     Inr (splitHexBlocks plaintext lengths))))))"

definition AESCTREncryptHex :: "ciphers \<Rightarrow> string list \<Rightarrow> string \<Rightarrow> string \<Rightarrow> CiphertextCTR res" where
  "AESCTREncryptHex c plaintext keyHex ivHex =
     andThen (fixedBytesFromHex keyHex 32 ''key'') (\<lambda>key.
     andThen (fixedBytesFromHex ivHex 16 ''iv'') (\<lambda>iv.
     andThen (concatHexBlocks plaintext) (\<lambda>(plaintextBytes, lengths).
     Inr \<lparr>ctrIV = BytesToHex iv False, ctrData = splitHexBlocks (ctrXOR c key iv plaintextBytes) lengths\<rparr>)))"

definition AESCTRDecryptHex :: "ciphers \<Rightarrow> CiphertextCTR \<Rightarrow> string \<Rightarrow> string list res" where
  "AESCTRDecryptHex c ciphertext keyHex =
     andThen (fixedBytesFromHex keyHex 32 ''key'') (\<lambda>key.
     andThen (fixedBytesFromHex (ctrIV ciphertext) 16 ''iv'') (\<lambda>iv.
     andThen (concatHexBlocks (ctrData ciphertext)) (\<lambda>(ciphertextBytes, lengths).
     Inr (splitHexBlocks (ctrXOR c key iv ciphertextBytes) lengths))))"

section \<open>xchacha.go\<close>

definition XChaChaEncryptionAlgorithm :: string where
  "XChaChaEncryptionAlgorithm = ''XChaCha''"

definition XChaChaPoly1305EncryptionAlgorithm :: string where
  "XChaChaPoly1305EncryptionAlgorithm = ''XChaChaPoly1305''"

definition stringBytes :: "string \<Rightarrow> byte list" where
  "stringBytes s = map (\<lambda>c. word_of_nat (of_char c)) s"

definition bytesString :: "byte list \<Rightarrow> string" where
  "bytesString bs = map (\<lambda>b. char_of (unat b)) bs"

definition xChaChaNonceFromRailgunNonce :: "ciphers \<Rightarrow> string \<Rightarrow> byte list" where
  "xChaChaNonceFromRailgunNonce c nonceHex = take 24 (sha256 c (stringBytes nonceHex))"

definition keyLength :: "byte list \<Rightarrow> 'a res \<Rightarrow> 'a res" where
  "keyLength key m =
     (if length key \<noteq> 32 then Inl (Errorf ''invalid key length: expected %d bytes, got %d'' [ANat 32, ANat (length key)])
      else m)"

definition xChaCha20XORHex :: "ciphers \<Rightarrow> string \<Rightarrow> byte list \<Rightarrow> string \<Rightarrow> string res" where
  "xChaCha20XORHex c inputHex key nonceHex =
     keyLength key (andThen (HexToBytes inputHex) (\<lambda>input.
     Inr (BytesToHex (chachaXOR c key (xChaChaNonceFromRailgunNonce c nonceHex) input) False)))"

definition XChaCha20EncryptHex :: "ciphers \<Rightarrow> string \<Rightarrow> byte list \<Rightarrow> string \<Rightarrow> CiphertextXChaCha res" where
  "XChaCha20EncryptHex c plaintextHex key nonceHex =
     andThen (xChaCha20XORHex c plaintextHex key nonceHex) (\<lambda>bundle.
     Inr \<lparr>xccAlgorithm = XChaChaEncryptionAlgorithm, xccNonce = nonceHex, xccBundle = bundle\<rparr>)"

definition XChaCha20DecryptHex :: "ciphers \<Rightarrow> CiphertextXChaCha \<Rightarrow> byte list \<Rightarrow> string res" where
  "XChaCha20DecryptHex c ciphertext key =
     (if xccAlgorithm ciphertext \<noteq> XChaChaEncryptionAlgorithm
      then Inl (Errorf ''invalid ciphertext for XChaCha: %s'' [AStr (xccAlgorithm ciphertext)])
      else xChaCha20XORHex c (xccBundle ciphertext) key (xccNonce ciphertext))"

definition XChaCha20Poly1305EncryptHex :: "ciphers \<Rightarrow> string \<Rightarrow> byte list \<Rightarrow> string \<Rightarrow> CiphertextXChaCha res" where
  "XChaCha20Poly1305EncryptHex c plaintextHex key nonceHex =
     keyLength key (andThen (HexToBytes plaintextHex) (\<lambda>plaintext.
     Inr \<lparr>xccAlgorithm = XChaChaPoly1305EncryptionAlgorithm, xccNonce = nonceHex,
       xccBundle = BytesToHex (polySeal c key (xChaChaNonceFromRailgunNonce c nonceHex) plaintext) False\<rparr>))"

definition XChaCha20Poly1305DecryptHex :: "ciphers \<Rightarrow> CiphertextXChaCha \<Rightarrow> byte list \<Rightarrow> string res" where
  "XChaCha20Poly1305DecryptHex c ciphertext key =
     (if xccAlgorithm ciphertext \<noteq> XChaChaPoly1305EncryptionAlgorithm
      then Inl (Errorf ''invalid ciphertext for XChaChaPoly1305: %s'' [AStr (xccAlgorithm ciphertext)])
      else keyLength key (andThen (HexToBytes (xccBundle ciphertext)) (\<lambda>bundle.
        andThen (polyOpen c key (xChaChaNonceFromRailgunNonce c (xccNonce ciphertext)) bundle) (\<lambda>plaintext.
        Inr (BytesToHex plaintext False)))))"

section \<open>Bytes and their text\<close>

lemma HexToBytes_hexEncode [simp]: "HexToBytes (hexEncode bs) = Inr bs"
proof -
  have "Strip0x (hexEncode bs) = hexEncode bs"
    using lowerHex_hexEncode [of bs] by (intro Strip0x_hex) blast
  then show ?thesis
    using length_hexEncode [of bs] by (cases "bs = []") (auto simp: HexToBytes_def Let_def simp del: length_hexEncode)
qed

lemma HexToBytes_lowerHex:
  assumes "lowerHex s" and "even (length s)"
  obtains bs where "HexToBytes s = Inr bs" "hexEncode bs = s"
proof -
  have hex: "hexString s" using assms(1) by blast
  obtain bs where bs: "hexDecode s = Inr bs"
    using hexDecode_total [OF hex assms(2)] by blast
  have "hexEncode bs = s"
    using hexEncode_hexDecode [OF bs] assms(1) unfolding lowerHex_ToLower by blast
  moreover have "HexToBytes s = Inr bs"
    using assms(2) bs by (auto simp: HexToBytes_def Strip0x_hex [OF hex] Let_def)
  ultimately show ?thesis by (rule that [rotated])
qed

lemma bytesString_stringBytes [simp]: "bytesString (stringBytes s) = s"
  by (simp add: bytesString_def stringBytes_def comp_def unat_of_nat)

lemma fixedBytes_hexEncode [simp]: "length bs = n \<Longrightarrow> fixedBytesFromHex (hexEncode bs) n name = Inr bs"
  by (simp add: fixedBytesFromHex_def)

lemma concatHexBlocks_aux:
  assumes "list_all2 (\<lambda>v bs. HexToBytes v = Inr bs) vs bss"
  shows "foldResI i (\<lambda>i v (out, lengths).
     andThen (wrapErr ''block[%d]: %w'' [ANat i] (HexToBytes v)) (\<lambda>decoded.
     Inr (out @ decoded, lengths @ [length decoded]))) vs (out, lengths) = Inr (out @ concat bss, lengths @ map length bss)"
  using assms by (induction arbitrary: i out lengths rule: list_all2_induct) simp_all

lemma concatHexBlocks_all:
  "list_all2 (\<lambda>v bs. HexToBytes v = Inr bs) vs bss \<Longrightarrow> concatHexBlocks vs = Inr (concat bss, map length bss)"
  by (simp add: concatHexBlocks_def concatHexBlocks_aux)

fun cutBlocks :: "byte list \<Rightarrow> nat list \<Rightarrow> byte list list" where
  "cutBlocks v [] = []"
| "cutBlocks v (n # ns) = take n v # cutBlocks (drop n v) ns"

lemma splitHexBlocks_cut: "splitHexBlocks v ns = map hexEncode (cutBlocks v ns)"
  by (induction ns arbitrary: v) simp_all

lemma cutBlocks_all: "sum_list ns = length v \<Longrightarrow> concat (cutBlocks v ns) = v \<and> map length (cutBlocks v ns) = ns"
  by (induction ns arbitrary: v) simp_all

lemma length_cutBlocks [simp]: "length (cutBlocks v ns) = length ns"
  by (induction ns arbitrary: v) simp_all

lemma cutBlocks_concat [simp]: "cutBlocks (concat bss) (map length bss) = bss"
  by (induction bss) simp_all

lemma concatHexBlocks_hexEncode [simp]: "concatHexBlocks (map hexEncode bss) = Inr (concat bss, map length bss)"
  by (rule concatHexBlocks_all) (simp add: list_all2_conv_all_nth)

lemma sum_list_lengths [simp]: "sum_list (map length bss) = length (concat bss)"
  by (simp add: length_concat)

section \<open>Decryption undoes encryption\<close>

lemma gcm_roundtrip:
  assumes laws: "cipherLaws c" and blocks: "list_all2 (\<lambda>v bs. HexToBytes v = Inr bs) plaintext bss"
    and enc: "AESGCMEncryptHex c plaintext keyHex ivHex = Inr ct"
  shows "AESGCMDecryptHex c ct keyHex = Inr (map hexEncode bss)" and "length (gcmData ct) = length bss"
    and "\<exists>cs. gcmData ct = map hexEncode cs"
proof -
  obtain key iv where key: "fixedBytesFromHex keyHex 32 ''key'' = Inr key" and iv: "length key = 32" "length iv = 16"
      and ct: "ct = (let sealed = gcmSeal c key iv (concat bss) in
        \<lparr>gcmIV = hexEncode iv, gcmTag = hexEncode (drop (length sealed - 16) sealed),
         gcmData = splitHexBlocks (take (length sealed - 16) sealed) (map length bss)\<rparr>)"
    using enc by (auto simp: AESGCMEncryptHex_def concatHexBlocks_all [OF blocks] fixedBytesFromHex_def Let_def res_elims split: if_splits)
  define sealed where "sealed = gcmSeal c key iv (concat bss)"
  have len: "length sealed = length (concat bss) + 16" and open1: "gcmOpen c key iv sealed = Inr (concat bss)"
    using laws iv by (auto simp: cipherLaws_def sealed_def)
  define parts where "parts = cutBlocks (take (length (concat bss)) sealed) (map length bss)"
  have parts: "concat parts = take (length (concat bss)) sealed" "map length parts = map length bss"
    using cutBlocks_all [of "map length bss" "take (length (concat bss)) sealed"] len by (simp_all add: parts_def)
  have data: "gcmData ct = map hexEncode parts" "gcmTag ct = hexEncode (drop (length (concat bss)) sealed)" "gcmIV ct = hexEncode iv"
    using len by (simp_all add: ct Let_def parts_def splitHexBlocks_cut flip: sealed_def)
  show "AESGCMDecryptHex c ct keyHex = Inr (map hexEncode bss)"
    unfolding AESGCMDecryptHex_def key data using len iv open1 by (simp add: parts splitHexBlocks_cut)
  show "\<exists>cs. gcmData ct = map hexEncode cs"
    unfolding data by blast
  show "length (gcmData ct) = length bss"
    by (simp add: data parts_def)
qed

lemma ctr_roundtrip:
  assumes laws: "cipherLaws c" and blocks: "list_all2 (\<lambda>v bs. HexToBytes v = Inr bs) plaintext bss"
    and enc: "AESCTREncryptHex c plaintext keyHex ivHex = Inr ct"
  obtains iv cs where "ctrIV ct = hexEncode iv" "length iv = 16" "ctrData ct = map hexEncode cs" "map length cs = map length bss"
    "\<And>ds. concat ds = concat cs \<Longrightarrow> AESCTRDecryptHex c \<lparr>ctrIV = hexEncode iv, ctrData = map hexEncode ds\<rparr> keyHex =
       Inr (splitHexBlocks (concat bss) (map length ds))"
proof -
  obtain key iv where key: "fixedBytesFromHex keyHex 32 ''key'' = Inr key" and iv: "length key = 32" "length iv = 16"
      and ct: "ct = \<lparr>ctrIV = hexEncode iv, ctrData = splitHexBlocks (ctrXOR c key iv (concat bss)) (map length bss)\<rparr>"
    using enc by (auto simp: AESCTREncryptHex_def concatHexBlocks_all [OF blocks] fixedBytesFromHex_def Let_def res_elims split: if_splits)
  define out where "out = ctrXOR c key iv (concat bss)"
  have len: "length out = length (concat bss)" and undo: "ctrXOR c key iv out = concat bss"
    using laws iv by (auto simp: cipherLaws_def out_def)
  define cs where "cs = cutBlocks out (map length bss)"
  have cs: "concat cs = out" "map length cs = map length bss"
    using cutBlocks_all [of "map length bss" out] len by (simp_all add: cs_def)
  show ?thesis
  proof (rule that [of iv cs])
    fix ds assume "concat ds = concat cs"
    then show "AESCTRDecryptHex c \<lparr>ctrIV = hexEncode iv, ctrData = map hexEncode ds\<rparr> keyHex = Inr (splitHexBlocks (concat bss) (map length ds))"
      unfolding AESCTRDecryptHex_def key using iv by (simp add: cs undo)
  qed (simp_all add: ct cs iv splitHexBlocks_cut flip: out_def cs_def)
qed

lemma xchacha_roundtrip:
  assumes "cipherLaws c" and "HexToBytes plaintext = Inr bs" and "XChaCha20EncryptHex c plaintext key nonce = Inr ct"
  shows "xccNonce ct = nonce" and "XChaCha20DecryptHex c ct key = Inr (hexEncode bs)"
    and "xccAlgorithm ct = XChaChaEncryptionAlgorithm" and "\<exists>cs. xccBundle ct = hexEncode cs \<and> length cs = length bs"
  using assms
  by (auto simp: XChaCha20EncryptHex_def XChaCha20DecryptHex_def xChaCha20XORHex_def keyLength_def res_elims cipherLaws_def split: if_splits)

lemma xchachapoly_roundtrip:
  assumes "cipherLaws c" and "HexToBytes plaintext = Inr bs" and "XChaCha20Poly1305EncryptHex c plaintext key nonce = Inr ct"
  shows "XChaCha20Poly1305DecryptHex c ct key = Inr (hexEncode bs)"
  using assms
  by (auto simp: XChaCha20Poly1305EncryptHex_def XChaCha20Poly1305DecryptHex_def keyLength_def res_elims cipherLaws_def split: if_splits)

section \<open>Encryption succeeds\<close>

lemma gcm_total:
  assumes "list_all2 (\<lambda>v bs. HexToBytes v = Inr bs) plaintext bss" and "length key = 32" "length iv = 16"
  shows "\<exists>ct. AESGCMEncryptHex c plaintext (hexEncode key) (hexEncode iv) = Inr ct"
  using assms by (simp add: AESGCMEncryptHex_def concatHexBlocks_all Let_def)

lemma ctr_total:
  assumes "list_all2 (\<lambda>v bs. HexToBytes v = Inr bs) plaintext bss" and "length key = 32" "length iv = 16"
  shows "\<exists>ct. AESCTREncryptHex c plaintext (hexEncode key) (hexEncode iv) = Inr ct"
  using assms by (simp add: AESCTREncryptHex_def concatHexBlocks_all)

lemma xchacha_total:
  assumes "HexToBytes plaintext = Inr bs" and "length key = 32"
  shows "\<exists>ct. XChaCha20EncryptHex c plaintext key nonce = Inr ct" and "\<exists>ct. XChaCha20Poly1305EncryptHex c plaintext key nonce = Inr ct"
  using assms by (simp_all add: XChaCha20EncryptHex_def xChaCha20XORHex_def XChaCha20Poly1305EncryptHex_def keyLength_def)

end
