(* ===== verification/EventsV3.thy ===== *)
theory EventsV3
  imports EventsV2 TxidTree Cipher
begin

text \<open>
  Models the decoding of the V3 accumulator in \<^verbatim>\<open>pkg/events/v3.go\<close> and the V3 half of
  \<^verbatim>\<open>accumulator.go\<close>: one log holds the transactions and shields of an update with the
  fees that the treasury took. The topic and the unpacked arguments of a log are arguments of the
  model, as for V2.
\<close>

section \<open>Decoded updates\<close>

record abiV3TransactionConfiguration =
  tcNullifiers :: "byte list list"
  tcCommitmentsCount :: nat
  tcSpendAccumulatorNumber :: nat
  tcUnshieldPreimage :: abiCommitmentPreimage
  tcBoundParamsHash :: "byte list"

record abiV3ShieldConfiguration =
  scFrom :: "byte list"
  scPreimage :: abiCommitmentPreimage
  scCiphertext :: abiShieldCiphertext

record abiCommitmentCiphertextV3 =
  c3Ciphertext :: "byte list"
  c3BlindedSenderViewingKey :: "byte list"
  c3BlindedReceiverViewingKey :: "byte list"

record abiTreasuryFee =
  trTokenID :: "byte list"
  trFee :: "int option"

record abiAccumulatorStateUpdate =
  upCommitments :: "byte list list"
  upTransactions :: "abiV3TransactionConfiguration list"
  upShields :: "abiV3ShieldConfiguration list"
  upCommitmentCiphertext :: "abiCommitmentCiphertextV3 list"
  upTreasuryFees :: "abiTreasuryFee list"
  upSenderCiphertext :: "byte list"

record abiAccumulatorStateUpdateEvent =
  ueUpdate :: abiAccumulatorStateUpdate
  ueAccumulatorNumber :: nat
  ueStartPosition :: "int option"

record treasuryFeePortions =
  tfShield :: int
  tfUnshield :: int

record abiV3 =
  v3Base :: abiV2
  accumulatorTopic :: "string res"
  unpackAccumulator :: "byte list \<Rightarrow> abiAccumulatorStateUpdateEvent res"

definition CommitmentTypeTransactV3 :: string where
  "CommitmentTypeTransactV3 = ''TransactCommitmentV3''"

definition RailgunTransactionVersionV3 :: string where
  "RailgunTransactionVersionV3 = ''V3''"

definition GlobalUTXOTreeUnshieldEvent :: int where
  "GlobalUTXOTreeUnshieldEvent = 99999"

definition GlobalUTXOPositionUnshieldEvent :: int where
  "GlobalUTXOPositionUnshieldEvent = 99999"

text \<open>\<^verbatim>\<open>big.Int.Div\<close> rounds so that the remainder is not negative.\<close>

definition bigDiv :: "int \<Rightarrow> int \<Rightarrow> int" where
  "bigDiv a b = (if b < 0 then - (a div (- b)) else a div b)"

definition bytes32SliceHex :: "byte list list \<Rightarrow> string list" where
  "bytes32SliceHex values = map bytes32Hex values"

definition bytes32SliceHexPrefixed :: "byte list list \<Rightarrow> string list" where
  "bytes32SliceHexPrefixed values = map (\<lambda>value. ''0x'' @ bytes32Hex value) values"

definition tokenHashFromPreimage :: "abiV2 \<Rightarrow> (byte list \<Rightarrow> byte list) \<Rightarrow> abiCommitmentPreimage \<Rightarrow> string res" where
  "tokenHashFromPreimage abi keccak preimage = andThen (tokenDataFromABI abi (apToken preimage)) (TokenDataHash keccak)"

definition noteHashFromPreimage ::
  "abiV2 \<Rightarrow> poseidonConstantsRaw \<Rightarrow> (byte list \<Rightarrow> byte list) \<Rightarrow> abiCommitmentPreimage \<Rightarrow> string res" where
  "noteHashFromPreimage abi raw keccak preimage =
     andThen (tokenDataFromABI abi (apToken preimage)) (\<lambda>token.
     andThen (HexToBigInt (bytes32Hex (apNPK preimage))) (\<lambda>npk.
     andThen (NoteHashFromTokenData raw keccak npk token (defaultBigInt (apValue preimage))) (\<lambda>hash.
     BigIntToHex (Some hash) 32 False)))"

section \<open>Treasury fees\<close>

text \<open>The value of the first preimage of the token.\<close>

fun firstTokenValue :: "abiV2 \<Rightarrow> (byte list \<Rightarrow> byte list) \<Rightarrow> string \<Rightarrow> abiCommitmentPreimage list \<Rightarrow> int res" where
  "firstTokenValue abi keccak tokenID [] = Inr 0"
| "firstTokenValue abi keccak tokenID (p # ps) =
     andThen (tokenHashFromPreimage abi keccak p) (\<lambda>tokenHash.
     if tokenHash = tokenID then Inr (defaultBigInt (apValue p)) else firstTokenValue abi keccak tokenID ps)"

text \<open>The smaller value gets its share rounded down, the other the rest.\<close>

definition feePortions :: "int \<Rightarrow> int \<Rightarrow> int \<Rightarrow> treasuryFeePortions" where
  "feePortions unshieldValue shieldValue fee =
     (let sum = unshieldValue + shieldValue
      in if sum = 0 then \<lparr>tfShield = 0, tfUnshield = 0\<rparr>
         else if unshieldValue < shieldValue
         then (let unshieldFee = bigDiv (unshieldValue * fee) sum in \<lparr>tfShield = fee - unshieldFee, tfUnshield = unshieldFee\<rparr>)
         else (let shieldFee = bigDiv (shieldValue * fee) sum in \<lparr>tfShield = shieldFee, tfUnshield = fee - shieldFee\<rparr>))"

definition v3TreasuryFeeMap ::
  "abiV2 \<Rightarrow> (byte list \<Rightarrow> byte list) \<Rightarrow> abiV3TransactionConfiguration list \<Rightarrow> abiV3ShieldConfiguration list
   \<Rightarrow> abiTreasuryFee list \<Rightarrow> (string, treasuryFeePortions) gomap res" where
  "v3TreasuryFeeMap abi keccak transactions shields fees =
     foldRes (\<lambda>treasuryFee out.
       let tokenID = bytes32Hex (trTokenID treasuryFee)
       in andThen (firstTokenValue abi keccak tokenID (map tcUnshieldPreimage transactions)) (\<lambda>unshieldValue.
          andThen (firstTokenValue abi keccak tokenID (map scPreimage shields)) (\<lambda>shieldValue.
          Inr (gput tokenID (feePortions unshieldValue shieldValue (defaultBigInt (trFee treasuryFee))) out)))) fees []"

definition totalV3UnshieldValue :: "abiV3TransactionConfiguration list \<Rightarrow> int" where
  "totalV3UnshieldValue transactions = sum_list (map (\<lambda>t. defaultBigInt (apValue (tcUnshieldPreimage t))) transactions)"

definition totalV3ShieldValue :: "abiV3ShieldConfiguration list \<Rightarrow> int" where
  "totalV3ShieldValue shields = sum_list (map (\<lambda>s. defaultBigInt (apValue (scPreimage s))) shields)"

text \<open>The share of one preimage of the token's portion; the value of an ERC20 preimage is dereferenced.\<close>

definition feeShare :: "abiCommitmentPreimage \<Rightarrow> int \<Rightarrow> int \<Rightarrow> string \<Rightarrow> int res" where
  "feeShare preimage portion whole tooSmall =
     (case apValue preimage of
        None \<Rightarrow> Inl (Panic ''nil pointer dereference'')
      | Some v \<Rightarrow>
          (let fee = if whole > 0 then bigDiv (portion * v) whole else 0
           in if v \<ge> 400 \<and> fee = 0 then Err tooSmall else Inr fee))"

definition unshieldFeeOf ::
  "abiV2 \<Rightarrow> (byte list \<Rightarrow> byte list) \<Rightarrow> (string, treasuryFeePortions) gomap \<Rightarrow> abiV3TransactionConfiguration list
   \<Rightarrow> abiCommitmentPreimage \<Rightarrow> int res" where
  "unshieldFeeOf abi keccak feeMap transactions preimage =
     andThen (tokenHashFromPreimage abi keccak preimage) (\<lambda>tokenHash.
     if int (atTokenType (apToken preimage)) \<noteq> TokenTypeERC20 then Inr 0
     else case gget feeMap tokenHash of
       None \<Rightarrow> Err ''expected unshield token hash in treasuryFeeMap''
     | Some portions \<Rightarrow> feeShare preimage (tfUnshield portions) (totalV3UnshieldValue transactions)
         ''expected an unshield fee in treasuryFeeMap'')"

definition shieldFeeOf ::
  "abiV2 \<Rightarrow> (byte list \<Rightarrow> byte list) \<Rightarrow> (string, treasuryFeePortions) gomap \<Rightarrow> abiV3ShieldConfiguration list
   \<Rightarrow> abiCommitmentPreimage \<Rightarrow> int res" where
  "shieldFeeOf abi keccak feeMap shields preimage =
     (if int (atTokenType (apToken preimage)) \<noteq> TokenTypeERC20 then Inr 0
      else andThen (tokenHashFromPreimage abi keccak preimage) (\<lambda>tokenHash.
        case gget feeMap tokenHash of
          None \<Rightarrow> Err ''expected shield token hash in treasuryFeeMap''
        | Some portions \<Rightarrow> feeShare preimage (tfShield portions) (totalV3ShieldValue shields)
            ''expected a shield fee in treasuryFeeMap''))"

section \<open>Commitments\<close>

definition FormatV3CommitmentCiphertext :: "abiCommitmentCiphertextV3 \<Rightarrow> CommitmentCiphertextV3Event res" where
  "FormatV3CommitmentCiphertext commitmentCiphertext =
     (let strippedCiphertext = BytesToHex (c3Ciphertext commitmentCiphertext) False
      in if length strippedCiphertext < 32 then Err ''ciphertext too short''
         else Inr \<lparr>v3Ciphertext = \<lparr>xccAlgorithm = XChaChaPoly1305EncryptionAlgorithm, xccNonce = take 32 strippedCiphertext,
                     xccBundle = drop 32 strippedCiphertext\<rparr>,
                v3BlindedSenderViewingKey = bytes32Hex (c3BlindedSenderViewingKey commitmentCiphertext),
                v3BlindedReceiverViewingKey = bytes32Hex (c3BlindedReceiverViewingKey commitmentCiphertext)\<rparr>)"

definition formatV3TransactCommitment ::
  "string \<Rightarrow> uint64 \<Rightarrow> int \<Rightarrow> int \<Rightarrow> nat \<Rightarrow> string \<Rightarrow> string \<Rightarrow> nat \<Rightarrow> string \<times> abiCommitmentCiphertextV3 \<Rightarrow> V3Commitment res" where
  "formatV3TransactCommitment txid blockNumber utxoTree utxoStartingIndex transactIndex senderCiphertext railgunTxid i hc =
     andThen (wrapErr ''commitment[%d] ciphertext: %w'' [ANat i] (FormatV3CommitmentCiphertext (snd hc))) (\<lambda>formatted.
     Inr \<lparr>cmCommitmentType = CommitmentTypeTransactV3, cmHash = fst hc, cmTxid = txid, cmTimestamp = None,
       cmBlockNumber = blockNumber, cmUTXOTree = utxoTree, cmUTXOIndex = goInt (utxoStartingIndex + int i),
       cmPreImage = None, cmEncryptedBundle = [], cmShieldKey = [], cmFee = [], cmFrom = [], cmCiphertext = Some formatted,
       cmRailgunTxid = railgunTxid, cmSenderCiphertext = senderCiphertext,
       cmTransactCommitmentBatchIndex = Some (int (transactIndex + i))\<rparr>)"

definition formatV3TransactCommitments ::
  "string \<Rightarrow> uint64 \<Rightarrow> string list \<Rightarrow> abiCommitmentCiphertextV3 list \<Rightarrow> int \<Rightarrow> int \<Rightarrow> nat \<Rightarrow> string \<Rightarrow> string \<Rightarrow> V3Commitment list res" where
  "formatV3TransactCommitments transactionHash blockNumber hashes ciphertexts utxoTree utxoStartingIndex transactIndex senderCiphertext railgunTxid =
     (if length hashes \<noteq> length ciphertexts then Err ''transact hash and ciphertext lengths differ''
      else andThen (formatBytes32 transactionHash) (\<lambda>txid.
        mapRes (\<lambda>(i, hc). formatV3TransactCommitment txid blockNumber utxoTree utxoStartingIndex transactIndex senderCiphertext railgunTxid i hc)
          (zip [0..<length ciphertexts] (zip hashes ciphertexts))))"

definition formatV3ShieldCommitment ::
  "abiV2 \<Rightarrow> poseidonConstantsRaw \<Rightarrow> (byte list \<Rightarrow> byte list) \<Rightarrow> string \<Rightarrow> uint64 \<Rightarrow> string \<Rightarrow> abiCommitmentPreimage
   \<Rightarrow> abiShieldCiphertext \<Rightarrow> int \<Rightarrow> int \<Rightarrow> int \<Rightarrow> V3Commitment res" where
  "formatV3ShieldCommitment abi raw keccak transactionHash blockNumber sender preimage ciphertext utxoTree utxoIndex fee =
     andThen (preImageFromABI abi preimage) (\<lambda>nativePreimage.
     andThen (noteHashFromPreimage abi raw keccak preimage) (\<lambda>hash.
     andThen (formatBytes32 transactionHash) (\<lambda>txid.
     Inr \<lparr>cmCommitmentType = CommitmentTypeShield, cmHash = hash, cmTxid = txid, cmTimestamp = None,
       cmBlockNumber = blockNumber, cmUTXOTree = utxoTree, cmUTXOIndex = utxoIndex, cmPreImage = Some nativePreimage,
       cmEncryptedBundle = shieldBundleHex (asEncryptedBundle ciphertext),
       cmShieldKey = ''0x'' @ bytes32Hex (asShieldKey ciphertext), cmFee = decimal fee, cmFrom = sender,
       cmCiphertext = None, cmRailgunTxid = [], cmSenderCiphertext = [], cmTransactCommitmentBatchIndex = None\<rparr>)))"

section \<open>Events\<close>

definition FormatV3TransactEvent ::
  "string \<Rightarrow> uint64 \<Rightarrow> string list \<Rightarrow> abiCommitmentCiphertextV3 list \<Rightarrow> int \<Rightarrow> int \<Rightarrow> nat \<Rightarrow> string \<Rightarrow> string \<Rightarrow> V3CommitmentEvent res" where
  "FormatV3TransactEvent transactionHash blockNumber hashes ciphertexts utxoTree utxoStartingIndex transactIndex senderCiphertext railgunTxid =
     andThen (formatV3TransactCommitments transactionHash blockNumber hashes ciphertexts utxoTree utxoStartingIndex transactIndex
        senderCiphertext railgunTxid) (\<lambda>commitments.
     andThen (formatBytes32 transactionHash) (\<lambda>txid.
     Inr \<lparr>ceTxid = txid, ceTreeNumber = utxoTree, ceStartPosition = utxoStartingIndex, ceCommitments = commitments,
          ceBlockNumber = blockNumber\<rparr>))"

definition FormatV3UnshieldEvent ::
  "abiV2 \<Rightarrow> string \<Rightarrow> uint64 \<Rightarrow> abiCommitmentPreimage \<Rightarrow> nat \<Rightarrow> int \<Rightarrow> string \<Rightarrow> UnshieldStoredEvent res" where
  "FormatV3UnshieldEvent abi transactionHash blockNumber preimage transactIndex fee railgunTxid =
     andThen (tokenDataFromABI abi (apToken preimage)) (\<lambda>token.
     andThen (formatBytes32 transactionHash) (\<lambda>txid.
     andThen (FormatHexToByteLength (bytes32Hex (apNPK preimage)) 20 True) (\<lambda>toAddress.
     Inr \<lparr>unTxid = txid, unTimestamp = None, unToAddress = toAddress, unTokenType = TokenType token,
          unTokenAddress = TokenAddress token, unTokenSubID = TokenSubID token,
          unAmount = decimal (defaultBigInt (apValue preimage) - fee), unFee = decimal fee,
          unBlockNumber = blockNumber, unEventLogIndex = Some (of_nat transactIndex), unRailgunTxid = railgunTxid\<rparr>)))"

text \<open>A value that does not parse is the empty text here.\<close>

definition ignoreErr :: "string res \<Rightarrow> string" where
  "ignoreErr m = (case m of Inl _ \<Rightarrow> [] | Inr s \<Rightarrow> s)"

definition FormatV3NullifiedEvents :: "string \<Rightarrow> uint64 \<Rightarrow> int \<Rightarrow> string list \<Rightarrow> Nullifier list" where
  "FormatV3NullifiedEvents transactionHash blockNumber spendAccumulatorNumber nullifierHashes =
     map (\<lambda>nullifierHash. \<lparr>nuTxid = ignoreErr (formatBytes32 transactionHash), nuNullifier = ignoreErr (formatBytes32 nullifierHash),
       nuTreeNumber = spendAccumulatorNumber, nuBlockNumber = blockNumber\<rparr>) nullifierHashes"

definition hasUnshieldValue :: "abiCommitmentPreimage \<Rightarrow> bool" where
  "hasUnshieldValue preimage \<longleftrightarrow> defaultBigInt (apValue preimage) > 0"

definition FormatV3RailgunTransactionEvent ::
  "abiV2 \<Rightarrow> string \<Rightarrow> uint64 \<Rightarrow> string list \<Rightarrow> string list \<Rightarrow> abiCommitmentPreimage \<Rightarrow> string \<Rightarrow> int \<Rightarrow> int \<Rightarrow> int \<Rightarrow> string
   \<Rightarrow> RailgunTransactionV3 res" where
  "FormatV3RailgunTransactionEvent abi transactionHash blockNumber commitments nullifiers preimage boundParamsHash utxoTreeIn
     utxoTree utxoBatchStartPosition verificationHash =
     andThen (formatBytes32 transactionHash) (\<lambda>txid.
     andThen (formatBytes32 boundParamsHash) (\<lambda>formattedBoundParamsHash.
     andThen (if \<not> hasUnshieldValue preimage then Inr None
        else andThen (tokenDataFromABI abi (apToken preimage)) (\<lambda>tokenData.
             andThen (FormatHexToByteLength (bytes32Hex (apNPK preimage)) 20 True) (\<lambda>toAddress.
             Inr (Some \<lparr>urTokenData = tokenData, urToAddress = toAddress, urValue = decimal (defaultBigInt (apValue preimage))\<rparr>)))) (\<lambda>unshield.
     let isUnshieldOnly = (length commitments = 1 \<and> hasUnshieldValue preimage)
     in Inr \<lparr>r3Version = RailgunTransactionVersionV3, r3Commitments = commitments, r3Nullifiers = nullifiers,
          r3BoundParamsHash = formattedBoundParamsHash, r3BlockNumber = blockNumber, r3Txid = txid, r3Unshield = unshield,
          r3UTXOTreeIn = utxoTreeIn,
          r3UTXOTreeOut = (if isUnshieldOnly then GlobalUTXOTreeUnshieldEvent else utxoTree),
          r3UTXOBatchStartPositionOut = (if isUnshieldOnly then GlobalUTXOPositionUnshieldEvent else utxoBatchStartPosition),
          r3VerificationHash = verificationHash\<rparr>)))"

definition FormatV3ShieldEvent ::
  "abiV2 \<Rightarrow> poseidonConstantsRaw \<Rightarrow> (byte list \<Rightarrow> byte list) \<Rightarrow> string \<Rightarrow> uint64 \<Rightarrow> string \<Rightarrow> abiCommitmentPreimage
   \<Rightarrow> abiShieldCiphertext \<Rightarrow> int \<Rightarrow> int \<Rightarrow> int \<Rightarrow> V3CommitmentEvent res" where
  "FormatV3ShieldEvent abi raw keccak transactionHash blockNumber sender preimage ciphertext utxoTree utxoIndex fee =
     andThen (formatV3ShieldCommitment abi raw keccak transactionHash blockNumber sender preimage ciphertext utxoTree utxoIndex fee) (\<lambda>commitment.
     andThen (formatBytes32 transactionHash) (\<lambda>txid.
     Inr \<lparr>ceTxid = txid, ceTreeNumber = utxoTree, ceStartPosition = utxoIndex, ceCommitments = [commitment],
          ceBlockNumber = blockNumber\<rparr>))"

section \<open>The update\<close>

text \<open>Where the loops over an update stand: the next free leaf, the next commitment, the events so far.
  The tree number starts as 32 bits and grows by one per item at most.\<close>

record v3Cursor =
  vcTree :: int
  vcIndex :: int
  vcCommitments :: nat
  vcOut :: V3AccumulatorEvents

definition advance :: "nat \<Rightarrow> int \<times> int \<Rightarrow> int \<times> int" where
  "advance n = (\<lambda>(tree, index).
     let index = goInt (index + int n) in if index \<ge> txidTreeMaxItems then (tree + 1, 0) else (tree, index))"

definition addEvents :: "V3AccumulatorEvents \<Rightarrow> v3Cursor \<Rightarrow> nat \<Rightarrow> nat \<Rightarrow> v3Cursor" where
  "addEvents events cursor n used =
     (let (tree, index) = advance n (vcTree cursor, vcIndex cursor)
      in \<lparr>vcTree = tree, vcIndex = index, vcCommitments = vcCommitments cursor + used,
          vcOut = appendV3AccumulatorEvents (vcOut cursor) events\<rparr>)"

definition processTransaction ::
  "abiV2 \<Rightarrow> poseidonConstantsRaw \<Rightarrow> (byte list \<Rightarrow> byte list) \<Rightarrow> abiAccumulatorStateUpdate \<Rightarrow> (string, treasuryFeePortions) gomap
   \<Rightarrow> string \<Rightarrow> uint64 \<Rightarrow> nat \<Rightarrow> abiV3TransactionConfiguration \<Rightarrow> v3Cursor \<Rightarrow> v3Cursor res" where
  "processTransaction abi raw keccak update feeMap transactionHash blockNumber i transaction cursor =
     (let n = tcCommitmentsCount transaction;
          from = vcCommitments cursor;
          preimage = tcUnshieldPreimage transaction
      in if from + n > length (upCommitments update) then Err ''expected commitmentHashes length to match commitmentsCount''
         else if from + n > length (upCommitmentCiphertext update) then Err ''expected commitmentCiphertexts length to match commitmentsCount''
         else (let hashes = take n (drop from (upCommitments update));
                   ciphertexts = take n (drop from (upCommitmentCiphertext update))
               in andThen (if hasUnshieldValue preimage
                    then andThen (noteHashFromPreimage abi raw keccak preimage) (\<lambda>unshieldHash. Inr [''0x'' @ unshieldHash]) else Inr []) (\<lambda>unshieldHash.
                  andThen (FormatV3RailgunTransactionEvent abi transactionHash blockNumber (bytes32SliceHexPrefixed hashes @ unshieldHash)
                    (bytes32SliceHexPrefixed (tcNullifiers transaction)) preimage (bytes32Hex (tcBoundParamsHash transaction))
                    (int (tcSpendAccumulatorNumber transaction)) (vcTree cursor) (vcIndex cursor) []) (\<lambda>railgunTransaction.
                  andThen (RailgunTransactionIDHex raw (r3Nullifiers railgunTransaction) (r3Commitments railgunTransaction)
                    (r3BoundParamsHash railgunTransaction)) (\<lambda>railgunTxid.
                  andThen (FormatV3TransactEvent transactionHash blockNumber (bytes32SliceHex hashes) ciphertexts (vcTree cursor) (vcIndex cursor) i
                    (dynamicBytesHex (upSenderCiphertext update)) railgunTxid) (\<lambda>transactEvent.
                  andThen (if hasUnshieldValue preimage
                    then andThen (unshieldFeeOf abi keccak feeMap (upTransactions update) preimage) (\<lambda>unshieldFee.
                         andThen (FormatV3UnshieldEvent abi transactionHash blockNumber preimage i unshieldFee railgunTxid) (\<lambda>event. Inr [event]))
                    else Inr []) (\<lambda>unshieldEvents.
                  Inr (addEvents \<lparr>a3CommitmentEvents = [transactEvent],
                      a3NullifierEvents = FormatV3NullifiedEvents transactionHash blockNumber (int (tcSpendAccumulatorNumber transaction))
                        (bytes32SliceHex (tcNullifiers transaction)),
                      a3UnshieldEvents = unshieldEvents, a3RailgunTransactionEvents = [railgunTransaction]\<rparr> cursor n n))))))))"

definition processShield ::
  "abiV2 \<Rightarrow> poseidonConstantsRaw \<Rightarrow> (byte list \<Rightarrow> byte list) \<Rightarrow> abiAccumulatorStateUpdate \<Rightarrow> (string, treasuryFeePortions) gomap
   \<Rightarrow> string \<Rightarrow> uint64 \<Rightarrow> abiV3ShieldConfiguration \<Rightarrow> v3Cursor \<Rightarrow> v3Cursor res" where
  "processShield abi raw keccak update feeMap transactionHash blockNumber shield cursor =
     andThen (shieldFeeOf abi keccak feeMap (upShields update) (scPreimage shield)) (\<lambda>shieldFee.
     andThen (FormatV3ShieldEvent abi raw keccak transactionHash blockNumber (addressHex abi (scFrom shield)) (scPreimage shield)
        (scCiphertext shield) (vcTree cursor) (vcIndex cursor) shieldFee) (\<lambda>shieldEvent.
     Inr (addEvents \<lparr>a3CommitmentEvents = [shieldEvent], a3NullifierEvents = [], a3UnshieldEvents = [], a3RailgunTransactionEvents = []\<rparr>
        cursor 1 0)))"

definition ProcessV3AccumulatorStateUpdate ::
  "abiV2 \<Rightarrow> poseidonConstantsRaw \<Rightarrow> (byte list \<Rightarrow> byte list) \<Rightarrow> abiAccumulatorStateUpdateEvent \<Rightarrow> string \<Rightarrow> uint64 \<Rightarrow> V3AccumulatorEvents res" where
  "ProcessV3AccumulatorStateUpdate abi raw keccak event transactionHash blockNumber =
     andThen (intFromBigInt (ueStartPosition event) ''startPosition'') (\<lambda>startPosition.
     andThen (v3TreasuryFeeMap abi keccak (upTransactions (ueUpdate event)) (upShields (ueUpdate event)) (upTreasuryFees (ueUpdate event))) (\<lambda>feeMap.
     andThen (foldResI 0 (processTransaction abi raw keccak (ueUpdate event) feeMap transactionHash blockNumber) (upTransactions (ueUpdate event))
        \<lparr>vcTree = int (ueAccumulatorNumber event), vcIndex = startPosition, vcCommitments = 0, vcOut = emptyV3AccumulatorEvents\<rparr>) (\<lambda>cursor.
     andThen (foldRes (processShield abi raw keccak (ueUpdate event) feeMap transactionHash blockNumber) (upShields (ueUpdate event)) cursor) (\<lambda>cursor.
     Inr (vcOut cursor)))))"

section \<open>Logs\<close>

definition V3AccumulatorStateUpdateTopic :: "abiV3 \<Rightarrow> string res" where
  "V3AccumulatorStateUpdateTopic abi = accumulatorTopic abi"

definition unpackV3AccumulatorEventLog :: "abiV3 \<Rightarrow> ContractLog \<Rightarrow> abiAccumulatorStateUpdateEvent res" where
  "unpackV3AccumulatorEventLog abi log =
     andThen (accumulatorTopic abi) (\<lambda>topic.
     case lgTopics log of
       [] \<Rightarrow> Err ''missing event topic''
     | t # _ \<Rightarrow>
         if \<not> EqualFold t topic then Inl (Errorf ''event topic %s invalid: expected %s'' [AStr t, AStr topic])
         else andThen (HexToBytes (lgData log)) (unpackAccumulator abi))"

definition ParseV3AccumulatorStateUpdateLog ::
  "abiV3 \<Rightarrow> poseidonConstantsRaw \<Rightarrow> (byte list \<Rightarrow> byte list) \<Rightarrow> ContractLog \<Rightarrow> V3AccumulatorEvents res" where
  "ParseV3AccumulatorStateUpdateLog abi raw keccak log =
     andThen (unpackV3AccumulatorEventLog abi log) (\<lambda>decoded.
     ProcessV3AccumulatorStateUpdate (v3Base abi) raw keccak decoded (lgTransactionHash log) (lgBlockNumber log))"

definition accumulateV3Log ::
  "abiV3 \<Rightarrow> poseidonConstantsRaw \<Rightarrow> (byte list \<Rightarrow> byte list) \<Rightarrow> string \<Rightarrow> nat \<Rightarrow> ContractLog
   \<Rightarrow> V3AccumulatorEvents \<Rightarrow> V3AccumulatorEvents res" where
  "accumulateV3Log abi raw keccak topic i log out =
     (if firstTopic log = [] \<or> \<not> EqualFold (firstTopic log) topic then Inr out
      else andThen (wrapErr ''v3 accumulator log[%d]: %w'' [ANat i] (ParseV3AccumulatorStateUpdateLog abi raw keccak log)) (\<lambda>events.
        Inr (appendV3AccumulatorEvents out events)))"

definition AccumulateV3Logs ::
  "abiV3 \<Rightarrow> poseidonConstantsRaw \<Rightarrow> (byte list \<Rightarrow> byte list) \<Rightarrow> ContractLog list \<Rightarrow> V3AccumulatorEvents res" where
  "AccumulateV3Logs abi raw keccak logs =
     andThen (V3AccumulatorStateUpdateTopic abi) (\<lambda>topic.
     foldResI 0 (accumulateV3Log abi raw keccak topic) logs emptyV3AccumulatorEvents)"

section \<open>The decoder works log by log\<close>

lemma append_V3_simps:
  "appendV3AccumulatorEvents emptyV3AccumulatorEvents x = x"
  "appendV3AccumulatorEvents x emptyV3AccumulatorEvents = x"
  "appendV3AccumulatorEvents (appendV3AccumulatorEvents x y) z = appendV3AccumulatorEvents x (appendV3AccumulatorEvents y z)"
  by (simp_all add: appendV3AccumulatorEvents_def emptyV3AccumulatorEvents_def)

lemma accumulateV3Log_append:
  "accumulateV3Log abi raw keccak topic i log out = Inr out' \<longleftrightarrow>
   (\<exists>d. accumulateV3Log abi raw keccak topic 0 log emptyV3AccumulatorEvents = Inr d \<and>
      out' = appendV3AccumulatorEvents out d)"
  by (auto simp: accumulateV3Log_def res_elims append_V3_simps)

lemma AccumulateV3Logs_append:
  "AccumulateV3Logs abi raw keccak (a @ b) = Inr z \<longleftrightarrow>
   (\<exists>x y. AccumulateV3Logs abi raw keccak a = Inr x \<and> AccumulateV3Logs abi raw keccak b = Inr y \<and>
      z = appendV3AccumulatorEvents x y)"
proof (cases "V3AccumulatorStateUpdateTopic abi")
  case (Inr topic)
  let ?f = "accumulateV3Log abi raw keccak topic" and ?e = emptyV3AccumulatorEvents
  have fold: "foldResI i ?f xs s = Inr t \<longleftrightarrow> (\<exists>d. foldResI 0 ?f xs ?e = Inr d \<and> t = appendV3AccumulatorEvents s d)" for i xs s t
    by (rule foldResI_accumulate, rule accumulateV3Log_append, rule append_V3_simps(3), rule append_V3_simps, rule append_V3_simps)
  show ?thesis
    unfolding AccumulateV3Logs_def Inr andThen_simps foldResI_append andThen_Inr fold [of "0 + length a" b] by blast
qed (simp add: AccumulateV3Logs_def)

interpretation v3_logs: accumulator "AccumulateV3Logs abi raw keccak" emptyV3AccumulatorEvents appendV3AccumulatorEvents
  for abi raw keccak
  by unfold_locales (simp_all add: append_V3_simps AccumulateV3Logs_append)

section \<open>Positions\<close>

text \<open>Events that take the leaves of the trees one after the other from a position on: an event of \<open>n\<close>
  commitments at leaf \<open>i\<close> of a tree is followed by one at leaf \<open>i + n\<close> of the same tree while that is one of the
  65536 leaves of a tree, and at the first leaf of the next tree otherwise. (The sum is one of Go's 64-bit integers.)\<close>

fun follows :: "int \<times> int \<Rightarrow> V3CommitmentEvent list \<Rightarrow> bool" where
  "follows (tree, i) [] \<longleftrightarrow> True"
| "follows (tree, i) (ev # evs) \<longleftrightarrow> ceTreeNumber ev = tree \<and> ceStartPosition ev = i \<and>
     (if goInt (i + int (length (ceCommitments ev))) < 65536
      then follows (tree, goInt (i + int (length (ceCommitments ev)))) evs
      else follows (tree + 1, 0) evs)"

lemma advance_position:
  "advance n (tree, i) = (if goInt (i + int n) < 65536 then (tree, goInt (i + int n)) else (tree + 1, 0))"
  by (simp add: advance_def Let_def txidTreeMaxItems_def)

definition advanced :: "V3CommitmentEvent list \<Rightarrow> int \<times> int \<Rightarrow> int \<times> int" where
  "advanced evs position = fold (\<lambda>ev. advance (length (ceCommitments ev))) evs position"

lemma follows_snoc:
  "follows position (evs @ [ev]) \<longleftrightarrow> follows position evs \<and> advanced evs position = (ceTreeNumber ev, ceStartPosition ev)"
  by (induction position evs rule: follows.induct) (auto simp: advanced_def advance_position)

lemma transact_commitment:
  "formatV3TransactCommitment txid bn tree start i sender railgunTxid j hc = Inr c \<Longrightarrow>
   cmUTXOTree c = tree \<and> cmUTXOIndex c = goInt (start + int j) \<and> cmTxid c = txid \<and> cmBlockNumber c = bn"
  by (auto simp: formatV3TransactCommitment_def res_elims)

lemma transact_event:
  assumes "FormatV3TransactEvent hash bn hashes ciphertexts tree start i sender railgunTxid = Inr ev"
  shows "consecutive ev \<and> length (ceCommitments ev) = length hashes \<and> ceBlockNumber ev = bn \<and>
    ceTreeNumber ev = tree \<and> ceStartPosition ev = start"
proof -
  obtain txid cs where e: "formatBytes32 hash = Inr txid" "length hashes = length ciphertexts"
      "mapRes (\<lambda>(j, hc). formatV3TransactCommitment txid bn tree start i sender railgunTxid j hc)
         (zip [0..<length ciphertexts] (zip hashes ciphertexts)) = Inr cs"
      "ev = \<lparr>ceTxid = txid, ceTreeNumber = tree, ceStartPosition = start, ceCommitments = cs, ceBlockNumber = bn\<rparr>"
    using assms by (auto simp: FormatV3TransactEvent_def formatV3TransactCommitments_def res_elims split: if_splits)
  have "length cs = length hashes" using mapRes_length [OF e(3)] e(2) by simp
  moreover have "cmUTXOTree (cs ! j) = tree \<and> cmUTXOIndex (cs ! j) = goInt (start + int j) \<and> cmTxid (cs ! j) = txid \<and>
      cmBlockNumber (cs ! j) = bn" if "j < length cs" for j
    using mapRes_nth [OF e(3), of j] that mapRes_length [OF e(3)] e(2) by (auto dest!: transact_commitment)
  ultimately show ?thesis by (simp add: e(4) consecutive_def)
qed

lemma shield_event:
  assumes "FormatV3ShieldEvent abi raw keccak hash bn sender preimage ciphertext tree index fee = Inr ev" "index = goInt index"
  shows "consecutive ev \<and> length (ceCommitments ev) = 1 \<and> ceBlockNumber ev = bn \<and> ceTreeNumber ev = tree \<and> ceStartPosition ev = index"
  using assms by (auto simp: FormatV3ShieldEvent_def formatV3ShieldCommitment_def res_elims consecutive_def)

text \<open>The loops keep: the events follow one another from the start, up to the cursor.\<close>

definition cursorOk :: "int \<times> int \<Rightarrow> uint64 \<Rightarrow> nat list \<Rightarrow> v3Cursor \<Rightarrow> bool" where
  "cursorOk position bn counts cursor \<longleftrightarrow>
     follows position (a3CommitmentEvents (vcOut cursor)) \<and>
     advanced (a3CommitmentEvents (vcOut cursor)) position = (vcTree cursor, vcIndex cursor) \<and>
     vcIndex cursor = goInt (vcIndex cursor) \<and>
     list_all (\<lambda>ev. consecutive ev \<and> ceBlockNumber ev = bn) (a3CommitmentEvents (vcOut cursor)) \<and>
     map (\<lambda>ev. length (ceCommitments ev)) (a3CommitmentEvents (vcOut cursor)) = counts"

lemma goInt_goInt: "goInt (goInt x) = goInt x"
  by (simp add: goInt_def)

lemma advance_range: "advance n (tree, index) = (tree', index') \<Longrightarrow> index' = goInt index'"
  by (auto simp: advance_def Let_def goInt_goInt split: if_splits) (simp add: goInt_def)

lemma cursorOk_add:
  assumes "cursorOk position bn counts cursor" "a3CommitmentEvents events = [ev]" "length (ceCommitments ev) = n"
    "consecutive ev" "ceBlockNumber ev = bn" "ceTreeNumber ev = vcTree cursor" "ceStartPosition ev = vcIndex cursor"
  shows "cursorOk position bn (counts @ [n]) (addEvents events cursor n used)"
proof -
  obtain tree index where a: "advance n (vcTree cursor, vcIndex cursor) = (tree, index)" by (metis prod.exhaust)
  have "advanced (a3CommitmentEvents (vcOut cursor) @ [ev]) position = (tree, index)"
    using assms(1,3) a by (simp add: advanced_def cursorOk_def)
  then show ?thesis
    using assms a advance_range [OF a] by (simp add: cursorOk_def addEvents_def appendV3AccumulatorEvents_def follows_snoc)
qed

lemma processTransaction_ok:
  assumes "processTransaction abi raw keccak update feeMap hash bn i transaction cursor = Inr cursor'" "cursorOk position bn counts cursor"
  shows "cursorOk position bn (counts @ [tcCommitmentsCount transaction]) cursor'"
proof -
  define n where "n = tcCommitmentsCount transaction"
  define hashes where "hashes = take n (drop (vcCommitments cursor) (upCommitments update))"
  obtain ev ns us rs ciphertexts sender railgunTxid where
      ev: "FormatV3TransactEvent hash bn (bytes32SliceHex hashes) ciphertexts (vcTree cursor) (vcIndex cursor) i sender railgunTxid = Inr ev"
    and c: "cursor' = addEvents \<lparr>a3CommitmentEvents = [ev], a3NullifierEvents = ns, a3UnshieldEvents = us, a3RailgunTransactionEvents = rs\<rparr> cursor n n"
    and le: "vcCommitments cursor + n \<le> length (upCommitments update)"
    using assms(1) unfolding processTransaction_def Let_def n_def hashes_def
    by (auto simp: res_elims not_less split: if_splits)
  have "length (bytes32SliceHex hashes) = n" using le by (simp add: bytes32SliceHex_def hashes_def)
  then have e: "consecutive ev \<and> length (ceCommitments ev) = n \<and> ceBlockNumber ev = bn \<and> ceTreeNumber ev = vcTree cursor \<and>
      ceStartPosition ev = vcIndex cursor"
    using transact_event [OF ev] by simp
  show ?thesis
    unfolding c n_def [symmetric] by (rule cursorOk_add [OF assms(2), of _ ev]) (use e in auto)
qed

lemma processShield_ok:
  assumes "processShield abi raw keccak update feeMap hash bn shield cursor = Inr cursor'" "cursorOk position bn counts cursor"
  shows "cursorOk position bn (counts @ [1]) cursor'"
proof -
  obtain fee ev where
      ev: "FormatV3ShieldEvent abi raw keccak hash bn (addressHex abi (scFrom shield)) (scPreimage shield) (scCiphertext shield)
        (vcTree cursor) (vcIndex cursor) fee = Inr ev"
    and c: "cursor' = addEvents \<lparr>a3CommitmentEvents = [ev], a3NullifierEvents = [], a3UnshieldEvents = [], a3RailgunTransactionEvents = []\<rparr> cursor 1 0"
    using assms(1) by (auto simp: processShield_def res_elims)
  have "vcIndex cursor = goInt (vcIndex cursor)" using assms(2) by (simp add: cursorOk_def)
  note e = shield_event [OF ev this]
  show ?thesis
    unfolding c by (rule cursorOk_add [OF assms(2), of _ ev]) (use e in auto)
qed

lemma transactions_ok:
  assumes "foldResI i (processTransaction abi raw keccak update feeMap hash bn) ts cursor = Inr cursor'" "cursorOk position bn counts cursor"
  shows "cursorOk position bn (counts @ map tcCommitmentsCount ts) cursor'"
  using assms
proof (induction ts arbitrary: i cursor counts)
  case (Cons t ts)
  then obtain c1 where c1: "processTransaction abi raw keccak update feeMap hash bn i t cursor = Inr c1"
      "foldResI (Suc i) (processTransaction abi raw keccak update feeMap hash bn) ts c1 = Inr cursor'"
    by (auto simp: res_elims)
  from Cons.IH [OF c1(2) processTransaction_ok [OF c1(1) Cons.prems(2)]] show ?case by simp
qed simp

lemma shields_ok:
  assumes "foldRes (processShield abi raw keccak update feeMap hash bn) ss cursor = Inr cursor'" "cursorOk position bn counts cursor"
  shows "cursorOk position bn (counts @ replicate (length ss) 1) cursor'"
  using assms
proof (induction ss arbitrary: cursor counts)
  case (Cons s ss)
  then obtain c1 where c1: "processShield abi raw keccak update feeMap hash bn s cursor = Inr c1"
      "foldRes (processShield abi raw keccak update feeMap hash bn) ss c1 = Inr cursor'"
    by (auto simp: res_elims)
  from Cons.IH [OF c1(2) processShield_ok [OF c1(1) Cons.prems(2)]] show ?case by simp
qed simp

text \<open>C23: The commitment events that the decoder makes of an accumulator update take the leaves
  one after the other: the first starts where the update does, each next one at the leaf behind the commitments of the one before, or at leaf 0 of the
  next tree when that would be leaf 65536 or beyond; there is one event per transaction, with its number of
  commitments, and one per shield, and within an event the commitments stand one after the other.\<close>

theorem accumulator_positions:
  "case ProcessV3AccumulatorStateUpdate abi raw keccak event transactionHash blockNumber of
     Inl _ \<Rightarrow> True
   | Inr out \<Rightarrow>
       (\<exists>start. ueStartPosition event = Some start \<and> follows (int (ueAccumulatorNumber event), start) (a3CommitmentEvents out)) \<and>
       list_all (\<lambda>ev. consecutive ev \<and> ceBlockNumber ev = blockNumber) (a3CommitmentEvents out) \<and>
       map (\<lambda>ev. length (ceCommitments ev)) (a3CommitmentEvents out) =
         map tcCommitmentsCount (upTransactions (ueUpdate event)) @ replicate (length (upShields (ueUpdate event))) 1"
proof (cases "ProcessV3AccumulatorStateUpdate abi raw keccak event transactionHash blockNumber")
  case (Inr out)
  obtain start m c1 c2 where
      start: "intFromBigInt (ueStartPosition event) ''startPosition'' = Inr start"
    and ts: "foldResI 0 (processTransaction abi raw keccak (ueUpdate event) m transactionHash blockNumber) (upTransactions (ueUpdate event))
        \<lparr>vcTree = int (ueAccumulatorNumber event), vcIndex = start, vcCommitments = 0, vcOut = emptyV3AccumulatorEvents\<rparr> = Inr c1"
    and ss: "foldRes (processShield abi raw keccak (ueUpdate event) m transactionHash blockNumber) (upShields (ueUpdate event)) c1 = Inr c2"
    and out: "out = vcOut c2"
    using Inr by (auto simp: ProcessV3AccumulatorStateUpdate_def res_elims)
  have s: "ueStartPosition event = Some start" "start = goInt start"
    using start by (auto simp: intFromBigInt_def goInt_def split: option.splits if_splits)
  have "cursorOk (int (ueAccumulatorNumber event), start) blockNumber []
      \<lparr>vcTree = int (ueAccumulatorNumber event), vcIndex = start, vcCommitments = 0, vcOut = emptyV3AccumulatorEvents\<rparr>"
    using s(2) by (simp add: cursorOk_def emptyV3AccumulatorEvents_def advanced_def)
  from shields_ok [OF ss transactions_ok [OF ts this]] show ?thesis
    by (simp add: Inr out s(1) cursorOk_def)
qed simp

section \<open>Fees\<close>

lemma feePortions_split:
  assumes "0 \<le> u" "0 \<le> s" "0 \<le> fee"
  shows "0 \<le> tfShield (feePortions u s fee) \<and> 0 \<le> tfUnshield (feePortions u s fee) \<and>
    tfShield (feePortions u s fee) + tfUnshield (feePortions u s fee) \<le> fee"
proof -
  have part: "0 \<le> x * fee div (u + s) \<and> x * fee div (u + s) \<le> fee" if "0 \<le> x" "x \<le> u + s" "u + s \<noteq> 0" for x
  proof -
    have "x * fee \<le> (u + s) * fee" using that(2) assms(3) by (rule mult_right_mono)
    then have "x * fee div (u + s) \<le> (u + s) * fee div (u + s)" using that assms by (intro zdiv_mono1) auto
    then show ?thesis using that assms by (simp add: pos_imp_zdiv_nonneg_iff)
  qed
  show ?thesis
    using part [of u] part [of s] assms by (auto simp: feePortions_def Let_def bigDiv_def)
qed

lemma shares_bounded:
  fixes p whole :: int
  assumes "0 \<le> p" "0 < whole" "sum_list vs \<le> whole" "\<And>v. v \<in> set vs \<Longrightarrow> 0 \<le> v"
  shows "sum_list (map (\<lambda>v. p * v div whole) vs) \<le> p"
proof -
  have "sum_list (map (\<lambda>v. p * v div whole) vs) * whole \<le> p * sum_list vs"
  proof (induction vs)
    case (Cons v vs)
    have "p * v = p * v div whole * whole + p * v mod whole" by simp
    moreover have "0 \<le> p * v mod whole" using assms(2) by simp
    ultimately have "p * v div whole * whole \<le> p * v" by linarith
    then show ?case using Cons by (simp add: algebra_simps)
  qed simp
  also have "\<dots> \<le> p * whole" using assms(1,3) by (rule mult_left_mono [rotated])
  finally show ?thesis using assms(2) by simp
qed

lemma sum_filtered:
  fixes f :: "'a \<Rightarrow> int"
  assumes "\<And>x. x \<in> set xs \<Longrightarrow> 0 \<le> f x"
  shows "sum_list (map f (filter P xs)) \<le> sum_list (map f xs)"
  using assms by (induction xs) fastforce+

lemma feeShare_le:
  assumes "feeShare preimage portion whole msg = Inr fee" "0 \<le> portion" "0 \<le> defaultBigInt (apValue preimage)"
  shows "fee \<le> (if whole > 0 then portion * defaultBigInt (apValue preimage) div whole else 0)"
  using assms by (auto simp: feeShare_def bigDiv_def defaultBigInt_def Let_def split: option.splits if_splits)

text \<open>What the events of one token are charged, whatever they fail with.\<close>

definition chargedFees :: "(abiCommitmentPreimage \<Rightarrow> int res) \<Rightarrow> (abiCommitmentPreimage \<Rightarrow> string res) \<Rightarrow> string \<Rightarrow> abiCommitmentPreimage list \<Rightarrow> int" where
  "chargedFees feeOf tokenOf token preimages =
     sum_list (map (\<lambda>p. case feeOf p of Inr fee \<Rightarrow> fee | Inl _ \<Rightarrow> 0) (filter (\<lambda>p. tokenOf p = Inr token) preimages))"

lemma chargedFees_le:
  assumes "\<And>p fee. p \<in> set ps \<Longrightarrow> tokenOf p = Inr token \<Longrightarrow> feeOf p = Inr fee \<Longrightarrow>
      fee = 0 \<or> feeShare p portion (sum_list (map (\<lambda>p. defaultBigInt (apValue p)) ps)) msg = Inr fee"
    and "0 \<le> portion" and pos: "\<And>p. p \<in> set ps \<Longrightarrow> 0 \<le> defaultBigInt (apValue p)"
  shows "chargedFees feeOf tokenOf token ps \<le> portion"
proof -
  define v where "v p = defaultBigInt (apValue p)" for p :: abiCommitmentPreimage
  define whole where "whole = sum_list (map v ps)"
  define qs where "qs = filter (\<lambda>p. tokenOf p = Inr token) ps"
  have sub: "set qs \<subseteq> set ps" by (auto simp: qs_def)
  have each: "(case feeOf p of Inr fee \<Rightarrow> fee | Inl _ \<Rightarrow> 0) \<le> (if whole > 0 then portion * v p div whole else 0)" if "p \<in> set qs" for p
  proof -
    have p: "p \<in> set ps" "tokenOf p = Inr token" using that by (auto simp: qs_def)
    have "0 \<le> (if whole > 0 then portion * v p div whole else 0)"
      using assms(2) pos [OF p(1)] by (simp add: v_def pos_imp_zdiv_nonneg_iff)
    moreover have "fee \<le> (if whole > 0 then portion * v p div whole else 0)" if fee: "feeOf p = Inr fee" "fee \<noteq> 0" for fee
      using assms(1) [OF p fee(1)] fee(2) feeShare_le [OF _ assms(2) pos [OF p(1)]] unfolding whole_def v_def by blast
    ultimately show ?thesis by (cases "feeOf p") (simp, metis sum.case(2))
  qed
  have "chargedFees feeOf tokenOf token ps \<le> sum_list (map (\<lambda>p. if whole > 0 then portion * v p div whole else 0) qs)"
    unfolding chargedFees_def qs_def [symmetric] by (rule sum_list_mono) (rule each)
  also have "\<dots> \<le> portion"
  proof (cases "whole > 0")
    case True
    have "sum_list (map v qs) \<le> whole" unfolding whole_def qs_def by (rule sum_filtered) (simp add: v_def pos)
    then have "sum_list (map (\<lambda>x. portion * x div whole) (map v qs)) \<le> portion"
      using sub pos by (intro shares_bounded [OF assms(2) True]) (auto simp: v_def)
    then show ?thesis using True by (simp add: comp_def)
  qed (simp add: assms(2))
  finally show ?thesis .
qed

lemma firstTokenValue_nonneg:
  "firstTokenValue abi keccak token ps = Inr v \<Longrightarrow> (\<And>p. p \<in> set ps \<Longrightarrow> 0 \<le> defaultBigInt (apValue p)) \<Longrightarrow> 0 \<le> v"
  by (induction ps) (auto simp: res_elims split: if_splits)

lemma feeMap_entry:
  assumes "foldRes (\<lambda>treasuryFee out.
       let tokenID = bytes32Hex (trTokenID treasuryFee)
       in andThen (firstTokenValue abi keccak tokenID us) (\<lambda>unshieldValue.
          andThen (firstTokenValue abi keccak tokenID vs) (\<lambda>shieldValue.
          Inr (gput tokenID (feePortions unshieldValue shieldValue (defaultBigInt (trFee treasuryFee))) out)))) fees m0 = Inr m"
    and "gget m k = Some portions"
  shows "gget m0 k = Some portions \<or> (\<exists>f \<in> set fees. bytes32Hex (trTokenID f) = k \<and> (\<exists>u v. firstTokenValue abi keccak k us = Inr u \<and>
    firstTokenValue abi keccak k vs = Inr v \<and> portions = feePortions u v (defaultBigInt (trFee f))))"
  using assms(1)
proof (induction fees arbitrary: m0)
  case Nil
  then show ?case using assms(2) by simp
next
  case (Cons f fees)
  obtain u v where uv: "firstTokenValue abi keccak (bytes32Hex (trTokenID f)) us = Inr u" "firstTokenValue abi keccak (bytes32Hex (trTokenID f)) vs = Inr v"
    using Cons.prems by (auto simp: Let_def res_elims)
  show ?case
    using Cons.IH [of "gput (bytes32Hex (trTokenID f)) (feePortions u v (defaultBigInt (trFee f))) m0"] Cons.prems uv
    by (auto simp: Let_def gget_gput split: if_splits)
qed

text \<open>C24: The fees that the unshields and shields of a token are charged add up to at most
  the fee that the treasury took for the token: no event reports more than its share.\<close>

theorem treasury_fees_bounded:
  assumes "v3TreasuryFeeMap abi keccak ts ss fees = Inr m" and "gget m token = Some portions"
    and "\<And>p. p \<in> set (map tcUnshieldPreimage ts) \<union> set (map scPreimage ss) \<Longrightarrow> 0 \<le> defaultBigInt (apValue p)"
    and "\<And>f. f \<in> set fees \<Longrightarrow> 0 \<le> defaultBigInt (trFee f)"
  shows "\<exists>f \<in> set fees. bytes32Hex (trTokenID f) = token \<and>
    chargedFees (unshieldFeeOf abi keccak m ts) (tokenHashFromPreimage abi keccak) token (map tcUnshieldPreimage ts) +
    chargedFees (shieldFeeOf abi keccak m ss) (tokenHashFromPreimage abi keccak) token (map scPreimage ss) \<le> defaultBigInt (trFee f)"
proof -
  obtain f u v where f: "f \<in> set fees" "bytes32Hex (trTokenID f) = token" "portions = feePortions u v (defaultBigInt (trFee f))"
    and uv: "firstTokenValue abi keccak token (map tcUnshieldPreimage ts) = Inr u" "firstTokenValue abi keccak token (map scPreimage ss) = Inr v"
    using feeMap_entry [OF assms(1) [unfolded v3TreasuryFeeMap_def] assms(2)] by auto
  have split: "0 \<le> tfShield portions" "0 \<le> tfUnshield portions" "tfShield portions + tfUnshield portions \<le> defaultBigInt (trFee f)"
    using feePortions_split [OF firstTokenValue_nonneg [OF uv(1)] firstTokenValue_nonneg [OF uv(2)] assms(4) [OF f(1)]] assms(3)
    unfolding f(3) by simp_all
  have "chargedFees (unshieldFeeOf abi keccak m ts) (tokenHashFromPreimage abi keccak) token (map tcUnshieldPreimage ts) \<le> tfUnshield portions"
    using assms(2,3) split(2)
    by (intro chargedFees_le [where msg = "''expected an unshield fee in treasuryFeeMap''"])
      (auto simp: unshieldFeeOf_def totalV3UnshieldValue_def comp_def split: if_splits)
  moreover have "chargedFees (shieldFeeOf abi keccak m ss) (tokenHashFromPreimage abi keccak) token (map scPreimage ss) \<le> tfShield portions"
    using assms(2,3) split(1)
    by (intro chargedFees_le [where msg = "''expected a shield fee in treasuryFeeMap''"])
      (auto simp: shieldFeeOf_def totalV3ShieldValue_def comp_def split: if_splits)
  ultimately show ?thesis using split(3) f(1,2) by (intro bexI [of _ f]) auto
qed

section \<open>Updates with several tokens\<close>

lemma foldResI_Inl:
  assumes "x \<in> set xs" "\<And>i s. \<exists>e. f i x s = Inl e"
  shows "\<exists>e. foldResI i f xs s = Inl e"
  using assms(1)
proof (induction xs arbitrary: i s)
  case (Cons y ys)
  show ?case
  proof (cases "f i y s")
    case (Inr s')
    then have "x \<noteq> y" using assms(2) [of i s] by auto
    then show ?thesis using Cons Inr by auto
  qed simp
qed simp

lemma andThen_Inl: "(\<And>x. m = Inr x \<Longrightarrow> \<exists>e. f x = Inl e) \<Longrightarrow> \<exists>e. andThen m f = Inl e"
  by (cases m) auto

text \<open>C25: The share of an unshield in its token's fee is taken over the values of all
  unshields of the update, whatever their tokens. When another token has small units the share of an
  unshield of 400 units or more is rounded to zero, and the whole update is rejected with an error: a
  block that unshields 1000 USDC (6 decimals) and 1000 DAI (18 decimals) together cannot be decoded.\<close>

theorem mixed_unshields_rejected:
  assumes "v3TreasuryFeeMap abi keccak (upTransactions u) (upShields u) (upTreasuryFees u) = Inr m"
    and "t \<in> set (upTransactions u)" and "int (atTokenType (apToken (tcUnshieldPreimage t))) = TokenTypeERC20"
    and "apValue (tcUnshieldPreimage t) = Some v" and "400 \<le> v"
    and "tokenHashFromPreimage abi keccak (tcUnshieldPreimage t) = Inr token" and "gget m token = Some portions"
    and "0 \<le> tfUnshield portions" and "tfUnshield portions * v < totalV3UnshieldValue (upTransactions u)"
  shows "\<exists>e. ProcessV3AccumulatorStateUpdate abi raw keccak
     \<lparr>ueUpdate = u, ueAccumulatorNumber = tree, ueStartPosition = start\<rparr> transactionHash blockNumber = Inl e"
proof -
  have v: "hasUnshieldValue (tcUnshieldPreimage t)" using assms(4,5) by (simp add: hasUnshieldValue_def defaultBigInt_def)
  have "tfUnshield portions * v div totalV3UnshieldValue (upTransactions u) = 0"
    using assms(5,8,9) by (intro div_pos_pos_trivial) auto
  then have fee: "\<exists>e. unshieldFeeOf abi keccak m (upTransactions u) (tcUnshieldPreimage t) = Inl e"
    using assms(3-9) by (simp add: unshieldFeeOf_def feeShare_def bigDiv_def)
  have step: "\<exists>e. processTransaction abi raw keccak u m transactionHash blockNumber i t cursor = Inl e" for i cursor
  proof -
    have "\<exists>e. andThen (unshieldFeeOf abi keccak m (upTransactions u) (tcUnshieldPreimage t)) g = Inl e" for g :: "int \<Rightarrow> 'z res"
      using fee by auto
    then show ?thesis
      unfolding processTransaction_def Let_def using v fee by (auto intro!: andThen_Inl)
  qed
  show ?thesis
    unfolding ProcessV3AccumulatorStateUpdate_def abiAccumulatorStateUpdateEvent.simps assms(1) andThen_simps
  proof (rule andThen_Inl)
    fix startPosition
    obtain e where "foldResI 0 (processTransaction abi raw keccak u m transactionHash blockNumber) (upTransactions u)
        \<lparr>vcTree = int tree, vcIndex = startPosition, vcCommitments = 0, vcOut = emptyV3AccumulatorEvents\<rparr> = Inl e"
      using foldResI_Inl [where f = "processTransaction abi raw keccak u m transactionHash blockNumber", OF assms(2) step] by blast
    then show "\<exists>e. andThen (foldResI 0 (processTransaction abi raw keccak u m transactionHash blockNumber) (upTransactions u)
        \<lparr>vcTree = int tree, vcIndex = startPosition, vcCommitments = 0, vcOut = emptyV3AccumulatorEvents\<rparr>)
        (\<lambda>cursor. andThen (foldRes (processShield abi raw keccak u m transactionHash blockNumber) (upShields u) cursor)
          (\<lambda>cursor. Inr (vcOut cursor))) = Inl e"
      by simp
  qed
qed

text \<open>1000 USDC and 1000 DAI.\<close>

definition sampleV3Abi :: abiV2 where
  "sampleV3Abi = sampleAbi\<lparr>addressHex := \<lambda>b. BytesToHex b True\<rparr>"

definition samplePreimage :: "byte \<Rightarrow> int \<Rightarrow> abiCommitmentPreimage" where
  "samplePreimage token v = \<lparr>apNPK = replicate 32 7, apToken = \<lparr>atTokenType = 0, atTokenAddress = replicate 20 token, atTokenSubID = None\<rparr>,
     apValue = Some v\<rparr>"

definition sampleV3Transaction :: "byte \<Rightarrow> int \<Rightarrow> abiV3TransactionConfiguration" where
  "sampleV3Transaction token v = \<lparr>tcNullifiers = [replicate 32 token], tcCommitmentsCount = 0, tcSpendAccumulatorNumber = 0,
     tcUnshieldPreimage = samplePreimage token v, tcBoundParamsHash = replicate 32 9\<rparr>"

definition sampleTreasuryFee :: "byte \<Rightarrow> int \<Rightarrow> abiTreasuryFee" where
  "sampleTreasuryFee token fee = \<lparr>trTokenID = replicate 12 0 @ replicate 20 token, trFee = Some fee\<rparr>"

definition sampleUpdate :: abiAccumulatorStateUpdate where
  "sampleUpdate = \<lparr>upCommitments = [], upTransactions = [sampleV3Transaction 1 (10 ^ 9), sampleV3Transaction 2 (10 ^ 21)], upShields = [],
     upCommitmentCiphertext = [], upTreasuryFees = [sampleTreasuryFee 1 2500000, sampleTreasuryFee 2 (25 * 10 ^ 17)], upSenderCiphertext = []\<rparr>"

definition sampleToken :: "byte \<Rightarrow> string" where
  "sampleToken token = bytes32Hex (trTokenID (sampleTreasuryFee token 0))"

lemma sample_tokens:
  "tokenHashFromPreimage sampleV3Abi (\<lambda>_. []) (samplePreimage 1 v) = Inr (sampleToken 1)"
  "tokenHashFromPreimage sampleV3Abi (\<lambda>_. []) (samplePreimage 2 v) = Inr (sampleToken 2)"
  "sampleToken 1 \<noteq> sampleToken 2"
  by code_simp+

theorem mixed_unshields_rejected_witness:
  "\<exists>e. ProcessV3AccumulatorStateUpdate sampleV3Abi sampleConstants (\<lambda>_. [])
     \<lparr>ueUpdate = sampleUpdate, ueAccumulatorNumber = 0, ueStartPosition = Some 5\<rparr> ''0x0b'' 9 = Inl e"
proof -
  have m: "v3TreasuryFeeMap sampleV3Abi (\<lambda>_. []) (upTransactions sampleUpdate) (upShields sampleUpdate) (upTreasuryFees sampleUpdate) =
      Inr [(sampleToken 1, \<lparr>tfShield = 0, tfUnshield = 2500000\<rparr>), (sampleToken 2, \<lparr>tfShield = 0, tfUnshield = 25 * 10 ^ 17\<rparr>)]"
    by code_simp
  have t: "sampleV3Transaction 1 (10 ^ 9) \<in> set (upTransactions sampleUpdate)" by (simp add: sampleUpdate_def)
  have whole: "totalV3UnshieldValue (upTransactions sampleUpdate) = 10 ^ 9 + 10 ^ 21"
    by (simp add: totalV3UnshieldValue_def sampleUpdate_def sampleV3Transaction_def samplePreimage_def defaultBigInt_def)
  have pre: "tcUnshieldPreimage (sampleV3Transaction 1 (10 ^ 9)) = samplePreimage 1 (10 ^ 9)"
    by (simp add: sampleV3Transaction_def)
  show ?thesis
    by (rule mixed_unshields_rejected [OF m t, of "10 ^ 9" "sampleToken 1" "\<lparr>tfShield = 0, tfUnshield = 2500000\<rparr>"])
      (simp_all only: pre sample_tokens(1) whole, simp_all add: samplePreimage_def TokenTypeERC20_def)
qed

definition sampleShield :: abiV3ShieldConfiguration where
  "sampleShield = \<lparr>scFrom = [], scPreimage = samplePreimage 1 4000, scCiphertext = \<lparr>asEncryptedBundle = [], asShieldKey = []\<rparr>\<rparr>"

theorem treasury_fees_bounded_witness:
  "let ts = [sampleV3Transaction 1 1000, sampleV3Transaction 1 3000]; m = [(sampleToken 1, \<lparr>tfShield = 800, tfUnshield = 200\<rparr>)]
   in chargedFees (unshieldFeeOf sampleV3Abi (\<lambda>_. []) m ts) (tokenHashFromPreimage sampleV3Abi (\<lambda>_. [])) (sampleToken 1) (map tcUnshieldPreimage ts) +
      chargedFees (shieldFeeOf sampleV3Abi (\<lambda>_. []) m [sampleShield]) (tokenHashFromPreimage sampleV3Abi (\<lambda>_. [])) (sampleToken 1) (map scPreimage [sampleShield]) \<le> 1000"
proof -
  have m: "v3TreasuryFeeMap sampleV3Abi (\<lambda>_. []) [sampleV3Transaction 1 1000, sampleV3Transaction 1 3000] [sampleShield] [sampleTreasuryFee 1 1000] =
      Inr [(sampleToken 1, \<lparr>tfShield = 800, tfUnshield = 200\<rparr>)]"
    by code_simp
  have nonneg: "0 \<le> defaultBigInt (apValue p)"
    if "p \<in> set (map tcUnshieldPreimage [sampleV3Transaction 1 1000, sampleV3Transaction 1 3000]) \<union> set (map scPreimage [sampleShield])" for p
    using that by (auto simp: sampleV3Transaction_def sampleShield_def samplePreimage_def defaultBigInt_def)
  have fees: "0 \<le> defaultBigInt (trFee f)" if "f \<in> set [sampleTreasuryFee 1 1000]" for f
    using that by (simp add: sampleTreasuryFee_def defaultBigInt_def)
  have entry: "gget [(sampleToken 1, \<lparr>tfShield = 800, tfUnshield = 200\<rparr>)] (sampleToken 1) = Some \<lparr>tfShield = 800, tfUnshield = 200\<rparr>"
    by simp
  show ?thesis
    using treasury_fees_bounded [OF m entry nonneg fees] by (simp add: sampleTreasuryFee_def defaultBigInt_def)
qed

end
