(* ===== verification/Wtns.thy ===== *)
theory Wtns
  imports Prelude
begin

text \<open>
  Models \<^verbatim>\<open>pkg/proof/witness/wtns.go\<close>: the parser of circom witness files. The reader
  is the list of the bytes not read yet. \<^verbatim>\<open>SHA256Hex\<close> is a call of the standard
  library and is left out.
\<close>

section \<open>The reader\<close>

type_synonym uint32 = "32 word"

record WTNS =
  Version :: uint32
  FieldByteLen :: uint32
  Prime :: int
  Witness :: "int list"

text \<open>
  \<^verbatim>\<open>bytes.Reader.Read\<close> into a fresh buffer of \<open>n\<close> bytes: an error only when nothing is
  left; when fewer than \<open>n\<close> bytes are left it reads those, and the rest of the buffer stays zero.
\<close>

definition readerRead :: "nat \<Rightarrow> byte list \<Rightarrow> (byte list \<times> byte list) res" where
  "readerRead n data =
     (if data = [] then Err ''EOF''
      else Inr (take n data @ replicate (n - length data) 0, drop n data))"

text \<open>\<^verbatim>\<open>binary.Read\<close> of a fixed-size value reads all its bytes or fails.\<close>

definition readFull :: "nat \<Rightarrow> byte list \<Rightarrow> (byte list \<times> byte list) res" where
  "readFull n data =
     (if data = [] then Err ''EOF''
      else if length data < n then Err ''unexpected EOF''
      else Inr (take n data, drop n data))"

fun littleEndian :: "byte list \<Rightarrow> int" where
  "littleEndian [] = 0"
| "littleEndian (b # bs) = uint b + 256 * littleEndian bs"

definition readUint32 :: "byte list \<Rightarrow> (uint32 \<times> byte list) res" where
  "readUint32 data = andThen (readFull 4 data) (\<lambda>(bs, rest). Inr (word_of_int (littleEndian bs), rest))"

definition readUint64 :: "byte list \<Rightarrow> (uint64 \<times> byte list) res" where
  "readUint64 data = andThen (readFull 8 data) (\<lambda>(bs, rest). Inr (word_of_int (littleEndian bs), rest))"

text \<open>The bytes are reversed and read as a big-endian number (\<^verbatim>\<open>SetBytes\<close>).\<close>

definition SetBytes :: "byte list \<Rightarrow> int" where
  "SetBytes bs = foldl (\<lambda>n b. 256 * n + uint b) 0 bs"

definition littleEndianToBigInt :: "byte list \<Rightarrow> int" where
  "littleEndianToBigInt value = SetBytes (rev value)"

section \<open>The parser\<close>

fun readValues :: "nat \<Rightarrow> nat \<Rightarrow> byte list \<Rightarrow> (int list \<times> byte list) res" where
  "readValues fieldByteLen 0 data = Inr ([], data)"
| "readValues fieldByteLen (Suc n) data =
     andThen (readerRead fieldByteLen data) (\<lambda>(valueBytes, data).
     andThen (readValues fieldByteLen n data) (\<lambda>(values, data).
     Inr (littleEndianToBigInt valueBytes # values, data)))"

definition wtnsMagic :: "byte list" where
  "wtnsMagic = [0x77, 0x74, 0x6e, 0x73]"

definition ParseWTNS :: "byte list \<Rightarrow> WTNS res" where
  "ParseWTNS data =
     andThen (readerRead 4 data) (\<lambda>(magic, data).
     if magic \<noteq> wtnsMagic then Err ''invalid wtns magic'' else
     andThen (readUint32 data) (\<lambda>(version, data).
     andThen (readUint32 data) (\<lambda>(sections, data).
     if sections \<noteq> 2 then Inl (Errorf ''expected 2 wtns sections, got %d'' [ANat (unat sections)]) else
     andThen (readUint32 data) (\<lambda>(sectionID, data).
     if sectionID \<noteq> 1 then Inl (Errorf ''expected section 1, got %d'' [ANat (unat sectionID)]) else
     andThen (readUint64 data) (\<lambda>(sectionLength, data).
     andThen (readUint32 data) (\<lambda>(fieldByteLen, data).
     if fieldByteLen = 0 then Err ''field byte length is zero'' else
     let expectedSectionLength = ucast (8 + fieldByteLen) :: uint64 in
     if sectionLength \<noteq> expectedSectionLength
     then Inl (Errorf ''section 1 length mismatch: expected %d, got %d'' [ANat (unat expectedSectionLength), ANat (unat sectionLength)])
     else
     andThen (readerRead (unat fieldByteLen) data) (\<lambda>(primeBytes, data).
     andThen (readUint32 data) (\<lambda>(witnessLen, data).
     andThen (readUint32 data) (\<lambda>(sectionID, data).
     if sectionID \<noteq> 2 then Inl (Errorf ''expected section 2, got %d'' [ANat (unat sectionID)]) else
     andThen (readUint64 data) (\<lambda>(sectionLength, data).
     let expectedSectionLength = ucast fieldByteLen * ucast witnessLen :: uint64 in
     if sectionLength \<noteq> expectedSectionLength
     then Inl (Errorf ''section 2 length mismatch: expected %d, got %d'' [ANat (unat expectedSectionLength), ANat (unat sectionLength)])
     else
     andThen (readValues (unat fieldByteLen) (unat witnessLen) data) (\<lambda>(values, data).
     if data \<noteq> [] then Inl (Errorf ''unexpected trailing wtns bytes: %d'' [ANat (length data)])
     else Inr \<lparr>Version = version, FieldByteLen = fieldByteLen, Prime = littleEndianToBigInt primeBytes, Witness = values\<rparr>)))))))))))"

section \<open>Little-endian numbers\<close>

text \<open>The reference encoding: \<open>n\<close> bytes of a number, the least significant first.\<close>

fun leBytes :: "nat \<Rightarrow> int \<Rightarrow> byte list" where
  "leBytes 0 v = []"
| "leBytes (Suc n) v = word_of_int v # leBytes n (v div 256)"

lemma length_leBytes [simp]: "length (leBytes n v) = n"
  by (induction n arbitrary: v) auto

lemma littleEndian_leBytes: "0 \<le> v \<Longrightarrow> v < 256 ^ n \<Longrightarrow> littleEndian (leBytes n v) = v"
proof (induction n arbitrary: v)
  case (Suc n)
  have "uint (word_of_int v :: byte) = v mod 256" by (simp add: uint_word_of_int)
  moreover have "256 * (v div 256) \<le> v" using div_mult_mod_eq [of v 256] pos_mod_sign [of 256 v] by linarith
  then have "v div 256 < 256 ^ n" using Suc.prems by simp
  ultimately show ?case using Suc by simp
qed simp

lemma littleEndianToBigInt_eq: "littleEndianToBigInt bs = littleEndian bs"
  unfolding littleEndianToBigInt_def SetBytes_def by (induction bs) auto

lemma littleEndian_bounds: "0 \<le> littleEndian bs \<and> littleEndian bs < 256 ^ length bs"
proof (induction bs)
  case (Cons b bs)
  have "uint b < 256" using uint_bounded [of b] by simp
  then show ?case using Cons uint_ge_0 [of b] by auto
qed simp

lemma leBytes_littleEndian: "leBytes (length bs) (littleEndian bs) = bs"
proof (induction bs)
  case (Cons b bs)
  have "uint b < 256" using uint_bounded [of b] by simp
  then have "(uint b + 256 * littleEndian bs) div 256 = littleEndian bs" by (simp add: div_add1_eq)
  moreover have "word_of_int (uint b + 256 * littleEndian bs) = b"
    using \<open>uint b < 256\<close> unfolding word_uint_eq_iff uint_word_of_int by simp
  ultimately show ?case using Cons by simp
qed simp

section \<open>Reading what an encoder wrote\<close>

definition wtnsHeader :: "WTNS \<Rightarrow> byte list" where
  "wtnsHeader w =
     (let n8 = unat (FieldByteLen w); m = length (Witness w)
      in wtnsMagic @ leBytes 4 (uint (Version w)) @ leBytes 4 2 @ leBytes 4 1 @ leBytes 8 (8 + int n8) @ leBytes 4 (int n8)
         @ leBytes n8 (Prime w) @ leBytes 4 (int m) @ leBytes 4 2 @ leBytes 8 (int n8 * int m))"

definition wtnsBody :: "WTNS \<Rightarrow> byte list" where
  "wtnsBody w = concat (map (leBytes (unat (FieldByteLen w))) (Witness w))"

definition encodable :: "WTNS \<Rightarrow> bool" where
  "encodable w \<longleftrightarrow> 0 < FieldByteLen w \<and> uint (FieldByteLen w) + 8 < 2 ^ 32 \<and> length (Witness w) < 2 ^ 32 \<and>
     0 \<le> Prime w \<and> Prime w < 256 ^ unat (FieldByteLen w) \<and>
     (\<forall>v \<in> set (Witness w). 0 \<le> v \<and> v < 256 ^ unat (FieldByteLen w))"

lemma readerRead_append:
  "0 < n \<Longrightarrow> length bs = n \<Longrightarrow> readerRead n (bs @ rest) = Inr (bs, rest)"
  by (auto simp: readerRead_def)

lemma readUint32_append:
  "0 \<le> v \<Longrightarrow> v < 2 ^ 32 \<Longrightarrow> readUint32 (leBytes 4 v @ rest) = Inr (word_of_int v, rest)"
  using length_leBytes [of 4 v] by (simp add: readUint32_def readFull_def littleEndian_leBytes del: length_leBytes)
    (metis list.size(3) zero_neq_numeral)

lemma readUint64_append:
  "0 \<le> v \<Longrightarrow> v < 2 ^ 64 \<Longrightarrow> readUint64 (leBytes 8 v @ rest) = Inr (word_of_int v, rest)"
  using length_leBytes [of 8 v] by (simp add: readUint64_def readFull_def littleEndian_leBytes del: length_leBytes)
    (metis list.size(3) zero_neq_numeral)

lemma readValues_append:
  assumes "0 < n" "\<And>v. v \<in> set vs \<Longrightarrow> 0 \<le> v \<and> v < 256 ^ n"
  shows "readValues n (length vs + j) (concat (map (leBytes n) vs) @ rest) =
    andThen (readValues n j rest) (\<lambda>(ws, rest). Inr (vs @ ws, rest))"
  using assms(2)
proof (induction vs)
  case Nil
  then show ?case by (cases "readValues n j rest") auto
next
  case (Cons v vs)
  then show ?case
    by (cases "readValues n j rest") (auto simp: assms(1) readerRead_append littleEndianToBigInt_eq littleEndian_leBytes)
qed

lemma littleEndian_zeros [simp]: "littleEndian (bs @ replicate j 0) = littleEndian bs"
proof (induction bs)
  case Nil
  show ?case by (induction j) auto
qed simp

text \<open>What the parser does after the header, on any bytes.\<close>

lemma parse_header:
  assumes "encodable w"
  shows "ParseWTNS (wtnsHeader w @ body) =
    andThen (readValues (unat (FieldByteLen w)) (length (Witness w)) body) (\<lambda>(values, rest).
      if rest \<noteq> [] then Inl (Errorf ''unexpected trailing wtns bytes: %d'' [ANat (length rest)])
      else Inr (w\<lparr>Witness := values\<rparr>))"
proof -
  let ?n8 = "unat (FieldByteLen w)" and ?m = "length (Witness w)"
  have n8: "0 < ?n8" "int ?n8 + 8 < 2 ^ 32" "FieldByteLen w \<noteq> 0" "int ?n8 < 2 ^ 32" "int ?n8 = uint (FieldByteLen w)"
    using assms unat_gt_0 [of "FieldByteLen w"] by (auto simp: encodable_def word_gt_0)
  have m: "int ?m < 2 ^ 32" using assms by (auto simp: encodable_def)
  have prod: "int ?n8 * int ?m < 2 ^ 64"
    using mult_strict_mono [of "int ?n8" "2 ^ 32" "int ?m" "2 ^ 32"] n8(4) m by simp
  have len1: "(word_of_int (8 + int ?n8) :: uint64) = ucast (8 + FieldByteLen w)"
  proof (rule word_uint_eq_iff [THEN iffD2])
    have "uint (8 + FieldByteLen w) = 8 + uint (FieldByteLen w)" using n8(2,5) by (simp add: uint_word_ariths)
    then have "uint (ucast (8 + FieldByteLen w) :: uint64) = 8 + int ?n8"
      using n8(2,5) by (simp add: unsigned_ucast_eq take_bit_int_eq_self)
    moreover have "uint (word_of_int (8 + int ?n8) :: uint64) = 8 + int ?n8"
      unfolding uint_word_of_int using n8(2) by simp
    ultimately show "uint (word_of_int (8 + int ?n8) :: uint64) = uint (ucast (8 + FieldByteLen w) :: uint64)" by simp
  qed
  have len2: "(word_of_int (int ?n8 * int ?m) :: uint64) = ucast (FieldByteLen w) * ucast (word_of_int (int ?m) :: uint32)"
  proof (rule word_uint_eq_iff [THEN iffD2])
    have "uint (word_of_int (int ?m) :: uint32) = int ?m" unfolding uint_word_of_int using m by simp
    then have "uint (ucast (word_of_int (int ?m) :: uint32) :: uint64) = int ?m" "uint (ucast (FieldByteLen w) :: uint64) = int ?n8"
      using m n8(4,5) by (simp_all add: unsigned_ucast_eq take_bit_int_eq_self)
    then show "uint (word_of_int (int ?n8 * int ?m) :: uint64) =
        uint (ucast (FieldByteLen w) * ucast (word_of_int (int ?m) :: uint32) :: uint64)"
      unfolding uint_word_of_int [of "int ?n8 * int ?m"] uint_word_ariths by (simp only: len_of_numeral_defs)
  qed
  have p: "readerRead ?n8 (leBytes ?n8 (Prime w) @ rest) = Inr (leBytes ?n8 (Prime w), rest)" for rest
    by (rule readerRead_append) (simp_all add: n8(1))
  have mag: "readerRead 4 (wtnsMagic @ rest) = Inr (wtnsMagic, rest)" for rest
    by (rule readerRead_append) (simp_all add: wtnsMagic_def)
  have fbl: "(word_of_int (int ?n8) :: uint32) = FieldByteLen w" unfolding n8(5) by simp
  have um: "unat (word_of_int (int ?m) :: uint32) = ?m"
    unfolding unat_eq_nat_uint uint_word_of_int using m by simp
  have "wtnsHeader w @ body = wtnsMagic @ leBytes 4 (uint (Version w)) @ leBytes 4 2 @ leBytes 4 1 @ leBytes 8 (8 + int ?n8) @
      leBytes 4 (int ?n8) @ leBytes ?n8 (Prime w) @ leBytes 4 (int ?m) @ leBytes 4 2 @ leBytes 8 (int ?n8 * int ?m) @ body"
    unfolding wtnsHeader_def Let_def append_assoc by (rule refl)
  have small: "readUint32 (leBytes 4 2 @ rest) = Inr (2, rest)" "readUint32 (leBytes 4 1 @ rest) = Inr (1, rest)" for rest
    using readUint32_append [of 2 rest] readUint32_append [of 1 rest] by simp_all
  have version: "readUint32 (leBytes 4 (uint (Version w)) @ rest) = Inr (Version w, rest)" for rest
    using readUint32_append [of "uint (Version w)" rest] uint_bounded [of "Version w"] by simp
  have len8: "readUint64 (leBytes 8 (8 + int ?n8) @ rest) = Inr (ucast (8 + FieldByteLen w), rest)" for rest
    unfolding len1 [symmetric] by (rule readUint64_append) (use n8(2) in simp_all)
  have n8': "readUint32 (leBytes 4 (int ?n8) @ rest) = Inr (FieldByteLen w, rest)" for rest
    using readUint32_append [of "int ?n8" rest] n8(4) fbl by (simp only: of_nat_0_le_iff simp_thms)
  have m': "readUint32 (leBytes 4 (int ?m) @ rest) = Inr (word_of_int (int ?m), rest)" for rest
    by (rule readUint32_append) (use m in simp_all)
  have body8: "readUint64 (leBytes 8 (int ?n8 * int ?m) @ rest) = Inr (ucast (FieldByteLen w) * ucast (word_of_int (int ?m) :: uint32), rest)" for rest
    unfolding len2 [symmetric] by (rule readUint64_append) (use prod in simp_all)
  have prime: "littleEndianToBigInt (leBytes ?n8 (Prime w)) = Prime w"
    using assms by (simp add: littleEndianToBigInt_eq encodable_def littleEndian_leBytes)
  have rec: "\<lparr>Version = Version w, FieldByteLen = FieldByteLen w, Prime = Prime w, Witness = vs\<rparr> = w\<lparr>Witness := vs\<rparr>" for vs
    by simp
  show ?thesis
    by (simp only: \<open>wtnsHeader w @ body = _\<close> ParseWTNS_def mag small version len8 n8' m' body8 p prime rec um n8(3) andThen_simps prod.case simp_thms if_False if_True Let_def)
qed

section \<open>Properties\<close>

text \<open>A witness file written in the circom layout, with values that fit its
  field length, is parsed to the version, prime and values it was written from.\<close>

theorem wtns_roundtrip:
  assumes "encodable w"
  shows "ParseWTNS (wtnsHeader w @ wtnsBody w) = Inr w"
proof -
  have "0 < unat (FieldByteLen w)" using assms by (simp add: encodable_def word_gt_0 unat_gt_0)
  from readValues_append [OF this, of "Witness w" 0 "[]"] show ?thesis
    using assms by (simp add: parse_header wtnsBody_def encodable_def)
qed

definition sampleWTNS :: WTNS where
  "sampleWTNS = \<lparr>Version = 2, FieldByteLen = 2, Prime = 65521, Witness = [1, 513, 40000]\<rparr>"

lemma sampleWTNS_encodable: "encodable sampleWTNS"
  by (simp add: encodable_def sampleWTNS_def)

theorem wtns_roundtrip_witness:
  "ParseWTNS (wtnsHeader sampleWTNS @ wtnsBody sampleWTNS) = Inr sampleWTNS"
  by (rule wtns_roundtrip [OF sampleWTNS_encodable])

text \<open>C32: A witness file whose last value has lost some of its bytes, but
  not all of them, is parsed without an error: the missing high bytes of the value are taken as
  zero, although section 2 declares its full length.\<close>

theorem wtns_truncation_accepted:
  assumes "encodable w" "Witness w = vs @ [v]" "0 < k" "k \<le> unat (FieldByteLen w)"
  shows "ParseWTNS (wtnsHeader w @ concat (map (leBytes (unat (FieldByteLen w))) vs) @ take k (leBytes (unat (FieldByteLen w)) v)) =
    Inr (w\<lparr>Witness := vs @ [littleEndian (take k (leBytes (unat (FieldByteLen w)) v))]\<rparr>)"
proof -
  let ?n = "unat (FieldByteLen w)"
  have n: "0 < ?n" using assms(1) by (simp add: encodable_def word_gt_0 unat_gt_0)
  have vs: "\<And>x. x \<in> set vs \<Longrightarrow> 0 \<le> x \<and> x < 256 ^ ?n" using assms(1,2) by (auto simp: encodable_def)
  have "take k (leBytes ?n v) \<noteq> []" using assms(3) n by (metis length_leBytes length_0_conv length_take min_def neq0_conv)
  then have "readValues ?n 1 (take k (leBytes ?n v)) = Inr ([littleEndian (take k (leBytes ?n v))], [])"
    using assms(4) by (simp add: readerRead_def littleEndianToBigInt_eq)
  then show ?thesis
    using readValues_append [OF n vs, where j = 1 and rest = "take k (leBytes ?n v)"] by (simp add: parse_header [OF assms(1)] assms(2))
qed

theorem wtns_truncation_accepted_witness:
  "ParseWTNS (wtnsHeader sampleWTNS @ [1, 0, 1, 2, 64]) = Inr (sampleWTNS\<lparr>Witness := [1, 513, 64]\<rparr>)"
proof -
  have "leBytes 2 1 = [1, 0]" "leBytes 2 513 = [1, 2]" "take 1 (leBytes 2 40000) = [64]"
    by code_simp+
  then show ?thesis
    using wtns_truncation_accepted [OF sampleWTNS_encodable, of "[1, 513]" 40000 1]
    by (simp add: sampleWTNS_def del: One_nat_def)
qed

end
