(* ===== verification/ProofInputs.thy ===== *)
theory ProofInputs
  imports Poseidon
begin

text \<open>
  Models the pure part of \<^verbatim>\<open>pkg/proof\<close>: parsing of numbers (\<^verbatim>\<open>field.go\<close>), the
  inputs of the two circuits and their padding (\<^verbatim>\<open>types.go, poi.go, railgun.go, json.go\<close>),
  public signals (\<^verbatim>\<open>public_signals.go\<close>), snark proofs (\<^verbatim>\<open>format.go\<close>) and the
  prover's sequence of steps (\<^verbatim>\<open>backend.go\<close>). The proving backend and the artifacts come
  from third-party code and files and are parameters. A \<^verbatim>\<open>*big.Int\<close> that may be nil is an
  \<open>int option\<close>; a field that the code always sets is an \<open>int\<close>.
\<close>

section \<open>field.go\<close>

definition ParseDecimalBigInt :: "string \<Rightarrow> int res" where
  "ParseDecimalBigInt value = (let value = TrimSpace value in
     if value = [] then Err ''empty bigint string''
     else (case SetString value 10 of
         None \<Rightarrow> Inl (Errorf ''invalid decimal bigint %q'' [AStr value])
       | Some n \<Rightarrow> Inr n))"

definition ParseHexBigInt :: "string \<Rightarrow> int res" where
  "ParseHexBigInt value = (let value = TrimSpace value in
     if value = [] then Err ''empty bigint string''
     else (let value = TrimPrefix (TrimPrefix value ''0x'') ''0X'' in
       if value = [] then Inl (Errorf ''invalid hex bigint %q'' [AStr value])
       else (case SetString value 16 of
           None \<Rightarrow> Inl (Errorf ''invalid hex bigint %q'' [AStr value])
         | Some n \<Rightarrow> Inr n)))"

definition ParseNumberishBigInt :: "string \<Rightarrow> int res" where
  "ParseNumberishBigInt value = (let value = TrimSpace value in
     if HasPrefix value ''0x'' \<or> HasPrefix value ''0X'' then ParseHexBigInt value else ParseDecimalBigInt value)"

definition cloneRequiredBigInt :: "int option \<Rightarrow> string \<Rightarrow> int res" where
  "cloneRequiredBigInt value name = (case value of None \<Rightarrow> Inl (Errorf ''%s is required'' [AStr name]) | Some v \<Rightarrow> Inr v)"

definition padBigIntsToMax :: "'a list \<Rightarrow> nat \<Rightarrow> 'a \<Rightarrow> 'a list" where
  "padBigIntsToMax values m zeroValue = values @ replicate (m - length values) zeroValue"

text \<open>Rows that are there keep their length; the added rows have \<open>n\<close> entries.\<close>

definition padBigIntRowsToMaxAndLength :: "int list list \<Rightarrow> nat \<Rightarrow> nat \<Rightarrow> int \<Rightarrow> int list list" where
  "padBigIntRowsToMaxAndLength values m n zeroValue = values @ replicate (m - length values) (replicate n zeroValue)"

definition parseHexSlice :: "string list \<Rightarrow> int list res" where
  "parseHexSlice values = mapRes (\<lambda>(i, value). wrapErr ''hex value at index %d: %w'' [ANat i] (ParseHexBigInt value))
     (zip [0..<length values] values)"

definition parseNumberishSlice :: "string list \<Rightarrow> int list res" where
  "parseNumberishSlice values = mapRes (\<lambda>(i, value). wrapErr ''numberish value at index %d: %w'' [ANat i] (ParseNumberishBigInt value))
     (zip [0..<length values] values)"

definition bigIntStrings :: "int option list \<Rightarrow> string list" where
  "bigIntStrings values = map (\<lambda>v. case v of None \<Rightarrow> [] | Some n \<Rightarrow> decimal n) values"

definition bigIntRowStrings :: "int list list \<Rightarrow> string list list" where
  "bigIntRowStrings values = map (\<lambda>row. bigIntStrings (map Some row)) values"

section \<open>types.go\<close>

record Proof =
  PiA :: "string \<times> string"
  PiB :: "(string \<times> string) \<times> (string \<times> string)"
  PiC :: "string \<times> string"

record SnarkProof =
  snA :: "int \<times> int"
  snBX :: "int \<times> int"
  snBY :: "int \<times> int"
  snC :: "int \<times> int"

record ProofResult =
  prProof :: Proof
  prPublicSignals :: "int option list"

record PublicInputsRailgun =
  piMerkleRoot :: "int option"
  piBoundParamsHash :: "int option"
  piNullifiers :: "int option list"
  piCommitmentsOut :: "int option list"

record PrivateInputsRailgun =
  pvTokenAddress :: "int option"
  pvPublicKey :: "int option \<times> int option"
  pvRandomIn :: "int option list"
  pvValueIn :: "int option list"
  pvPathElements :: "int option list list"
  pvLeavesIndices :: "int option list"
  pvNullifyingKey :: "int option"
  pvNPKOut :: "int option list"
  pvValueOut :: "int option list"

record UnprovedTransactionInputs =
  utPublicInputs :: PublicInputsRailgun
  utPrivateInputs :: PrivateInputsRailgun
  utSignature :: "int option \<times> int option \<times> int option"

record FormattedCircuitInputsRailgun =
  frMerkleRoot :: int
  frBoundParamsHash :: int
  frNullifiers :: "int option list"
  frCommitmentsOut :: "int option list"
  frToken :: int
  frPublicKey :: "int list"
  frSignature :: "int list"
  frRandomIn :: "int option list"
  frValueIn :: "int option list"
  frPathElements :: "int option list"
  frLeavesIndices :: "int option list"
  frNullifyingKey :: int
  frNPKOut :: "int option list"
  frValueOut :: "int option list"

record PublicInputsPOI =
  ppAnyRailgunTxidMerklerootAfterTransaction :: int
  ppBlindedCommitmentsOut :: "int list"
  ppPOIMerkleRoots :: "int list"
  ppRailgunTxidIfHasUnshield :: int

record POIEngineProofInputs =
  peAnyRailgunTxidMerklerootAfterTransaction :: string
  pePOIMerkleRoots :: "string list"
  peBoundParamsHash :: string
  peNullifiers :: "string list"
  peCommitmentsOut :: "string list"
  peSpendingPublicKey :: "int option \<times> int option"
  peNullifyingKey :: "int option"
  peToken :: string
  peRandomsIn :: "string list"
  peValuesIn :: "int option list"
  peUTXOPositionsIn :: "uint64 list"
  peUTXOTreeIn :: uint64
  peNPKsOut :: "int option list"
  peValuesOut :: "int option list"
  peUTXOBatchGlobalStartPositionOut :: "int option"
  peRailgunTxidIfHasUnshield :: string
  peRailgunTxidMerkleProofIndices :: string
  peRailgunTxidMerkleProofPathElements :: "string list"
  pePOIInMerkleProofIndices :: "string list"
  pePOIInMerkleProofPathElements :: "string list list"

record FormattedCircuitInputsPOI =
  fpAnyRailgunTxidMerklerootAfterTransaction :: int
  fpPOIMerkleRoots :: "int list"
  fpBoundParamsHash :: int
  fpNullifiers :: "int list"
  fpCommitmentsOut :: "int list"
  fpSpendingPublicKey :: "int \<times> int"
  fpNullifyingKey :: int
  fpToken :: int
  fpRandomsIn :: "int list"
  fpValuesIn :: "int option list"
  fpUTXOPositionsIn :: "int list"
  fpUTXOTreeIn :: int
  fpNPKsOut :: "int option list"
  fpValuesOut :: "int option list"
  fpUTXOBatchGlobalStartPositionOut :: int
  fpRailgunTxidIfHasUnshield :: int
  fpRailgunTxidMerkleProofIndices :: int
  fpRailgunTxidMerkleProofPathElements :: "int list"
  fpPOIInMerkleProofIndices :: "int list"
  fpPOIInMerkleProofPathElements :: "int list list"

record NativeFormattedCircuitInputsPOI =
  npAnyRailgunTxidMerklerootAfterTransaction :: string
  npPOIMerkleRoots :: "string list"
  npBoundParamsHash :: string
  npNullifiers :: "string list"
  npCommitmentsOut :: "string list"
  npSpendingPublicKey :: "string \<times> string"
  npNullifyingKey :: string
  npToken :: string
  npRandomsIn :: "string list"
  npValuesIn :: "string list"
  npUTXOPositionsIn :: "string list"
  npUTXOTreeIn :: string
  npNPKsOut :: "string list"
  npValuesOut :: "string list"
  npUTXOBatchGlobalStartPositionOut :: string
  npRailgunTxidIfHasUnshield :: string
  npRailgunTxidMerkleProofIndices :: string
  npRailgunTxidMerkleProofPathElements :: "string list"
  npPOIInMerkleProofIndices :: "string list"
  npPOIInMerkleProofPathElements :: "string list list"

section \<open>poi.go\<close>

record CircuitID =
  CircuitName :: string
  MaxInputs :: nat
  MaxOutputs :: nat

definition SelectPOICircuit :: "POIEngineProofInputs \<Rightarrow> CircuitID" where
  "SelectPOICircuit inputs =
     (if length (peNullifiers inputs) \<le> 3 \<and> length (peCommitmentsOut inputs) \<le> 3
      then \<lparr>CircuitName = ''POI_3X3'', MaxInputs = 3, MaxOutputs = 3\<rparr>
      else \<lparr>CircuitName = ''POI_13X13'', MaxInputs = 13, MaxOutputs = 13\<rparr>)"

definition RailgunCircuitID :: "nat \<Rightarrow> nat \<Rightarrow> CircuitID" where
  "RailgunCircuitID nullifiers commitments =
     \<lparr>CircuitName = ''JOINSPLIT_'' @ decimal (int nullifiers) @ ''X'' @ decimal (int commitments),
      MaxInputs = nullifiers, MaxOutputs = commitments\<rparr>"

definition defaultPOIPathLength :: nat where
  "defaultPOIPathLength = 16"

definition GetPublicInputsPOI ::
  "string \<Rightarrow> string list \<Rightarrow> string list \<Rightarrow> string \<Rightarrow> nat \<Rightarrow> nat \<Rightarrow> PublicInputsPOI res" where
  "GetPublicInputsPOI anyRailgunTxidMerklerootAfterTransaction blindedCommitmentsOut poiMerkleroots railgunTxidIfHasUnshield maxInputs maxOutputs =
     andThen (wrapErr ''anyRailgunTxidMerklerootAfterTransaction: %w'' [] (ParseHexBigInt anyRailgunTxidMerklerootAfterTransaction)) (\<lambda>anyMerkleroot.
     andThen (wrapErr ''blindedCommitmentsOut: %w'' [] (parseHexSlice blindedCommitmentsOut)) (\<lambda>blindedOut.
     andThen (wrapErr ''poiMerkleroots: %w'' [] (parseHexSlice poiMerkleroots)) (\<lambda>poiRoots.
     andThen (wrapErr ''railgunTxidIfHasUnshield: %w'' [] (ParseHexBigInt railgunTxidIfHasUnshield)) (\<lambda>txidIfUnshield.
     Inr \<lparr>ppAnyRailgunTxidMerklerootAfterTransaction = anyMerkleroot,
       ppBlindedCommitmentsOut = padBigIntsToMax blindedOut maxOutputs 0,
       ppPOIMerkleRoots = padBigIntsToMax poiRoots maxInputs MerkleZeroValue,
       ppRailgunTxidIfHasUnshield = txidIfUnshield\<rparr>))))"

definition FormatPOIInputs :: "POIEngineProofInputs \<Rightarrow> nat \<Rightarrow> nat \<Rightarrow> FormattedCircuitInputsPOI res" where
  "FormatPOIInputs inp maxInputs maxOutputs =
     andThen (wrapErr ''anyRailgunTxidMerklerootAfterTransaction: %w'' [] (ParseHexBigInt (peAnyRailgunTxidMerklerootAfterTransaction inp))) (\<lambda>anyMerkleroot.
     andThen (wrapErr ''boundParamsHash: %w'' [] (ParseHexBigInt (peBoundParamsHash inp))) (\<lambda>boundParamsHash.
     andThen (wrapErr ''nullifiers: %w'' [] (parseHexSlice (peNullifiers inp))) (\<lambda>nullifiers.
     andThen (wrapErr ''commitmentsOut: %w'' [] (parseHexSlice (peCommitmentsOut inp))) (\<lambda>commitmentsOut.
     andThen (cloneRequiredBigInt (peNullifyingKey inp) ''nullifyingKey'') (\<lambda>nullifyingKey.
     andThen (wrapErr ''token: %w'' [] (ParseHexBigInt (peToken inp))) (\<lambda>token.
     andThen (wrapErr ''randomsIn: %w'' [] (parseHexSlice (peRandomsIn inp))) (\<lambda>randomsIn.
     andThen (wrapErr ''railgunTxidIfHasUnshield: %w'' [] (ParseNumberishBigInt (peRailgunTxidIfHasUnshield inp))) (\<lambda>railgunTxidIfHasUnshield.
     andThen (wrapErr ''railgunTxidMerkleProofIndices: %w'' [] (ParseHexBigInt (peRailgunTxidMerkleProofIndices inp))) (\<lambda>railgunProofIndices.
     andThen (wrapErr ''railgunTxidMerkleProofPathElements: %w'' [] (parseHexSlice (peRailgunTxidMerkleProofPathElements inp))) (\<lambda>railgunPathElements.
     andThen (wrapErr ''poiMerkleroots: %w'' [] (parseHexSlice (pePOIMerkleRoots inp))) (\<lambda>poiRoots.
     andThen (wrapErr ''poiInMerkleProofIndices: %w'' [] (parseHexSlice (pePOIInMerkleProofIndices inp))) (\<lambda>poiProofIndices.
     andThen (mapRes (\<lambda>(i, row). wrapErr ''poiInMerkleProofPathElements[%d]: %w'' [ANat i] (parseHexSlice row))
       (zip [0..<length (pePOIInMerkleProofPathElements inp)] (pePOIInMerkleProofPathElements inp))) (\<lambda>poiPathElements.
     andThen (cloneRequiredBigInt (fst (peSpendingPublicKey inp)) ''spendingPublicKey[0]'') (\<lambda>spendingPublicKey0.
     andThen (cloneRequiredBigInt (snd (peSpendingPublicKey inp)) ''spendingPublicKey[1]'') (\<lambda>spendingPublicKey1.
     andThen (cloneRequiredBigInt (peUTXOBatchGlobalStartPositionOut inp) ''utxoBatchGlobalStartPositionOut'') (\<lambda>batchStart.
     Inr \<lparr>fpAnyRailgunTxidMerklerootAfterTransaction = anyMerkleroot,
       fpPOIMerkleRoots = padBigIntsToMax poiRoots maxInputs MerkleZeroValue,
       fpBoundParamsHash = boundParamsHash,
       fpNullifiers = padBigIntsToMax nullifiers maxInputs MerkleZeroValue,
       fpCommitmentsOut = padBigIntsToMax commitmentsOut maxOutputs MerkleZeroValue,
       fpSpendingPublicKey = (spendingPublicKey0, spendingPublicKey1),
       fpNullifyingKey = nullifyingKey,
       fpToken = token,
       fpRandomsIn = padBigIntsToMax randomsIn maxInputs MerkleZeroValue,
       fpValuesIn = padBigIntsToMax (peValuesIn inp) maxOutputs (Some 0),
       fpUTXOPositionsIn = padBigIntsToMax (map uint (peUTXOPositionsIn inp)) maxInputs MerkleZeroValue,
       fpUTXOTreeIn = uint (peUTXOTreeIn inp),
       fpNPKsOut = padBigIntsToMax (peNPKsOut inp) maxOutputs (Some MerkleZeroValue),
       fpValuesOut = padBigIntsToMax (peValuesOut inp) maxOutputs (Some 0),
       fpUTXOBatchGlobalStartPositionOut = batchStart,
       fpRailgunTxidIfHasUnshield = railgunTxidIfHasUnshield,
       fpRailgunTxidMerkleProofIndices = railgunProofIndices,
       fpRailgunTxidMerkleProofPathElements = railgunPathElements,
       fpPOIInMerkleProofIndices = padBigIntsToMax poiProofIndices maxInputs 0,
       fpPOIInMerkleProofPathElements = padBigIntRowsToMaxAndLength poiPathElements maxInputs defaultPOIPathLength MerkleZeroValue\<rparr>))))))))))))))))"

definition NativeInputsPOI :: "FormattedCircuitInputsPOI \<Rightarrow> NativeFormattedCircuitInputsPOI" where
  "NativeInputsPOI inp =
     (let strs = (\<lambda>xs. bigIntStrings (map Some xs))
      in \<lparr>npAnyRailgunTxidMerklerootAfterTransaction = decimal (fpAnyRailgunTxidMerklerootAfterTransaction inp),
       npPOIMerkleRoots = strs (fpPOIMerkleRoots inp),
       npBoundParamsHash = decimal (fpBoundParamsHash inp),
       npNullifiers = strs (fpNullifiers inp),
       npCommitmentsOut = strs (fpCommitmentsOut inp),
       npSpendingPublicKey = (decimal (fst (fpSpendingPublicKey inp)), decimal (snd (fpSpendingPublicKey inp))),
       npNullifyingKey = decimal (fpNullifyingKey inp),
       npToken = decimal (fpToken inp),
       npRandomsIn = strs (fpRandomsIn inp),
       npValuesIn = bigIntStrings (fpValuesIn inp),
       npUTXOPositionsIn = strs (fpUTXOPositionsIn inp),
       npUTXOTreeIn = decimal (fpUTXOTreeIn inp),
       npNPKsOut = bigIntStrings (fpNPKsOut inp),
       npValuesOut = bigIntStrings (fpValuesOut inp),
       npUTXOBatchGlobalStartPositionOut = decimal (fpUTXOBatchGlobalStartPositionOut inp),
       npRailgunTxidIfHasUnshield = decimal (fpRailgunTxidIfHasUnshield inp),
       npRailgunTxidMerkleProofIndices = decimal (fpRailgunTxidMerkleProofIndices inp),
       npRailgunTxidMerkleProofPathElements = strs (fpRailgunTxidMerkleProofPathElements inp),
       npPOIInMerkleProofIndices = strs (fpPOIInMerkleProofIndices inp),
       npPOIInMerkleProofPathElements = bigIntRowStrings (fpPOIInMerkleProofPathElements inp)\<rparr>)"

section \<open>railgun.go\<close>

definition FormatRailgunInputs :: "UnprovedTransactionInputs \<Rightarrow> FormattedCircuitInputsRailgun res" where
  "FormatRailgunInputs inp =
     (let pub = utPublicInputs inp; priv = utPrivateInputs inp;
          (s0, s1, s2) = utSignature inp
      in andThen (cloneRequiredBigInt (piMerkleRoot pub) ''publicInputs.merkleRoot'') (\<lambda>merkleRoot.
         andThen (cloneRequiredBigInt (piBoundParamsHash pub) ''publicInputs.boundParamsHash'') (\<lambda>boundParamsHash.
         andThen (cloneRequiredBigInt (pvTokenAddress priv) ''privateInputs.tokenAddress'') (\<lambda>token.
         andThen (cloneRequiredBigInt (pvNullifyingKey priv) ''privateInputs.nullifyingKey'') (\<lambda>nullifyingKey.
         andThen (cloneRequiredBigInt (fst (pvPublicKey priv)) ''privateInputs.publicKey[0]'') (\<lambda>publicKey0.
         andThen (cloneRequiredBigInt (snd (pvPublicKey priv)) ''privateInputs.publicKey[1]'') (\<lambda>publicKey1.
         andThen (cloneRequiredBigInt s0 ''signature[0]'') (\<lambda>sig0.
         andThen (cloneRequiredBigInt s1 ''signature[1]'') (\<lambda>sig1.
         andThen (cloneRequiredBigInt s2 ''signature[2]'') (\<lambda>sig2.
         Inr \<lparr>frMerkleRoot = merkleRoot, frBoundParamsHash = boundParamsHash,
           frNullifiers = piNullifiers pub, frCommitmentsOut = piCommitmentsOut pub,
           frToken = token, frPublicKey = [publicKey0, publicKey1], frSignature = [sig0, sig1, sig2],
           frRandomIn = pvRandomIn priv, frValueIn = pvValueIn priv,
           frPathElements = concat (pvPathElements priv), frLeavesIndices = pvLeavesIndices priv,
           frNullifyingKey = nullifyingKey, frNPKOut = pvNPKOut priv, frValueOut = pvValueOut priv\<rparr>))))))))))"

section \<open>public_signals.go\<close>

definition BuildPublicSignalsRailgun :: "PublicInputsRailgun \<Rightarrow> int option list" where
  "BuildPublicSignalsRailgun p = [piMerkleRoot p, piBoundParamsHash p] @ piNullifiers p @ piCommitmentsOut p"

text \<open>\<^verbatim>\<open>Poseidon\<close> dereferences its inputs after it has checked their number; its errors do not
  depend on their values.\<close>

definition HashPublicInputsRailgun :: "poseidonConstantsRaw \<Rightarrow> PublicInputsRailgun \<Rightarrow> int res" where
  "HashPublicInputsRailgun raw p =
     (let signals = BuildPublicSignalsRailgun p
      in andThen (Poseidon raw (map (\<lambda>s. case s of None \<Rightarrow> 0 | Some n \<Rightarrow> n) signals)) (\<lambda>h.
         if None \<in> set signals then Inl (Panic ''nil pointer dereference'') else Inr h))"

definition BuildPublicSignalsPOI :: "PublicInputsPOI \<Rightarrow> int list" where
  "BuildPublicSignalsPOI p =
     ppBlindedCommitmentsOut p @ [ppAnyRailgunTxidMerklerootAfterTransaction p, ppRailgunTxidIfHasUnshield p] @ ppPOIMerkleRoots p"

definition bigIntText :: "int option \<Rightarrow> string" where
  "bigIntText v = (case v of None \<Rightarrow> ''<nil>'' | Some n \<Rightarrow> decimal n)"

definition AssertPublicSignalsMatch :: "int option list \<Rightarrow> int option list \<Rightarrow> unit res" where
  "AssertPublicSignalsMatch expected actual =
     (if actual = [] then Inr ()
      else if length expected \<noteq> length actual
      then Inl (Errorf ''public signals length mismatch: expected %d, got %d'' [ANat (length expected), ANat (length actual)])
      else foldResI 0 (\<lambda>i (e, a) _. if e \<noteq> a
          then Inl (Errorf ''public signal %d mismatch: expected %s, got %s'' [ANat i, AStr (bigIntText e), AStr (bigIntText a)])
          else Inr ()) (zip expected actual) ())"

section \<open>format.go\<close>

definition FormatProof :: "Proof \<Rightarrow> SnarkProof res" where
  "FormatProof p =
     andThen (wrapErr ''pi_a[0]: %w'' [] (ParseNumberishBigInt (fst (PiA p)))) (\<lambda>piA0.
     andThen (wrapErr ''pi_a[1]: %w'' [] (ParseNumberishBigInt (snd (PiA p)))) (\<lambda>piA1.
     andThen (wrapErr ''pi_b[0][0]: %w'' [] (ParseNumberishBigInt (fst (fst (PiB p))))) (\<lambda>piB00.
     andThen (wrapErr ''pi_b[0][1]: %w'' [] (ParseNumberishBigInt (snd (fst (PiB p))))) (\<lambda>piB01.
     andThen (wrapErr ''pi_b[1][0]: %w'' [] (ParseNumberishBigInt (fst (snd (PiB p))))) (\<lambda>piB10.
     andThen (wrapErr ''pi_b[1][1]: %w'' [] (ParseNumberishBigInt (snd (snd (PiB p))))) (\<lambda>piB11.
     andThen (wrapErr ''pi_c[0]: %w'' [] (ParseNumberishBigInt (fst (PiC p)))) (\<lambda>piC0.
     andThen (wrapErr ''pi_c[1]: %w'' [] (ParseNumberishBigInt (snd (PiC p)))) (\<lambda>piC1.
     Inr \<lparr>snA = (piA0, piA1), snBX = (piB01, piB00), snBY = (piB11, piB10), snC = (piC0, piC1)\<rparr>))))))))"

section \<open>json.go\<close>

text \<open>The decoded JSON document; numbers are texts that the parser turns into integers.\<close>

record poiEngineProofInputsJSON =
  jsAnyRailgunTxidMerklerootAfterTransaction :: string
  jsPOIMerkleRoots :: "string list"
  jsBoundParamsHash :: string
  jsNullifiers :: "string list"
  jsCommitmentsOut :: "string list"
  jsSpendingPublicKey :: "string \<times> string"
  jsNullifyingKey :: string
  jsToken :: string
  jsRandomsIn :: "string list"
  jsValuesIn :: "string list"
  jsUTXOPositionsIn :: "uint64 list"
  jsUTXOTreeIn :: uint64
  jsNPKsOut :: "string list"
  jsValuesOut :: "string list"
  jsUTXOBatchGlobalStartPositionOut :: string
  jsRailgunTxidIfHasUnshield :: string
  jsRailgunTxidMerkleProofIndices :: string
  jsRailgunTxidMerkleProofPathElements :: "string list"
  jsPOIInMerkleProofIndices :: "string list"
  jsPOIInMerkleProofPathElements :: "string list list"

definition ParsePOIEngineProofInputsJSON :: "poiEngineProofInputsJSON res \<Rightarrow> POIEngineProofInputs res" where
  "ParsePOIEngineProofInputsJSON data =
     andThen data (\<lambda>doc.
     andThen (wrapErr ''spendingPublicKey[0]: %w'' [] (ParseNumberishBigInt (fst (jsSpendingPublicKey doc)))) (\<lambda>spendingKey0.
     andThen (wrapErr ''spendingPublicKey[1]: %w'' [] (ParseNumberishBigInt (snd (jsSpendingPublicKey doc)))) (\<lambda>spendingKey1.
     andThen (wrapErr ''nullifyingKey: %w'' [] (ParseNumberishBigInt (jsNullifyingKey doc))) (\<lambda>nullifyingKey.
     andThen (wrapErr ''valuesIn: %w'' [] (parseNumberishSlice (jsValuesIn doc))) (\<lambda>valuesIn.
     andThen (wrapErr ''npksOut: %w'' [] (parseNumberishSlice (jsNPKsOut doc))) (\<lambda>npksOut.
     andThen (wrapErr ''valuesOut: %w'' [] (parseNumberishSlice (jsValuesOut doc))) (\<lambda>valuesOut.
     andThen (wrapErr ''utxoBatchGlobalStartPositionOut: %w'' [] (ParseNumberishBigInt (jsUTXOBatchGlobalStartPositionOut doc))) (\<lambda>batchStart.
     Inr \<lparr>peAnyRailgunTxidMerklerootAfterTransaction = jsAnyRailgunTxidMerklerootAfterTransaction doc,
       pePOIMerkleRoots = jsPOIMerkleRoots doc, peBoundParamsHash = jsBoundParamsHash doc,
       peNullifiers = jsNullifiers doc, peCommitmentsOut = jsCommitmentsOut doc,
       peSpendingPublicKey = (Some spendingKey0, Some spendingKey1), peNullifyingKey = Some nullifyingKey,
       peToken = jsToken doc, peRandomsIn = jsRandomsIn doc, peValuesIn = map Some valuesIn,
       peUTXOPositionsIn = jsUTXOPositionsIn doc, peUTXOTreeIn = jsUTXOTreeIn doc,
       peNPKsOut = map Some npksOut, peValuesOut = map Some valuesOut,
       peUTXOBatchGlobalStartPositionOut = Some batchStart,
       peRailgunTxidIfHasUnshield = jsRailgunTxidIfHasUnshield doc,
       peRailgunTxidMerkleProofIndices = jsRailgunTxidMerkleProofIndices doc,
       peRailgunTxidMerkleProofPathElements = jsRailgunTxidMerkleProofPathElements doc,
       pePOIInMerkleProofIndices = jsPOIInMerkleProofIndices doc,
       pePOIInMerkleProofPathElements = jsPOIInMerkleProofPathElements doc\<rparr>))))))))"

section \<open>backend.go\<close>

text \<open>The interfaces; \<open>'art\<close> is what the artifact files hold. Progress callbacks are left out.\<close>

record 'art ArtifactGetter =
  GetArtifacts :: "ctx \<Rightarrow> PublicInputsRailgun \<Rightarrow> 'art res"
  GetArtifactsPOI :: "ctx \<Rightarrow> nat \<Rightarrow> nat \<Rightarrow> 'art res"

record 'art Backend =
  backendProveRailgun :: "ctx \<Rightarrow> CircuitID \<Rightarrow> FormattedCircuitInputsRailgun \<Rightarrow> 'art \<Rightarrow> ProofResult res"
  backendVerifyRailgun :: "ctx \<Rightarrow> PublicInputsRailgun \<Rightarrow> Proof \<Rightarrow> 'art \<Rightarrow> bool res"
  backendProvePOI :: "ctx \<Rightarrow> CircuitID \<Rightarrow> FormattedCircuitInputsPOI \<Rightarrow> 'art \<Rightarrow> ProofResult res"
  backendVerifyPOI :: "ctx \<Rightarrow> PublicInputsPOI \<Rightarrow> Proof \<Rightarrow> 'art \<Rightarrow> bool res"

record 'art Prover =
  artifactGetter :: "'art ArtifactGetter option"
  proverBackend :: "'art Backend option"

definition ProveRailgun ::
  "ctx \<Rightarrow> 'art Prover \<Rightarrow> UnprovedTransactionInputs \<Rightarrow> (Proof \<times> PublicInputsRailgun) res" where
  "ProveRailgun ctx p unprovedInputs =
     notNil ''proof backend not configured'' (proverBackend p) (\<lambda>backend.
     notNil ''artifact getter not configured'' (artifactGetter p) (\<lambda>getter.
     andThen (FormatRailgunInputs unprovedInputs) (\<lambda>formattedInputs.
     let publicInputs = utPublicInputs unprovedInputs in
     andThen (GetArtifacts getter ctx publicInputs) (\<lambda>artifacts.
     andThen (backendProveRailgun backend ctx
       (RailgunCircuitID (length (piNullifiers publicInputs)) (length (piCommitmentsOut publicInputs))) formattedInputs artifacts) (\<lambda>result.
     andThen (AssertPublicSignalsMatch (BuildPublicSignalsRailgun publicInputs) (prPublicSignals result)) (\<lambda>_.
     andThen (backendVerifyRailgun backend ctx publicInputs (prProof result) artifacts) (\<lambda>ok.
     if \<not> ok then Err ''railgun proof verification failed'' else Inr (prProof result, publicInputs))))))))"

definition ProvePOIForInputsOutputs ::
  "ctx \<Rightarrow> 'art Prover \<Rightarrow> POIEngineProofInputs \<Rightarrow> string list \<Rightarrow> nat \<Rightarrow> nat \<Rightarrow> (Proof \<times> PublicInputsPOI) res" where
  "ProvePOIForInputsOutputs ctx p inputs blindedCommitmentsOut maxInputs maxOutputs =
     notNil ''proof backend not configured'' (proverBackend p) (\<lambda>backend.
     notNil ''artifact getter not configured'' (artifactGetter p) (\<lambda>getter.
     andThen (FormatPOIInputs inputs maxInputs maxOutputs) (\<lambda>formattedInputs.
     andThen (GetPublicInputsPOI (peAnyRailgunTxidMerklerootAfterTransaction inputs) blindedCommitmentsOut
       (pePOIMerkleRoots inputs) (peRailgunTxidIfHasUnshield inputs) maxInputs maxOutputs) (\<lambda>publicInputs.
     andThen (GetArtifactsPOI getter ctx maxInputs maxOutputs) (\<lambda>artifacts.
     andThen (backendProvePOI backend ctx
       \<lparr>CircuitName = ''POI_'' @ decimal (int maxInputs) @ ''X'' @ decimal (int maxOutputs), MaxInputs = maxInputs, MaxOutputs = maxOutputs\<rparr>
       formattedInputs artifacts) (\<lambda>result.
     andThen (AssertPublicSignalsMatch (map Some (BuildPublicSignalsPOI publicInputs)) (prPublicSignals result)) (\<lambda>_.
     andThen (backendVerifyPOI backend ctx publicInputs (prProof result) artifacts) (\<lambda>ok.
     if \<not> ok then Err ''poi proof verification failed'' else Inr (prProof result, publicInputs)))))))))"

definition ProvePOI ::
  "ctx \<Rightarrow> 'art Prover \<Rightarrow> POIEngineProofInputs \<Rightarrow> string list \<Rightarrow> (Proof \<times> PublicInputsPOI) res" where
  "ProvePOI ctx p inputs blindedCommitmentsOut =
     (let circuit = SelectPOICircuit inputs
      in ProvePOIForInputsOutputs ctx p inputs blindedCommitmentsOut (MaxInputs circuit) (MaxOutputs circuit))"

section \<open>Agreement of the private and the public inputs\<close>

lemma length_pad [simp]: "length (padBigIntsToMax xs m z) = max (length xs) m"
  by (simp add: padBigIntsToMax_def)

lemma parseHexSlice_length: "parseHexSlice xs = Inr ys \<Longrightarrow> length ys = length xs"
  unfolding parseHexSlice_def by (drule mapRes_length) simp

lemma numberish_hex: "hexString h \<Longrightarrow> ParseNumberishBigInt (''0x'' @ h) = ParseHexBigInt (''0x'' @ h)"
  unfolding ParseNumberishBigInt_def ParseHexBigInt_def by (simp only: TrimSpace_0x Let_def) simp

lemma signals_match:
  "AssertPublicSignalsMatch expected actual = Inr () \<longleftrightarrow> actual = [] \<or> actual = expected"
proof -
  have "foldResI i (\<lambda>i (e, a) _. if e \<noteq> a
          then Inl (Errorf ''public signal %d mismatch: expected %s, got %s'' [ANat i, AStr (bigIntText e), AStr (bigIntText a)])
          else Inr ()) (zip xs ys) () = Inr () \<longleftrightarrow> (length xs = length ys \<longrightarrow> xs = ys)" if "length xs = length ys" for i xs ys
    using that by (induction xs ys arbitrary: i rule: list_induct2) (auto simp: res_elims)
  from this [of expected actual 0] show ?thesis by (auto simp: AssertPublicSignalsMatch_def)
qed

section \<open>Properties\<close>

text \<open>C20: When the prover returns a POI proof, the backend proved the
  formatted private inputs and accepted the proof for the returned public inputs; the private
  and the public inputs carry the same TXID root, POI roots and unshield id, the public signals
  the backend reported, if any, are those of the public inputs, and there are as many of them as
  the circuit has (for a prefixed unshield id and no more inputs than the circuit takes).\<close>

theorem poi_proof_binds_public_inputs:
  assumes "ProvePOI ctx p inp blinded = Inr (pf, pub)"
    and "peRailgunTxidIfHasUnshield inp = ''0x'' @ h" "hexString h"
    and "length blinded \<le> MaxOutputs (SelectPOICircuit inp)" "length (pePOIMerkleRoots inp) \<le> MaxInputs (SelectPOICircuit inp)"
  shows "\<exists>backend formatted art circuit result.
    proverBackend p = Some backend \<and>
    FormatPOIInputs inp (MaxInputs (SelectPOICircuit inp)) (MaxOutputs (SelectPOICircuit inp)) = Inr formatted \<and>
    backendProvePOI backend ctx circuit formatted art = Inr result \<and> prProof result = pf \<and>
    backendVerifyPOI backend ctx pub pf art = Inr True \<and>
    (prPublicSignals result = [] \<or> prPublicSignals result = map Some (BuildPublicSignalsPOI pub)) \<and>
    fpAnyRailgunTxidMerklerootAfterTransaction formatted = ppAnyRailgunTxidMerklerootAfterTransaction pub \<and>
    fpPOIMerkleRoots formatted = ppPOIMerkleRoots pub \<and>
    fpRailgunTxidIfHasUnshield formatted = ppRailgunTxidIfHasUnshield pub \<and>
    length (BuildPublicSignalsPOI pub) = MaxOutputs (SelectPOICircuit inp) + 2 + MaxInputs (SelectPOICircuit inp)"
proof -
  let ?m = "MaxInputs (SelectPOICircuit inp)" and ?n = "MaxOutputs (SelectPOICircuit inp)"
  obtain backend getter formatted art result where run: "proverBackend p = Some backend" "artifactGetter p = Some getter"
    "FormatPOIInputs inp ?m ?n = Inr formatted"
    "GetPublicInputsPOI (peAnyRailgunTxidMerklerootAfterTransaction inp) blinded (pePOIMerkleRoots inp) (peRailgunTxidIfHasUnshield inp) ?m ?n = Inr pub"
    "backendProvePOI backend ctx \<lparr>CircuitName = ''POI_'' @ decimal (int ?m) @ ''X'' @ decimal (int ?n), MaxInputs = ?m, MaxOutputs = ?n\<rparr>
       formatted art = Inr result"
    "AssertPublicSignalsMatch (map Some (BuildPublicSignalsPOI pub)) (prPublicSignals result) = Inr ()"
    "backendVerifyPOI backend ctx pub (prProof result) art = Inr True" "pf = prProof result"
    using assms(1) by (auto simp: ProvePOI_def ProvePOIForInputsOutputs_def Let_def res_elims split: if_splits)
  have sizes: "length (ppBlindedCommitmentsOut pub) = ?n" "length (ppPOIMerkleRoots pub) = ?m"
    using run(4) assms(4,5) parseHexSlice_length by (fastforce simp: GetPublicInputsPOI_def res_elims)+
  have "fpAnyRailgunTxidMerklerootAfterTransaction formatted = ppAnyRailgunTxidMerklerootAfterTransaction pub \<and>
    fpPOIMerkleRoots formatted = ppPOIMerkleRoots pub \<and> fpRailgunTxidIfHasUnshield formatted = ppRailgunTxidIfHasUnshield pub"
    using run(3,4) unfolding FormatPOIInputs_def GetPublicInputsPOI_def assms(2) numberish_hex [OF assms(3)] res_elims by auto
  then show ?thesis using run sizes by (auto simp: signals_match BuildPublicSignalsPOI_def)
qed

definition sampleProver :: "nat Prover" where
  "sampleProver = \<lparr>artifactGetter = Some \<lparr>GetArtifacts = (\<lambda>_ _. Inr 0), GetArtifactsPOI = (\<lambda>_ _ _. Inr 0)\<rparr>,
     proverBackend = Some \<lparr>
       backendProveRailgun = (\<lambda>_ _ _ _. Err ''unsupported''), backendVerifyRailgun = (\<lambda>_ _ _ _. Inr False),
       backendProvePOI = (\<lambda>_ _ f _. Inr \<lparr>prProof = \<lparr>PiA = (''1'', ''2''), PiB = ((''3'', ''4''), (''5'', ''6'')), PiC = (''7'', ''8'')\<rparr>,
         prPublicSignals = []\<rparr>),
       backendVerifyPOI = (\<lambda>_ _ _ _. Inr True)\<rparr>\<rparr>"

definition samplePOIInputs :: POIEngineProofInputs where
  "samplePOIInputs = \<lparr>peAnyRailgunTxidMerklerootAfterTransaction = ''0a'', pePOIMerkleRoots = [''0b''], peBoundParamsHash = ''0x0c'',
     peNullifiers = [''0x01''], peCommitmentsOut = [''0x02''], peSpendingPublicKey = (Some 3, Some 4), peNullifyingKey = Some 5,
     peToken = ''0x06'', peRandomsIn = [''07''], peValuesIn = [Some 8], peUTXOPositionsIn = [9], peUTXOTreeIn = 0,
     peNPKsOut = [Some 10], peValuesOut = [Some 8], peUTXOBatchGlobalStartPositionOut = Some 11,
     peRailgunTxidIfHasUnshield = ''0x00'', peRailgunTxidMerkleProofIndices = ''00'',
     peRailgunTxidMerkleProofPathElements = [''00''], pePOIInMerkleProofIndices = [''00''], pePOIInMerkleProofPathElements = [[''00'']]\<rparr>"

theorem poi_proof_binds_public_inputs_witness:
  "\<exists>pf pub. ProvePOI None sampleProver samplePOIInputs [''0x02''] = Inr (pf, pub) \<and>
     ppAnyRailgunTxidMerklerootAfterTransaction pub = 10 \<and> length (BuildPublicSignalsPOI pub) = 8"
proof -
  have "case ProvePOI None sampleProver samplePOIInputs [''0x02''] of Inl _ \<Rightarrow> False
    | Inr (_, pub) \<Rightarrow> ppAnyRailgunTxidMerklerootAfterTransaction pub = 10" by code_simp
  then obtain pf pub where r: "ProvePOI None sampleProver samplePOIInputs [''0x02''] = Inr (pf, pub)"
    "ppAnyRailgunTxidMerklerootAfterTransaction pub = 10" by (auto split: sum.splits)
  have "hexString ''00''" "MaxOutputs (SelectPOICircuit samplePOIInputs) = 3" "MaxInputs (SelectPOICircuit samplePOIInputs) = 3"
    "peRailgunTxidIfHasUnshield samplePOIInputs = ''0x'' @ ''00''" "length (pePOIMerkleRoots samplePOIInputs) = 1"
    by code_simp+
  then show ?thesis
    using poi_proof_binds_public_inputs [OF r(1), where h = "''00''"] r by auto
qed

end
