(* ===== verification/Poi.thy ===== *)
theory Poi
  imports Chain Merkle Railgun ProofInputs
begin

text \<open>
  Models \<^verbatim>\<open>pkg/poi/manager.go\<close> and \<^verbatim>\<open>pkg/poi/config.go\<close>: the manager
  of private proofs of innocence (POI), which keeps the lists and the launch blocks of chains and
  decides, from the status of a commitment on each list, in which balance bucket it is and which
  proofs are still to be retrieved, generated or submitted. The node that answers requests is a
  parameter: a record of its operations.
\<close>

section \<open>Constants and data\<close>

abbreviation ListTypeActive :: string where "ListTypeActive \<equiv> ''Active''"

definition StatusValid :: string where "StatusValid = ''Valid''"
definition StatusShieldBlocked :: string where "StatusShieldBlocked = ''ShieldBlocked''"
definition StatusProofSubmitted :: string where "StatusProofSubmitted = ''ProofSubmitted''"
definition StatusMissing :: string where "StatusMissing = ''Missing''"

definition BucketSpent :: string where "BucketSpent = ''Spent''"
definition BucketShieldPending :: string where "BucketShieldPending = ''ShieldPending''"
definition BucketMissingInternalPOI :: string where "BucketMissingInternalPOI = ''MissingInternalPOI''"
definition BucketMissingExternalPOI :: string where "BucketMissingExternalPOI = ''MissingExternalPOI''"
definition BucketSpendable :: string where "BucketSpendable = ''Spendable''"
definition BucketShieldBlocked :: string where "BucketShieldBlocked = ''ShieldBlocked''"
definition BucketProofSubmitted :: string where "BucketProofSubmitted = ''ProofSubmitted''"

lemmas poi_constants = StatusValid_def StatusShieldBlocked_def StatusProofSubmitted_def StatusMissing_def
  BucketSpent_def BucketShieldPending_def BucketMissingInternalPOI_def BucketMissingExternalPOI_def
  BucketSpendable_def BucketShieldBlocked_def BucketProofSubmitted_def

record POIList =
  ListKey :: string
  ListType :: string
  ListName :: string
  ListDescription :: string

text \<open>The statuses of a commitment by list key; \<open>None\<close> is the nil map.\<close>

type_synonym POIsPerList = "(string, string) gomap option"

record BlindedCommitmentData =
  bcdBlindedCommitment :: string
  bcdType :: string

record LegacyTransactProofData =
  ltTXIDIndex :: string
  ltNPK :: string
  ltValue :: string
  ltTokenHash :: string
  ltBlindedCommitment :: string

record TXO =
  txoSpendTXID :: string
  txoPOIsPerList :: POIsPerList
  txoCommitmentType :: string
  txoOutputType :: "int option"
  txoValue :: "int option"
  txoBlindedCommitment :: string
  txoBlockNumber :: uint64
  txoTransactCreationRailgunTxid :: string

record SentCommitment =
  scPOIsPerList :: POIsPerList
  scValue :: "int option"
  scBlindedCommitment :: string
  scRailgunTxid :: string

record UnshieldPOIEvent =
  uePOIsPerList :: POIsPerList
  ueRailgunTxid :: string

record GetPOIsPerListRequest =
  gpTXIDVersion :: string
  gpChain :: Chain
  gpListKeys :: "string list"
  gpBlindedCommitmentDatas :: "BlindedCommitmentData list"

record GetPOIMerkleProofsRequest =
  gmTXIDVersion :: string
  gmChain :: Chain
  gmListKey :: string
  gmBlindedCommitments :: "string list"

record ValidatePOIMerkleRootsRequest =
  vrTXIDVersion :: string
  vrChain :: Chain
  vrListKey :: string
  vrPOIMerkleRoots :: "string list"

record SubmitPOIRequest =
  spTXIDVersion :: string
  spChain :: Chain
  spListKey :: string
  spSnarkProof :: Proof
  spPOIMerkleRoots :: "string list"
  spTxidMerkleRoot :: string
  spTxidMerkleRootIndex :: uint64
  spBlindedCommitmentsOut :: "string list"
  spRailgunTxidIfHasUnshield :: string

record SubmitLegacyTransactProofsRequest =
  slTXIDVersion :: string
  slChain :: Chain
  slListKeys :: "string list"
  slLegacyTransactProofDatas :: "LegacyTransactProofData list"

record NodeInterface =
  IsActive :: "Chain \<Rightarrow> bool"
  IsRequired :: "ctx \<Rightarrow> Chain \<Rightarrow> bool res"
  GetPOIsPerList :: "ctx \<Rightarrow> GetPOIsPerListRequest \<Rightarrow> (string, POIsPerList) gomap res"
  nodeGetPOIMerkleProofs :: "ctx \<Rightarrow> GetPOIMerkleProofsRequest \<Rightarrow> MerkleProof list res"
  nodeValidatePOIMerkleRoots :: "ctx \<Rightarrow> ValidatePOIMerkleRootsRequest \<Rightarrow> bool res"
  nodeSubmitPOI :: "ctx \<Rightarrow> SubmitPOIRequest \<Rightarrow> unit res"
  nodeSubmitLegacyTransactProofs :: "ctx \<Rightarrow> SubmitLegacyTransactProofsRequest \<Rightarrow> unit res"

section \<open>The manager\<close>

record Manager =
  mgLists :: "POIList list"
  mgNode :: "NodeInterface option"
  mgLaunchBlocks :: "(Chain, uint64) gomap option"

definition NewManager :: "POIList list \<Rightarrow> NodeInterface option \<Rightarrow> Manager option" where
  "NewManager ls node = Some \<lparr>mgLists = ls, mgNode = node, mgLaunchBlocks = Some []\<rparr>"

definition GetAllListKeys :: "Manager option \<Rightarrow> string list" where
  "GetAllListKeys manager = (case manager of None \<Rightarrow> [] | Some m \<Rightarrow> map ListKey (mgLists m))"

definition GetActiveListKeys :: "Manager option \<Rightarrow> string list" where
  "GetActiveListKeys manager = (case manager of None \<Rightarrow> []
     | Some m \<Rightarrow> map ListKey (filter (\<lambda>l. ListType l = ListTypeActive) (mgLists m)))"

definition SetLaunchBlock :: "Chain \<Rightarrow> uint64 \<Rightarrow> Manager option \<Rightarrow> Manager option" where
  "SetLaunchBlock chain blockNumber manager = map_option (\<lambda>m.
     m\<lparr>mgLaunchBlocks := Some (gput chain blockNumber (case mgLaunchBlocks m of None \<Rightarrow> [] | Some bs \<Rightarrow> bs))\<rparr>) manager"

definition LaunchBlock :: "Manager option \<Rightarrow> Chain \<Rightarrow> uint64 option" where
  "LaunchBlock manager chain = (case manager of None \<Rightarrow> None
     | Some m \<Rightarrow> (case mgLaunchBlocks m of None \<Rightarrow> None | Some bs \<Rightarrow> gget bs chain))"

text \<open>config.go; \<^verbatim>\<open>ParseManagerConfig\<close> decodes the JSON of the configuration first.\<close>

record LaunchBlockConfig =
  lbChain :: Chain
  lbBlockNumber :: uint64

record ManagerConfig =
  mcLists :: "POIList list"
  mcLaunchBlocks :: "LaunchBlockConfig list"

definition SetLaunchBlocks :: "LaunchBlockConfig list \<Rightarrow> Manager option \<Rightarrow> Manager option" where
  "SetLaunchBlocks launchBlocks manager = fold (\<lambda>b. SetLaunchBlock (lbChain b) (lbBlockNumber b)) launchBlocks manager"

definition NewManagerFromConfig :: "ManagerConfig \<Rightarrow> NodeInterface option \<Rightarrow> Manager option" where
  "NewManagerFromConfig config node = SetLaunchBlocks (mcLaunchBlocks config) (NewManager (mcLists config) node)"

section \<open>Statuses\<close>

text \<open>Reading a missing key, also of the nil map, gives the empty string.\<close>

definition poiStatus :: "POIsPerList \<Rightarrow> string \<Rightarrow> string" where
  "poiStatus pois key = (case pois of None \<Rightarrow> [] | Some m \<Rightarrow> (case gget m key of None \<Rightarrow> [] | Some s \<Rightarrow> s))"

definition hasAllKeys :: "POIsPerList \<Rightarrow> string list \<Rightarrow> bool" where
  "hasAllKeys pois keys = (case pois of None \<Rightarrow> keys = [] | Some m \<Rightarrow> (\<forall>key \<in> set keys. gget m key \<noteq> None))"

definition validatePOIStatusForLists :: "POIsPerList \<Rightarrow> string list \<Rightarrow> string list \<Rightarrow> bool" where
  "validatePOIStatusForLists pois listKeys statuses \<longleftrightarrow>
     hasAllKeys pois listKeys \<and> (\<forall>key \<in> set listKeys. poiStatus pois key \<in> set statuses)"

definition hasValidPOIsAllLists :: "POIsPerList \<Rightarrow> string list \<Rightarrow> bool" where
  "hasValidPOIsAllLists pois listKeys = validatePOIStatusForLists pois listKeys [StatusValid]"

definition isShieldCommitmentType :: "string \<Rightarrow> bool" where
  "isShieldCommitmentType t \<longleftrightarrow> t = ''ShieldCommitment'' \<or> t = ''LegacyGeneratedCommitment''"

definition isTransactCommitmentType :: "string \<Rightarrow> bool" where
  "isTransactCommitmentType t \<longleftrightarrow>
     t = ''TransactCommitmentV2'' \<or> t = ''TransactCommitmentV3'' \<or> t = ''LegacyEncryptedCommitment''"

definition bigIntIsZero :: "int option \<Rightarrow> bool" where
  "bigIntIsZero value \<longleftrightarrow> value = None \<or> value = Some 0"

section \<open>Decisions\<close>

definition IsLegacyTXO :: "Manager option \<Rightarrow> Chain \<Rightarrow> TXO \<Rightarrow> bool" where
  "IsLegacyTXO manager chain txo =
     (case LaunchBlock manager chain of None \<Rightarrow> True | Some launchBlock \<Rightarrow> txoBlockNumber txo < launchBlock)"

definition ShouldSubmitLegacyTransactEventsTXO :: "Manager option \<Rightarrow> Chain \<Rightarrow> TXO \<Rightarrow> bool" where
  "ShouldSubmitLegacyTransactEventsTXO manager chain txo =
     (if manager = None then False
      else if txoTransactCreationRailgunTxid txo = [] \<or> txoBlindedCommitment txo = [] then False
      else if \<not> IsLegacyTXO manager chain txo then False
      else if txoPOIsPerList txo = None then False
      else if \<not> isTransactCommitmentType (txoCommitmentType txo) then False
      else \<not> hasValidPOIsAllLists (txoPOIsPerList txo) (GetAllListKeys manager))"

definition managerNode :: "Manager option \<Rightarrow> NodeInterface option" where
  "managerNode manager = (case manager of None \<Rightarrow> None | Some m \<Rightarrow> mgNode m)"

abbreviation nodeRequired :: string where
  "nodeRequired \<equiv> ''POI node interface not initialized''"

definition IsActiveForChain :: "Manager option \<Rightarrow> Chain \<Rightarrow> bool" where
  "IsActiveForChain manager chain = (case managerNode manager of None \<Rightarrow> False | Some node \<Rightarrow> IsActive node chain)"

definition IsRequiredForChain :: "ctx \<Rightarrow> Manager option \<Rightarrow> Chain \<Rightarrow> bool res" where
  "IsRequiredForChain ctx manager chain = notNil nodeRequired (managerNode manager) (\<lambda>node. IsRequired node ctx chain)"

definition GetSpendableBalanceBuckets :: "ctx \<Rightarrow> Manager option \<Rightarrow> Chain \<Rightarrow> string list res" where
  "GetSpendableBalanceBuckets ctx manager chain =
     andThen (IsRequiredForChain ctx manager chain) (\<lambda>required.
     Inr (if required then [BucketSpendable]
          else [BucketShieldPending, BucketMissingInternalPOI, BucketMissingExternalPOI, BucketSpendable,
                BucketShieldBlocked, BucketProofSubmitted]))"

definition HasValidPOIsActiveLists :: "Manager option \<Rightarrow> POIsPerList \<Rightarrow> bool" where
  "HasValidPOIsActiveLists manager pois = validatePOIStatusForLists pois (GetActiveListKeys manager) [StatusValid]"

definition GetBalanceBucket :: "Manager option \<Rightarrow> TXO \<Rightarrow> string" where
  "GetBalanceBucket manager txo =
     (let activeListKeys = GetActiveListKeys manager;
          pois = txoPOIsPerList txo;
          isChange = (txoOutputType txo = Some OutputTypeChange);
          isShield = isShieldCommitmentType (txoCommitmentType txo);
          missing = (if isChange then BucketMissingInternalPOI else BucketMissingExternalPOI)
      in if txoSpendTXID txo \<noteq> [] then BucketSpent
         else if \<not> hasAllKeys pois activeListKeys then (if isShield then BucketShieldPending else missing)
         else if HasValidPOIsActiveLists manager pois then BucketSpendable
         else if \<exists>key \<in> set activeListKeys. poiStatus pois key = StatusShieldBlocked then BucketShieldBlocked
         else if isShield then BucketShieldPending
         else if \<exists>key \<in> set activeListKeys. poiStatus pois key = StatusProofSubmitted then BucketProofSubmitted
         else missing)"

definition getAllListKeysWithValidInputPOIs :: "Manager option \<Rightarrow> POIsPerList list \<Rightarrow> string list" where
  "getAllListKeysWithValidInputPOIs manager inputPOIs =
     filter (\<lambda>key. \<forall>pois \<in> set inputPOIs. poiStatus pois key = StatusValid) (GetAllListKeys manager)"

definition GetListKeysCanGenerateSpentPOIs ::
  "Manager option \<Rightarrow> TXO list \<Rightarrow> SentCommitment list \<Rightarrow> UnshieldPOIEvent list \<Rightarrow> bool \<Rightarrow> string list" where
  "GetListKeysCanGenerateSpentPOIs manager spentTXOs sentCommitments unshieldEvents isLegacyPOIProof =
     (if sentCommitments = [] \<and> unshieldEvents = [] then []
      else
        let listKeys = (if isLegacyPOIProof then GetAllListKeys manager
              else getAllListKeysWithValidInputPOIs manager
                (filter (\<lambda>pois. pois \<noteq> None) (map txoPOIsPerList spentTXOs)));
            valid = (\<lambda>status. status = StatusValid \<or> status = StatusProofSubmitted)
        in filter (\<lambda>key.
             \<not> (\<forall>c \<in> set sentCommitments. bigIntIsZero (scValue c) \<or> valid (poiStatus (scPOIsPerList c) key)) \<or>
             \<not> (\<forall>e \<in> set unshieldEvents. valid (poiStatus (uePOIsPerList e) key))) listKeys)"

definition GetListKeysCanSubmitLegacyTransactEvents :: "Manager option \<Rightarrow> TXO list \<Rightarrow> string list" where
  "GetListKeysCanSubmitLegacyTransactEvents manager txos =
     filter (\<lambda>key. \<not> (\<forall>txo \<in> set txos. poiStatus (txoPOIsPerList txo) key = StatusValid)) (GetAllListKeys manager)"

definition ShouldRetrieveTXOPOIs :: "Manager option \<Rightarrow> TXO \<Rightarrow> bool" where
  "ShouldRetrieveTXOPOIs manager txo \<longleftrightarrow>
     txoBlindedCommitment txo \<noteq> [] \<and> \<not> hasValidPOIsAllLists (txoPOIsPerList txo) (GetAllListKeys manager)"

definition ShouldRetrieveSentCommitmentPOIs :: "Manager option \<Rightarrow> SentCommitment \<Rightarrow> bool" where
  "ShouldRetrieveSentCommitmentPOIs manager c \<longleftrightarrow>
     \<not> (scBlindedCommitment c = [] \<or> bigIntIsZero (scValue c)) \<and> \<not> hasValidPOIsAllLists (scPOIsPerList c) (GetAllListKeys manager)"

definition ShouldRetrieveUnshieldEventPOIs :: "Manager option \<Rightarrow> UnshieldPOIEvent \<Rightarrow> bool" where
  "ShouldRetrieveUnshieldEventPOIs manager e \<longleftrightarrow>
     ueRailgunTxid e \<noteq> [] \<and> \<not> hasValidPOIsAllLists (uePOIsPerList e) (GetAllListKeys manager)"

definition findListsForNewPOIs :: "Manager option \<Rightarrow> POIsPerList \<Rightarrow> string list" where
  "findListsForNewPOIs manager pois =
     (if pois = None then GetAllListKeys manager
      else filter (\<lambda>key. poiStatus pois key \<noteq> StatusProofSubmitted \<and> poiStatus pois key \<noteq> StatusValid) (GetAllListKeys manager))"

definition ShouldGenerateSpentPOIsSentCommitment :: "Manager option \<Rightarrow> SentCommitment \<Rightarrow> bool" where
  "ShouldGenerateSpentPOIsSentCommitment manager c \<longleftrightarrow>
     \<not> (scBlindedCommitment c = [] \<or> bigIntIsZero (scValue c)) \<and> length (findListsForNewPOIs manager (scPOIsPerList c)) > 0"

definition ShouldGenerateSpentPOIsUnshieldEvent :: "Manager option \<Rightarrow> UnshieldPOIEvent \<Rightarrow> bool" where
  "ShouldGenerateSpentPOIsUnshieldEvent manager e \<longleftrightarrow>
     ueRailgunTxid e \<noteq> [] \<and> length (findListsForNewPOIs manager (uePOIsPerList e)) > 0"

section \<open>Requests to the node\<close>

definition maxBlindedCommitmentPOIRetrieval :: nat where
  "maxBlindedCommitmentPOIRetrieval = 1000"

definition RetrievePOIsForBlindedCommitments ::
  "ctx \<Rightarrow> Manager option \<Rightarrow> string \<Rightarrow> Chain \<Rightarrow> BlindedCommitmentData list \<Rightarrow> (string, POIsPerList) gomap res" where
  "RetrievePOIsForBlindedCommitments ctx manager txidVersion chain datas =
     notNil nodeRequired (managerNode manager) (\<lambda>node.
     if length datas > maxBlindedCommitmentPOIRetrieval
     then Err ''Cannot retrieve POIs for more than 1000 blinded commitments at a time''
     else GetPOIsPerList node ctx \<lparr>gpTXIDVersion = txidVersion, gpChain = chain, gpListKeys = GetAllListKeys manager,
       gpBlindedCommitmentDatas = datas\<rparr>)"

definition GetPOIMerkleProofs :: "ctx \<Rightarrow> Manager option \<Rightarrow> string \<Rightarrow> Chain \<Rightarrow> string \<Rightarrow> string list \<Rightarrow> MerkleProof list res" where
  "GetPOIMerkleProofs ctx manager txidVersion chain listKey blindedCommitments =
     notNil nodeRequired (managerNode manager) (\<lambda>node.
     nodeGetPOIMerkleProofs node ctx \<lparr>gmTXIDVersion = txidVersion, gmChain = chain, gmListKey = listKey,
       gmBlindedCommitments = blindedCommitments\<rparr>)"

definition ValidatePOIMerkleRoots :: "ctx \<Rightarrow> Manager option \<Rightarrow> string \<Rightarrow> Chain \<Rightarrow> string \<Rightarrow> string list \<Rightarrow> bool res" where
  "ValidatePOIMerkleRoots ctx manager txidVersion chain listKey poiMerkleRoots =
     notNil nodeRequired (managerNode manager) (\<lambda>node.
     nodeValidatePOIMerkleRoots node ctx \<lparr>vrTXIDVersion = txidVersion, vrChain = chain, vrListKey = listKey,
       vrPOIMerkleRoots = poiMerkleRoots\<rparr>)"

definition SubmitPOI :: "ctx \<Rightarrow> Manager option \<Rightarrow> SubmitPOIRequest \<Rightarrow> unit res" where
  "SubmitPOI ctx manager request = notNil nodeRequired (managerNode manager) (\<lambda>node. nodeSubmitPOI node ctx request)"

definition SubmitLegacyTransactProofs :: "ctx \<Rightarrow> Manager option \<Rightarrow> SubmitLegacyTransactProofsRequest \<Rightarrow> unit res" where
  "SubmitLegacyTransactProofs ctx manager request =
     notNil nodeRequired (managerNode manager) (\<lambda>node. nodeSubmitLegacyTransactProofs node ctx request)"

section \<open>Facts about statuses\<close>

lemma poiStatus_nonempty: "poiStatus pois key \<noteq> [] \<Longrightarrow> \<exists>m. pois = Some m \<and> gget m key \<noteq> None"
  by (auto simp: poiStatus_def split: option.splits)

lemma valid_all_keys:
  "(\<And>key. key \<in> set keys \<Longrightarrow> poiStatus pois key \<noteq> []) \<Longrightarrow> hasAllKeys pois keys"
  by (cases pois; cases keys) (auto simp: hasAllKeys_def dest!: poiStatus_nonempty)

lemma all_valid_iff:
  "validatePOIStatusForLists pois keys [StatusValid] \<longleftrightarrow> (\<forall>key \<in> set keys. poiStatus pois key = StatusValid)"
  using valid_all_keys [of keys pois] by (auto simp: validatePOIStatusForLists_def poi_constants)

lemma findListsForNewPOIs_iff:
  "key \<in> set (findListsForNewPOIs manager pois) \<longleftrightarrow>
     key \<in> set (GetAllListKeys manager) \<and> poiStatus pois key \<noteq> StatusProofSubmitted \<and> poiStatus pois key \<noteq> StatusValid"
  by (auto simp: findListsForNewPOIs_def poiStatus_def poi_constants)

lemma LaunchBlock_fold:
  "manager \<noteq> None \<Longrightarrow> LaunchBlock (SetLaunchBlocks bs manager) chain =
     (case map_of (rev (map (\<lambda>b. (lbChain b, lbBlockNumber b)) bs)) chain of
        Some n \<Rightarrow> Some n | None \<Rightarrow> LaunchBlock manager chain)"
proof (induction bs rule: rev_induct)
  case (snoc b bs)
  have "SetLaunchBlocks bs manager \<noteq> None"
    using snoc.prems unfolding SetLaunchBlocks_def by (induction bs rule: rev_induct) (auto simp: SetLaunchBlock_def)
  then obtain m where m: "SetLaunchBlocks bs manager = Some m" by auto
  have "SetLaunchBlocks (bs @ [b]) manager = SetLaunchBlock (lbChain b) (lbBlockNumber b) (Some m)"
    using m by (simp add: SetLaunchBlocks_def)
  then show ?case using snoc.IH [OF snoc.prems] m
    by (auto simp: SetLaunchBlock_def LaunchBlock_def gomap_simps split: option.splits)
qed (simp add: SetLaunchBlocks_def split: option.splits)

definition lastLaunchBlock :: "LaunchBlockConfig list \<Rightarrow> Chain \<Rightarrow> uint64 option" where
  "lastLaunchBlock bs = map_of (rev (map (\<lambda>b. (lbChain b, lbBlockNumber b)) bs))"

section \<open>Properties\<close>

text \<open>The balance bucket of an output. It is spendable exactly when it is
  unspent and every active list says Valid, so that no other status, a missing one included, lets
  it be spent; it is blocked exactly when it is unspent, every active list has a status and one
  of them blocks the shield; an unspent shield commitment is never put in a missing-POI or
  proof-submitted bucket; a change output is never in the external missing bucket.\<close>

theorem balance_bucket_table:
  "(GetBalanceBucket manager txo = BucketSpendable \<longleftrightarrow>
      txoSpendTXID txo = [] \<and> (\<forall>key \<in> set (GetActiveListKeys manager). poiStatus (txoPOIsPerList txo) key = StatusValid)) \<and>
   (GetBalanceBucket manager txo = BucketShieldBlocked \<longleftrightarrow>
      txoSpendTXID txo = [] \<and> hasAllKeys (txoPOIsPerList txo) (GetActiveListKeys manager) \<and>
      (\<exists>key \<in> set (GetActiveListKeys manager). poiStatus (txoPOIsPerList txo) key = StatusShieldBlocked)) \<and>
   (isShieldCommitmentType (txoCommitmentType txo) \<longrightarrow> txoSpendTXID txo = [] \<longrightarrow>
      GetBalanceBucket manager txo \<in> {BucketSpendable, BucketShieldBlocked, BucketShieldPending}) \<and>
   (txoOutputType txo = Some OutputTypeChange \<longrightarrow> GetBalanceBucket manager txo \<noteq> BucketMissingExternalPOI)"
proof (intro conjI)
  let ?ok = "\<forall>key \<in> set (GetActiveListKeys manager). poiStatus (txoPOIsPerList txo) key = StatusValid"
  have all: "?ok \<Longrightarrow> hasAllKeys (txoPOIsPerList txo) (GetActiveListKeys manager)"
    by (rule valid_all_keys) (simp add: poi_constants)
  show "GetBalanceBucket manager txo = BucketSpendable \<longleftrightarrow> txoSpendTXID txo = [] \<and> ?ok"
    using all unfolding GetBalanceBucket_def Let_def HasValidPOIsActiveLists_def all_valid_iff by (simp add: poi_constants)
  show "GetBalanceBucket manager txo = BucketShieldBlocked \<longleftrightarrow>
      txoSpendTXID txo = [] \<and> hasAllKeys (txoPOIsPerList txo) (GetActiveListKeys manager) \<and>
      (\<exists>key \<in> set (GetActiveListKeys manager). poiStatus (txoPOIsPerList txo) key = StatusShieldBlocked)"
    unfolding GetBalanceBucket_def Let_def HasValidPOIsActiveLists_def all_valid_iff by (auto simp: poi_constants)
  show "isShieldCommitmentType (txoCommitmentType txo) \<longrightarrow> txoSpendTXID txo = [] \<longrightarrow>
      GetBalanceBucket manager txo \<in> {BucketSpendable, BucketShieldBlocked, BucketShieldPending}"
    unfolding GetBalanceBucket_def Let_def by simp
  show "txoOutputType txo = Some OutputTypeChange \<longrightarrow> GetBalanceBucket manager txo \<noteq> BucketMissingExternalPOI"
    unfolding GetBalanceBucket_def Let_def by (simp add: poi_constants)
qed

definition sampleManager :: "Manager option" where
  "sampleManager = NewManager [\<lparr>ListKey = ''k'', ListType = ''Active'', ListName = [], ListDescription = []\<rparr>,
     \<lparr>ListKey = ''g'', ListType = ''Gather'', ListName = [], ListDescription = []\<rparr>] None"

definition sampleTXO' :: "string \<Rightarrow> TXO" where
  "sampleTXO' status = \<lparr>txoSpendTXID = [], txoPOIsPerList = Some [(''k'', status)], txoCommitmentType = ''ShieldCommitment'',
     txoOutputType = Some OutputTypeChange, txoValue = Some 1, txoBlindedCommitment = ''0x01'', txoBlockNumber = 5,
     txoTransactCreationRailgunTxid = []\<rparr>"

theorem balance_bucket_table_witness:
  "GetBalanceBucket sampleManager (sampleTXO' ''Valid'') = BucketSpendable \<and>
   GetBalanceBucket sampleManager (sampleTXO' ''ProofSubmitted'') \<in> {BucketSpendable, BucketShieldBlocked, BucketShieldPending}"
proof
  show "GetBalanceBucket sampleManager (sampleTXO' ''Valid'') = BucketSpendable"
    using balance_bucket_table [of sampleManager "sampleTXO' ''Valid''"]
    by (simp add: sampleManager_def sampleTXO'_def NewManager_def GetActiveListKeys_def poiStatus_def StatusValid_def)
  show "GetBalanceBucket sampleManager (sampleTXO' ''ProofSubmitted'') \<in> {BucketSpendable, BucketShieldBlocked, BucketShieldPending}"
    by (rule balance_bucket_table [THEN conjunct2, THEN conjunct2, THEN conjunct1, rule_format])
      (simp_all add: sampleTXO'_def isShieldCommitmentType_def)
qed

text \<open>The lists for which spent POIs can be generated are, in the order of
  the manager, those for which every spent input with statuses is Valid (not asked of legacy
  proofs) and at least one sent commitment of non-zero value or unshield event still needs a new
  POI, in the sense of the test for single items.\<close>

theorem spent_poi_lists:
  "GetListKeysCanGenerateSpentPOIs manager spent sent unshields legacy =
     filter (\<lambda>key.
       (legacy \<or> (\<forall>txo \<in> set spent. txoPOIsPerList txo = None \<or> poiStatus (txoPOIsPerList txo) key = StatusValid)) \<and>
       ((\<exists>c \<in> set sent. \<not> bigIntIsZero (scValue c) \<and> key \<in> set (findListsForNewPOIs manager (scPOIsPerList c))) \<or>
        (\<exists>e \<in> set unshields. key \<in> set (findListsForNewPOIs manager (uePOIsPerList e)))))
     (GetAllListKeys manager)"
  unfolding GetListKeysCanGenerateSpentPOIs_def findListsForNewPOIs_iff getAllListKeysWithValidInputPOIs_def Let_def
  by (cases legacy) (auto intro!: filter_cong)

theorem spent_poi_lists_witness:
  "GetListKeysCanGenerateSpentPOIs sampleManager [sampleTXO' ''Valid'']
     [\<lparr>scPOIsPerList = None, scValue = Some 3, scBlindedCommitment = ''0x02'', scRailgunTxid = []\<rparr>] [] False = [''k'']"
  unfolding spent_poi_lists by code_simp

text \<open>A manager built from a configuration has, for each chain, the launch
  block of the last entry for it, and an output is legacy on a chain exactly when the
  configuration has no entry for the chain or the output is older than that block.\<close>

theorem config_launch_blocks:
  "LaunchBlock (NewManagerFromConfig config node) chain = lastLaunchBlock (mcLaunchBlocks config) chain \<and>
   IsLegacyTXO (NewManagerFromConfig config node) chain txo =
     (case lastLaunchBlock (mcLaunchBlocks config) chain of None \<Rightarrow> True | Some n \<Rightarrow> txoBlockNumber txo < n)"
proof -
  have "LaunchBlock (NewManagerFromConfig config node) chain = lastLaunchBlock (mcLaunchBlocks config) chain"
    unfolding NewManagerFromConfig_def NewManager_def
    by (subst LaunchBlock_fold) (simp_all add: LaunchBlock_def lastLaunchBlock_def split: option.splits)
  then show ?thesis by (simp add: IsLegacyTXO_def)
qed

end
