(* ===== verification/PreTransaction.thy ===== *)
theory PreTransaction
  imports Poi TxidTree
begin

text \<open>
  Models \<^verbatim>\<open>pkg/poi/pre_transaction.go\<close> and \<^verbatim>\<open>pkg/validation/poi.go\<close>: how a
  sender prepares, proves and submits the proof of innocence of a transaction that is not mined
  yet, and how a receiver checks it. The deep copies of the source are values here.
\<close>

section \<open>Data\<close>

definition GlobalUTXOTreePreTransactionPOIProof :: uint64 where
  "GlobalUTXOTreePreTransactionPOIProof = 199999"

definition GlobalUTXOPositionPreTransactionPOIProof :: uint64 where
  "GlobalUTXOPositionPreTransactionPOIProof = 199999"

record PreTransactionUTXO =
  puTree :: uint64
  puPosition :: uint64
  puTokenHash :: string
  puRandom :: string
  puValue :: "int option"
  puBlindedCommitment :: string

record PreTransactionPOIInputs =
  ptPublicInputs :: PublicInputsRailgun
  ptPrivateInputs :: PrivateInputsRailgun
  ptSpendingPublicKey :: "int option \<times> int option"
  ptNullifyingKey :: "int option"
  ptUTXOs :: "PreTransactionUTXO list"
  ptPOIMerkleProofs :: "MerkleProof list"
  ptTXIDMerkleProof :: "MerkleProof option"
  ptTreeNumber :: uint64
  ptHasUnshield :: bool

record PreparedPreTransactionPOI =
  rdTxidLeafHash :: string
  rdTxidMerkleRoot :: string
  rdPOIMerkleRoots :: "string list"
  rdBlindedCommitmentsIn :: "string list"
  rdBlindedCommitmentsOut :: "string list"
  rdRailgunTxidIfHasUnshield :: string
  rdProofInputs :: POIEngineProofInputs
  rdTxidMerkleProof :: MerkleProof

record PreTransactionPOI =
  toSnarkProof :: Proof
  toTxidMerkleRoot :: string
  toPOIMerkleRoots :: "string list"
  toBlindedCommitmentsOut :: "string list"
  toRailgunTxidIfHasUnshield :: string

record GeneratedPreTransactionPOI =
  gnPrepared :: PreparedPreTransactionPOI
  gnPreTransactionPOI :: PreTransactionPOI
  gnPublicInputs :: PublicInputsPOI

text \<open>The two methods of \<^verbatim>\<open>txid.MerkleTreeStore\<close> that are called here.\<close>

record txidReader =
  readLeaves :: "ctx \<Rightarrow> MerkleLeaf list res"
  readProof :: "ctx \<Rightarrow> uint64 \<Rightarrow> uint64 \<Rightarrow> MerkleProof res"

record GenerateAndSubmitPreTransactionPOIRequest =
  grTXIDVersion :: string
  grChain :: Chain
  grListKey :: string
  grTXIDMerkleRootIndex :: uint64
  grInputs :: PreTransactionPOIInputs
  grTXIDMerkleTree :: "txidReader option"

record SubmittedPreTransactionPOI =
  sbGenerated :: GeneratedPreTransactionPOI
  sbSubmitRequest :: SubmitPOIRequest

record GenerateAndSubmitPreTransactionPOIsRequest =
  gsTXIDVersion :: string
  gsChain :: Chain
  gsListKeys :: "string list"
  gsTXIDMerkleRootIndex :: uint64
  gsInputs :: PreTransactionPOIInputs
  gsTXIDMerkleTree :: "txidReader option"

section \<open>Preparing\<close>

definition GlobalTreePositionPreTransactionPOIProof :: int where
  "GlobalTreePositionPreTransactionPOIProof =
     GetGlobalTreePosition GlobalUTXOTreePreTransactionPOIProof GlobalUTXOPositionPreTransactionPOIProof"

definition sameHex :: "string \<Rightarrow> string \<Rightarrow> bool" where
  "sameHex a b = (case HexToBigInt a of Inl _ \<Rightarrow> False
     | Inr left \<Rightarrow> (case HexToBigInt b of Inl _ \<Rightarrow> False | Inr right \<Rightarrow> left = right))"

definition hexBigIntSlice :: "int option list \<Rightarrow> string list res" where
  "hexBigIntSlice values = mapRes (\<lambda>v. BigIntToHex v 32 True) values"

definition preTransactionTXIDLeafHash ::
  "poseidonConstantsRaw \<Rightarrow> PreTransactionPOIInputs \<Rightarrow> int \<Rightarrow> (int \<times> string) res" where
  "preTransactionTXIDLeafHash raw inputs globalTreePosition =
     andThen (RailgunTransactionIDFromBigInts raw (piNullifiers (ptPublicInputs inputs)) (piCommitmentsOut (ptPublicInputs inputs))
       (piBoundParamsHash (ptPublicInputs inputs))) (\<lambda>railgunTxid.
     andThen (RailgunTxidLeafHash raw (Some railgunTxid) (ptTreeNumber inputs) (Some globalTreePosition)) (\<lambda>txidLeafHash.
     Inr (railgunTxid, txidLeafHash)))"

definition txidMerkleProofForPreTransaction ::
  "poseidonConstantsRaw \<Rightarrow> string \<Rightarrow> MerkleProof option \<Rightarrow> MerkleProof res" where
  "txidMerkleProofForPreTransaction raw txidLeafHash merkleProof =
     (case merkleProof of
        None \<Rightarrow> CreateDummyProof raw txidLeafHash
      | Some p \<Rightarrow> if \<not> sameHex (prfLeaf p) txidLeafHash
          then Err ''txid merkle proof leaf does not match txid leaf hash'' else Inr p)"

fun findLeaf :: "ctx \<Rightarrow> txidReader \<Rightarrow> string \<Rightarrow> MerkleLeaf list \<Rightarrow> MerkleProof res" where
  "findLeaf ctx store txidLeafHash [] = Err ''txid merkle leaf not found''"
| "findLeaf ctx store txidLeafHash (leaf # leaves) =
     (if \<not> sameHex (mlHash leaf) txidLeafHash then findLeaf ctx store txidLeafHash leaves
      else readProof store ctx (mlTree leaf) (mlIndex leaf))"

definition findTXIDMerkleProof :: "ctx \<Rightarrow> txidReader \<Rightarrow> string \<Rightarrow> MerkleProof res" where
  "findTXIDMerkleProof ctx store txidLeafHash = andThen (readLeaves store ctx) (findLeaf ctx store txidLeafHash)"

definition blindedCommitmentsForPreTransaction :: "PreTransactionUTXO list \<Rightarrow> string list" where
  "blindedCommitmentsForPreTransaction utxos = filter (\<lambda>b. b \<noteq> []) (map puBlindedCommitment utxos)"

definition buildProofInputs ::
  "PreTransactionPOIInputs \<Rightarrow> int \<Rightarrow> MerkleProof \<Rightarrow> string list \<Rightarrow> string list \<Rightarrow> string list list \<Rightarrow> string \<Rightarrow> POIEngineProofInputs res" where
  "buildProofInputs inputs globalTreePosition txidMerkleProof poiRoots poiIndices poiElements railgunTxidIfHasUnshield =
     (let pub = ptPublicInputs inputs; priv = ptPrivateInputs inputs; utxos = ptUTXOs inputs
      in andThen (BigIntToHex (piBoundParamsHash pub) 32 True) (\<lambda>boundParamsHash.
         andThen (hexBigIntSlice (piNullifiers pub)) (\<lambda>nullifiers.
         andThen (hexBigIntSlice (piCommitmentsOut pub)) (\<lambda>commitmentsOut.
         andThen (foldResI 0 (\<lambda>i utxo _. if puValue utxo = None then Inl (Errorf ''utxo[%d].value is required'' [ANat i]) else Inr ()) utxos ()) (\<lambda>_.
         Inr \<lparr>peAnyRailgunTxidMerklerootAfterTransaction = prfRoot txidMerkleProof,
           pePOIMerkleRoots = poiRoots, peBoundParamsHash = boundParamsHash, peNullifiers = nullifiers,
           peCommitmentsOut = commitmentsOut, peSpendingPublicKey = ptSpendingPublicKey inputs,
           peNullifyingKey = ptNullifyingKey inputs, peToken = puTokenHash (hd utxos), peRandomsIn = map puRandom utxos,
           peValuesIn = map puValue utxos, peUTXOPositionsIn = map puPosition utxos, peUTXOTreeIn = puTree (hd utxos),
           peNPKsOut = pvNPKOut priv, peValuesOut = pvValueOut priv,
           peUTXOBatchGlobalStartPositionOut = Some globalTreePosition, peRailgunTxidIfHasUnshield = railgunTxidIfHasUnshield,
           peRailgunTxidMerkleProofIndices = prfIndices txidMerkleProof,
           peRailgunTxidMerkleProofPathElements = prfElements txidMerkleProof,
           pePOIInMerkleProofIndices = poiIndices, pePOIInMerkleProofPathElements = poiElements\<rparr>)))))"

definition verifyPOIProofs :: "poseidonConstantsRaw \<Rightarrow> MerkleProof list \<Rightarrow> unit res" where
  "verifyPOIProofs raw proofs = foldResI 0 (\<lambda>i p _.
     andThen (wrapErr ''poi merkle proof[%d]: %w'' [ANat i] (VerifyProof raw p)) (\<lambda>ok.
     if \<not> ok then Inl (Errorf ''invalid poi merkle proof[%d]'' [ANat i]) else Inr ())) proofs ()"

definition blindCommitments :: "poseidonConstantsRaw \<Rightarrow> int \<Rightarrow> int option list \<Rightarrow> int option list \<Rightarrow> string list res" where
  "blindCommitments raw globalTreePosition npkOut commitments = mapRes (\<lambda>(i, commitment).
     case (if i < length npkOut then npkOut ! i else None) of
       None \<Rightarrow> Inl (Errorf ''npkOut[%d] is required'' [ANat i])
     | Some npk \<Rightarrow> andThen (BigIntToHex commitment 32 True) (\<lambda>commitmentHex.
         BlindedCommitment raw commitmentHex npk (globalTreePosition + int i))) (zip [0..<length commitments] commitments)"

definition PreparePreTransactionPOIInputs ::
  "poseidonConstantsRaw \<Rightarrow> PreTransactionPOIInputs \<Rightarrow> PreparedPreTransactionPOI res" where
  "PreparePreTransactionPOIInputs raw inputs =
     (let pub = ptPublicInputs inputs; proofs = ptPOIMerkleProofs inputs;
          blindedCommitmentsIn = blindedCommitmentsForPreTransaction (ptUTXOs inputs);
          globalTreePosition = GlobalTreePositionPreTransactionPOIProof
      in if ptUTXOs inputs = [] then Err ''at least one utxo is required''
         else if ptNullifyingKey inputs = None then Err ''nullifyingKey is required''
         else if fst (ptSpendingPublicKey inputs) = None \<or> snd (ptSpendingPublicKey inputs) = None then Err ''spendingPublicKey is required''
         else if length blindedCommitmentsIn \<noteq> length (piNullifiers pub)
         then Inl (Errorf ''not enough UTXO blinded commitments for railgun transaction nullifiers: expected %d, got %d''
           [ANat (length (piNullifiers pub)), ANat (length blindedCommitmentsIn)])
         else if length proofs \<noteq> length blindedCommitmentsIn
         then Inl (Errorf ''expected %d POI merkle proofs, got %d'' [ANat (length blindedCommitmentsIn), ANat (length proofs)])
         else andThen (verifyPOIProofs raw proofs) (\<lambda>_.
         andThen (preTransactionTXIDLeafHash raw inputs globalTreePosition) (\<lambda>(railgunTxid, txidLeafHash).
         andThen (txidMerkleProofForPreTransaction raw txidLeafHash (ptTXIDMerkleProof inputs)) (\<lambda>txidMerkleProof.
         andThen (wrapErr ''txid merkle proof: %w'' [] (VerifyProof raw txidMerkleProof)) (\<lambda>ok.
         if \<not> ok then Err ''invalid txid merkle proof'' else
         andThen (if ptHasUnshield inputs
             then andThen (BigIntToHex (Some railgunTxid) 32 False) BlindedUnshield else Inr ''0x00'') (\<lambda>railgunTxidIfHasUnshield.
         let nonUnshieldCommitments = (if ptHasUnshield inputs \<and> length (piCommitmentsOut pub) > 0
             then butlast (piCommitmentsOut pub) else piCommitmentsOut pub) in
         andThen (blindCommitments raw globalTreePosition (pvNPKOut (ptPrivateInputs inputs)) nonUnshieldCommitments) (\<lambda>blindedCommitmentsOut.
         let poiRoots = map prfRoot proofs in
         andThen (buildProofInputs inputs globalTreePosition txidMerkleProof poiRoots (map prfIndices proofs) (map prfElements proofs)
           railgunTxidIfHasUnshield) (\<lambda>proofInputs.
         Inr \<lparr>rdTxidLeafHash = txidLeafHash, rdTxidMerkleRoot = prfRoot txidMerkleProof, rdPOIMerkleRoots = poiRoots,
           rdBlindedCommitmentsIn = blindedCommitmentsIn, rdBlindedCommitmentsOut = blindedCommitmentsOut,
           rdRailgunTxidIfHasUnshield = railgunTxidIfHasUnshield, rdProofInputs = proofInputs,
           rdTxidMerkleProof = txidMerkleProof\<rparr>))))))))"

definition PreparePreTransactionPOIInputsWithTXIDMerkleTree ::
  "poseidonConstantsRaw \<Rightarrow> ctx \<Rightarrow> txidReader option \<Rightarrow> PreTransactionPOIInputs \<Rightarrow> PreparedPreTransactionPOI res" where
  "PreparePreTransactionPOIInputsWithTXIDMerkleTree raw ctx store inputs =
     notNil ''txid merkle tree store is required'' store (\<lambda>store.
     andThen (preTransactionTXIDLeafHash raw inputs GlobalTreePositionPreTransactionPOIProof) (\<lambda>(_, txidLeafHash).
     andThen (findTXIDMerkleProof ctx store txidLeafHash) (\<lambda>merkleProof.
     PreparePreTransactionPOIInputs raw (inputs\<lparr>ptTXIDMerkleProof := Some merkleProof\<rparr>))))"

section \<open>Proving and submitting\<close>

definition generatePreparedPreTransactionPOI ::
  "ctx \<Rightarrow> 'art Prover option \<Rightarrow> PreparedPreTransactionPOI \<Rightarrow> GeneratedPreTransactionPOI res" where
  "generatePreparedPreTransactionPOI ctx prover prepared =
     notNil ''prover is required'' prover (\<lambda>prover.
     andThen (ProvePOI ctx prover (rdProofInputs prepared) (rdBlindedCommitmentsOut prepared)) (\<lambda>(snarkProof, publicInputs).
     Inr \<lparr>gnPrepared = prepared,
       gnPreTransactionPOI = \<lparr>toSnarkProof = snarkProof, toTxidMerkleRoot = rdTxidMerkleRoot prepared,
         toPOIMerkleRoots = rdPOIMerkleRoots prepared, toBlindedCommitmentsOut = rdBlindedCommitmentsOut prepared,
         toRailgunTxidIfHasUnshield = rdRailgunTxidIfHasUnshield prepared\<rparr>,
       gnPublicInputs = publicInputs\<rparr>))"

definition GeneratePreTransactionPOI ::
  "poseidonConstantsRaw \<Rightarrow> ctx \<Rightarrow> 'art Prover option \<Rightarrow> PreTransactionPOIInputs \<Rightarrow> GeneratedPreTransactionPOI res" where
  "GeneratePreTransactionPOI raw ctx prover inputs =
     andThen (PreparePreTransactionPOIInputs raw inputs) (generatePreparedPreTransactionPOI ctx prover)"

definition SubmitPOIRequestFromPreTransaction ::
  "string \<Rightarrow> Chain \<Rightarrow> string \<Rightarrow> uint64 \<Rightarrow> PreTransactionPOI \<Rightarrow> SubmitPOIRequest" where
  "SubmitPOIRequestFromPreTransaction txidVersion chain listKey txidMerkleRootIndex poi =
     \<lparr>spTXIDVersion = txidVersion, spChain = chain, spListKey = listKey, spSnarkProof = toSnarkProof poi,
      spPOIMerkleRoots = toPOIMerkleRoots poi, spTxidMerkleRoot = toTxidMerkleRoot poi,
      spTxidMerkleRootIndex = txidMerkleRootIndex, spBlindedCommitmentsOut = toBlindedCommitmentsOut poi,
      spRailgunTxidIfHasUnshield = toRailgunTxidIfHasUnshield poi\<rparr>"

definition SubmitPreTransactionPOI ::
  "ctx \<Rightarrow> Manager option \<Rightarrow> string \<Rightarrow> Chain \<Rightarrow> string \<Rightarrow> uint64 \<Rightarrow> PreTransactionPOI \<Rightarrow> unit res" where
  "SubmitPreTransactionPOI ctx manager txidVersion chain listKey txidMerkleRootIndex poi =
     (if manager = None then Err ''POI manager is required''
      else SubmitPOI ctx manager (SubmitPOIRequestFromPreTransaction txidVersion chain listKey txidMerkleRootIndex poi))"

definition GenerateAndSubmitPreTransactionPOI ::
  "poseidonConstantsRaw \<Rightarrow> ctx \<Rightarrow> Manager option \<Rightarrow> 'art Prover option \<Rightarrow> GenerateAndSubmitPreTransactionPOIRequest
   \<Rightarrow> SubmittedPreTransactionPOI res" where
  "GenerateAndSubmitPreTransactionPOI raw ctx manager prover request =
     (if manager = None then Err ''POI manager is required''
      else if grTXIDVersion request = [] then Err ''txid version is required''
      else if grListKey request = [] then Err ''list key is required''
      else andThen (if ptPOIMerkleProofs (grInputs request) = []
          then andThen (GetPOIMerkleProofs ctx manager (grTXIDVersion request) (grChain request) (grListKey request)
              (blindedCommitmentsForPreTransaction (ptUTXOs (grInputs request)))) (\<lambda>proofs.
            Inr ((grInputs request)\<lparr>ptPOIMerkleProofs := proofs\<rparr>))
          else Inr (grInputs request)) (\<lambda>inputs.
        andThen (if grTXIDMerkleTree request \<noteq> None
          then PreparePreTransactionPOIInputsWithTXIDMerkleTree raw ctx (grTXIDMerkleTree request) inputs
          else PreparePreTransactionPOIInputs raw inputs) (\<lambda>prepared.
        andThen (generatePreparedPreTransactionPOI ctx prover prepared) (\<lambda>generated.
        let submitRequest = SubmitPOIRequestFromPreTransaction (grTXIDVersion request) (grChain request) (grListKey request)
          (grTXIDMerkleRootIndex request) (gnPreTransactionPOI generated) in
        andThen (SubmitPOI ctx manager submitRequest) (\<lambda>_.
        Inr \<lparr>sbGenerated = generated, sbSubmitRequest = submitRequest\<rparr>)))))"

definition GenerateAndSubmitPreTransactionPOIs ::
  "poseidonConstantsRaw \<Rightarrow> ctx \<Rightarrow> Manager option \<Rightarrow> 'art Prover option \<Rightarrow> GenerateAndSubmitPreTransactionPOIsRequest
   \<Rightarrow> SubmittedPreTransactionPOI list res" where
  "GenerateAndSubmitPreTransactionPOIs raw ctx manager prover request =
     (if gsListKeys request = [] then Err ''at least one list key is required''
      else mapRes (\<lambda>listKey. withCtx ctx (GenerateAndSubmitPreTransactionPOI raw ctx manager prover
        \<lparr>grTXIDVersion = gsTXIDVersion request, grChain = gsChain request, grListKey = listKey,
         grTXIDMerkleRootIndex = gsTXIDMerkleRootIndex request, grInputs = gsInputs request,
         grTXIDMerkleTree = gsTXIDMerkleTree request\<rparr>)) (gsListKeys request))"

section \<open>validation/poi.go\<close>

record TransactProofData =
  tpSnarkProof :: Proof
  tpTxidMerkleRoot :: string
  tpPOIMerkleRoots :: "string list"
  tpBlindedCommitmentsOut :: "string list"
  tpRailgunTxidIfHasUnshield :: string

type_synonym PreTransactionPOIsPerTxidLeafPerList = "(string, (string, TransactProofData) gomap) gomap"

definition checkLeaf ::
  "poseidonConstantsRaw \<Rightarrow> string \<Rightarrow> (string, TransactProofData) gomap \<Rightarrow> (string \<Rightarrow> string list \<Rightarrow> bool res)
   \<Rightarrow> (TransactProofData \<Rightarrow> bool res) \<Rightarrow> string \<Rightarrow> unit res" where
  "checkLeaf raw listKey poisForList validatePOIMerkleRoots verifyProof txidLeafHash =
     (case gget poisForList txidLeafHash of
        None \<Rightarrow> Inl (Errorf ''Missing POI for txidLeafHash %s for list %s'' [AStr txidLeafHash, AStr listKey])
      | Some transactProofData \<Rightarrow>
          andThen (CreateDummyProof raw txidLeafHash) (\<lambda>dummyMerkleProof.
          if prfRoot dummyMerkleProof \<noteq> tpTxidMerkleRoot transactProofData then Err ''Invalid txid merkle proof'' else
          andThen (validatePOIMerkleRoots listKey (tpPOIMerkleRoots transactProofData)) (\<lambda>validRoots.
          if \<not> validRoots then Inl (Errorf ''Invalid POI merkleroots: list %s'' [AStr listKey]) else
          andThen (verifyProof transactProofData) (\<lambda>validProof.
          if \<not> validProof then Inl (Errorf ''Could not verify POI snark proof: list %s'' [AStr listKey]) else Inr ()))))"

definition AssertIsValidSpendableTXID ::
  "poseidonConstantsRaw \<Rightarrow> string \<Rightarrow> PreTransactionPOIsPerTxidLeafPerList \<Rightarrow> string list \<Rightarrow> int option list
   \<Rightarrow> (string \<Rightarrow> string list \<Rightarrow> bool res) option \<Rightarrow> (TransactProofData \<Rightarrow> bool res) option \<Rightarrow> unit res" where
  "AssertIsValidSpendableTXID raw listKey preTransactionPOIs railgunTxids utxoTreesIn validatePOIMerkleRoots verifyProof =
     (if length railgunTxids \<noteq> length utxoTreesIn
      then Inl (Errorf ''railgunTxids length %d does not match utxoTreesIn length %d'' [ANat (length railgunTxids), ANat (length utxoTreesIn)])
      else notNil ''poi merkle roots validator is required'' validatePOIMerkleRoots (\<lambda>validateRoots.
        notNil ''poi proof verifier is required'' verifyProof (\<lambda>verify.
        andThen (mapRes (\<lambda>(i, railgunTxid, utxoTreeIn).
          case utxoTreeIn of
            None \<Rightarrow> Inl (Errorf ''utxoTreesIn[%d] must fit uint64'' [ANat i])
          | Some tree \<Rightarrow>
              if \<not> isUint64 tree then Inl (Errorf ''utxoTreesIn[%d] must fit uint64'' [ANat i])
              else andThen (HexToBigInt railgunTxid) (\<lambda>id.
                RailgunTxidLeafHash raw (Some id) (word_of_int tree) (Some GlobalTreePositionPreTransactionPOIProof)))
          (zip [0..<length railgunTxids] (zip railgunTxids utxoTreesIn))) (\<lambda>txidLeafHashes.
        case gget preTransactionPOIs listKey of
          None \<Rightarrow> Inl (Errorf ''Missing POIs for list: %s'' [AStr listKey])
        | Some poisForList \<Rightarrow>
            foldRes (\<lambda>txidLeafHash _. checkLeaf raw listKey poisForList validateRoots verify txidLeafHash) txidLeafHashes ()))))"

section \<open>What preparing establishes\<close>

lemma foldResI_unit:
  "foldResI i (\<lambda>i x _. f i x) xs () = Inr () \<longleftrightarrow> (\<forall>j < length xs. f (i + j) (xs ! j) = Inr ())"
proof (induction xs arbitrary: i)
  case (Cons x xs)
  have "foldResI i (\<lambda>i x _. f i x) (x # xs) () = Inr () \<longleftrightarrow> f i x = Inr () \<and> foldResI (Suc i) (\<lambda>i x _. f i x) xs () = Inr ()"
    by (auto simp: res_elims)
  then show ?case unfolding Cons.IH
    by (auto simp: nth_Cons' all_conj_distrib less_Suc_eq_0_disj split: nat.splits)
qed simp

lemma foldRes_unit:
  "foldRes (\<lambda>x _. f x) xs () = Inr () \<longleftrightarrow> (\<forall>x \<in> set xs. f x = Inr ())"
  by (induction xs) (auto simp: res_elims)

lemma verifyPOIProofs_all: "verifyPOIProofs raw proofs = Inr () \<longleftrightarrow> (\<forall>m \<in> set proofs. VerifyProof raw m = Inr True)"
  unfolding verifyPOIProofs_def foldResI_unit by (auto simp: res_elims set_conv_nth)

lemma txid_id_range: "RailgunTransactionIDFromBigInts raw ns cs b = Inr h \<Longrightarrow> 0 \<le> h \<and> h < 16 ^ 64"
  using SNARKPrime_bound by (auto simp: RailgunTransactionIDFromBigInts_def res_elims dest!: Poseidon_range)

lemma sameHex_refl: "HexToBigInt a = Inr n \<Longrightarrow> sameHex a a"
  by (simp add: sameHex_def)

lemma CreateDummyProof_leaf: "CreateDummyProof raw leaf = Inr p \<Longrightarrow> prfLeaf p = leaf \<and> (\<exists>n. HexToBigInt leaf = Inr n)"
  by (auto simp: CreateDummyProof_def CalculateRoot_def Let_def res_elims)

lemma txidMerkleProof_leaf:
  "txidMerkleProofForPreTransaction raw h m = Inr p \<Longrightarrow> sameHex (prfLeaf p) h"
  using CreateDummyProof_leaf [of raw h p] by (auto simp: txidMerkleProofForPreTransaction_def sameHex_def split: option.splits if_splits)

lemma prepare_steps:
  assumes "PreparePreTransactionPOIInputs raw inputs = Inr p"
  obtains railgunTxid out where
    "length (rdBlindedCommitmentsIn p) = length (piNullifiers (ptPublicInputs inputs))"
    "rdBlindedCommitmentsIn p = blindedCommitmentsForPreTransaction (ptUTXOs inputs)"
    "length (ptPOIMerkleProofs inputs) = length (rdBlindedCommitmentsIn p)"
    "verifyPOIProofs raw (ptPOIMerkleProofs inputs) = Inr ()"
    "preTransactionTXIDLeafHash raw inputs GlobalTreePositionPreTransactionPOIProof = Inr (railgunTxid, rdTxidLeafHash p)"
    "txidMerkleProofForPreTransaction raw (rdTxidLeafHash p) (ptTXIDMerkleProof inputs) = Inr (rdTxidMerkleProof p)"
    "VerifyProof raw (rdTxidMerkleProof p) = Inr True" "rdTxidMerkleRoot p = prfRoot (rdTxidMerkleProof p)"
    "blindCommitments raw GlobalTreePositionPreTransactionPOIProof (pvNPKOut (ptPrivateInputs inputs))
       (if ptHasUnshield inputs \<and> length (piCommitmentsOut (ptPublicInputs inputs)) > 0
        then butlast (piCommitmentsOut (ptPublicInputs inputs)) else piCommitmentsOut (ptPublicInputs inputs)) = Inr (rdBlindedCommitmentsOut p)"
    "rdPOIMerkleRoots p = map prfRoot (ptPOIMerkleProofs inputs)"
  using assms
  by (auto simp: PreparePreTransactionPOIInputs_def Let_def res_elims split: if_splits prod.splits)

section \<open>Dummy proofs\<close>

lemma dummy_verifies: "CreateDummyProof raw leaf = Inr p \<Longrightarrow> VerifyProof raw p = Inr True"
  by (auto simp: CreateDummyProof_def VerifyProof_def CalculateRoot_def Let_def res_elims)

lemma rootSteps_total:
  assumes "constantsOk raw 2" "\<forall>e \<in> set es. \<exists>n. HexToBigInt e = Inr n"
  shows "\<exists>v. foldResI i (rootStep (HashLeftRight raw) indices) es cur = Inr v \<and> (0 \<le> cur \<longrightarrow> 0 \<le> v)"
  using assms(2)
proof (induction es arbitrary: i cur)
  case (Cons e es)
  then obtain n where n: "HexToBigInt e = Inr n" by auto
  have "\<exists>c. rootStep (HashLeftRight raw) indices i e cur = Inr c \<and> 0 \<le> c"
    using HashLeftRight_total [OF assms(1)] n Poseidon_range by (fastforce simp: rootStep_def HashLeftRight_def)
  then obtain c where "rootStep (HashLeftRight raw) indices i e cur = Inr c" "0 \<le> c" by blast
  then show ?case using Cons.IH [of "Suc i" c] Cons.prems by auto
qed simp

lemma CreateDummyProof_total:
  assumes "constantsOk raw 2" "HexToBigInt leaf = Inr n" "0 \<le> n"
  shows "\<exists>p. CreateDummyProof raw leaf = Inr p"
proof -
  have z: "HexToBigInt (hexWidth 32 0) = Inr 0" by (simp add: hexWidth_roundtrip)
  then have "\<forall>e \<in> set (replicate TreeDepth (hexWidth 32 0)). \<exists>n. HexToBigInt e = Inr n" by auto
  from rootSteps_total [OF assms(1) this, of 0 0 n] obtain v where
    "foldResI 0 (rootStep (HashLeftRight raw) 0) (replicate TreeDepth (hexWidth 32 0)) n = Inr v" "0 \<le> v"
    using assms(3) by blast
  then show ?thesis using z assms(2) by (simp add: CreateDummyProof_def CalculateRoot_def BigIntToHex_Some Let_def)
qed

section \<open>Sender and receiver agree\<close>

lemma prepared_accepted:
  assumes "list_all2 (\<lambda>inputs p. PreparePreTransactionPOIInputs raw inputs = Inr p) ins ps"
    and "\<forall>inputs \<in> set ins. ptTXIDMerkleProof inputs = None"
    and "list_all2 (\<lambda>inputs txid. andThen (RailgunTransactionIDFromBigInts raw (piNullifiers (ptPublicInputs inputs))
        (piCommitmentsOut (ptPublicInputs inputs)) (piBoundParamsHash (ptPublicInputs inputs))) (\<lambda>id. BigIntToHex (Some id) 32 False)
        = Inr txid) ins txids"
    and "gget pois listKey = Some poisForList"
    and "\<forall>p \<in> set ps. \<exists>d. gget poisForList (rdTxidLeafHash p) = Some d \<and> tpTxidMerkleRoot d = rdTxidMerkleRoot p \<and>
        validateRoots listKey (tpPOIMerkleRoots d) = Inr True \<and> verify d = Inr True"
  shows "AssertIsValidSpendableTXID raw listKey pois txids (map (\<lambda>inputs. Some (uint (ptTreeNumber inputs))) ins)
    (Some validateRoots) (Some verify) = Inr ()"
proof -
  let ?trees = "map (\<lambda>inputs. Some (uint (ptTreeNumber inputs))) ins"
  have len: "length ps = length ins" "length txids = length ins"
    using assms(1,3) by (auto dest: list_all2_lengthD)
  have leaf: "HexToBigInt (txids ! i) = Inr (fst x) \<and>
      RailgunTxidLeafHash raw (Some (fst x)) (ptTreeNumber (ins ! i)) (Some GlobalTreePositionPreTransactionPOIProof) = Inr (rdTxidLeafHash (ps ! i))"
    if x: "preTransactionTXIDLeafHash raw (ins ! i) GlobalTreePositionPreTransactionPOIProof = Inr x" "snd x = rdTxidLeafHash (ps ! i)"
      and i: "i < length ins" for i x
  proof -
    have id: "RailgunTransactionIDFromBigInts raw (piNullifiers (ptPublicInputs (ins ! i)))
        (piCommitmentsOut (ptPublicInputs (ins ! i))) (piBoundParamsHash (ptPublicInputs (ins ! i))) = Inr (fst x)"
      and h: "RailgunTxidLeafHash raw (Some (fst x)) (ptTreeNumber (ins ! i)) (Some GlobalTreePositionPreTransactionPOIProof) = Inr (snd x)"
      using x(1) by (auto simp: preTransactionTXIDLeafHash_def res_elims)
    have "BigIntToHex (Some (fst x)) 32 False = Inr (txids ! i)"
      using list_all2_nthD [OF assms(3) i] id by simp
    then have "txids ! i = hexWidth 32 (fst x)" using txid_id_range [OF id] by (simp add: BigIntToHex_Some)
    then show ?thesis using txid_id_range [OF id] h x(2) by (simp add: hexWidth_roundtrip)
  qed
  have step: "\<exists>id. HexToBigInt (txids ! i) = Inr id \<and>
      RailgunTxidLeafHash raw (Some id) (ptTreeNumber (ins ! i)) (Some GlobalTreePositionPreTransactionPOIProof) = Inr (rdTxidLeafHash (ps ! i)) \<and>
      checkLeaf raw listKey poisForList validateRoots verify (rdTxidLeafHash (ps ! i)) = Inr ()" if i: "i < length ins" for i
  proof -
    have "PreparePreTransactionPOIInputs raw (ins ! i) = Inr (ps ! i)" using list_all2_nthD [OF assms(1) i] .
    then obtain id where p: "preTransactionTXIDLeafHash raw (ins ! i) GlobalTreePositionPreTransactionPOIProof = Inr (id, rdTxidLeafHash (ps ! i))"
      "txidMerkleProofForPreTransaction raw (rdTxidLeafHash (ps ! i)) (ptTXIDMerkleProof (ins ! i)) = Inr (rdTxidMerkleProof (ps ! i))"
      "rdTxidMerkleRoot (ps ! i) = prfRoot (rdTxidMerkleProof (ps ! i))" by (rule prepare_steps)
    obtain d where d: "gget poisForList (rdTxidLeafHash (ps ! i)) = Some d" "tpTxidMerkleRoot d = rdTxidMerkleRoot (ps ! i)"
      "validateRoots listKey (tpPOIMerkleRoots d) = Inr True" "verify d = Inr True"
      using assms(5) i len(1) by (metis nth_mem)
    have "CreateDummyProof raw (rdTxidLeafHash (ps ! i)) = Inr (rdTxidMerkleProof (ps ! i))"
      using p(2) assms(2) i by (simp add: txidMerkleProofForPreTransaction_def)
    then have "checkLeaf raw listKey poisForList validateRoots verify (rdTxidLeafHash (ps ! i)) = Inr ()"
      using d p(3) by (simp add: checkLeaf_def)
    then show ?thesis using leaf [OF p(1) _ i] by auto
  qed
  have "mapRes (\<lambda>(i, railgunTxid, utxoTreeIn).
          case utxoTreeIn of
            None \<Rightarrow> Inl (Errorf ''utxoTreesIn[%d] must fit uint64'' [ANat i])
          | Some tree \<Rightarrow>
              if \<not> isUint64 tree then Inl (Errorf ''utxoTreesIn[%d] must fit uint64'' [ANat i])
              else andThen (HexToBigInt railgunTxid) (\<lambda>id.
                RailgunTxidLeafHash raw (Some id) (word_of_int tree) (Some GlobalTreePositionPreTransactionPOIProof)))
          (zip [0..<length txids] (zip txids ?trees)) = Inr (map rdTxidLeafHash ps)"
    unfolding mapRes_list_all2 list_all2_conv_all_nth
  proof (intro conjI allI impI)
    fix i assume "i < length (zip [0..<length txids] (zip txids ?trees))"
    then have i: "i < length ins" using len by simp
    have u: "isUint64 (uint (ptTreeNumber (ins ! i)))" using uint_bounded [of "ptTreeNumber (ins ! i)"] by (simp add: isUint64_def)
    show "(case zip [0..<length txids] (zip txids ?trees) ! i of (i, railgunTxid, utxoTreeIn) \<Rightarrow>
          case utxoTreeIn of
            None \<Rightarrow> Inl (Errorf ''utxoTreesIn[%d] must fit uint64'' [ANat i])
          | Some tree \<Rightarrow>
              if \<not> isUint64 tree then Inl (Errorf ''utxoTreesIn[%d] must fit uint64'' [ANat i])
              else andThen (HexToBigInt railgunTxid) (\<lambda>id.
                RailgunTxidLeafHash raw (Some id) (word_of_int tree) (Some GlobalTreePositionPreTransactionPOIProof)))
        = Inr (map rdTxidLeafHash ps ! i)"
      using step [OF i] i len u by auto
  qed (simp add: len)
  moreover have "\<forall>h \<in> set (map rdTxidLeafHash ps). checkLeaf raw listKey poisForList validateRoots verify h = Inr ()"
    unfolding list_all_iff [symmetric] list_all_length using step len(1) by (metis length_map nth_map)
  ultimately show ?thesis
    using len assms(4) by (simp add: AssertIsValidSpendableTXID_def foldRes_unit)
qed

section \<open>Properties\<close>

text \<open>C17: What the sender prepares for transactions that are not in the
  TXID tree yet is what the receiver checks: with the prepared TXID root stored under the
  prepared leaf hash of each transaction, and validators that accept the POI roots and the snark
  proof of each entry, the receiver accepts the transaction ids and input trees.\<close>

theorem prepared_passes_validation:
  assumes "list_all2 (\<lambda>inputs p. PreparePreTransactionPOIInputs raw inputs = Inr p) ins ps"
    and "\<forall>inputs \<in> set ins. ptTXIDMerkleProof inputs = None"
    and "list_all2 (\<lambda>inputs txid. andThen (RailgunTransactionIDFromBigInts raw (piNullifiers (ptPublicInputs inputs))
        (piCommitmentsOut (ptPublicInputs inputs)) (piBoundParamsHash (ptPublicInputs inputs))) (\<lambda>id. BigIntToHex (Some id) 32 False)
        = Inr txid) ins txids"
    and "gget pois listKey = Some poisForList"
    and "\<forall>p \<in> set ps. \<exists>d. gget poisForList (rdTxidLeafHash p) = Some d \<and> tpTxidMerkleRoot d = rdTxidMerkleRoot p \<and>
        validateRoots listKey (tpPOIMerkleRoots d) = Inr True \<and> verify d = Inr True"
  shows "AssertIsValidSpendableTXID raw listKey pois txids (map (\<lambda>inputs. Some (uint (ptTreeNumber inputs))) ins)
    (Some validateRoots) (Some verify) = Inr ()"
  using assms by (rule prepared_accepted)

text \<open>When the receiver accepts, every transaction id had an entry
  under the leaf hash of its own id and input tree, whose TXID root is the root of the dummy
  proof of that leaf hash, and both validators accepted that entry.\<close>

theorem validation_checks_every_txid:
  assumes "AssertIsValidSpendableTXID raw listKey pois txids trees (Some validateRoots) (Some verify) = Inr ()"
  shows "length trees = length txids \<and> (\<forall>i < length txids. \<exists>id tree leafHash dummy poisForList d.
    HexToBigInt (txids ! i) = Inr id \<and> trees ! i = Some tree \<and> isUint64 tree \<and>
    RailgunTxidLeafHash raw (Some id) (word_of_int tree) (Some GlobalTreePositionPreTransactionPOIProof) = Inr leafHash \<and>
    gget pois listKey = Some poisForList \<and> gget poisForList leafHash = Some d \<and>
    CreateDummyProof raw leafHash = Inr dummy \<and> tpTxidMerkleRoot d = prfRoot dummy \<and>
    validateRoots listKey (tpPOIMerkleRoots d) = Inr True \<and> verify d = Inr True)"
proof -
  obtain leafHashes poisForList where a: "length txids = length trees"
    "mapRes (\<lambda>(i, railgunTxid, utxoTreeIn).
          case utxoTreeIn of
            None \<Rightarrow> Inl (Errorf ''utxoTreesIn[%d] must fit uint64'' [ANat i])
          | Some tree \<Rightarrow>
              if \<not> isUint64 tree then Inl (Errorf ''utxoTreesIn[%d] must fit uint64'' [ANat i])
              else andThen (HexToBigInt railgunTxid) (\<lambda>id.
                RailgunTxidLeafHash raw (Some id) (word_of_int tree) (Some GlobalTreePositionPreTransactionPOIProof)))
          (zip [0..<length txids] (zip txids trees)) = Inr leafHashes"
    "gget pois listKey = Some poisForList"
    "\<forall>h \<in> set leafHashes. checkLeaf raw listKey poisForList validateRoots verify h = Inr ()"
    using assms by (auto simp: AssertIsValidSpendableTXID_def foldRes_unit res_elims split: if_splits option.splits)
  have l: "length leafHashes = length txids" using mapRes_length [OF a(2)] a(1) by simp
  have "\<exists>id tree dummy d. HexToBigInt (txids ! i) = Inr id \<and> trees ! i = Some tree \<and> isUint64 tree \<and>
    RailgunTxidLeafHash raw (Some id) (word_of_int tree) (Some GlobalTreePositionPreTransactionPOIProof) = Inr (leafHashes ! i) \<and>
    gget poisForList (leafHashes ! i) = Some d \<and> CreateDummyProof raw (leafHashes ! i) = Inr dummy \<and> tpTxidMerkleRoot d = prfRoot dummy \<and>
    validateRoots listKey (tpPOIMerkleRoots d) = Inr True \<and> verify d = Inr True" if i: "i < length txids" for i
  proof -
    have "checkLeaf raw listKey poisForList validateRoots verify (leafHashes ! i) = Inr ()" using a(4) i l by simp
    then show ?thesis using mapRes_nth [OF a(2), of i] i a(1)
      by (auto simp: checkLeaf_def res_elims split: option.splits if_splits)
  qed
  then show ?thesis using a(1,3) by metis
qed

lemma prepare_inputs:
  assumes "PreparePreTransactionPOIInputs raw inputs = Inr p"
  shows "\<exists>id. preTransactionTXIDLeafHash raw inputs GlobalTreePositionPreTransactionPOIProof = Inr (id, rdTxidLeafHash p)"
    "buildProofInputs inputs GlobalTreePositionPreTransactionPOIProof (rdTxidMerkleProof p) (rdPOIMerkleRoots p)
       (map prfIndices (ptPOIMerkleProofs inputs)) (map prfElements (ptPOIMerkleProofs inputs)) (rdRailgunTxidIfHasUnshield p) = Inr (rdProofInputs p)"
  using assms unfolding PreparePreTransactionPOIInputs_def Let_def by (auto simp: andThen_Inr split: if_splits prod.splits)

lemma buildProofInputs_fields:
  assumes "buildProofInputs inputs position txidProof roots indices elements unshield = Inr e"
  shows "peAnyRailgunTxidMerklerootAfterTransaction e = prfRoot txidProof \<and> peRailgunTxidMerkleProofIndices e = prfIndices txidProof \<and>
    peRailgunTxidMerkleProofPathElements e = prfElements txidProof \<and> pePOIMerkleRoots e = roots \<and>
    pePOIInMerkleProofIndices e = indices \<and> pePOIInMerkleProofPathElements e = elements \<and>
    mapRes (\<lambda>v. BigIntToHex v 32 True) (piNullifiers (ptPublicInputs inputs)) = Inr (peNullifiers e) \<and>
    mapRes (\<lambda>v. BigIntToHex v 32 True) (piCommitmentsOut (ptPublicInputs inputs)) = Inr (peCommitmentsOut e)"
  using assms by (auto simp: buildProofInputs_def Let_def andThen_Inr hexBigIntSlice_def)

text \<open>C19: Successful preparation has verified every POI Merkle proof, one per
  nullifier, and the TXID proof, whose leaf is the leaf hash computed from the id of the transaction (which
  is computed from its nullifiers, commitments and bound parameters), its tree and the fixed position of
  transactions that are not mined yet. The prover's inputs carry the roots, indices and path elements of exactly
  these proofs, in order, and the nullifiers and commitments of the transaction in hexadecimal; and there is one blinded output per
  commitment, the unshield commitment apart.\<close>

theorem prepare_verifies_proofs:
  assumes "PreparePreTransactionPOIInputs raw inputs = Inr p"
  shows "(\<forall>m \<in> set (ptPOIMerkleProofs inputs). VerifyProof raw m = Inr True) \<and>
    length (ptPOIMerkleProofs inputs) = length (piNullifiers (ptPublicInputs inputs)) \<and>
    (\<exists>id. RailgunTransactionIDFromBigInts raw (piNullifiers (ptPublicInputs inputs)) (piCommitmentsOut (ptPublicInputs inputs))
        (piBoundParamsHash (ptPublicInputs inputs)) = Inr id \<and>
      RailgunTxidLeafHash raw (Some id) (ptTreeNumber inputs) (Some (199999 * 65536 + 199999)) = Inr (rdTxidLeafHash p)) \<and>
    VerifyProof raw (rdTxidMerkleProof p) = Inr True \<and> sameHex (prfLeaf (rdTxidMerkleProof p)) (rdTxidLeafHash p) \<and>
    rdTxidMerkleRoot p = prfRoot (rdTxidMerkleProof p) \<and> rdPOIMerkleRoots p = map prfRoot (ptPOIMerkleProofs inputs) \<and>
    (let e = rdProofInputs p in
      peAnyRailgunTxidMerklerootAfterTransaction e = prfRoot (rdTxidMerkleProof p) \<and>
      peRailgunTxidMerkleProofIndices e = prfIndices (rdTxidMerkleProof p) \<and>
      peRailgunTxidMerkleProofPathElements e = prfElements (rdTxidMerkleProof p) \<and>
      pePOIMerkleRoots e = map prfRoot (ptPOIMerkleProofs inputs) \<and>
      pePOIInMerkleProofIndices e = map prfIndices (ptPOIMerkleProofs inputs) \<and>
      pePOIInMerkleProofPathElements e = map prfElements (ptPOIMerkleProofs inputs) \<and>
      mapRes (\<lambda>v. BigIntToHex v 32 True) (piNullifiers (ptPublicInputs inputs)) = Inr (peNullifiers e) \<and>
      mapRes (\<lambda>v. BigIntToHex v 32 True) (piCommitmentsOut (ptPublicInputs inputs)) = Inr (peCommitmentsOut e)) \<and>
    length (rdBlindedCommitmentsOut p) = length (piCommitmentsOut (ptPublicInputs inputs)) - of_bool (ptHasUnshield inputs)"
proof -
  obtain railgunTxid where p: "length (rdBlindedCommitmentsIn p) = length (piNullifiers (ptPublicInputs inputs))"
    "length (ptPOIMerkleProofs inputs) = length (rdBlindedCommitmentsIn p)"
    "verifyPOIProofs raw (ptPOIMerkleProofs inputs) = Inr ()"
    "txidMerkleProofForPreTransaction raw (rdTxidLeafHash p) (ptTXIDMerkleProof inputs) = Inr (rdTxidMerkleProof p)"
    "VerifyProof raw (rdTxidMerkleProof p) = Inr True" "rdTxidMerkleRoot p = prfRoot (rdTxidMerkleProof p)"
    "blindCommitments raw GlobalTreePositionPreTransactionPOIProof (pvNPKOut (ptPrivateInputs inputs))
       (if ptHasUnshield inputs \<and> length (piCommitmentsOut (ptPublicInputs inputs)) > 0
        then butlast (piCommitmentsOut (ptPublicInputs inputs)) else piCommitmentsOut (ptPublicInputs inputs)) = Inr (rdBlindedCommitmentsOut p)"
    "rdPOIMerkleRoots p = map prfRoot (ptPOIMerkleProofs inputs)"
    using assms by (rule prepare_steps)
  have blinded: "length (rdBlindedCommitmentsOut p) = length (piCommitmentsOut (ptPublicInputs inputs)) - of_bool (ptHasUnshield inputs)"
    using p(7) unfolding blindCommitments_def by (auto dest!: mapRes_length)
  have "GlobalTreePositionPreTransactionPOIProof = 199999 * 65536 + 199999"
    by (simp add: GlobalTreePositionPreTransactionPOIProof_def GetGlobalTreePosition_def txidTreeMaxItems_def
      GlobalUTXOTreePreTransactionPOIProof_def GlobalUTXOPositionPreTransactionPOIProof_def)
  then have leaf: "\<exists>id. RailgunTransactionIDFromBigInts raw (piNullifiers (ptPublicInputs inputs)) (piCommitmentsOut (ptPublicInputs inputs))
        (piBoundParamsHash (ptPublicInputs inputs)) = Inr id \<and>
      RailgunTxidLeafHash raw (Some id) (ptTreeNumber inputs) (Some (199999 * 65536 + 199999)) = Inr (rdTxidLeafHash p)"
    using prepare_inputs(1) [OF assms] by (auto simp: preTransactionTXIDLeafHash_def andThen_Inr)
  note fields = buildProofInputs_fields [OF prepare_inputs(2) [OF assms]]
  show ?thesis
    unfolding Let_def using p txidMerkleProof_leaf [OF p(4)] blinded leaf fields by (simp add: verifyPOIProofs_all)
qed

section \<open>An example\<close>

definition sampleInputs :: "MerkleProof \<Rightarrow> PreTransactionPOIInputs" where
  "sampleInputs m = \<lparr>
     ptPublicInputs = \<lparr>piMerkleRoot = Some 1, piBoundParamsHash = Some 2, piNullifiers = [Some 3], piCommitmentsOut = [Some 4]\<rparr>,
     ptPrivateInputs = \<lparr>pvTokenAddress = Some 5, pvPublicKey = (Some 6, Some 7), pvRandomIn = [], pvValueIn = [], pvPathElements = [],
       pvLeavesIndices = [], pvNullifyingKey = Some 8, pvNPKOut = [Some 9], pvValueOut = [Some 10]\<rparr>,
     ptSpendingPublicKey = (Some 6, Some 7), ptNullifyingKey = Some 8,
     ptUTXOs = [\<lparr>puTree = 0, puPosition = 1, puTokenHash = ''05'', puRandom = ''06'', puValue = Some 10, puBlindedCommitment = ''0x07''\<rparr>],
     ptPOIMerkleProofs = [m], ptTXIDMerkleProof = None, ptTreeNumber = 0, ptHasUnshield = False\<rparr>"

lemma sample_id: "\<exists>id. RailgunTransactionIDFromBigInts sampleConstants [Some 3] [Some 4] (Some 2) = Inr id \<and> 0 \<le> id"
proof -
  have t: "\<exists>h. Poseidon sampleConstants xs = Inr h" if "0 < length xs" "length xs \<le> 16" for xs
    using Poseidon_total [OF sampleConstants_ok] that by blast
  obtain a where a: "Poseidon sampleConstants (padTo13 [3]) = Inr a" using t [of "padTo13 [3]"] by (auto simp: padTo13_def)
  obtain b where b: "Poseidon sampleConstants (padTo13 [4]) = Inr b" using t [of "padTo13 [4]"] by (auto simp: padTo13_def)
  obtain id where id: "Poseidon sampleConstants [a, b, 2] = Inr id" using t [of "[a, b, 2]"] by auto
  show ?thesis using a b id Poseidon_range [OF id] by (auto simp: RailgunTransactionIDFromBigInts_def validateBigIntList_def)
qed

lemma sample_prepared:
  assumes "VerifyProof sampleConstants m = Inr True"
  shows "\<exists>p. PreparePreTransactionPOIInputs sampleConstants (sampleInputs m) = Inr p"
proof -
  have t: "\<exists>h. Poseidon sampleConstants [x, y, z] = Inr h \<and> 0 \<le> h" for x y z
    using Poseidon_total [OF sampleConstants_ok, of "[x, y, z]"] Poseidon_range by fastforce
  obtain id where id: "RailgunTransactionIDFromBigInts sampleConstants [Some 3] [Some 4] (Some 2) = Inr id" "0 \<le> id"
    using sample_id by blast
  obtain h where h: "Poseidon sampleConstants [id, 0, GlobalTreePositionPreTransactionPOIProof] = Inr h" "0 \<le> h"
    using t by blast
  have leaf: "preTransactionTXIDLeafHash sampleConstants (sampleInputs m) GlobalTreePositionPreTransactionPOIProof = Inr (id, hexWidth 32 h)"
    using id h by (simp add: preTransactionTXIDLeafHash_def sampleInputs_def RailgunTxidLeafHash_def BigIntToHex_Some)
  have "HexToBigInt (hexWidth 32 h) = Inr (h mod 16 ^ 64)" using HexToBigInt_hexWidth [OF h(2), of 32] by simp
  then obtain d where d: "CreateDummyProof sampleConstants (hexWidth 32 h) = Inr d"
    using CreateDummyProof_total [OF sampleConstants_ok] h(2) by fastforce
  obtain b where b: "Poseidon sampleConstants [4, 9, GlobalTreePositionPreTransactionPOIProof] = Inr b" "0 \<le> b"
    using t by blast
  have four: "BigIntToHex (Some 4) 32 True = Inr (''0x'' @ hexWidth 32 4)" "HexToBigInt (''0x'' @ hexWidth 32 4) = Inr 4"
    by (simp add: BigIntToHex_Some, subst HexToBigInt_0x [OF hexString_hexWidth]) (simp_all add: hexWidth_roundtrip)
  have bc: "blindCommitments sampleConstants GlobalTreePositionPreTransactionPOIProof [Some 9] [Some 4] = Inr [''0x'' @ hexWidth 32 b]"
    using b four by (simp add: blindCommitments_def BlindedCommitment_def BigIntToHex_Some)
  have pi: "\<exists>x. buildProofInputs (sampleInputs m) GlobalTreePositionPreTransactionPOIProof d roots indices elements u = Inr x" for roots indices elements u
    by (simp add: buildProofInputs_def sampleInputs_def hexBigIntSlice_def BigIntToHex_Some Let_def)
  obtain x where x: "buildProofInputs (sampleInputs m) GlobalTreePositionPreTransactionPOIProof d [prfRoot m] [prfIndices m] [prfElements m] ''0x00'' = Inr x"
    using pi by blast
  have sel: "ptUTXOs (sampleInputs m) \<noteq> []" "ptNullifyingKey (sampleInputs m) = Some 8" "ptPOIMerkleProofs (sampleInputs m) = [m]"
    "ptSpendingPublicKey (sampleInputs m) = (Some 6, Some 7)"
    "length (blindedCommitmentsForPreTransaction (ptUTXOs (sampleInputs m))) = 1"
    "length (piNullifiers (ptPublicInputs (sampleInputs m))) = 1" "piCommitmentsOut (ptPublicInputs (sampleInputs m)) = [Some 4]"
    "pvNPKOut (ptPrivateInputs (sampleInputs m)) = [Some 9]" "\<not> ptHasUnshield (sampleInputs m)" "ptTXIDMerkleProof (sampleInputs m) = None"
    by (simp_all add: sampleInputs_def blindedCommitmentsForPreTransaction_def)
  show ?thesis
    using leaf d bc dummy_verifies [OF d] x assms sel
    by (simp add: PreparePreTransactionPOIInputs_def txidMerkleProofForPreTransaction_def verifyPOIProofs_def Let_def)
qed

lemma sample_dummy: "\<exists>m. CreateDummyProof sampleConstants ''01'' = Inr m \<and> VerifyProof sampleConstants m = Inr True"
proof -
  have "HexToBigInt ''01'' = Inr 1" by code_simp
  then obtain m where "CreateDummyProof sampleConstants ''01'' = Inr m"
    using CreateDummyProof_total [OF sampleConstants_ok] by fastforce
  then show ?thesis using dummy_verifies by blast
qed

theorem prepare_verifies_proofs_witness:
  "\<exists>m p. PreparePreTransactionPOIInputs sampleConstants (sampleInputs m) = Inr p \<and>
     VerifyProof sampleConstants (rdTxidMerkleProof p) = Inr True \<and> length (rdBlindedCommitmentsOut p) = 1"
proof -
  obtain m p where "PreparePreTransactionPOIInputs sampleConstants (sampleInputs m) = Inr p"
    using sample_dummy sample_prepared by blast
  from this prepare_verifies_proofs [OF this] show ?thesis by (auto simp: sampleInputs_def)
qed

definition sampleData :: "PreparedPreTransactionPOI \<Rightarrow> TransactProofData" where
  "sampleData p = \<lparr>tpSnarkProof = \<lparr>PiA = ([], []), PiB = (([], []), ([], [])), PiC = ([], [])\<rparr>, tpTxidMerkleRoot = rdTxidMerkleRoot p,
     tpPOIMerkleRoots = rdPOIMerkleRoots p, tpBlindedCommitmentsOut = rdBlindedCommitmentsOut p,
     tpRailgunTxidIfHasUnshield = rdRailgunTxidIfHasUnshield p\<rparr>"

lemma sample_txid: "\<exists>txid. andThen (RailgunTransactionIDFromBigInts sampleConstants (piNullifiers (ptPublicInputs (sampleInputs m)))
      (piCommitmentsOut (ptPublicInputs (sampleInputs m))) (piBoundParamsHash (ptPublicInputs (sampleInputs m))))
      (\<lambda>id. BigIntToHex (Some id) 32 False) = Inr txid"
  using sample_id by (auto simp: sampleInputs_def BigIntToHex_Some)

lemma sample_accepted:
  assumes "PreparePreTransactionPOIInputs sampleConstants (sampleInputs m) = Inr p"
  obtains txid where "list_all2 (\<lambda>inputs txid. andThen (RailgunTransactionIDFromBigInts sampleConstants (piNullifiers (ptPublicInputs inputs))
        (piCommitmentsOut (ptPublicInputs inputs)) (piBoundParamsHash (ptPublicInputs inputs))) (\<lambda>id. BigIntToHex (Some id) 32 False)
        = Inr txid) [sampleInputs m] [txid]"
    "AssertIsValidSpendableTXID sampleConstants ''k'' [(''k'', [(rdTxidLeafHash p, sampleData p)])] [txid]
      (map (\<lambda>inputs. Some (uint (ptTreeNumber inputs))) [sampleInputs m]) (Some (\<lambda>_ _. Inr True)) (Some (\<lambda>_. Inr True)) = Inr ()"
proof -
  obtain txid where t: "andThen (RailgunTransactionIDFromBigInts sampleConstants (piNullifiers (ptPublicInputs (sampleInputs m)))
      (piCommitmentsOut (ptPublicInputs (sampleInputs m))) (piBoundParamsHash (ptPublicInputs (sampleInputs m))))
      (\<lambda>id. BigIntToHex (Some id) 32 False) = Inr txid" using sample_txid by blast
  show thesis
    by (rule that [of txid], simp add: t, rule prepared_accepted [where ps = "[p]" and poisForList = "[(rdTxidLeafHash p, sampleData p)]"])
      (use assms t in \<open>simp_all add: sampleData_def\<close>, simp add: sampleInputs_def)
qed

theorem prepared_passes_validation_witness:
  "\<exists>p txid. AssertIsValidSpendableTXID sampleConstants ''k'' [(''k'', [(rdTxidLeafHash p, sampleData p)])] [txid] [Some 0]
     (Some (\<lambda>_ _. Inr True)) (Some (\<lambda>_. Inr True)) = Inr ()"
proof -
  obtain m p where p: "PreparePreTransactionPOIInputs sampleConstants (sampleInputs m) = Inr p"
    using sample_dummy sample_prepared by blast
  obtain txid where t: "list_all2 (\<lambda>inputs txid. andThen (RailgunTransactionIDFromBigInts sampleConstants (piNullifiers (ptPublicInputs inputs))
        (piCommitmentsOut (ptPublicInputs inputs)) (piBoundParamsHash (ptPublicInputs inputs))) (\<lambda>id. BigIntToHex (Some id) 32 False)
        = Inr txid) [sampleInputs m] [txid]" using p by (rule sample_accepted)
  have "AssertIsValidSpendableTXID sampleConstants ''k'' [(''k'', [(rdTxidLeafHash p, sampleData p)])] [txid]
      (map (\<lambda>inputs. Some (uint (ptTreeNumber inputs))) [sampleInputs m]) (Some (\<lambda>_ _. Inr True)) (Some (\<lambda>_. Inr True)) = Inr ()"
    by (rule prepared_passes_validation [OF _ _ t, where ps = "[p]" and poisForList = "[(rdTxidLeafHash p, sampleData p)]"])
      (use p in \<open>simp_all add: sampleData_def\<close>, simp add: sampleInputs_def)
  then show ?thesis by (auto simp: sampleInputs_def)
qed

theorem validation_checks_every_txid_witness:
  "\<exists>p txid id leafHash. HexToBigInt txid = Inr id \<and>
     RailgunTxidLeafHash sampleConstants (Some id) 0 (Some GlobalTreePositionPreTransactionPOIProof) = Inr leafHash \<and>
     gget [(rdTxidLeafHash p, sampleData p)] leafHash \<noteq> None"
proof -
  obtain m p where p: "PreparePreTransactionPOIInputs sampleConstants (sampleInputs m) = Inr p"
    using sample_dummy sample_prepared by blast
  obtain txid where "AssertIsValidSpendableTXID sampleConstants ''k'' [(''k'', [(rdTxidLeafHash p, sampleData p)])] [txid]
      (map (\<lambda>inputs. Some (uint (ptTreeNumber inputs))) [sampleInputs m]) (Some (\<lambda>_ _. Inr True)) (Some (\<lambda>_. Inr True)) = Inr ()"
    using p by (rule sample_accepted)
  from validation_checks_every_txid [OF this] show ?thesis
    by (intro exI [of _ p] exI [of _ txid]) (auto simp: sampleInputs_def split: if_splits)
qed

end
