(* ===== verification/Address.thy ===== *)
theory Address
  imports Hex
begin

text \<open>
  Models \<^verbatim>\<open>pkg/address/address.go\<close> and \<^verbatim>\<open>pkg/address/bech32m.go\<close>: RAILGUN
  addresses, a version, a master public key, a network id and a viewing public key in bech32m with
  a 30-bit checksum. Strings are lists of bytes; a human-readable part with bytes
  above 127, which the code expands by code points, is not an address in either reading.
\<close>

unbundle bit_operations_syntax

section \<open>bech32m.go\<close>

definition bech32mCharset :: string where
  "bech32mCharset = ''qpzry9x8gf2tvdw0s3jn54khce6mua7l''"

definition bech32mChecksumConstant :: int where
  "bech32mChecksumConstant = 0x2bc830a3"

definition bech32mCharsetRev :: "char \<Rightarrow> nat option" where
  "bech32mCharsetRev c = map_option fst (find (\<lambda>(i, r). r = c) (zip [0..<length bech32mCharset] bech32mCharset))"

definition hrpExpand :: "string \<Rightarrow> byte list" where
  "hrpExpand hrp = map (\<lambda>c. word_of_int (drop_bit 5 (of_char c))) hrp @ [0] @ map (\<lambda>c. word_of_int (of_char c AND 31)) hrp"

definition generator :: "int list" where
  "generator = [0x3b6a57b2, 0x26508e6d, 0x1ea119fa, 0x3d4233dd, 0x2a1462b3]"

definition polymodStep :: "int \<Rightarrow> byte \<Rightarrow> int" where
  "polymodStep chk value =
     (let top = drop_bit 25 chk;
          chk = push_bit 5 (chk AND 0x1ffffff) XOR uint value
      in foldl (\<lambda>chk i. if drop_bit i top AND 1 = 1 then chk XOR generator ! i else chk) chk [0..<5])"

definition polymod :: "byte list \<Rightarrow> int" where
  "polymod values = foldl polymodStep 1 values"

definition createChecksum :: "string \<Rightarrow> byte list \<Rightarrow> byte list" where
  "createChecksum hrp data =
     (let values = hrpExpand hrp @ data @ [0, 0, 0, 0, 0, 0];
          m = polymod values XOR bech32mChecksumConstant
      in map (\<lambda>i. word_of_int (drop_bit (5 * (5 - i)) m AND 31)) [0..<6])"

definition verifyChecksum :: "string \<Rightarrow> byte list \<Rightarrow> bool" where
  "verifyChecksum hrp words \<longleftrightarrow> polymod (hrpExpand hrp @ words) = bech32mChecksumConstant"

text \<open>The inner loop of the conversion; the guard on \<open>toBits\<close> only makes the function total.\<close>

function drainBits :: "nat \<Rightarrow> int \<Rightarrow> nat \<Rightarrow> nat \<times> byte list" where
  "drainBits toBits acc bits =
     (if 0 < toBits \<and> toBits \<le> bits
      then (let bits = bits - toBits;
                word = word_of_int (drop_bit bits acc AND (push_bit toBits 1 - 1));
                (rest, out) = drainBits toBits acc bits
            in (rest, word # out))
      else (bits, []))"
  by pat_completeness auto
termination
  by (relation "measure (\<lambda>(_, _, bits). bits)") auto

declare drainBits.simps [simp del]

definition convertStep :: "nat \<Rightarrow> nat \<Rightarrow> byte \<Rightarrow> int \<times> nat \<times> byte list \<Rightarrow> (int \<times> nat \<times> byte list) res" where
  "convertStep fromBits toBits v = (\<lambda>(acc, bits, out).
     if drop_bit fromBits (uint v) \<noteq> 0 then Err ''invalid data range''
     else (let acc = (push_bit fromBits acc OR uint v) AND (push_bit (fromBits + toBits - 1) 1 - 1);
               (bits, words) = drainBits toBits acc (bits + fromBits)
           in Inr (acc, bits, out @ words)))"

definition convertBits :: "byte list \<Rightarrow> nat \<Rightarrow> nat \<Rightarrow> bool \<Rightarrow> byte list res" where
  "convertBits data fromBits toBits pad =
     andThen (foldRes (convertStep fromBits toBits) data (0, 0, [])) (\<lambda>(acc, bits, out).
     let maxValue = push_bit toBits 1 - 1
     in if pad
        then Inr (if bits > 0 then out @ [word_of_int (push_bit (toBits - bits) acc AND maxValue)] else out)
        else if bits \<ge> fromBits \<or> push_bit (toBits - bits) acc AND maxValue \<noteq> 0 then Err ''invalid padding''
        else Inr out)"

definition AddressLengthLimit :: nat where
  "AddressLengthLimit = 127"

definition bech32mEncode :: "string \<Rightarrow> byte list \<Rightarrow> string res" where
  "bech32mEncode hrp data =
     andThen (convertBits data 8 5 True) (\<lambda>words.
     let checksum = createChecksum hrp words
     in andThen (mapRes (\<lambda>word. if unat word \<ge> length bech32mCharset then Err ''invalid bech32 word''
          else Inr (bech32mCharset ! unat word)) (words @ checksum)) (\<lambda>cs.
        let out = hrp @ ''1'' @ cs
        in if length out \<noteq> AddressLengthLimit then Inl (Errorf ''invalid encoded address length %d'' [ANat (length out)])
           else Inr out))"

text \<open>\<^verbatim>\<open>strings.LastIndexByte\<close>.\<close>

definition lastIndexByte :: "string \<Rightarrow> char \<Rightarrow> int" where
  "lastIndexByte s c = (case find (\<lambda>i. s ! i = c) (rev [0..<length s]) of None \<Rightarrow> - 1 | Some i \<Rightarrow> int i)"

definition bech32mDecode :: "string \<Rightarrow> (string \<times> byte list) res" where
  "bech32mDecode value =
     (if value \<noteq> ToLower value then Err ''mixed-case bech32 string''
      else let separator = lastIndexByte value (CHR ''1'') in
      if separator < 1 \<or> separator + 7 > int (length value) then Err ''invalid bech32 separator''
      else let hrp = take (nat separator) value; rawWords = drop (nat separator + 1) value in
      andThen (mapRes (\<lambda>r. case bech32mCharsetRev r of None \<Rightarrow> Err ''invalid bech32 character''
        | Some v \<Rightarrow> Inr (word_of_nat v :: byte)) rawWords) (\<lambda>words.
      if \<not> verifyChecksum hrp words then Err ''invalid checksum''
      else andThen (convertBits (take (length words - 6) words) 5 8 False) (\<lambda>payload. Inr (hrp, payload))))"

section \<open>address.go\<close>

definition addressPrefix :: string where
  "addressPrefix = ''0zk''"

definition AddressVersion :: int where
  "AddressVersion = 1"

definition allChainsNetworkID :: string where
  "allChainsNetworkID = ''ffffffffffffffff''"

record AddressChain =
  acType :: int
  acID :: int

record AddressData =
  adMasterPublicKey :: string
  adViewingPublicKey :: string
  adChain :: "AddressChain option"
  adVersion :: int

text \<open>\<^verbatim>\<open>%0nx\<close> of a non-negative number.\<close>

definition padHexInt :: "nat \<Rightarrow> int \<Rightarrow> string" where
  "padHexInt n v = (let s = intText 16 v in Repeat0 (n - length s) @ s)"

definition chainToNetworkID :: "AddressChain option \<Rightarrow> string res" where
  "chainToNetworkID chain = (case chain of
      None \<Rightarrow> Inr allChainsNetworkID
    | Some c \<Rightarrow>
        if acType c < 0 \<or> acType c > 255 then Err ''chain type exceeds uint8''
        else if acID c < 0 then Err ''chain id must be non-negative''
        else if acID c \<ge> 2 ^ 56 then Err ''chain id exceeds uint56''
        else Inr (padHexInt 2 (acType c) @ padHexInt 14 (acID c)))"

definition networkIDToChain :: "string \<Rightarrow> AddressChain option res" where
  "networkIDToChain networkID =
     (if networkID = allChainsNetworkID then Inr None
      else if length networkID \<noteq> 16 then Err ''invalid network id length''
      else andThen (HexToBigInt (take 2 networkID)) (\<lambda>chainType.
        andThen (HexToBigInt (drop 2 networkID)) (\<lambda>chainID.
        Inr (Some \<lparr>acType = chainType, acID = chainID\<rparr>))))"

definition xorNetworkID :: "string \<Rightarrow> string" where
  "xorNetworkID chainID = (case hexDecode chainID of
      Inl _ \<Rightarrow> []
    | Inr bs \<Rightarrow> BytesToHex (map (\<lambda>(i, b). if i < length ''railgun'' then b XOR word_of_int (of_char (''railgun'' ! i)) else b)
        (zip [0..<length bs] bs)) False)"

definition addressHex :: "string \<Rightarrow> string \<Rightarrow> string \<Rightarrow> string" where
  "addressHex masterPublicKey networkID viewingPublicKey =
     padHexInt 2 AddressVersion @ masterPublicKey @ xorNetworkID networkID @ viewingPublicKey"

definition Encode :: "AddressData \<Rightarrow> string res" where
  "Encode addressData =
     andThen (wrapErr ''master public key: %w'' [] (NumberishToBigInt (adMasterPublicKey addressData))) (\<lambda>mpk.
     andThen (BigIntToHex (Some mpk) 32 False) (\<lambda>masterPublicKey.
     andThen (wrapErr ''viewing public key: %w'' [] (FormatHexToByteLength (adViewingPublicKey addressData) 32 False)) (\<lambda>viewingPublicKey.
     andThen (chainToNetworkID (adChain addressData)) (\<lambda>networkID.
     andThen (hexDecode (addressHex masterPublicKey networkID viewingPublicKey)) (\<lambda>addressBytes.
     bech32mEncode addressPrefix addressBytes)))))"

definition Decode :: "string \<Rightarrow> AddressData res" where
  "Decode value = (case bech32mDecode value of
      Inl e \<Rightarrow> if e = Errorf ''invalid checksum'' [] then Err ''invalid checksum''
        else Inl (Wrapf ''failed to decode bech32 address: %w'' [] e)
    | Inr (hrp, payload) \<Rightarrow>
        if hrp \<noteq> addressPrefix then Err ''failed to decode bech32 address: invalid address prefix''
        else let data = BytesToHex payload False in
        if length data \<noteq> 146 then Err ''failed to decode bech32 address: invalid payload length''
        else andThen (HexToBigInt (take 2 data)) (\<lambda>version.
        if version \<noteq> AddressVersion then Err ''failed to decode bech32 address: incorrect address version''
        else andThen (networkIDToChain (xorNetworkID (take 16 (drop 66 data)))) (\<lambda>chain.
        andThen (HexToBigInt (take 64 (drop 2 data))) (\<lambda>mpk.
        Inr \<lparr>adMasterPublicKey = decimal mpk, adViewingPublicKey = drop 82 data, adChain = chain, adVersion = version\<rparr>))))"

section \<open>The checksum is linear\<close>

text \<open>One step of the code's loop, with its five conditional exclusive-ors written as a sum.\<close>

definition pick :: "bool \<Rightarrow> int \<Rightarrow> int" where
  "pick b g = (if b then g else 0)"

lemma pick_xor: "pick (b \<noteq> c) g = pick b g XOR pick c g"
  by (simp add: pick_def)

lemma take_bit_pick: "take_bit n (pick b g) = pick b (take_bit n g)"
  by (simp add: pick_def)

lemma and_1_bit: "drop_bit i (v :: int) AND 1 = 1 \<longleftrightarrow> bit v i"
  by (simp add: bit_iff_and_drop_bit_eq_1)

lemma pick_if: "(if b then v XOR g else v) = v XOR pick b g"
  by (simp add: pick_def)

lemma upt_5: "[0..<5] = [0, Suc 0, 2, 3, 4]"
  by (simp add: upt_rec)

lemma polymodStep_sum:
  "polymodStep chk v = push_bit 5 (take_bit 25 chk) XOR uint v XOR
     pick (bit chk 25) 0x3b6a57b2 XOR pick (bit chk 26) 0x26508e6d XOR pick (bit chk 27) 0x1ea119fa XOR
     pick (bit chk 28) 0x3d4233dd XOR pick (bit chk 29) 0x2a1462b3"
proof -
  have mask: "chk AND 0x1ffffff = take_bit 25 chk"
    by (simp add: take_bit_eq_mask mask_eq_exp_minus_1)
  show ?thesis
    unfolding polymodStep_def Let_def upt_5 foldl.simps and_1_bit pick_if mask bit_drop_bit_eq generator_def
    by (simp add: xor.assoc)
qed

lemma polymodStep_xor: "polymodStep (a XOR b) (v XOR w) = polymodStep a v XOR polymodStep b w"
  unfolding polymodStep_sum unsigned_xor_eq bit_xor_iff pick_xor take_bit_xor push_bit_xor
  by (simp only: xor.assoc xor.left_commute xor.commute)

lemma foldl_polymodStep_xor:
  "foldl polymodStep (a XOR b) cs = foldl polymodStep a (replicate (length cs) 0) XOR foldl polymodStep b cs"
proof (induction cs arbitrary: a b)
  case (Cons c cs)
  have "polymodStep (a XOR b) c = polymodStep a 0 XOR polymodStep b c"
    using polymodStep_xor [of a b 0 c] by simp
  then show ?case
    by (simp add: Cons.IH)
qed simp

lemma polymodStep_bounded: "take_bit 30 (polymodStep chk v) = polymodStep chk v"
proof -
  have push: "take_bit 30 (push_bit 5 (take_bit 25 chk)) = push_bit 5 (take_bit 25 chk)"
    by (simp add: take_bit_push_bit)
  have v: "take_bit 30 (uint v) = uint v"
    by (rule take_bit_int_eq_self) (use uint_lt2p [of v] in auto)
  show ?thesis
    unfolding polymodStep_sum take_bit_xor push v take_bit_pick by simp
qed

lemma polymod_bounded: "take_bit 30 (polymod vs) = polymod vs"
proof (cases vs rule: rev_cases)
  case Nil
  then show ?thesis by (simp add: polymod_def)
next
  case (snoc ws w)
  then show ?thesis by (simp add: polymod_def polymodStep_bounded)
qed

text \<open>Feeding the six digits of a 30-bit number to an empty register gives back that number.\<close>

lemma polymodStep_digit:
  assumes "take_bit 30 m = m"
  shows "polymodStep (drop_bit (n + 5) m) (word_of_int (drop_bit n m AND 31)) = drop_bit n m"
proof -
  have high: "\<not> bit (m :: int) i" if "30 \<le> i" for i
    using that assms(1) by (metis bit_take_bit_iff not_le)
  have digit: "uint (word_of_int (drop_bit n m AND 31) :: byte) = take_bit 5 (drop_bit n m)"
    by (simp add: take_bit_eq_mask mask_eq_exp_minus_1 uint_word_of_int "and.assoc" flip: take_bit_eq_mod)
  show ?thesis
    unfolding polymodStep_sum digit
    by (rule bit_eqI)
      (auto simp: high pick_def bit_xor_iff bit_push_bit_iff bit_take_bit_iff bit_drop_bit_eq ac_simps)
qed

text \<open>The register after the checksum's own six words.\<close>

definition checksumWords :: "int \<Rightarrow> byte list" where
  "checksumWords m = map (\<lambda>i. word_of_int (drop_bit (5 * (5 - i)) m AND 31)) [0..<6]"

lemma upt_6: "[0..<6] = [0, Suc 0, 2, 3, 4, 5]"
  by (simp add: upt_rec)

lemma foldl_checksumWords:
  assumes "take_bit 30 m = m"
  shows "foldl polymodStep 0 (checksumWords m) = m"
proof -
  have start: "drop_bit 30 m = 0"
    using drop_bit_take_bit [of 30 30 m] by (simp add: assms)
  note step = polymodStep_digit [OF assms]
  have steps: "polymodStep 0 (word_of_int (drop_bit 25 m AND 31)) = drop_bit 25 m"
      "polymodStep (drop_bit 25 m) (word_of_int (drop_bit 20 m AND 31)) = drop_bit 20 m"
      "polymodStep (drop_bit 20 m) (word_of_int (drop_bit 15 m AND 31)) = drop_bit 15 m"
      "polymodStep (drop_bit 15 m) (word_of_int (drop_bit 10 m AND 31)) = drop_bit 10 m"
      "polymodStep (drop_bit 10 m) (word_of_int (drop_bit 5 m AND 31)) = drop_bit 5 m"
      "polymodStep (drop_bit 5 m) (word_of_int (m AND 31)) = m"
    using step [of 25] step [of 20] step [of 15] step [of 10] step [of 5] step [of 0] start by simp_all
  show ?thesis
    unfolding checksumWords_def upt_6 by (simp add: steps)
qed

lemma verify_createChecksum: "verifyChecksum hrp (ws @ createChecksum hrp ws)"
proof -
  define m where "m = polymod (hrpExpand hrp @ ws @ [0, 0, 0, 0, 0, 0]) XOR bech32mChecksumConstant"
  have small: "take_bit 30 bech32mChecksumConstant = bech32mChecksumConstant"
    by (simp add: bech32mChecksumConstant_def)
  have m: "take_bit 30 m = m"
    by (simp only: m_def take_bit_xor polymod_bounded small)
  have cs: "createChecksum hrp ws = checksumWords m"
    by (simp add: createChecksum_def checksumWords_def m_def Let_def)
  have zeros: "[0, 0, 0, 0, 0, 0] = replicate (length (checksumWords m)) (0 :: byte)"
    by (simp add: checksumWords_def upt_6)
  have "polymod (hrpExpand hrp @ ws @ checksumWords m) = polymod (hrpExpand hrp @ ws @ [0, 0, 0, 0, 0, 0]) XOR m"
    using foldl_polymodStep_xor [of "foldl polymodStep 1 (hrpExpand hrp @ ws)" 0 "checksumWords m"]
    by (simp add: polymod_def foldl_checksumWords [OF m] flip: zeros)
  then show ?thesis
    by (simp add: verifyChecksum_def cs m_def flip: xor.assoc)
qed

section \<open>The conversion of bits\<close>

text \<open>The bits of a number, the most significant of \<open>n\<close> first.\<close>

definition msb :: "nat \<Rightarrow> int \<Rightarrow> bool list" where
  "msb n v = map (bit v) (rev [0..<n])"

definition wordBits :: "nat \<Rightarrow> byte list \<Rightarrow> bool list" where
  "wordBits n ws = concat (map (\<lambda>w. msb n (uint w)) ws)"

lemma length_msb [simp]: "length (msb n v) = n"
  by (simp add: msb_def)

lemma wordBits_simps [simp]:
  "wordBits n [] = []" "wordBits n (w # ws) = msb n (uint w) @ wordBits n ws"
  "wordBits n (vs @ ws) = wordBits n vs @ wordBits n ws"
  by (simp_all add: wordBits_def)

lemma length_wordBits [simp]: "length (wordBits n ws) = n * length ws"
  by (induction ws) simp_all

lemma msb_nth: "i < n \<Longrightarrow> msb n v ! i = bit v (n - Suc i)"
  by (simp add: msb_def rev_nth)

lemma msb_append: "msb (m + n) v = msb m (drop_bit n v) @ msb n v"
  by (rule nth_equalityI) (auto simp: msb_nth nth_append bit_drop_bit_eq intro!: arg_cong [where f = "bit v"])

lemma msb_cong: "(\<And>i. i < n \<Longrightarrow> bit v i = bit w i) \<Longrightarrow> msb n v = msb n w"
  by (simp add: msb_def)

lemma msb_eq_bit: "msb n v = msb n w \<Longrightarrow> i < n \<Longrightarrow> bit v i = bit w i"
  by (auto simp: msb_def)

lemma bit_mask: "bit (2 ^ n - 1 :: int) i \<longleftrightarrow> i < n"
  by (simp add: bit_mask_iff flip: mask_eq_exp_minus_1)

lemma wordBits_inj:
  assumes "wordBits 8 vs = wordBits 8 ws"
  shows "vs = ws"
  using assms
proof (induction vs arbitrary: ws)
  case Nil
  then show ?case by (cases ws) (auto dest: arg_cong [where f = length])
next
  case (Cons v vs)
  then obtain w ws' where ws: "ws = w # ws'"
    by (cases ws) (auto dest: arg_cong [where f = length])
  have "msb 8 (uint v) = msb 8 (uint w)" "vs = ws'"
    using Cons by (simp_all add: ws)
  moreover from this have "v = w"
    by (intro bit_word_eqI) (auto dest: msb_eq_bit simp: bit_uint_iff)
  ultimately show ?case
    by (simp add: ws)
qed

text \<open>The inner loop emits the pending bits in words of \<open>t\<close> and keeps fewer than \<open>t\<close>.\<close>

lemma uint_masked:
  assumes "t \<le> 8"
  shows "uint (word_of_int (x AND (push_bit t 1 - 1)) :: byte) = take_bit t x"
proof -
  have mask: "x AND (push_bit t 1 - 1) = take_bit t x"
    by (rule bit_eqI) (simp add: bit_and_iff bit_mask bit_take_bit_iff conj_commute)
  show ?thesis
    unfolding mask using assms by (simp add: unsigned_of_int take_bit_take_bit min_def)
qed

lemma msb_take_bit [simp]: "msb t (take_bit t x) = msb t x"
  by (rule msb_cong) (simp add: bit_take_bit_iff)

lemma drainBits_bits:
  assumes "0 < t" and "t \<le> 8" and "drainBits t acc n = (rest, out)"
  shows "wordBits t out @ msb rest acc = msb n acc \<and> rest < t \<and> list_all (\<lambda>w. uint w < 2 ^ t) out"
  using assms
proof (induction t acc n arbitrary: rest out rule: drainBits.induct)
  case (1 t acc n)
  show ?case
  proof (cases "t \<le> n")
    case True
    define w :: byte where "w = word_of_int (drop_bit (n - t) acc AND (push_bit t 1 - 1))"
    obtain r os where rec: "drainBits t acc (n - t) = (r, os)"
      by fastforce
    have out: "rest = r" "out = w # os"
      using "1.prems" True rec by (auto simp: drainBits.simps [of t acc n] Let_def w_def)
    have "uint w = take_bit t (drop_bit (n - t) acc)"
      unfolding w_def by (rule uint_masked [OF "1.prems"(2)])
    moreover from this have "uint w < 2 ^ t"
      by simp
    moreover have "wordBits t os @ msb r acc = msb (n - t) acc \<and> r < t \<and> list_all (\<lambda>w. uint w < 2 ^ t) os"
      using "1.IH" [OF _ refl w_def "1.prems"(1,2) rec] "1.prems"(1) True by simp
    ultimately show ?thesis
      using msb_append [of t "n - t" acc] True by (simp add: out)
  next
    case False
    with "1.prems" show ?thesis by (simp add: drainBits.simps [of t acc n])
  qed
qed

definition pendingOK :: "nat \<Rightarrow> bool list \<Rightarrow> int \<times> nat \<times> byte list \<Rightarrow> bool" where
  "pendingOK t bs = (\<lambda>(acc, n, out). wordBits t out @ msb n acc = bs \<and> n < t \<and> list_all (\<lambda>w. uint w < 2 ^ t) out)"

lemma bit_small: "0 \<le> v \<Longrightarrow> v < 2 ^ f \<Longrightarrow> f \<le> i \<Longrightarrow> \<not> bit (v :: int) i"
  using take_bit_int_eq_self [of v f] by (metis bit_take_bit_iff not_le)

lemma convertStep_ok:
  assumes "0 < t" and "t \<le> 8" and "uint v < 2 ^ f" and "pendingOK t bs s"
  shows "\<exists>s'. convertStep f t v s = Inr s' \<and> pendingOK t (bs @ msb f (uint v)) s'"
proof -
  obtain acc n out where s: "s = (acc, n, out)"
    by (metis prod_cases3)
  define acc' where "acc' = (push_bit f acc OR uint v) AND (push_bit (f + t - 1) 1 - 1)"
  obtain r os where d: "drainBits t acc' (n + f) = (r, os)"
    by fastforce
  have high: "drop_bit f (uint v) = 0"
    using assms(3) by (simp add: drop_bit_eq_div)
  have n: "n < t" and bs: "wordBits t out @ msb n acc = bs" and out: "list_all (\<lambda>w. uint w < 2 ^ t) out"
    using assms(4) by (simp_all add: pendingOK_def s)
  have acc': "bit acc' i \<longleftrightarrow> (if i < f then bit (uint v) i else bit acc (i - f))" if "i < n + f" for i
    using that n bit_small [OF uint_ge_0 assms(3), of i]
    by (auto simp: acc'_def bit_and_iff bit_or_iff bit_mask bit_push_bit_iff)
  have "msb (n + f) acc' = msb n acc @ msb f (uint v)"
    by (rule nth_equalityI) (auto simp: msb_nth nth_append acc' intro!: arg_cong [where f = "bit acc"] arg_cong [where f = "bit (uint v)"])
  then have "pendingOK t (bs @ msb f (uint v)) (acc', r, out @ os)"
    using drainBits_bits [OF assms(1,2) d] bs out
    by (simp add: pendingOK_def)
  moreover have "convertStep f t v s = Inr (acc', r, out @ os)"
    unfolding convertStep_def s prod.case Let_def acc'_def [symmetric] by (simp add: high d)
  ultimately show ?thesis
    by blast
qed

lemma convert_all:
  assumes "0 < t" and "t \<le> 8" and "list_all (\<lambda>v. uint v < 2 ^ f) vs" and "pendingOK t bs s"
  shows "\<exists>s'. foldRes (convertStep f t) vs s = Inr s' \<and> pendingOK t (bs @ wordBits f vs) s'"
  using assms(3,4)
proof (induction vs arbitrary: bs s)
  case (Cons v vs)
  then obtain s1 where s1: "convertStep f t v s = Inr s1" "pendingOK t (bs @ msb f (uint v)) s1"
    using convertStep_ok [OF assms(1,2), of v f bs s] by auto
  with Cons.IH [OF _ s1(2)] Cons.prems show ?case
    by simp
qed simp

lemma msb_push:
  assumes "n < t" and "t \<le> 8"
  shows "msb t (push_bit (t - n) acc) = msb n acc @ replicate (t - n) False"
  by (rule nth_equalityI)
     (use assms in \<open>auto simp: msb_nth nth_append bit_push_bit_iff intro!: arg_cong [where f = "bit acc"]\<close>)

lemma convertBits_pad:
  assumes "0 < t" and "t \<le> 8" and "list_all (\<lambda>v. uint v < 2 ^ f) vs"
  shows "\<exists>ws k. convertBits vs f t True = Inr ws \<and> k < t \<and>
           wordBits t ws = wordBits f vs @ replicate k False \<and> list_all (\<lambda>w. uint w < 2 ^ t) ws"
proof -
  obtain acc n out where run: "foldRes (convertStep f t) vs (0, 0, []) = Inr (acc, n, out)"
      and ok: "pendingOK t (wordBits f vs) (acc, n, out)"
    using convert_all [OF assms, of "[]" "(0, 0, [])"] assms(1) by (auto simp: pendingOK_def msb_def)
  from ok have n: "n < t" and bits: "wordBits t out @ msb n acc = wordBits f vs"
      and out: "list_all (\<lambda>w. uint w < 2 ^ t) out"
    by (simp_all add: pendingOK_def)
  define w :: byte where "w = word_of_int (push_bit (t - n) acc AND (push_bit t 1 - 1))"
  have w: "uint w = take_bit t (push_bit (t - n) acc)"
    unfolding w_def by (rule uint_masked [OF assms(2)])
  have res: "convertBits vs f t True = Inr (if n > 0 then out @ [w] else out)"
    unfolding convertBits_def run andThen_simps prod.case Let_def w_def by simp
  show ?thesis
  proof (cases "n = 0")
    case True
    then show ?thesis
      using res bits out assms(1) by (intro exI [of _ out] exI [of _ 0]) (simp add: msb_def)
  next
    case False
    then show ?thesis
      using res bits out n w msb_push [OF n assms(2)]
      by (intro exI [of _ "out @ [w]"] exI [of _ "t - n"]) (simp flip: bits)
  qed
qed

text \<open>Unpadding undoes padding.\<close>

lemma msb_zero: "msb n v = replicate n False \<Longrightarrow> i < n \<Longrightarrow> \<not> bit v i"
  using msb_nth [of "n - Suc i" n v] by simp

lemma replicate_suffix: "xs @ ys = zs @ replicate k c \<Longrightarrow> length ys = k \<Longrightarrow> xs = zs \<and> ys = replicate k c"
  by (simp add: append_eq_append_conv)

lemma convertBits_unpad:
  assumes "list_all (\<lambda>w. uint w < 2 ^ 5) ws" and "wordBits 5 ws = wordBits 8 bs @ replicate k False" and "k < 5"
  shows "convertBits ws 5 8 False = Inr bs"
proof -
  obtain acc n out where run: "foldRes (convertStep 5 8) ws (0, 0, []) = Inr (acc, n, out)"
      and ok: "pendingOK 8 (wordBits 5 ws) (acc, n, out)"
    using convert_all [of 8 5 ws "[]" "(0, 0, [])"] assms(1) by (auto simp: pendingOK_def msb_def)
  from ok have n: "n < 8" and bits: "wordBits 8 out @ msb n acc = wordBits 8 bs @ replicate k False"
    by (simp_all add: pendingOK_def assms(2))
  have "8 * length out + n = 8 * length bs + k"
    using arg_cong [OF bits, of length] by simp
  then have "n = k" and "length out = length bs"
    using n assms(3) by presburger+
  then have split: "wordBits 8 out = wordBits 8 bs" "msb n acc = replicate n False"
    using replicate_suffix [OF bits] by simp_all
  have "msb 8 (push_bit (8 - n) acc) = replicate 8 False"
    using msb_push [OF n, of acc] n by (simp add: split(2) flip: replicate_add)
  then have "push_bit (8 - n) acc AND (push_bit 8 1 - 1) = 0"
    by (intro bit_eqI) (auto simp: bit_and_iff bit_mask [of 8, simplified] dest: msb_zero)
  with \<open>n = k\<close> assms(3) wordBits_inj [OF split(1)] show ?thesis
    unfolding convertBits_def run andThen_simps prod.case Let_def by simp
qed

lemma convertBits_roundtrip:
  obtains ws where "convertBits bs 8 5 True = Inr ws" "list_all (\<lambda>w. uint w < 2 ^ 5) ws"
    "length ws = (8 * length bs + 4) div 5" "convertBits ws 5 8 False = Inr bs"
proof -
  have all: "list_all (\<lambda>w :: byte. uint w < 2 ^ 8) bs"
    using uint_lt2p [where 'a = 8] by (simp add: list_all_iff)
  have "\<exists>ws k. convertBits bs 8 5 True = Inr ws \<and> k < 5 \<and> wordBits 5 ws = wordBits 8 bs @ replicate k False \<and>
      list_all (\<lambda>w. uint w < 2 ^ 5) ws"
    by (rule convertBits_pad [OF _ _ all]) simp_all
  then obtain ws k where ws: "convertBits bs 8 5 True = Inr ws" "k < 5"
      "wordBits 5 ws = wordBits 8 bs @ replicate k False" "list_all (\<lambda>w. uint w < 2 ^ 5) ws"
    by (elim exE conjE) (rule that)
  have "5 * length ws = 8 * length bs + k"
    using arg_cong [OF ws(3), of length] by simp
  then have "length ws = (8 * length bs + 4) div 5"
    using ws(2) by (intro div_nat_eqI [symmetric]) simp_all
  with ws convertBits_unpad [OF ws(4,3,2)] that show ?thesis
    by blast
qed

section \<open>Texts\<close>

lemma length_charset [simp]: "length bech32mCharset = 32"
  by (simp add: bech32mCharset_def)

lemma charset_rev: "w < 32 \<Longrightarrow> bech32mCharsetRev (bech32mCharset ! w) = Some w"
proof -
  have "list_all (\<lambda>w. bech32mCharsetRev (bech32mCharset ! w) = Some w) [0..<32]"
    by code_simp
  then show "w < 32 \<Longrightarrow> ?thesis"
    by (simp add: list_all_iff)
qed

lemma charset_chars: "w < 32 \<Longrightarrow> lowerChar (bech32mCharset ! w) = bech32mCharset ! w \<and> bech32mCharset ! w \<noteq> CHR ''1''"
proof -
  have "list_all (\<lambda>c. lowerChar c = c \<and> c \<noteq> CHR ''1'') bech32mCharset"
    by code_simp
  then show "w < 32 \<Longrightarrow> ?thesis"
    by (simp add: list_all_length)
qed

lemma lastIndexByte_append: "c \<notin> set cs \<Longrightarrow> lastIndexByte (s @ c # cs) c = int (length s)"
proof -
  assume cs: "c \<notin> set cs"
  have "find (\<lambda>i. (s @ c # cs) ! i = c) (rev [0..<length (s @ c # cs)]) = Some (length s)"
    unfolding find_Some_iff using cs
    by (intro exI [of _ "length cs"]) (auto simp: rev_nth nth_append nth_Cons' simp del: upt_Suc)
  then show ?thesis
    by (simp add: lastIndexByte_def del: upt_Suc)
qed

definition letter :: "byte \<Rightarrow> char" where
  "letter w = bech32mCharset ! unat w"

lemma small_word: "uint (w :: byte) < 32 \<longleftrightarrow> unat w < 32"
proof -
  have "uint w = int (unat w)" by simp
  then show ?thesis by linarith
qed

lemma createChecksum_small: "list_all (\<lambda>w. uint w < 2 ^ 5) (createChecksum hrp ws)"
proof -
  have "uint (word_of_int (x AND 31) :: byte) < 2 ^ 5" for x
    using uint_masked [of 5 x] take_bit_int_less_exp [of 5 x] by simp
  then show ?thesis
    by (simp add: createChecksum_def Let_def list_all_iff)
qed

lemma length_createChecksum [simp]: "length (createChecksum hrp ws) = 6"
  by (simp add: createChecksum_def Let_def)

lemma bech32m_roundtrip:
  assumes "length hrp + 7 + (8 * length bs + 4) div 5 = AddressLengthLimit"
    and "hrp \<noteq> []" and "ToLower hrp = hrp"
  obtains out where "bech32mEncode hrp bs = Inr out" "bech32mDecode out = Inr (hrp, bs)"
proof -
  obtain ws where ws: "convertBits bs 8 5 True = Inr ws" "list_all (\<lambda>w. uint w < 2 ^ 5) ws"
      "length ws = (8 * length bs + 4) div 5" "convertBits ws 5 8 False = Inr bs"
    by (rule convertBits_roundtrip)
  define full where "full = ws @ createChecksum hrp ws"
  have small: "unat w < 32" if "w \<in> set full" for w
    using that ws(2) createChecksum_small [of hrp ws] by (auto simp: full_def list_all_iff small_word)
  have letters: "mapRes (\<lambda>word. if unat word \<ge> length bech32mCharset then Err ''invalid bech32 word''
      else Inr (bech32mCharset ! unat word)) full = Inr (map letter full)"
    using small by (intro mapRes_Inr_map) (auto simp: letter_def not_le)
  have words: "mapRes (\<lambda>r. case bech32mCharsetRev r of None \<Rightarrow> Err ''invalid bech32 character''
      | Some v \<Rightarrow> Inr (word_of_nat v :: byte)) (map letter full) = Inr full"
    using small by (auto simp: mapRes_list_all2 list_all2_map1 letter_def charset_rev intro!: list.rel_refl_strong)
  have no1: "CHR ''1'' \<notin> set (map letter full)" and low: "ToLower (map letter full) = map letter full"
    using small charset_chars by (force simp: letter_def, simp add: letter_def ToLower_def)
  define out where "out = hrp @ ''1'' @ map letter full"
  have len: "length out = AddressLengthLimit"
    using assms(1) by (simp add: out_def full_def ws(3))
  have "bech32mEncode hrp bs = Inr out"
    using len unfolding bech32mEncode_def ws(1) andThen_simps Let_def full_def [symmetric] letters out_def [symmetric] by simp
  moreover have "bech32mDecode out = Inr (hrp, bs)"
  proof -
    have sep: "lastIndexByte out (CHR ''1'') = int (length hrp)"
      using lastIndexByte_append [OF no1, of hrp] by (simp add: out_def)
    have lower: "out = ToLower out"
      using assms(3) low by (simp add: out_def ToLower_def lowerChar_def)
    have parts: "take (length hrp) out = hrp" "drop (Suc (length hrp)) out = map letter full"
      by (simp_all add: out_def)
    have cut: "take (length full - 6) full = ws"
      by (simp add: full_def)
    have sum: "verifyChecksum hrp full"
      unfolding full_def by (rule verify_createChecksum)
    have "1 \<le> length hrp" "length hrp + 7 \<le> length out"
      using assms(2) by (simp_all add: out_def full_def Suc_le_eq)
    with lower assms(2) show ?thesis
      unfolding bech32mDecode_def sep Let_def by (simp add: parts words sum cut ws(4) flip: Suc_eq_plus1)
  qed
  ultimately show ?thesis
    by (rule that)
qed

section \<open>The fields of an address\<close>

lemma padHexInt_ok:
  assumes "0 \<le> v" and "v < 16 ^ n" and "0 < n"
  shows "length (padHexInt n v) = n" and "lowerHex (padHexInt n v)" and "HexToBigInt (padHexInt n v) = Inr v"
proof -
  have "length (intText 16 v) \<le> n"
    using assms length_intText [of v "n - 1"] by (cases n) auto
  then have eq: "padHexInt n v = fitDigits n (intText 16 v)"
    by (auto simp: padHexInt_def fitDigits_def Let_def Repeat0_def)
  show len: "length (padHexInt n v) = n"
    by (simp add: eq)
  show low: "lowerHex (padHexInt n v)"
    unfolding lowerHex_ToLower eq ToLower_fitDigits ToLower_intText [OF assms(1)]
    using hexString_fitDigits [OF hexString_intText [OF assms(1)]] by blast
  have "padHexInt n v \<noteq> []"
    using len assms(3) by auto
  then have "HexToBigInt (padHexInt n v) = Inr (the (digitsVal 16 0 (padHexInt n v)))"
    using low by (intro HexToBigInt_hex) blast
  then show "HexToBigInt (padHexInt n v) = Inr v"
    unfolding eq using digitsVal_fitDigits [OF digitsVal_intText [of 16 v], of n] assms by simp
qed

definition maskBytes :: "byte list \<Rightarrow> byte list" where
  "maskBytes bs = map (\<lambda>(i, b). if i < length ''railgun'' then b XOR word_of_int (of_char (''railgun'' ! i)) else b)
     (zip [0..<length bs] bs)"

lemma maskBytes_involution: "maskBytes (maskBytes bs) = bs"
  by (rule nth_equalityI) (auto simp: maskBytes_def xor.assoc)

lemma xorNetworkID_mask: "xorNetworkID (hexEncode bs) = hexEncode (maskBytes bs)"
  unfolding xorNetworkID_def maskBytes_def by simp

lemma xorNetworkID_hex:
  assumes "lowerHex s" and "even (length s)"
  shows "xorNetworkID (xorNetworkID s) = s" and "lowerHex (xorNetworkID s)" and "length (xorNetworkID s) = length s"
proof -
  from assms obtain bs where bs: "hexDecode s = Inr bs"
    using hexDecode_total [of s] by blast
  have s: "hexEncode bs = s"
    using hexEncode_hexDecode [OF bs] assms(1) by (simp only: lowerHex_ToLower)
  have x: "xorNetworkID s = hexEncode (maskBytes bs)"
    using xorNetworkID_mask [of bs] by (simp add: s)
  show "xorNetworkID (xorNetworkID s) = s"
    by (simp add: x xorNetworkID_mask maskBytes_involution s)
  show "lowerHex (xorNetworkID s)"
    unfolding x by (rule lowerHex_hexEncode)
  show "length (xorNetworkID s) = length s"
    unfolding x using arg_cong [OF s, of length] by (simp add: maskBytes_def)
qed

lemma chain_id_text:
  assumes "chainToNetworkID c = Inr nid"
  shows "length nid = 16" and "lowerHex nid"
    and "networkIDToChain nid = Inr (if c = Some \<lparr>acType = 255, acID = 2 ^ 56 - 1\<rparr> then None else c)"
proof -
  have all: "length allChainsNetworkID = 16" "lowerHex allChainsNetworkID"
      "networkIDToChain allChainsNetworkID = Inr None"
    by code_simp+
  have "length nid = 16 \<and> lowerHex nid \<and>
    networkIDToChain nid = Inr (if c = Some \<lparr>acType = 255, acID = 2 ^ 56 - 1\<rparr> then None else c)"
  proof (cases c)
    case None
    with assms all show ?thesis by (simp add: chainToNetworkID_def)
  next
    case (Some ch)
    with assms have range: "0 \<le> acType ch" "acType ch < 16 ^ 2" "0 \<le> acID ch" "acID ch < 16 ^ 14"
        and nid: "nid = padHexInt 2 (acType ch) @ padHexInt 14 (acID ch)"
      by (auto simp: chainToNetworkID_def split: if_splits)
    note ty = padHexInt_ok [OF range(1,2)] and id = padHexInt_ok [OF range(3,4)]
    have two: "HexToBigInt (take 2 allChainsNetworkID) = Inr 255" "HexToBigInt (drop 2 allChainsNetworkID) = Inr (2 ^ 56 - 1)"
      by code_simp+
    have parts: "take 2 nid = padHexInt 2 (acType ch)" "drop 2 nid = padHexInt 14 (acID ch)"
      using ty(1) by (simp_all add: nid)
    have shape: "length nid = 16" "lowerHex nid"
      using ty(1,2) id(1,2) by (auto simp: nid)
    have "nid = allChainsNetworkID \<longleftrightarrow> ch = \<lparr>acType = 255, acID = 2 ^ 56 - 1\<rparr>"
    proof
      assume "nid = allChainsNetworkID"
      with two parts ty(3) id(3) show "ch = \<lparr>acType = 255, acID = 2 ^ 56 - 1\<rparr>"
        by (cases ch) simp
    next
      assume "ch = \<lparr>acType = 255, acID = 2 ^ 56 - 1\<rparr>"
      moreover have "padHexInt 2 255 @ padHexInt 14 (2 ^ 56 - 1) = allChainsNetworkID"
        by code_simp
      ultimately show "nid = allChainsNetworkID"
        by (simp add: nid)
    qed
    with shape parts ty(3) id(3) Some all(3) show ?thesis
      by (auto simp: networkIDToChain_def)
  qed
  then show "length nid = 16" "lowerHex nid"
      "networkIDToChain nid = Inr (if c = Some \<lparr>acType = 255, acID = 2 ^ 56 - 1\<rparr> then None else c)"
    by blast+
qed

section \<open>Encoding and decoding\<close>

lemma lower_vk:
  assumes "FormatHexToByteLength v 32 False = Inr vk"
  shows "length vk = 64" and "ToLower vk = vk"
proof -
  have "ToLower (ToLower s) = ToLower s" for s
    by simp
  moreover have "ToLower ''0'' = ''0''"
    by code_simp
  ultimately show "length vk = 64" "ToLower vk = vk"
    using assms by (auto simp: FormatHexToByteLength_def Let_def ToLower_fitDigits split: option.splits if_splits)
qed

lemma encode_fields:
  assumes "Encode d = Inr a"
  obtains m vk nid bs where "NumberishToBigInt (adMasterPublicKey d) = Inr m" "0 \<le> m"
    "FormatHexToByteLength (adViewingPublicKey d) 32 False = Inr vk" "chainToNetworkID (adChain d) = Inr nid"
    "hexEncode bs = ''01'' @ hexWidth 32 m @ xorNetworkID nid @ vk" "bech32mEncode addressPrefix bs = Inr a"
proof -
  from assms obtain m mk vk nid bs where e: "NumberishToBigInt (adMasterPublicKey d) = Inr m"
      "BigIntToHex (Some m) 32 False = Inr mk"
      "FormatHexToByteLength (adViewingPublicKey d) 32 False = Inr vk" "chainToNetworkID (adChain d) = Inr nid"
      "hexDecode (addressHex mk nid vk) = Inr bs" "bech32mEncode addressPrefix bs = Inr a"
    unfolding Encode_def res_elims by blast
  then have m: "0 \<le> m" and mk: "mk = hexWidth 32 m"
    using BigIntToHex_Some [of m 32 False] by (auto simp: BigIntToHex_def split: if_splits)
  note nid = chain_id_text [OF e(4)]
  have ver: "padHexInt 2 AddressVersion = ''01''" "ToLower ''01'' = ''01''"
    by code_simp+
  have "ToLower (addressHex mk nid vk) = addressHex mk nid vk"
    using lower_vk(2) [OF e(3)] xorNetworkID_hex(2) [OF nid(2)] nid(1) ver(2)
      ToLower_fitDigits [of 64 "intText 16 m"] ToLower_intText [OF m]
    unfolding addressHex_def ver(1) mk hexWidth_def lowerHex_ToLower ToLower_append by simp
  then have "hexEncode bs = ''01'' @ hexWidth 32 m @ xorNetworkID nid @ vk"
    using hexEncode_hexDecode [OF e(5)] by (simp add: addressHex_def ver(1) mk)
  with e m that show ?thesis
    by blast
qed

lemma decode_encoded:
  assumes "0 \<le> m" and "length vk = 64" and "chainToNetworkID c = Inr nid"
    and "hexEncode bs = ''01'' @ hexWidth 32 m @ xorNetworkID nid @ vk" and "bech32mEncode addressPrefix bs = Inr a"
  shows "length a = 127 \<and> Decode a = Inr \<lparr>adMasterPublicKey = decimal (m mod 2 ^ 256), adViewingPublicKey = vk,
    adChain = (if c = Some \<lparr>acType = 255, acID = 2 ^ 56 - 1\<rparr> then None else c), adVersion = 1\<rparr>"
proof -
  note nid = chain_id_text [OF assms(3)]
  note x = xorNetworkID_hex [OF nid(2)]
  define data where "data = ''01'' @ hexWidth 32 m @ xorNetworkID nid @ vk"
  have lx: "length (xorNetworkID nid) = 16"
    using x(3) nid(1) by simp
  have len: "length data = 146"
    by (simp add: data_def lx assms(2))
  have parts: "take 2 data = ''01''" "take 64 (drop 2 data) = hexWidth 32 m"
      "take 16 (drop 66 data) = xorNetworkID nid" "drop 82 data = vk"
    using lx by (simp_all add: data_def)
  have bytes: "length bs = 73"
    using arg_cong [OF assms(4), of length] len by (simp add: data_def)
  have pre: "ToLower addressPrefix = addressPrefix"
    by code_simp
  have fits: "length addressPrefix + 7 + (8 * length bs + 4) div 5 = AddressLengthLimit"
    unfolding bytes by (simp add: addressPrefix_def AddressLengthLimit_def)
  have "addressPrefix \<noteq> []"
    by (simp add: addressPrefix_def)
  with fits pre obtain out where out: "bech32mEncode addressPrefix bs = Inr out" "bech32mDecode out = Inr (addressPrefix, bs)"
    by (metis bech32m_roundtrip)
  then have a: "bech32mDecode a = Inr (addressPrefix, bs)" "length a = 127"
    using assms(5) by (auto simp: bech32mEncode_def AddressLengthLimit_def Let_def res_elims)
  have ver: "HexToBigInt ''01'' = Inr AddressVersion"
    by code_simp
  have key: "HexToBigInt (hexWidth 32 m) = Inr (m mod 2 ^ 256)"
    using HexToBigInt_hexWidth [OF assms(1), of 32] by simp
  have net: "networkIDToChain (xorNetworkID (xorNetworkID nid)) =
      Inr (if c = Some \<lparr>acType = 255, acID = 2 ^ 56 - 1\<rparr> then None else c)"
    using x(1) nid(1,3) by simp
  have "Decode a = Inr \<lparr>adMasterPublicKey = decimal (m mod 2 ^ 256), adViewingPublicKey = vk,
    adChain = (if c = Some \<lparr>acType = 255, acID = 2 ^ 56 - 1\<rparr> then None else c), adVersion = AddressVersion\<rparr>"
    unfolding Decode_def a(1) sum.case prod.case Let_def BytesToHex_hexEncode assms(4) data_def [symmetric] parts ver key net
    by (simp add: len)
  then show ?thesis
    by (simp add: a(2) AddressVersion_def)
qed

text \<open>C18: an address that \<^verbatim>\<open>Encode\<close> returns is 127 characters long, and \<^verbatim>\<open>Decode\<close> accepts it, its
  checksum included, and reads back the master public key modulo \<open>2 ^ 256\<close> (a wider key is cut without an
  error), the viewing key in canonical form, the chain and the version. One chain is not read back:
  type 255 with the id \<open>2 ^ 56 - 1\<close> has the network id of all chains.
\<close>

theorem address_roundtrip:
  assumes "Encode d = Inr a"
  shows "\<exists>m vk. NumberishToBigInt (adMasterPublicKey d) = Inr m \<and>
    FormatHexToByteLength (adViewingPublicKey d) 32 False = Inr vk \<and> length a = 127 \<and>
    Decode a = Inr \<lparr>adMasterPublicKey = decimal (m mod 2 ^ 256), adViewingPublicKey = vk,
      adChain = (if adChain d = Some \<lparr>acType = 255, acID = 2 ^ 56 - 1\<rparr> then None else adChain d), adVersion = 1\<rparr>"
proof -
  obtain m vk nid bs where e: "NumberishToBigInt (adMasterPublicKey d) = Inr m" "0 \<le> m"
    "FormatHexToByteLength (adViewingPublicKey d) 32 False = Inr vk" "chainToNetworkID (adChain d) = Inr nid"
    "hexEncode bs = ''01'' @ hexWidth 32 m @ xorNetworkID nid @ vk" "bech32mEncode addressPrefix bs = Inr a"
    using assms by (rule encode_fields)
  show ?thesis
    using decode_encoded [OF e(2) lower_vk(1) [OF e(3)] e(4-6)] e(1,3) by blast
qed

definition sampleAddressData :: AddressData where
  "sampleAddressData = \<lparr>adMasterPublicKey = ''0x1122'', adViewingPublicKey = ''aa'', adChain = Some \<lparr>acType = 0, acID = 1\<rparr>, adVersion = 1\<rparr>"

theorem address_roundtrip_witness:
  "\<exists>a vk. Encode sampleAddressData = Inr a \<and> length a = 127 \<and>
     Decode a = Inr \<lparr>adMasterPublicKey = ''4386'', adViewingPublicKey = vk, adChain = Some \<lparr>acType = 0, acID = 1\<rparr>, adVersion = 1\<rparr>"
proof -
  have "case Encode sampleAddressData of Inl _ \<Rightarrow> False | Inr _ \<Rightarrow> True"
    by code_simp
  then obtain a where a: "Encode sampleAddressData = Inr a"
    by (auto split: sum.splits)
  have num: "NumberishToBigInt (adMasterPublicKey sampleAddressData) = Inr 4386" "decimal 4386 = ''4386''"
      "adChain sampleAddressData = Some \<lparr>acType = 0, acID = 1\<rparr>"
    by code_simp+
  show ?thesis
    using address_roundtrip [OF a] a by (auto simp: num)
qed

end
