(* ===== verification/FeeCache.thy ===== *)
theory FeeCache
  imports Complex_Main Address Chain
begin

text \<open>
  Models the fee quotes of the broadcaster client (\<^verbatim>\<open>pkg/broadcaster\<close>: \<^verbatim>\<open>util.go\<close>,
  \<^verbatim>\<open>amount.go\<close>, \<^verbatim>\<open>types.go\<close>, \<^verbatim>\<open>address_filter.go\<close>, \<^verbatim>\<open>networks.go\<close>,
  \<^verbatim>\<open>fee_cache.go\<close>, \<^verbatim>\<open>search.go\<close> and \<^verbatim>\<open>status.go\<close>): the cache of quotes, the
  search for a broadcaster and the connection status. The clock is the argument
  \<open>now\<close>, read once per call. The reliability is a rational number, which is all that
  a float decoded from JSON can be. The variance percentages are the integers
  \<^verbatim>\<open>int64(pct*100)\<close> that the code computes from its constants.
\<close>

section \<open>constants.go, types.go, config.go: the fields the search uses\<close>

definition DefaultBroadcasterIdentifier :: string where
  "DefaultBroadcasterIdentifier = ''default''"

definition feeExpirationMinimumMS :: int where
  "feeExpirationMinimumMS = 40000"

definition defaultRandomFeeThresholdPct :: int where
  "defaultRandomFeeThresholdPct = 5"

datatype ConnectionStatus = StatusError | StatusSearching | StatusConnected | StatusDisconnected | StatusAllUnavailable

record CachedTokenFee =
  FeePerUnitGas :: string
  Expiration :: int
  FeesID :: string
  AvailableWallets :: int
  RelayAdapt :: string
  RelayAdapt7702 :: string
  Reliability :: rat

record SelectedBroadcaster =
  sbRailgunAddress :: string
  sbTokenAddress :: string
  sbTokenFee :: CachedTokenFee

record BroadcasterConfig =
  TrustedFeeSigner :: "string list"
  FeeExpirationTimeoutMS :: int
  HistoricalLookBackMS :: int
  AuthorizedFeeVarianceLowerPct :: int
  AuthorizedFeeVarianceUpperPct :: int
  MinimumBroadcasterVersion :: string
  MaximumBroadcasterVersion :: string
  RelayAdaptHistory :: "(string, string list) gomap"
  IsDev :: bool

definition chainKey :: "int \<Rightarrow> uint64 \<Rightarrow> string" where
  "chainKey chainType chainID = decimal chainType @ '':'' @ decimal (uint chainID)"

definition IsTrustedSigner :: "BroadcasterConfig \<Rightarrow> string \<Rightarrow> bool" where
  "IsTrustedSigner c railgunAddress \<longleftrightarrow> (\<exists>trusted \<in> set (TrustedFeeSigner c). ToLower trusted = ToLower railgunAddress)"

definition HasTrustedSigner :: "BroadcasterConfig \<Rightarrow> bool" where
  "HasTrustedSigner c \<longleftrightarrow> length (TrustedFeeSigner c) > 0"

definition RelayAdaptHistoryFor :: "BroadcasterConfig \<Rightarrow> int \<Rightarrow> uint64 \<Rightarrow> string list" where
  "RelayAdaptHistoryFor c chainType chainID =
     (case gget (RelayAdaptHistory c) (chainKey chainType chainID) of None \<Rightarrow> [] | Some h \<Rightarrow> h)"

section \<open>networks.go\<close>

definition DefaultRelayAdaptHistory :: "(string, string list) gomap" where
  "DefaultRelayAdaptHistory =
     [(chainKey 0 1,
       [''0x22af4EDBeA3De885dDa8f0a0653E6209e44e5B84'',
        ''0xc3f2C8F9d5F0705De706b1302B7a039e1e11aC88'',
        ''0x4025ee6512DBbda97049Bcf5AA5D38C54aF6bE8a'',
        ''0xAc9f360Ae85469B27aEDdEaFC579Ef2d052aD405'']),
      (chainKey 0 56,
       [''0x20d868C7F1Eb706C46641ADD2f849c5DBf4dB158'',
        ''0x25f795A8eC8aF7904aa403fF2Cc7205ce683BF52'',
        ''0x741936fb83DDf324636D3048b3E6bC800B8D9e12'',
        ''0xF82d00fC51F730F42A00F85E74895a2849ffF2Dd'']),
      (chainKey 0 137,
       [''0x30D8AD0339e2CF160620589f2DBa1765126A5fDC'',
        ''0x969eE9AC1E0B5F5Dd781f63A168C52b73062ff86'',
        ''0xc7FfA542736321A3dd69246d73987566a5486968'',
        ''0xF82d00fC51F730F42A00F85E74895a2849ffF2Dd''])]"

definition relayAdaptAllowed :: "string list \<Rightarrow> string \<Rightarrow> bool" where
  "relayAdaptAllowed history relayAdapt =
     (let bare = (\<lambda>s. ToLower (TrimPrefix (TrimPrefix s ''0x'') ''0X''))
      in if relayAdapt = [] then False else \<exists>addr \<in> set history. bare addr = bare relayAdapt)"

section \<open>util.go\<close>

text \<open>\<^verbatim>\<open>strings.Split(s, ".")\<close> and \<^verbatim>\<open>strconv.Atoi\<close>.\<close>

fun splitOn :: "char \<Rightarrow> string \<Rightarrow> string list" where
  "splitOn c [] = [[]]"
| "splitOn c (x # xs) = (if x = c then [] # splitOn c xs
     else (case splitOn c xs of p # ps \<Rightarrow> (x # p) # ps | [] \<Rightarrow> [[x]]))"

definition Atoi :: "string \<Rightarrow> int option" where
  "Atoi s = (case SetString s 10 of None \<Rightarrow> None | Some n \<Rightarrow> if - (2 ^ 63) \<le> n \<and> n < 2 ^ 63 then Some n else None)"

definition parseVersionParts :: "string \<Rightarrow> int list" where
  "parseVersionParts v =
     (let v = TrimSpace v; v = (if v = [] then ''0.0.0'' else v)
      in map (\<lambda>p. case Atoi (TrimSpace p) of None \<Rightarrow> 0 | Some n \<Rightarrow> n) (splitOn (CHR ''.'') v))"

fun compareParts :: "int list \<Rightarrow> int list \<Rightarrow> int" where
  "compareParts [] [] = 0"
| "compareParts ap bp =
     (let av = (case ap of [] \<Rightarrow> 0 | a # _ \<Rightarrow> a); bv = (case bp of [] \<Rightarrow> 0 | b # _ \<Rightarrow> b)
      in if av < bv then - 1 else if av > bv then 1 else compareParts (tl ap) (tl bp))"

definition versionCompare :: "string \<Rightarrow> string \<Rightarrow> int" where
  "versionCompare a b = compareParts (parseVersionParts a) (parseVersionParts b)"

definition invalidBroadcasterVersion :: "string \<Rightarrow> string \<Rightarrow> string \<Rightarrow> bool" where
  "invalidBroadcasterVersion version minVersion maxVersion =
     (let version = (if version = [] then ''0.0.0'' else version)
      in versionCompare version minVersion < 0 \<or> versionCompare version maxVersion > 0)"

definition cachedFeeExpired :: "int \<Rightarrow> int \<Rightarrow> bool" where
  "cachedFeeExpired feeExpiration nowMS \<longleftrightarrow> feeExpiration < goInt (nowMS + feeExpirationMinimumMS)"

definition shortenAddress :: "string \<Rightarrow> string" where
  "shortenAddress address =
     (if length address < 13 then address else take 8 address @ ''...'' @ drop (length address - 4) address)"

section \<open>amount.go\<close>

definition newAmount :: "string \<Rightarrow> int option" where
  "newAmount v = SetString v 10"

definition mulPct :: "int \<Rightarrow> int \<Rightarrow> int" where
  "mulPct amount pct = (amount * pct) div 100"

section \<open>address\_filter.go\<close>

text \<open>The two sets; a nil set is the empty one.\<close>

record AddressFilter =
  allowlist :: "string list"
  blocklist :: "string list"

definition NewAddressFilter :: AddressFilter where
  "NewAddressFilter = \<lparr>allowlist = [], blocklist = []\<rparr>"

definition toLowerSet :: "string list \<Rightarrow> string list" where
  "toLowerSet addresses = remdups (map ToLower (filter (\<lambda>a. a \<noteq> []) (map TrimSpace addresses)))"

definition SetAllowlist :: "string list \<Rightarrow> AddressFilter \<Rightarrow> AddressFilter" where
  "SetAllowlist addresses f = f\<lparr>allowlist := toLowerSet addresses\<rparr>"

definition SetBlocklist :: "string list \<Rightarrow> AddressFilter \<Rightarrow> AddressFilter" where
  "SetBlocklist addresses f = f\<lparr>blocklist := toLowerSet addresses\<rparr>"

definition passes :: "AddressFilter \<Rightarrow> string \<Rightarrow> bool" where
  "passes f addr =
     (let lower = ToLower addr
      in if length (blocklist f) > 0 \<and> lower \<in> set (blocklist f) then False
         else if length (allowlist f) > 0 \<and> lower \<notin> set (allowlist f) then False
         else True)"

definition Filter :: "AddressFilter \<Rightarrow> string list \<Rightarrow> string list" where
  "Filter f addresses = filter (passes f) addresses"

section \<open>fee\_cache.go\<close>

text \<open>The maps of the cache: network, token, broadcaster, identifier.\<close>

type_synonym feesByID = "(string, CachedTokenFee) gomap"
type_synonym feesByBroadcaster = "(string, feesByID) gomap"
type_synonym feesByToken = "(string, feesByBroadcaster) gomap"

record FeeCache =
  forNetwork :: "(string, feesByToken) gomap"
  authorizedFees :: "(string, (string, CachedTokenFee) gomap) gomap"
  poiActiveListKeys :: "string list"
  lastSubscribedFeeMessageReceivedAt :: int

definition NewFeeCache :: "int \<Rightarrow> string list \<Rightarrow> FeeCache" where
  "NewFeeCache now keys =
     \<lparr>forNetwork = [], authorizedFees = [], poiActiveListKeys = keys, lastSubscribedFeeMessageReceivedAt = now\<rparr>"

definition networkKey :: "Chain \<Rightarrow> string" where
  "networkKey chain = chainKey (ChainType chain) (ChainID chain)"

definition TouchSubscribed :: "int \<Rightarrow> FeeCache \<Rightarrow> FeeCache" where
  "TouchSubscribed nowMS c = c\<lparr>lastSubscribedFeeMessageReceivedAt := nowMS\<rparr>"

definition ResetFees :: "Chain \<Rightarrow> FeeCache \<Rightarrow> FeeCache" where
  "ResetFees chain c = c\<lparr>forNetwork := gdel (networkKey chain) (forNetwork c)\<rparr>"

text \<open>The inner map of a key, created when it is missing.\<close>

definition orNew :: "('k, 'v) gomap option \<Rightarrow> ('k, 'v) gomap" where
  "orNew m = (case m of None \<Rightarrow> [] | Some m \<Rightarrow> m)"

definition authorizeFee :: "string \<times> CachedTokenFee \<Rightarrow> (string, CachedTokenFee) gomap \<Rightarrow> (string, CachedTokenFee) gomap" where
  "authorizeFee = (\<lambda>(token, fee) byToken.
     let token = ToLower token
     in case gget byToken token of
          Some existing \<Rightarrow> if Expiration existing \<ge> Expiration fee then byToken else gput token fee byToken
        | None \<Rightarrow> gput token fee byToken)"

definition AddAuthorizedFees :: "string \<Rightarrow> (string, CachedTokenFee) gomap \<Rightarrow> FeeCache \<Rightarrow> FeeCache" where
  "AddAuthorizedFees signerAddress tokenFeeMap c =
     (let signer = ToLower signerAddress
      in c\<lparr>authorizedFees := gput signer (fold authorizeFee tokenFeeMap (orNew (gget (authorizedFees c) signer))) (authorizedFees c)\<rparr>)"

definition betterFee :: "string \<Rightarrow> string \<times> (string, CachedTokenFee) gomap \<Rightarrow> CachedTokenFee option \<Rightarrow> CachedTokenFee option" where
  "betterFee token = (\<lambda>(_, byToken) best.
     case gget byToken token of
       None \<Rightarrow> best
     | Some fee \<Rightarrow> (case best of
           None \<Rightarrow> Some fee
         | Some b \<Rightarrow> if Expiration fee > Expiration b then Some fee else best))"

definition GetAuthorizedFee :: "FeeCache \<Rightarrow> string \<Rightarrow> CachedTokenFee option" where
  "GetAuthorizedFee c tokenAddress = fold (betterFee (ToLower tokenAddress)) (authorizedFees c) None"

definition putFee :: "string \<Rightarrow> string \<Rightarrow> string \<times> CachedTokenFee \<Rightarrow> feesByToken \<Rightarrow> feesByToken" where
  "putFee railgunAddress identifier = (\<lambda>(token, fee) byToken.
     let token = ToLower token;
         byBroadcaster = orNew (gget byToken token);
         byID = orNew (gget byBroadcaster railgunAddress)
     in gput token (gput railgunAddress (gput identifier fee byID) byBroadcaster) byToken)"

definition AddTokenFees ::
  "int \<Rightarrow> Chain \<Rightarrow> string \<Rightarrow> int \<Rightarrow> (string, CachedTokenFee) gomap \<Rightarrow> string \<Rightarrow> string \<Rightarrow> string list \<Rightarrow> BroadcasterConfig \<Rightarrow> FeeCache \<Rightarrow> FeeCache" where
  "AddTokenFees now chain railgunAddress feeExpiration tokenFeeMap identifier version requiredPOIListKeys cfg c =
     (if \<exists>listKey \<in> set requiredPOIListKeys. listKey \<notin> set (poiActiveListKeys c) then c
      else if invalidBroadcasterVersion version (MinimumBroadcasterVersion cfg) (MaximumBroadcasterVersion cfg) then c
      else if cachedFeeExpired feeExpiration now then c
      else let identifier = (if identifier = [] then DefaultBroadcasterIdentifier else identifier);
               netKey = networkKey chain
           in c\<lparr>forNetwork := gput netKey (fold (putFee railgunAddress identifier) tokenFeeMap (orNew (gget (forNetwork c) netKey))) (forNetwork c),
                lastSubscribedFeeMessageReceivedAt := now\<rparr>)"

definition FeesForChain :: "FeeCache \<Rightarrow> Chain \<Rightarrow> feesByToken option" where
  "FeesForChain c chain = gget (forNetwork c) (networkKey chain)"

definition FeesForToken :: "FeeCache \<Rightarrow> Chain \<Rightarrow> string \<Rightarrow> feesByBroadcaster option" where
  "FeesForToken c chain tokenAddress =
     (case gget (forNetwork c) (networkKey chain) of None \<Rightarrow> None | Some net \<Rightarrow> gget net (ToLower tokenAddress))"

section \<open>search.go\<close>

definition cachedFeeUnavailableOrExpired :: "CachedTokenFee \<Rightarrow> Chain \<Rightarrow> bool \<Rightarrow> BroadcasterConfig \<Rightarrow> int \<Rightarrow> bool" where
  "cachedFeeUnavailableOrExpired fee chain useRelayAdapt cfg nowMS =
     (if useRelayAdapt \<and> \<not> relayAdaptAllowed (RelayAdaptHistoryFor cfg (ChainType chain) (ChainID chain)) (RelayAdapt fee) then True
      else if AvailableWallets fee = 0 then True
      else cachedFeeExpired (Expiration fee) nowMS)"

text \<open>The exchange sort of both sort functions. The inner loop keeps at position \<open>i\<close> the item
  \<open>x\<close> and swaps it with a later one that is better.\<close>

fun exchange :: "('a \<Rightarrow> 'a \<Rightarrow> bool) \<Rightarrow> 'a \<Rightarrow> 'a list \<Rightarrow> 'a \<times> 'a list" where
  "exchange better x [] = (x, [])"
| "exchange better x (y # ys) =
     (let (here, passed) = (if better y x then (y, x) else (x, y)); (m, zs) = exchange better here ys
      in (m, passed # zs))"

lemma length_exchange: "exchange better x ys = (m, zs) \<Longrightarrow> length zs = length ys"
  by (induction ys arbitrary: x m zs) (auto split: prod.splits if_splits simp: Let_def)

function exchangeSort :: "('a \<Rightarrow> 'a \<Rightarrow> bool) \<Rightarrow> 'a list \<Rightarrow> 'a list" where
  "exchangeSort better [] = []"
| "exchangeSort better (x # xs) = (case exchange better x xs of (m, ys) \<Rightarrow> m # exchangeSort better ys)"
  by pat_completeness auto
termination
  by (relation "measure (length \<circ> snd)") (auto simp: length_exchange [OF sym])

definition moreReliable :: "SelectedBroadcaster \<Rightarrow> SelectedBroadcaster \<Rightarrow> bool" where
  "moreReliable b a \<longleftrightarrow> Reliability (sbTokenFee b) > Reliability (sbTokenFee a)"

definition sortByReliabilityDesc :: "SelectedBroadcaster list \<Rightarrow> SelectedBroadcaster list" where
  "sortByReliabilityDesc items = exchangeSort moreReliable items"

definition feeAmount :: "SelectedBroadcaster \<Rightarrow> int" where
  "feeAmount b = (case SetString (FeePerUnitGas (sbTokenFee b)) 10 of None \<Rightarrow> 0 | Some n \<Rightarrow> n)"

definition cheaper :: "SelectedBroadcaster \<Rightarrow> SelectedBroadcaster \<Rightarrow> bool" where
  "cheaper b a \<longleftrightarrow> feeAmount a > feeAmount b \<or>
     feeAmount a = feeAmount b \<and> Reliability (sbTokenFee b) > Reliability (sbTokenFee a)"

definition sortByAscendingFee :: "SelectedBroadcaster list \<Rightarrow> SelectedBroadcaster list" where
  "sortByAscendingFee items = exchangeSort cheaper items"

text \<open>The range of fees near the authorized one: \<open>Inl\<close> when a missing authorized fee ends the
  search, \<open>Inr None\<close> when no range applies.\<close>

definition feeRange :: "BroadcasterConfig \<Rightarrow> FeeCache \<Rightarrow> string \<Rightarrow> bool \<Rightarrow> unit + (int \<times> int) option" where
  "feeRange cfg cache token ignoreMissingAuthorizedFee =
     (if \<not> HasTrustedSigner cfg then Inr None
      else case GetAuthorizedFee cache token of
        Some authorized \<Rightarrow> (case SetString (FeePerUnitGas authorized) 10 of
            None \<Rightarrow> Inr None
          | Some authorizedAmount \<Rightarrow> Inr (Some
              (authorizedAmount - (authorizedAmount * AuthorizedFeeVarianceLowerPct cfg) div 100,
               authorizedAmount + (authorizedAmount * AuthorizedFeeVarianceUpperPct cfg) div 100)))
      | None \<Rightarrow> if \<not> ignoreMissingAuthorizedFee then Inl () else Inr None)"

definition usable :: "BroadcasterConfig \<Rightarrow> Chain \<Rightarrow> bool \<Rightarrow> int \<Rightarrow> (int \<times> int) option \<Rightarrow> CachedTokenFee \<Rightarrow> bool" where
  "usable cfg chain useRelayAdapt now feeBounds fee =
     (if cachedFeeUnavailableOrExpired fee chain useRelayAdapt cfg now then False
      else case feeBounds of
        None \<Rightarrow> True
      | Some (minFee, maxFee) \<Rightarrow> (case SetString (FeePerUnitGas fee) 10 of
            None \<Rightarrow> False
          | Some amount \<Rightarrow> \<not> (amount < minFee \<or> amount > maxFee)))"

definition FindBroadcastersForToken ::
  "int \<Rightarrow> FeeCache \<Rightarrow> AddressFilter \<Rightarrow> BroadcasterConfig \<Rightarrow> Chain \<Rightarrow> string \<Rightarrow> bool \<Rightarrow> bool \<Rightarrow> SelectedBroadcaster list" where
  "FindBroadcastersForToken now cache addressFilter cfg chain tokenAddress useRelayAdapt ignoreMissingAuthorizedFee =
     (let token = ToLower tokenAddress
      in case FeesForToken cache chain token of
        None \<Rightarrow> []
      | Some byBroadcaster \<Rightarrow>
          (let addresses = Filter addressFilter (map fst byBroadcaster)
           in case feeRange cfg cache token ignoreMissingAuthorizedFee of
                Inl _ \<Rightarrow> []
              | Inr feeBounds \<Rightarrow>
                  sortByReliabilityDesc (concat (map (\<lambda>addr.
                    map (\<lambda>(_, fee). \<lparr>sbRailgunAddress = addr, sbTokenAddress = tokenAddress, sbTokenFee = fee\<rparr>)
                      (filter (\<lambda>(_, fee). usable cfg chain useRelayAdapt now feeBounds fee) (orNew (gget byBroadcaster addr)))) addresses))))"

definition FindBestBroadcaster ::
  "int \<Rightarrow> FeeCache \<Rightarrow> AddressFilter \<Rightarrow> BroadcasterConfig \<Rightarrow> Chain \<Rightarrow> string \<Rightarrow> bool \<Rightarrow> SelectedBroadcaster option" where
  "FindBestBroadcaster now cache addressFilter cfg chain tokenAddress useRelayAdapt =
     (case sortByAscendingFee (FindBroadcastersForToken now cache addressFilter cfg chain tokenAddress useRelayAdapt False) of
        [] \<Rightarrow> None
      | b # _ \<Rightarrow> Some b)"

text \<open>\<open>intn n\<close> is \<^verbatim>\<open>rand.Intn(n)\<close>.\<close>

definition FindRandomBroadcasterForToken ::
  "(nat \<Rightarrow> nat) \<Rightarrow> int \<Rightarrow> FeeCache \<Rightarrow> AddressFilter \<Rightarrow> BroadcasterConfig \<Rightarrow> Chain \<Rightarrow> string \<Rightarrow> bool \<Rightarrow> int \<Rightarrow> SelectedBroadcaster option" where
  "FindRandomBroadcasterForToken intn now cache addressFilter cfg chain tokenAddress useRelayAdapt percentageThreshold =
     (let percentageThreshold = (if percentageThreshold \<le> 0 then defaultRandomFeeThresholdPct else percentageThreshold)
      in case sortByAscendingFee (FindBroadcastersForToken now cache addressFilter cfg chain tokenAddress useRelayAdapt False) of
           [] \<Rightarrow> None
         | b # bs \<Rightarrow> (case SetString (FeePerUnitGas (sbTokenFee b)) 10 of
               None \<Rightarrow> None
             | Some minFee \<Rightarrow>
                 (let threshold = (minFee * goInt (100 + percentageThreshold)) div 100;
                      eligible = filter (\<lambda>item. case SetString (FeePerUnitGas (sbTokenFee item)) 10 of
                          None \<Rightarrow> False | Some fee \<Rightarrow> \<not> fee > threshold) (b # bs)
                  in if eligible = [] then None else Some (eligible ! intn (length eligible)))))"

definition FindAllBroadcastersForChain ::
  "int \<Rightarrow> FeeCache \<Rightarrow> AddressFilter \<Rightarrow> BroadcasterConfig \<Rightarrow> Chain \<Rightarrow> bool \<Rightarrow> SelectedBroadcaster list" where
  "FindAllBroadcastersForChain now cache addressFilter cfg chain useRelayAdapt =
     (case FeesForChain cache chain of
        None \<Rightarrow> []
      | Some fees \<Rightarrow> sortByAscendingFee (concat (map (\<lambda>(token, _).
          FindBroadcastersForToken now cache addressFilter cfg chain token useRelayAdapt False) fees)))"

definition SupportsToken :: "int \<Rightarrow> FeeCache \<Rightarrow> Chain \<Rightarrow> string \<Rightarrow> bool \<Rightarrow> BroadcasterConfig \<Rightarrow> AddressFilter \<Rightarrow> bool" where
  "SupportsToken now cache chain tokenAddress useRelayAdapt cfg addressFilter \<longleftrightarrow>
     length (FindBroadcastersForToken now cache addressFilter cfg chain tokenAddress useRelayAdapt False) > 0"

section \<open>status.go\<close>

text \<open>What \<^verbatim>\<open>connectionStatus\<close> asks of the transport.\<close>

record transportState =
  tsHasError :: bool
  tsStarted :: bool

definition quotesOf :: "AddressFilter \<Rightarrow> feesByToken \<Rightarrow> CachedTokenFee list" where
  "quotesOf addressFilter fees = concat (map (\<lambda>(_, byBroadcaster).
     concat (map (\<lambda>addr. map snd (orNew (gget byBroadcaster addr))) (Filter addressFilter (map fst byBroadcaster)))) fees)"

definition connectionStatus ::
  "int \<Rightarrow> Chain \<Rightarrow> transportState option \<Rightarrow> AddressFilter \<Rightarrow> BroadcasterConfig \<Rightarrow> FeeCache \<Rightarrow> ConnectionStatus \<times> FeeCache" where
  "connectionStatus now chain transport addressFilter cfg cache =
     (case transport of
        None \<Rightarrow> (StatusError, cache)
      | Some t \<Rightarrow>
          if tsHasError t then (StatusError, cache)
          else if \<not> tsStarted t then (StatusDisconnected, cache)
          else let latest = lastSubscribedFeeMessageReceivedAt cache
          in if latest > 0 \<and> goInt (now - latest) > FeeExpirationTimeoutMS cfg
             then (StatusDisconnected, TouchSubscribed (goInt (now + 5000)) cache)
          else let fees = orNew (FeesForChain cache chain)
          in if fees = [] then (StatusSearching, cache)
          else let fresh = filter (\<lambda>fee. \<not> cachedFeeExpired (Expiration fee) now) (quotesOf addressFilter fees)
          in if fresh = [] then (StatusDisconnected, cache)
          else if \<not> (\<exists>fee \<in> set fresh. AvailableWallets fee > 0) then (StatusAllUnavailable, cache)
          else (StatusConnected, cache))"

section \<open>The exchange sort\<close>

lemma mset_exchange: "exchange better x ys = (m, zs) \<Longrightarrow> add_mset m (mset zs) = add_mset x (mset ys)"
  by (induction ys arbitrary: x m zs) (fastforce split: prod.splits if_splits simp: Let_def)+

lemma mset_exchangeSort [simp]: "mset (exchangeSort better xs) = mset xs"
proof (induction better xs rule: exchangeSort.induct)
  case (2 better x xs)
  obtain m zs where e: "exchange better x xs = (m, zs)"
    by fastforce
  with 2 mset_exchange [OF e] show ?case
    by simp
qed simp

lemma set_exchangeSort [simp]: "set (exchangeSort better xs) = set xs"
  by (metis mset_exchangeSort set_mset_mset)

context slice_less
begin

lemma exchange_least: "exchange lt x ys = (m, zs) \<Longrightarrow> \<not> lt x m \<and> (\<forall>z \<in> set zs. \<not> lt z m)"
proof (induction ys arbitrary: x m zs)
  case Nil
  then show ?case using less_asym by auto
next
  case (Cons y ys)
  define here where "here = (if lt y x then y else x)"
  define passed where "passed = (if lt y x then x else y)"
  obtain m' zs' where e: "exchange lt here ys = (m', zs')"
    by fastforce
  have res: "m = m'" "zs = passed # zs'"
    using Cons.prems e by (auto simp: here_def passed_def Let_def split: if_splits)
  have "\<not> lt here m" "\<forall>z \<in> set zs'. \<not> lt z m"
    using Cons.IH [OF e] by (simp_all add: res)
  moreover have "\<not> lt x here" "\<not> lt passed here"
    using less_asym by (auto simp: here_def passed_def)
  ultimately show ?case
    using not_less_trans [of here m] by (auto simp: res)
qed

lemma sorted_exchangeSort: "sorted_wrt (\<lambda>x y. \<not> lt y x) (exchangeSort lt xs)"
proof (induction xs rule: length_induct)
  case (1 xs)
  show ?case
  proof (cases xs)
    case (Cons x ys)
    obtain m zs where e: "exchange lt x ys = (m, zs)"
      by fastforce
    have "sorted_wrt (\<lambda>x y. \<not> lt y x) (exchangeSort lt zs)"
      using 1 length_exchange [OF e] by (simp add: Cons)
    then show ?thesis
      using exchange_least [OF e] by (simp add: Cons e)
  qed simp
qed

end

text \<open>Both comparators compare a key: the reliability, and the fee with the reliability.\<close>

interpretation reliabilityOrder: slice_less moreReliable
proof -
  have eq: "moreReliable = (\<lambda>x y. - Reliability (sbTokenFee x) < - Reliability (sbTokenFee y))"
    by (intro ext) (auto simp: moreReliable_def)
  show "slice_less moreReliable"
    unfolding eq by (rule slice_less_key)
qed

interpretation feeOrder: slice_less cheaper
proof -
  have eq: "cheaper = (\<lambda>x y. (feeAmount x, - Reliability (sbTokenFee x)) < (feeAmount y, - Reliability (sbTokenFee y)))"
    by (intro ext) (auto simp: cheaper_def less_prod_simp)
  show "slice_less cheaper"
    unfolding eq by (rule slice_less_key)
qed

section \<open>Quotes of the cache\<close>

text \<open>The reference: the quote of a network, token, broadcaster and identifier.\<close>

definition feeIn :: "feesByToken \<Rightarrow> string \<Rightarrow> string \<Rightarrow> string \<Rightarrow> CachedTokenFee option" where
  "feeIn byToken token addr ident = gget (orNew (gget (orNew (gget byToken token)) addr)) ident"

definition feeAt :: "FeeCache \<Rightarrow> string \<Rightarrow> string \<Rightarrow> string \<Rightarrow> string \<Rightarrow> CachedTokenFee option" where
  "feeAt c net = feeIn (orNew (gget (forNetwork c) net))"

definition wfFees :: "feesByToken \<Rightarrow> bool" where
  "wfFees byToken \<longleftrightarrow> wfmap byToken \<and>
     (\<forall>byBroadcaster \<in> snd ` set byToken. wfmap byBroadcaster \<and> (\<forall>byID \<in> snd ` set byBroadcaster. wfmap byID))"

definition wfCache :: "FeeCache \<Rightarrow> bool" where
  "wfCache c \<longleftrightarrow> wfmap (forNetwork c) \<and> (\<forall>fees \<in> snd ` set (forNetwork c). wfFees fees) \<and> wfmap (authorizedFees c)"

lemma orNew_simps [simp]: "orNew None = []" "orNew (Some m) = m"
  by (simp_all add: orNew_def)

lemma orNew_all: "P [] \<Longrightarrow> (\<forall>v \<in> snd ` set m. P v) \<Longrightarrow> P (orNew (gget m k))"
  by (cases "gget m k") (fastforce dest: map_of_SomeD)+

lemma gput_all: "\<forall>v \<in> snd ` set m. P v \<Longrightarrow> P w \<Longrightarrow> \<forall>v \<in> snd ` set (gput k w m). P v"
  by (induction m) auto

lemma wfFees_Nil [simp]: "wfFees []"
  by (simp add: wfFees_def)

lemma wfFees_putFee:
  assumes "wfFees byToken"
  shows "wfFees (putFee addr ident (token, fee) byToken)"
proof -
  define wfB :: "feesByBroadcaster \<Rightarrow> bool" where "wfB = (\<lambda>b. wfmap b \<and> (\<forall>byID \<in> snd ` set b. wfmap byID))"
  have all: "wfmap byToken" "\<forall>b \<in> snd ` set byToken. wfB b"
    using assms by (simp_all add: wfFees_def wfB_def)
  define byB where "byB = orNew (gget byToken (ToLower token))"
  have byB: "wfB byB"
    unfolding byB_def by (rule orNew_all) (use all(2) in \<open>simp_all add: wfB_def\<close>)
  then have "wfmap (orNew (gget byB addr))"
    unfolding wfB_def by (intro orNew_all [where P = "\<lambda>m. wfmap m"]) simp_all
  then have "wfB (gput addr (gput ident fee (orNew (gget byB addr))) byB)"
    using byB unfolding wfB_def by (intro conjI gput_all [where P = "\<lambda>m. wfmap m"] wfmap_gput) simp_all
  then have "\<forall>b \<in> snd ` set (putFee addr ident (token, fee) byToken). wfB b"
    unfolding putFee_def Let_def prod.case byB_def [symmetric] using all(2) by (rule gput_all [rotated])
  moreover have "wfmap (putFee addr ident (token, fee) byToken)"
    using all(1) by (simp add: putFee_def Let_def)
  ultimately show ?thesis
    by (simp add: wfFees_def wfB_def)
qed

lemma feeIn_putFee:
  "feeIn (putFee addr ident (token, fee) byToken) t a i =
     (if t = ToLower token \<and> a = addr \<and> i = ident then Some fee else feeIn byToken t a i)"
  by (auto simp: feeIn_def putFee_def Let_def gomap_simps)

lemma feeIn_fold_other:
  "\<forall>(token, _) \<in> set es. ToLower token \<noteq> t \<Longrightarrow> feeIn (fold (putFee addr ident) es byToken) t a i = feeIn byToken t a i"
  by (induction es arbitrary: byToken) (auto simp: feeIn_putFee)

lemma feeIn_fold_elsewhere:
  "a \<noteq> addr \<or> i \<noteq> ident \<Longrightarrow> feeIn (fold (putFee addr ident) es byToken) t a i = feeIn byToken t a i"
  by (induction es arbitrary: byToken) (auto simp: feeIn_putFee)

lemma feeIn_fold_entry:
  assumes "(token, fee) \<in> set es" and "distinct (map (ToLower \<circ> fst) es)"
  shows "feeIn (fold (putFee addr ident) es byToken) (ToLower token) addr ident = Some fee"
  using assms
proof (induction es arbitrary: byToken)
  case (Cons e es)
  show ?case
  proof (cases "e = (token, fee)")
    case True
    with Cons.prems have "\<forall>(t, _) \<in> set es. ToLower t \<noteq> ToLower token"
      by force
    then show ?thesis
      using True by (simp add: feeIn_fold_other feeIn_putFee)
  next
    case False
    with Cons show ?thesis by simp
  qed
qed simp

lemma wfFees_fold: "wfFees byToken \<Longrightarrow> wfFees (fold (putFee addr ident) es byToken)"
  by (induction es arbitrary: byToken) (simp_all add: wfFees_putFee split_paired_all)

lemma wfCache_network: "wfCache c \<Longrightarrow> wfFees (orNew (gget (forNetwork c) net))"
  unfolding wfCache_def by (rule orNew_all [where P = wfFees]) simp_all

lemma wfCache_put:
  assumes "wfCache c" and "wfFees fees"
  shows "wfCache (c\<lparr>forNetwork := gput net fees (forNetwork c), lastSubscribedFeeMessageReceivedAt := now\<rparr>)"
proof -
  have "\<forall>f \<in> snd ` set (forNetwork c). wfFees f"
    using assms(1) by (simp add: wfCache_def)
  then have "\<forall>f \<in> snd ` set (gput net fees (forNetwork c)). wfFees f"
    using assms(2) by (rule gput_all)
  with assms(1) show ?thesis
    unfolding wfCache_def by simp
qed

lemma set_gdel: "set (gdel k m) \<subseteq> set m"
  by (auto simp: AList.delete_eq)

lemma wfCache_ops:
  "wfCache (NewFeeCache now keys)"
  "wfCache c \<Longrightarrow> wfCache (TouchSubscribed now c)"
  "wfCache c \<Longrightarrow> wfCache (ResetFees chain c)"
  "wfCache c \<Longrightarrow> wfCache (AddAuthorizedFees signer fees c)"
  "wfCache c \<Longrightarrow> wfCache (AddTokenFees now chain addr ex fees ident version required cfg c)"
proof -
  show "wfCache (NewFeeCache now keys)"
    by (simp add: wfCache_def NewFeeCache_def)
  show "wfCache c \<Longrightarrow> wfCache (TouchSubscribed now c)"
    by (simp add: wfCache_def TouchSubscribed_def)
  show "wfCache c \<Longrightarrow> wfCache (ResetFees chain c)"
    using set_gdel [of "networkKey chain" "forNetwork c"] by (auto simp: wfCache_def ResetFees_def)
  show "wfCache c \<Longrightarrow> wfCache (AddAuthorizedFees signer fees c)"
    by (simp add: wfCache_def AddAuthorizedFees_def Let_def)
  show "wfCache c \<Longrightarrow> wfCache (AddTokenFees now chain addr ex fees ident version required cfg c)"
    by (simp add: AddTokenFees_def Let_def wfCache_put wfFees_fold wfCache_network)
qed

section \<open>What the cache promises\<close>

lemma networkKey_inject [simp]: "networkKey a = networkKey b \<longleftrightarrow> a = b"
proof
  assume "networkKey a = networkKey b"
  then have "decimal (ChainType a) @ CHR '':'' # decimal (uint (ChainID a)) =
      decimal (ChainType b) @ CHR '':'' # decimal (uint (ChainID b))"
    by (simp add: networkKey_def chainKey_def)
  then have "decimal (ChainType a) = decimal (ChainType b) \<and> decimal (uint (ChainID a)) = decimal (uint (ChainID b))"
    by (rule append_Cons_eq_iff [THEN iffD1, rotated 2]) (rule decimal_no_colon)+
  then show "a = b"
    by (cases a; cases b) (simp add: word_uint_eq_iff)
qed simp

text \<open>The announcements that are accepted.\<close>

definition acceptable :: "int \<Rightarrow> int \<Rightarrow> string \<Rightarrow> string list \<Rightarrow> BroadcasterConfig \<Rightarrow> FeeCache \<Rightarrow> bool" where
  "acceptable now feeExpiration version requiredPOIListKeys cfg c \<longleftrightarrow>
     set requiredPOIListKeys \<subseteq> set (poiActiveListKeys c) \<and>
     \<not> invalidBroadcasterVersion version (MinimumBroadcasterVersion cfg) (MaximumBroadcasterVersion cfg) \<and>
     \<not> cachedFeeExpired feeExpiration now"

lemma AddTokenFees_cases:
  "AddTokenFees now chain addr expiry fees ident version required cfg c =
     (if acceptable now expiry version required cfg c
      then c\<lparr>forNetwork := gput (networkKey chain) (fold (putFee addr (if ident = [] then DefaultBroadcasterIdentifier else ident)) fees
             (orNew (gget (forNetwork c) (networkKey chain)))) (forNetwork c), lastSubscribedFeeMessageReceivedAt := now\<rparr>
      else c)"
  by (auto simp: AddTokenFees_def acceptable_def Let_def)

lemma feeAt_AddTokenFees:
  "feeAt (AddTokenFees now chain addr expiry fees ident version required cfg c) net =
     (if acceptable now expiry version required cfg c \<and> net = networkKey chain
      then feeIn (fold (putFee addr (if ident = [] then DefaultBroadcasterIdentifier else ident)) fees (orNew (gget (forNetwork c) net)))
      else feeAt c net)"
  by (simp add: AddTokenFees_cases feeAt_def gomap_simps)

text \<open>Adding the quotes of an announcement. A rejected one (a required list that is
  not active, a version outside the range, an expiry too near) changes nothing. An accepted one is
  read back, for each of its tokens in lower case, under its chain, address and identifier, and no
  quote under another chain, token, address or identifier changes; with tokens that differ in
  more than case this does not depend on the order of Go's map. A reset forgets the quotes of its
  chain and no others.\<close>

theorem fee_cache_update:
  assumes "distinct (map (ToLower \<circ> fst) fees)"
  shows "let c' = AddTokenFees now chain addr expiry fees ident version required cfg c;
      name = (if ident = [] then DefaultBroadcasterIdentifier else ident) in
    (\<not> acceptable now expiry version required cfg c \<longrightarrow> c' = c) \<and>
    (acceptable now expiry version required cfg c \<longrightarrow>
      (\<forall>(token, fee) \<in> set fees. feeAt c' (networkKey chain) (ToLower token) addr name = Some fee)) \<and>
    (\<forall>other t a i. other \<noteq> chain \<or> a \<noteq> addr \<or> i \<noteq> name \<or> t \<notin> ToLower ` fst ` set fees \<longrightarrow>
      feeAt c' (networkKey other) t a i = feeAt c (networkKey other) t a i) \<and>
    authorizedFees c' = authorizedFees c \<and>
    (\<forall>other t a i. feeAt (ResetFees chain c) (networkKey other) t a i =
      (if other = chain then None else feeAt c (networkKey other) t a i))"
proof -
  define c' where "c' = AddTokenFees now chain addr expiry fees ident version required cfg c"
  define name where "name = (if ident = [] then DefaultBroadcasterIdentifier else ident)"
  show ?thesis
    unfolding Let_def c'_def [symmetric] name_def [symmetric]
  proof (intro conjI)
    show "\<not> acceptable now expiry version required cfg c \<longrightarrow> c' = c"
      by (simp add: c'_def AddTokenFees_cases)
    show "acceptable now expiry version required cfg c \<longrightarrow>
        (\<forall>(token, fee) \<in> set fees. feeAt c' (networkKey chain) (ToLower token) addr name = Some fee)"
      using feeIn_fold_entry [OF _ assms(1)] by (auto simp: c'_def name_def feeAt_AddTokenFees)
    show "\<forall>other t a i. other \<noteq> chain \<or> a \<noteq> addr \<or> i \<noteq> name \<or> t \<notin> ToLower ` fst ` set fees \<longrightarrow>
        feeAt c' (networkKey other) t a i = feeAt c (networkKey other) t a i"
    proof (intro allI impI)
      fix other t a i
      assume cond: "other \<noteq> chain \<or> a \<noteq> addr \<or> i \<noteq> name \<or> t \<notin> ToLower ` fst ` set fees"
      show "feeAt c' (networkKey other) t a i = feeAt c (networkKey other) t a i"
      proof (cases "acceptable now expiry version required cfg c \<and> other = chain")
        case True
        then have eq: "feeAt c' (networkKey other) = feeIn (fold (putFee addr name) fees (orNew (gget (forNetwork c) (networkKey other))))"
          by (simp add: c'_def name_def feeAt_AddTokenFees)
        from True consider "a \<noteq> addr \<or> i \<noteq> name" | "\<forall>(token, _) \<in> set fees. ToLower token \<noteq> t"
          using cond by force
        then show ?thesis
          unfolding eq by cases (simp_all add: feeAt_def feeIn_fold_elsewhere feeIn_fold_other)
      next
        case False
        then show ?thesis
          by (auto simp: c'_def feeAt_AddTokenFees)
      qed
    qed
    show "authorizedFees c' = authorizedFees c"
      by (simp add: c'_def AddTokenFees_cases)
    show "\<forall>other t a i. feeAt (ResetFees chain c) (networkKey other) t a i =
        (if other = chain then None else feeAt c (networkKey other) t a i)"
      by (simp add: feeAt_def ResetFees_def gomap_simps feeIn_def)
  qed
qed

definition sampleFee :: "string \<Rightarrow> rat \<Rightarrow> CachedTokenFee" where
  "sampleFee amount reliability = \<lparr>FeePerUnitGas = amount, Expiration = 900000, FeesID = ''id'', AvailableWallets = 1,
     RelayAdapt = [], RelayAdapt7702 = [], Reliability = reliability\<rparr>"

definition sampleBroadcasterConfig :: BroadcasterConfig where
  "sampleBroadcasterConfig = \<lparr>TrustedFeeSigner = [], FeeExpirationTimeoutMS = 120000, HistoricalLookBackMS = 60000,
     AuthorizedFeeVarianceLowerPct = 10, AuthorizedFeeVarianceUpperPct = 30, MinimumBroadcasterVersion = ''8.0.0'',
     MaximumBroadcasterVersion = ''8.999.0'', RelayAdaptHistory = DefaultRelayAdaptHistory, IsDev = False\<rparr>"

definition sampleChain :: Chain where
  "sampleChain = \<lparr>ChainType = 0, ChainID = 1\<rparr>"

definition sampleFeeCache :: FeeCache where
  "sampleFeeCache = \<lparr>forNetwork = [(''0:1'', [(''0xt'', [(''b1'', [(''default'', sampleFee ''12'' 2)]), (''b2'', [(''x'', sampleFee ''9'' 1)])])])],
     authorizedFees = [], poiActiveListKeys = [], lastSubscribedFeeMessageReceivedAt = 1000\<rparr>"

theorem fee_cache_update_witness:
  "feeAt (AddTokenFees 1000 sampleChain ''b2'' 900000 [(''0xT'', sampleFee ''9'' 1)] ''x'' ''8.1.0'' [] sampleBroadcasterConfig (NewFeeCache 0 []))
     (networkKey sampleChain) ''0xt'' ''b2'' ''x'' = Some (sampleFee ''9'' 1)"
proof -
  have d: "distinct (map (ToLower \<circ> fst) [(''0xT'', sampleFee ''9'' 1)])"
    by simp
  have a: "acceptable 1000 900000 ''8.1.0'' [] sampleBroadcasterConfig (NewFeeCache 0 [])" "ToLower ''0xT'' = ''0xt''"
    by code_simp+
  show ?thesis
    using fee_cache_update [OF d, where now = 1000 and expiry = 900000 and version = "''8.1.0''" and required = "[]"
        and cfg = sampleBroadcasterConfig and c = "NewFeeCache 0 []" and chain = sampleChain and addr = "''b2''" and ident = "''x''"] a
    by (simp add: Let_def)
qed

section \<open>The search\<close>

text \<open>The quotes that the search may offer, written out: cached for the chain and the token, from an address that is
  not blocked and, if some are allowed, one of those; with available wallets, at least 40 seconds of validity and, where
  one is asked for, a relay adapter of the chain's history (whatever the prefix and case of the letters). With trusted signers there must
  be an authorized fee for the token, and unless that is no number, the fee is a number that is not too far
  below or above it.\<close>

definition withoutPrefix :: "string \<Rightarrow> string" where
  "withoutPrefix address = ToLower (TrimPrefix (TrimPrefix address ''0x'') ''0X'')"

definition eligible ::
  "int \<Rightarrow> FeeCache \<Rightarrow> AddressFilter \<Rightarrow> BroadcasterConfig \<Rightarrow> Chain \<Rightarrow> string \<Rightarrow> bool \<Rightarrow> SelectedBroadcaster \<Rightarrow> bool" where
  "eligible now cache addressFilter cfg chain tokenAddress useRelayAdapt b \<longleftrightarrow>
     (\<exists>ident. feeAt cache (networkKey chain) (ToLower tokenAddress) (sbRailgunAddress b) ident = Some (sbTokenFee b)) \<and>
     sbTokenAddress b = tokenAddress \<and>
     ToLower (sbRailgunAddress b) \<notin> set (blocklist addressFilter) \<and>
     (allowlist addressFilter = [] \<or> ToLower (sbRailgunAddress b) \<in> set (allowlist addressFilter)) \<and>
     AvailableWallets (sbTokenFee b) \<noteq> 0 \<and>
     goInt (now + 40000) \<le> Expiration (sbTokenFee b) \<and>
     (useRelayAdapt \<longrightarrow> RelayAdapt (sbTokenFee b) \<noteq> [] \<and>
       (\<exists>addresses. gget (RelayAdaptHistory cfg) (chainKey (ChainType chain) (ChainID chain)) = Some addresses \<and>
          (\<exists>address \<in> set addresses. withoutPrefix address = withoutPrefix (RelayAdapt (sbTokenFee b))))) \<and>
     (TrustedFeeSigner cfg \<noteq> [] \<longrightarrow> (\<exists>authorized. GetAuthorizedFee cache (ToLower tokenAddress) = Some authorized \<and>
        (\<forall>n. SetString (FeePerUnitGas authorized) 10 = Some n \<longrightarrow>
          (\<exists>m. SetString (FeePerUnitGas (sbTokenFee b)) 10 = Some m \<and>
             n - n * AuthorizedFeeVarianceLowerPct cfg div 100 \<le> m \<and> m \<le> n + n * AuthorizedFeeVarianceUpperPct cfg div 100))))"

lemma eligible_iff:
  "eligible now cache addressFilter cfg chain tokenAddress useRelayAdapt b \<longleftrightarrow>
     sbTokenAddress b = tokenAddress \<and> passes addressFilter (sbRailgunAddress b) \<and>
     (\<exists>ident. feeAt cache (networkKey chain) (ToLower tokenAddress) (sbRailgunAddress b) ident = Some (sbTokenFee b)) \<and>
     (\<exists>feeBounds. feeRange cfg cache (ToLower tokenAddress) False = Inr feeBounds \<and>
        usable cfg chain useRelayAdapt now feeBounds (sbTokenFee b))"
proof -
  have pass: "passes addressFilter a \<longleftrightarrow> ToLower a \<notin> set (blocklist addressFilter) \<and>
     (allowlist addressFilter = [] \<or> ToLower a \<in> set (allowlist addressFilter))" for a
    by (auto simp: passes_def Let_def)
  have adapt: "relayAdaptAllowed (RelayAdaptHistoryFor cfg (ChainType chain) (ChainID chain)) r \<longleftrightarrow>
      r \<noteq> [] \<and> (\<exists>addresses. gget (RelayAdaptHistory cfg) (chainKey (ChainType chain) (ChainID chain)) = Some addresses \<and>
        (\<exists>address \<in> set addresses. withoutPrefix address = withoutPrefix r))" for r
    by (cases "gget (RelayAdaptHistory cfg) (chainKey (ChainType chain) (ChainID chain))")
      (auto simp: relayAdaptAllowed_def RelayAdaptHistoryFor_def withoutPrefix_def Let_def)
  have fresh: "cachedFeeExpired e now \<longleftrightarrow> \<not> goInt (now + 40000) \<le> e" for e
    by (auto simp: cachedFeeExpired_def feeExpirationMinimumMS_def)
  have available: "cachedFeeUnavailableOrExpired fee chain useRelayAdapt cfg now \<longleftrightarrow> \<not> (AvailableWallets fee \<noteq> 0 \<and> goInt (now + 40000) \<le> Expiration fee \<and>
      (useRelayAdapt \<longrightarrow> RelayAdapt fee \<noteq> [] \<and>
       (\<exists>addresses. gget (RelayAdaptHistory cfg) (chainKey (ChainType chain) (ChainID chain)) = Some addresses \<and>
          (\<exists>address \<in> set addresses. withoutPrefix address = withoutPrefix (RelayAdapt fee)))))" for fee
    unfolding cachedFeeUnavailableOrExpired_def fresh adapt by auto
  have bounds: "(\<exists>feeBounds. feeRange cfg cache t False = Inr feeBounds \<and> usable cfg chain useRelayAdapt now feeBounds fee) \<longleftrightarrow>
      \<not> cachedFeeUnavailableOrExpired fee chain useRelayAdapt cfg now \<and>
      (TrustedFeeSigner cfg \<noteq> [] \<longrightarrow> (\<exists>authorized. GetAuthorizedFee cache t = Some authorized \<and>
        (\<forall>n. SetString (FeePerUnitGas authorized) 10 = Some n \<longrightarrow>
          (\<exists>m. SetString (FeePerUnitGas fee) 10 = Some m \<and>
             n - n * AuthorizedFeeVarianceLowerPct cfg div 100 \<le> m \<and> m \<le> n + n * AuthorizedFeeVarianceUpperPct cfg div 100))))" for t fee
    by (auto simp: feeRange_def usable_def HasTrustedSigner_def not_less split: option.splits if_splits)
  show ?thesis unfolding eligible_def bounds available pass by blast
qed

lemma wfFees_parts:
  assumes "wfFees fees" and "gget fees token = Some byBroadcaster"
  shows "wfmap byBroadcaster" and "gget byBroadcaster addr = Some byID \<Longrightarrow> wfmap byID"
  using assms by (force simp: wfFees_def dest!: map_of_SomeD)+

lemma set_sortByReliabilityDesc [simp]: "set (sortByReliabilityDesc xs) = set xs"
  by (simp add: sortByReliabilityDesc_def)

lemma FindBroadcasters_eligible:
  assumes "wfCache cache"
  shows "b \<in> set (FindBroadcastersForToken now cache f cfg chain tokenAddress adapt False) \<longleftrightarrow>
    eligible now cache f cfg chain tokenAddress adapt b"
proof -
  let ?fees = "orNew (gget (forNetwork cache) (networkKey chain))"
  let ?token = "ToLower tokenAddress"
  have wf: "wfFees ?fees"
    using assms by (rule wfCache_network)
  have tok: "FeesForToken cache chain ?token = gget ?fees ?token"
    by (simp add: FeesForToken_def split: option.split)
  show ?thesis
  proof (cases "gget ?fees ?token")
    case None
    then show ?thesis
      by (simp add: FindBroadcastersForToken_def tok eligible_iff feeAt_def feeIn_def)
  next
    case (Some byB)
    have addrs: "addr \<in> fst ` set byB \<longleftrightarrow> gget byB addr \<noteq> None" for addr
      by (simp add: map_of_eq_None_iff)
    have quotes: "(ident, fee) \<in> set (orNew (gget byB addr)) \<longleftrightarrow> gget (orNew (gget byB addr)) ident = Some fee" for addr ident fee
      using wfFees_parts(2) [OF wf Some, of addr] by (cases "gget byB addr") simp_all
    show ?thesis
    proof (cases "feeRange cfg cache ?token False")
      case (Inl _)
      then show ?thesis
        by (simp add: FindBroadcastersForToken_def tok Some eligible_iff)
    next
      case (Inr bounds)
      have el: "eligible now cache f cfg chain tokenAddress adapt b \<longleftrightarrow> sbTokenAddress b = tokenAddress \<and>
        passes f (sbRailgunAddress b) \<and> (\<exists>ident. gget (orNew (gget byB (sbRailgunAddress b))) ident = Some (sbTokenFee b)) \<and>
        usable cfg chain adapt now bounds (sbTokenFee b)"
        by (simp add: eligible_iff feeAt_def feeIn_def Some Inr)
      have ne: "gget byB addr \<noteq> None" if "gget (orNew (gget byB addr)) ident = Some fee" for addr ident fee
        using that by (cases "gget byB addr") simp_all
      have "b \<in> set (FindBroadcastersForToken now cache f cfg chain tokenAddress adapt False) \<longleftrightarrow>
        (\<exists>addr ident fee. addr \<in> fst ` set byB \<and> passes f addr \<and> (ident, fee) \<in> set (orNew (gget byB addr)) \<and>
          usable cfg chain adapt now bounds fee \<and>
          b = \<lparr>sbRailgunAddress = addr, sbTokenAddress = tokenAddress, sbTokenFee = fee\<rparr>)"
        by (simp add: FindBroadcastersForToken_def tok Some Inr Let_def Filter_def) force
      also have "\<dots> \<longleftrightarrow> eligible now cache f cfg chain tokenAddress adapt b"
        unfolding addrs quotes el using ne by (cases b) fastforce
      finally show ?thesis .
    qed
  qed
qed

lemma sortByAscendingFee_hd:
  assumes "sortByAscendingFee xs = b # bs" and "x \<in> set xs"
  shows "feeAmount b \<le> feeAmount x \<and> (feeAmount x = feeAmount b \<longrightarrow> Reliability (sbTokenFee x) \<le> Reliability (sbTokenFee b))"
proof -
  have "x \<in> set (b # bs)"
    using assms by (metis set_exchangeSort sortByAscendingFee_def)
  moreover have "sorted_wrt (\<lambda>x y. \<not> cheaper y x) (b # bs)"
    using feeOrder.sorted_exchangeSort [of xs] assms(1) by (simp add: sortByAscendingFee_def)
  ultimately have "x = b \<or> \<not> cheaper x b"
    by auto
  then show ?thesis
    by (auto simp: cheaper_def)
qed

text \<open>C30: The best broadcaster is an eligible one, no eligible one
  is cheaper, and none of the same fee is more reliable. There is none exactly when no quote is
  eligible. Eligible is a quote that is cached for the chain and the
  token, whose address passes the filters, with available wallets, at least 40 seconds before it expires, with an allowed relay
  adapter where one is asked for, and, with trusted signers, near the authorized fee of the token that the cache
  returns (any fee, when the authorized amount is not a number).
  (Where authorized fees of several signers expire at the same time, the order of the
  map decides which of them that is.)\<close>

theorem best_broadcaster:
  assumes "wfCache cache"
  shows "case FindBestBroadcaster now cache addressFilter cfg chain token adapt of
      None \<Rightarrow> \<forall>b. \<not> eligible now cache addressFilter cfg chain token adapt b
    | Some best \<Rightarrow> eligible now cache addressFilter cfg chain token adapt best \<and>
        (\<forall>b. eligible now cache addressFilter cfg chain token adapt b \<longrightarrow>
          feeAmount best \<le> feeAmount b \<and>
          (feeAmount b = feeAmount best \<longrightarrow> Reliability (sbTokenFee b) \<le> Reliability (sbTokenFee best)))"
proof -
  define xs where "xs = FindBroadcastersForToken now cache addressFilter cfg chain token adapt False"
  have mem: "b \<in> set xs \<longleftrightarrow> eligible now cache addressFilter cfg chain token adapt b" for b
    unfolding xs_def by (rule FindBroadcasters_eligible [OF assms])
  have same: "set (sortByAscendingFee xs) = set xs"
    by (simp add: sortByAscendingFee_def)
  show ?thesis
  proof (cases "sortByAscendingFee xs")
    case Nil
    with same mem show ?thesis
      by (simp add: FindBestBroadcaster_def flip: xs_def)
  next
    case (Cons best rest)
    then have "eligible now cache addressFilter cfg chain token adapt best"
      using same mem by (metis list.set_intros(1))
    with Cons sortByAscendingFee_hd [OF Cons] mem show ?thesis
      by (simp add: FindBestBroadcaster_def flip: xs_def)
  qed
qed

theorem best_broadcaster_witness:
  "FindBestBroadcaster 1000 sampleFeeCache NewAddressFilter sampleBroadcasterConfig sampleChain ''0xT'' False =
     Some \<lparr>sbRailgunAddress = ''b2'', sbTokenAddress = ''0xT'', sbTokenFee = sampleFee ''9'' 1\<rparr> \<and>
   eligible 1000 sampleFeeCache NewAddressFilter sampleBroadcasterConfig sampleChain ''0xT'' False
     \<lparr>sbRailgunAddress = ''b2'', sbTokenAddress = ''0xT'', sbTokenFee = sampleFee ''9'' 1\<rparr>"
proof -
  have wf: "wfCache sampleFeeCache"
    by (simp add: sampleFeeCache_def wfCache_def wfFees_def)
  have best: "FindBestBroadcaster 1000 sampleFeeCache NewAddressFilter sampleBroadcasterConfig sampleChain ''0xT'' False =
     Some \<lparr>sbRailgunAddress = ''b2'', sbTokenAddress = ''0xT'', sbTokenFee = sampleFee ''9'' 1\<rparr>"
    by code_simp
  show ?thesis
    using best_broadcaster [OF wf, of 1000 NewAddressFilter sampleBroadcasterConfig sampleChain "''0xT''" False]
    by (simp add: best)
qed

section \<open>Authorized fees\<close>

definition authAt :: "FeeCache \<Rightarrow> string \<Rightarrow> string \<Rightarrow> CachedTokenFee option" where
  "authAt c signer token = gget (orNew (gget (authorizedFees c) signer)) token"

definition notOlder :: "CachedTokenFee \<Rightarrow> CachedTokenFee option \<Rightarrow> bool" where
  "notOlder fee stored \<longleftrightarrow> (\<exists>g. stored = Some g \<and> Expiration fee \<le> Expiration g)"

lemma notOlder_trans: "notOlder f (Some g) \<Longrightarrow> notOlder g x \<Longrightarrow> notOlder f x"
  by (auto simp: notOlder_def)

lemma fold_betterFee:
  "(fold (betterFee token) ms best = None \<longleftrightarrow> best = None \<and> (\<forall>m \<in> snd ` set ms. gget m token = None)) \<and>
   (\<forall>f. fold (betterFee token) ms best = Some f \<longrightarrow>
      (best = Some f \<or> (\<exists>m \<in> snd ` set ms. gget m token = Some f)) \<and>
      (\<forall>g. best = Some g \<or> (\<exists>m \<in> snd ` set ms. gget m token = Some g) \<longrightarrow> Expiration g \<le> Expiration f))"
proof (induction ms arbitrary: best)
  case (Cons m ms)
  obtain signer fees where m: "m = (signer, fees)"
    by fastforce
  consider "betterFee token m best = best" "\<forall>g. gget fees token = Some g \<longrightarrow> notOlder g best"
    | f where "betterFee token m best = Some f" "gget fees token = Some f" "\<forall>g. best = Some g \<longrightarrow> Expiration g \<le> Expiration f"
    by (cases "gget fees token"; cases best) (fastforce simp: betterFee_def m notOlder_def split: if_splits)+
  then show ?case
  proof cases
    case 1
    then show ?thesis
      using Cons.IH [of best] by (simp add: m) (force simp: notOlder_def)
  next
    case 2
    then show ?thesis
      using Cons.IH [of "Some f"] by (simp add: m) force
  qed
qed simp

lemma authorizeFee_mono:
  "gget m t = Some g \<Longrightarrow> notOlder g (gget (authorizeFee e m) t)"
  by (cases e) (auto simp: authorizeFee_def notOlder_def Let_def gomap_simps split: option.splits)

lemma authorizeFee_entry: "notOlder fee (gget (authorizeFee (token, fee) m) (ToLower token))"
  by (auto simp: authorizeFee_def notOlder_def Let_def gomap_simps split: option.splits)

lemma fold_authorizeFee_mono: "gget m t = Some g \<Longrightarrow> notOlder g (gget (fold authorizeFee es m) t)"
proof (induction es arbitrary: m g)
  case (Cons e es)
  from authorizeFee_mono [OF Cons.prems] obtain g' where g': "gget (authorizeFee e m) t = Some g'" "notOlder g (Some g')"
    unfolding notOlder_def by blast
  with Cons.IH [OF g'(1)] show ?case
    using notOlder_trans by simp
qed (simp add: notOlder_def)

lemma fold_authorizeFee_entry: "(token, fee) \<in> set es \<Longrightarrow> notOlder fee (gget (fold authorizeFee es m) (ToLower token))"
proof (induction es arbitrary: m)
  case (Cons e es)
  show ?case
  proof (cases "e = (token, fee)")
    case True
    then obtain g' where "gget (authorizeFee e m) (ToLower token) = Some g'" "notOlder fee (Some g')"
      using authorizeFee_entry [of fee token m] unfolding notOlder_def by blast
    then show ?thesis
      using fold_authorizeFee_mono [of "authorizeFee e m"] notOlder_trans by simp
  next
    case False
    with Cons show ?thesis by simp
  qed
qed simp

lemma authAt_Add:
  "authAt (AddAuthorizedFees signer fees c) s t =
     (if s = ToLower signer then gget (fold authorizeFee fees (orNew (gget (authorizedFees c) s))) t else authAt c s t)"
  by (simp add: authAt_def AddAuthorizedFees_def Let_def gomap_simps)

text \<open>C31: The authorized fee of a token is one that some trusted signer announced, and
  none of any signer expires later; there is none exactly when no signer has announced one. When
  fees of a signer arrive, in any order, what is stored for that signer and any token never
  becomes older, is at least as new as what arrived, and nothing changes for other signers.\<close>

theorem authorized_fee_newest:
  assumes "wfCache c"
  shows "(case GetAuthorizedFee c token of
      None \<Rightarrow> \<forall>s. authAt c s (ToLower token) = None
    | Some f \<Rightarrow> (\<exists>s. authAt c s (ToLower token) = Some f) \<and>
        (\<forall>s g. authAt c s (ToLower token) = Some g \<longrightarrow> Expiration g \<le> Expiration f)) \<and>
    (\<forall>s t g. authAt c s t = Some g \<longrightarrow> notOlder g (authAt (AddAuthorizedFees signer fees c) s t)) \<and>
    (\<forall>(t, fee) \<in> set fees. notOlder fee (authAt (AddAuthorizedFees signer fees c) (ToLower signer) (ToLower t))) \<and>
    (\<forall>s t. s \<noteq> ToLower signer \<longrightarrow> authAt (AddAuthorizedFees signer fees c) s t = authAt c s t)"
proof (intro conjI)
  have mem: "(\<exists>s. authAt c s t = Some g) \<longleftrightarrow> (\<exists>m \<in> snd ` set (authorizedFees c). gget m t = Some g)" for t g
  proof
    assume "\<exists>s. authAt c s t = Some g"
    then obtain s where "gget (orNew (gget (authorizedFees c) s)) t = Some g"
      by (auto simp: authAt_def)
    then show "\<exists>m \<in> snd ` set (authorizedFees c). gget m t = Some g"
      by (cases "gget (authorizedFees c) s") (simp, metis map_of_SomeD image_eqI snd_conv orNew_simps(2))
  next
    assume "\<exists>m \<in> snd ` set (authorizedFees c). gget m t = Some g"
    then obtain s m where sm: "(s, m) \<in> set (authorizedFees c)" "gget m t = Some g"
      by auto
    have "gget (authorizedFees c) s = Some m"
      using assms sm(1) by (simp add: wfCache_def)
    then have "authAt c s t = Some g"
      using sm(2) by (simp add: authAt_def)
    then show "\<exists>s. authAt c s t = Some g" ..
  qed
  note fold = fold_betterFee [of "ToLower token" "authorizedFees c" None, folded GetAuthorizedFee_def]
  show "case GetAuthorizedFee c token of
      None \<Rightarrow> \<forall>s. authAt c s (ToLower token) = None
    | Some f \<Rightarrow> (\<exists>s. authAt c s (ToLower token) = Some f) \<and>
        (\<forall>s g. authAt c s (ToLower token) = Some g \<longrightarrow> Expiration g \<le> Expiration f)"
  proof (cases "GetAuthorizedFee c token")
    case None
    have "authAt c s (ToLower token) = None" for s
      using fold mem [of "ToLower token"] None by (metis not_Some_eq)
    then show ?thesis by (simp add: None)
  next
    case (Some f)
    then show ?thesis
      using fold mem [of "ToLower token"] by (simp only: option.case) blast
  qed
  show "\<forall>s t g. authAt c s t = Some g \<longrightarrow> notOlder g (authAt (AddAuthorizedFees signer fees c) s t)"
    using fold_authorizeFee_mono by (auto simp: authAt_Add) (auto simp: authAt_def notOlder_def)
  show "\<forall>(t, fee) \<in> set fees. notOlder fee (authAt (AddAuthorizedFees signer fees c) (ToLower signer) (ToLower t))"
    using fold_authorizeFee_entry by (auto simp: authAt_Add)
  show "\<forall>s t. s \<noteq> ToLower signer \<longrightarrow> authAt (AddAuthorizedFees signer fees c) s t = authAt c s t"
    by (simp add: authAt_Add)
qed

theorem authorized_fee_newest_witness:
  "notOlder (sampleFee ''9'' 1) (authAt (AddAuthorizedFees ''0zk1'' [(''0xT'', sampleFee ''9'' 1)] (NewFeeCache 0 [])) ''0zk1'' ''0xt'')"
proof -
  have low: "ToLower ''0zk1'' = ''0zk1''" "ToLower ''0xT'' = ''0xt''"
    by code_simp+
  show ?thesis
    using authorized_fee_newest [OF wfCache_ops(1) [of 0 "[]"], of "''0xT''" "''0zk1''" "[(''0xT'', sampleFee ''9'' 1)]"]
    by (simp add: low)
qed

section \<open>Versions\<close>

definition part :: "int list \<Rightarrow> int" where
  "part ps = (case ps of [] \<Rightarrow> 0 | p # _ \<Rightarrow> p)"

lemma compareParts_step:
  "compareParts as bs = (if part as < part bs then - 1 else if part as > part bs then 1 else compareParts (tl as) (tl bs))"
  by (cases as; cases bs) (simp_all add: part_def Let_def)

lemma compareParts_laws:
  "compareParts as bs \<in> {- 1, 0, 1} \<and> compareParts bs as = - compareParts as bs \<and>
   (compareParts as bs \<le> 0 \<longrightarrow> compareParts bs cs \<le> 0 \<longrightarrow> compareParts as cs \<le> 0)"
proof (induction "length as + length bs + length cs" arbitrary: as bs cs rule: less_induct)
  case less
  show ?case
  proof (cases "as = [] \<and> bs = [] \<and> cs = []")
    case False
    then have "length (tl as) + length (tl bs) + length (tl cs) < length as + length bs + length cs"
      by (auto simp: neq_Nil_conv)
    note IH = less.hyps [OF this]
    show ?thesis
      using IH unfolding compareParts_step [of as bs] compareParts_step [of bs as] compareParts_step [of bs cs] compareParts_step [of as cs]
      by (auto split: if_splits)
  qed simp
qed

text \<open>The comparison of versions is a total preorder: its sign flips when the arguments are
  swapped, and it is transitive. So the versions a configuration admits are exactly an interval.\<close>

theorem version_order:
  "versionCompare a b \<in> {- 1, 0, 1} \<and> versionCompare b a = - versionCompare a b \<and>
   (versionCompare a b \<le> 0 \<and> versionCompare b c \<le> 0 \<longrightarrow> versionCompare a c \<le> 0) \<and>
   (a \<noteq> [] \<longrightarrow> (invalidBroadcasterVersion a low high \<longleftrightarrow> \<not> (versionCompare low a \<le> 0 \<and> versionCompare a high \<le> 0)))"
  using compareParts_laws [of "parseVersionParts a" "parseVersionParts b" "parseVersionParts c"]
    compareParts_laws [of "parseVersionParts low" "parseVersionParts a" "[]"]
  by (auto simp: versionCompare_def invalidBroadcasterVersion_def Let_def)

section \<open>The connection status\<close>

lemma quotesOf_lookup:
  assumes "wfFees fees"
  shows "fee \<in> set (quotesOf f fees) \<longleftrightarrow> (\<exists>token addr ident. passes f addr \<and> feeIn fees token addr ident = Some fee)"
proof
  assume "fee \<in> set (quotesOf f fees)"
  then obtain token byB addr where m: "(token, byB) \<in> set fees" "passes f addr"
      "fee \<in> snd ` set (orNew (gget byB addr))"
    by (auto simp: quotesOf_def Filter_def)
  have tok: "gget fees token = Some byB"
    using assms m(1) by (simp add: wfFees_def)
  obtain ident where "(ident, fee) \<in> set (orNew (gget byB addr))"
    using m(3) by force
  moreover have "wfmap (orNew (gget byB addr))"
    using wfFees_parts(2) [OF assms tok, of addr] by (cases "gget byB addr") simp_all
  ultimately have "feeIn fees token addr ident = Some fee"
    by (simp add: feeIn_def tok)
  with m(2) show "\<exists>token addr ident. passes f addr \<and> feeIn fees token addr ident = Some fee"
    by blast
next
  assume "\<exists>token addr ident. passes f addr \<and> feeIn fees token addr ident = Some fee"
  then obtain token addr ident where q: "passes f addr" "feeIn fees token addr ident = Some fee"
    by blast
  then obtain byB byID where b: "gget fees token = Some byB" "gget byB addr = Some byID" "gget byID ident = Some fee"
    by (cases "gget fees token"; cases "gget (orNew (gget fees token)) addr") (simp_all add: feeIn_def)
  note mem = b [THEN map_of_SomeD]
  have "addr \<in> fst ` set byB" "fee \<in> snd ` set (orNew (gget byB addr))"
    using image_eqI [OF _ mem(2), of addr fst] image_eqI [OF _ mem(3), of fee snd] b(2) by simp_all
  then have "fee \<in> set (concat (map (\<lambda>addr. map snd (orNew (gget byB addr))) (Filter f (map fst byB))))"
    using q(1) by (auto simp: Filter_def intro!: bexI [of _ addr])
  then have "fee \<in> set ((\<lambda>(_, byBroadcaster). concat (map (\<lambda>addr. map snd (orNew (gget byBroadcaster addr)))
      (Filter f (map fst byBroadcaster)))) (token, byB))"
    by (simp only: prod.case)
  then show "fee \<in> set (quotesOf f fees)"
    unfolding quotesOf_def set_concat [of "map _ fees"] set_map [of _ fees] using mem(1) by blast
qed

text \<open>The client reports a connection exactly when its transport runs without an error,
  fees arrived within the timeout, and some quote of the chain passes the address filters, has not
  expired and has a wallet free. It reports that all are unavailable exactly when there are such
  quotes but none with a free wallet. The report changes nothing but, when the fees are stale, the
  time of the last message.\<close>

theorem connected_means_usable_quote:
  fixes cache :: FeeCache
  assumes "wfCache cache"
  shows "let live = (\<exists>t. transport = Some t \<and> \<not> tsHasError t \<and> tsStarted t) \<and>
        \<not> (lastSubscribedFeeMessageReceivedAt cache > 0 \<and> goInt (now - lastSubscribedFeeMessageReceivedAt cache) > FeeExpirationTimeoutMS cfg);
      quote = (\<lambda>fee. (\<exists>token addr ident. passes f addr \<and> feeAt cache (networkKey chain) token addr ident = Some fee) \<and>
        \<not> cachedFeeExpired (Expiration fee) now);
      result = connectionStatus now chain transport f cfg cache in
    (fst result = StatusConnected \<longleftrightarrow> live \<and> (\<exists>fee. quote fee \<and> AvailableWallets fee > 0)) \<and>
    (fst result = StatusAllUnavailable \<longleftrightarrow> live \<and> (\<exists>fee. quote fee) \<and> \<not> (\<exists>fee. quote fee \<and> AvailableWallets fee > 0)) \<and>
    (live \<longrightarrow> snd result = cache) \<and> (\<exists>time. snd result = TouchSubscribed time cache)"
proof -
  define fees where "fees = orNew (gget (forNetwork cache) (networkKey chain))"
  define quotes where "quotes = quotesOf f fees"
  have q: "(\<exists>token addr ident. passes f addr \<and> feeAt cache (networkKey chain) token addr ident = Some fee) \<longleftrightarrow> fee \<in> set quotes" for fee
    unfolding quotes_def feeAt_def fees_def by (rule quotesOf_lookup [symmetric, OF wfCache_network [OF assms]])
  have same: "cache = TouchSubscribed (lastSubscribedFeeMessageReceivedAt cache) cache"
    by (simp add: TouchSubscribed_def)
  have none: "fees = [] \<Longrightarrow> quotes = []"
    by (simp add: quotes_def quotesOf_def)
  have status: "connectionStatus now chain transport f cfg cache =
     (case transport of
        None \<Rightarrow> (StatusError, cache)
      | Some t \<Rightarrow>
          if tsHasError t then (StatusError, cache)
          else if \<not> tsStarted t then (StatusDisconnected, cache)
          else if lastSubscribedFeeMessageReceivedAt cache > 0 \<and>
             goInt (now - lastSubscribedFeeMessageReceivedAt cache) > FeeExpirationTimeoutMS cfg
          then (StatusDisconnected, TouchSubscribed (goInt (now + 5000)) cache)
          else if fees = [] then (StatusSearching, cache)
          else if \<forall>fee \<in> set quotes. cachedFeeExpired (Expiration fee) now then (StatusDisconnected, cache)
          else if \<not> (\<exists>fee \<in> set quotes. \<not> cachedFeeExpired (Expiration fee) now \<and> AvailableWallets fee > 0)
          then (StatusAllUnavailable, cache)
          else (StatusConnected, cache))"
    unfolding connectionStatus_def Let_def FeesForChain_def fees_def [symmetric] quotes_def [symmetric] filter_empty_conv
    by (cases transport) auto
  show ?thesis
    unfolding Let_def q status
    by (cases transport) (use none same in \<open>auto split: if_splits\<close>)
qed

theorem connected_means_usable_quote_witness:
  "fst (connectionStatus 1000 sampleChain (Some \<lparr>tsHasError = False, tsStarted = True\<rparr>) NewAddressFilter sampleBroadcasterConfig sampleFeeCache)
     = StatusConnected \<and>
   (\<exists>token addr ident fee. feeAt sampleFeeCache (networkKey sampleChain) token addr ident = Some fee \<and> AvailableWallets fee > 0)"
proof -
  have wf: "wfCache sampleFeeCache"
    by (simp add: sampleFeeCache_def wfCache_def wfFees_def)
  have run: "fst (connectionStatus 1000 sampleChain (Some \<lparr>tsHasError = False, tsStarted = True\<rparr>) NewAddressFilter sampleBroadcasterConfig sampleFeeCache)
     = StatusConnected"
    by code_simp
  show ?thesis
    using connected_means_usable_quote [OF wf, where transport = "Some \<lparr>tsHasError = False, tsStarted = True\<rparr>" and now = 1000
        and cfg = sampleBroadcasterConfig and f = NewAddressFilter and chain = sampleChain] run
    unfolding Let_def by blast
qed

section \<open>The random choice\<close>

text \<open>A randomly chosen broadcaster is eligible, and its fee exceeds that of the
  best one by no more than the threshold; with \<^verbatim>\<open>rand.Intn\<close> in its range, a choice is made whenever there
  is a best broadcaster whose fee is a number that is not negative.\<close>

theorem random_broadcaster_near_best:
  assumes "wfCache cache" and "\<And>n. 0 < n \<Longrightarrow> intn n < n" and "0 < percent" and "percent < 1000"
  shows "(\<forall>b. FindRandomBroadcasterForToken intn now cache f cfg chain token adapt percent = Some b \<longrightarrow>
      eligible now cache f cfg chain token adapt b \<and>
      (\<exists>best. FindBestBroadcaster now cache f cfg chain token adapt = Some best \<and> 100 * feeAmount b \<le> feeAmount best * (100 + percent))) \<and>
    (\<forall>best amount. FindBestBroadcaster now cache f cfg chain token adapt = Some best \<and>
      SetString (FeePerUnitGas (sbTokenFee best)) 10 = Some amount \<and> 0 \<le> amount \<longrightarrow>
      FindRandomBroadcasterForToken intn now cache f cfg chain token adapt percent \<noteq> None)"
proof -
  define xs where "xs = sortByAscendingFee (FindBroadcastersForToken now cache f cfg chain token adapt False)"
  have mem: "b \<in> set xs \<Longrightarrow> eligible now cache f cfg chain token adapt b" for b
    using FindBroadcasters_eligible [OF assms(1)] by (simp add: xs_def sortByAscendingFee_def)
  have pct: "goInt (100 + percent) = 100 + percent" "\<not> percent \<le> 0"
    using assms(3,4) by (simp_all add: goInt_def)
  show ?thesis
  proof (cases xs)
    case Nil
    then show ?thesis
      by (simp add: FindRandomBroadcasterForToken_def FindBestBroadcaster_def Let_def flip: xs_def)
  next
    case (Cons best rest)
    have bestIs: "FindBestBroadcaster now cache f cfg chain token adapt = Some best"
      by (simp add: FindBestBroadcaster_def Cons flip: xs_def)
    show ?thesis
    proof (cases "SetString (FeePerUnitGas (sbTokenFee best)) 10")
      case None
      then show ?thesis
        by (simp add: FindRandomBroadcasterForToken_def Let_def Cons bestIs pct flip: xs_def)
    next
      case (Some amount)
      define limit where "limit = (amount * (100 + percent)) div 100"
      define near where "near = filter (\<lambda>item. case SetString (FeePerUnitGas (sbTokenFee item)) 10 of
          None \<Rightarrow> False | Some fee \<Rightarrow> \<not> fee > limit) (best # rest)"
      have run: "FindRandomBroadcasterForToken intn now cache f cfg chain token adapt percent =
          (if near = [] then None else Some (near ! intn (length near)))"
        unfolding FindRandomBroadcasterForToken_def Let_def xs_def [symmetric] if_not_P [OF pct(2)] pct(1) Cons list.case
          Some option.case limit_def [symmetric] near_def [symmetric] by simp
      have least: "feeAmount best = amount"
        by (simp add: feeAmount_def Some)
      have inNear: "eligible now cache f cfg chain token adapt b \<and> 100 * feeAmount b \<le> amount * (100 + percent)"
        if "b \<in> set near" for b
      proof -
        from that have "b \<in> set xs" "feeAmount b \<le> limit"
          by (auto simp: near_def Cons feeAmount_def split: option.splits if_splits)
        then show ?thesis
          using mem by (auto simp: limit_def)
      qed
      have "near \<noteq> []" if "0 \<le> amount"
      proof -
        have "amount * 100 \<le> amount * (100 + percent)"
          using that assms(3) by (intro mult_left_mono) simp_all
        then have "amount \<le> limit"
          by (simp add: limit_def)
        then have "best \<in> set near"
          by (simp add: near_def Some)
        then show ?thesis by auto
      qed
      then show ?thesis
        using run inNear assms(2) [of "length near"] bestIs least Some by (auto split: if_splits)
    qed
  qed
qed

theorem random_broadcaster_near_best_witness:
  "FindRandomBroadcasterForToken (\<lambda>n. n - 1) 1000 sampleFeeCache NewAddressFilter sampleBroadcasterConfig sampleChain ''0xT'' False 5 \<noteq> None"
proof -
  have wf: "wfCache sampleFeeCache"
    by (simp add: sampleFeeCache_def wfCache_def wfFees_def)
  have best: "FindBestBroadcaster 1000 sampleFeeCache NewAddressFilter sampleBroadcasterConfig sampleChain ''0xT'' False =
     Some \<lparr>sbRailgunAddress = ''b2'', sbTokenAddress = ''0xT'', sbTokenFee = sampleFee ''9'' 1\<rparr>"
     "SetString (FeePerUnitGas (sampleFee ''9'' 1)) 10 = Some 9"
    by code_simp+
  show ?thesis
    using random_broadcaster_near_best [OF wf, of "\<lambda>n. n - 1" 5 1000 NewAddressFilter sampleBroadcasterConfig sampleChain "''0xT''" False] best
    by simp
qed

end
