(* ===== verification/Broadcaster.thy ===== *)
theory Broadcaster
  imports FeeCache
begin

text \<open>
  Models the messages of the broadcaster client: \<^verbatim>\<open>pkg/broadcaster/topics.go\<close>, the
  fee announcements of \<^verbatim>\<open>fees_message.go\<close>, the reply store of \<^verbatim>\<open>response.go\<close> and the
  sending of a transaction with its retries in \<^verbatim>\<open>transaction.go\<close>. JSON decoding, the
  ED25519 check and the decryption of replies are the fields of \<open>codec\<close>. What the network and
  the clock do while a transaction is sent is the argument \<open>env\<close>: for each round, whether
  publishing failed, the messages of the message store, and one entry per poll of the round.
\<close>

section \<open>topics.go\<close>

definition ContentTopicFees :: "Chain \<Rightarrow> string" where
  "ContentTopicFees chain = ''/railgun/v2/'' @ decimal (ChainType chain) @ ''-'' @ decimal (uint (ChainID chain)) @ ''-fees/json''"

definition ContentTopicTransact :: "Chain \<Rightarrow> string" where
  "ContentTopicTransact chain = ''/railgun/v2/'' @ decimal (ChainType chain) @ ''-'' @ decimal (uint (ChainID chain)) @ ''-transact/json''"

definition ContentTopicTransactResponse :: "Chain \<Rightarrow> string" where
  "ContentTopicTransactResponse chain =
     ''/railgun/v2/'' @ decimal (ChainType chain) @ ''-'' @ decimal (uint (ChainID chain)) @ ''-transact-response/json''"

section \<open>types.go: messages\<close>

record Message =
  Payload :: "byte list"
  ContentTopic :: string
  TimestampMS :: int

record FeeMessage =
  feeMessageData :: string
  feeMessageSignature :: string

record FeeMessageData =
  fdFees :: "(string, string) gomap"
  fdFeeExpiration :: int
  fdFeesID :: string
  fdRailgunAddress :: string
  fdIdentifier :: string
  fdAvailableWallets :: int
  fdVersion :: string
  fdRelayAdapt :: string
  fdRelayAdapt7702 :: string
  fdRequiredPOIListKeys :: "string list"
  fdReliability :: rat

record TransactResponse =
  trID :: string
  trTxHash :: string
  trError :: string

type_synonym EncryptedData = "string \<times> string"

record codec =
  unmarshalFeeMessage :: "byte list \<Rightarrow> FeeMessage res"
  unmarshalFeeData :: "byte list \<Rightarrow> FeeMessageData res"
  VerifyED25519 :: "byte list \<Rightarrow> byte list \<Rightarrow> byte list \<Rightarrow> bool"
  unmarshalResult :: "byte list \<Rightarrow> EncryptedData res"
  decryptResponse :: "EncryptedData \<Rightarrow> byte list \<Rightarrow> TransactResponse option"

section \<open>fees\_message.go\<close>

definition isExpiredFeeTimestamp :: "int \<Rightarrow> int \<Rightarrow> int \<Rightarrow> bool" where
  "isExpiredFeeTimestamp messageTimestampMS feeExpiration nowMS =
     (let expirationMsec = goInt (nowMS - 45 * 1000);
          expirationFeeMsec = goInt (nowMS + 45 * 1000);
          timestampExpired = messageTimestampMS < expirationMsec;
          feeExpired = feeExpiration < expirationFeeMsec
      in timestampExpired \<and> feeExpired)"

definition isHexString :: "string \<Rightarrow> bool" where
  "isHexString v \<longleftrightarrow> \<not> (length v = 0 \<or> length v mod 2 \<noteq> 0) \<and> (\<forall>c \<in> set v. hexVal c \<noteq> None)"

definition coerceBytes :: "string \<Rightarrow> byte list res" where
  "coerceBytes v =
     (let trimmed = TrimSpace v
      in if HasPrefix trimmed ''0x'' \<or> HasPrefix trimmed ''0X'' \<or> isHexString trimmed
         then hexDecode (TrimPrefix (TrimPrefix trimmed ''0x'') ''0X'')
         else Inr (map (\<lambda>c. word_of_int (of_char c)) trimmed))"

definition VerifyBroadcasterSignature :: "codec \<Rightarrow> string \<Rightarrow> string \<Rightarrow> byte list \<Rightarrow> bool res" where
  "VerifyBroadcasterSignature cod signature data viewingPublicKey =
     andThen (coerceBytes signature) (\<lambda>sigBytes.
     andThen (coerceBytes data) (\<lambda>dataBytes.
     Inr (VerifyED25519 cod dataBytes sigBytes viewingPublicKey)))"

text \<open>The fees of an announcement that are taken into the cache.\<close>

definition admitFee :: "BroadcasterConfig \<Rightarrow> FeeCache \<Rightarrow> bool \<Rightarrow> string \<times> string \<Rightarrow> bool" where
  "admitFee cfg cache isTrusted = (\<lambda>(tokenAddress, feePerUnitGas).
     if feePerUnitGas = [] then False
     else if \<not> isTrusted \<and> HasTrustedSigner cfg
     then (case GetAuthorizedFee cache tokenAddress of
         None \<Rightarrow> False
       | Some authorized \<Rightarrow> (case newAmount (FeePerUnitGas authorized) of
           None \<Rightarrow> False
         | Some authorizedAmount \<Rightarrow>
             (let lower = mulPct authorizedAmount (AuthorizedFeeVarianceLowerPct cfg);
                  upper = mulPct authorizedAmount (AuthorizedFeeVarianceUpperPct cfg);
                  minFee = authorizedAmount - lower;
                  maxFee = authorizedAmount + upper
              in case newAmount feePerUnitGas of
                   None \<Rightarrow> False
                 | Some amount \<Rightarrow> \<not> (amount < minFee \<or> amount > maxFee))))
     else True)"

definition quotedFee :: "FeeMessageData \<Rightarrow> string \<Rightarrow> CachedTokenFee" where
  "quotedFee feeData feePerUnitGas =
     \<lparr>FeePerUnitGas = feePerUnitGas, Expiration = fdFeeExpiration feeData, FeesID = fdFeesID feeData,
      AvailableWallets = fdAvailableWallets feeData, RelayAdapt = fdRelayAdapt feeData,
      RelayAdapt7702 = fdRelayAdapt7702 feeData, Reliability = fdReliability feeData\<rparr>"

definition storeFees :: "int \<Rightarrow> Chain \<Rightarrow> BroadcasterConfig \<Rightarrow> FeeMessageData \<Rightarrow> FeeCache \<Rightarrow> FeeCache" where
  "storeFees now chain cfg feeData cache =
     (let isTrusted = IsTrustedSigner cfg (fdRailgunAddress feeData);
          tokenFeeMap = map (\<lambda>(token, amount). (token, quotedFee feeData amount)) (filter (admitFee cfg cache isTrusted) (fdFees feeData));
          cache = (if isTrusted then AddAuthorizedFees (fdRailgunAddress feeData) tokenFeeMap cache else cache)
      in if tokenFeeMap = [] then cache
         else AddTokenFees now chain (fdRailgunAddress feeData) (fdFeeExpiration feeData) tokenFeeMap (fdIdentifier feeData)
           (fdVersion feeData) (fdRequiredPOIListKeys feeData) cfg cache)"

definition HandleFeesMessage ::
  "codec \<Rightarrow> int \<Rightarrow> Chain \<Rightarrow> Message \<Rightarrow> string \<Rightarrow> BroadcasterConfig \<Rightarrow> FeeCache \<Rightarrow> FeeCache" where
  "HandleFeesMessage cod now chain msg expectedTopic cfg cache =
     (if Payload msg = [] then cache
      else if ContentTopic msg \<noteq> [] \<and> ContentTopic msg \<noteq> expectedTopic then cache
      else case unmarshalFeeMessage cod (Payload msg) of
        Inl _ \<Rightarrow> cache
      | Inr envelope \<Rightarrow> (case HexToBytes (feeMessageData envelope) of
        Inl _ \<Rightarrow> cache
      | Inr utf8Data \<Rightarrow> (case unmarshalFeeData cod utf8Data of
        Inl _ \<Rightarrow> cache
      | Inr feeData \<Rightarrow>
        (let timestampMS = (if TimestampMS msg = 0 then now else TimestampMS msg);
             timestampMS = (if timestampMS > 0 \<and> timestampMS < 10000000000 then timestampMS * 1000 else timestampMS)
         in if isExpiredFeeTimestamp timestampMS (fdFeeExpiration feeData) now then cache
         else if invalidBroadcasterVersion (fdVersion feeData) (MinimumBroadcasterVersion cfg) (MaximumBroadcasterVersion cfg) then cache
         else case Decode (fdRailgunAddress feeData) of
           Inl _ \<Rightarrow> cache
         | Inr addressData \<Rightarrow> (case HexToBytes (adViewingPublicKey addressData) of
           Inl _ \<Rightarrow> cache
         | Inr viewingPub \<Rightarrow>
             if \<not> IsDev cfg \<and> VerifyBroadcasterSignature cod (feeMessageSignature envelope) (feeMessageData envelope) viewingPub \<noteq> Inr True
             then cache
             else storeFees now chain cfg feeData cache)))))"

section \<open>response.go\<close>

text \<open>An empty shared key and a nil one are told apart nowhere.\<close>

record TransactResponseStore =
  sharedKey :: "byte list"
  response :: "TransactResponse option"

definition NewTransactResponseStore :: TransactResponseStore where
  "NewTransactResponseStore = \<lparr>sharedKey = [], response = None\<rparr>"

definition SetSharedKey :: "byte list \<Rightarrow> TransactResponseStore \<Rightarrow> TransactResponseStore" where
  "SetSharedKey key s = s\<lparr>sharedKey := key, response := None\<rparr>"

definition Clear :: "TransactResponseStore \<Rightarrow> TransactResponseStore" where
  "Clear s = s\<lparr>sharedKey := [], response := None\<rparr>"

definition HandleMessage :: "codec \<Rightarrow> Message \<Rightarrow> TransactResponseStore \<Rightarrow> TransactResponseStore" where
  "HandleMessage cod msg s =
     (if sharedKey s = [] \<or> Payload msg = [] then s
      else case unmarshalResult cod (Payload msg) of
        Inl _ \<Rightarrow> s
      | Inr encrypted \<Rightarrow> (case decryptResponse cod encrypted (sharedKey s) of
          None \<Rightarrow> s
        | Some resp \<Rightarrow> s\<lparr>response := Some resp\<rparr>))"

section \<open>transaction.go\<close>

definition secondsPerRetry :: nat where "secondsPerRetry = 2"
definition retryTransactionSeconds :: nat where "retryTransactionSeconds = 20"
definition postAlertTotalWaitingSeconds :: nat where "postAlertTotalWaitingSeconds = 120"

datatype retryState = retryTransact | retryWait | retryTimeout

definition broadcastRetryState :: "nat \<Rightarrow> retryState" where
  "broadcastRetryState retryNumber =
     (let retrySeconds = retryNumber * secondsPerRetry
      in if retrySeconds \<le> retryTransactionSeconds then retryTransact
         else if retrySeconds \<ge> postAlertTotalWaitingSeconds then retryTimeout
         else retryWait)"

definition checksumAddress :: "string \<Rightarrow> string" where
  "checksumAddress address =
     (let address = TrimSpace address;
          address = (if \<not> HasPrefix address ''0x'' \<and> \<not> HasPrefix address ''0X'' then ''0x'' @ address else address)
      in ''0x'' @ ToLower (TrimPrefix (TrimPrefix address ''0x'') ''0X''))"

text \<open>One poll: the messages that arrived before it, the context, the answer of the nullifier
  lookup if there is one, and the context while it waits for the next poll. One round: the messages
  of the message store and its polls, as many as fit before the deadline.\<close>

record poll =
  arrived :: "Message list"
  pollCtx :: ctx
  lookup :: "(string \<times> bool) res option"
  waitCtx :: ctx

record round =
  stored :: "Message list"
  polls :: "poll list"

definition answerOf :: "TransactResponse option \<Rightarrow> string res option" where
  "answerOf r = (case r of
      None \<Rightarrow> None
    | Some resp \<Rightarrow>
        if trTxHash resp \<noteq> [] then Some (Inr (trTxHash resp))
        else if trError resp \<noteq> []
        then Some (Inl (Errorf ''received response error from broadcaster: %s'' [AStr (trError resp)]))
        else None)"

definition lookupHit :: "(string \<times> bool) res option \<Rightarrow> string option" where
  "lookupHit l = (case l of
      Some (Inr (txid, ok)) \<Rightarrow> if ok \<and> txid \<noteq> [] then Some txid else None
    | _ \<Rightarrow> None)"

fun pollLoop :: "codec \<Rightarrow> poll list \<Rightarrow> TransactResponseStore \<Rightarrow> string res option \<times> TransactResponseStore" where
  "pollLoop cod [] s = (None, s)"
| "pollLoop cod (p # ps) s =
     (let s = fold (HandleMessage cod) (arrived p) s
      in case pollCtx p of
        Some e \<Rightarrow> (Some (Inl e), Clear s)
      | None \<Rightarrow> (case answerOf (response s) of
          Some r \<Rightarrow> (Some r, Clear s)
        | None \<Rightarrow> (case lookupHit (lookup p) of
            Some txid \<Rightarrow> (Some (Inr txid), Clear s)
          | None \<Rightarrow> (case waitCtx p of
              Some e \<Rightarrow> (Some (Inl e), Clear s)
            | None \<Rightarrow> pollLoop cod ps s))))"

text \<open>The rounds; the last component counts the times the payload was published. A failure to
  publish is only logged.\<close>

function broadcast :: "codec \<Rightarrow> (nat \<Rightarrow> round) \<Rightarrow> nat \<Rightarrow> TransactResponseStore \<Rightarrow> nat \<Rightarrow> string res \<times> TransactResponseStore \<times> nat" where
  "broadcast cod env retryNumber s published =
     (if broadcastRetryState retryNumber = retryTimeout
      then (Err ''request timed out'', Clear s, published)
      else let published = (if broadcastRetryState retryNumber = retryTransact then published + 1 else published);
               s = fold (HandleMessage cod) (stored (env retryNumber)) s
           in case pollLoop cod (polls (env retryNumber)) s of
                (Some r, s) \<Rightarrow> (r, s, published)
              | (None, s) \<Rightarrow> broadcast cod env (retryNumber + 1) s published)"
  by pat_completeness auto
termination
  by (relation "measure (\<lambda>(_, _, n, _). 60 - n)")
    (auto simp: broadcastRetryState_def Let_def secondsPerRetry_def postAlertTotalWaitingSeconds_def
      retryTransactionSeconds_def split: if_splits)

declare broadcast.simps [simp del]

definition Send :: "codec \<Rightarrow> (nat \<Rightarrow> round) \<Rightarrow> TransactResponseStore \<Rightarrow> string res \<times> TransactResponseStore \<times> nat" where
  "Send cod env s = broadcast cod env 0 s 0"

section \<open>What a fee announcement can change\<close>

text \<open>The time of a message in milliseconds; no time means now, and a time before 10000000000 is in seconds.\<close>

definition messageTime :: "int \<Rightarrow> Message \<Rightarrow> int" where
  "messageTime now msg =
     (if TimestampMS msg = 0 then (if 0 < now \<and> now < 10000000000 then now * 1000 else now)
      else if 0 < TimestampMS msg \<and> TimestampMS msg < 10000000000 then TimestampMS msg * 1000 else TimestampMS msg)"

text \<open>The data of a message that passed every check: its topic, which is empty or the expected one, its version,
  its time (it is at most 45 seconds old or its fees last at least 45 seconds more), and, outside of
  development, its signature under the viewing key of the announced address.\<close>

definition authentic :: "codec \<Rightarrow> int \<Rightarrow> Message \<Rightarrow> string \<Rightarrow> BroadcasterConfig \<Rightarrow> FeeMessageData \<Rightarrow> bool" where
  "authentic cod now msg expectedTopic cfg feeData \<longleftrightarrow>
     (ContentTopic msg = [] \<or> ContentTopic msg = expectedTopic) \<and>
     \<not> invalidBroadcasterVersion (fdVersion feeData) (MinimumBroadcasterVersion cfg) (MaximumBroadcasterVersion cfg) \<and>
     (goInt (now - 45000) \<le> messageTime now msg \<or> goInt (now + 45000) \<le> fdFeeExpiration feeData) \<and>
     (\<exists>envelope utf8Data addressData viewingPub.
        unmarshalFeeMessage cod (Payload msg) = Inr envelope \<and>
        HexToBytes (feeMessageData envelope) = Inr utf8Data \<and> unmarshalFeeData cod utf8Data = Inr feeData \<and>
        Decode (fdRailgunAddress feeData) = Inr addressData \<and> HexToBytes (adViewingPublicKey addressData) = Inr viewingPub \<and>
        (IsDev cfg \<or>
         VerifyBroadcasterSignature cod (feeMessageSignature envelope) (feeMessageData envelope) viewingPub = Inr True))"

lemma HandleFeesMessage_cases:
  obtains "HandleFeesMessage cod now chain msg topic cfg cache = cache"
    | feeData where "authentic cod now msg topic cfg feeData"
      "HandleFeesMessage cod now chain msg topic cfg cache = storeFees now chain cfg feeData cache"
proof (cases "HandleFeesMessage cod now chain msg topic cfg cache = cache")
  case False
  then obtain envelope utf8Data feeData addressData viewingPub where
      "unmarshalFeeMessage cod (Payload msg) = Inr envelope" "HexToBytes (feeMessageData envelope) = Inr utf8Data"
      "unmarshalFeeData cod utf8Data = Inr feeData" "Decode (fdRailgunAddress feeData) = Inr addressData"
      "HexToBytes (adViewingPublicKey addressData) = Inr viewingPub"
      "ContentTopic msg = [] \<or> ContentTopic msg = topic"
      "\<not> invalidBroadcasterVersion (fdVersion feeData) (MinimumBroadcasterVersion cfg) (MaximumBroadcasterVersion cfg)"
      "IsDev cfg \<or> VerifyBroadcasterSignature cod (feeMessageSignature envelope) (feeMessageData envelope) viewingPub = Inr True"
      "\<not> isExpiredFeeTimestamp (messageTime now msg) (fdFeeExpiration feeData) now"
      "HandleFeesMessage cod now chain msg topic cfg cache = storeFees now chain cfg feeData cache"
    unfolding HandleFeesMessage_def Let_def messageTime_def by (auto split: if_splits sum.splits)
  then show ?thesis
    using that(2) [of feeData] by (auto simp: authentic_def isExpiredFeeTimestamp_def Let_def not_less)
qed (rule that(1))

text \<open>The range in which the fee of a broadcaster that is not trusted must lie.\<close>

definition nearAuthorized :: "BroadcasterConfig \<Rightarrow> FeeCache \<Rightarrow> string \<Rightarrow> string \<Rightarrow> bool" where
  "nearAuthorized cfg cache token amount \<longleftrightarrow>
     (\<exists>authorized n m. GetAuthorizedFee cache token = Some authorized \<and> newAmount (FeePerUnitGas authorized) = Some n \<and>
        newAmount amount = Some m \<and>
        n - (n * AuthorizedFeeVarianceLowerPct cfg) div 100 \<le> m \<and> m \<le> n + (n * AuthorizedFeeVarianceUpperPct cfg) div 100)"

lemma admitFee_near: "admitFee cfg cache False (token, amount) \<Longrightarrow> HasTrustedSigner cfg \<Longrightarrow> nearAuthorized cfg cache token amount"
  by (auto simp: admitFee_def nearAuthorized_def mulPct_def Let_def split: if_splits option.splits)

lemma fold_putFee_change:
  "feeIn (fold (putFee addr ident) es fees) t a i = x \<Longrightarrow> x \<noteq> feeIn fees t a i \<Longrightarrow>
   a = addr \<and> i = ident \<and> (\<exists>(token, fee) \<in> set es. ToLower token = t \<and> x = Some fee)"
proof (induction es arbitrary: fees)
  case (Cons e es)
  obtain token fee where e: "e = (token, fee)"
    by fastforce
  show ?case
  proof (cases "x = feeIn (putFee addr ident e fees) t a i")
    case True
    then show ?thesis
      using Cons.prems(2) by (auto simp: e feeIn_putFee split: if_splits)
  next
    case False
    then show ?thesis
      using Cons.IH [of "putFee addr ident e fees"] Cons.prems(1) by auto
  qed
qed simp

lemma forNetwork_authorized [simp]: "feeAt (AddAuthorizedFees signer fees c) = feeAt c"
  by (intro ext) (simp add: feeAt_def AddAuthorizedFees_def Let_def)

lemma authAt_AddTokenFees [simp]: "authAt (AddTokenFees now chain addr expiry fees ident version required cfg c) = authAt c"
  by (intro ext) (simp add: authAt_def AddTokenFees_cases)

lemma storeFees_change:
  assumes "feeAt (storeFees now chain cfg fd cache) net t a i = x" and "x \<noteq> feeAt cache net t a i"
  shows "net = networkKey chain \<and> a = fdRailgunAddress fd \<and> \<not> cachedFeeExpired (fdFeeExpiration fd) now \<and>
    (\<exists>(token, amount) \<in> set (fdFees fd). ToLower token = t \<and> x = Some (quotedFee fd amount) \<and>
      admitFee cfg cache (IsTrustedSigner cfg (fdRailgunAddress fd)) (token, amount))"
proof -
  define isTrusted where "isTrusted = IsTrustedSigner cfg (fdRailgunAddress fd)"
  define es where "es = map (\<lambda>(token, amount). (token, quotedFee fd amount)) (filter (admitFee cfg cache isTrusted) (fdFees fd))"
  define c where "c = (if isTrusted then AddAuthorizedFees (fdRailgunAddress fd) es cache else cache)"
  have at: "feeAt c = feeAt cache"
    by (simp add: c_def)
  have run: "storeFees now chain cfg fd cache = (if es = [] then c else
      AddTokenFees now chain (fdRailgunAddress fd) (fdFeeExpiration fd) es (fdIdentifier fd) (fdVersion fd) (fdRequiredPOIListKeys fd) cfg c)"
    by (simp add: storeFees_def Let_def c_def es_def isTrusted_def)
  have acc: "net = networkKey chain" "\<not> cachedFeeExpired (fdFeeExpiration fd) now"
    using assms at by (auto simp: run feeAt_AddTokenFees acceptable_def split: if_splits)
  have "a = fdRailgunAddress fd \<and> (\<exists>(token, fee) \<in> set es. ToLower token = t \<and> x = Some fee)"
    using assms at fold_putFee_change [of "fdRailgunAddress fd" _ es "orNew (gget (forNetwork c) net)" t a i x]
    by (auto simp: run feeAt_AddTokenFees split: if_splits) (auto simp: feeAt_def fun_eq_iff)
  with acc show ?thesis
    by (auto simp: es_def isTrusted_def)
qed

lemma fold_authorizeFee_change:
  "gget (fold authorizeFee es m) t \<noteq> gget m t \<Longrightarrow>
   \<exists>(token, fee) \<in> set es. ToLower token = t \<and> gget (fold authorizeFee es m) t = Some fee"
proof (induction es arbitrary: m)
  case (Cons e es)
  obtain token fee where e: "e = (token, fee)" by fastforce
  show ?case
  proof (cases "gget (fold authorizeFee es (authorizeFee e m)) t = gget (authorizeFee e m) t")
    case True
    then show ?thesis using Cons.prems by (auto simp: e authorizeFee_def gget_gput Let_def split: if_splits option.splits)
  next
    case False
    then show ?thesis using Cons.IH by auto
  qed
qed simp

lemma storeFees_authorized:
  assumes "authAt (storeFees now chain cfg fd cache) s t \<noteq> authAt cache s t"
  shows "IsTrustedSigner cfg (fdRailgunAddress fd) \<and> s = ToLower (fdRailgunAddress fd) \<and>
      (\<exists>token amount. (token, amount) \<in> set (fdFees fd) \<and> ToLower token = t \<and>
        authAt (storeFees now chain cfg fd cache) s t = Some (quotedFee fd amount))"
proof -
  define es where "es = map (\<lambda>(token, amount). (token, quotedFee fd amount))
    (filter (admitFee cfg cache (IsTrustedSigner cfg (fdRailgunAddress fd))) (fdFees fd))"
  have trusted: "IsTrustedSigner cfg (fdRailgunAddress fd)"
    using assms by (auto simp: storeFees_def Let_def split: if_splits)
  then have "authAt (storeFees now chain cfg fd cache) = authAt (AddAuthorizedFees (fdRailgunAddress fd) es cache)"
    by (auto simp: storeFees_def Let_def es_def fun_eq_iff)
  then show ?thesis
    using assms trusted fold_authorizeFee_change [of es "orNew (gget (authorizedFees cache) s)" t]
    by (auto simp: authAt_Add es_def split: if_splits) (auto simp: authAt_def)
qed

text \<open>C28: Whatever quote a fee message changes, the message passed every check: its topic is
  empty or the expected one, it was signed by the viewing key inside the announced address (outside of
  development), has an admitted version, and is at most 45 seconds old or announces fees that last at least 45
  seconds more; its fees have not expired. The new quote stands under the chain,
  the announced address and an announced token, with the announced amount; and when trusted signers
  are configured and the sender is not one of them, the amount is a number in the range around the
  authorized fee of the token. An authorized fee changes only by a message of a trusted signer that passed these
  checks, whether or not its fees have expired, and only for that signer and an announced token, whose quote it becomes.\<close>

theorem cached_fee_authenticated:
  fixes cache :: FeeCache
  shows "let cache' = HandleFeesMessage cod now chain msg topic cfg cache in
    (\<forall>net t a i. feeAt cache' net t a i \<noteq> feeAt cache net t a i \<longrightarrow>
      (\<exists>fd token amount. authentic cod now msg topic cfg fd \<and> net = networkKey chain \<and> a = fdRailgunAddress fd \<and>
        \<not> cachedFeeExpired (fdFeeExpiration fd) now \<and> (token, amount) \<in> set (fdFees fd) \<and> ToLower token = t \<and>
        feeAt cache' net t a i = Some (quotedFee fd amount) \<and>
        (IsTrustedSigner cfg a \<or> \<not> HasTrustedSigner cfg \<or> nearAuthorized cfg cache token amount))) \<and>
    (\<forall>s t. authAt cache' s t \<noteq> authAt cache s t \<longrightarrow>
      (\<exists>fd token amount. authentic cod now msg topic cfg fd \<and> IsTrustedSigner cfg (fdRailgunAddress fd) \<and> s = ToLower (fdRailgunAddress fd) \<and>
        (token, amount) \<in> set (fdFees fd) \<and> ToLower token = t \<and> authAt cache' s t = Some (quotedFee fd amount)))"
proof (cases rule: HandleFeesMessage_cases [of cod now chain msg topic cfg cache])
  case 1
  then show ?thesis by simp
next
  case (2 fd)
  have quotes: "\<exists>token amount. net = networkKey chain \<and> a = fdRailgunAddress fd \<and>
      \<not> cachedFeeExpired (fdFeeExpiration fd) now \<and> (token, amount) \<in> set (fdFees fd) \<and> ToLower token = t \<and>
      feeAt (storeFees now chain cfg fd cache) net t a i = Some (quotedFee fd amount) \<and>
      (IsTrustedSigner cfg a \<or> \<not> HasTrustedSigner cfg \<or> nearAuthorized cfg cache token amount)"
    if "feeAt (storeFees now chain cfg fd cache) net t a i \<noteq> feeAt cache net t a i" for net t a i
    using storeFees_change [OF refl that] admitFee_near [of cfg cache]
    by (cases "IsTrustedSigner cfg (fdRailgunAddress fd)") fastforce+
  have auth: "IsTrustedSigner cfg (fdRailgunAddress fd) \<and> s = ToLower (fdRailgunAddress fd) \<and>
      (\<exists>token amount. (token, amount) \<in> set (fdFees fd) \<and> ToLower token = t \<and>
        authAt (storeFees now chain cfg fd cache) s t = Some (quotedFee fd amount))"
    if "authAt (storeFees now chain cfg fd cache) s t \<noteq> authAt cache s t" for s t
    by (rule storeFees_authorized [OF that])
  show ?thesis
    unfolding Let_def 2(2) using 2(1) quotes auth by blast
qed

text \<open>A codec whose JSON is fixed, and an announcement with a wrong signature.\<close>

definition sampleAnnouncement :: FeeMessageData where
  "sampleAnnouncement = \<lparr>fdFees = [(''0xT'', ''9'')], fdFeeExpiration = 900000, fdFeesID = ''id'', fdRailgunAddress = ''0zk1'',
     fdIdentifier = ''x'', fdAvailableWallets = 1, fdVersion = ''8.1.0'', fdRelayAdapt = [], fdRelayAdapt7702 = [],
     fdRequiredPOIListKeys = [], fdReliability = 1\<rparr>"

definition sampleCodec :: codec where
  "sampleCodec = \<lparr>unmarshalFeeMessage = (\<lambda>_. Inr \<lparr>feeMessageData = ''00'', feeMessageSignature = ''00''\<rparr>),
     unmarshalFeeData = (\<lambda>_. Inr sampleAnnouncement), VerifyED25519 = (\<lambda>_ _ _. False),
     unmarshalResult = (\<lambda>_. Inr ([], [])), decryptResponse = (\<lambda>_ key. if key = [1] then Some \<lparr>trID = [], trTxHash = ''0xab'', trError = []\<rparr> else None)\<rparr>"

theorem cached_fee_authenticated_witness:
  "feeAt (HandleFeesMessage sampleCodec 1000 sampleChain \<lparr>Payload = [1], ContentTopic = [], TimestampMS = 1000\<rparr> [] sampleBroadcasterConfig sampleFeeCache)
     = feeAt sampleFeeCache"
proof -
  have "\<not> authentic sampleCodec 1000 \<lparr>Payload = [1], ContentTopic = [], TimestampMS = 1000\<rparr> [] sampleBroadcasterConfig fd" for fd
    by (auto simp: authentic_def sampleCodec_def VerifyBroadcasterSignature_def sampleBroadcasterConfig_def andThen_Inr)
  then show ?thesis
    using cached_fee_authenticated [of sampleCodec 1000 sampleChain "\<lparr>Payload = [1], ContentTopic = [], TimestampMS = 1000\<rparr>" "[]" sampleBroadcasterConfig sampleFeeCache]
    unfolding Let_def by (intro ext) blast
qed

section \<open>What sending a transaction can return\<close>

text \<open>The replies that a message can put into the store.\<close>

definition replyTo :: "codec \<Rightarrow> byte list \<Rightarrow> Message set \<Rightarrow> TransactResponse \<Rightarrow> bool" where
  "replyTo cod key msgs resp \<longleftrightarrow>
     (\<exists>msg \<in> msgs. \<exists>encrypted. unmarshalResult cod (Payload msg) = Inr encrypted \<and> decryptResponse cod encrypted key = Some resp)"

definition answered :: "codec \<Rightarrow> byte list \<Rightarrow> Message set \<Rightarrow> TransactResponseStore \<Rightarrow> bool" where
  "answered cod key msgs s \<longleftrightarrow> sharedKey s = key \<and> (\<forall>resp. response s = Some resp \<longrightarrow> replyTo cod key msgs resp)"

lemma answered_HandleMessage: "answered cod key msgs s \<Longrightarrow> msg \<in> msgs \<Longrightarrow> answered cod key msgs (HandleMessage cod msg s)"
  by (auto simp: answered_def HandleMessage_def replyTo_def split: sum.splits option.splits)

lemma answered_fold: "answered cod key msgs s \<Longrightarrow> set ms \<subseteq> msgs \<Longrightarrow> answered cod key msgs (fold (HandleMessage cod) ms s)"
  by (induction ms arbitrary: s) (simp_all add: answered_HandleMessage)

definition roundMessages :: "(nat \<Rightarrow> round) \<Rightarrow> Message set" where
  "roundMessages env = (\<Union>n < 60. set (stored (env n)) \<union> (\<Union>p \<in> set (polls (env n)). set (arrived p)))"

definition roundPolls :: "(nat \<Rightarrow> round) \<Rightarrow> poll set" where
  "roundPolls env = (\<Union>n < 60. set (polls (env n)))"

text \<open>A transaction hash comes from a reply under the shared key or from the lookup.\<close>

definition hashFrom :: "codec \<Rightarrow> byte list \<Rightarrow> Message set \<Rightarrow> poll set \<Rightarrow> string \<Rightarrow> bool" where
  "hashFrom cod key msgs ps hash \<longleftrightarrow> hash \<noteq> [] \<and>
     ((\<exists>resp. replyTo cod key msgs resp \<and> trTxHash resp = hash) \<or> (\<exists>p \<in> ps. lookup p = Some (Inr (hash, True))))"

lemma lookupHit_Some: "lookupHit l = Some txid \<longleftrightarrow> l = Some (Inr (txid, True)) \<and> txid \<noteq> []"
  by (auto simp: lookupHit_def split: option.splits sum.splits if_splits)

lemma answerOf_hash: "answerOf (response s) = Some (Inr hash) \<Longrightarrow> hash \<noteq> [] \<and> (\<exists>resp. response s = Some resp \<and> trTxHash resp = hash)"
  by (auto simp: answerOf_def split: option.splits if_splits)

lemma Clear_same: "s = Clear s \<longleftrightarrow> sharedKey s = [] \<and> response s = None"
  by (cases s) (auto simp: Clear_def)

lemma pollLoop_result:
  assumes "answered cod key msgs s" and "(\<Union>p \<in> set ps. set (arrived p)) \<subseteq> msgs" and "set ps \<subseteq> all"
    and "pollLoop cod ps s = (r, s')"
  shows "(r = None \<longrightarrow> answered cod key msgs s') \<and> (r \<noteq> None \<longrightarrow> s' = Clear s') \<and>
    (\<forall>hash. r = Some (Inr hash) \<longrightarrow> hashFrom cod key msgs all hash)"
  using assms
proof (induction ps arbitrary: s)
  case (Cons p ps)
  define s1 where "s1 = fold (HandleMessage cod) (arrived p) s"
  have ans: "answered cod key msgs s1"
    unfolding s1_def using Cons.prems(1,2) by (intro answered_fold) auto
  have IH: "pollLoop cod ps s1 = (r, s') \<Longrightarrow> ?case"
    using Cons.IH [OF ans] Cons.prems(2,3) by auto
  have run: "pollLoop cod (p # ps) s = (case pollCtx p of
        Some e \<Rightarrow> (Some (Inl e), Clear s1)
      | None \<Rightarrow> (case answerOf (response s1) of
          Some r \<Rightarrow> (Some r, Clear s1)
        | None \<Rightarrow> (case lookupHit (lookup p) of
            Some txid \<Rightarrow> (Some (Inr txid), Clear s1)
          | None \<Rightarrow> (case waitCtx p of
              Some e \<Rightarrow> (Some (Inl e), Clear s1)
            | None \<Rightarrow> pollLoop cod ps s1))))"
    by (simp only: pollLoop.simps Let_def s1_def)
  have reply: "hashFrom cod key msgs all hash" if "answerOf (response s1) = Some (Inr hash)" for hash
    using answerOf_hash [OF that] ans by (auto simp: hashFrom_def answered_def)
  have found: "hashFrom cod key msgs all txid" if "lookupHit (lookup p) = Some txid" for txid
    using that Cons.prems(3) by (auto simp: hashFrom_def lookupHit_Some)
  have clear: "Clear s1 = Clear (Clear s1)"
    by (simp add: Clear_def)
  show ?case
    using Cons.prems(4) IH reply found clear unfolding run
    by (auto split: option.splits)
qed simp

lemma broadcast_result:
  assumes "answered cod key (roundMessages env) s" and "n \<le> 60"
    and "broadcast cod env n s k = (res, s', k')"
  shows "s' = Clear s' \<and> k' \<le> k + (11 - n) \<and> (\<forall>hash. res = Inr hash \<longrightarrow> hashFrom cod key (roundMessages env) (roundPolls env) hash)"
  using assms
proof (induction "60 - n" arbitrary: n s k rule: less_induct)
  case less
  have run: "broadcast cod env n s k =
     (if broadcastRetryState n = retryTimeout then (Err ''request timed out'', Clear s, k)
      else case pollLoop cod (polls (env n)) (fold (HandleMessage cod) (stored (env n)) s) of
          (Some r, s) \<Rightarrow> (r, s, if broadcastRetryState n = retryTransact then k + 1 else k)
        | (None, s) \<Rightarrow> broadcast cod env (n + 1) s (if broadcastRetryState n = retryTransact then k + 1 else k))"
    by (subst broadcast.simps) (simp add: Let_def)
  have state: "broadcastRetryState n = retryTimeout \<longleftrightarrow> 60 \<le> n" "broadcastRetryState n = retryTransact \<longleftrightarrow> n \<le> 10"
    by (auto simp: broadcastRetryState_def Let_def secondsPerRetry_def postAlertTotalWaitingSeconds_def retryTransactionSeconds_def)
  show ?case
  proof (cases "60 \<le> n")
    case True
    with less.prems(3) state show ?thesis
      by (auto simp: run Clear_def)
  next
    case False
    have msgs: "set (stored (env n)) \<subseteq> roundMessages env" "(\<Union>p \<in> set (polls (env n)). set (arrived p)) \<subseteq> roundMessages env"
        "set (polls (env n)) \<subseteq> roundPolls env"
      using False by (auto simp: roundMessages_def roundPolls_def intro!: bexI [of _ n])
    define s1 where "s1 = fold (HandleMessage cod) (stored (env n)) s"
    have s1: "answered cod key (roundMessages env) s1"
      unfolding s1_def by (rule answered_fold [OF less.prems(1) msgs(1)])
    obtain r s2 where p: "pollLoop cod (polls (env n)) s1 = (r, s2)"
      by fastforce
    note loop = pollLoop_result [OF s1 msgs(2,3) p]
    show ?thesis
    proof (cases r)
      case None
      then have "broadcast cod env (n + 1) s2 (if n \<le> 10 then k + 1 else k) = (res, s', k')"
        using less.prems(3) p state False by (simp add: run s1_def)
      moreover have "60 - (n + 1) < 60 - n" "n + 1 \<le> 60" "answered cod key (roundMessages env) s2"
        using False loop None by simp_all
      ultimately have "s' = Clear s' \<and> k' \<le> (if n \<le> 10 then k + 1 else k) + (11 - (n + 1)) \<and>
          (\<forall>hash. res = Inr hash \<longrightarrow> hashFrom cod key (roundMessages env) (roundPolls env) hash)"
        using less.hyps by blast
      then show ?thesis
        by (elim conjE) (intro conjI, assumption, auto split: if_splits)
    next
      case (Some x)
      then show ?thesis
        using less.prems(3) p state False loop by (auto simp: run s1_def split: if_splits)
    qed
  qed
qed

text \<open>C29: Sending a transaction always ends, after at most 60 rounds, whatever the network does. The
  payload is published at most eleven times. At the end the shared key and the reply are
  forgotten. A returned hash is not empty, and either a reply that decrypts under the shared key
  of this transaction carries it, or the nullifier lookup found it.\<close>

theorem send_result:
  assumes "Send cod env (SetSharedKey key s) = (res, s', published)"
  shows "sharedKey s' = [] \<and> response s' = None \<and> published \<le> 11 \<and>
    (\<forall>hash. res = Inr hash \<longrightarrow> hashFrom cod key (roundMessages env) (roundPolls env) hash)"
proof -
  have "answered cod key (roundMessages env) (SetSharedKey key s)"
    by (simp add: answered_def SetSharedKey_def)
  from broadcast_result [OF this _ assms [unfolded Send_def]] show ?thesis
    by (simp add: Clear_same)
qed

text \<open>The reply arrives in the third round.\<close>

definition sampleRounds :: "nat \<Rightarrow> round" where
  "sampleRounds n = \<lparr>stored = [], polls = [\<lparr>arrived = (if n = 2 then [\<lparr>Payload = [1], ContentTopic = [], TimestampMS = 0\<rparr>] else []),
     pollCtx = None, lookup = None, waitCtx = None\<rparr>]\<rparr>"

theorem send_result_witness:
  "\<exists>s'. Send sampleCodec sampleRounds (SetSharedKey [1] NewTransactResponseStore) = (Inr ''0xab'', s', 3) \<and> sharedKey s' = [] \<and>
     hashFrom sampleCodec [1] (roundMessages sampleRounds) (roundPolls sampleRounds) ''0xab''"
proof -
  obtain res s' k where run: "Send sampleCodec sampleRounds (SetSharedKey [1] NewTransactResponseStore) = (res, s', k)"
    using prod_cases3 by blast
  have "fst (Send sampleCodec sampleRounds (SetSharedKey [1] NewTransactResponseStore)) = Inr ''0xab''"
      "snd (snd (Send sampleCodec sampleRounds (SetSharedKey [1] NewTransactResponseStore))) = 3"
    by code_simp+
  then show ?thesis
    using send_result [OF run] run by simp
qed

end
