(* ===== verification/FileMap.thy ===== *)
theory FileMap
  imports LeafMap
begin

text \<open>
  What the file-backed maps of the wallet share: a file is written from a sorted listing and read back
  entry by entry, and a store on file follows the store in memory over any sequence of calls.
\<close>

section \<open>A listing is read back\<close>

definition writable :: saveEnv where
  "writable = \<lparr>mkdirErr = None, writeErr = None, renameErr = None\<rparr>"

lemma writeFile_writable [simp]: "writeFile writable d = Inr (FileDoc d)"
  by (simp add: writeFile_def writable_def)

definition loadBy :: "('v \<Rightarrow> 'k) \<Rightarrow> 'v list \<Rightarrow> ('k, 'v) gomap \<Rightarrow> ('k, 'v) gomap" where
  "loadBy key vs m = fold (\<lambda>v. gput (key v) v) vs m"

lemma loadBy_simps [simp]:
  "loadBy key [] m = m"
  "loadBy key (v # vs) m = loadBy key vs (gput (key v) v m)"
  by (simp_all add: loadBy_def)

lemma wfmap_loadBy [simp]: "wfmap m \<Longrightarrow> wfmap (loadBy key vs m)"
  by (induction vs arbitrary: m) simp_all

lemma loadBy_other: "k \<notin> key ` set vs \<Longrightarrow> gget (loadBy key vs m) k = gget m k"
  by (induction vs arbitrary: m) (auto simp: gomap_simps)

lemma loadBy_entry: "distinct (map key vs) \<Longrightarrow> v \<in> set vs \<Longrightarrow> gget (loadBy key vs m) (key v) = Some v"
proof (induction vs arbitrary: m)
  case (Cons u vs)
  show ?case
  proof (cases "v = u")
    case True
    with Cons.prems(1) show ?thesis by (simp add: loadBy_other gomap_simps)
  next
    case False
    with Cons show ?thesis by simp
  qed
qed simp

text \<open>The entries of a map under the keys that the code computes from them.\<close>

definition keyedMap :: "('v \<Rightarrow> 'k) \<Rightarrow> ('k, 'v) gomap \<Rightarrow> bool" where
  "keyedMap key m \<longleftrightarrow> wfmap m \<and> (\<forall>(k, v) \<in> set m. key v = k)"

lemma keyedMap_Nil [simp]: "keyedMap key []"
  by (simp add: keyedMap_def)

lemma keyedMap_get: "keyedMap key m \<Longrightarrow> gget m k = Some v \<Longrightarrow> key v = k"
  by (auto simp: keyedMap_def dest!: map_of_SomeD)

lemma keyedMap_gput: "keyedMap key m \<Longrightarrow> key v = k \<Longrightarrow> keyedMap key (gput k v m)"
  using gput_set [of m _ k v] unfolding keyedMap_def by fastforce

lemma keyedMap_gkeep: "keyedMap key m \<Longrightarrow> keyedMap key (gkeep p m)"
  unfolding keyedMap_def by (auto simp: gkeep_def distinct_map intro: inj_on_subset)

lemma keyedMap_gmap: "(\<And>v. key (f v) = key v) \<Longrightarrow> keyedMap key m \<Longrightarrow> keyedMap key (gmap f m)"
  unfolding keyedMap_def map_fst_gmap by (auto simp: gmap_def)

lemma keyedMap_loadBy: "keyedMap key m \<Longrightarrow> keyedMap key (loadBy key vs m)"
  by (induction vs arbitrary: m) (simp_all add: keyedMap_gput)

lemma keyedMap_values: "keyedMap key m \<Longrightarrow> map key (map snd m) = map fst m"
  by (auto simp: keyedMap_def)

lemma gget_reloaded:
  assumes keyed: "keyedMap key m" and f: "\<And>v. key (f v) = key v"
  shows "gget (loadBy key (map f (sortBy lt (map snd m))) []) k = map_option f (gget m k)"
proof -
  define vs where "vs = sortBy lt (map snd m)"
  have set: "v \<in> set vs \<longleftrightarrow> gget m (key v) = Some v" for v
    using keyed by (force simp: vs_def keyedMap_def)
  have "mset (map key vs) = mset (map key (map snd m))"
    unfolding mset_map [of key] vs_def by simp
  then have "distinct (map key vs)"
    using keyed keyedMap_values [OF keyed] unfolding keyedMap_def by (metis mset_eq_imp_distinct_iff)
  then have dist: "distinct (map key (map f vs))"
    by (simp add: f comp_def)
  show ?thesis
  proof (cases "gget m k")
    case None
    have "k \<notin> key ` set (map f vs)"
      using None set by (auto simp: f)
    then show ?thesis
      by (simp add: loadBy_other None flip: vs_def)
  next
    case (Some v)
    have k: "key v = k" by (rule keyedMap_get [OF keyed Some])
    then have "v \<in> set vs" by (simp add: set Some)
    then have "gget (loadBy key (map f vs) []) (key (f v)) = Some (f v)"
      by (intro loadBy_entry [OF dist]) simp
    then show ?thesis
      unfolding vs_def f k Some by simp
  qed
qed

lemma sortBy_map: "(\<And>x y. lt (f x) (f y) = lt x y) \<Longrightarrow> sortBy lt (map f xs) = map f (sortBy lt xs)"
proof (induction xs)
  case (Cons x xs)
  have "insertBy lt (f x) (map f ys) = map f (insertBy lt x ys)" for ys
    using Cons.prems by (induction ys) simp_all
  with Cons show ?case by simp
qed simp

lemma map_snd_gmap: "map snd (gmap f m) = map f (map snd m)"
  by (simp add: gmap_def case_prod_unfold comp_def)

text \<open>A listing does not depend on the order of the map when its order tells the keys apart.\<close>

lemma sorted_listing_cong:
  assumes "slice_less lt" and "keyedMap key m" and "keyedMap key m'" and "\<And>k. gget m k = gget m' k"
    and "\<And>x y. \<not> lt x y \<Longrightarrow> \<not> lt y x \<Longrightarrow> key x = key y"
  shows "sortBy lt (map snd m) = sortBy lt (map snd m')"
proof (rule slice_less.sortBy_cong [OF assms(1)])
  have in_values: "v \<in> set (map snd n) \<longleftrightarrow> gget n (key v) = Some v" if "keyedMap key n" for n v
    using that by (force simp: keyedMap_def)
  have dist: "distinct (map snd n)" if "keyedMap key n" for n
    using keyedMap_values [OF that] that unfolding keyedMap_def by (metis distinct_map)
  have "set (map snd m) = set (map snd m')"
    by (intro set_eqI) (simp only: in_values [OF assms(2)] in_values [OF assms(3)] assms(4))
  then show "mset (map snd m) = mset (map snd m')"
    using dist [OF assms(2)] dist [OF assms(3)] by (simp only: set_eq_iff_mset_eq_distinct)
  show "x = y" if "x \<in> set (map snd m)" "y \<in> set (map snd m)" "\<not> lt x y" "\<not> lt y x" for x y
    using that assms(5) [OF that(3,4)] in_values [OF assms(2)] by simp
qed

section \<open>Runs of a store\<close>

text \<open>A sequence of calls, each of which leaves the store as it was when it fails.\<close>

definition runOps :: "('op \<Rightarrow> 's \<Rightarrow> 's res) \<Rightarrow> 'op list \<Rightarrow> 's \<Rightarrow> 's" where
  "runOps step = fold (\<lambda>op s. case step op s of Inl _ \<Rightarrow> s | Inr s' \<Rightarrow> s')"

lemma runOps_simps [simp]:
  "runOps step [] s = s"
  "runOps step (op # ops) s = runOps step ops (case step op s of Inl _ \<Rightarrow> s | Inr s' \<Rightarrow> s')"
  by (simp_all add: runOps_def)

text \<open>The store on file follows the store in memory: each call fails on both with the same error, or
  succeeds on both and leaves stores that mirror each other.\<close>

locale mirrored_store =
  fixes memStep :: "'op \<Rightarrow> 'm \<Rightarrow> 'm res" and fileStep :: "'op \<Rightarrow> 'f \<Rightarrow> 'f res"
    and okOp :: "'op \<Rightarrow> bool" and follows :: "'m \<Rightarrow> 'f \<Rightarrow> bool"
  assumes step: "follows m f \<Longrightarrow> okOp op \<Longrightarrow> (case memStep op m of Inl e \<Rightarrow> fileStep op f = Inl e
    | Inr m' \<Rightarrow> \<exists>f'. fileStep op f = Inr f' \<and> follows m' f')"
begin

lemma run: "follows m f \<Longrightarrow> \<forall>op \<in> set ops. okOp op \<Longrightarrow> follows (runOps memStep ops m) (runOps fileStep ops f)"
proof (induction ops arbitrary: m f)
  case (Cons op ops)
  then show ?case
    using step [OF Cons.prems(1), of op] by (cases "memStep op m") auto
qed simp

lemma outcome:
  "follows m f \<Longrightarrow> okOp op \<Longrightarrow> (case memStep op m of Inl e \<Rightarrow> fileStep op f = Inl e | Inr _ \<Rightarrow> isl (fileStep op f) = False)"
  using step [of m f op] by (cases "memStep op m") auto

end

end
