(* ===== verification/StateStore.thy ===== *)
theory StateStore
  imports Poi FileMap
begin

text \<open>
  Models \<^verbatim>\<open>pkg/wallet/state_store.go\<close> and \<^verbatim>\<open>pkg/wallet/file_state_store.go\<close>: the
  wallet's transaction outputs, in memory and on file, their rollback, and the balances of tokens.
  The file holds its decoded records; \<^verbatim>\<open>omitempty\<close> makes an empty map of POI statuses nil.
\<close>

section \<open>state\_store.go\<close>

record StoredTXO =
  stTXIDVersion :: string
  stTree :: uint64
  stPosition :: uint64
  stTXID :: string
  stTimestamp :: "uint64 option"
  stBlockNumber :: uint64
  stSpendTXID :: string
  stSpendBlockNumber :: "uint64 option"
  stNullifier :: string
  stCommitmentHash :: string
  stNotePublicKey :: string
  stNoteRandom :: string
  stTokenHash :: string
  stTokenData :: TokenData
  stValue :: "int option"
  stOutputType :: "int option"
  stWalletSource :: string
  stMemoText :: string
  stSenderAddress :: string
  stRecipientAddress :: string
  stShieldFee :: string
  stCommitmentType :: string
  stPOIsPerList :: POIsPerList
  stBlindedCommitment :: string
  stTransactCreationRailgunTxid :: string

record TokenBalance =
  tbBalance :: int
  tbTokenData :: TokenData
  tbUTXOs :: "StoredTXO list"

type_synonym TokenBalances = "(string, TokenBalance) gomap"
type_synonym txos = "(string, StoredTXO) gomap"
type_synonym MemoryStateStore = "txos option"

abbreviation stateStoreRequired :: string where
  "stateStoreRequired \<equiv> ''state store is required''"

definition missingTXO :: "string \<Rightarrow> gerr" where
  "missingTXO nullifier = Errorf ''missing txo for nullifier %s'' [AStr nullifier]"

text \<open>The updates of the map that both stores make.\<close>

definition spendTXO :: "string \<Rightarrow> string \<Rightarrow> uint64 option \<Rightarrow> txos \<Rightarrow> txos res" where
  "spendTXO nullifier spendTXID blockNumber txos = (case gget txos nullifier of
      None \<Rightarrow> Inl (missingTXO nullifier)
    | Some txo \<Rightarrow> Inr (gput nullifier (txo\<lparr>stSpendTXID := spendTXID, stSpendBlockNumber := blockNumber\<rparr>) txos))"

definition updatePOIs :: "string \<Rightarrow> POIsPerList \<Rightarrow> txos \<Rightarrow> txos res" where
  "updatePOIs nullifier pois txos = (case gget txos nullifier of
      None \<Rightarrow> Inl (missingTXO nullifier)
    | Some txo \<Rightarrow> Inr (gput nullifier (txo\<lparr>stPOIsPerList := pois\<rparr>) txos))"

text \<open>What a rollback leaves of an output: nothing of a later one, no later spend of an earlier one.\<close>

definition rolledBack :: "uint64 \<Rightarrow> StoredTXO \<Rightarrow> StoredTXO option" where
  "rolledBack fromBlock txo =
     (if stBlockNumber txo \<ge> fromBlock then None
      else case stSpendBlockNumber txo of
        Some b \<Rightarrow> if b \<ge> fromBlock then Some (txo\<lparr>stSpendTXID := [], stSpendBlockNumber := None\<rparr>) else Some txo
      | None \<Rightarrow> Some txo)"

definition rollbackTXOs :: "uint64 \<Rightarrow> txos \<Rightarrow> txos" where
  "rollbackTXOs fromBlock txos =
     concat (map (\<lambda>(nullifier, txo). case rolledBack fromBlock txo of None \<Rightarrow> [] | Some t \<Rightarrow> [(nullifier, t)]) txos)"

definition txoLess :: "StoredTXO \<Rightarrow> StoredTXO \<Rightarrow> bool" where
  "txoLess a b \<longleftrightarrow>
     (if stTree a \<noteq> stTree b then stTree a < stTree b
      else if stPosition a \<noteq> stPosition b then stPosition a < stPosition b
      else stNullifier a < stNullifier b)"

definition sortedTXOs :: "txos \<Rightarrow> StoredTXO list" where
  "sortedTXOs txos = sortBy txoLess (map snd txos)"

definition MemoryStateStore_UpsertTXO :: "ctx \<Rightarrow> MemoryStateStore \<Rightarrow> StoredTXO \<Rightarrow> MemoryStateStore res" where
  "MemoryStateStore_UpsertTXO ctx store txo =
     withCtx ctx (notNil stateStoreRequired store (\<lambda>txos.
     if stNullifier txo = [] then Err ''txo nullifier is required''
     else Inr (Some (gput (stNullifier txo) txo txos))))"

definition MemoryStateStore_GetTXO :: "ctx \<Rightarrow> MemoryStateStore \<Rightarrow> string \<Rightarrow> StoredTXO option res" where
  "MemoryStateStore_GetTXO ctx store nullifier =
     withCtx ctx (notNil stateStoreRequired store (\<lambda>txos. Inr (gget txos nullifier)))"

definition MemoryStateStore_ListTXOs :: "ctx \<Rightarrow> MemoryStateStore \<Rightarrow> StoredTXO list res" where
  "MemoryStateStore_ListTXOs ctx store =
     withCtx ctx (notNil stateStoreRequired store (\<lambda>txos. Inr (sortedTXOs txos)))"

definition MemoryStateStore_markTXOSpent :: "ctx \<Rightarrow> MemoryStateStore \<Rightarrow> string \<Rightarrow> string \<Rightarrow> uint64 option \<Rightarrow> MemoryStateStore res" where
  "MemoryStateStore_markTXOSpent ctx store nullifier spendTXID blockNumber =
     withCtx ctx (notNil stateStoreRequired store (\<lambda>txos.
     andThen (spendTXO nullifier spendTXID blockNumber txos) (\<lambda>txos. Inr (Some txos))))"

definition MemoryStateStore_MarkTXOSpent :: "ctx \<Rightarrow> MemoryStateStore \<Rightarrow> string \<Rightarrow> string \<Rightarrow> MemoryStateStore res" where
  "MemoryStateStore_MarkTXOSpent ctx store nullifier spendTXID =
     MemoryStateStore_markTXOSpent ctx store nullifier spendTXID None"

definition MemoryStateStore_MarkTXOSpentAtBlock :: "ctx \<Rightarrow> MemoryStateStore \<Rightarrow> string \<Rightarrow> string \<Rightarrow> uint64 \<Rightarrow> MemoryStateStore res" where
  "MemoryStateStore_MarkTXOSpentAtBlock ctx store nullifier spendTXID blockNumber =
     MemoryStateStore_markTXOSpent ctx store nullifier spendTXID (Some blockNumber)"

definition MemoryStateStore_RollbackToBlock :: "ctx \<Rightarrow> MemoryStateStore \<Rightarrow> uint64 \<Rightarrow> MemoryStateStore res" where
  "MemoryStateStore_RollbackToBlock ctx store fromBlock =
     withCtx ctx (notNil stateStoreRequired store (\<lambda>txos. Inr (Some (rollbackTXOs fromBlock txos))))"

definition MemoryStateStore_UpdateTXOPOIs :: "ctx \<Rightarrow> MemoryStateStore \<Rightarrow> string \<Rightarrow> POIsPerList \<Rightarrow> MemoryStateStore res" where
  "MemoryStateStore_UpdateTXOPOIs ctx store nullifier pois =
     withCtx ctx (notNil stateStoreRequired store (\<lambda>txos.
     andThen (updatePOIs nullifier pois txos) (\<lambda>txos. Inr (Some txos))))"

text \<open>The output as the POI manager sees it.\<close>

definition poiTXO :: "StoredTXO \<Rightarrow> int \<Rightarrow> TXO" where
  "poiTXO txo v =
     \<lparr>txoSpendTXID = stSpendTXID txo, txoPOIsPerList = stPOIsPerList txo, txoCommitmentType = stCommitmentType txo,
      txoOutputType = stOutputType txo, txoValue = Some v, txoBlindedCommitment = stBlindedCommitment txo,
      txoBlockNumber = stBlockNumber txo, txoTransactCreationRailgunTxid = stTransactCreationRailgunTxid txo\<rparr>"

definition addBalance :: "string \<Rightarrow> StoredTXO \<Rightarrow> int \<Rightarrow> TokenBalances \<Rightarrow> TokenBalances" where
  "addBalance tokenHash txo v out =
     gput tokenHash (case gget out tokenHash of
         None \<Rightarrow> \<lparr>tbBalance = v, tbTokenData = stTokenData txo, tbUTXOs = [txo]\<rparr>
       | Some balance \<Rightarrow> balance\<lparr>tbBalance := tbBalance balance + v, tbUTXOs := tbUTXOs balance @ [txo]\<rparr>) out"

definition tokenBalancesFromTXOs ::
  "(byte list \<Rightarrow> byte list) \<Rightarrow> StoredTXO list \<Rightarrow> Manager option \<Rightarrow> string list \<Rightarrow> TokenBalances res" where
  "tokenBalancesFromTXOs keccak txos poiManager includedBuckets =
     foldRes (\<lambda>txo out. case stValue txo of
         None \<Rightarrow> Inl (Errorf ''txo %s value is required'' [AStr (stNullifier txo)])
       | Some v \<Rightarrow>
           (let bucket = GetBalanceBucket poiManager (poiTXO txo v)
            in if length includedBuckets > 0 \<and> bucket \<notin> set includedBuckets then Inr out
               else andThen (if stTokenHash txo = [] then TokenDataHash keccak (stTokenData txo) else Inr (stTokenHash txo))
                 (\<lambda>tokenHash. Inr (addBalance tokenHash txo v out)))) txos []"

definition MemoryStateStore_TokenBalances ::
  "(byte list \<Rightarrow> byte list) \<Rightarrow> ctx \<Rightarrow> MemoryStateStore \<Rightarrow> Manager option \<Rightarrow> string list \<Rightarrow> TokenBalances res" where
  "MemoryStateStore_TokenBalances keccak ctx store poiManager includedBuckets =
     (if poiManager = None then Err ''poi manager is required''
      else andThen (MemoryStateStore_ListTXOs ctx store) (\<lambda>txos. tokenBalancesFromTXOs keccak txos poiManager includedBuckets))"

section \<open>file\_state\_store.go\<close>

record storedTXORecord =
  srTXIDVersion :: string
  srTree :: uint64
  srPosition :: uint64
  srTXID :: string
  srTimestamp :: "uint64 option"
  srBlockNumber :: uint64
  srSpendTXID :: string
  srSpendBlockNumber :: "uint64 option"
  srNullifier :: string
  srCommitmentHash :: string
  srNotePublicKey :: string
  srNoteRandom :: string
  srTokenHash :: string
  srTokenData :: TokenData
  srValue :: string
  srOutputType :: "int option"
  srWalletSource :: string
  srMemoText :: string
  srSenderAddress :: string
  srRecipientAddress :: string
  srShieldFee :: string
  srCommitmentType :: string
  srPOIsPerList :: POIsPerList
  srBlindedCommitment :: string
  srTransactCreationRailgunTxid :: string

definition recordFromStoredTXO :: "StoredTXO \<Rightarrow> storedTXORecord res" where
  "recordFromStoredTXO txo = (case stValue txo of
      None \<Rightarrow> Inl (Errorf ''txo %s value is required'' [AStr (stNullifier txo)])
    | Some v \<Rightarrow> Inr
       \<lparr>srTXIDVersion = stTXIDVersion txo, srTree = stTree txo, srPosition = stPosition txo, srTXID = stTXID txo,
        srTimestamp = stTimestamp txo, srBlockNumber = stBlockNumber txo, srSpendTXID = stSpendTXID txo,
        srSpendBlockNumber = stSpendBlockNumber txo, srNullifier = stNullifier txo, srCommitmentHash = stCommitmentHash txo,
        srNotePublicKey = stNotePublicKey txo, srNoteRandom = stNoteRandom txo, srTokenHash = stTokenHash txo,
        srTokenData = stTokenData txo, srValue = decimal v, srOutputType = stOutputType txo, srWalletSource = stWalletSource txo,
        srMemoText = stMemoText txo, srSenderAddress = stSenderAddress txo, srRecipientAddress = stRecipientAddress txo,
        srShieldFee = stShieldFee txo, srCommitmentType = stCommitmentType txo, srPOIsPerList = stPOIsPerList txo,
        srBlindedCommitment = stBlindedCommitment txo, srTransactCreationRailgunTxid = stTransactCreationRailgunTxid txo\<rparr>)"

definition storedTXOFromRecord :: "storedTXORecord \<Rightarrow> StoredTXO res" where
  "storedTXOFromRecord r = (case SetString (srValue r) 10 of
      None \<Rightarrow> Inl (Errorf ''invalid value %q'' [AStr (srValue r)])
    | Some v \<Rightarrow> Inr
       \<lparr>stTXIDVersion = srTXIDVersion r, stTree = srTree r, stPosition = srPosition r, stTXID = srTXID r,
        stTimestamp = srTimestamp r, stBlockNumber = srBlockNumber r, stSpendTXID = srSpendTXID r,
        stSpendBlockNumber = srSpendBlockNumber r, stNullifier = srNullifier r, stCommitmentHash = srCommitmentHash r,
        stNotePublicKey = srNotePublicKey r, stNoteRandom = srNoteRandom r, stTokenHash = srTokenHash r,
        stTokenData = srTokenData r, stValue = Some v, stOutputType = srOutputType r, stWalletSource = srWalletSource r,
        stMemoText = srMemoText r, stSenderAddress = srSenderAddress r, stRecipientAddress = srRecipientAddress r,
        stShieldFee = srShieldFee r, stCommitmentType = srCommitmentType r, stPOIsPerList = srPOIsPerList r,
        stBlindedCommitment = srBlindedCommitment r, stTransactCreationRailgunTxid = srTransactCreationRailgunTxid r\<rparr>)"

text \<open>What \<^verbatim>\<open>json.Unmarshal\<close> reads back of a record that \<^verbatim>\<open>json.Marshal\<close> wrote.\<close>

definition omitEmpty :: "POIsPerList \<Rightarrow> POIsPerList" where
  "omitEmpty pois = (if pois = Some [] then None else pois)"

definition jsonRecord :: "storedTXORecord \<Rightarrow> storedTXORecord" where
  "jsonRecord r = r\<lparr>srPOIsPerList := omitEmpty (srPOIsPerList r)\<rparr>"

type_synonym FileStateStore = "storedTXORecord list fileStore option"

definition FileStateStore_loadLocked :: "storedTXORecord list fileStore \<Rightarrow> txos res" where
  "FileStateStore_loadLocked store =
     (if Path store = [] then Err ''state store file path is required''
      else readFile (fsFile store) [] (\<lambda>records.
        foldResI 0 (\<lambda>i r txos. andThen (wrapErr ''txos[%d]: %w'' [ANat i] (storedTXOFromRecord r)) (\<lambda>txo.
          if stNullifier txo = [] then Inl (Errorf ''txos[%d]: nullifier is required'' [ANat i])
          else Inr (gput (stNullifier txo) txo txos))) records []))"

definition FileStateStore_load :: "FileStateStore \<Rightarrow> txos res" where
  "FileStateStore_load store = notNil stateStoreRequired store FileStateStore_loadLocked"

definition FileStateStore_saveLocked :: "saveEnv \<Rightarrow> storedTXORecord list fileStore \<Rightarrow> txos \<Rightarrow> storedTXORecord list fileStore res" where
  "FileStateStore_saveLocked env store txos =
     (if Path store = [] then Err ''state store file path is required''
      else andThen (mapRes recordFromStoredTXO (sortedTXOs txos)) (\<lambda>records.
        andThen (writeFile env (map jsonRecord records)) (\<lambda>f. Inr (store\<lparr>fsFile := f\<rparr>))))"

definition FileStateStore_update :: "saveEnv \<Rightarrow> FileStateStore \<Rightarrow> (txos \<Rightarrow> txos res) \<Rightarrow> FileStateStore res" where
  "FileStateStore_update env store upd =
     notNil stateStoreRequired store (\<lambda>s.
     andThen (FileStateStore_loadLocked s) (\<lambda>txos.
     andThen (upd txos) (\<lambda>txos.
     andThen (FileStateStore_saveLocked env s txos) (\<lambda>s. Inr (Some s)))))"

definition FileStateStore_UpsertTXO :: "saveEnv \<Rightarrow> ctx \<Rightarrow> FileStateStore \<Rightarrow> StoredTXO \<Rightarrow> FileStateStore res" where
  "FileStateStore_UpsertTXO env ctx store txo =
     withCtx ctx (if stNullifier txo = [] then Err ''txo nullifier is required''
       else FileStateStore_update env store (\<lambda>txos. Inr (gput (stNullifier txo) txo txos)))"

definition FileStateStore_GetTXO :: "ctx \<Rightarrow> FileStateStore \<Rightarrow> string \<Rightarrow> StoredTXO option res" where
  "FileStateStore_GetTXO ctx store nullifier =
     withCtx ctx (andThen (FileStateStore_load store) (\<lambda>txos. Inr (gget txos nullifier)))"

definition FileStateStore_ListTXOs :: "ctx \<Rightarrow> FileStateStore \<Rightarrow> StoredTXO list res" where
  "FileStateStore_ListTXOs ctx store =
     withCtx ctx (andThen (FileStateStore_load store) (\<lambda>txos. Inr (sortedTXOs txos)))"

definition FileStateStore_markTXOSpent :: "saveEnv \<Rightarrow> ctx \<Rightarrow> FileStateStore \<Rightarrow> string \<Rightarrow> string \<Rightarrow> uint64 option \<Rightarrow> FileStateStore res" where
  "FileStateStore_markTXOSpent env ctx store nullifier spendTXID blockNumber =
     withCtx ctx (FileStateStore_update env store (spendTXO nullifier spendTXID blockNumber))"

definition FileStateStore_MarkTXOSpent :: "saveEnv \<Rightarrow> ctx \<Rightarrow> FileStateStore \<Rightarrow> string \<Rightarrow> string \<Rightarrow> FileStateStore res" where
  "FileStateStore_MarkTXOSpent env ctx store nullifier spendTXID =
     FileStateStore_markTXOSpent env ctx store nullifier spendTXID None"

definition FileStateStore_MarkTXOSpentAtBlock :: "saveEnv \<Rightarrow> ctx \<Rightarrow> FileStateStore \<Rightarrow> string \<Rightarrow> string \<Rightarrow> uint64 \<Rightarrow> FileStateStore res" where
  "FileStateStore_MarkTXOSpentAtBlock env ctx store nullifier spendTXID blockNumber =
     FileStateStore_markTXOSpent env ctx store nullifier spendTXID (Some blockNumber)"

definition FileStateStore_RollbackToBlock :: "saveEnv \<Rightarrow> ctx \<Rightarrow> FileStateStore \<Rightarrow> uint64 \<Rightarrow> FileStateStore res" where
  "FileStateStore_RollbackToBlock env ctx store fromBlock =
     withCtx ctx (FileStateStore_update env store (\<lambda>txos. Inr (rollbackTXOs fromBlock txos)))"

definition FileStateStore_UpdateTXOPOIs :: "saveEnv \<Rightarrow> ctx \<Rightarrow> FileStateStore \<Rightarrow> string \<Rightarrow> POIsPerList \<Rightarrow> FileStateStore res" where
  "FileStateStore_UpdateTXOPOIs env ctx store nullifier pois =
     withCtx ctx (FileStateStore_update env store (updatePOIs nullifier pois))"

definition FileStateStore_TokenBalances ::
  "(byte list \<Rightarrow> byte list) \<Rightarrow> ctx \<Rightarrow> FileStateStore \<Rightarrow> Manager option \<Rightarrow> string list \<Rightarrow> TokenBalances res" where
  "FileStateStore_TokenBalances keccak ctx store poiManager includedBuckets =
     (if poiManager = None then Err ''poi manager is required''
      else andThen (FileStateStore_ListTXOs ctx store) (\<lambda>txos. tokenBalancesFromTXOs keccak txos poiManager includedBuckets))"

section \<open>Maps of outputs\<close>

definition goodTXOs :: "txos \<Rightarrow> bool" where
  "goodTXOs txos \<longleftrightarrow> wfmap txos \<and> (\<forall>(n, t) \<in> set txos. n = stNullifier t \<and> n \<noteq> [])"

lemma goodTXOs_Nil [simp]: "goodTXOs []"
  by (simp add: goodTXOs_def)

lemma goodTXOs_lookup: "goodTXOs m \<Longrightarrow> gget m n = Some t \<Longrightarrow> stNullifier t = n \<and> n \<noteq> []"
  by (auto simp: goodTXOs_def dest!: map_of_SomeD)

lemma goodTXOs_gput:
  assumes "goodTXOs m" and "stNullifier t \<noteq> []" and "n = stNullifier t"
  shows "goodTXOs (gput n t m)"
  using assms gput_set [of m _ n t] unfolding goodTXOs_def by fastforce

lemma rolledBack_nullifier: "rolledBack b t = Some t' \<Longrightarrow> stNullifier t' = stNullifier t"
  by (auto simp: rolledBack_def split: if_splits option.splits)

lemma set_rollbackTXOs: "(n, t') \<in> set (rollbackTXOs b m) \<longleftrightarrow> (\<exists>t. (n, t) \<in> set m \<and> rolledBack b t = Some t')"
  by (force simp: rollbackTXOs_def split: option.splits)

lemma distinct_rollbackTXOs: "distinct (map fst m) \<Longrightarrow> distinct (map fst (rollbackTXOs b m))"
proof (induction m)
  case (Cons e m)
  obtain n t where e: "e = (n, t)" by fastforce
  have "n \<notin> fst ` set (rollbackTXOs b m)"
    using Cons.prems e by (force simp: set_rollbackTXOs)
  moreover have "rollbackTXOs b (e # m) = (case rolledBack b t of None \<Rightarrow> [] | Some t' \<Rightarrow> [(n, t')]) @ rollbackTXOs b m"
    by (simp add: rollbackTXOs_def e)
  ultimately show ?case
    using Cons by (simp split: option.split)
qed (simp add: rollbackTXOs_def)

lemma goodTXOs_rollback: "goodTXOs m \<Longrightarrow> goodTXOs (rollbackTXOs b m)"
  using distinct_rollbackTXOs [of m b]
  by (fastforce simp: goodTXOs_def set_rollbackTXOs dest: rolledBack_nullifier)

lemma gget_rollbackTXOs:
  assumes "goodTXOs m"
  shows "gget (rollbackTXOs b m) n = Option.bind (gget m n) (rolledBack b)"
proof -
  have wf: "wfmap m" "wfmap (rollbackTXOs b m)"
    using assms goodTXOs_rollback [OF assms] by (simp_all add: goodTXOs_def)
  have "gget (rollbackTXOs b m) n = Some t' \<longleftrightarrow> Option.bind (gget m n) (rolledBack b) = Some t'" for t'
    using wf set_rollbackTXOs [of n t' b m] by (simp add: bind_eq_Some_conv)
  then show ?thesis
    by (metis option.exhaust)
qed

text \<open>The listing does not depend on the order of the map.\<close>

interpretation txoOrder: slice_less txoLess
proof -
  have eq: "txoLess = (\<lambda>a b. (stTree a, stPosition a, stNullifier a) < (stTree b, stPosition b, stNullifier b))"
    by (intro ext) (auto simp: txoLess_def less_prod_simp)
  show "slice_less txoLess"
    unfolding eq by (rule slice_less_key)
qed

lemma set_sortedTXOs: "goodTXOs m \<Longrightarrow> t \<in> set (sortedTXOs m) \<longleftrightarrow> gget m (stNullifier t) = Some t"
  by (force simp: sortedTXOs_def goodTXOs_def)

lemma distinct_sortedTXOs: "goodTXOs m \<Longrightarrow> distinct (map stNullifier (sortedTXOs m))"
proof -
  assume good: "goodTXOs m"
  then have keys: "map stNullifier (map snd m) = map fst m"
    by (auto simp: goodTXOs_def)
  have "distinct (map stNullifier (map snd m))"
    unfolding keys using good by (simp add: goodTXOs_def)
  moreover have "mset (map stNullifier (sortedTXOs m)) = mset (map stNullifier (map snd m))"
    unfolding mset_map [of stNullifier] sortedTXOs_def by simp
  ultimately show ?thesis
    by (metis mset_eq_imp_distinct_iff)
qed

lemma sorted_by_nullifier:
  assumes "set xs = set ys" and "distinct (map stNullifier xs)" and "distinct (map stNullifier ys)"
  shows "sortBy txoLess xs = sortBy txoLess ys"
proof (rule txoOrder.sortBy_cong)
  have "distinct xs" "distinct ys"
    using assms(2,3) by (simp_all add: distinct_map)
  with assms(1) show "mset xs = mset ys"
    by (simp add: set_eq_iff_mset_eq_distinct)
  show "x = y" if "x \<in> set xs" "y \<in> set xs" "\<not> txoLess x y" "\<not> txoLess y x" for x y
    using that assms(2) by (auto simp: txoLess_def distinct_map inj_on_def split: if_splits)
qed

section \<open>Loading what was saved\<close>

definition normalTXO :: "StoredTXO \<Rightarrow> StoredTXO" where
  "normalTXO t = t\<lparr>stPOIsPerList := omitEmpty (stPOIsPerList t)\<rparr>"

lemma normalTXO_simps [simp]:
  "stNullifier (normalTXO t) = stNullifier t" "stTree (normalTXO t) = stTree t" "stPosition (normalTXO t) = stPosition t"
  "stValue (normalTXO t) = stValue t" "stBlockNumber (normalTXO t) = stBlockNumber t"
  "stSpendBlockNumber (normalTXO t) = stSpendBlockNumber t" "normalTXO (normalTXO t) = normalTXO t"
  by (simp_all add: normalTXO_def omitEmpty_def)

lemma record_roundtrip:
  "stValue t \<noteq> None \<Longrightarrow> \<exists>r. recordFromStoredTXO t = Inr r \<and> storedTXOFromRecord (jsonRecord r) = Inr (normalTXO t)"
  by (cases t) (auto simp: recordFromStoredTXO_def storedTXOFromRecord_def jsonRecord_def normalTXO_def)

lemma records_roundtrip:
  assumes "\<forall>t \<in> set ts. stValue t \<noteq> None"
  shows "\<exists>rs. mapRes recordFromStoredTXO ts = Inr rs \<and> list_all2 (\<lambda>t r. storedTXOFromRecord (jsonRecord r) = Inr (normalTXO t)) ts rs"
  using assms
proof (induction ts)
  case (Cons t ts)
  then obtain rs where "mapRes recordFromStoredTXO ts = Inr rs"
      "list_all2 (\<lambda>t r. storedTXOFromRecord (jsonRecord r) = Inr (normalTXO t)) ts rs"
    by auto
  moreover obtain r where "recordFromStoredTXO t = Inr r" "storedTXOFromRecord (jsonRecord r) = Inr (normalTXO t)"
    using record_roundtrip Cons.prems by fastforce
  ultimately show ?case
    by auto
qed simp

abbreviation loadAll :: "StoredTXO list \<Rightarrow> txos \<Rightarrow> txos" where
  "loadAll \<equiv> loadBy stNullifier"

lemma load_records:
  assumes "list_all2 (\<lambda>t r. storedTXOFromRecord (jsonRecord r) = Inr (normalTXO t)) ts rs" and "\<forall>t \<in> set ts. stNullifier t \<noteq> []"
  shows "foldResI i (\<lambda>i r txos. andThen (wrapErr ''txos[%d]: %w'' [ANat i] (storedTXOFromRecord r)) (\<lambda>txo.
      if stNullifier txo = [] then Inl (Errorf ''txos[%d]: nullifier is required'' [ANat i])
      else Inr (gput (stNullifier txo) txo txos))) (map jsonRecord rs) m = Inr (loadAll (map normalTXO ts) m)"
  using assms by (induction arbitrary: i m rule: list_all2_induct) simp_all

lemma loadAll_good: "goodTXOs m \<Longrightarrow> \<forall>t \<in> set ts. stNullifier t \<noteq> [] \<Longrightarrow> goodTXOs (loadAll ts m)"
  by (induction ts arbitrary: m) (simp_all add: goodTXOs_gput)

lemma goodTXOs_keyed: "goodTXOs m \<Longrightarrow> keyedMap stNullifier m"
  by (auto simp: goodTXOs_def keyedMap_def)

lemma gget_saved: "goodTXOs m \<Longrightarrow> gget (loadAll (map normalTXO (sortedTXOs m)) []) n = map_option normalTXO (gget m n)"
  unfolding sortedTXOs_def using gget_reloaded [OF goodTXOs_keyed] by simp

definition valued :: "txos \<Rightarrow> bool" where
  "valued m \<longleftrightarrow> (\<forall>n t. gget m n = Some t \<longrightarrow> stValue t \<noteq> None)"

lemma save_load:
  assumes "goodTXOs m" and "valued m" and "Path s \<noteq> []"
  obtains s' txos where "FileStateStore_saveLocked writable s m = Inr s'" "Path s' = Path s"
    "FileStateStore_loadLocked s' = Inr txos" "goodTXOs txos" "\<And>n. gget txos n = map_option normalTXO (gget m n)"
proof -
  have ts: "\<forall>t \<in> set (sortedTXOs m). stValue t \<noteq> None \<and> stNullifier t \<noteq> []"
    using assms(1,2) goodTXOs_lookup by (fastforce simp: set_sortedTXOs valued_def)
  obtain rs where rs: "mapRes recordFromStoredTXO (sortedTXOs m) = Inr rs"
      "list_all2 (\<lambda>t r. storedTXOFromRecord (jsonRecord r) = Inr (normalTXO t)) (sortedTXOs m) rs"
    using records_roundtrip [of "sortedTXOs m"] ts by blast
  define s' where "s' = s\<lparr>fsFile := FileDoc (map jsonRecord rs)\<rparr>"
  define txos where "txos = loadAll (map normalTXO (sortedTXOs m)) []"
  have "FileStateStore_saveLocked writable s m = Inr s'"
    using assms(3) rs(1) by (simp add: FileStateStore_saveLocked_def s'_def)
  moreover have "FileStateStore_loadLocked s' = Inr txos"
    using assms(3) load_records [OF rs(2)] ts by (simp add: FileStateStore_loadLocked_def s'_def readFile_def txos_def)
  moreover have "goodTXOs txos"
    unfolding txos_def using ts by (intro loadAll_good) auto
  moreover have "gget txos n = map_option normalTXO (gget m n)" for n
    unfolding txos_def by (rule gget_saved [OF assms(1)])
  ultimately show ?thesis
    by (intro that) (simp_all add: s'_def)
qed

section \<open>The file store refines the store in memory\<close>

datatype txoOp =
    UpsertTXO StoredTXO
  | MarkTXOSpent string string "uint64 option"
  | RollbackToBlock uint64
  | UpdateTXOPOIs string POIsPerList

fun memoryStep :: "txoOp \<Rightarrow> MemoryStateStore \<Rightarrow> MemoryStateStore res" where
  "memoryStep (UpsertTXO txo) s = MemoryStateStore_UpsertTXO None s txo"
| "memoryStep (MarkTXOSpent n txid None) s = MemoryStateStore_MarkTXOSpent None s n txid"
| "memoryStep (MarkTXOSpent n txid (Some b)) s = MemoryStateStore_MarkTXOSpentAtBlock None s n txid b"
| "memoryStep (RollbackToBlock b) s = MemoryStateStore_RollbackToBlock None s b"
| "memoryStep (UpdateTXOPOIs n pois) s = MemoryStateStore_UpdateTXOPOIs None s n pois"

fun fileStep :: "txoOp \<Rightarrow> FileStateStore \<Rightarrow> FileStateStore res" where
  "fileStep (UpsertTXO txo) s = FileStateStore_UpsertTXO writable None s txo"
| "fileStep (MarkTXOSpent n txid None) s = FileStateStore_MarkTXOSpent writable None s n txid"
| "fileStep (MarkTXOSpent n txid (Some b)) s = FileStateStore_MarkTXOSpentAtBlock writable None s n txid b"
| "fileStep (RollbackToBlock b) s = FileStateStore_RollbackToBlock writable None s b"
| "fileStep (UpdateTXOPOIs n pois) s = FileStateStore_UpdateTXOPOIs writable None s n pois"

fun valuedOp :: "txoOp \<Rightarrow> bool" where
  "valuedOp (UpsertTXO txo) = (stValue txo \<noteq> None)"
| "valuedOp _ = True"

text \<open>The operations as updates of a map of outputs, which both stores apply.\<close>

fun applyOp :: "txoOp \<Rightarrow> txos \<Rightarrow> txos res" where
  "applyOp (UpsertTXO txo) m =
     (if stNullifier txo = [] then Err ''txo nullifier is required'' else Inr (gput (stNullifier txo) txo m))"
| "applyOp (MarkTXOSpent n txid b) m = spendTXO n txid b m"
| "applyOp (RollbackToBlock b) m = Inr (rollbackTXOs b m)"
| "applyOp (UpdateTXOPOIs n pois) m = updatePOIs n pois m"

lemma memoryStep_applyOp: "memoryStep op (Some m) = andThen (applyOp op m) (\<lambda>m. Inr (Some m))"
  by (induction op "Some m" rule: memoryStep.induct)
    (simp_all add: MemoryStateStore_UpsertTXO_def MemoryStateStore_MarkTXOSpent_def MemoryStateStore_MarkTXOSpentAtBlock_def
      MemoryStateStore_markTXOSpent_def MemoryStateStore_RollbackToBlock_def MemoryStateStore_UpdateTXOPOIs_def)
      

lemma fileStep_applyOp:
  assumes "FileStateStore_loadLocked s = Inr txos"
  shows "fileStep op (Some s) =
    andThen (applyOp op txos) (\<lambda>m. andThen (FileStateStore_saveLocked writable s m) (\<lambda>s. Inr (Some s)))"
  using assms
  by (induction op "Some s" rule: fileStep.induct)
    (simp_all add: FileStateStore_UpsertTXO_def FileStateStore_MarkTXOSpent_def FileStateStore_MarkTXOSpentAtBlock_def
      FileStateStore_markTXOSpent_def FileStateStore_RollbackToBlock_def FileStateStore_UpdateTXOPOIs_def
      FileStateStore_update_def)

lemma applyOp_good:
  assumes "goodTXOs m" and "applyOp op m = Inr m'"
  shows "goodTXOs m'"
  using assms
  by (cases op) (auto simp: spendTXO_def updatePOIs_def intro!: goodTXOs_gput goodTXOs_rollback
      dest: goodTXOs_lookup split: if_splits option.splits)

lemma applyOp_valued:
  assumes "goodTXOs m" and "valued m" and "valuedOp op" and "applyOp op m = Inr m'"
  shows "valued m'"
  using assms
  by (cases op) (auto simp: spendTXO_def updatePOIs_def valued_def gomap_simps gget_rollbackTXOs rolledBack_def bind_eq_Some_conv
      split: if_splits option.splits)

text \<open>Two maps hold the same outputs up to the empty maps of statuses.\<close>

definition sameTXOs :: "txos \<Rightarrow> txos \<Rightarrow> bool" where
  "sameTXOs m m' \<longleftrightarrow> (\<forall>n. map_option normalTXO (gget m n) = map_option normalTXO (gget m' n))"

lemma sameTXOs_get:
  "sameTXOs m m' \<Longrightarrow> gget m n = None \<longleftrightarrow> gget m' n = None"
  "sameTXOs m m' \<Longrightarrow> gget m n = Some t \<Longrightarrow> gget m' n = Some t' \<Longrightarrow> normalTXO t = normalTXO t'"
  by (auto simp: sameTXOs_def dest!: spec [of _ n])

lemma normalTXO_update:
  "normalTXO (t\<lparr>stSpendTXID := x, stSpendBlockNumber := b\<rparr>) = (normalTXO t)\<lparr>stSpendTXID := x, stSpendBlockNumber := b\<rparr>"
  "normalTXO (t\<lparr>stPOIsPerList := p\<rparr>) = (normalTXO t)\<lparr>stPOIsPerList := omitEmpty p\<rparr>"
  unfolding normalTXO_def by (cases t, simp only: StoredTXO.simps)+

lemma rolledBack_normal: "map_option normalTXO (rolledBack b t) = rolledBack b (normalTXO t)"
  by (cases "stSpendBlockNumber t") (simp_all add: rolledBack_def normalTXO_update)

lemma sameTXOs_gput: "sameTXOs m m' \<Longrightarrow> normalTXO t = normalTXO t' \<Longrightarrow> sameTXOs (gput n t m) (gput n t' m')"
  by (simp add: sameTXOs_def gget_gput)

lemma applyOp_same:
  assumes "goodTXOs m" and "goodTXOs m'" and same: "sameTXOs m m'"
  shows "case applyOp op m' of Inl e \<Rightarrow> applyOp op m = Inl e | Inr r' \<Rightarrow> \<exists>r. applyOp op m = Inr r \<and> sameTXOs r r'"
proof -
  have cases_same: "(gget m n = None \<and> gget m' n = None) \<or>
      (\<exists>t t'. gget m n = Some t \<and> gget m' n = Some t' \<and> normalTXO t = normalTXO t')" for n
    using sameTXOs_get [OF same, of n] by (metis option.exhaust)
  show ?thesis
  proof (cases op)
    case (UpsertTXO txo)
    then show ?thesis using sameTXOs_gput [OF same refl] by simp
  next
    case (MarkTXOSpent n txid b)
    from cases_same [of n] show ?thesis
    proof (elim disjE exE conjE)
      fix t t' assume get: "gget m n = Some t" "gget m' n = Some t'" and eq: "normalTXO t = normalTXO t'"
      have "normalTXO (t\<lparr>stSpendTXID := txid, stSpendBlockNumber := b\<rparr>) = normalTXO (t'\<lparr>stSpendTXID := txid, stSpendBlockNumber := b\<rparr>)"
        unfolding normalTXO_update eq ..
      from sameTXOs_gput [OF same this, of n] show ?thesis
        unfolding MarkTXOSpent applyOp.simps spendTXO_def get by simp
    qed (simp add: MarkTXOSpent spendTXO_def)
  next
    case (RollbackToBlock b)
    have roll: "map_option normalTXO (Option.bind x (rolledBack b)) = Option.bind (map_option normalTXO x) (rolledBack b)" for x
      by (cases x) (simp_all add: rolledBack_normal)
    have "sameTXOs (rollbackTXOs b m) (rollbackTXOs b m')"
      using same unfolding sameTXOs_def gget_rollbackTXOs [OF assms(1)] gget_rollbackTXOs [OF assms(2)] roll by simp
    then show ?thesis by (simp add: RollbackToBlock)
  next
    case (UpdateTXOPOIs n pois)
    from cases_same [of n] show ?thesis
    proof (elim disjE exE conjE)
      fix t t' assume get: "gget m n = Some t" "gget m' n = Some t'" and eq: "normalTXO t = normalTXO t'"
      have "normalTXO (t\<lparr>stPOIsPerList := pois\<rparr>) = normalTXO (t'\<lparr>stPOIsPerList := pois\<rparr>)"
        unfolding normalTXO_update eq ..
      from sameTXOs_gput [OF same this, of n] show ?thesis
        unfolding UpdateTXOPOIs applyOp.simps updatePOIs_def get by simp
    qed (simp add: UpdateTXOPOIs updatePOIs_def)
  qed
qed

text \<open>The file mirrors the memory when it loads the same outputs, with empty maps of statuses as nil.\<close>

definition mirrors :: "txos \<Rightarrow> storedTXORecord list fileStore \<Rightarrow> bool" where
  "mirrors m s \<longleftrightarrow> goodTXOs m \<and> valued m \<and> Path s \<noteq> [] \<and>
     (\<exists>txos. FileStateStore_loadLocked s = Inr txos \<and> goodTXOs txos \<and> (\<forall>n. gget txos n = map_option normalTXO (gget m n)))"

lemma mirrors_step:
  assumes "mirrors m s" and "valuedOp op"
  shows "case memoryStep op (Some m) of
      Inl e \<Rightarrow> fileStep op (Some s) = Inl e
    | Inr r \<Rightarrow> \<exists>m' s'. r = Some m' \<and> fileStep op (Some s) = Inr (Some s') \<and> mirrors m' s'"
proof -
  obtain txos where load: "FileStateStore_loadLocked s = Inr txos" and good: "goodTXOs txos" "goodTXOs m"
      and get: "\<And>n. gget txos n = map_option normalTXO (gget m n)" and val: "valued m" and path: "Path s \<noteq> []"
    using assms(1) unfolding mirrors_def by blast
  have "sameTXOs txos m"
    by (simp add: sameTXOs_def get option.map_comp comp_def)
  note same = applyOp_same [OF good this, of op]
  have valued_txos: "valued txos"
    unfolding valued_def
  proof (intro allI impI)
    fix n t assume "gget txos n = Some t"
    then obtain u where "gget m n = Some u" "t = normalTXO u"
      unfolding get map_option_eq_Some by blast
    with val show "stValue t \<noteq> None" by (simp add: valued_def)
  qed
  show ?thesis
  proof (cases "applyOp op m")
    case (Inl e)
    have "applyOp op txos = Inl e"
      using same unfolding Inl sum.case .
    then show ?thesis
      unfolding memoryStep_applyOp fileStep_applyOp [OF load] Inl by simp
  next
    case (Inr m')
    obtain r where r: "applyOp op txos = Inr r" "sameTXOs r m'"
      using same unfolding Inr sum.case by blast
    note r_ok = applyOp_good [OF good(1) r(1)] applyOp_valued [OF good(1) valued_txos assms(2) r(1)]
    obtain s' txos' where save: "FileStateStore_saveLocked writable s r = Inr s'" "Path s' = Path s"
        "FileStateStore_loadLocked s' = Inr txos'" "goodTXOs txos'" "\<And>n. gget txos' n = map_option normalTXO (gget r n)"
      by (rule save_load [OF r_ok path], rule that)
    have "gget txos' n = map_option normalTXO (gget m' n)" for n
      using save(5) r(2) unfolding sameTXOs_def by simp
    then have "mirrors m' s'"
      unfolding mirrors_def save(2)
      using save(3,4) path applyOp_good [OF good(2) Inr] applyOp_valued [OF good(2) val assms(2) Inr] by blast
    then show ?thesis
      unfolding memoryStep_applyOp fileStep_applyOp [OF load] Inr r(1) by (simp add: save(1))
  qed
qed

definition runMemory :: "txoOp list \<Rightarrow> MemoryStateStore \<Rightarrow> MemoryStateStore" where
  "runMemory = runOps memoryStep"

definition runFile :: "txoOp list \<Rightarrow> FileStateStore \<Rightarrow> FileStateStore" where
  "runFile = runOps fileStep"

definition mirrorStores :: "MemoryStateStore \<Rightarrow> FileStateStore \<Rightarrow> bool" where
  "mirrorStores store f \<longleftrightarrow> (\<exists>m s. store = Some m \<and> f = Some s \<and> mirrors m s)"

interpretation stateStores: mirrored_store memoryStep fileStep valuedOp mirrorStores
proof (unfold_locales, goal_cases)
  case (1 store f op)
  then obtain m s where ms: "store = Some m" "f = Some s" "mirrors m s"
    unfolding mirrorStores_def by blast
  then show ?case
    using mirrors_step [OF ms(3) 1(2)] unfolding ms(1,2) mirrorStores_def by (cases "memoryStep op (Some m)") auto
qed

lemma sortedTXOs_cong:
  assumes "goodTXOs m" and "goodTXOs m'" and "\<And>n. gget m n = gget m' n"
  shows "sortedTXOs m = sortedTXOs m'"
  unfolding sortedTXOs_def
  by (rule sorted_listing_cong [OF txoOrder.slice_less_axioms goodTXOs_keyed goodTXOs_keyed])
     (use assms in \<open>auto simp: txoLess_def split: if_splits\<close>)

lemma sortedTXOs_normal:
  assumes "goodTXOs m" and "goodTXOs txos" and "\<And>n. gget txos n = map_option normalTXO (gget m n)"
  shows "sortedTXOs txos = map normalTXO (sortedTXOs m)"
proof -
  have good: "goodTXOs (gmap normalTXO m)"
    using assms(1) unfolding goodTXOs_def map_fst_gmap
    by (auto simp only: gmap_def set_map split_beta normalTXO_simps fst_conv snd_conv)
  have "sortedTXOs txos = sortedTXOs (gmap normalTXO m)"
    using sortedTXOs_cong [OF assms(2) good] assms(3) by (simp add: gget_gmap)
  also have "\<dots> = map normalTXO (sortedTXOs m)"
    by (simp add: sortedTXOs_def gmap_def case_prod_unfold comp_def flip: sortBy_map [of txoLess normalTXO] add: txoLess_def)
  finally show ?thesis .
qed

definition sampleStoredTXO :: "string \<Rightarrow> uint64 \<Rightarrow> StoredTXO" where
  "sampleStoredTXO nullifier block =
     \<lparr>stTXIDVersion = ''V2_PoseidonMerkle'', stTree = 0, stPosition = 0, stTXID = ''aa'', stTimestamp = None,
      stBlockNumber = block, stSpendTXID = [], stSpendBlockNumber = None, stNullifier = nullifier,
      stCommitmentHash = [], stNotePublicKey = [], stNoteRandom = [], stTokenHash = ''t'',
      stTokenData = \<lparr>TokenAddress = [], TokenType = 0, TokenSubID = []\<rparr>, stValue = Some 5, stOutputType = None,
      stWalletSource = [], stMemoText = [], stSenderAddress = [], stRecipientAddress = [], stShieldFee = [],
      stCommitmentType = [], stPOIsPerList = Some [], stBlindedCommitment = [], stTransactCreationRailgunTxid = []\<rparr>"

lemma file_rejects_no_value:
  assumes "FileStateStore_loadLocked s = Inr txos" and "goodTXOs txos" and "stValue txo = None"
  shows "isl (fileStep (UpsertTXO txo) (Some s))"
proof (cases "stNullifier txo = []")
  case False
  let ?m = "gput (stNullifier txo) txo txos"
  have "txo \<in> set (sortedTXOs ?m)"
    using set_sortedTXOs [OF goodTXOs_gput [OF assms(2) False refl]] by (simp add: gget_gput)
  moreover have "recordFromStoredTXO txo \<noteq> Inr r" for r
    using assms(3) by (auto simp: recordFromStoredTXO_def)
  ultimately have "mapRes recordFromStoredTXO (sortedTXOs ?m) \<noteq> Inr rs" for rs
    by (metis in_set_conv_nth mapRes_nth)
  then obtain e where "FileStateStore_saveLocked writable s ?m = Inl e"
    by (cases "FileStateStore_saveLocked writable s ?m") (auto simp: FileStateStore_saveLocked_def andThen_Inr split: if_splits)
  then show ?thesis
    unfolding fileStep_applyOp [OF assms(1)] using False by simp
qed (simp add: fileStep_applyOp [OF assms(1)])

text \<open>C36: the file store, on a file system that never fails, refines the store in memory. Over any sequence of calls on a
  fresh store in which every inserted output has a value, failed ones included, both stores fail on the same calls with the same error, a lookup
  finds the same output and a listing gives the same slice, up to \<^verbatim>\<open>omitempty\<close>: an empty
  map of POI statuses reads back as nil. An output without a value (a nil \<^verbatim>\<open>Value\<close>) is where the stores
  differ: the store in memory takes it, and the file store refuses it.\<close>
theorem file_state_refines_memory:
  assumes "Path s \<noteq> []" and "fsFile s = FileMissing" and "\<forall>op \<in> set ops. valuedOp op" and "valuedOp op"
  shows "let m = runMemory ops (Some []); f = runFile ops (Some s) in
    FileStateStore_GetTXO None f n = andThen (MemoryStateStore_GetTXO None m n) (\<lambda>t. Inr (map_option normalTXO t)) \<and>
    FileStateStore_ListTXOs None f = andThen (MemoryStateStore_ListTXOs None m) (\<lambda>ts. Inr (map normalTXO ts)) \<and>
    (case memoryStep op m of Inl e \<Rightarrow> fileStep op f = Inl e | Inr _ \<Rightarrow> isl (fileStep op f) = False) \<and>
    (stValue txo = None \<and> stNullifier txo \<noteq> [] \<longrightarrow>
      \<not> isl (memoryStep (UpsertTXO txo) m) \<and> isl (fileStep (UpsertTXO txo) f))"
proof -
  have "mirrors [] s"
    using assms(1,2) by (simp add: mirrors_def valued_def FileStateStore_loadLocked_def readFile_def)
  then have start: "mirrorStores (Some []) (Some s)"
    by (simp add: mirrorStores_def)
  note follow = stateStores.run [OF start assms(3), folded runMemory_def runFile_def]
  obtain m f where run: "runMemory ops (Some []) = Some m" "runFile ops (Some s) = Some f" and ms: "mirrors m f"
    using follow unfolding mirrorStores_def by blast
  obtain txos where load: "FileStateStore_loadLocked f = Inr txos" and good: "goodTXOs m" "goodTXOs txos"
      and get: "\<And>n. gget txos n = map_option normalTXO (gget m n)"
    using ms unfolding mirrors_def by blast
  have "case memoryStep op (Some m) of Inl e \<Rightarrow> fileStep op (Some f) = Inl e | Inr _ \<Rightarrow> isl (fileStep op (Some f)) = False"
    using stateStores.outcome [OF follow assms(4)] unfolding run .
  moreover have "stValue txo = None \<and> stNullifier txo \<noteq> [] \<longrightarrow>
      \<not> isl (memoryStep (UpsertTXO txo) (Some m)) \<and> isl (fileStep (UpsertTXO txo) (Some f))"
    using file_rejects_no_value [OF load good(2)] unfolding memoryStep_applyOp by simp
  ultimately show ?thesis
    unfolding run Let_def
    by (simp add: FileStateStore_GetTXO_def MemoryStateStore_GetTXO_def FileStateStore_ListTXOs_def MemoryStateStore_ListTXOs_def
        FileStateStore_load_def load get sortedTXOs_normal [OF good get])
qed

theorem file_state_refines_memory_witness:
  "FileStateStore_GetTXO None (runFile [UpsertTXO (sampleStoredTXO ''n'' 7)] (Some \<lparr>Path = ''state'', fsFile = FileMissing\<rparr>)) ''n'' =
     Inr (Some ((sampleStoredTXO ''n'' 7)\<lparr>stPOIsPerList := None\<rparr>))"
proof -
  have mem: "MemoryStateStore_GetTXO None (runMemory [UpsertTXO (sampleStoredTXO ''n'' 7)] (Some [])) ''n'' = Inr (Some (sampleStoredTXO ''n'' 7))"
    by code_simp
  have val: "valuedOp (UpsertTXO (sampleStoredTXO ''n'' 7))"
    by (simp add: sampleStoredTXO_def)
  have norm: "normalTXO (sampleStoredTXO ''n'' 7) = (sampleStoredTXO ''n'' 7)\<lparr>stPOIsPerList := None\<rparr>"
    by (simp add: sampleStoredTXO_def normalTXO_def omitEmpty_def)
  show ?thesis
    using file_state_refines_memory [of "\<lparr>Path = ''state'', fsFile = FileMissing\<rparr>" "[UpsertTXO (sampleStoredTXO ''n'' 7)]"
        "UpsertTXO (sampleStoredTXO ''n'' 7)" "''n''"] val
    by (simp add: Let_def mem norm)
qed

section \<open>A rollback undoes the later blocks\<close>

text \<open>What a scan of the blocks from \<open>b\<close> on does to the outputs: it adds outputs of those blocks,
  marks outputs spent in those blocks, sets the statuses of outputs it added, and may itself roll back
  to such a block. It spends no output that an earlier block spent, and adds none that an earlier
  block already had.\<close>

definition spentBefore :: "uint64 \<Rightarrow> StoredTXO \<Rightarrow> bool" where
  "spentBefore b t = (case stSpendBlockNumber t of None \<Rightarrow> stSpendTXID t \<noteq> [] | Some k \<Rightarrow> k < b)"

fun lateOp :: "uint64 \<Rightarrow> txos \<Rightarrow> txoOp \<Rightarrow> bool" where
  "lateOp b m (UpsertTXO txo) \<longleftrightarrow> b \<le> stBlockNumber txo \<and>
     (case gget m (stNullifier txo) of None \<Rightarrow> True | Some old \<Rightarrow> b \<le> stBlockNumber old)"
| "lateOp b m (MarkTXOSpent n txid None) \<longleftrightarrow> False"
| "lateOp b m (MarkTXOSpent n txid (Some k)) \<longleftrightarrow> b \<le> k \<and>
     (case gget m n of None \<Rightarrow> True | Some t \<Rightarrow> b \<le> stBlockNumber t \<or> \<not> spentBefore b t)"
| "lateOp b m (RollbackToBlock c) \<longleftrightarrow> b \<le> c"
| "lateOp b m (UpdateTXOPOIs n pois) \<longleftrightarrow> (case gget m n of None \<Rightarrow> True | Some t \<Rightarrow> b \<le> stBlockNumber t)"

inductive scanned :: "uint64 \<Rightarrow> MemoryStateStore \<Rightarrow> MemoryStateStore \<Rightarrow> bool" for b where
  scanned_start: "scanned b s s"
| scanned_step: "scanned b s (Some m) \<Longrightarrow> lateOp b m op \<Longrightarrow> memoryStep op (Some m) = Inr s' \<Longrightarrow> scanned b s s'"

lemma rolledBack_twice: "b \<le> c \<Longrightarrow> Option.bind (rolledBack c t) (rolledBack b) = rolledBack b t"
  by (auto simp: rolledBack_def not_le split: option.splits dest: order_trans le_less_trans)

lemma rolledBack_spend:
  assumes "b \<le> k" and "b \<le> stBlockNumber t \<or> \<not> spentBefore b t"
  shows "rolledBack b (t\<lparr>stSpendTXID := txid, stSpendBlockNumber := Some k\<rparr>) = rolledBack b t"
proof (cases "b \<le> stBlockNumber t")
  case False
  then have "\<not> spentBefore b t" using assms(2) by simp
  then show ?thesis
    using assms(1) by (cases t) (simp add: rolledBack_def spentBefore_def not_less split: option.splits)
qed (simp add: rolledBack_def)

lemma lateOp_rolled:
  assumes "goodTXOs m" and "lateOp b m op" and "applyOp op m = Inr m'"
  shows "Option.bind (gget m' n) (rolledBack b) = Option.bind (gget m n) (rolledBack b)"
proof (cases op)
  case (UpsertTXO txo)
  have m': "m' = gput (stNullifier txo) txo m"
    using assms(3) by (simp add: UpsertTXO split: if_splits)
  show ?thesis
    using assms(2) by (simp add: UpsertTXO m' gget_gput rolledBack_def split: option.splits)
next
  case (MarkTXOSpent k txid spent)
  then obtain c where c: "spent = Some c" "b \<le> c"
    using assms(2) by (cases spent) auto
  obtain t where t: "gget m k = Some t" "m' = gput k (t\<lparr>stSpendTXID := txid, stSpendBlockNumber := Some c\<rparr>) m"
    using assms(3) by (cases "gget m k") (simp_all add: MarkTXOSpent spendTXO_def c)
  have "b \<le> stBlockNumber t \<or> \<not> spentBefore b t"
    using assms(2) by (simp add: MarkTXOSpent c t)
  from rolledBack_spend [OF c(2) this] show ?thesis
    by (simp add: t gget_gput)
next
  case (RollbackToBlock c)
  then have c: "b \<le> c" and m': "m' = rollbackTXOs c m"
    using assms(2,3) by simp_all
  show ?thesis
    unfolding m' gget_rollbackTXOs [OF assms(1)] by (cases "gget m n") (simp_all add: rolledBack_twice [OF c])
next
  case (UpdateTXOPOIs k pois)
  obtain t where t: "gget m k = Some t" "m' = gput k (t\<lparr>stPOIsPerList := pois\<rparr>) m"
    using assms(3) by (cases "gget m k") (simp_all add: UpdateTXOPOIs updatePOIs_def)
  then show ?thesis
    using assms(2) by (simp add: UpdateTXOPOIs gget_gput rolledBack_def)
qed

lemma scanned_rolled:
  assumes "scanned b s s'" and "s = Some m" and "goodTXOs m"
  shows "\<exists>m'. s' = Some m' \<and> goodTXOs m' \<and>
    (\<forall>n. Option.bind (gget m' n) (rolledBack b) = Option.bind (gget m n) (rolledBack b))"
  using assms
proof (induction rule: scanned.induct)
  case (scanned_step s m1 op s')
  then have m1: "goodTXOs m1" "\<And>n. Option.bind (gget m1 n) (rolledBack b) = Option.bind (gget m n) (rolledBack b)"
    by simp_all
  obtain m' where m': "applyOp op m1 = Inr m'" "s' = Some m'"
    using scanned_step.hyps(3) unfolding memoryStep_applyOp by (cases "applyOp op m1") simp_all
  show ?case
    using m' applyOp_good [OF m1(1) m'(1)] lateOp_rolled [OF m1(1) scanned_step.hyps(2) m'(1)] m1(2) by simp
qed blast

text \<open>C37: rolling the store back to a block undoes everything a scan did from that block
  on. After any run of such operations, a rollback to block \<open>b\<close> leaves the same outputs, and
  the same listing, as a rollback of the state before the run; when that state held nothing from
  block \<open>b\<close> on, it is restored exactly.\<close>
theorem rollback_undoes_blocks:
  assumes "goodTXOs m" and "scanned b (Some m) s"
  shows "\<exists>after before. MemoryStateStore_RollbackToBlock None s b = Inr after \<and>
    MemoryStateStore_RollbackToBlock None (Some m) b = Inr before \<and>
    MemoryStateStore_ListTXOs None after = MemoryStateStore_ListTXOs None before \<and>
    (\<forall>n. MemoryStateStore_GetTXO None after n = MemoryStateStore_GetTXO None before n) \<and>
    ((\<forall>n t. gget m n = Some t \<longrightarrow> rolledBack b t = Some t) \<longrightarrow>
      MemoryStateStore_ListTXOs None after = MemoryStateStore_ListTXOs None (Some m))"
proof -
  obtain m' where s: "s = Some m'" and good: "goodTXOs m'"
      and eq: "\<And>n. Option.bind (gget m' n) (rolledBack b) = Option.bind (gget m n) (rolledBack b)"
    using scanned_rolled [OF assms(2) refl assms(1)] by blast
  have get: "gget (rollbackTXOs b m') n = gget (rollbackTXOs b m) n" for n
    by (simp add: gget_rollbackTXOs assms(1) good eq)
  have list: "sortedTXOs (rollbackTXOs b m') = sortedTXOs (rollbackTXOs b m)"
    by (intro sortedTXOs_cong goodTXOs_rollback good assms(1) get)
  have "sortedTXOs (rollbackTXOs b m) = sortedTXOs m" if early: "\<forall>n t. gget m n = Some t \<longrightarrow> rolledBack b t = Some t"
  proof (intro sortedTXOs_cong goodTXOs_rollback assms(1))
    fix n show "gget (rollbackTXOs b m) n = gget m n"
      using early by (cases "gget m n") (simp_all add: gget_rollbackTXOs assms(1))
  qed
  then show ?thesis
    unfolding s by (simp add: MemoryStateStore_RollbackToBlock_def MemoryStateStore_ListTXOs_def MemoryStateStore_GetTXO_def get list)
qed

theorem rollback_undoes_blocks_witness:
  "\<exists>s after. scanned 9 (Some [(''n'', sampleStoredTXO ''n'' 7)]) s \<and>
     MemoryStateStore_ListTXOs None s \<noteq> MemoryStateStore_ListTXOs None (Some [(''n'', sampleStoredTXO ''n'' 7)]) \<and>
     MemoryStateStore_RollbackToBlock None s 9 = Inr after \<and>
     MemoryStateStore_ListTXOs None after = Inr [sampleStoredTXO ''n'' 7]"
proof -
  define m where "m = [(''n'', sampleStoredTXO ''n'' 7)]"
  define t where "t = (sampleStoredTXO ''n'' 7)\<lparr>stSpendTXID := ''bb'', stSpendBlockNumber := Some 11\<rparr>"
  have good: "goodTXOs m"
    by (simp add: m_def goodTXOs_def sampleStoredTXO_def)
  have "lateOp 9 m (MarkTXOSpent ''n'' ''bb'' (Some 11))"
    by (simp add: m_def spentBefore_def sampleStoredTXO_def)
  moreover have "memoryStep (MarkTXOSpent ''n'' ''bb'' (Some 11)) (Some m) = Inr (Some [(''n'', t)])"
    unfolding memoryStep_applyOp by (simp add: m_def spendTXO_def t_def)
  ultimately have run: "scanned 9 (Some m) (Some [(''n'', t)])"
    by (intro scanned_step [OF scanned_start])
  have lists: "MemoryStateStore_ListTXOs None (Some [(''n'', t)]) = Inr [t]" "MemoryStateStore_ListTXOs None (Some m) = Inr [sampleStoredTXO ''n'' 7]"
    by (simp_all add: MemoryStateStore_ListTXOs_def sortedTXOs_def m_def)
  have early: "\<forall>n t. gget m n = Some t \<longrightarrow> rolledBack 9 t = Some t"
    by (simp add: m_def rolledBack_def sampleStoredTXO_def)
  have "t \<noteq> sampleStoredTXO ''n'' 7"
    by (simp add: t_def sampleStoredTXO_def)
  then show ?thesis
    using rollback_undoes_blocks [OF good run] run lists early unfolding m_def by auto
qed

end
