(* ===== verification/Memo.thy ===== *)
theory Memo
  imports Cipher Railgun
begin

text \<open>
  Models \<^verbatim>\<open>pkg/crypto/memo.go\<close>: wallet sources in base 37, memo text, and the
  encrypted annotations of sent notes. The constants \<open>OutputTypeChange\<close> and
  \<open>MemoSenderRandomNull\<close> are in \<open>Railgun\<close>. The character that an error message
  shows is its first byte here.
\<close>

section \<open>Wallet sources\<close>

definition OutputTypeTransfer :: int where "OutputTypeTransfer = 0"
definition OutputTypeBroadcasterFee :: int where "OutputTypeBroadcasterFee = 1"
definition WalletSourceMaxLength :: nat where "WalletSourceMaxLength = 16"

definition walletSourceCharset :: string where
  "walletSourceCharset = '' 0123456789abcdefghijklmnopqrstuvwxyz''"

definition charsetIndex :: "char \<Rightarrow> int option" where
  "charsetIndex c = (let i = length (takeWhile (\<lambda>x. x \<noteq> c) walletSourceCharset)
     in if i < length walletSourceCharset then Some (int i) else None)"

definition EncodeWalletSource :: "string \<Rightarrow> string res" where
  "EncodeWalletSource walletSource =
     (if walletSource = [] then Inr []
      else let walletSource = ToLower walletSource; base = int (length walletSourceCharset)
      in andThen (foldResI 0 (\<lambda>i char output. case charsetIndex char of
            None \<Rightarrow> Inl (Errorf ''Invalid character for wallet source: %c'' [AStr [char]])
          | Some index \<Rightarrow> Inr (output + index * base ^ (length walletSource - i - 1))) walletSource 0) (\<lambda>output.
         let outputHex = intText 16 output
         in if length outputHex mod 2 = 1 then Inr outputHex else Inr (''0'' @ outputHex)))"

definition ValidateWalletSource :: "string \<Rightarrow> unit res" where
  "ValidateWalletSource walletSource =
     (if length walletSource > WalletSourceMaxLength
      then Inl (Errorf ''wallet source must be less than %d characters'' [ANat WalletSourceMaxLength])
      else if walletSource = [] then Err ''please add a valid wallet source''
      else andThen (EncodeWalletSource walletSource) (\<lambda>_. Inr ()))"

definition NormalizeWalletSource :: "string \<Rightarrow> string res" where
  "NormalizeWalletSource walletSource =
     (let normalized = ToLower walletSource in andThen (ValidateWalletSource normalized) (\<lambda>_. Inr normalized))"

function decodeDigits :: "int \<Rightarrow> string \<Rightarrow> string" where
  "decodeDigits n out =
     (if n > 0 then let base = int (length walletSourceCharset); remainder = n mod base
        in decodeDigits ((n - remainder) div base) ((walletSourceCharset ! nat remainder) # out)
      else out)"
  by pat_completeness auto
termination
proof (relation "measure (\<lambda>(n, _). nat n)", simp, simp add: Let_def, goal_cases)
  case (1 n)
  have "length walletSourceCharset = 37" by code_simp
  moreover have "(n - n mod 37) div 37 \<le> n div 37" using 1 by (intro zdiv_mono1) simp_all
  moreover have "n div 37 < n" using 1 by (intro int_div_less_self) simp_all
  ultimately show ?case using 1 by simp
qed

declare decodeDigits.simps [simp del]

definition DecodeWalletSource :: "string \<Rightarrow> string res" where
  "DecodeWalletSource encoded = andThen (HexToBigInt encoded) (\<lambda>n. Inr (decodeDigits n []))"

section \<open>Memo text\<close>

text \<open>\<^verbatim>\<open>utf8.Valid\<close>.\<close>

definition inByteRange :: "byte \<Rightarrow> byte \<Rightarrow> byte \<Rightarrow> bool" where
  "inByteRange lo hi b \<longleftrightarrow> lo \<le> b \<and> b \<le> hi"

abbreviation continuation :: "byte \<Rightarrow> bool" where
  "continuation \<equiv> inByteRange 0x80 0xBF"

fun utf8Valid :: "byte list \<Rightarrow> bool" where
  "utf8Valid [] = True"
| "utf8Valid (a # bs) =
     (if a < 0x80 then utf8Valid bs
      else if inByteRange 0xC2 0xDF a then (case bs of b # bs \<Rightarrow> continuation b \<and> utf8Valid bs | _ \<Rightarrow> False)
      else if inByteRange 0xE0 0xEF a then (case bs of
          b # c # bs \<Rightarrow> (if a = 0xE0 then inByteRange 0xA0 0xBF b else if a = 0xED then inByteRange 0x80 0x9F b else continuation b)
            \<and> continuation c \<and> utf8Valid bs
        | _ \<Rightarrow> False)
      else if inByteRange 0xF0 0xF4 a then (case bs of
          b # c # d # bs \<Rightarrow> (if a = 0xF0 then inByteRange 0x90 0xBF b else if a = 0xF4 then inByteRange 0x80 0x8F b else continuation b)
            \<and> continuation c \<and> continuation d \<and> utf8Valid bs
        | _ \<Rightarrow> False)
      else False)"

definition EncodeMemoText :: "string \<Rightarrow> string" where
  "EncodeMemoText memoText = (if memoText = [] then [] else BytesToHex (stringBytes memoText) False)"

definition DecodeMemoText :: "string \<Rightarrow> string res" where
  "DecodeMemoText encoded =
     (if encoded = [] then Inr []
      else andThen (HexToBytes encoded) (\<lambda>decoded.
        if \<not> utf8Valid decoded then Err ''memo text is not valid UTF-8'' else Inr (bytesString decoded)))"

section \<open>Annotations of sent notes\<close>

record NoteAnnotationData =
  naOutputType :: int
  naSenderRandom :: string
  naWalletSource :: string

record SenderAnnotationData =
  saOutputType :: int
  saWalletSource :: string

text \<open>The loop that writes zeros before a text until it has \<open>n\<close> characters.\<close>

definition padTo :: "nat \<Rightarrow> string \<Rightarrow> string" where
  "padTo n s = Repeat0 (n - length s) @ s"

definition CreateEncryptedNoteAnnotationDataV2 ::
  "ciphers \<Rightarrow> int \<Rightarrow> string \<Rightarrow> string \<Rightarrow> byte list \<Rightarrow> string \<Rightarrow> string res" where
  "CreateEncryptedNoteAnnotationDataV2 c outputType senderRandom walletSource viewingPrivateKey iv =
     andThen (BigIntToHex (Some outputType) 1 False) (\<lambda>outputTypeHex.
     andThen (wrapErr ''sender random: %w'' [] (FormatHexToByteLength senderRandom 15 False)) (\<lambda>senderRandomFormatted.
     let metadataField0 = outputTypeHex @ senderRandomFormatted
     in if length metadataField0 \<noteq> 32 then Err ''metadata field 0 must be 16 bytes''
     else let metadataField1 = Repeat0 30
     in andThen (EncodeWalletSource walletSource) (\<lambda>encoded.
     let metadataField2 = padTo 30 encoded
     in andThen (AESCTREncryptHex c [metadataField0, metadataField1, metadataField2] (BytesToHex viewingPrivateKey False) iv) (\<lambda>ciphertext.
     Inr (ctrIV ciphertext @ (ctrData ciphertext ! 0) @ (ctrData ciphertext ! 1) @ (ctrData ciphertext ! 2))))))"

definition CreateSenderAnnotationEncryptedV3 ::
  "ciphers \<Rightarrow> string \<Rightarrow> int list \<Rightarrow> byte list \<Rightarrow> string \<Rightarrow> string res" where
  "CreateSenderAnnotationEncryptedV3 c walletSource orderedOutputTypes viewingPrivateKey nonce =
     andThen (EncodeWalletSource walletSource) (\<lambda>encoded.
     let metadataField0 = padTo 32 encoded
     in andThen (mapRes (\<lambda>outputType. BigIntToHex (Some outputType) 1 False) orderedOutputTypes) (\<lambda>outputTypes.
     andThen (XChaCha20EncryptHex c (metadataField0 @ concat outputTypes) viewingPrivateKey nonce) (\<lambda>ciphertext.
     Inr (Prefix0x (xccNonce ciphertext @ xccBundle ciphertext)))))"

text \<open>\<^verbatim>\<open>int(outputType.Int64())\<close>: the low 64 bits.\<close>

definition Int64 :: "int \<Rightarrow> int" where
  "Int64 n = goInt n"

definition slice :: "nat \<Rightarrow> nat \<Rightarrow> string \<Rightarrow> string" where
  "slice a b s = take (b - a) (drop a s)"

definition DecryptNoteAnnotationDataV2 :: "ciphers \<Rightarrow> string \<Rightarrow> byte list \<Rightarrow> NoteAnnotationData res" where
  "DecryptNoteAnnotationDataV2 c annotationData viewingPrivateKey =
     (if annotationData = [] then Err ''annotation data is empty''
      else let hexlified = Strip0x annotationData
      in if length hexlified < 64 then Err ''annotation data too short''
      else let end1 = min (length hexlified) 96; end2 = min (length hexlified) 128;
               fields = (if length hexlified > 64
                 then [slice 32 64 hexlified, slice 64 end1 hexlified, slice end1 end2 hexlified]
                 else [slice 32 64 hexlified])
      in andThen (AESCTRDecryptHex c \<lparr>ctrIV = take 32 hexlified, ctrData = fields\<rparr> (BytesToHex viewingPrivateKey False)) (\<lambda>decrypted.
      if decrypted = [] \<or> length (decrypted ! 0) < 32 then Err ''invalid decrypted annotation data''
      else andThen (HexToBigInt (take 2 (decrypted ! 0))) (\<lambda>outputType.
      andThen (if length decrypted > 2 then DecodeWalletSource (decrypted ! 2) else Inr []) (\<lambda>walletSource.
      Inr \<lparr>naOutputType = Int64 outputType, naSenderRandom = slice 2 32 (decrypted ! 0), naWalletSource = walletSource\<rparr>))))"

text \<open>A negative batch index reads before the slice, which panics.\<close>

definition DecryptSenderAnnotationV3 :: "ciphers \<Rightarrow> string \<Rightarrow> byte list \<Rightarrow> int \<Rightarrow> SenderAnnotationData res" where
  "DecryptSenderAnnotationV3 c senderCiphertext viewingPrivateKey batchIndex =
     (if senderCiphertext = [] then Err ''sender ciphertext is empty''
      else let stripped = Strip0x senderCiphertext
      in if length stripped < 32 then Err ''sender ciphertext too short''
      else andThen (XChaCha20DecryptHex c \<lparr>xccAlgorithm = XChaChaEncryptionAlgorithm, xccNonce = take 32 stripped,
          xccBundle = drop 32 stripped\<rparr> viewingPrivateKey) (\<lambda>decrypted.
      if length decrypted < 32 then Err ''invalid decrypted sender annotation''
      else andThen (DecodeWalletSource (take 32 decrypted)) (\<lambda>walletSource.
      let outputTypeOffset = goInt (32 + batchIndex * 2)
      in if int (length decrypted) < goInt (outputTypeOffset + 2)
         then Inl (Errorf ''missing output type at batch index %d'' [AInt batchIndex])
      else if outputTypeOffset < 0 then Inl (Panic ''slice bounds out of range'')
      else andThen (HexToBigInt (slice (nat outputTypeOffset) (nat (outputTypeOffset + 2)) decrypted)) (\<lambda>outputType.
      Inr \<lparr>saOutputType = Int64 outputType, saWalletSource = walletSource\<rparr>))))"

section \<open>Wallet sources are read back\<close>

lemma charset_length [simp]: "length walletSourceCharset = 37"
  by code_simp

lemma charsetIndex_bounds: "charsetIndex c = Some i \<Longrightarrow> 0 \<le> i \<and> i < 37 \<and> walletSourceCharset ! nat i = c"
proof -
  assume a: "charsetIndex c = Some i"
  then have i: "nat i = length (takeWhile (\<lambda>x. x \<noteq> c) walletSourceCharset)" "0 \<le> i" "i < 37"
    by (auto simp: charsetIndex_def Let_def split: if_splits)
  then show ?thesis
    using nth_length_takeWhile [of "\<lambda>x. x \<noteq> c" walletSourceCharset] by auto
qed

lemma charsetIndex_space: "charsetIndex c = Some 0 \<longleftrightarrow> c = CHR '' ''"
proof
  have "walletSourceCharset ! 0 = CHR '' ''" by code_simp
  then show "charsetIndex c = Some 0 \<Longrightarrow> c = CHR '' ''"
    using charsetIndex_bounds [of c 0] by simp
  show "c = CHR '' '' \<Longrightarrow> charsetIndex c = Some 0"
    by (simp add: charsetIndex_def walletSourceCharset_def)
qed

text \<open>The number that a text spells in base 37.\<close>

definition spelled :: "string \<Rightarrow> int" where
  "spelled s = foldl (\<lambda>a c. a * 37 + the (charsetIndex c)) 0 s"

abbreviation inCharset :: "string \<Rightarrow> bool" where
  "inCharset s \<equiv> \<forall>c \<in> set s. charsetIndex c \<noteq> None"

lemma spelled_shift: "foldl (\<lambda>a c. a * 37 + the (charsetIndex c)) n s = n * 37 ^ length s + spelled s"
proof (induction s arbitrary: n)
  case (Cons c s)
  have "spelled (c # s) = the (charsetIndex c) * 37 ^ length s + spelled s"
    using Cons [of "the (charsetIndex c)"] by (simp add: spelled_def)
  then show ?case
    using Cons [of "n * 37 + the (charsetIndex c)"] by (simp add: algebra_simps)
qed (simp add: spelled_def)

lemma spelled_bounds: "inCharset s \<Longrightarrow> 0 \<le> spelled s \<and> spelled s < 37 ^ length s"
proof (induction s rule: rev_induct)
  case (snoc c s)
  then obtain i where i: "charsetIndex c = Some i" by auto
  have "spelled (s @ [c]) = spelled s * 37 + i"
    by (simp add: spelled_def i)
  then show ?case
    using snoc charsetIndex_bounds [OF i] by simp
qed (simp add: spelled_def)

lemma encode_fold:
  assumes "i + length cs = n"
  shows "foldResI i (\<lambda>i char output. case charsetIndex char of
      None \<Rightarrow> Inl (Errorf ''Invalid character for wallet source: %c'' [AStr [char]])
    | Some index \<Rightarrow> Inr (output + index * 37 ^ (n - i - 1))) cs acc = Inr v \<longleftrightarrow>
    inCharset cs \<and> v = acc + spelled cs"
  using assms
proof (induction cs arbitrary: i acc)
  case (Cons c cs)
  have "spelled (c # cs) = the (charsetIndex c) * 37 ^ length cs + spelled cs"
    using spelled_shift [of "the (charsetIndex c)" cs] by (simp add: spelled_def)
  then show ?case
    using Cons by (cases "charsetIndex c") (auto simp: Cons.IH)
qed (auto simp: spelled_def)

lemma EncodeWalletSource_Inr:
  assumes "walletSource \<noteq> []"
  shows "EncodeWalletSource walletSource = Inr h \<longleftrightarrow> inCharset (ToLower walletSource) \<and>
    h = (if length (intText 16 (spelled (ToLower walletSource))) mod 2 = 1 then [] else ''0'') @ intText 16 (spelled (ToLower walletSource))"
  using assms encode_fold [of 0 "ToLower walletSource" "length (ToLower walletSource)" 0]
  by (auto simp: EncodeWalletSource_def Let_def res_elims)

lemma decodeDigits_spelled: "inCharset s \<Longrightarrow> decodeDigits (spelled s) out = dropWhile (\<lambda>c. c = CHR '' '') s @ out"
proof (induction s arbitrary: out rule: rev_induct)
  case Nil
  then show ?case by (simp add: spelled_def decodeDigits.simps)
next
  case (snoc c s)
  then obtain i where i: "charsetIndex c = Some i" by auto
  note b = charsetIndex_bounds [OF i]
  have s: "inCharset s" using snoc.prems by simp
  have v: "spelled (s @ [c]) = spelled s * 37 + i"
    by (simp add: spelled_def i)
  have v0: "0 \<le> spelled s" using spelled_bounds [OF s] by blast
  show ?case
  proof (cases "spelled (s @ [c]) > 0")
    case True
    have "(spelled s * 37 + i) mod 37 = i" using b by simp
    then have "decodeDigits (spelled (s @ [c])) out = decodeDigits (spelled s) (c # out)"
      using True b by (subst decodeDigits.simps) (simp add: v)
    moreover have "dropWhile (\<lambda>c. c = CHR '' '') (s @ [c]) = dropWhile (\<lambda>c. c = CHR '' '') s @ [c]"
    proof (cases "\<forall>c \<in> set s. c = CHR '' ''")
      case True
      then have "spelled s = 0"
        using charsetIndex_space [of "CHR '' ''"] by (induction s rule: rev_induct) (simp_all add: spelled_def)
      with \<open>spelled (s @ [c]) > 0\<close> v have "c \<noteq> CHR '' ''"
        using i charsetIndex_space [of c] by auto
      then show ?thesis using True by (simp add: dropWhile_append)
    qed (auto simp: dropWhile_append)
    ultimately show ?thesis using snoc.IH [OF s] by simp
  next
    case False
    then have "spelled s = 0" "i = 0" using v v0 b by simp_all
    then have "c = CHR '' ''" "dropWhile (\<lambda>c. c = CHR '' '') s @ [] = []"
      using i charsetIndex_space snoc.IH [OF s, of "[]"] by (simp_all add: decodeDigits.simps)
    then show ?thesis using False by (simp add: decodeDigits.simps dropWhile_append3)
  qed
qed

text \<open>C38: a wallet source that the validation accepts is read back from its number in base
  37 without its leading spaces, which are the zeros of that base.\<close>

theorem wallet_source_roundtrip:
  assumes "NormalizeWalletSource walletSource = Inr normalized"
  shows "\<exists>h. EncodeWalletSource normalized = Inr h \<and> DecodeWalletSource h = Inr (dropWhile (\<lambda>c. c = CHR '' '') normalized)"
proof -
  have n: "normalized = ToLower walletSource" "normalized \<noteq> []" "ToLower normalized = normalized"
    using assms by (auto simp: NormalizeWalletSource_def ValidateWalletSource_def Let_def res_elims split: if_splits)
  obtain h where h: "EncodeWalletSource normalized = Inr h"
    using assms by (auto simp: NormalizeWalletSource_def ValidateWalletSource_def Let_def res_elims split: if_splits)
  define v where "v = spelled normalized"
  have chars: "inCharset normalized" and spell: "h = (if length (intText 16 v) mod 2 = 1 then [] else ''0'') @ intText 16 v"
    using h n(3) unfolding EncodeWalletSource_Inr [OF n(2)] v_def by simp_all
  have v: "0 \<le> v"
    using spelled_bounds [OF chars] by (simp add: v_def)
  have "digitsVal 16 0 (Repeat0 1 @ intText 16 v) = Some v" "digitsVal 16 0 (intText 16 v) = Some v"
    unfolding digitsVal_Repeat0 using v by (simp_all add: digitsVal_intText)
  then have "digitsVal 16 0 h = Some v" "h \<noteq> []"
    by (simp_all add: spell Repeat0_def)
  moreover have "hexString h"
  proof -
    have "hexVal (CHR ''0'') \<noteq> None" by code_simp
    then show ?thesis using hexString_intText [OF v] by (auto simp: spell)
  qed
  ultimately have "HexToBigInt h = Inr v"
    using HexToBigInt_hex by simp
  then show ?thesis
    using h decodeDigits_spelled [OF chars, of "[]"] by (simp add: DecodeWalletSource_def v_def)
qed

theorem wallet_source_roundtrip_witness:
  "\<exists>h. EncodeWalletSource ''  go 1'' = Inr h \<and> DecodeWalletSource h = Inr ''go 1''"
proof -
  have "NormalizeWalletSource ''  Go 1'' = Inr ''  go 1''" by code_simp
  from wallet_source_roundtrip [OF this] show ?thesis by simp
qed

section \<open>Annotations are read back\<close>

definition sourceText :: "string \<Rightarrow> string" where
  "sourceText walletSource = dropWhile (\<lambda>c. c = CHR '' '') (ToLower walletSource)"

text \<open>Text that is already in the form the formatters give: \<open>n\<close> bytes in lower-case digits.\<close>

definition canonical :: "nat \<Rightarrow> string \<Rightarrow> bool" where
  "canonical n s \<longleftrightarrow> lowerHex s \<and> length s = 2 * n"

lemma canonical_bytes:
  assumes "canonical n s"
  obtains bs where "HexToBytes s = Inr bs" "hexEncode bs = s" "length bs = n"
proof -
  obtain bs where bs: "HexToBytes s = Inr bs" "hexEncode bs = s"
    using assms HexToBytes_lowerHex [of s] by (auto simp: canonical_def)
  moreover have "2 * length bs = 2 * n"
    using assms bs(2) length_hexEncode [of bs] by (simp add: canonical_def del: length_hexEncode)
  ultimately show ?thesis using that by simp
qed

lemma canonical_hexEncode [simp]: "canonical n (hexEncode bs) \<longleftrightarrow> length bs = n"
  using lowerHex_hexEncode [of bs] by (simp add: canonical_def)

lemma lowerHex_hexWidth: "0 \<le> v \<Longrightarrow> lowerHex (hexWidth n v)"
  unfolding lowerHex_ToLower by (simp add: hexString_hexWidth) (simp add: hexWidth_def ToLower_fitDigits ToLower_intText)

lemma canonical_hexWidth: "0 \<le> v \<Longrightarrow> canonical n (hexWidth n v)"
  using lowerHex_hexWidth [of v n] by (simp add: canonical_def)

lemma canonical_append: "canonical n s \<Longrightarrow> canonical m t \<Longrightarrow> canonical (n + m) (s @ t)"
  by (auto simp: canonical_def)

lemma lowerHex_zero: "hexVal (CHR ''0'') \<noteq> None \<and> lowerChar (CHR ''0'') = CHR ''0''"
  by code_simp

lemma canonical_Repeat0: "canonical n (Repeat0 (2 * n))"
  using lowerHex_zero by (auto simp: canonical_def Repeat0_def)

lemma FormatHex_canonical:
  assumes "canonical n s" and "0 < n"
  shows "FormatHexToByteLength s (int n) False = Inr s"
proof -
  have s: "hexString s" "ToLower s = s" "s \<noteq> []" "length s = n * 2"
    using assms unfolding canonical_def lowerHex_ToLower by auto
  obtain v where "SetString s 16 = Some v"
    using SetString_hex [OF s(1,3)] hexString_digitsVal [OF s(1)] by auto
  then show ?thesis
    using assms(2) s by (simp add: FormatHexToByteLength_def Strip0x_hex Let_def fitDigits_def)
qed

lemma encoded_source:
  assumes "EncodeWalletSource walletSource = Inr h" and "length walletSource \<le> 16" and "22 \<le> n" and "even n"
  shows "canonical (n div 2) (padTo n h)" and "inCharset (ToLower walletSource)"
    and "digitsVal 16 0 (padTo n h) = Some (spelled (ToLower walletSource))"
    and "0 \<le> spelled (ToLower walletSource)" and "spelled (ToLower walletSource) < 16 ^ 21"
proof -
  have enc: "inCharset (ToLower walletSource) \<and> length h \<le> 22 \<and> lowerHex h \<and> digitsVal 16 0 h = Some (spelled (ToLower walletSource))"
  proof (cases "walletSource = []")
    case True
    then show ?thesis
      using assms(1) by (auto simp: EncodeWalletSource_def spelled_def ToLower_def)
  next
    case False
    define v where "v = spelled (ToLower walletSource)"
    have e: "inCharset (ToLower walletSource)" "h = (if length (intText 16 v) mod 2 = 1 then [] else ''0'') @ intText 16 v"
      using assms(1) unfolding EncodeWalletSource_Inr [OF False] v_def by blast+
    have v: "0 \<le> v" "v < 37 ^ length walletSource"
      using spelled_bounds [OF e(1)] by (simp_all add: v_def ToLower_def)
    have "(37::int) ^ length walletSource \<le> 37 ^ 16"
      using assms(2) by (intro power_increasing) simp_all
    also have "\<dots> < 16 ^ Suc 20" by simp
    finally have "v < 16 ^ Suc 20" using v(2) by linarith
    from length_intText [OF v(1) this] have len: "length h \<le> 22" by (simp add: e(2))
    have low: "lowerHex (intText 16 v)"
      unfolding lowerHex_ToLower using hexString_intText [OF v(1)] ToLower_intText [OF v(1)] by blast
    have "digitsVal 16 0 (Repeat0 1 @ intText 16 v) = Some v"
      unfolding digitsVal_Repeat0 using v(1) by (simp add: digitsVal_intText)
    moreover have "digitsVal 16 0 (intText 16 v) = Some v"
      using v(1) by (simp add: digitsVal_intText)
    ultimately have "digitsVal 16 0 h = Some v"
      by (simp add: e(2) Repeat0_def)
    then show ?thesis
      using e(1) len low lowerHex_zero by (auto simp: v_def [symmetric] e(2))
  qed
  then have len: "length (padTo n h) = n"
    using assms(3) by (simp add: padTo_def Repeat0_def)
  show "canonical (n div 2) (padTo n h)"
    using enc assms(4) len lowerHex_zero unfolding canonical_def
    by (auto simp: padTo_def Repeat0_def)
  show "inCharset (ToLower walletSource)" using enc by blast
  show "digitsVal 16 0 (padTo n h) = Some (spelled (ToLower walletSource))"
    using enc by (simp add: padTo_def digitsVal_Repeat0)
  have b: "0 \<le> spelled (ToLower walletSource) \<and> spelled (ToLower walletSource) < 37 ^ length walletSource"
    using spelled_bounds [of "ToLower walletSource"] enc unfolding ToLower_def length_map by blast
  moreover have "(37::int) ^ length walletSource \<le> 37 ^ 16"
    using assms(2) by (intro power_increasing) simp_all
  moreover have "(37::int) ^ 16 < 16 ^ 21" by simp
  ultimately show "0 \<le> spelled (ToLower walletSource)" "spelled (ToLower walletSource) < 16 ^ 21"
    by linarith+
qed

lemma decode_source:
  assumes "EncodeWalletSource walletSource = Inr h" and "length walletSource \<le> 16" and "22 \<le> n" and "even n" and "m + 21 \<le> n"
  shows "DecodeWalletSource (drop m (padTo n h)) = Inr (sourceText walletSource)"
proof -
  note e = encoded_source [OF assms(1-4)]
  define t where "t = drop m (padTo n h)"
  have len: "length (padTo n h) = n" and hex: "hexString t"
    using e(1) assms(4) in_set_dropD unfolding canonical_def t_def by fastforce+
  have "digitsVal 16 0 (take m (padTo n h) @ t) = Some (spelled (ToLower walletSource))"
    using e(3) by (simp add: t_def)
  then have "digitsVal 16 0 t = Some (spelled (ToLower walletSource) mod 16 ^ length t)"
    by (rule digitsVal_suffix) simp
  moreover have lt: "length t = n - m" "t \<noteq> []"
    using assms(3,5) len by (auto simp: t_def)
  moreover have "(16::int) ^ 21 \<le> 16 ^ (n - m)"
    using assms(5) by (intro power_increasing) simp_all
  ultimately have "digitsVal 16 0 t = Some (spelled (ToLower walletSource))"
    using e(4,5) by simp
  then have "HexToBigInt t = Inr (spelled (ToLower walletSource))"
    using HexToBigInt_hex [OF hex lt(2)] by simp
  then show ?thesis
    using decodeDigits_spelled [OF e(2), of "[]"] by (simp add: DecodeWalletSource_def sourceText_def t_def)
qed

lemma Strip0x_hexEncode [simp]: "Strip0x (hexEncode bs) = hexEncode bs"
  using lowerHex_hexEncode [of bs] by (intro Strip0x_hex) blast

lemma slice_append_left: "length xs = a \<Longrightarrow> b \<le> length ys \<Longrightarrow> slice a (a + b) (xs @ ys) = take b ys"
  by (simp add: slice_def)

lemma hexEncode_take: "take (2 * n) (hexEncode bs) = hexEncode (take n bs)"
  by (induction bs arbitrary: n) (auto simp: take_Cons split: nat.split)

lemma hexEncode_drop: "drop (2 * n) (hexEncode bs) = hexEncode (drop n bs)"
  by (induction bs arbitrary: n) (auto simp: drop_Cons split: nat.split)

lemma slice_hexEncode: "slice (2 * a) (2 * b) (hexEncode bs) = hexEncode (take (b - a) (drop a bs))"
  unfolding slice_def hexEncode_drop using hexEncode_take [of "b - a"] by (simp add: diff_mult_distrib2)

lemma HexToBigInt_byte: "0 \<le> v \<Longrightarrow> v < 256 \<Longrightarrow> HexToBigInt (hexWidth 1 v) = Inr v"
  using hexWidth_roundtrip [of v 1] by simp

lemma annotation_v2_roundtrip:
  assumes laws: "cipherLaws c" and outputType: "0 \<le> outputType" "outputType < 256"
    and random: "canonical 15 senderRandom" and ws: "length walletSource \<le> 16"
    and enc: "CreateEncryptedNoteAnnotationDataV2 c outputType senderRandom walletSource key iv = Inr ann"
  shows "DecryptNoteAnnotationDataV2 c ann key =
    Inr \<lparr>naOutputType = outputType, naSenderRandom = senderRandom, naWalletSource = sourceText walletSource\<rparr>"
proof -
  define m0 where "m0 = hexWidth 1 outputType @ senderRandom"
  have f: "BigIntToHex (Some outputType) 1 False = Inr (hexWidth 1 outputType)"
      "FormatHexToByteLength senderRandom 15 False = Inr senderRandom"
    using BigIntToHex_Some [OF outputType(1), of 1 False] FormatHex_canonical [OF random] by simp_all
  have "canonical 16 m0"
    using canonical_append [OF canonical_hexWidth [OF outputType(1), of 1] random] by (simp add: m0_def)
  then obtain b0 where b0: "HexToBytes m0 = Inr b0" "hexEncode b0 = m0" "length b0 = 16" by (rule canonical_bytes)
  obtain b1 where b1: "HexToBytes (Repeat0 30) = Inr b1" "hexEncode b1 = Repeat0 30" "length b1 = 15"
    using canonical_Repeat0 [of 15] canonical_bytes by auto
  have m0_len: "length m0 = 32"
    using b0(2,3) by (metis length_hexEncode mult_2 numeral_Bit0)
  obtain h ct where h: "EncodeWalletSource walletSource = Inr h"
      and ct: "AESCTREncryptHex c [m0, Repeat0 30, padTo 30 h] (hexEncode key) iv = Inr ct"
      and ann: "ann = ctrIV ct @ (ctrData ct ! 0) @ (ctrData ct ! 1) @ (ctrData ct ! 2)"
    using enc m0_len unfolding CreateEncryptedNoteAnnotationDataV2_def f andThen_simps wrapErr_simps Let_def m0_def [symmetric]
    by (auto simp: res_elims split: if_splits)
  obtain b2 where b2: "HexToBytes (padTo 30 h) = Inr b2" "hexEncode b2 = padTo 30 h" "length b2 = 15"
    using encoded_source(1) [OF h ws, of 30] canonical_bytes by auto
  have "list_all2 (\<lambda>v bs. HexToBytes v = Inr bs) [m0, Repeat0 30, padTo 30 h] [b0, b1, b2]"
    using b0 b1 b2 by simp
  from ctr_roundtrip [OF laws this ct]
  obtain v cs where v: "ctrIV ct = hexEncode v" "length v = 16" "ctrData ct = map hexEncode cs" "map length cs = map length [b0, b1, b2]"
      and dec: "\<And>ds. concat ds = concat cs \<Longrightarrow> AESCTRDecryptHex c \<lparr>ctrIV = hexEncode v, ctrData = map hexEncode ds\<rparr> (hexEncode key) =
        Inr (splitHexBlocks (concat [b0, b1, b2]) (map length ds))" by metis
  obtain c0 c1 c2 where cs: "cs = [c0, c1, c2]" "length c0 = 16" "length c1 = 15" "length c2 = 15"
    using v(4) b0(3) b1(3) b2(3) by (auto simp: map_eq_Cons_conv)
  define all where "all = v @ c0 @ c1 @ c2"
  have text_all: "ann = hexEncode all" and len: "length all = 62"
    using v(2) by (simp_all add: ann v cs all_def)
  have parts: "take 32 ann = hexEncode v" "slice 32 64 ann = hexEncode c0"
      "slice 64 96 ann = hexEncode (c1 @ take 1 c2)" "slice 96 124 ann = hexEncode (drop 1 c2)"
    using slice_hexEncode [of 16 32 all] slice_hexEncode [of 32 48 all] slice_hexEncode [of 48 62 all] hexEncode_take [of 16 all]
    unfolding text_all by (simp_all add: all_def v(2) cs)
  have run: "AESCTRDecryptHex c \<lparr>ctrIV = hexEncode v, ctrData = map hexEncode [c0, c1 @ take 1 c2, drop 1 c2]\<rparr> (hexEncode key) =
      Inr [m0, hexEncode (b1 @ take 1 b2), drop 2 (padTo 30 h)]"
    using dec [of "[c0, c1 @ take 1 c2, drop 1 c2]"] b0(2,3) b1(3) b2(3) hexEncode_drop [of 1 b2] b2(2)
    by (simp add: cs)
  have m0: "take 2 m0 = hexWidth 1 outputType" "slice 2 32 m0 = senderRandom"
    using random by (simp_all add: m0_def slice_def canonical_def)
  have "DecodeWalletSource (drop 2 (padTo 30 h)) = Inr (sourceText walletSource)"
    by (rule decode_source [OF h ws]) simp_all
  moreover have "Int64 outputType = outputType"
    using outputType by (simp add: Int64_def goInt_def)
  moreover have "length ann = 124" "Strip0x ann = ann"
    using len by (simp_all add: text_all)
  moreover from this(1) have "ann \<noteq> []"
    by auto
  ultimately show ?thesis
    using parts run m0 m0_len HexToBigInt_byte [OF outputType]
    by (simp add: DecryptNoteAnnotationDataV2_def Let_def)
qed

lemma canonical_outputs:
  "\<forall>w \<in> set ws. 0 \<le> w \<and> w < 256 \<Longrightarrow> canonical (length ws) (concat (map (hexWidth 1) ws))"
proof (induction ws)
  case (Cons w ws)
  then show ?case
    using canonical_append [OF canonical_hexWidth [of w 1] Cons.IH] by simp
qed (simp add: canonical_def)

lemma annotation_v3_roundtrip:
  assumes laws: "cipherLaws c" and nonce: "canonical 16 nonce" and src: "length walletSource \<le> 16"
    and outputs: "\<forall>w \<in> set outputTypes. 0 \<le> w \<and> w < 256" and i: "i < length outputTypes" "length outputTypes < 2 ^ 32"
    and enc: "CreateSenderAnnotationEncryptedV3 c walletSource outputTypes key nonce = Inr ann"
  shows "DecryptSenderAnnotationV3 c ann key (int i) = Inr \<lparr>saOutputType = outputTypes ! i, saWalletSource = sourceText walletSource\<rparr>"
proof -
  define body where "body = concat (map (hexWidth 1) outputTypes)"
  have bodies: "mapRes (\<lambda>outputType. BigIntToHex (Some outputType) 1 False) outputTypes = Inr (map (hexWidth 1) outputTypes)"
    using outputs BigIntToHex_Some [of _ 1 False] by (intro mapRes_Inr_map) simp
  obtain h ct where h: "EncodeWalletSource walletSource = Inr h" and ct: "XChaCha20EncryptHex c (padTo 32 h @ body) key nonce = Inr ct"
      and ann: "ann = Prefix0x (xccNonce ct @ xccBundle ct)"
    using enc unfolding CreateSenderAnnotationEncryptedV3_def bodies andThen_simps Let_def body_def [symmetric]
    by (auto simp: res_elims)
  have can0: "canonical 16 (padTo 32 h)"
    using encoded_source(1) [OF h src, of 32] by simp
  have can1: "canonical (length outputTypes) body"
    using canonical_outputs [OF outputs] by (simp add: body_def)
  obtain bs where bs: "HexToBytes (padTo 32 h @ body) = Inr bs" "hexEncode bs = padTo 32 h @ body"
    using canonical_append [OF can0 can1] by (rule canonical_bytes)
  note rt = xchacha_roundtrip [OF laws bs(1) ct]
  obtain cs where cs: "xccBundle ct = hexEncode cs" using rt(4) by blast
  obtain ns where ns: "hexEncode ns = nonce" "length ns = 16"
    using nonce by (rule canonical_bytes)
  have all: "ann = ''0x'' @ hexEncode (ns @ cs)"
  proof -
    have low: "ToLower (hexEncode (ns @ cs)) = hexEncode (ns @ cs)" and hex: "hexString (hexEncode (ns @ cs))"
      using lowerHex_hexEncode [of "ns @ cs"] unfolding lowerHex_ToLower by blast+
    have "ann = Prefix0x (hexEncode (ns @ cs))"
      by (simp add: ann rt(1) cs flip: ns(1))
    also have "\<dots> = ''0x'' @ hexEncode (ns @ cs)"
      unfolding Prefix0x_def using HasPrefix_0x_hex [OF hex] low by simp
    finally show ?thesis .
  qed
  have strip: "Strip0x ann = hexEncode (ns @ cs)"
    unfolding all using lowerHex_hexEncode [of "ns @ cs"] by (intro Strip0x_0x) blast
  have parts: "take 32 (hexEncode (ns @ cs)) = nonce" "drop 32 (hexEncode (ns @ cs)) = xccBundle ct"
    using ns(2) by (simp_all add: cs flip: ns(1))
  have "XChaCha20DecryptHex c \<lparr>xccAlgorithm = XChaChaEncryptionAlgorithm, xccNonce = nonce, xccBundle = xccBundle ct\<rparr> key =
      Inr (padTo 32 h @ body)"
    using rt(2) rt(1,3) bs(2) by (cases ct) simp
  moreover have len0: "length (padTo 32 h) = 32"
    using can0 by (simp add: canonical_def)
  moreover have source: "DecodeWalletSource (padTo 32 h) = Inr (sourceText walletSource)"
    using decode_source [OF h src, of 32 0] by simp
  moreover have len1: "length body = 2 * length outputTypes"
    using can1 by (simp add: canonical_def)
  moreover have entry: "slice (32 + i * 2) (34 + i * 2) (padTo 32 h @ body) = hexWidth 1 (outputTypes ! i)"
  proof -
    have "take 2 (drop (i * 2) (concat (map (hexWidth 1) ws))) = hexWidth 1 (ws ! i)" if "i < length ws" for ws i
      using that by (induction ws arbitrary: i) (auto simp: nth_Cons split: nat.split)
    then show ?thesis
      using i(1) len0 by (simp add: slice_def body_def)
  qed
  moreover have "goInt (32 + int i * 2) = 32 + int i * 2" "goInt (32 + int i * 2 + 2) = 34 + int i * 2"
    using i by (simp_all add: goInt_def)
  moreover have w: "0 \<le> outputTypes ! i" "outputTypes ! i < 256"
    using outputs i(1) by auto
  moreover have "Int64 (outputTypes ! i) = outputTypes ! i"
    using w by (simp add: Int64_def goInt_def)
  moreover have "nat (32 + int i * 2) = 32 + i * 2" "nat (34 + int i * 2) = 34 + i * 2" "nat (32 + int i * 2 + 2) = 34 + i * 2"
    by linarith+
  moreover have "ann \<noteq> []" by (simp add: all)
  ultimately show ?thesis
    unfolding DecryptSenderAnnotationV3_def strip Let_def parts
    using HexToBigInt_byte [OF w] i(1) ns(2) by simp
qed

section \<open>Annotations are made\<close>

lemma encode_total: "inCharset (ToLower walletSource) \<Longrightarrow> \<exists>h. EncodeWalletSource walletSource = Inr h"
  by (cases "walletSource = []") (simp_all add: EncodeWalletSource_def [of "[]"] EncodeWalletSource_Inr)

lemma annotation_v2_total:
  assumes "0 \<le> outputType" "outputType < 256" "canonical 15 senderRandom" "length walletSource \<le> 16" "inCharset (ToLower walletSource)"
    and "length key = 32" "canonical 16 iv"
  shows "\<exists>ann. CreateEncryptedNoteAnnotationDataV2 c outputType senderRandom walletSource key iv = Inr ann"
proof -
  define m0 where "m0 = hexWidth 1 outputType @ senderRandom"
  have m0: "canonical 16 m0"
    using canonical_append [OF canonical_hexWidth [OF assms(1), of 1] assms(3)] by (simp add: m0_def)
  obtain h where h: "EncodeWalletSource walletSource = Inr h"
    using encode_total [OF assms(5)] by blast
  obtain b0 where b0: "HexToBytes m0 = Inr b0"
    using m0 by (rule canonical_bytes)
  have "canonical 15 (Repeat0 30)"
    using canonical_Repeat0 [of 15] by simp
  then obtain b1 where b1: "HexToBytes (Repeat0 30) = Inr b1"
    by (rule canonical_bytes)
  have "canonical 15 (padTo 30 h)"
    using encoded_source(1) [OF h assms(4), of 30] by simp
  then obtain b2 where "HexToBytes (padTo 30 h) = Inr b2"
    by (rule canonical_bytes)
  then have "list_all2 (\<lambda>v bs. HexToBytes v = Inr bs) [m0, Repeat0 30, padTo 30 h] [b0, b1, b2]"
    using b0 b1 by simp
  moreover obtain v where "hexEncode v = iv" "length v = 16"
    using assms(7) by (rule canonical_bytes)
  ultimately obtain ct where "AESCTREncryptHex c [m0, Repeat0 30, padTo 30 h] (hexEncode key) iv = Inr ct"
    using ctr_total assms(6) by blast
  moreover have "length m0 = 32" using m0 by (simp add: canonical_def)
  moreover have "BigIntToHex (Some outputType) 1 False = Inr (hexWidth 1 outputType)"
    "FormatHexToByteLength senderRandom 15 False = Inr senderRandom"
    using BigIntToHex_Some [OF assms(1), of 1 False] FormatHex_canonical [OF assms(3)] by simp_all
  ultimately show ?thesis
    using h by (simp add: CreateEncryptedNoteAnnotationDataV2_def m0_def)
qed

lemma annotation_v3_total:
  assumes "\<forall>w \<in> set outputTypes. 0 \<le> w \<and> w < 256" "length walletSource \<le> 16" "inCharset (ToLower walletSource)" and "length key = 32"
  shows "\<exists>ann. CreateSenderAnnotationEncryptedV3 c walletSource outputTypes key nonce = Inr ann"
proof -
  obtain h where h: "EncodeWalletSource walletSource = Inr h"
    using encode_total [OF assms(3)] by blast
  have bodies: "mapRes (\<lambda>outputType. BigIntToHex (Some outputType) 1 False) outputTypes = Inr (map (hexWidth 1) outputTypes)"
    using assms(1) BigIntToHex_Some [of _ 1 False] by (intro mapRes_Inr_map) simp
  have "canonical 16 (padTo 32 h)"
    using encoded_source(1) [OF h assms(2), of 32] by simp
  from canonical_append [OF this canonical_outputs [OF assms(1)]]
  obtain bs where "HexToBytes (padTo 32 h @ concat (map (hexWidth 1) outputTypes)) = Inr bs"
    by (rule canonical_bytes)
  then obtain ct where "XChaCha20EncryptHex c (padTo 32 h @ concat (map (hexWidth 1) outputTypes)) key nonce = Inr ct"
    using xchacha_total(1) assms(4) by blast
  then show ?thesis
    unfolding CreateSenderAnnotationEncryptedV3_def h bodies andThen_simps Let_def by simp
qed

end
