(* ===== verification/Keys.thy ===== *)
theory Keys
  imports Hex Wtns
begin

text \<open>
  Models the part of \<^verbatim>\<open>pkg/crypto/keys.go\<close> that the program computes itself: the scalars of
  viewing keys and of the blinding of notes, shared keys, and the blinding of viewing keys. The
  curve library (\<^verbatim>\<open>filippo.io/edwards25519\<close>) and the hashes of the standard library are the
  fields of \<open>curve\<close>; a scalar is its value. Signatures, which only call libraries, are left out.
\<close>

record curve =
  sha512 :: "byte list \<Rightarrow> byte list"
  curveSha256 :: "byte list \<Rightarrow> byte list"
  setCanonicalBytes :: "byte list \<Rightarrow> int res"
  scalarInvert :: "int \<Rightarrow> int"
  pointSetBytes :: "byte list \<Rightarrow> unit res"
  pointMult :: "int \<Rightarrow> byte list \<Rightarrow> byte list"

definition ed25519SubgroupOrder :: int where
  "ed25519SubgroupOrder = 7237005577332262213973186563042994240857116359379907606001950938285454250989"

definition adjustBytes25519 :: "byte list \<Rightarrow> string \<Rightarrow> byte list" where
  "adjustBytes25519 v endian =
     (if endian = ''be'' then v[31 := v ! 31 AND 0b11111000, 0 := (v ! 0 AND 0b01111111) OR 0b01000000]
      else if endian = ''le'' then v[0 := v ! 0 AND 0b11111000, 31 := (v ! 31 AND 0b01111111) OR 0b01000000]
      else v)"

definition littleEndianBytesToBigInt :: "byte list \<Rightarrow> int" where
  "littleEndianBytesToBigInt v = SetBytes (rev v)"

definition bigIntToLittleEndian32 :: "int \<Rightarrow> byte list res" where
  "bigIntToLittleEndian32 v =
     (if v < 0 then Err ''scalar must be positive''
      else if v \<ge> 256 ^ 32 then Err ''scalar exceeds 32 bytes''
      else Inr (map (\<lambda>i. word_of_int (v div 256 ^ i)) [0..<32]))"

definition PrivateScalarFromPrivateKey :: "curve \<Rightarrow> byte list \<Rightarrow> int res" where
  "PrivateScalarFromPrivateKey cv privateKey =
     (if length privateKey \<noteq> 32 then Err ''ed25519 private key must be 32 bytes''
      else let head = adjustBytes25519 (take 32 (sha512 cv privateKey)) ''le'';
               scalar = littleEndianBytesToBigInt head mod ed25519SubgroupOrder
           in if scalar = 0 then Inr ed25519SubgroupOrder else Inr scalar)"

definition canonicalScalar :: "curve \<Rightarrow> string \<Rightarrow> int \<Rightarrow> int res" where
  "canonicalScalar cv message scalarBig =
     andThen (bigIntToLittleEndian32 scalarBig) (\<lambda>scalarBytes. wrapErr message [] (setCanonicalBytes cv scalarBytes))"

definition scalarMultEd25519 :: "curve \<Rightarrow> byte list \<Rightarrow> int \<Rightarrow> byte list res" where
  "scalarMultEd25519 cv publicKey scalar =
     andThen (wrapErr ''public key point: %w'' [] (pointSetBytes cv publicKey)) (\<lambda>_. Inr (pointMult cv scalar publicKey))"

definition SharedSymmetricKeyLegacy :: "curve \<Rightarrow> byte list \<Rightarrow> byte list \<Rightarrow> byte list res" where
  "SharedSymmetricKeyLegacy cv privateKey publicKey =
     andThen (PrivateScalarFromPrivateKey cv privateKey) (\<lambda>scalarBig.
     andThen (canonicalScalar cv ''private scalar: %w'' scalarBig) (\<lambda>scalar.
     scalarMultEd25519 cv publicKey scalar))"

definition SharedSymmetricKey :: "curve \<Rightarrow> byte list \<Rightarrow> byte list \<Rightarrow> byte list res" where
  "SharedSymmetricKey cv privateKey publicKey =
     andThen (PrivateScalarFromPrivateKey cv privateKey) (\<lambda>scalarBig.
     andThen (canonicalScalar cv ''private scalar: %w'' scalarBig) (\<lambda>scalar.
     andThen (scalarMultEd25519 cv publicKey scalar) (\<lambda>point. Inr (curveSha256 cv point))))"

definition finalRandomBytes :: "string \<Rightarrow> string \<Rightarrow> byte list res" where
  "finalRandomBytes sharedRandom senderRandom =
     andThen (wrapErr ''shared random: %w'' [] (HexToBigInt sharedRandom)) (\<lambda>shared.
     andThen (wrapErr ''sender random: %w'' [] (HexToBigInt senderRandom)) (\<lambda>sender.
     andThen (BigIntToHex (Some (shared XOR sender)) 32 False) (\<lambda>finalRandomHex.
     HexToBytes finalRandomHex)))"

definition blindingScalar :: "curve \<Rightarrow> string \<Rightarrow> string \<Rightarrow> int res" where
  "blindingScalar cv sharedRandom senderRandom =
     andThen (finalRandomBytes sharedRandom senderRandom) (\<lambda>bytes.
     canonicalScalar cv ''blinding scalar: %w'' (SetBytes (sha512 cv bytes) mod ed25519SubgroupOrder))"

definition blindingScalarLegacy :: "curve \<Rightarrow> string \<Rightarrow> string \<Rightarrow> int res" where
  "blindingScalarLegacy cv sharedRandom senderRandom =
     andThen (finalRandomBytes sharedRandom senderRandom) (\<lambda>bytes.
     canonicalScalar cv ''legacy blinding scalar: %w''
       (SetBytes (adjustBytes25519 (curveSha256 cv bytes) ''le'') mod ed25519SubgroupOrder))"

text \<open>The parts that the two pairs of functions share, over the scalar.\<close>

definition blindKeys :: "curve \<Rightarrow> int res \<Rightarrow> byte list \<Rightarrow> byte list \<Rightarrow> (byte list \<times> byte list) res" where
  "blindKeys cv scalar senderViewingPublicKey receiverViewingPublicKey =
     andThen scalar (\<lambda>scalar.
     andThen (wrapErr ''sender viewing key: %w'' [] (scalarMultEd25519 cv senderViewingPublicKey scalar)) (\<lambda>blindedSender.
     andThen (wrapErr ''receiver viewing key: %w'' [] (scalarMultEd25519 cv receiverViewingPublicKey scalar)) (\<lambda>blindedReceiver.
     Inr (blindedSender, blindedReceiver))))"

definition unblindKey :: "curve \<Rightarrow> int res \<Rightarrow> byte list \<Rightarrow> byte list res" where
  "unblindKey cv scalar blindedNoteKey =
     andThen scalar (\<lambda>scalar.
     andThen (wrapErr ''blinded note key point: %w'' [] (pointSetBytes cv blindedNoteKey)) (\<lambda>_.
     Inr (pointMult cv (scalarInvert cv scalar) blindedNoteKey)))"

definition NoteBlindingKeys :: "curve \<Rightarrow> byte list \<Rightarrow> byte list \<Rightarrow> string \<Rightarrow> string \<Rightarrow> (byte list \<times> byte list) res" where
  "NoteBlindingKeys cv senderViewingPublicKey receiverViewingPublicKey sharedRandom senderRandom =
     blindKeys cv (blindingScalar cv sharedRandom senderRandom) senderViewingPublicKey receiverViewingPublicKey"

definition UnblindNoteKey :: "curve \<Rightarrow> byte list \<Rightarrow> string \<Rightarrow> string \<Rightarrow> byte list res" where
  "UnblindNoteKey cv blindedNoteKey sharedRandom senderRandom =
     unblindKey cv (blindingScalar cv sharedRandom senderRandom) blindedNoteKey"

definition NoteBlindingKeysLegacy :: "curve \<Rightarrow> byte list \<Rightarrow> byte list \<Rightarrow> string \<Rightarrow> string \<Rightarrow> (byte list \<times> byte list) res" where
  "NoteBlindingKeysLegacy cv senderViewingPublicKey receiverViewingPublicKey sharedRandom senderRandom =
     blindKeys cv (blindingScalarLegacy cv sharedRandom senderRandom) senderViewingPublicKey receiverViewingPublicKey"

definition UnblindNoteKeyLegacy :: "curve \<Rightarrow> byte list \<Rightarrow> string \<Rightarrow> string \<Rightarrow> byte list res" where
  "UnblindNoteKeyLegacy cv blindedNoteKey sharedRandom senderRandom =
     unblindKey cv (blindingScalarLegacy cv sharedRandom senderRandom) blindedNoteKey"

section \<open>Unblinding undoes blinding\<close>

text \<open>What the curve library promises of a viewing key: it is the encoding of a point of prime order,
  so a non-zero scalar times the point is again such a point, and the inverse scalar leads back.\<close>

definition primeOrderKey :: "curve \<Rightarrow> byte list \<Rightarrow> bool" where
  "primeOrderKey cv key \<longleftrightarrow> (\<forall>s. s mod ed25519SubgroupOrder \<noteq> 0 \<longrightarrow>
     pointSetBytes cv (pointMult cv s key) = Inr () \<and> pointMult cv (scalarInvert cv s) (pointMult cv s key) = key)"

lemma blinding_roundtrip:
  assumes "NoteBlindingKeys cv sender receiver random senderRandom = Inr (blindedSender, blindedReceiver)"
    and "blindingScalar cv random senderRandom = Inr s" and "s mod ed25519SubgroupOrder \<noteq> 0"
  shows "primeOrderKey cv sender \<Longrightarrow> UnblindNoteKey cv blindedSender random senderRandom = Inr sender"
    and "primeOrderKey cv receiver \<Longrightarrow> UnblindNoteKey cv blindedReceiver random senderRandom = Inr receiver"
  using assms
  by (auto simp: NoteBlindingKeys_def UnblindNoteKey_def blindKeys_def unblindKey_def scalarMultEd25519_def primeOrderKey_def res_elims)

end
