(* ===== verification/TransactNote.thy ===== *)
theory TransactNote
  imports Memo Keys
begin

text \<open>
  Models \<^verbatim>\<open>pkg/crypto/transact_note.go\<close>: the encryption of notes for their receivers, V2 and
  V3, and their decryption by receiver and sender. A master public key that the code checks for nil
  is an option; the keys of a wallet, which the wallet validates, are numbers.
\<close>

section \<open>Types\<close>

definition TXIDVersionV2PoseidonMerkle :: string where "TXIDVersionV2PoseidonMerkle = ''V2_PoseidonMerkle''"
definition TXIDVersionV3PoseidonMerkle :: string where "TXIDVersionV3PoseidonMerkle = ''V3_PoseidonMerkle''"
definition erc20TokenHashPrefix :: string where "erc20TokenHashPrefix = ''000000000000000000000000''"

record TransactNoteV2Encryption =
  e2NoteCiphertext :: CiphertextGCM
  e2NoteMemo :: string
  e2AnnotationData :: string

record TransactNoteV3Encryption =
  e3NoteCiphertext :: CiphertextXChaCha
  e3AnnotationData :: string

record TransactNoteEncryptionInputs =
  tiReceiverMasterPublicKey :: "int option"
  tiSenderMasterPublicKey :: "int option"
  tiRandom :: string
  tiValue :: "int option"
  tiTokenData :: TokenData
  tiSenderRandom :: string
  tiSharedKey :: "byte list"
  tiViewingPrivateKey :: "byte list"
  tiOutputType :: int
  tiWalletSource :: string
  tiMemoText :: string

record TransactNoteAddressData =
  taMasterPublicKey :: int
  taViewingPublicKey :: "byte list"

record DecryptedTransactNote =
  dnReceiverAddressData :: TransactNoteAddressData
  dnSenderAddressData :: "TransactNoteAddressData option"
  dnTokenHash :: string
  dnTokenData :: TokenData
  dnRandom :: string
  dnValue :: int
  dnNotePublicKey :: int
  dnHash :: int
  dnOutputType :: "int option"
  dnWalletSource :: string
  dnSenderRandom :: string
  dnMemoText :: string
  dnBlockNumber :: "uint64 option"

record transactNoteEncryptionFields =
  tfEncodedMasterPublicKey :: string
  tfTokenHash :: string
  tfValue :: string
  tfRandom :: string

record transactNoteDecryptedValues =
  tvRandom :: string
  tvValue :: int
  tvMemoText :: string
  tvTokenHash :: string
  tvTokenData :: TokenData
  tvEncodedMPK :: int
  tvSenderRandom :: string

text \<open>The third-party code a note passes through, with the Poseidon constants.\<close>

record noteEnv =
  neCiphers :: ciphers
  neCurve :: curve
  neKeccak :: "byte list \<Rightarrow> byte list"
  neConstants :: poseidonConstantsRaw

section \<open>Encryption\<close>

definition senderShown :: "string \<Rightarrow> bool" where
  "senderShown senderRandom \<longleftrightarrow> \<not> (senderRandom \<noteq> [] \<and> senderRandom \<noteq> MemoSenderRandomNull)"

definition encodedMasterPublicKey :: "string \<Rightarrow> int \<Rightarrow> int \<Rightarrow> int" where
  "encodedMasterPublicKey senderRandom receiverMasterPublicKey senderMasterPublicKey =
     (if senderRandom \<noteq> [] \<and> senderRandom \<noteq> MemoSenderRandomNull then receiverMasterPublicKey
      else receiverMasterPublicKey XOR senderMasterPublicKey)"

definition GetEncodedMasterPublicKey :: "string \<Rightarrow> int \<Rightarrow> int \<Rightarrow> int" where
  "GetEncodedMasterPublicKey = encodedMasterPublicKey"

definition GetDecodedMasterPublicKey :: "int \<Rightarrow> int \<Rightarrow> string \<Rightarrow> bool \<Rightarrow> int" where
  "GetDecodedMasterPublicKey currentWalletMasterPublicKey encoded senderRandom isLegacyDecryption =
     (if isLegacyDecryption \<or> (senderRandom \<noteq> [] \<and> senderRandom \<noteq> MemoSenderRandomNull) then encoded
      else currentWalletMasterPublicKey XOR encoded)"

definition formatTransactNoteEncryptionFields :: "noteEnv \<Rightarrow> TransactNoteEncryptionInputs \<Rightarrow> transactNoteEncryptionFields res" where
  "formatTransactNoteEncryptionFields env inputs =
     notNil ''receiver master public key is required'' (tiReceiverMasterPublicKey inputs) (\<lambda>receiver.
     notNil ''sender master public key is required'' (tiSenderMasterPublicKey inputs) (\<lambda>sender.
     notNil ''value is required'' (tiValue inputs) (\<lambda>v.
     andThen (TokenDataHash (neKeccak env) (tiTokenData inputs)) (\<lambda>tokenHash.
     andThen (wrapErr ''random: %w'' [] (FormatHexToByteLength (tiRandom inputs) 16 False)) (\<lambda>random.
     andThen (BigIntToHex (Some v) 16 False) (\<lambda>valueHex.
     andThen (BigIntToHex (Some (encodedMasterPublicKey (tiSenderRandom inputs) receiver sender)) 32 False) (\<lambda>encoded.
     Inr \<lparr>tfEncodedMasterPublicKey = encoded, tfTokenHash = tokenHash, tfValue = valueHex, tfRandom = random\<rparr>)))))))"

definition EncryptTransactNoteV2 :: "noteEnv \<Rightarrow> TransactNoteEncryptionInputs \<Rightarrow> string \<Rightarrow> string \<Rightarrow> TransactNoteV2Encryption res" where
  "EncryptTransactNoteV2 env inputs noteCiphertextIV annotationIV =
     andThen (formatTransactNoteEncryptionFields env inputs) (\<lambda>fields.
     let memoText = EncodeMemoText (tiMemoText inputs)
     in andThen (AESGCMEncryptHex (neCiphers env)
          [tfEncodedMasterPublicKey fields, tfTokenHash fields, tfRandom fields @ tfValue fields, memoText]
          (BytesToHex (tiSharedKey inputs) False) noteCiphertextIV) (\<lambda>ciphertext.
     if length (gcmData ciphertext) \<noteq> 4
     then Inl (Errorf ''expected 4 ciphertext data fields, got %d'' [ANat (length (gcmData ciphertext))])
     else let noteMemo = gcmData ciphertext ! 3;
              ciphertext = ciphertext\<lparr>gcmData := take 3 (gcmData ciphertext)\<rparr>
     in andThen (CreateEncryptedNoteAnnotationDataV2 (neCiphers env) (tiOutputType inputs) (tiSenderRandom inputs)
          (tiWalletSource inputs) (tiViewingPrivateKey inputs) annotationIV) (\<lambda>annotationData.
     Inr \<lparr>e2NoteCiphertext = ciphertext, e2NoteMemo = noteMemo, e2AnnotationData = annotationData\<rparr>)))"

definition EncryptTransactNoteV3Ciphertext :: "noteEnv \<Rightarrow> TransactNoteEncryptionInputs \<Rightarrow> string \<Rightarrow> CiphertextXChaCha res" where
  "EncryptTransactNoteV3Ciphertext env inputs noteCiphertextNonce =
     andThen (formatTransactNoteEncryptionFields env inputs) (\<lambda>fields.
     andThen (wrapErr ''sender random: %w'' [] (FormatHexToByteLength (tiSenderRandom inputs) 15 False)) (\<lambda>senderRandom.
     let memoText = EncodeMemoText (tiMemoText inputs)
     in XChaCha20Poly1305EncryptHex (neCiphers env)
          (tfEncodedMasterPublicKey fields @ tfRandom fields @ tfValue fields @ tfTokenHash fields @ senderRandom @ memoText)
          (tiSharedKey inputs) noteCiphertextNonce))"

definition EncryptTransactNoteV3 ::
  "noteEnv \<Rightarrow> TransactNoteEncryptionInputs \<Rightarrow> string \<Rightarrow> string \<Rightarrow> int list \<Rightarrow> TransactNoteV3Encryption res" where
  "EncryptTransactNoteV3 env inputs noteCiphertextNonce annotationNonce orderedOutputTypes =
     andThen (EncryptTransactNoteV3Ciphertext env inputs noteCiphertextNonce) (\<lambda>ciphertext.
     andThen (CreateSenderAnnotationEncryptedV3 (neCiphers env) (tiWalletSource inputs) orderedOutputTypes
       (tiViewingPrivateKey inputs) annotationNonce) (\<lambda>annotationData.
     Inr \<lparr>e3NoteCiphertext = ciphertext, e3AnnotationData = annotationData\<rparr>))"

section \<open>Decryption\<close>

definition TokenDataFromHash :: "string \<Rightarrow> (string, TokenData) gomap \<Rightarrow> TokenData res" where
  "TokenDataFromHash tokenHash tokenDataByHash =
     andThen (FormatHexToByteLength tokenHash 32 False) (\<lambda>formatted.
     if HasPrefix formatted erc20TokenHashPrefix then TokenDataERC20 formatted
     else case gget tokenDataByHash formatted of
       Some tokenData \<Rightarrow> Inr tokenData
     | None \<Rightarrow> (case gget tokenDataByHash (Prefix0x formatted) of
         Some tokenData \<Rightarrow> Inr tokenData
       | None \<Rightarrow> Inl (Errorf ''token data not found for hash %s'' [AStr formatted])))"

definition decryptedValuesNoteCiphertextV2 :: "string list \<Rightarrow> (string, TokenData) gomap \<Rightarrow> transactNoteDecryptedValues res" where
  "decryptedValuesNoteCiphertextV2 decryptedCiphertext tokenDataByHash =
     (if length decryptedCiphertext < 4
      then Inl (Errorf ''expected at least 4 decrypted ciphertext fields, got %d'' [ANat (length decryptedCiphertext)])
      else if length (decryptedCiphertext ! 2) < 64 then Err ''invalid random/value field length''
      else let random = take 32 (decryptedCiphertext ! 2)
      in andThen (HexToBigInt (slice 32 64 (decryptedCiphertext ! 2))) (\<lambda>v.
      andThen (FormatHexToByteLength (decryptedCiphertext ! 1) 32 False) (\<lambda>tokenHash.
      andThen (DecodeMemoText (concat (drop 3 decryptedCiphertext))) (\<lambda>memoText.
      andThen (TokenDataFromHash tokenHash tokenDataByHash) (\<lambda>tokenData.
      andThen (HexToBigInt (decryptedCiphertext ! 0)) (\<lambda>encodedMPK.
      Inr \<lparr>tvRandom = random, tvValue = v, tvMemoText = memoText, tvTokenHash = tokenHash, tvTokenData = tokenData,
        tvEncodedMPK = encodedMPK, tvSenderRandom = []\<rparr>))))))"

definition decryptedValuesNoteCiphertextV3 :: "string \<Rightarrow> (string, TokenData) gomap \<Rightarrow> transactNoteDecryptedValues res" where
  "decryptedValuesNoteCiphertextV3 decryptedCiphertext tokenDataByHash =
     (if length decryptedCiphertext < 222 then Err ''invalid V3 decrypted ciphertext length''
      else andThen (HexToBigInt (take 64 decryptedCiphertext)) (\<lambda>encodedMPK.
      let random = slice 64 96 decryptedCiphertext
      in andThen (HexToBigInt (slice 96 128 decryptedCiphertext)) (\<lambda>v.
      andThen (FormatHexToByteLength (slice 128 192 decryptedCiphertext) 32 False) (\<lambda>tokenHash.
      andThen (TokenDataFromHash tokenHash tokenDataByHash) (\<lambda>tokenData.
      let senderRandom = slice 192 222 decryptedCiphertext
      in andThen (if length decryptedCiphertext > 222 then DecodeMemoText (drop 222 decryptedCiphertext) else Inr []) (\<lambda>memoText.
      Inr \<lparr>tvRandom = random, tvValue = v, tvMemoText = memoText, tvTokenHash = tokenHash, tvTokenData = tokenData,
        tvEncodedMPK = encodedMPK, tvSenderRandom = senderRandom\<rparr>))))))"

definition unblindViewingPublicKey :: "curve \<Rightarrow> string \<Rightarrow> byte list \<Rightarrow> string \<Rightarrow> bool \<Rightarrow> byte list res" where
  "unblindViewingPublicKey cv random blindedViewingPublicKey senderRandom isLegacyDecryption =
     (if blindedViewingPublicKey = [] \<or> senderRandom = [] then Inr []
      else if isLegacyDecryption then UnblindNoteKeyLegacy cv blindedViewingPublicKey random senderRandom
      else UnblindNoteKey cv blindedViewingPublicKey random senderRandom)"

definition buildDecryptedTransactNote ::
  "noteEnv \<Rightarrow> TransactNoteAddressData \<Rightarrow> TransactNoteAddressData option \<Rightarrow> int option \<Rightarrow> string \<Rightarrow> string \<Rightarrow> uint64 option \<Rightarrow>
   transactNoteDecryptedValues \<Rightarrow> DecryptedTransactNote res" where
  "buildDecryptedTransactNote env receiverAddressData senderAddressData outputType walletSource senderRandom blockNumber vs =
     andThen (NotePublicKey (neConstants env) (taMasterPublicKey receiverAddressData) (tvRandom vs)) (\<lambda>notePublicKey.
     andThen (NoteHash (neConstants env) notePublicKey (tvTokenHash vs) (tvValue vs)) (\<lambda>hash.
     Inr \<lparr>dnReceiverAddressData = receiverAddressData, dnSenderAddressData = senderAddressData, dnTokenHash = tvTokenHash vs,
       dnTokenData = tvTokenData vs, dnRandom = tvRandom vs, dnValue = tvValue vs, dnNotePublicKey = notePublicKey, dnHash = hash,
       dnOutputType = outputType, dnWalletSource = walletSource, dnSenderRandom = senderRandom, dnMemoText = tvMemoText vs,
       dnBlockNumber = blockNumber\<rparr>))"

definition noteFromDecryptedValues ::
  "noteEnv \<Rightarrow> TransactNoteAddressData \<Rightarrow> int option \<Rightarrow> string \<Rightarrow> byte list \<Rightarrow> byte list \<Rightarrow> string \<Rightarrow> bool \<Rightarrow> bool \<Rightarrow> uint64 option \<Rightarrow>
   transactNoteDecryptedValues \<Rightarrow> DecryptedTransactNote res" where
  "noteFromDecryptedValues env currentWallet outputType walletSource blindedReceiverViewingKey blindedSenderViewingKey senderRandom
     isSentNote isLegacyDecryption blockNumber vs =
     (if isSentNote
      then andThen (unblindViewingPublicKey (neCurve env) (tvRandom vs) blindedReceiverViewingKey senderRandom isLegacyDecryption) (\<lambda>receiverKey.
        buildDecryptedTransactNote env
          \<lparr>taMasterPublicKey = GetDecodedMasterPublicKey (taMasterPublicKey currentWallet) (tvEncodedMPK vs) senderRandom isLegacyDecryption,
           taViewingPublicKey = receiverKey\<rparr> (Some currentWallet) outputType walletSource senderRandom blockNumber vs)
      else if tvEncodedMPK vs \<noteq> taMasterPublicKey currentWallet
      then andThen (unblindViewingPublicKey (neCurve env) (tvRandom vs) blindedSenderViewingKey MemoSenderRandomNull isLegacyDecryption) (\<lambda>senderKey.
        buildDecryptedTransactNote env currentWallet
          (Some \<lparr>taMasterPublicKey = GetDecodedMasterPublicKey (taMasterPublicKey currentWallet) (tvEncodedMPK vs) MemoSenderRandomNull isLegacyDecryption,
           taViewingPublicKey = senderKey\<rparr>) outputType walletSource senderRandom blockNumber vs)
      else buildDecryptedTransactNote env currentWallet None outputType walletSource senderRandom blockNumber vs)"

definition DecryptTransactNoteV2 ::
  "noteEnv \<Rightarrow> TransactNoteAddressData \<Rightarrow> CiphertextGCM \<Rightarrow> byte list \<Rightarrow> string \<Rightarrow> string \<Rightarrow> byte list \<Rightarrow> byte list \<Rightarrow> byte list \<Rightarrow> bool \<Rightarrow> bool \<Rightarrow>
   (string, TokenData) gomap \<Rightarrow> uint64 option \<Rightarrow> DecryptedTransactNote res" where
  "DecryptTransactNoteV2 env currentWallet noteCiphertext sharedKey memoV2 annotationData viewingPrivateKey
     blindedReceiverViewingKey blindedSenderViewingKey isSentNote isLegacyDecryption tokenDataByHash blockNumber =
     (let fullCiphertext = noteCiphertext\<lparr>gcmData := gcmData noteCiphertext @ [Strip0x memoV2]\<rparr>
      in andThen (AESGCMDecryptHex (neCiphers env) fullCiphertext (BytesToHex sharedKey False)) (\<lambda>decryptedCiphertext.
      andThen (decryptedValuesNoteCiphertextV2 decryptedCiphertext tokenDataByHash) (\<lambda>vs.
      andThen (if isSentNote
        then andThen (DecryptNoteAnnotationDataV2 (neCiphers env) annotationData viewingPrivateKey) (\<lambda>annotation.
          Inr (Some (naOutputType annotation), naWalletSource annotation, naSenderRandom annotation))
        else Inr (None, [], [])) (\<lambda>(outputType, walletSource, senderRandom).
      noteFromDecryptedValues env currentWallet outputType walletSource blindedReceiverViewingKey blindedSenderViewingKey senderRandom
        isSentNote isLegacyDecryption blockNumber vs))))"

definition DecryptTransactNoteV3 ::
  "noteEnv \<Rightarrow> TransactNoteAddressData \<Rightarrow> CiphertextXChaCha \<Rightarrow> byte list \<Rightarrow> string \<Rightarrow> byte list \<Rightarrow> byte list \<Rightarrow> byte list \<Rightarrow> bool \<Rightarrow> bool \<Rightarrow>
   (string, TokenData) gomap \<Rightarrow> uint64 option \<Rightarrow> int \<Rightarrow> DecryptedTransactNote res" where
  "DecryptTransactNoteV3 env currentWallet noteCiphertext sharedKey annotationData viewingPrivateKey
     blindedReceiverViewingKey blindedSenderViewingKey isSentNote isLegacyDecryption tokenDataByHash blockNumber batchIndex =
     andThen (XChaCha20Poly1305DecryptHex (neCiphers env) noteCiphertext sharedKey) (\<lambda>decryptedCiphertext.
     andThen (decryptedValuesNoteCiphertextV3 decryptedCiphertext tokenDataByHash) (\<lambda>vs.
     andThen (if isSentNote
       then andThen (DecryptSenderAnnotationV3 (neCiphers env) annotationData viewingPrivateKey batchIndex) (\<lambda>annotation.
         Inr (Some (saOutputType annotation), saWalletSource annotation))
       else Inr (None, [])) (\<lambda>(outputType, walletSource).
     noteFromDecryptedValues env currentWallet outputType walletSource blindedReceiverViewingKey blindedSenderViewingKey (tvSenderRandom vs)
       isSentNote isLegacyDecryption blockNumber vs)))"

section \<open>A note is read back by its receiver and its sender\<close>

text \<open>Inputs the wallet builds: keys and values that fit their fields, text in the form the formatters
  give, a memo in UTF-8, a wallet source the validation accepts, and a token that its hash identifies.\<close>

definition wellFormed :: "noteEnv \<Rightarrow> (string, TokenData) gomap \<Rightarrow> int \<Rightarrow> int \<Rightarrow> int \<Rightarrow> TransactNoteEncryptionInputs \<Rightarrow> bool" where
  "wellFormed env tokens r s v i \<longleftrightarrow>
     tiReceiverMasterPublicKey i = Some r \<and> 0 \<le> r \<and> r < 2 ^ 256 \<and>
     tiSenderMasterPublicKey i = Some s \<and> 0 \<le> s \<and> s < 2 ^ 256 \<and>
     tiValue i = Some v \<and> 0 \<le> v \<and> v < 2 ^ 128 \<and>
     canonical 16 (tiRandom i) \<and> (tiSenderRandom i = [] \<or> canonical 15 (tiSenderRandom i)) \<and>
     utf8Valid (stringBytes (tiMemoText i)) \<and> 0 \<le> tiOutputType i \<and> tiOutputType i < 256 \<and>
     length (tiWalletSource i) \<le> 16 \<and> inCharset (ToLower (tiWalletSource i)) \<and>
     length (tiSharedKey i) = 32 \<and> length (tiViewingPrivateKey i) = 32 \<and>
     (\<exists>tokenHash. TokenDataHash (neKeccak env) (tiTokenData i) = Inr tokenHash \<and> canonical 32 tokenHash \<and>
        TokenDataFromHash tokenHash tokens = Inr (tiTokenData i))"

text \<open>The random that the viewing keys are blinded with: all zeros when the sender is shown.\<close>

definition blindRandom :: "TransactNoteEncryptionInputs \<Rightarrow> string" where
  "blindRandom i = (if tiSenderRandom i = [] then MemoSenderRandomNull else tiSenderRandom i)"

definition noteContent :: "noteEnv \<Rightarrow> TransactNoteEncryptionInputs \<Rightarrow> int \<Rightarrow> int \<Rightarrow> DecryptedTransactNote \<Rightarrow> bool" where
  "noteContent env i r v note \<longleftrightarrow>
     dnRandom note = tiRandom i \<and> dnValue note = v \<and> dnTokenData note = tiTokenData i \<and> dnMemoText note = tiMemoText i \<and>
     TokenDataHash (neKeccak env) (tiTokenData i) = Inr (dnTokenHash note) \<and>
     NotePublicKey (neConstants env) r (tiRandom i) = Inr (dnNotePublicKey note) \<and>
     NoteHash (neConstants env) (dnNotePublicKey note) (dnTokenHash note) v = Inr (dnHash note)"

lemma memo_roundtrip: "utf8Valid (stringBytes m) \<Longrightarrow> DecodeMemoText (EncodeMemoText m) = Inr m"
proof (cases "m = []")
  case False
  then have "hexEncode (stringBytes m) \<noteq> []"
    using length_hexEncode [of "stringBytes m"] by (auto simp: stringBytes_def simp del: length_hexEncode)
  then show "utf8Valid (stringBytes m) \<Longrightarrow> ?thesis"
    using False by (simp add: EncodeMemoText_def DecodeMemoText_def)
qed (simp add: EncodeMemoText_def DecodeMemoText_def)

lemma EncodeMemoText_hex: "EncodeMemoText m = hexEncode (stringBytes m)"
  by (simp add: EncodeMemoText_def stringBytes_def)

lemma canonical_null: "canonical 15 MemoSenderRandomNull"
  unfolding canonical_def by code_simp

lemma HexToBigInt_canonical: "canonical n s \<Longrightarrow> 0 < n \<Longrightarrow> \<exists>v. HexToBigInt s = Inr v"
  by (cases "s = []") (auto simp: canonical_def HexToBigInt_hex)

text \<open>The facts of well-formed inputs that both versions use.\<close>

lemma wellFormed_fields:
  assumes "wellFormed env tokens r s v i"
  obtains tokenHash encoded where "TokenDataHash (neKeccak env) (tiTokenData i) = Inr tokenHash" "canonical 32 tokenHash"
    "TokenDataFromHash tokenHash tokens = Inr (tiTokenData i)"
    "encoded = encodedMasterPublicKey (tiSenderRandom i) r s" "0 \<le> encoded" "encoded < 2 ^ 256"
    "formatTransactNoteEncryptionFields env i = Inr \<lparr>tfEncodedMasterPublicKey = hexWidth 32 encoded, tfTokenHash = tokenHash,
       tfValue = hexWidth 16 v, tfRandom = tiRandom i\<rparr>"
proof -
  obtain tokenHash where t: "TokenDataHash (neKeccak env) (tiTokenData i) = Inr tokenHash" "canonical 32 tokenHash"
      "TokenDataFromHash tokenHash tokens = Inr (tiTokenData i)"
    using assms unfolding wellFormed_def by blast
  define encoded where "encoded = encodedMasterPublicKey (tiSenderRandom i) r s"
  have rs: "0 \<le> r" "r < 2 ^ 256" "0 \<le> s" "s < 2 ^ 256" and v: "0 \<le> v" and random: "canonical 16 (tiRandom i)"
    using assms unfolding wellFormed_def by blast+
  have e: "0 \<le> encoded" "encoded < 2 ^ 256"
    using rs XOR_upper [OF rs(1,2,4)] by (simp_all add: encoded_def encodedMasterPublicKey_def)
  have "FormatHexToByteLength (tiRandom i) 16 False = Inr (tiRandom i)"
    using FormatHex_canonical [OF random] by simp
  then have "formatTransactNoteEncryptionFields env i = Inr \<lparr>tfEncodedMasterPublicKey = hexWidth 32 encoded, tfTokenHash = tokenHash,
       tfValue = hexWidth 16 v, tfRandom = tiRandom i\<rparr>"
    using assms t(1) e(1) v unfolding wellFormed_def formatTransactNoteEncryptionFields_def
    by (simp add: BigIntToHex_Some flip: encoded_def)
  then show ?thesis
    using that t e encoded_def by blast
qed

lemma note_built:
  assumes "constantsOk (neConstants env) 2" and "constantsOk (neConstants env) 3" and "wellFormed env tokens r s v i"
    and "TokenDataHash (neKeccak env) (tiTokenData i) = Inr tokenHash" and "canonical 32 tokenHash"
    and "tvRandom vs = tiRandom i" "tvValue vs = v" "tvMemoText vs = tiMemoText i" "tvTokenHash vs = tokenHash" "tvTokenData vs = tiTokenData i"
    and "taMasterPublicKey receiver = r"
  shows "\<exists>note. buildDecryptedTransactNote env receiver sender outputType source random block vs = Inr note \<and> noteContent env i r v note \<and>
    dnReceiverAddressData note = receiver \<and> dnSenderAddressData note = sender \<and> dnOutputType note = outputType \<and>
    dnWalletSource note = source \<and> dnSenderRandom note = random \<and> dnBlockNumber note = block"
proof -
  have "canonical 16 (tiRandom i)"
    using assms(3) unfolding wellFormed_def by blast
  then obtain n where n: "HexToBigInt (tiRandom i) = Inr n"
    using HexToBigInt_canonical by force
  obtain t where t: "HexToBigInt tokenHash = Inr t"
    using HexToBigInt_canonical [OF assms(5)] by force
  have ok: "constantsOk (neConstants env) (length [r, n])" "constantsOk (neConstants env) (length [a, t, v])" for a
    using assms(1,2) by (simp_all add: numeral_2_eq_2 numeral_3_eq_3)
  obtain npk where npk: "Poseidon (neConstants env) [r, n] = Inr npk"
    using Poseidon_total [OF ok(1)] by blast
  obtain h where "Poseidon (neConstants env) [npk, t, v] = Inr h"
    using Poseidon_total [OF ok(2)] by blast
  then show ?thesis
    using n t npk assms(4-11) by (simp add: buildDecryptedTransactNote_def NotePublicKey_def NoteHash_def noteContent_def)
qed

lemma decoded_key:
  assumes "encoded = encodedMasterPublicKey random r s"
  shows "random \<noteq> [] \<Longrightarrow> GetDecodedMasterPublicKey s encoded random False = r"
    and "random = [] \<Longrightarrow> GetDecodedMasterPublicKey s encoded MemoSenderRandomNull False = r"
    and "senderShown random \<Longrightarrow> GetDecodedMasterPublicKey r encoded MemoSenderRandomNull False = s"
    and "\<not> senderShown random \<Longrightarrow> encoded = r"
    and "senderShown random \<Longrightarrow> encoded = r \<longleftrightarrow> s = 0"
proof -
  have x: "s XOR (r XOR s) = r" "r XOR (r XOR s) = s" for r s :: int
    by (simp_all add: xor.left_commute xor.assoc flip: xor.assoc [of r r s])
  show "random \<noteq> [] \<Longrightarrow> GetDecodedMasterPublicKey s encoded random False = r"
    "random = [] \<Longrightarrow> GetDecodedMasterPublicKey s encoded MemoSenderRandomNull False = r"
    "senderShown random \<Longrightarrow> GetDecodedMasterPublicKey r encoded MemoSenderRandomNull False = s"
    "\<not> senderShown random \<Longrightarrow> encoded = r"
    using assms x by (auto simp: GetDecodedMasterPublicKey_def encodedMasterPublicKey_def senderShown_def)
  show "senderShown random \<Longrightarrow> encoded = r \<longleftrightarrow> s = 0"
    using assms x(2) [of r s] by (auto simp: encodedMasterPublicKey_def senderShown_def dest!: arg_cong [of _ r "\<lambda>y. r XOR y"])
qed

text \<open>The keys that blind a note, and what the curve library promises of them.\<close>

definition noteBlinding :: "curve \<Rightarrow> TransactNoteEncryptionInputs \<Rightarrow> byte list \<Rightarrow> byte list \<Rightarrow> byte list \<Rightarrow> byte list \<Rightarrow> bool" where
  "noteBlinding cv i senderKey receiverKey blindedSender blindedReceiver \<longleftrightarrow>
     NoteBlindingKeys cv senderKey receiverKey (tiRandom i) (blindRandom i) = Inr (blindedSender, blindedReceiver) \<and>
     blindedSender \<noteq> [] \<and> blindedReceiver \<noteq> [] \<and> primeOrderKey cv senderKey \<and> primeOrderKey cv receiverKey \<and>
     (\<exists>scalar. blindingScalar cv (tiRandom i) (blindRandom i) = Inr scalar \<and> scalar mod ed25519SubgroupOrder \<noteq> 0)"

lemma noteBlinding_unblind:
  assumes "noteBlinding cv i senderKey receiverKey blindedSender blindedReceiver"
  shows "unblindViewingPublicKey cv (tiRandom i) blindedReceiver (blindRandom i) False = Inr receiverKey"
    and "senderShown (tiSenderRandom i) \<Longrightarrow> unblindViewingPublicKey cv (tiRandom i) blindedSender MemoSenderRandomNull False = Inr senderKey"
proof -
  obtain scalar where k: "NoteBlindingKeys cv senderKey receiverKey (tiRandom i) (blindRandom i) = Inr (blindedSender, blindedReceiver)"
      "blindingScalar cv (tiRandom i) (blindRandom i) = Inr scalar" "scalar mod ed25519SubgroupOrder \<noteq> 0"
      "blindedSender \<noteq> []" "blindedReceiver \<noteq> []" "primeOrderKey cv senderKey" "primeOrderKey cv receiverKey"
    using assms unfolding noteBlinding_def by blast
  note undo = blinding_roundtrip [OF k(1-3)]
  have "blindRandom i \<noteq> []"
    by (simp add: blindRandom_def MemoSenderRandomNull_def)
  then show "unblindViewingPublicKey cv (tiRandom i) blindedReceiver (blindRandom i) False = Inr receiverKey"
    using undo(2) k(5,7) by (simp add: unblindViewingPublicKey_def)
  assume "senderShown (tiSenderRandom i)"
  then have "blindRandom i = MemoSenderRandomNull"
    by (auto simp: senderShown_def blindRandom_def)
  then show "unblindViewingPublicKey cv (tiRandom i) blindedSender MemoSenderRandomNull False = Inr senderKey"
    using undo(1) k(4,6) by (simp add: unblindViewingPublicKey_def MemoSenderRandomNull_def)
qed

text \<open>What receiver and sender get from the decrypted fields of a note.\<close>

lemma received_note:
  assumes ok: "constantsOk (neConstants env) 2" "constantsOk (neConstants env) 3" and wf: "wellFormed env tokens r s v i"
    and hash: "TokenDataHash (neKeccak env) (tiTokenData i) = Inr tokenHash" "canonical 32 tokenHash"
    and vs: "tvRandom vs = tiRandom i" "tvValue vs = v" "tvMemoText vs = tiMemoText i" "tvTokenHash vs = tokenHash"
      "tvTokenData vs = tiTokenData i" "tvEncodedMPK vs = encodedMasterPublicKey (tiSenderRandom i) r s"
    and keys: "noteBlinding (neCurve env) i senderKey receiverKey blindedSender blindedReceiver"
  shows "\<exists>note. noteFromDecryptedValues env \<lparr>taMasterPublicKey = r, taViewingPublicKey = receiverKey\<rparr> None source
      blindedReceiver blindedSender random False False block vs = Inr note \<and>
    noteContent env i r v note \<and> dnReceiverAddressData note = \<lparr>taMasterPublicKey = r, taViewingPublicKey = receiverKey\<rparr> \<and>
    dnSenderAddressData note = (if senderShown (tiSenderRandom i) \<and> s \<noteq> 0
      then Some \<lparr>taMasterPublicKey = s, taViewingPublicKey = senderKey\<rparr> else None)"
proof -
  note built = note_built [OF ok wf hash vs(1-5), of "\<lparr>taMasterPublicKey = r, taViewingPublicKey = receiverKey\<rparr>", simplified]
  note dec = decoded_key [OF refl, where random = "tiSenderRandom i" and r = r and s = s]
  show ?thesis
  proof (cases "senderShown (tiSenderRandom i) \<and> s \<noteq> 0")
    case True
    then have "tvEncodedMPK vs \<noteq> r"
      using dec(5) vs(6) by simp
    then show ?thesis
      using True built [of "Some \<lparr>taMasterPublicKey = s, taViewingPublicKey = senderKey\<rparr>" None source random block]
        noteBlinding_unblind(2) [OF keys] dec(3) vs(1,6)
      by (auto simp: noteFromDecryptedValues_def)
  next
    case False
    then have "tvEncodedMPK vs = r"
      using dec(4,5) vs(6) by auto
    then show ?thesis
      using False built [of None None source random block] by (auto simp: noteFromDecryptedValues_def)
  qed
qed

lemma sent_note:
  assumes ok: "constantsOk (neConstants env) 2" "constantsOk (neConstants env) 3" and wf: "wellFormed env tokens r s v i"
    and hash: "TokenDataHash (neKeccak env) (tiTokenData i) = Inr tokenHash" "canonical 32 tokenHash"
    and vs: "tvRandom vs = tiRandom i" "tvValue vs = v" "tvMemoText vs = tiMemoText i" "tvTokenHash vs = tokenHash"
      "tvTokenData vs = tiTokenData i" "tvEncodedMPK vs = encodedMasterPublicKey (tiSenderRandom i) r s"
    and keys: "noteBlinding (neCurve env) i senderKey receiverKey blindedSender blindedReceiver"
  shows "\<exists>note. noteFromDecryptedValues env \<lparr>taMasterPublicKey = s, taViewingPublicKey = senderKey\<rparr> outputType source
      blindedReceiver blindedSender (blindRandom i) True False block vs = Inr note \<and>
    noteContent env i r v note \<and> dnReceiverAddressData note = \<lparr>taMasterPublicKey = r, taViewingPublicKey = receiverKey\<rparr> \<and>
    dnSenderAddressData note = Some \<lparr>taMasterPublicKey = s, taViewingPublicKey = senderKey\<rparr> \<and>
    dnOutputType note = outputType \<and> dnWalletSource note = source \<and> dnSenderRandom note = blindRandom i"
proof -
  have "GetDecodedMasterPublicKey s (tvEncodedMPK vs) (blindRandom i) False = r"
    using decoded_key(1,2) [OF refl, where random = "tiSenderRandom i" and r = r and s = s] vs(6) by (simp add: blindRandom_def)
  then show ?thesis
    using note_built [OF ok wf hash vs(1-5), of "\<lparr>taMasterPublicKey = r, taViewingPublicKey = receiverKey\<rparr>"
        "Some \<lparr>taMasterPublicKey = s, taViewingPublicKey = senderKey\<rparr>" outputType source "blindRandom i" block]
      noteBlinding_unblind(1) [OF keys] vs(1)
    by (auto simp: noteFromDecryptedValues_def)
qed

lemma random_formatted:
  assumes "wellFormed env tokens r s v i"
  shows "FormatHexToByteLength (tiSenderRandom i) 15 False = Inr (blindRandom i)" and "canonical 15 (blindRandom i)"
proof -
  have empty: "FormatHexToByteLength [] 15 False = Inr MemoSenderRandomNull"
    by code_simp
  have can: "tiSenderRandom i = [] \<or> canonical 15 (tiSenderRandom i)"
    using assms unfolding wellFormed_def by blast
  then show "canonical 15 (blindRandom i)"
    using canonical_null by (auto simp: blindRandom_def)
  show "FormatHexToByteLength (tiSenderRandom i) 15 False = Inr (blindRandom i)"
  proof (cases "tiSenderRandom i = []")
    case False
    then show ?thesis
      using can FormatHex_canonical [of 15 "tiSenderRandom i"] by (simp add: blindRandom_def)
  qed (simp add: empty blindRandom_def)
qed

lemma annotation_blindRandom:
  assumes "wellFormed env tokens r s v i"
  shows "CreateEncryptedNoteAnnotationDataV2 c outputType (tiSenderRandom i) source key iv =
    CreateEncryptedNoteAnnotationDataV2 c outputType (blindRandom i) source key iv"
proof -
  have "FormatHexToByteLength (blindRandom i) 15 False = Inr (blindRandom i)"
    using FormatHex_canonical [OF random_formatted(2) [OF assms]] by simp
  then show ?thesis
    unfolding CreateEncryptedNoteAnnotationDataV2_def random_formatted(1) [OF assms] by simp
qed

text \<open>The blocks that a V2 note is encrypted as.\<close>

lemma blocks_v2:
  assumes wf: "wellFormed env tokens r s v i"
  obtains tokenHash encoded blocks bss where "TokenDataHash (neKeccak env) (tiTokenData i) = Inr tokenHash" "canonical 32 tokenHash"
    "TokenDataFromHash tokenHash tokens = Inr (tiTokenData i)"
    "encoded = encodedMasterPublicKey (tiSenderRandom i) r s" "0 \<le> encoded" "encoded < 2 ^ 256"
    "formatTransactNoteEncryptionFields env i = Inr \<lparr>tfEncodedMasterPublicKey = hexWidth 32 encoded, tfTokenHash = tokenHash,
       tfValue = hexWidth 16 v, tfRandom = tiRandom i\<rparr>"
    "blocks = [hexWidth 32 encoded, tokenHash, tiRandom i @ hexWidth 16 v, EncodeMemoText (tiMemoText i)]"
    "list_all2 (\<lambda>v bs. HexToBytes v = Inr bs) blocks bss" "map hexEncode bss = blocks" "length bss = 4"
proof -
  obtain tokenHash encoded where hash: "TokenDataHash (neKeccak env) (tiTokenData i) = Inr tokenHash" "canonical 32 tokenHash"
      "TokenDataFromHash tokenHash tokens = Inr (tiTokenData i)"
    and encoded: "encoded = encodedMasterPublicKey (tiSenderRandom i) r s" "0 \<le> encoded" "encoded < 2 ^ 256"
    and fields: "formatTransactNoteEncryptionFields env i = Inr \<lparr>tfEncodedMasterPublicKey = hexWidth 32 encoded,
      tfTokenHash = tokenHash, tfValue = hexWidth 16 v, tfRandom = tiRandom i\<rparr>"
    using wellFormed_fields [OF wf] .
  have v: "0 \<le> v" and random: "canonical 16 (tiRandom i)"
    using wf unfolding wellFormed_def by blast+
  define blocks where "blocks = [hexWidth 32 encoded, tokenHash, tiRandom i @ hexWidth 16 v, EncodeMemoText (tiMemoText i)]"
  have can: "canonical 32 (hexWidth 32 encoded)" "canonical 32 (tiRandom i @ hexWidth 16 v)"
    using canonical_hexWidth [OF encoded(2)] canonical_append [OF random canonical_hexWidth [OF v, of 16]] by simp_all
  obtain b0 b1 b2 where b: "HexToBytes (hexWidth 32 encoded) = Inr b0" "hexEncode b0 = hexWidth 32 encoded"
      "HexToBytes tokenHash = Inr b1" "hexEncode b1 = tokenHash"
      "HexToBytes (tiRandom i @ hexWidth 16 v) = Inr b2" "hexEncode b2 = tiRandom i @ hexWidth 16 v"
    using canonical_bytes [OF can(1)] canonical_bytes [OF hash(2)] canonical_bytes [OF can(2)] by metis
  have "list_all2 (\<lambda>v bs. HexToBytes v = Inr bs) blocks [b0, b1, b2, stringBytes (tiMemoText i)]"
      "map hexEncode [b0, b1, b2, stringBytes (tiMemoText i)] = blocks"
    using b by (simp_all add: blocks_def EncodeMemoText_hex)
  then show ?thesis
    by (rule that [OF hash encoded fields blocks_def]) simp
qed

lemma fields_v2:
  assumes laws: "cipherLaws (neCiphers env)" and wf: "wellFormed env tokens r s v i" and ivs: "canonical 16 iv" "canonical 16 annotationIV"
  obtains e tokenHash decrypted vs where "EncryptTransactNoteV2 env i iv annotationIV = Inr e"
    "TokenDataHash (neKeccak env) (tiTokenData i) = Inr tokenHash" "canonical 32 tokenHash"
    "AESGCMDecryptHex (neCiphers env) ((e2NoteCiphertext e)\<lparr>gcmData := gcmData (e2NoteCiphertext e) @ [Strip0x (e2NoteMemo e)]\<rparr>)
       (BytesToHex (tiSharedKey i) False) = Inr decrypted"
    "decryptedValuesNoteCiphertextV2 decrypted tokens = Inr vs"
    "tvRandom vs = tiRandom i" "tvValue vs = v" "tvMemoText vs = tiMemoText i" "tvTokenHash vs = tokenHash"
    "tvTokenData vs = tiTokenData i" "tvEncodedMPK vs = encodedMasterPublicKey (tiSenderRandom i) r s"
    "DecryptNoteAnnotationDataV2 (neCiphers env) (e2AnnotationData e) (tiViewingPrivateKey i) = Inr \<lparr>naOutputType = tiOutputType i,
       naSenderRandom = blindRandom i, naWalletSource = sourceText (tiWalletSource i)\<rparr>"
proof -
  obtain tokenHash encoded blocks bss where hash: "TokenDataHash (neKeccak env) (tiTokenData i) = Inr tokenHash" "canonical 32 tokenHash"
      "TokenDataFromHash tokenHash tokens = Inr (tiTokenData i)"
    and encoded: "encoded = encodedMasterPublicKey (tiSenderRandom i) r s" "0 \<le> encoded" "encoded < 2 ^ 256"
    and fields: "formatTransactNoteEncryptionFields env i = Inr \<lparr>tfEncodedMasterPublicKey = hexWidth 32 encoded,
      tfTokenHash = tokenHash, tfValue = hexWidth 16 v, tfRandom = tiRandom i\<rparr>"
    and blocks: "blocks = [hexWidth 32 encoded, tokenHash, tiRandom i @ hexWidth 16 v, EncodeMemoText (tiMemoText i)]"
    and bss: "list_all2 (\<lambda>v bs. HexToBytes v = Inr bs) blocks bss" "map hexEncode bss = blocks" "length bss = 4"
    using blocks_v2 [OF wf] .
  have v: "0 \<le> v" "v < 2 ^ 128" and random: "canonical 16 (tiRandom i)" and memo: "utf8Valid (stringBytes (tiMemoText i))"
      and out: "0 \<le> tiOutputType i" "tiOutputType i < 256" and src: "length (tiWalletSource i) \<le> 16" "inCharset (ToLower (tiWalletSource i))"
      and keys: "length (tiSharedKey i) = 32" "length (tiViewingPrivateKey i) = 32"
    using wf unfolding wellFormed_def by blast+
  obtain iv' where "hexEncode iv' = iv" "length iv' = 16"
    using ivs(1) by (rule canonical_bytes)
  then obtain ct where ct: "AESGCMEncryptHex (neCiphers env) blocks (hexEncode (tiSharedKey i)) iv = Inr ct"
    using gcm_total [OF bss(1) keys(1), of iv'] by blast
  obtain ann where ann: "CreateEncryptedNoteAnnotationDataV2 (neCiphers env) (tiOutputType i) (blindRandom i) (tiWalletSource i)
      (tiViewingPrivateKey i) annotationIV = Inr ann"
    using annotation_v2_total [OF out random_formatted(2) [OF wf] src keys(2) ivs(2)] by blast
  note gcm = gcm_roundtrip [OF laws bss(1) ct]
  define e where "e = \<lparr>e2NoteCiphertext = ct\<lparr>gcmData := take 3 (gcmData ct)\<rparr>, e2NoteMemo = gcmData ct ! 3, e2AnnotationData = ann\<rparr>"
  have enc: "EncryptTransactNoteV2 env i iv annotationIV = Inr e"
    unfolding EncryptTransactNoteV2_def fields annotation_blindRandom [OF wf] e_def
    using ct ann gcm(2) bss(3) by (simp add: Let_def blocks)
  obtain cs where cs: "gcmData ct = map hexEncode cs" "length cs = 4"
    using gcm(2,3) bss(3) by auto
  then obtain c0 c1 c2 c3 where "cs = [c0, c1, c2, c3]"
    by (auto simp: length_Suc_conv numeral_eq_Suc)
  then have whole: "(e2NoteCiphertext e)\<lparr>gcmData := gcmData (e2NoteCiphertext e) @ [Strip0x (e2NoteMemo e)]\<rparr> = ct"
    using cs(1) by (cases ct) (simp add: e_def)
  have "slice 32 64 (tiRandom i @ hexWidth 16 v) = hexWidth 16 v" "take 32 (tiRandom i @ hexWidth 16 v) = tiRandom i"
    using random by (simp_all add: slice_def canonical_def)
  moreover have "HexToBigInt (hexWidth 16 v) = Inr v" "HexToBigInt (hexWidth 32 encoded) = Inr encoded"
    using hexWidth_roundtrip [of v 16] hexWidth_roundtrip [of encoded 32] v encoded(2,3) by simp_all
  moreover have "FormatHexToByteLength tokenHash 32 False = Inr tokenHash"
    using FormatHex_canonical [OF hash(2)] by simp
  moreover have "length (tiRandom i @ hexWidth 16 v) = 64"
    using canonical_append [OF random canonical_hexWidth [OF v(1), of 16]] by (simp add: canonical_def)
  ultimately have values2: "decryptedValuesNoteCiphertextV2 blocks tokens = Inr \<lparr>tvRandom = tiRandom i, tvValue = v,
      tvMemoText = tiMemoText i, tvTokenHash = tokenHash, tvTokenData = tiTokenData i, tvEncodedMPK = encoded, tvSenderRandom = []\<rparr>"
    using memo_roundtrip [OF memo] hash(3)
    by (simp add: decryptedValuesNoteCiphertextV2_def blocks numeral_2_eq_2 numeral_3_eq_3 Let_def)
  show ?thesis
    by (rule that [OF enc hash(1,2) _ values2])
      (use gcm(1) whole bss(2) encoded(1) annotation_v2_roundtrip [OF laws out random_formatted(2) [OF wf] src(1) ann] in \<open>simp_all add: e_def\<close>)
qed

definition readByReceiver :: "noteEnv \<Rightarrow> TransactNoteEncryptionInputs \<Rightarrow> int \<Rightarrow> int \<Rightarrow> int \<Rightarrow> byte list \<Rightarrow> byte list \<Rightarrow> DecryptedTransactNote \<Rightarrow> bool" where
  "readByReceiver env i r s v senderKey receiverKey note \<longleftrightarrow> noteContent env i r v note \<and>
     dnReceiverAddressData note = \<lparr>taMasterPublicKey = r, taViewingPublicKey = receiverKey\<rparr> \<and>
     dnSenderAddressData note = (if senderShown (tiSenderRandom i) \<and> s \<noteq> 0
       then Some \<lparr>taMasterPublicKey = s, taViewingPublicKey = senderKey\<rparr> else None)"

definition readBySender :: "noteEnv \<Rightarrow> TransactNoteEncryptionInputs \<Rightarrow> int \<Rightarrow> int \<Rightarrow> int \<Rightarrow> byte list \<Rightarrow> byte list \<Rightarrow> int \<Rightarrow> DecryptedTransactNote \<Rightarrow> bool" where
  "readBySender env i r s v senderKey receiverKey outputType note \<longleftrightarrow> noteContent env i r v note \<and>
     dnReceiverAddressData note = \<lparr>taMasterPublicKey = r, taViewingPublicKey = receiverKey\<rparr> \<and>
     dnSenderAddressData note = Some \<lparr>taMasterPublicKey = s, taViewingPublicKey = senderKey\<rparr> \<and>
     dnOutputType note = Some outputType \<and> dnWalletSource note = sourceText (tiWalletSource i) \<and> dnSenderRandom note = blindRandom i"

section \<open>An instance\<close>

definition sampleCiphers :: ciphers where
  "sampleCiphers = \<lparr>gcmSeal = \<lambda>_ _ p. p @ replicate 16 0, gcmOpen = \<lambda>_ _ c. Inr (take (length c - 16) c), ctrXOR = \<lambda>_ _ p. p,
     polySeal = \<lambda>_ _ p. p, polyOpen = \<lambda>_ _ c. Inr c, chachaXOR = \<lambda>_ _ p. p, sha256 = \<lambda>_. replicate 32 7\<rparr>"

definition sampleCurve :: curve where
  "sampleCurve = \<lparr>sha512 = \<lambda>_. replicate 64 1, curveSha256 = \<lambda>_. replicate 32 1,
     setCanonicalBytes = \<lambda>bs. Inr (littleEndianBytesToBigInt bs), scalarInvert = \<lambda>s. s, pointSetBytes = \<lambda>_. Inr (), pointMult = \<lambda>_ p. p\<rparr>"

definition unhashedEnv :: noteEnv where
  "unhashedEnv = \<lparr>neCiphers = sampleCiphers, neCurve = sampleCurve, neKeccak = \<lambda>bs. bs, neConstants = \<lparr>rawC = [], rawS = [], rawM = [], rawP = []\<rparr>\<rparr>"

definition sampleEnv :: noteEnv where
  "sampleEnv = unhashedEnv\<lparr>neConstants := sampleConstants\<rparr>"

lemma sampleEnv_simps [simp]:
  "neCiphers sampleEnv = neCiphers unhashedEnv" "neCurve sampleEnv = neCurve unhashedEnv" "neKeccak sampleEnv = neKeccak unhashedEnv"
  "neConstants sampleEnv = sampleConstants"
  by (simp_all add: sampleEnv_def)

definition sampleInputs :: TransactNoteEncryptionInputs where
  "sampleInputs = \<lparr>tiReceiverMasterPublicKey = Some 1234567, tiSenderMasterPublicKey = Some 7654321, tiRandom = Repeat0 31 @ ''a'',
     tiValue = Some 500, tiTokenData = \<lparr>TokenAddress = ''0x'' @ Repeat0 39 @ ''5'', TokenType = 0, TokenSubID = ''0x'' @ Repeat0 64\<rparr>,
     tiSenderRandom = [], tiSharedKey = replicate 32 3, tiViewingPrivateKey = replicate 32 4, tiOutputType = 2, tiWalletSource = ''railgun go'',
     tiMemoText = ''thanks''\<rparr>"

lemma sample_laws: "cipherLaws (neCiphers sampleEnv)" "constantsOk (neConstants sampleEnv) 2" "constantsOk (neConstants sampleEnv) 3"
  by (simp_all add: cipherLaws_def unhashedEnv_def sampleCiphers_def sampleConstants_ok)

lemma sample_wellFormed: "wellFormed sampleEnv [] 1234567 7654321 500 sampleInputs"
proof -
  have "TokenDataHash (neKeccak unhashedEnv) (tiTokenData sampleInputs) = Inr (Repeat0 63 @ ''5'') \<and>
      TokenDataFromHash (Repeat0 63 @ ''5'') [] = Inr (tiTokenData sampleInputs)"
    by code_simp
  moreover have "canonical 32 (Repeat0 63 @ ''5'') \<and> canonical 16 (Repeat0 31 @ ''a'')" "utf8Valid (stringBytes ''thanks'')"
      "inCharset (ToLower ''railgun go'')"
    unfolding canonical_def by code_simp+
  ultimately show ?thesis
    unfolding wellFormed_def by (simp add: sampleInputs_def)
qed

lemma sample_iv: "canonical 16 (Repeat0 32)"
  using canonical_Repeat0 [of 16] by simp

lemma sample_blinding: "noteBlinding (neCurve sampleEnv) sampleInputs (replicate 32 8) (replicate 32 9) (replicate 32 8) (replicate 32 9)"
proof -
  define scalar where "scalar = SetBytes (replicate 64 1) mod ed25519SubgroupOrder"
  have s: "blindingScalar (neCurve unhashedEnv) (tiRandom sampleInputs) (blindRandom sampleInputs) = Inr scalar"
    unfolding scalar_def by code_simp
  have "scalar mod ed25519SubgroupOrder \<noteq> 0"
    unfolding scalar_def by code_simp
  with s show ?thesis
    by (auto simp: noteBlinding_def NoteBlindingKeys_def blindKeys_def scalarMultEd25519_def primeOrderKey_def)
       (simp_all add: unhashedEnv_def sampleCurve_def)
qed

text \<open>C34: a V2 note that was encrypted for well-formed inputs is read back by both sides. The
  receiver gets its token, value, random, memo, note public key and hash, and the sender's address
  data exactly when the sender chose to be shown; the sender gets the same note with the receiver's
  address data, the output type, the wallet source without leading spaces, and the sender random.\<close>

theorem transact_note_v2_roundtrip:
  assumes "cipherLaws (neCiphers env)" "constantsOk (neConstants env) 2" "constantsOk (neConstants env) 3"
    and "wellFormed env tokens r s v i" and "noteBlinding (neCurve env) i senderKey receiverKey blindedSender blindedReceiver"
    and "canonical 16 iv" "canonical 16 annotationIV"
  shows "\<exists>e. EncryptTransactNoteV2 env i iv annotationIV = Inr e \<and>
    (\<exists>note. DecryptTransactNoteV2 env \<lparr>taMasterPublicKey = r, taViewingPublicKey = receiverKey\<rparr> (e2NoteCiphertext e) (tiSharedKey i)
        (e2NoteMemo e) (e2AnnotationData e) viewingKey blindedReceiver blindedSender False False tokens block = Inr note \<and>
        readByReceiver env i r s v senderKey receiverKey note) \<and>
    (\<exists>note. DecryptTransactNoteV2 env \<lparr>taMasterPublicKey = s, taViewingPublicKey = senderKey\<rparr> (e2NoteCiphertext e) (tiSharedKey i)
        (e2NoteMemo e) (e2AnnotationData e) (tiViewingPrivateKey i) blindedReceiver blindedSender True False tokens block = Inr note \<and>
        readBySender env i r s v senderKey receiverKey (tiOutputType i) note)"
proof -
  obtain e tokenHash decrypted vs where enc: "EncryptTransactNoteV2 env i iv annotationIV = Inr e"
    and hash: "TokenDataHash (neKeccak env) (tiTokenData i) = Inr tokenHash" "canonical 32 tokenHash"
    and run: "AESGCMDecryptHex (neCiphers env) ((e2NoteCiphertext e)\<lparr>gcmData := gcmData (e2NoteCiphertext e) @ [Strip0x (e2NoteMemo e)]\<rparr>)
       (BytesToHex (tiSharedKey i) False) = Inr decrypted" "decryptedValuesNoteCiphertextV2 decrypted tokens = Inr vs"
    and vs: "tvRandom vs = tiRandom i" "tvValue vs = v" "tvMemoText vs = tiMemoText i" "tvTokenHash vs = tokenHash"
      "tvTokenData vs = tiTokenData i" "tvEncodedMPK vs = encodedMasterPublicKey (tiSenderRandom i) r s"
    and annotation: "DecryptNoteAnnotationDataV2 (neCiphers env) (e2AnnotationData e) (tiViewingPrivateKey i) = Inr
       \<lparr>naOutputType = tiOutputType i, naSenderRandom = blindRandom i, naWalletSource = sourceText (tiWalletSource i)\<rparr>"
    using fields_v2 [OF assms(1,4,6,7)] .
  show ?thesis
    unfolding DecryptTransactNoteV2_def Let_def readByReceiver_def readBySender_def enc
    by (rule exI [of _ e], unfold run andThen_simps annotation)
      (use received_note [OF assms(2-4) hash vs assms(5), of "[]" "[]" block]
        sent_note [OF assms(2-4) hash vs assms(5), of "Some (tiOutputType i)" "sourceText (tiWalletSource i)" block] in simp)
qed

theorem transact_note_v2_roundtrip_witness:
  "\<exists>e. EncryptTransactNoteV2 sampleEnv sampleInputs (Repeat0 32) (Repeat0 32) = Inr e \<and>
     (\<exists>note. DecryptTransactNoteV2 sampleEnv \<lparr>taMasterPublicKey = 7654321, taViewingPublicKey = replicate 32 8\<rparr> (e2NoteCiphertext e)
        (tiSharedKey sampleInputs) (e2NoteMemo e) (e2AnnotationData e) (tiViewingPrivateKey sampleInputs) (replicate 32 9) (replicate 32 8)
        True False [] None = Inr note \<and>
      readBySender sampleEnv sampleInputs 1234567 7654321 500 (replicate 32 8) (replicate 32 9) (tiOutputType sampleInputs) note)"
  using transact_note_v2_roundtrip [OF sample_laws sample_wellFormed sample_blinding sample_iv sample_iv, of "[]" None] by blast

lemma fields_v3:
  assumes laws: "cipherLaws (neCiphers env)" and wf: "wellFormed env tokens r s v i"
    and outputTypes: "\<forall>w \<in> set outputTypes. 0 \<le> w \<and> w < 256"
  obtains e tokenHash decrypted vs where "EncryptTransactNoteV3 env i nonce annotationNonce outputTypes = Inr e"
    "TokenDataHash (neKeccak env) (tiTokenData i) = Inr tokenHash" "canonical 32 tokenHash"
    "XChaCha20Poly1305DecryptHex (neCiphers env) (e3NoteCiphertext e) (tiSharedKey i) = Inr decrypted"
    "decryptedValuesNoteCiphertextV3 decrypted tokens = Inr vs"
    "tvRandom vs = tiRandom i" "tvValue vs = v" "tvMemoText vs = tiMemoText i" "tvTokenHash vs = tokenHash"
    "tvTokenData vs = tiTokenData i" "tvEncodedMPK vs = encodedMasterPublicKey (tiSenderRandom i) r s" "tvSenderRandom vs = blindRandom i"
    "CreateSenderAnnotationEncryptedV3 (neCiphers env) (tiWalletSource i) outputTypes (tiViewingPrivateKey i) annotationNonce =
       Inr (e3AnnotationData e)"
proof -
  obtain tokenHash encoded where hash: "TokenDataHash (neKeccak env) (tiTokenData i) = Inr tokenHash" "canonical 32 tokenHash"
      "TokenDataFromHash tokenHash tokens = Inr (tiTokenData i)"
    and encoded: "encoded = encodedMasterPublicKey (tiSenderRandom i) r s" "0 \<le> encoded" "encoded < 2 ^ 256"
    and fields: "formatTransactNoteEncryptionFields env i = Inr \<lparr>tfEncodedMasterPublicKey = hexWidth 32 encoded,
      tfTokenHash = tokenHash, tfValue = hexWidth 16 v, tfRandom = tiRandom i\<rparr>"
    using wellFormed_fields [OF wf] .
  have v: "0 \<le> v" "v < 2 ^ 128" and random: "canonical 16 (tiRandom i)" and memo: "utf8Valid (stringBytes (tiMemoText i))"
    using wf unfolding wellFormed_def by blast+
  define head where "head = hexWidth 32 encoded @ tiRandom i @ hexWidth 16 v @ tokenHash @ blindRandom i"
  have lens: "length (hexWidth 32 encoded) = 64" "length (tiRandom i) = 32" "length (hexWidth 16 v) = 32" "length tokenHash = 64"
      "length (blindRandom i) = 30"
    using canonical_hexWidth [OF encoded(2), of 32] canonical_hexWidth [OF v(1), of 16] random hash(2) random_formatted(2) [OF wf]
    by (simp_all add: canonical_def)
  have "canonical (32 + (16 + (16 + (32 + 15)))) head"
    unfolding head_def using canonical_hexWidth [OF encoded(2)] canonical_hexWidth [OF v(1)] random hash(2) random_formatted(2) [OF wf]
    by (intro canonical_append)
  then have can: "canonical (111 + length (tiMemoText i)) (head @ EncodeMemoText (tiMemoText i))"
    using canonical_append [of 111 head "length (tiMemoText i)" "EncodeMemoText (tiMemoText i)"]
    by (simp add: EncodeMemoText_hex stringBytes_def)
  then obtain bs where bs: "HexToBytes (head @ EncodeMemoText (tiMemoText i)) = Inr bs" "hexEncode bs = head @ EncodeMemoText (tiMemoText i)"
    by (rule canonical_bytes)
  have enc3: "EncryptTransactNoteV3Ciphertext env i nonce = XChaCha20Poly1305EncryptHex (neCiphers env)
      (head @ EncodeMemoText (tiMemoText i)) (tiSharedKey i) nonce"
    unfolding EncryptTransactNoteV3Ciphertext_def fields random_formatted(1) [OF wf] by (simp add: Let_def head_def)
  have src: "length (tiWalletSource i) \<le> 16" "inCharset (ToLower (tiWalletSource i))"
      and keys: "length (tiSharedKey i) = 32" "length (tiViewingPrivateKey i) = 32"
    using wf unfolding wellFormed_def by blast+
  obtain ct where ct: "XChaCha20Poly1305EncryptHex (neCiphers env) (head @ EncodeMemoText (tiMemoText i)) (tiSharedKey i) nonce = Inr ct"
    using xchacha_total(2) [OF bs(1) keys(1)] by blast
  obtain ann where ann: "CreateSenderAnnotationEncryptedV3 (neCiphers env) (tiWalletSource i) outputTypes (tiViewingPrivateKey i)
      annotationNonce = Inr ann"
    using annotation_v3_total [OF outputTypes src keys(2)] by blast
  define e where "e = \<lparr>e3NoteCiphertext = ct, e3AnnotationData = ann\<rparr>"
  have enc: "EncryptTransactNoteV3 env i nonce annotationNonce outputTypes = Inr e"
    by (simp add: EncryptTransactNoteV3_def enc3 ct ann e_def)
  have cuts: "take 64 (head @ m) = hexWidth 32 encoded" "slice 64 96 (head @ m) = tiRandom i" "slice 96 128 (head @ m) = hexWidth 16 v"
      "slice 128 192 (head @ m) = tokenHash" "slice 192 222 (head @ m) = blindRandom i" "drop 222 (head @ m) = m"
      "length (head @ m) = 222 + length m" for m
    by (simp_all add: head_def slice_def lens)
  have "HexToBigInt (hexWidth 16 v) = Inr v" "HexToBigInt (hexWidth 32 encoded) = Inr encoded"
    using hexWidth_roundtrip [of v 16] hexWidth_roundtrip [of encoded 32] v encoded(2,3) by simp_all
  moreover have "FormatHexToByteLength tokenHash 32 False = Inr tokenHash"
    using FormatHex_canonical [OF hash(2)] by simp
  moreover have "tiMemoText i = [] \<longleftrightarrow> length (EncodeMemoText (tiMemoText i)) = 0"
    by (auto simp: EncodeMemoText_hex stringBytes_def)
  ultimately have values3: "decryptedValuesNoteCiphertextV3 (head @ EncodeMemoText (tiMemoText i)) tokens = Inr \<lparr>tvRandom = tiRandom i,
      tvValue = v, tvMemoText = tiMemoText i, tvTokenHash = tokenHash, tvTokenData = tiTokenData i, tvEncodedMPK = encoded,
      tvSenderRandom = blindRandom i\<rparr>"
    using memo_roundtrip [OF memo] hash(3) unfolding decryptedValuesNoteCiphertextV3_def cuts Let_def by auto
  show ?thesis
    by (rule that [OF enc hash(1,2) _ values3]) (use xchachapoly_roundtrip [OF laws bs(1) ct] bs(2) ann encoded(1) in \<open>simp_all add: e_def\<close>)
qed

text \<open>C35: a V3 note that was encrypted for well-formed inputs is read back by both sides, as for
  V2; the sender finds its output type at the position of the note in its batch.\<close>

theorem transact_note_v3_roundtrip:
  assumes "cipherLaws (neCiphers env)" "constantsOk (neConstants env) 2" "constantsOk (neConstants env) 3"
    and "wellFormed env tokens r s v i" and "noteBlinding (neCurve env) i senderKey receiverKey blindedSender blindedReceiver"
    and "canonical 16 annotationNonce" and "\<forall>w \<in> set outputTypes. 0 \<le> w \<and> w < 256" and "n < length outputTypes" "length outputTypes < 2 ^ 32"
  shows "\<exists>e. EncryptTransactNoteV3 env i nonce annotationNonce outputTypes = Inr e \<and>
    (\<exists>note. DecryptTransactNoteV3 env \<lparr>taMasterPublicKey = r, taViewingPublicKey = receiverKey\<rparr> (e3NoteCiphertext e) (tiSharedKey i)
        (e3AnnotationData e) viewingKey blindedReceiver blindedSender False False tokens block batchIndex = Inr note \<and>
        readByReceiver env i r s v senderKey receiverKey note) \<and>
    (\<exists>note. DecryptTransactNoteV3 env \<lparr>taMasterPublicKey = s, taViewingPublicKey = senderKey\<rparr> (e3NoteCiphertext e) (tiSharedKey i)
        (e3AnnotationData e) (tiViewingPrivateKey i) blindedReceiver blindedSender True False tokens block (int n) = Inr note \<and>
        readBySender env i r s v senderKey receiverKey (outputTypes ! n) note)"
proof -
  obtain e tokenHash decrypted vs where enc: "EncryptTransactNoteV3 env i nonce annotationNonce outputTypes = Inr e"
    and hash: "TokenDataHash (neKeccak env) (tiTokenData i) = Inr tokenHash" "canonical 32 tokenHash"
    and run: "XChaCha20Poly1305DecryptHex (neCiphers env) (e3NoteCiphertext e) (tiSharedKey i) = Inr decrypted"
      "decryptedValuesNoteCiphertextV3 decrypted tokens = Inr vs"
    and vs: "tvRandom vs = tiRandom i" "tvValue vs = v" "tvMemoText vs = tiMemoText i" "tvTokenHash vs = tokenHash"
      "tvTokenData vs = tiTokenData i" "tvEncodedMPK vs = encodedMasterPublicKey (tiSenderRandom i) r s"
    and random: "tvSenderRandom vs = blindRandom i"
    and ann: "CreateSenderAnnotationEncryptedV3 (neCiphers env) (tiWalletSource i) outputTypes (tiViewingPrivateKey i) annotationNonce =
       Inr (e3AnnotationData e)"
    using fields_v3 [OF assms(1,4,7)] .
  have "length (tiWalletSource i) \<le> 16"
    using assms(4) unfolding wellFormed_def by blast
  note annotation = annotation_v3_roundtrip [OF assms(1,6) this assms(7-9) ann]
  show ?thesis
    unfolding DecryptTransactNoteV3_def readByReceiver_def readBySender_def enc
    by (rule exI [of _ e], unfold run andThen_simps annotation random)
      (use received_note [OF assms(2-4) hash vs assms(5), of "[]" "blindRandom i" block]
        sent_note [OF assms(2-4) hash vs assms(5), of "Some (outputTypes ! n)" "sourceText (tiWalletSource i)" block] in simp)
qed

theorem transact_note_v3_roundtrip_witness:
  "\<exists>e. EncryptTransactNoteV3 sampleEnv sampleInputs (Repeat0 32) (Repeat0 32) [0, 2] = Inr e \<and>
     (\<exists>note. DecryptTransactNoteV3 sampleEnv \<lparr>taMasterPublicKey = 1234567, taViewingPublicKey = replicate 32 9\<rparr> (e3NoteCiphertext e)
        (tiSharedKey sampleInputs) (e3AnnotationData e) [] (replicate 32 9) (replicate 32 8) False False [] None 1 = Inr note \<and>
      readByReceiver sampleEnv sampleInputs 1234567 7654321 500 (replicate 32 8) (replicate 32 9) note)"
proof -
  have "\<forall>w \<in> set [0, 2]. 0 \<le> w \<and> w < (256 :: int)" "(0::nat) < length [0, 2 :: int]" "length [0, 2 :: int] < 2 ^ 32"
    by simp_all
  from transact_note_v3_roundtrip [OF sample_laws sample_wellFormed sample_blinding sample_iv this, of "Repeat0 32" "[]" None 1]
  show ?thesis by blast
qed

end
