(* ===== verification/PoiEvents.thy ===== *)
theory PoiEvents
  imports PreTransaction StateStore
begin

text \<open>
  Models \<^verbatim>\<open>pkg/wallet/poi_event_store.go\<close> and \<^verbatim>\<open>pkg/wallet/poi_submission.go\<close>: the
  commitments that the wallet sent and its unshields, whose POI statuses it follows, in memory and on
  file, and the marking of statuses after a submission. The file holds its decoded records;
  \<^verbatim>\<open>omitempty\<close> makes an empty map of statuses nil.
\<close>

section \<open>Events\<close>

record SentCommitmentPOIStatusInput =
  snTXID :: string
  snRailgunTxid :: string
  snTimestamp :: "uint64 option"
  snBlockNumber :: uint64
  snCommitmentHash :: string
  snBlindedCommitment :: string
  snTokenHash :: string
  snTokenData :: TokenData
  snValue :: "int option"
  snOutputType :: "int option"
  snWalletSource :: string
  snMemoText :: string
  snSenderAddress :: string
  snRecipientAddress :: string
  snPOIsPerList :: POIsPerList

record UnshieldPOIStatusInput =
  usTXID :: string
  usRailgunTxid :: string
  usBlockNumber :: uint64
  usCommitmentHash :: string
  usPOIsPerList :: POIsPerList

type_synonym sentEvents = "(string, SentCommitmentPOIStatusInput) gomap"
type_synonym unshieldEvents = "(string, UnshieldPOIStatusInput) gomap"

text \<open>The two maps of a store, which \<^verbatim>\<open>spentPOIEventFileState\<close> also has.\<close>

record spentPOIEvents =
  sentCommitments :: sentEvents
  unshieldEvents :: unshieldEvents

type_synonym MemorySpentPOIEventStore = "spentPOIEvents option"

abbreviation spentStoreRequired :: string where
  "spentStoreRequired \<equiv> ''spent poi event store is required''"

definition joinNUL :: "string list \<Rightarrow> string" where
  "joinNUL parts = concat (map (\<lambda>p. CHR 0x00 # p) parts)"

definition sentCommitmentPOIEventKey :: "SentCommitmentPOIStatusInput \<Rightarrow> string res" where
  "sentCommitmentPOIEventKey e =
     (if snTXID e = [] \<and> snRailgunTxid e = [] \<and> snCommitmentHash e = [] \<and> snBlindedCommitment e = [] \<and> snBlockNumber e = 0
      then Err ''sent commitment poi event identifier is required''
      else Inr (decimal (uint (snBlockNumber e)) @ joinNUL [snTXID e, snRailgunTxid e, snCommitmentHash e, snBlindedCommitment e]))"

definition unshieldPOIEventKey :: "UnshieldPOIStatusInput \<Rightarrow> string res" where
  "unshieldPOIEventKey e =
     (if usTXID e = [] \<and> usRailgunTxid e = [] \<and> usCommitmentHash e = [] \<and> usBlockNumber e = 0
      then Err ''unshield poi event identifier is required''
      else Inr (decimal (uint (usBlockNumber e)) @ joinNUL [usTXID e, usRailgunTxid e, usCommitmentHash e]))"

definition sentLess :: "SentCommitmentPOIStatusInput \<Rightarrow> SentCommitmentPOIStatusInput \<Rightarrow> bool" where
  "sentLess a b \<longleftrightarrow>
     (if snBlockNumber a \<noteq> snBlockNumber b then snBlockNumber a < snBlockNumber b
      else if snTXID a \<noteq> snTXID b then snTXID a < snTXID b
      else if snRailgunTxid a \<noteq> snRailgunTxid b then snRailgunTxid a < snRailgunTxid b
      else if snCommitmentHash a \<noteq> snCommitmentHash b then snCommitmentHash a < snCommitmentHash b
      else snBlindedCommitment a < snBlindedCommitment b)"

definition unshieldLess :: "UnshieldPOIStatusInput \<Rightarrow> UnshieldPOIStatusInput \<Rightarrow> bool" where
  "unshieldLess a b \<longleftrightarrow>
     (if usBlockNumber a \<noteq> usBlockNumber b then usBlockNumber a < usBlockNumber b
      else if usTXID a \<noteq> usTXID b then usTXID a < usTXID b
      else if usRailgunTxid a \<noteq> usRailgunTxid b then usRailgunTxid a < usRailgunTxid b
      else usCommitmentHash a < usCommitmentHash b)"

definition sortedSentCommitmentPOIEvents :: "sentEvents \<Rightarrow> SentCommitmentPOIStatusInput list" where
  "sortedSentCommitmentPOIEvents events = sortBy sentLess (map snd events)"

definition sortedUnshieldPOIEvents :: "unshieldEvents \<Rightarrow> UnshieldPOIStatusInput list" where
  "sortedUnshieldPOIEvents events = sortBy unshieldLess (map snd events)"

section \<open>Marking submitted proofs\<close>

definition submittedPOIListKeys :: "SubmittedPreTransactionPOI list \<Rightarrow> string list" where
  "submittedPOIListKeys submissions = filter (\<lambda>k. k \<noteq> []) (map (\<lambda>s. spListKey (sbSubmitRequest s)) submissions)"

definition markPOIsProofSubmitted :: "POIsPerList \<Rightarrow> string list \<Rightarrow> POIsPerList" where
  "markPOIsProofSubmitted pois listKeys =
     Some (fold (\<lambda>listKey m. if listKey = [] then m else if gget m listKey = Some StatusValid then m
       else gput listKey StatusProofSubmitted m) listKeys (case pois of None \<Rightarrow> [] | Some m \<Rightarrow> m))"

definition markSent :: "string list \<Rightarrow> SentCommitmentPOIStatusInput \<Rightarrow> SentCommitmentPOIStatusInput" where
  "markSent listKeys e = e\<lparr>snPOIsPerList := markPOIsProofSubmitted (snPOIsPerList e) listKeys\<rparr>"

definition markUnshield :: "string list \<Rightarrow> UnshieldPOIStatusInput \<Rightarrow> UnshieldPOIStatusInput" where
  "markUnshield listKeys e = e\<lparr>usPOIsPerList := markPOIsProofSubmitted (usPOIsPerList e) listKeys\<rparr>"

definition MarkSpentPOIProofSubmitted ::
  "SentCommitmentPOIStatusInput list \<Rightarrow> UnshieldPOIStatusInput list \<Rightarrow> string list \<Rightarrow>
   SentCommitmentPOIStatusInput list \<times> UnshieldPOIStatusInput list" where
  "MarkSpentPOIProofSubmitted sent unshields listKeys = (map (markSent listKeys) sent, map (markUnshield listKeys) unshields)"

definition ApplySubmittedPreTransactionPOIStatuses ::
  "SentCommitmentPOIStatusInput list \<Rightarrow> UnshieldPOIStatusInput list \<Rightarrow> SubmittedPreTransactionPOI list \<Rightarrow>
   SentCommitmentPOIStatusInput list \<times> UnshieldPOIStatusInput list" where
  "ApplySubmittedPreTransactionPOIStatuses sent unshields submissions =
     MarkSpentPOIProofSubmitted sent unshields (submittedPOIListKeys submissions)"

section \<open>The updates that both stores make\<close>

definition putSent :: "string \<Rightarrow> SentCommitmentPOIStatusInput \<Rightarrow> spentPOIEvents \<Rightarrow> spentPOIEvents" where
  "putSent key e s = s\<lparr>sentCommitments := gput key e (sentCommitments s)\<rparr>"

definition putUnshield :: "string \<Rightarrow> UnshieldPOIStatusInput \<Rightarrow> spentPOIEvents \<Rightarrow> spentPOIEvents" where
  "putUnshield key e s = s\<lparr>unshieldEvents := gput key e (unshieldEvents s)\<rparr>"

definition markAll :: "string list \<Rightarrow> spentPOIEvents \<Rightarrow> spentPOIEvents" where
  "markAll listKeys s = \<lparr>sentCommitments = gmap (markSent listKeys) (sentCommitments s),
     unshieldEvents = gmap (markUnshield listKeys) (unshieldEvents s)\<rparr>"

definition rollbackEvents :: "uint64 \<Rightarrow> spentPOIEvents \<Rightarrow> spentPOIEvents" where
  "rollbackEvents fromBlock s = \<lparr>sentCommitments = gkeep (\<lambda>e. \<not> snBlockNumber e \<ge> fromBlock) (sentCommitments s),
     unshieldEvents = gkeep (\<lambda>e. \<not> usBlockNumber e \<ge> fromBlock) (unshieldEvents s)\<rparr>"

section \<open>The store in memory\<close>

definition NewMemorySpentPOIEventStore :: MemorySpentPOIEventStore where
  "NewMemorySpentPOIEventStore = Some \<lparr>sentCommitments = [], unshieldEvents = []\<rparr>"

definition MemorySpentPOIEventStore_UpsertSentCommitmentPOIEvent ::
  "ctx \<Rightarrow> MemorySpentPOIEventStore \<Rightarrow> SentCommitmentPOIStatusInput \<Rightarrow> MemorySpentPOIEventStore res" where
  "MemorySpentPOIEventStore_UpsertSentCommitmentPOIEvent ctx store event =
     withCtx ctx (notNil spentStoreRequired store (\<lambda>s.
     andThen (sentCommitmentPOIEventKey event) (\<lambda>key. Inr (Some (putSent key event s)))))"

definition MemorySpentPOIEventStore_UpsertUnshieldPOIEvent ::
  "ctx \<Rightarrow> MemorySpentPOIEventStore \<Rightarrow> UnshieldPOIStatusInput \<Rightarrow> MemorySpentPOIEventStore res" where
  "MemorySpentPOIEventStore_UpsertUnshieldPOIEvent ctx store event =
     withCtx ctx (notNil spentStoreRequired store (\<lambda>s.
     andThen (unshieldPOIEventKey event) (\<lambda>key. Inr (Some (putUnshield key event s)))))"

definition MemorySpentPOIEventStore_ListSentCommitmentPOIEvents ::
  "ctx \<Rightarrow> MemorySpentPOIEventStore \<Rightarrow> SentCommitmentPOIStatusInput list res" where
  "MemorySpentPOIEventStore_ListSentCommitmentPOIEvents ctx store =
     withCtx ctx (notNil spentStoreRequired store (\<lambda>s. Inr (sortedSentCommitmentPOIEvents (sentCommitments s))))"

definition MemorySpentPOIEventStore_ListUnshieldPOIEvents ::
  "ctx \<Rightarrow> MemorySpentPOIEventStore \<Rightarrow> UnshieldPOIStatusInput list res" where
  "MemorySpentPOIEventStore_ListUnshieldPOIEvents ctx store =
     withCtx ctx (notNil spentStoreRequired store (\<lambda>s. Inr (sortedUnshieldPOIEvents (unshieldEvents s))))"

definition MemorySpentPOIEventStore_MarkProofSubmitted ::
  "ctx \<Rightarrow> MemorySpentPOIEventStore \<Rightarrow> SubmittedPreTransactionPOI list \<Rightarrow> MemorySpentPOIEventStore res" where
  "MemorySpentPOIEventStore_MarkProofSubmitted ctx store submissions =
     withCtx ctx (notNil spentStoreRequired store (\<lambda>s. Inr (Some (markAll (submittedPOIListKeys submissions) s))))"

definition MemorySpentPOIEventStore_RollbackToBlock ::
  "ctx \<Rightarrow> MemorySpentPOIEventStore \<Rightarrow> uint64 \<Rightarrow> MemorySpentPOIEventStore res" where
  "MemorySpentPOIEventStore_RollbackToBlock ctx store fromBlock =
     withCtx ctx (notNil spentStoreRequired store (\<lambda>s. Inr (Some (rollbackEvents fromBlock s))))"

section \<open>The store on file\<close>

record sentCommitmentPOIEventRecord =
  rsTXID :: string
  rsRailgunTxid :: string
  rsTimestamp :: "uint64 option"
  rsBlockNumber :: uint64
  rsCommitmentHash :: string
  rsBlindedCommitment :: string
  rsTokenHash :: string
  rsTokenData :: TokenData
  rsValue :: string
  rsOutputType :: "int option"
  rsWalletSource :: string
  rsMemoText :: string
  rsSenderAddress :: string
  rsRecipientAddress :: string
  rsPOIsPerList :: POIsPerList

record unshieldPOIEventRecord =
  ruTXID :: string
  ruRailgunTxid :: string
  ruBlockNumber :: uint64
  ruCommitmentHash :: string
  ruPOIsPerList :: POIsPerList

record spentPOIEventFileRecords =
  rcSentCommitments :: "sentCommitmentPOIEventRecord list"
  rcUnshieldEvents :: "unshieldPOIEventRecord list"

type_synonym FileSpentPOIEventStore = "spentPOIEventFileRecords fileStore option"

definition recordFromSentCommitmentPOIEvent :: "SentCommitmentPOIStatusInput \<Rightarrow> sentCommitmentPOIEventRecord" where
  "recordFromSentCommitmentPOIEvent e =
     \<lparr>rsTXID = snTXID e, rsRailgunTxid = snRailgunTxid e, rsTimestamp = snTimestamp e, rsBlockNumber = snBlockNumber e,
      rsCommitmentHash = snCommitmentHash e, rsBlindedCommitment = snBlindedCommitment e, rsTokenHash = snTokenHash e,
      rsTokenData = snTokenData e, rsValue = (case snValue e of None \<Rightarrow> [] | Some v \<Rightarrow> decimal v), rsOutputType = snOutputType e,
      rsWalletSource = snWalletSource e, rsMemoText = snMemoText e, rsSenderAddress = snSenderAddress e,
      rsRecipientAddress = snRecipientAddress e, rsPOIsPerList = snPOIsPerList e\<rparr>"

definition sentCommitmentPOIEventFromRecord :: "sentCommitmentPOIEventRecord \<Rightarrow> SentCommitmentPOIStatusInput res" where
  "sentCommitmentPOIEventFromRecord r =
     andThen (if rsValue r \<noteq> [] then (case SetString (rsValue r) 10 of
         None \<Rightarrow> Inl (Errorf ''invalid value %q'' [AStr (rsValue r)]) | Some v \<Rightarrow> Inr (Some v)) else Inr None) (\<lambda>v.
     Inr \<lparr>snTXID = rsTXID r, snRailgunTxid = rsRailgunTxid r, snTimestamp = rsTimestamp r, snBlockNumber = rsBlockNumber r,
      snCommitmentHash = rsCommitmentHash r, snBlindedCommitment = rsBlindedCommitment r, snTokenHash = rsTokenHash r,
      snTokenData = rsTokenData r, snValue = v, snOutputType = rsOutputType r, snWalletSource = rsWalletSource r,
      snMemoText = rsMemoText r, snSenderAddress = rsSenderAddress r, snRecipientAddress = rsRecipientAddress r,
      snPOIsPerList = rsPOIsPerList r\<rparr>)"

definition recordFromUnshieldPOIEvent :: "UnshieldPOIStatusInput \<Rightarrow> unshieldPOIEventRecord" where
  "recordFromUnshieldPOIEvent e =
     \<lparr>ruTXID = usTXID e, ruRailgunTxid = usRailgunTxid e, ruBlockNumber = usBlockNumber e,
      ruCommitmentHash = usCommitmentHash e, ruPOIsPerList = usPOIsPerList e\<rparr>"

definition unshieldFromRecord :: "unshieldPOIEventRecord \<Rightarrow> UnshieldPOIStatusInput" where
  "unshieldFromRecord r =
     \<lparr>usTXID = ruTXID r, usRailgunTxid = ruRailgunTxid r, usBlockNumber = ruBlockNumber r,
      usCommitmentHash = ruCommitmentHash r, usPOIsPerList = ruPOIsPerList r\<rparr>"

text \<open>What \<^verbatim>\<open>json.Unmarshal\<close> reads back of the records that \<^verbatim>\<open>json.Marshal\<close> wrote.\<close>

definition jsonRecords :: "spentPOIEventFileRecords \<Rightarrow> spentPOIEventFileRecords" where
  "jsonRecords r = \<lparr>rcSentCommitments = map (\<lambda>x. x\<lparr>rsPOIsPerList := omitEmpty (rsPOIsPerList x)\<rparr>) (rcSentCommitments r),
     rcUnshieldEvents = map (\<lambda>x. x\<lparr>ruPOIsPerList := omitEmpty (ruPOIsPerList x)\<rparr>) (rcUnshieldEvents r)\<rparr>"

definition recordsFromSpentPOIEventFileState :: "spentPOIEvents \<Rightarrow> spentPOIEventFileRecords" where
  "recordsFromSpentPOIEventFileState state =
     \<lparr>rcSentCommitments = map recordFromSentCommitmentPOIEvent (sortedSentCommitmentPOIEvents (sentCommitments state)),
      rcUnshieldEvents = map recordFromUnshieldPOIEvent (sortedUnshieldPOIEvents (unshieldEvents state))\<rparr>"

definition loadSent :: "nat \<Rightarrow> sentCommitmentPOIEventRecord \<Rightarrow> sentEvents \<Rightarrow> sentEvents res" where
  "loadSent i r m =
     andThen (wrapErr ''sentCommitments[%d]: %w'' [ANat i] (sentCommitmentPOIEventFromRecord r)) (\<lambda>event.
     andThen (wrapErr ''sentCommitments[%d]: %w'' [ANat i] (sentCommitmentPOIEventKey event)) (\<lambda>key. Inr (gput key event m)))"

definition loadUnshield :: "nat \<Rightarrow> unshieldPOIEventRecord \<Rightarrow> unshieldEvents \<Rightarrow> unshieldEvents res" where
  "loadUnshield i r m =
     andThen (wrapErr ''unshieldEvents[%d]: %w'' [ANat i] (unshieldPOIEventKey (unshieldFromRecord r))) (\<lambda>key.
     Inr (gput key (unshieldFromRecord r) m))"

definition spentPOIEventFileStateFromRecords :: "spentPOIEventFileRecords \<Rightarrow> spentPOIEvents res" where
  "spentPOIEventFileStateFromRecords records =
     andThen (foldResI 0 loadSent (rcSentCommitments records) []) (\<lambda>sent.
     andThen (foldResI 0 loadUnshield (rcUnshieldEvents records) []) (\<lambda>unshields.
     Inr \<lparr>sentCommitments = sent, unshieldEvents = unshields\<rparr>))"

definition FileSpentPOIEventStore_loadLocked :: "spentPOIEventFileRecords fileStore \<Rightarrow> spentPOIEvents res" where
  "FileSpentPOIEventStore_loadLocked store =
     (if Path store = [] then Err ''spent poi event store file path is required''
      else readFile (fsFile store) \<lparr>sentCommitments = [], unshieldEvents = []\<rparr> spentPOIEventFileStateFromRecords)"

definition FileSpentPOIEventStore_load :: "FileSpentPOIEventStore \<Rightarrow> spentPOIEvents res" where
  "FileSpentPOIEventStore_load store = notNil spentStoreRequired store FileSpentPOIEventStore_loadLocked"

definition FileSpentPOIEventStore_saveLocked ::
  "saveEnv \<Rightarrow> spentPOIEventFileRecords fileStore \<Rightarrow> spentPOIEvents \<Rightarrow> spentPOIEventFileRecords fileStore res" where
  "FileSpentPOIEventStore_saveLocked env store state =
     (if Path store = [] then Err ''spent poi event store file path is required''
      else andThen (writeFile env (jsonRecords (recordsFromSpentPOIEventFileState state))) (\<lambda>f. Inr (store\<lparr>fsFile := f\<rparr>)))"

definition FileSpentPOIEventStore_update ::
  "saveEnv \<Rightarrow> FileSpentPOIEventStore \<Rightarrow> (spentPOIEvents \<Rightarrow> spentPOIEvents) \<Rightarrow> FileSpentPOIEventStore res" where
  "FileSpentPOIEventStore_update env store upd =
     notNil spentStoreRequired store (\<lambda>s.
     andThen (FileSpentPOIEventStore_loadLocked s) (\<lambda>state.
     andThen (FileSpentPOIEventStore_saveLocked env s (upd state)) (\<lambda>s. Inr (Some s))))"

definition FileSpentPOIEventStore_UpsertSentCommitmentPOIEvent ::
  "saveEnv \<Rightarrow> ctx \<Rightarrow> FileSpentPOIEventStore \<Rightarrow> SentCommitmentPOIStatusInput \<Rightarrow> FileSpentPOIEventStore res" where
  "FileSpentPOIEventStore_UpsertSentCommitmentPOIEvent env ctx store event =
     withCtx ctx (andThen (sentCommitmentPOIEventKey event) (\<lambda>key. FileSpentPOIEventStore_update env store (putSent key event)))"

definition FileSpentPOIEventStore_UpsertUnshieldPOIEvent ::
  "saveEnv \<Rightarrow> ctx \<Rightarrow> FileSpentPOIEventStore \<Rightarrow> UnshieldPOIStatusInput \<Rightarrow> FileSpentPOIEventStore res" where
  "FileSpentPOIEventStore_UpsertUnshieldPOIEvent env ctx store event =
     withCtx ctx (andThen (unshieldPOIEventKey event) (\<lambda>key. FileSpentPOIEventStore_update env store (putUnshield key event)))"

definition FileSpentPOIEventStore_ListSentCommitmentPOIEvents ::
  "ctx \<Rightarrow> FileSpentPOIEventStore \<Rightarrow> SentCommitmentPOIStatusInput list res" where
  "FileSpentPOIEventStore_ListSentCommitmentPOIEvents ctx store =
     withCtx ctx (andThen (FileSpentPOIEventStore_load store) (\<lambda>s. Inr (sortedSentCommitmentPOIEvents (sentCommitments s))))"

definition FileSpentPOIEventStore_ListUnshieldPOIEvents ::
  "ctx \<Rightarrow> FileSpentPOIEventStore \<Rightarrow> UnshieldPOIStatusInput list res" where
  "FileSpentPOIEventStore_ListUnshieldPOIEvents ctx store =
     withCtx ctx (andThen (FileSpentPOIEventStore_load store) (\<lambda>s. Inr (sortedUnshieldPOIEvents (unshieldEvents s))))"

definition FileSpentPOIEventStore_MarkProofSubmitted ::
  "saveEnv \<Rightarrow> ctx \<Rightarrow> FileSpentPOIEventStore \<Rightarrow> SubmittedPreTransactionPOI list \<Rightarrow> FileSpentPOIEventStore res" where
  "FileSpentPOIEventStore_MarkProofSubmitted env ctx store submissions =
     withCtx ctx (FileSpentPOIEventStore_update env store (markAll (submittedPOIListKeys submissions)))"

definition FileSpentPOIEventStore_RollbackToBlock ::
  "saveEnv \<Rightarrow> ctx \<Rightarrow> FileSpentPOIEventStore \<Rightarrow> uint64 \<Rightarrow> FileSpentPOIEventStore res" where
  "FileSpentPOIEventStore_RollbackToBlock env ctx store fromBlock =
     withCtx ctx (FileSpentPOIEventStore_update env store (rollbackEvents fromBlock))"

section \<open>Keys and listings\<close>

interpretation sentOrder: slice_less sentLess
proof -
  have eq: "sentLess = (\<lambda>a b. (snBlockNumber a, snTXID a, snRailgunTxid a, snCommitmentHash a, snBlindedCommitment a)
      < (snBlockNumber b, snTXID b, snRailgunTxid b, snCommitmentHash b, snBlindedCommitment b))"
    by (intro ext) (auto simp: sentLess_def less_prod_simp)
  show "slice_less sentLess"
    unfolding eq by (rule slice_less_key)
qed

interpretation unshieldOrder: slice_less unshieldLess
proof -
  have eq: "unshieldLess = (\<lambda>a b. (usBlockNumber a, usTXID a, usRailgunTxid a, usCommitmentHash a)
      < (usBlockNumber b, usTXID b, usRailgunTxid b, usCommitmentHash b))"
    by (intro ext) (auto simp: unshieldLess_def less_prod_simp)
  show "slice_less unshieldLess"
    unfolding eq by (rule slice_less_key)
qed

definition sentKey :: "SentCommitmentPOIStatusInput \<Rightarrow> string" where
  "sentKey e = (case sentCommitmentPOIEventKey e of Inl _ \<Rightarrow> [] | Inr k \<Rightarrow> k)"

definition unshieldKey :: "UnshieldPOIStatusInput \<Rightarrow> string" where
  "unshieldKey e = (case unshieldPOIEventKey e of Inl _ \<Rightarrow> [] | Inr k \<Rightarrow> k)"

lemma sent_tie:
  assumes "\<not> sentLess x y" and "\<not> sentLess y x"
  shows "snBlockNumber x = snBlockNumber y" "snTXID x = snTXID y" "snRailgunTxid x = snRailgunTxid y"
    "snCommitmentHash x = snCommitmentHash y" "snBlindedCommitment x = snBlindedCommitment y"
  using assms unfolding sentLess_def by (simp_all split: if_splits)

lemma unshield_tie:
  assumes "\<not> unshieldLess x y" and "\<not> unshieldLess y x"
  shows "usBlockNumber x = usBlockNumber y" "usTXID x = usTXID y" "usRailgunTxid x = usRailgunTxid y"
    "usCommitmentHash x = usCommitmentHash y"
  using assms unfolding unshieldLess_def by (simp_all split: if_splits)

lemma same_keys:
  "\<not> sentLess x y \<Longrightarrow> \<not> sentLess y x \<Longrightarrow> sentKey x = sentKey y"
  "\<not> unshieldLess u v \<Longrightarrow> \<not> unshieldLess v u \<Longrightarrow> unshieldKey u = unshieldKey v"
  using sent_tie [of x y] unshield_tie [of u v]
  by (simp_all add: sentKey_def sentCommitmentPOIEventKey_def unshieldKey_def unshieldPOIEventKey_def)

definition named :: "('e \<Rightarrow> string res) \<Rightarrow> (string, 'e) gomap \<Rightarrow> bool" where
  "named key m \<longleftrightarrow> wfmap m \<and> (\<forall>(k, e) \<in> set m. key e = Inr k)"

lemma named_Nil [simp]: "named key []"
  by (simp add: named_def)

lemma named_gput: "named key m \<Longrightarrow> key e = Inr k \<Longrightarrow> named key (gput k e m)"
  using gput_set [of m _ k e] unfolding named_def by fastforce

lemma named_gkeep: "named key m \<Longrightarrow> named key (gkeep p m)"
  unfolding named_def by (auto simp: gkeep_def distinct_map intro: inj_on_subset)

lemma named_gmap: "(\<And>e. key (f e) = key e) \<Longrightarrow> named key m \<Longrightarrow> named key (gmap f m)"
  unfolding named_def map_fst_gmap by (auto simp: gmap_def)

lemma named_loadBy: "named key m \<Longrightarrow> \<forall>e \<in> set es. key e = Inr (k e) \<Longrightarrow> named key (loadBy k es m)"
  by (induction es arbitrary: m) (simp_all add: named_gput)

definition goodStore :: "spentPOIEvents \<Rightarrow> bool" where
  "goodStore s \<longleftrightarrow> named sentCommitmentPOIEventKey (sentCommitments s) \<and> named unshieldPOIEventKey (unshieldEvents s)"

lemma goodStore_keyed:
  "goodStore s \<Longrightarrow> keyedMap sentKey (sentCommitments s)"
  "goodStore s \<Longrightarrow> keyedMap unshieldKey (unshieldEvents s)"
  by (auto simp: goodStore_def named_def keyedMap_def sentKey_def unshieldKey_def split: sum.splits)

lemma goodStore_keys:
  "goodStore s \<Longrightarrow> e \<in> set (sortedSentCommitmentPOIEvents (sentCommitments s)) \<Longrightarrow> sentCommitmentPOIEventKey e = Inr (sentKey e)"
  "goodStore s \<Longrightarrow> u \<in> set (sortedUnshieldPOIEvents (unshieldEvents s)) \<Longrightarrow> unshieldPOIEventKey u = Inr (unshieldKey u)"
  by (auto simp: goodStore_def named_def sortedSentCommitmentPOIEvents_def sortedUnshieldPOIEvents_def sentKey_def unshieldKey_def)

section \<open>Loading what was saved\<close>

definition normalSent :: "SentCommitmentPOIStatusInput \<Rightarrow> SentCommitmentPOIStatusInput" where
  "normalSent e = e\<lparr>snPOIsPerList := omitEmpty (snPOIsPerList e)\<rparr>"

definition normalUnshield :: "UnshieldPOIStatusInput \<Rightarrow> UnshieldPOIStatusInput" where
  "normalUnshield e = e\<lparr>usPOIsPerList := omitEmpty (usPOIsPerList e)\<rparr>"

lemma normal_key [simp]:
  "sentCommitmentPOIEventKey (normalSent e) = sentCommitmentPOIEventKey e" "sentKey (normalSent e) = sentKey e"
  "unshieldPOIEventKey (normalUnshield u) = unshieldPOIEventKey u" "unshieldKey (normalUnshield u) = unshieldKey u"
  "sentLess (normalSent e) (normalSent f) = sentLess e f" "unshieldLess (normalUnshield u) (normalUnshield v) = unshieldLess u v"
  "snBlockNumber (normalSent e) = snBlockNumber e" "usBlockNumber (normalUnshield u) = usBlockNumber u"
  by (simp_all add: normalSent_def normalUnshield_def sentKey_def unshieldKey_def sentCommitmentPOIEventKey_def
      unshieldPOIEventKey_def sentLess_def unshieldLess_def)

lemma normal_twice [simp]: "normalSent (normalSent e) = normalSent e" "normalUnshield (normalUnshield u) = normalUnshield u"
  by (simp_all add: normalSent_def normalUnshield_def omitEmpty_def)

lemma markPOIs_omitEmpty [simp]: "markPOIsProofSubmitted (omitEmpty p) ks = markPOIsProofSubmitted p ks"
  by (simp add: markPOIsProofSubmitted_def omitEmpty_def)

lemma mark_normal [simp]:
  "markSent ks (normalSent e) = markSent ks e" "markUnshield ks (normalUnshield u) = markUnshield ks u"
  by (simp_all add: markSent_def markUnshield_def normalSent_def normalUnshield_def)

lemma mark_key [simp]:
  "sentCommitmentPOIEventKey (markSent ks e) = sentCommitmentPOIEventKey e"
  "unshieldPOIEventKey (markUnshield ks u) = unshieldPOIEventKey u"
  "sentLess (markSent ks e) (markSent ks f) = sentLess e f" "unshieldLess (markUnshield ks u) (markUnshield ks v) = unshieldLess u v"
  by (simp_all add: markSent_def markUnshield_def sentCommitmentPOIEventKey_def unshieldPOIEventKey_def sentLess_def unshieldLess_def)

lemma decimal_not_Nil [simp]: "decimal v \<noteq> []"
  by (simp add: decimal_def)

lemma sent_record_roundtrip:
  "sentCommitmentPOIEventFromRecord ((recordFromSentCommitmentPOIEvent e)\<lparr>rsPOIsPerList := omitEmpty (snPOIsPerList e)\<rparr>) = Inr (normalSent e)"
  by (cases e, cases "snValue e")
     (simp_all add: sentCommitmentPOIEventFromRecord_def recordFromSentCommitmentPOIEvent_def normalSent_def)

lemma unshield_record_roundtrip:
  "unshieldFromRecord ((recordFromUnshieldPOIEvent u)\<lparr>ruPOIsPerList := omitEmpty (usPOIsPerList u)\<rparr>) = normalUnshield u"
  by (simp add: unshieldFromRecord_def recordFromUnshieldPOIEvent_def normalUnshield_def)

lemma record_pois [simp]:
  "rsPOIsPerList (recordFromSentCommitmentPOIEvent e) = snPOIsPerList e" "ruPOIsPerList (recordFromUnshieldPOIEvent u) = usPOIsPerList u"
  by (simp_all add: recordFromSentCommitmentPOIEvent_def recordFromUnshieldPOIEvent_def)

lemma load_sent:
  "\<forall>e \<in> set es. sentCommitmentPOIEventKey e = Inr (sentKey e) \<Longrightarrow>
   foldResI i loadSent (map ((\<lambda>x. x\<lparr>rsPOIsPerList := omitEmpty (rsPOIsPerList x)\<rparr>) \<circ> recordFromSentCommitmentPOIEvent) es) m =
     Inr (loadBy sentKey (map normalSent es) m)"
  by (induction es arbitrary: i m) (simp_all add: loadSent_def sent_record_roundtrip)

lemma load_unshield:
  "\<forall>u \<in> set us. unshieldPOIEventKey u = Inr (unshieldKey u) \<Longrightarrow>
   foldResI i loadUnshield (map ((\<lambda>x. x\<lparr>ruPOIsPerList := omitEmpty (ruPOIsPerList x)\<rparr>) \<circ> recordFromUnshieldPOIEvent) us) m =
     Inr (loadBy unshieldKey (map normalUnshield us) m)"
  by (induction us arbitrary: i m) (simp_all add: loadUnshield_def unshield_record_roundtrip)

text \<open>Two stores hold the same events up to empty maps of statuses.\<close>

definition sameEvents :: "spentPOIEvents \<Rightarrow> spentPOIEvents \<Rightarrow> bool" where
  "sameEvents s t \<longleftrightarrow>
     (\<forall>k. map_option normalSent (gget (sentCommitments s) k) = map_option normalSent (gget (sentCommitments t) k)) \<and>
     (\<forall>k. map_option normalUnshield (gget (unshieldEvents s) k) = map_option normalUnshield (gget (unshieldEvents t) k))"

definition normalEvents :: "spentPOIEvents \<Rightarrow> spentPOIEvents" where
  "normalEvents s = \<lparr>sentCommitments = gmap normalSent (sentCommitments s), unshieldEvents = gmap normalUnshield (unshieldEvents s)\<rparr>"

text \<open>The file holds the events of \<open>s\<close>.\<close>

definition onFileAs :: "spentPOIEvents \<Rightarrow> spentPOIEventFileRecords fileStore \<Rightarrow> bool" where
  "onFileAs s f \<longleftrightarrow> Path f \<noteq> [] \<and> goodStore s \<and> (\<exists>t. FileSpentPOIEventStore_loadLocked f = Inr t \<and> goodStore t \<and>
     (\<forall>k. gget (sentCommitments t) k = map_option normalSent (gget (sentCommitments s) k)) \<and>
     (\<forall>k. gget (unshieldEvents t) k = map_option normalUnshield (gget (unshieldEvents s) k)))"

lemma saved_events:
  assumes good: "goodStore s" "goodStore t" and same: "sameEvents s t" and path: "Path f \<noteq> []"
  shows "\<exists>f'. FileSpentPOIEventStore_saveLocked writable f t = Inr f' \<and> onFileAs s f'"
proof -
  define f' where "f' = f\<lparr>fsFile := FileDoc (jsonRecords (recordsFromSpentPOIEventFileState t))\<rparr>"
  define t' where "t' = \<lparr>sentCommitments = loadBy sentKey (map normalSent (sortedSentCommitmentPOIEvents (sentCommitments t))) [],
    unshieldEvents = loadBy unshieldKey (map normalUnshield (sortedUnshieldPOIEvents (unshieldEvents t))) []\<rparr>"
  have "FileSpentPOIEventStore_saveLocked writable f t = Inr f'"
    using path by (simp add: FileSpentPOIEventStore_saveLocked_def f'_def)
  moreover have "FileSpentPOIEventStore_loadLocked f' = Inr t'"
    using path goodStore_keys [OF good(2)]
    by (simp add: FileSpentPOIEventStore_loadLocked_def f'_def readFile_def jsonRecords_def recordsFromSpentPOIEventFileState_def
        spentPOIEventFileStateFromRecords_def load_sent load_unshield t'_def)
  moreover have "goodStore t'"
    using goodStore_keys [OF good(2)] by (auto simp: goodStore_def t'_def intro!: named_loadBy)
  moreover have "gget (sentCommitments t') k = map_option normalSent (gget (sentCommitments s) k)" for k
    using same gget_reloaded [OF goodStore_keyed(1) [OF good(2)], of normalSent sentLess k]
    by (simp add: t'_def sortedSentCommitmentPOIEvents_def sameEvents_def)
  moreover have "gget (unshieldEvents t') k = map_option normalUnshield (gget (unshieldEvents s) k)" for k
    using same gget_reloaded [OF goodStore_keyed(2) [OF good(2)], of normalUnshield unshieldLess k]
    by (simp add: t'_def sortedUnshieldPOIEvents_def sameEvents_def)
  ultimately show ?thesis
    using good(1) path unfolding onFileAs_def by (auto simp: f'_def)
qed

section \<open>The store on file refines the store in memory\<close>

datatype eventOp =
    PutSent SentCommitmentPOIStatusInput
  | PutUnshield UnshieldPOIStatusInput
  | MarkSubmitted "SubmittedPreTransactionPOI list"
  | RollbackEvents uint64

fun memoryEventStep :: "eventOp \<Rightarrow> MemorySpentPOIEventStore \<Rightarrow> MemorySpentPOIEventStore res" where
  "memoryEventStep (PutSent e) s = MemorySpentPOIEventStore_UpsertSentCommitmentPOIEvent None s e"
| "memoryEventStep (PutUnshield u) s = MemorySpentPOIEventStore_UpsertUnshieldPOIEvent None s u"
| "memoryEventStep (MarkSubmitted subs) s = MemorySpentPOIEventStore_MarkProofSubmitted None s subs"
| "memoryEventStep (RollbackEvents b) s = MemorySpentPOIEventStore_RollbackToBlock None s b"

fun fileEventStep :: "eventOp \<Rightarrow> FileSpentPOIEventStore \<Rightarrow> FileSpentPOIEventStore res" where
  "fileEventStep (PutSent e) s = FileSpentPOIEventStore_UpsertSentCommitmentPOIEvent writable None s e"
| "fileEventStep (PutUnshield u) s = FileSpentPOIEventStore_UpsertUnshieldPOIEvent writable None s u"
| "fileEventStep (MarkSubmitted subs) s = FileSpentPOIEventStore_MarkProofSubmitted writable None s subs"
| "fileEventStep (RollbackEvents b) s = FileSpentPOIEventStore_RollbackToBlock writable None s b"

text \<open>The update that a call makes, if its event has an identifier.\<close>

fun eventUpdate :: "eventOp \<Rightarrow> (spentPOIEvents \<Rightarrow> spentPOIEvents) res" where
  "eventUpdate (PutSent e) = andThen (sentCommitmentPOIEventKey e) (\<lambda>key. Inr (putSent key e))"
| "eventUpdate (PutUnshield u) = andThen (unshieldPOIEventKey u) (\<lambda>key. Inr (putUnshield key u))"
| "eventUpdate (MarkSubmitted subs) = Inr (markAll (submittedPOIListKeys subs))"
| "eventUpdate (RollbackEvents b) = Inr (rollbackEvents b)"

lemma event_steps:
  "memoryEventStep op (Some s) = andThen (eventUpdate op) (\<lambda>u. Inr (Some (u s)))"
  "fileEventStep op (Some f) = andThen (eventUpdate op) (FileSpentPOIEventStore_update writable (Some f))"
  by (cases op; auto simp: MemorySpentPOIEventStore_UpsertSentCommitmentPOIEvent_def MemorySpentPOIEventStore_UpsertUnshieldPOIEvent_def
      MemorySpentPOIEventStore_MarkProofSubmitted_def MemorySpentPOIEventStore_RollbackToBlock_def
      FileSpentPOIEventStore_UpsertSentCommitmentPOIEvent_def FileSpentPOIEventStore_UpsertUnshieldPOIEvent_def
      FileSpentPOIEventStore_MarkProofSubmitted_def FileSpentPOIEventStore_RollbackToBlock_def andThen_def split: sum.splits)+

lemma update_good:
  assumes "goodStore s" and "eventUpdate op = Inr u"
  shows "goodStore (u s)"
  using assms
  by (cases op) (auto simp: goodStore_def putSent_def putUnshield_def markAll_def rollbackEvents_def res_elims
      intro!: named_gput named_gmap named_gkeep)

lemma goodStore_wf: "goodStore s \<Longrightarrow> wfmap (sentCommitments s) \<and> wfmap (unshieldEvents s)"
  by (simp add: goodStore_def named_def)

lemma update_same:
  assumes "goodStore s" and "goodStore t" and same: "sameEvents s t" and u: "eventUpdate op = Inr u"
  shows "sameEvents (u s) (u t)"
proof (cases op)
  case (MarkSubmitted subs)
  have factor: "map_option normalSent (map_option (markSent ks) x) = map_option (normalSent \<circ> markSent ks) (map_option normalSent x)"
      "map_option normalUnshield (map_option (markUnshield ks) y) = map_option (normalUnshield \<circ> markUnshield ks) (map_option normalUnshield y)"
    for ks x y
    by (simp_all add: option.map_comp comp_def)
  have "u = markAll (submittedPOIListKeys subs)"
    using u MarkSubmitted by simp
  then show ?thesis
    using same unfolding sameEvents_def markAll_def by (simp only: spentPOIEvents.simps gget_gmap factor simp_thms)
next
  case (RollbackEvents b)
  define keepSent where "keepSent x = (case x of None \<Rightarrow> None | Some e \<Rightarrow> if \<not> b \<le> snBlockNumber e then Some e else None)" for x :: "SentCommitmentPOIStatusInput option"
  define keepUn where "keepUn x = (case x of None \<Rightarrow> None | Some e \<Rightarrow> if \<not> b \<le> usBlockNumber e then Some e else None)" for x :: "UnshieldPOIStatusInput option"
  have "map_option normalSent (keepSent x) = keepSent (map_option normalSent x)"
      "map_option normalUnshield (keepUn y) = keepUn (map_option normalUnshield y)" for x y
    by (simp_all add: keepSent_def keepUn_def split: option.splits)
  moreover have "u = rollbackEvents b"
    using u RollbackEvents by simp
  ultimately show ?thesis
    using same goodStore_wf [OF assms(1)] goodStore_wf [OF assms(2)] unfolding sameEvents_def rollbackEvents_def
    by (simp add: gget_gkeep flip: keepSent_def keepUn_def)
qed (use same u in \<open>auto simp: sameEvents_def putSent_def putUnshield_def gget_gput res_elims\<close>)

definition eventsMirror :: "MemorySpentPOIEventStore \<Rightarrow> FileSpentPOIEventStore \<Rightarrow> bool" where
  "eventsMirror store f \<longleftrightarrow> (\<exists>s r. store = Some s \<and> f = Some r \<and> onFileAs s r)"

interpretation spentStores: mirrored_store memoryEventStep fileEventStep "\<lambda>_. True" eventsMirror
proof (unfold_locales, goal_cases)
  case (1 store f op)
  then obtain s r where sr: "store = Some s" "f = Some r" "onFileAs s r"
    unfolding eventsMirror_def by blast
  then obtain t where t: "FileSpentPOIEventStore_loadLocked r = Inr t" "goodStore t" "goodStore s" "Path r \<noteq> []"
      and get: "\<forall>k. gget (sentCommitments t) k = map_option normalSent (gget (sentCommitments s) k)"
        "\<forall>k. gget (unshieldEvents t) k = map_option normalUnshield (gget (unshieldEvents s) k)"
    unfolding onFileAs_def by blast
  have same: "sameEvents s t"
    using get by (simp add: sameEvents_def option.map_comp comp_def)
  show ?case
  proof (cases "eventUpdate op")
    case (Inr u)
    obtain r' where "FileSpentPOIEventStore_saveLocked writable r (u t) = Inr r'" "onFileAs (u s) r'"
      using saved_events [OF update_good [OF t(3) Inr] update_good [OF t(2) Inr] update_same [OF t(3,2) same Inr] t(4)] by blast
    then show ?thesis
      unfolding sr event_steps Inr by (simp add: FileSpentPOIEventStore_update_def t(1) eventsMirror_def)
  qed (simp add: sr event_steps)
qed

text \<open>A store that mirrors another lists the same events.\<close>

lemma mirrored_listing:
  assumes "eventsMirror (Some s) f"
  shows "FileSpentPOIEventStore_ListSentCommitmentPOIEvents None f = Inr (map normalSent (sortedSentCommitmentPOIEvents (sentCommitments s)))"
    and "FileSpentPOIEventStore_ListUnshieldPOIEvents None f = Inr (map normalUnshield (sortedUnshieldPOIEvents (unshieldEvents s)))"
proof -
  obtain r t where f: "f = Some r" and t: "FileSpentPOIEventStore_loadLocked r = Inr t" "goodStore t" "goodStore s"
      and get: "\<And>k. gget (sentCommitments t) k = map_option normalSent (gget (sentCommitments s) k)"
        "\<And>k. gget (unshieldEvents t) k = map_option normalUnshield (gget (unshieldEvents s) k)"
    using assms unfolding eventsMirror_def onFileAs_def by blast
  have "sortedSentCommitmentPOIEvents (sentCommitments t) = sortedSentCommitmentPOIEvents (gmap normalSent (sentCommitments s))"
    unfolding sortedSentCommitmentPOIEvents_def
  proof (rule sorted_listing_cong [OF sentOrder.slice_less_axioms goodStore_keyed(1) [OF t(2)]])
    show "keyedMap sentKey (gmap normalSent (sentCommitments s))"
      by (rule keyedMap_gmap [OF _ goodStore_keyed(1) [OF t(3)]]) simp
  qed (simp add: get gget_gmap, rule same_keys(1))
  also have "\<dots> = map normalSent (sortedSentCommitmentPOIEvents (sentCommitments s))"
    unfolding sortedSentCommitmentPOIEvents_def map_snd_gmap by (rule sortBy_map) simp
  finally show "FileSpentPOIEventStore_ListSentCommitmentPOIEvents None f = Inr (map normalSent (sortedSentCommitmentPOIEvents (sentCommitments s)))"
    by (simp add: FileSpentPOIEventStore_ListSentCommitmentPOIEvents_def FileSpentPOIEventStore_load_def f t(1))
  have "sortedUnshieldPOIEvents (unshieldEvents t) = sortedUnshieldPOIEvents (gmap normalUnshield (unshieldEvents s))"
    unfolding sortedUnshieldPOIEvents_def
  proof (rule sorted_listing_cong [OF unshieldOrder.slice_less_axioms goodStore_keyed(2) [OF t(2)]])
    show "keyedMap unshieldKey (gmap normalUnshield (unshieldEvents s))"
      by (rule keyedMap_gmap [OF _ goodStore_keyed(2) [OF t(3)]]) simp
  qed (simp add: get gget_gmap, rule same_keys(2))
  also have "\<dots> = map normalUnshield (sortedUnshieldPOIEvents (unshieldEvents s))"
    unfolding sortedUnshieldPOIEvents_def map_snd_gmap by (rule sortBy_map) simp
  finally show "FileSpentPOIEventStore_ListUnshieldPOIEvents None f = Inr (map normalUnshield (sortedUnshieldPOIEvents (unshieldEvents s)))"
    by (simp add: FileSpentPOIEventStore_ListUnshieldPOIEvents_def FileSpentPOIEventStore_load_def f t(1))
qed

text \<open>C39: the file store of sent commitments and unshields refines the store in memory.
  Over any sequence of calls on a fresh store, failed ones included, both list the same events in the
  same order, and the next call fails on both with the same error or succeeds on both; an empty map of
  statuses reads back as nil.\<close>

theorem poi_events_file_refines_memory:
  assumes "Path f \<noteq> []" and "fsFile f = FileMissing"
  shows "let m = runOps memoryEventStep ops NewMemorySpentPOIEventStore; r = runOps fileEventStep ops (Some f) in
    FileSpentPOIEventStore_ListSentCommitmentPOIEvents None r =
      andThen (MemorySpentPOIEventStore_ListSentCommitmentPOIEvents None m) (\<lambda>es. Inr (map normalSent es)) \<and>
    FileSpentPOIEventStore_ListUnshieldPOIEvents None r =
      andThen (MemorySpentPOIEventStore_ListUnshieldPOIEvents None m) (\<lambda>us. Inr (map normalUnshield us)) \<and>
    (case memoryEventStep op m of Inl e \<Rightarrow> fileEventStep op r = Inl e | Inr _ \<Rightarrow> isl (fileEventStep op r) = False)"
proof -
  have "eventsMirror NewMemorySpentPOIEventStore (Some f)"
    using assms by (simp add: eventsMirror_def NewMemorySpentPOIEventStore_def onFileAs_def goodStore_def
        FileSpentPOIEventStore_loadLocked_def readFile_def)
  then have run: "eventsMirror (runOps memoryEventStep ops NewMemorySpentPOIEventStore) (runOps fileEventStep ops (Some f))"
    by (rule spentStores.run) simp
  then obtain s where s: "runOps memoryEventStep ops NewMemorySpentPOIEventStore = Some s"
    unfolding eventsMirror_def by blast
  show ?thesis
    unfolding Let_def s mirrored_listing [OF run [unfolded s]]
    using spentStores.outcome [OF run [unfolded s]]
    by (simp add: MemorySpentPOIEventStore_ListSentCommitmentPOIEvents_def MemorySpentPOIEventStore_ListUnshieldPOIEvents_def)
qed

definition sampleSent :: "string \<Rightarrow> POIsPerList \<Rightarrow> SentCommitmentPOIStatusInput" where
  "sampleSent txid pois =
     \<lparr>snTXID = txid, snRailgunTxid = [], snTimestamp = None, snBlockNumber = 5, snCommitmentHash = [], snBlindedCommitment = ''b'',
      snTokenHash = [], snTokenData = \<lparr>TokenAddress = [], TokenType = 0, TokenSubID = []\<rparr>, snValue = None, snOutputType = None,
      snWalletSource = [], snMemoText = [], snSenderAddress = [], snRecipientAddress = [], snPOIsPerList = pois\<rparr>"

theorem poi_events_file_refines_memory_witness:
  "FileSpentPOIEventStore_ListSentCommitmentPOIEvents None
     (runOps fileEventStep [PutSent (sampleSent ''t'' (Some []))] (Some \<lparr>Path = ''events'', fsFile = FileMissing\<rparr>)) =
   Inr [sampleSent ''t'' None]"
proof -
  have mem: "MemorySpentPOIEventStore_ListSentCommitmentPOIEvents None
      (runOps memoryEventStep [PutSent (sampleSent ''t'' (Some []))] NewMemorySpentPOIEventStore) = Inr [sampleSent ''t'' (Some [])]"
    by (simp add: NewMemorySpentPOIEventStore_def MemorySpentPOIEventStore_UpsertSentCommitmentPOIEvent_def sentCommitmentPOIEventKey_def
        MemorySpentPOIEventStore_ListSentCommitmentPOIEvents_def putSent_def sampleSent_def sortedSentCommitmentPOIEvents_def)
  show ?thesis
    using poi_events_file_refines_memory [of "\<lparr>Path = ''events'', fsFile = FileMissing\<rparr>" "[PutSent (sampleSent ''t'' (Some []))]" "RollbackEvents 0"]
    unfolding Let_def mem by (simp add: normalSent_def sampleSent_def omitEmpty_def)
qed

section \<open>What a submission marks\<close>

lemma markPOIs_status:
  "poiStatus (markPOIsProofSubmitted pois ks) k =
     (if k \<in> set ks \<and> k \<noteq> [] \<and> poiStatus pois k \<noteq> StatusValid then StatusProofSubmitted else poiStatus pois k)"
proof -
  define step where "step listKey m = (if listKey = [] then m else if gget m listKey = Some StatusValid then m
      else gput listKey StatusProofSubmitted m)" for listKey :: string and m :: "(string, string) gomap"
  have valid: "StatusProofSubmitted \<noteq> StatusValid" "StatusValid \<noteq> []"
    by (simp_all add: StatusProofSubmitted_def StatusValid_def)
  have "gget (fold step ks m) k = (if k \<in> set ks \<and> k \<noteq> [] \<and> gget m k \<noteq> Some StatusValid then Some StatusProofSubmitted else gget m k)" for m
    by (induction ks arbitrary: m) (auto simp: step_def gget_gput valid)
  then show ?thesis
    using valid by (auto simp: poiStatus_def markPOIsProofSubmitted_def step_def [abs_def] split: option.splits)
qed

lemma sorted_marked:
  "sortedSentCommitmentPOIEvents (gmap (markSent ks) m) = map (markSent ks) (sortedSentCommitmentPOIEvents m)"
  "sortedUnshieldPOIEvents (gmap (markUnshield ks) m') = map (markUnshield ks) (sortedUnshieldPOIEvents m')"
  unfolding sortedSentCommitmentPOIEvents_def sortedUnshieldPOIEvents_def map_snd_gmap by (simp_all only: sortBy_map mark_key)

text \<open>C40: a submission marks every event of the store, also those of other transactions: the
  lists of events afterwards are those before with each of the submitted lists on ProofSubmitted,
  unless it was Valid, and every other status is kept.\<close>

theorem submission_marks_every_event:
  "\<exists>s'. MemorySpentPOIEventStore_MarkProofSubmitted None (Some s) subs = Inr s' \<and>
     andThen (MemorySpentPOIEventStore_ListSentCommitmentPOIEvents None s') (\<lambda>sent.
       andThen (MemorySpentPOIEventStore_ListUnshieldPOIEvents None s') (\<lambda>unshields. Inr (sent, unshields))) =
     andThen (MemorySpentPOIEventStore_ListSentCommitmentPOIEvents None (Some s)) (\<lambda>sent.
       andThen (MemorySpentPOIEventStore_ListUnshieldPOIEvents None (Some s)) (\<lambda>unshields.
       Inr (ApplySubmittedPreTransactionPOIStatuses sent unshields subs))) \<and>
     poiStatus (snPOIsPerList (markSent (submittedPOIListKeys subs) e)) k =
       (if k \<in> set (submittedPOIListKeys subs) \<and> poiStatus (snPOIsPerList e) k \<noteq> StatusValid then StatusProofSubmitted
        else poiStatus (snPOIsPerList e) k)"
proof -
  have "poiStatus (snPOIsPerList (markSent (submittedPOIListKeys subs) e)) k =
       (if k \<in> set (submittedPOIListKeys subs) \<and> poiStatus (snPOIsPerList e) k \<noteq> StatusValid then StatusProofSubmitted
        else poiStatus (snPOIsPerList e) k)"
    by (auto simp: markSent_def markPOIs_status submittedPOIListKeys_def)
  then show ?thesis
    by (simp add: MemorySpentPOIEventStore_MarkProofSubmitted_def MemorySpentPOIEventStore_ListSentCommitmentPOIEvents_def
        MemorySpentPOIEventStore_ListUnshieldPOIEvents_def ApplySubmittedPreTransactionPOIStatuses_def MarkSpentPOIProofSubmitted_def
        markAll_def sorted_marked)
qed

end
