(* ===== verification/Action.thy ===== *)
theory Action
  imports Prelude
begin

text \<open>
  Code that works on several stores and may fail between two of them: an action takes the world and
  returns the world it leaves behind, also when it ends with an error. A call of a store that fails
  leaves the world as it was.
\<close>

named_theorems act_simps \<open>runs of actions\<close>

type_synonym ('w, 'a) act = "'w \<Rightarrow> 'w \<times> 'a res"

definition ret :: "'a \<Rightarrow> ('w, 'a) act" where
  "ret x = (\<lambda>w. (w, Inr x))"

definition lift :: "'a res \<Rightarrow> ('w, 'a) act" where
  "lift m = (\<lambda>w. (w, m))"

definition reads :: "('w \<Rightarrow> 'a res) \<Rightarrow> ('w, 'a) act" where
  "reads f = (\<lambda>w. (w, f w))"

definition call :: "('w \<Rightarrow> 'w res) \<Rightarrow> ('w, unit) act" where
  "call f = (\<lambda>w. case f w of Inl e \<Rightarrow> (w, Inl e) | Inr w' \<Rightarrow> (w', Inr ()))"

definition bind :: "('w, 'a) act \<Rightarrow> ('a \<Rightarrow> ('w, 'b) act) \<Rightarrow> ('w, 'b) act" where
  "bind m f = (\<lambda>w. case m w of (w', Inl e) \<Rightarrow> (w', Inl e) | (w', Inr x) \<Rightarrow> f x w')"

text \<open>The call of a method that a store may lack.\<close>

definition ifSome :: "'i option \<Rightarrow> ('i \<Rightarrow> ('w, 'a) act) \<Rightarrow> 'a \<Rightarrow> ('w, 'a) act" where
  "ifSome i f x = (case i of None \<Rightarrow> ret x | Some iface \<Rightarrow> f iface)"

fun foldAct :: "('x \<Rightarrow> 's \<Rightarrow> ('w, 's) act) \<Rightarrow> 'x list \<Rightarrow> 's \<Rightarrow> ('w, 's) act" where
  "foldAct f [] s = ret s"
| "foldAct f (x # xs) s = bind (f x s) (foldAct f xs)"

lemma run_ret [act_simps]: "ret x w = (w, Inr x)"
  by (simp add: ret_def)

lemma run_lift [act_simps]: "lift m w = (w, m)"
  by (simp add: lift_def)

lemma run_reads [act_simps]: "reads f w = (w, f w)"
  by (simp add: reads_def)

lemma run_call:
  "f w = Inl e \<Longrightarrow> call f w = (w, Inl e)"
  "f w = Inr w' \<Longrightarrow> call f w = (w', Inr ())"
  by (simp_all add: call_def)

lemma run_bind:
  "m w = (w', Inl e) \<Longrightarrow> bind m f w = (w', Inl e)"
  "m w = (w', Inr x) \<Longrightarrow> bind m f w = f x w'"
  by (simp_all add: bind_def)

lemma run_ifSome [act_simps]:
  "ifSome None f x w = (w, Inr x)"
  "ifSome (Some i) f x w = f i w"
  by (simp_all add: ifSome_def ret_def)

lemma bind_ret [act_simps]: "bind (ret x) f = f x"
  by (simp add: bind_def ret_def fun_eq_iff)

lemma bind_lift [act_simps]:
  "bind (lift (Inr x)) f = f x"
  "bind (lift (Inl e)) f = lift (Inl e)"
  by (simp_all add: bind_def lift_def fun_eq_iff)

lemma bind_assoc: "bind (bind m f) g = bind m (\<lambda>x. bind (f x) g)"
  by (auto simp: bind_def fun_eq_iff split: prod.splits sum.splits)

lemma bind_Inr: "bind m f w = (w', Inr y) \<longleftrightarrow> (\<exists>w1 x. m w = (w1, Inr x) \<and> f x w1 = (w', Inr y))"
  by (auto simp: bind_def split: prod.splits sum.splits)

lemma call_Inr: "call f w = (w', Inr u) \<longleftrightarrow> f w = Inr w'"
  by (cases "f w") (auto simp: call_def)

lemma foldAct_append: "foldAct f (xs @ ys) s = bind (foldAct f xs s) (foldAct f ys)"
proof (induction xs arbitrary: s)
  case (Cons x xs)
  have "foldAct f (xs @ ys) = (\<lambda>s. bind (foldAct f xs s) (foldAct f ys))" by (rule ext) (rule Cons.IH)
  then show ?case by (simp add: bind_assoc)
qed (simp add: bind_ret)

text \<open>A property of the items done so far, the state and the world, up to success and up to any end.\<close>

lemma foldAct_run:
  assumes "foldAct f xs s w = (w', Inr s')" and "I [] s w"
    and step: "\<And>ys x s w w' s'. I ys s w \<Longrightarrow> x \<in> set xs \<Longrightarrow> f x s w = (w', Inr s') \<Longrightarrow> I (ys @ [x]) s' w'"
  shows "I xs s' w'"
proof -
  have "set zs \<subseteq> set xs \<Longrightarrow> foldAct f zs s w = (w', Inr s') \<Longrightarrow> I ys s w \<Longrightarrow> I (ys @ zs) s' w'" for zs ys s w
  proof (induction zs arbitrary: ys s w)
    case (Cons z zs)
    obtain w1 s1 where f: "f z s w = (w1, Inr s1)" "foldAct f zs s1 w1 = (w', Inr s')"
      using Cons.prems(2) by (auto simp: bind_Inr)
    show ?case
      using Cons.IH [OF _ f(2) step [OF Cons.prems(3) _ f(1)]] Cons.prems(1) by simp
  qed (simp add: run_ret)
  from this [OF subset_refl assms(1,2)] show ?thesis by simp
qed

lemma foldAct_end:
  assumes "foldAct f xs s w = (w', r)" and "I [] w"
    and step: "\<And>ys x s w w' s'. I ys w \<Longrightarrow> x \<in> set xs \<Longrightarrow> f x s w = (w', Inr s') \<Longrightarrow> I (ys @ [x]) w'"
    and stop: "\<And>ys zs x s w w' e. I ys w \<Longrightarrow> xs = ys @ x # zs \<Longrightarrow> f x s w = (w', Inl e) \<Longrightarrow> J w'"
    and whole: "\<And>w. I xs w \<Longrightarrow> J w"
  shows "J w'"
proof -
  have "xs = ys @ zs \<Longrightarrow> foldAct f zs s w = (w', r) \<Longrightarrow> I ys w \<Longrightarrow> J w'" for zs ys s w
  proof (induction zs arbitrary: ys s w)
    case Nil
    then show ?case using whole by (simp add: run_ret)
  next
    case (Cons z zs)
    show ?case
    proof (cases "f z s w")
      case (Pair w1 s1)
      show ?thesis
      proof (cases s1)
        case (Inl e)
        then show ?thesis
          using stop [OF Cons.prems(3,1), of s w1 e] Pair Cons.prems(2) by (simp add: run_bind)
      next
        case (Inr s2)
        then show ?thesis
          using Cons.IH [of "ys @ [z]" s2 w1] step [OF Cons.prems(3)] Pair Cons.prems by (simp add: run_bind)
      qed
    qed
  qed
  from this [of "[]"] show ?thesis using assms(1,2) by simp
qed

end
