(* ===== verification/Importer.thy ===== *)
theory Importer
  imports Action TransactNote Address TxidTree UtxoTree PoiEvents EventsV2
begin

text \<open>
  Models \<^verbatim>\<open>pkg/wallet/importer.go\<close>: the events of a scan become the wallet's transaction
  outputs, spends and POI events. The stores are interfaces over one world \<open>'w\<close>, so that several
  of them may share state; a store operation that fails leaves the world as it was, and an import that
  fails leaves what its earlier calls did. \<open>DecryptShieldRandom\<close> is in
  \<^verbatim>\<open>pkg/transaction/shield.go\<close>.
\<close>

section \<open>Interfaces\<close>

record 'w reorgStateIface =
  rsMarkTXOSpentAtBlock :: "ctx \<Rightarrow> 'w \<Rightarrow> string \<Rightarrow> string \<Rightarrow> uint64 \<Rightarrow> 'w res"
  rsRollbackToBlock :: "ctx \<Rightarrow> 'w \<Rightarrow> uint64 \<Rightarrow> 'w res"

text \<open>\<^verbatim>\<open>StateStore\<close>, with the methods of \<^verbatim>\<open>ReorgStateStore\<close> if the store has them.\<close>

record 'w stateIface =
  ssUpsertTXO :: "ctx \<Rightarrow> 'w \<Rightarrow> StoredTXO \<Rightarrow> 'w res"
  ssGetTXO :: "ctx \<Rightarrow> 'w \<Rightarrow> string \<Rightarrow> StoredTXO option res"
  ssListTXOs :: "ctx \<Rightarrow> 'w \<Rightarrow> StoredTXO list res"
  ssMarkTXOSpent :: "ctx \<Rightarrow> 'w \<Rightarrow> string \<Rightarrow> string \<Rightarrow> 'w res"
  ssUpdateTXOPOIs :: "ctx \<Rightarrow> 'w \<Rightarrow> string \<Rightarrow> POIsPerList \<Rightarrow> 'w res"
  ssTokenBalances :: "ctx \<Rightarrow> 'w \<Rightarrow> Manager option \<Rightarrow> string list \<Rightarrow> TokenBalances res"
  ssReorg :: "'w reorgStateIface option"

record 'w spentIface =
  spUpsertSentCommitmentPOIEvent :: "ctx \<Rightarrow> 'w \<Rightarrow> SentCommitmentPOIStatusInput \<Rightarrow> 'w res"
  spUpsertUnshieldPOIEvent :: "ctx \<Rightarrow> 'w \<Rightarrow> UnshieldPOIStatusInput \<Rightarrow> 'w res"
  spListSentCommitmentPOIEvents :: "ctx \<Rightarrow> 'w \<Rightarrow> SentCommitmentPOIStatusInput list res"
  spListUnshieldPOIEvents :: "ctx \<Rightarrow> 'w \<Rightarrow> UnshieldPOIStatusInput list res"
  spMarkProofSubmitted :: "ctx \<Rightarrow> 'w \<Rightarrow> SubmittedPreTransactionPOI list \<Rightarrow> 'w res"
  spRollbackToBlock :: "(ctx \<Rightarrow> 'w \<Rightarrow> uint64 \<Rightarrow> 'w res) option"

text \<open>The two types of commitments index through \<open>utStoreV2\<close> and \<open>utStoreV3\<close>; the other
  methods are those of the optional interfaces of the store.\<close>

record 'w utxoTreeIface =
  utStoreV2 :: "('w, CommitmentEvent) storeIface"
  utStoreV3 :: "('w, V3CommitmentEvent) storeIface"
  utRoot :: "ctx \<Rightarrow> 'w \<Rightarrow> uint64 \<Rightarrow> string res"
  utProof :: "ctx \<Rightarrow> 'w \<Rightarrow> uint64 \<Rightarrow> uint64 \<Rightarrow> MerkleProof res"
  utUpsertNullifiers :: "(ctx \<Rightarrow> 'w \<Rightarrow> Nullifier list \<Rightarrow> 'w \<times> nat res) option"
  utUpsertUnshieldEvents :: "(ctx \<Rightarrow> 'w \<Rightarrow> UnshieldStoredEvent list \<Rightarrow> bool \<Rightarrow> 'w \<times> nat res) option"
  utListV2Commitments :: "(ctx \<Rightarrow> 'w \<Rightarrow> Commitment list res) option"
  utListV3Commitments :: "(ctx \<Rightarrow> 'w \<Rightarrow> V3Commitment list res) option"
  utListNullifiers :: "(ctx \<Rightarrow> 'w \<Rightarrow> Nullifier list res) option"
  utListUnshieldEvents :: "(ctx \<Rightarrow> 'w \<Rightarrow> UnshieldStoredEvent list res) option"
  utRollbackToBlock :: "(ctx \<Rightarrow> 'w \<Rightarrow> uint64 \<Rightarrow> 'w res) option"

record 'w transactionIface =
  tsUpsertTransaction :: "ctx \<Rightarrow> 'w \<Rightarrow> Transaction \<Rightarrow> 'w res"
  tsGetByRailgunTxid :: "ctx \<Rightarrow> 'w \<Rightarrow> string \<Rightarrow> Transaction option res"
  tsListTransactions :: "ctx \<Rightarrow> 'w \<Rightarrow> Transaction list res"
  tsRollbackToBlock :: "(ctx \<Rightarrow> 'w \<Rightarrow> uint64 \<Rightarrow> 'w res) option"

record 'w merkleTreeIface =
  mtStore :: "'w merkleIface"
  mtRollbackToBlock :: "(ctx \<Rightarrow> 'w \<Rightarrow> uint64 \<Rightarrow> 'w res) option"

section \<open>Keys and summaries\<close>

record ScanKeys =
  skMasterPublicKey :: "int option"
  skViewingPrivateKey :: "byte list"
  skViewingPublicKey :: "byte list"
  skNullifyingKey :: "int option"
  skTokenDataByHash :: "(string, TokenData) gomap"

record ImportSummary =
  TXOsImported :: nat
  CommitmentsSkipped :: nat
  SpendsMarked :: nat
  SpendsSkipped :: nat
  RailgunTransactionsIndexed :: nat
  TXIDMerkleLeavesIndexed :: nat
  UTXOMerkleLeavesIndexed :: nat
  NullifierEventsIndexed :: nat
  UnshieldEventsIndexed :: nat
  SentCommitmentPOIEventsIndexed :: nat
  UnshieldPOIEventsIndexed :: nat

definition emptySummary :: ImportSummary where
  "emptySummary = \<lparr>TXOsImported = 0, CommitmentsSkipped = 0, SpendsMarked = 0, SpendsSkipped = 0, RailgunTransactionsIndexed = 0,
     TXIDMerkleLeavesIndexed = 0, UTXOMerkleLeavesIndexed = 0, NullifierEventsIndexed = 0, UnshieldEventsIndexed = 0,
     SentCommitmentPOIEventsIndexed = 0, UnshieldPOIEventsIndexed = 0\<rparr>"

definition validateImportInputs :: "'w stateIface option \<Rightarrow> ScanKeys \<Rightarrow> unit res" where
  "validateImportInputs store keys =
     (if store = None then Err ''state store is required''
      else if skMasterPublicKey keys = None then Err ''master public key is required''
      else if skViewingPrivateKey keys = [] then Err ''viewing private key is required''
      else if skViewingPublicKey keys = [] then Err ''viewing public key is required''
      else if skNullifyingKey keys = None then Err ''nullifying key is required''
      else Inr ())"

text \<open>\<^verbatim>\<open>firstNonEmpty\<close> and \<^verbatim>\<open>normalizedHex\<close>.\<close>

fun firstNonEmpty :: "string list \<Rightarrow> string" where
  "firstNonEmpty [] = []"
| "firstNonEmpty (v # vs) = (if v \<noteq> [] then v else firstNonEmpty vs)"

definition normalizedHex :: "string \<Rightarrow> string" where
  "normalizedHex value =
     (let value = dropWhile (\<lambda>c. c = CHR ''0'') (TrimPrefix (ToLower value) ''0x'') in if value = [] then ''0'' else value)"

section \<open>Commitments become outputs\<close>

definition currentWalletAddressData :: "ScanKeys \<Rightarrow> TransactNoteAddressData" where
  "currentWalletAddressData keys =
     \<lparr>taMasterPublicKey = the (skMasterPublicKey keys), taViewingPublicKey = skViewingPublicKey keys\<rparr>"

definition encodeTransactNoteAddressData :: "TransactNoteAddressData \<Rightarrow> string res" where
  "encodeTransactNoteAddressData data =
     (if taViewingPublicKey data = [] then Inr []
      else Encode \<lparr>adMasterPublicKey = decimal (taMasterPublicKey data), adViewingPublicKey = BytesToHex (taViewingPublicKey data) False,
        adChain = None, adVersion = AddressVersion\<rparr>)"

definition encodeTransactNoteAddressDataPtr :: "TransactNoteAddressData option \<Rightarrow> string res" where
  "encodeTransactNoteAddressDataPtr data = (case data of None \<Rightarrow> Inr [] | Some d \<Rightarrow> encodeTransactNoteAddressData d)"

text \<open>\<^verbatim>\<open>uint64(i)\<close> of an \<^verbatim>\<open>int\<close> is \<open>word_of_int\<close>.\<close>

definition globalPosition :: "int \<Rightarrow> int \<Rightarrow> uint64 res" where
  "globalPosition tree position =
     (if tree < 0 \<or> position < 0 then Err ''tree and position must be non-negative''
      else let global = GetGlobalTreePosition (word_of_int tree) (word_of_int position)
      in if \<not> isUint64 global then Err ''global tree position exceeds uint64'' else Inr (word_of_int global))"

definition hasHexLetters :: "string \<Rightarrow> bool" where
  "hasHexLetters value \<longleftrightarrow> (\<exists>char \<in> set value. CHR ''a'' \<le> char \<and> char \<le> CHR ''f'' \<or> CHR ''A'' \<le> char \<and> char \<le> CHR ''F'')"

definition shieldPreimageValue :: "string \<Rightarrow> int res" where
  "shieldPreimageValue value =
     (let trimmed = TrimSpace value; stripped = Strip0x trimmed
      in if HasPrefix trimmed ''0x'' \<or> HasPrefix trimmed ''0X'' \<or> length stripped = 32 \<or> hasHexLetters stripped
         then HexToBigInt trimmed else NumberishToBigInt trimmed)"

definition DecryptShieldRandom :: "ciphers \<Rightarrow> string \<Rightarrow> string \<Rightarrow> byte list \<Rightarrow> string res" where
  "DecryptShieldRandom c encrypted0 encrypted1 sharedKey =
     (let bundle0 = Strip0x encrypted0; bundle1 = Strip0x encrypted1
      in if length bundle0 < 64 then Err ''encrypted bundle[0] must contain 16-byte IV and 16-byte tag''
         else if length bundle1 < 32 then Err ''encrypted bundle[1] must contain encrypted random''
         else andThen (AESGCMDecryptHex c \<lparr>gcmIV = take 32 bundle0, gcmTag = Memo.slice 32 64 bundle0, gcmData = [take 32 bundle1]\<rparr>
             (BytesToHex sharedKey False)) (\<lambda>decrypted.
           if length decrypted \<noteq> 1
           then Inl (Errorf ''expected one decrypted random field, got %d'' [ANat (length decrypted)])
           else Inr (decrypted ! 0)))"

text \<open>The fields that identify a commitment, as both conversions pass them on.\<close>

record commitmentHashData =
  chHash :: string
  chTXIDVersion :: string
  chTXID :: string
  chTimestamp :: "uint64 option"
  chBlockNumber :: uint64
  chTree :: int
  chPosition :: int
  chCommitmentType :: string

record shieldCommitmentData = commitmentHashData +
  chPreImage :: "PreImage option"
  chEncryptedBundle :: "string list"
  chShieldKey :: string
  chFee :: string

text \<open>The check of the hash of a commitment: an empty hash is not checked.\<close>

definition hashMatches :: "string \<Rightarrow> string \<Rightarrow> bool res" where
  "hashMatches expected hash =
     (if expected = [] then Inr True
      else andThen (wrapErr ''commitment hash: %w'' [] (FormatHexToByteLength expected 32 False)) (\<lambda>e. Inr (e = hash)))"

text \<open>The nullifier and the blinded commitment of an output at its position.\<close>

definition outputIdentity ::
  "poseidonConstantsRaw \<Rightarrow> ScanKeys \<Rightarrow> string \<Rightarrow> int \<Rightarrow> int \<Rightarrow> int \<Rightarrow> (string \<times> string) res" where
  "outputIdentity raw keys hashHex notePublicKey tree position =
     andThen (globalPosition tree position) (\<lambda>global.
     andThen (Railgun.Nullifier raw (the (skNullifyingKey keys)) global) (\<lambda>nullifier.
     andThen (BigIntToHex (Some nullifier) 32 False) (\<lambda>nullifierHex.
     andThen (BlindedCommitment raw hashHex notePublicKey (GetGlobalTreePosition (word_of_int tree) (word_of_int position))) (\<lambda>blinded.
     Inr (nullifierHex, blinded)))))"

definition txoFromShieldCommitment :: "noteEnv \<Rightarrow> ScanKeys \<Rightarrow> shieldCommitmentData \<Rightarrow> StoredTXO option res" where
  "txoFromShieldCommitment env keys data =
     (case chPreImage data of
        None \<Rightarrow> Inr None
      | Some preImage \<Rightarrow>
     if length (chEncryptedBundle data) \<noteq> 3 \<or> chShieldKey data = [] then Inr None
     else andThen (wrapErr ''shield key: %w'' [] (HexToBytes (chShieldKey data))) (\<lambda>shieldKey.
     case SharedSymmetricKey (neCurve env) (skViewingPrivateKey keys) shieldKey of
        Inl _ \<Rightarrow> Inr None
      | Inr sharedKey \<Rightarrow>
     (case DecryptShieldRandom (neCiphers env) (chEncryptedBundle data ! 0) (chEncryptedBundle data ! 1) sharedKey of
        Inl _ \<Rightarrow> Inr None
      | Inr random \<Rightarrow>
     andThen (NotePublicKey (neConstants env) (the (skMasterPublicKey keys)) random) (\<lambda>notePublicKey.
     andThen (BigIntToHex (Some notePublicKey) 32 False) (\<lambda>notePublicKeyHex.
     andThen (wrapErr ''shield npk: %w'' [] (FormatHexToByteLength (preNPK preImage) 32 False)) (\<lambda>preimageNPK.
     if preimageNPK \<noteq> notePublicKeyHex then Inr None
     else andThen (wrapErr ''shield value: %w'' [] (shieldPreimageValue (preValue preImage))) (\<lambda>v.
     andThen (TokenDataHash (neKeccak env) (preToken preImage)) (\<lambda>tokenHash.
     andThen (NoteHash (neConstants env) notePublicKey tokenHash v) (\<lambda>hash.
     andThen (BigIntToHex (Some hash) 32 False) (\<lambda>hashHex.
     andThen (hashMatches (chHash data) hashHex) (\<lambda>matches.
     if \<not> matches then Inr None
     else andThen (outputIdentity (neConstants env) keys hashHex notePublicKey (chTree data) (chPosition data)) (\<lambda>(nullifierHex, blinded).
     Inr (Some \<lparr>stTXIDVersion = chTXIDVersion data, stTree = word_of_int (chTree data), stPosition = word_of_int (chPosition data),
       stTXID = chTXID data, stTimestamp = chTimestamp data, stBlockNumber = chBlockNumber data, stSpendTXID = [],
       stSpendBlockNumber = None, stNullifier = nullifierHex, stCommitmentHash = hashHex, stNotePublicKey = notePublicKeyHex,
       stNoteRandom = random, stTokenHash = tokenHash, stTokenData = preToken preImage, stValue = Some v, stOutputType = None,
       stWalletSource = [], stMemoText = [], stSenderAddress = [], stRecipientAddress = [], stShieldFee = chFee data,
       stCommitmentType = chCommitmentType data, stPOIsPerList = None, stBlindedCommitment = blinded,
       stTransactCreationRailgunTxid = []\<rparr>)))))))))))))"

definition txoFromDecryptedCommitment ::
  "noteEnv \<Rightarrow> ScanKeys \<Rightarrow> DecryptedTransactNote \<Rightarrow> commitmentHashData \<Rightarrow> StoredTXO option res" where
  "txoFromDecryptedCommitment env keys decrypted data =
     andThen (BigIntToHex (Some (dnHash decrypted)) 32 False) (\<lambda>hash.
     andThen (hashMatches (chHash data) hash) (\<lambda>matches.
     if \<not> matches then Inr None
     else andThen (outputIdentity (neConstants env) keys hash (dnNotePublicKey decrypted) (chTree data) (chPosition data)) (\<lambda>(nullifierHex, blinded).
     andThen (BigIntToHex (Some (dnNotePublicKey decrypted)) 32 False) (\<lambda>notePublicKeyHex.
     andThen (wrapErr ''recipient address: %w'' [] (encodeTransactNoteAddressData (dnReceiverAddressData decrypted))) (\<lambda>recipient.
     andThen (wrapErr ''sender address: %w'' [] (encodeTransactNoteAddressDataPtr (dnSenderAddressData decrypted))) (\<lambda>sender.
     Inr (Some \<lparr>stTXIDVersion = chTXIDVersion data, stTree = word_of_int (chTree data), stPosition = word_of_int (chPosition data),
       stTXID = chTXID data, stTimestamp = chTimestamp data, stBlockNumber = chBlockNumber data, stSpendTXID = [],
       stSpendBlockNumber = None, stNullifier = nullifierHex, stCommitmentHash = hash, stNotePublicKey = notePublicKeyHex,
       stNoteRandom = dnRandom decrypted, stTokenHash = dnTokenHash decrypted, stTokenData = dnTokenData decrypted,
       stValue = Some (dnValue decrypted), stOutputType = dnOutputType decrypted, stWalletSource = dnWalletSource decrypted,
       stMemoText = dnMemoText decrypted, stSenderAddress = sender, stRecipientAddress = recipient, stShieldFee = [],
       stCommitmentType = chCommitmentType data, stPOIsPerList = None, stBlindedCommitment = blinded,
       stTransactCreationRailgunTxid = chTXID data\<rparr>)))))))"

definition tryDecryptV2 ::
  "noteEnv \<Rightarrow> ScanKeys \<Rightarrow> CommitmentCiphertextV2Event \<Rightarrow> byte list \<Rightarrow> byte list \<Rightarrow> bool \<Rightarrow> uint64 \<Rightarrow> DecryptedTransactNote option" where
  "tryDecryptV2 env keys ciphertext blindedSender blindedReceiver isSent blockNumber =
     (case SharedSymmetricKey (neCurve env) (skViewingPrivateKey keys) (if isSent then blindedReceiver else blindedSender) of
        Inl _ \<Rightarrow> None
      | Inr sharedKey \<Rightarrow>
     (case DecryptTransactNoteV2 env (currentWalletAddressData keys) (v2Ciphertext ciphertext) sharedKey (v2Memo ciphertext)
         (v2AnnotationData ciphertext) (skViewingPrivateKey keys) blindedReceiver blindedSender isSent False (skTokenDataByHash keys)
         (Some blockNumber) of
        Inl _ \<Rightarrow> None
      | Inr decrypted \<Rightarrow> Some decrypted))"

definition tryDecryptV3 ::
  "noteEnv \<Rightarrow> ScanKeys \<Rightarrow> CommitmentCiphertextV3Event \<Rightarrow> string \<Rightarrow> byte list \<Rightarrow> byte list \<Rightarrow> bool \<Rightarrow> uint64 \<Rightarrow> int \<Rightarrow> DecryptedTransactNote option" where
  "tryDecryptV3 env keys ciphertext senderCiphertext blindedSender blindedReceiver isSent blockNumber batchIndex =
     (case SharedSymmetricKey (neCurve env) (skViewingPrivateKey keys) (if isSent then blindedReceiver else blindedSender) of
        Inl _ \<Rightarrow> None
      | Inr sharedKey \<Rightarrow>
     (case DecryptTransactNoteV3 env (currentWalletAddressData keys) (v3Ciphertext ciphertext) sharedKey senderCiphertext
         (skViewingPrivateKey keys) blindedReceiver blindedSender isSent False (skTokenDataByHash keys) (Some blockNumber) batchIndex of
        Inl _ \<Rightarrow> None
      | Inr decrypted \<Rightarrow> Some decrypted))"

definition hashDataOf :: "string \<Rightarrow> string \<Rightarrow> 'c commitment \<Rightarrow> commitmentHashData" where
  "hashDataOf version txid c =
     \<lparr>chHash = cmHash c, chTXIDVersion = version, chTXID = txid, chTimestamp = cmTimestamp c, chBlockNumber = cmBlockNumber c,
      chTree = cmUTXOTree c, chPosition = cmUTXOIndex c, chCommitmentType = cmCommitmentType c\<rparr>"

definition shieldDataOf :: "string \<Rightarrow> 'c commitment \<Rightarrow> shieldCommitmentData" where
  "shieldDataOf version c =
     \<lparr>chHash = cmHash c, chTXIDVersion = version, chTXID = cmTxid c, chTimestamp = cmTimestamp c, chBlockNumber = cmBlockNumber c,
      chTree = cmUTXOTree c, chPosition = cmUTXOIndex c, chCommitmentType = cmCommitmentType c, chPreImage = cmPreImage c,
      chEncryptedBundle = cmEncryptedBundle c, chShieldKey = cmShieldKey c, chFee = cmFee c\<rparr>"

text \<open>The output that a commitment gives and whether the wallet sent it: first it is decrypted as
  received, then as sent.\<close>

definition txoWithDirection ::
  "noteEnv \<Rightarrow> ScanKeys \<Rightarrow> string \<Rightarrow> (bool \<Rightarrow> DecryptedTransactNote option) \<Rightarrow> 'c commitment \<Rightarrow> (StoredTXO \<times> bool) option res" where
  "txoWithDirection env keys version tryDecrypt c =
     (let found = (case tryDecrypt False of Some d \<Rightarrow> Some (d, False) | None \<Rightarrow> map_option (\<lambda>d. (d, True)) (tryDecrypt True))
      in case found of
           None \<Rightarrow> Inr None
         | Some (decrypted, isSent) \<Rightarrow>
             andThen (txoFromDecryptedCommitment env keys decrypted
               (hashDataOf version (firstNonEmpty [cmRailgunTxid c, cmTxid c]) c)) (\<lambda>txo.
             Inr (map_option (\<lambda>t. (t, isSent)) txo)))"

definition txoFromV2CommitmentWithDirection :: "noteEnv \<Rightarrow> ScanKeys \<Rightarrow> Commitment \<Rightarrow> (StoredTXO \<times> bool) option res" where
  "txoFromV2CommitmentWithDirection env keys c =
     (if cmPreImage c \<noteq> None
      then andThen (txoFromShieldCommitment env keys (shieldDataOf TXIDVersionV2PoseidonMerkle c)) (\<lambda>txo.
        Inr (map_option (\<lambda>t. (t, False)) txo))
      else (case cmCiphertext c of
        None \<Rightarrow> Inr None
      | Some ciphertext \<Rightarrow>
          andThen (wrapErr ''blinded sender viewing key: %w'' [] (HexToBytes (v2BlindedSenderViewingKey ciphertext))) (\<lambda>blindedSender.
          andThen (wrapErr ''blinded receiver viewing key: %w'' [] (HexToBytes (v2BlindedReceiverViewingKey ciphertext))) (\<lambda>blindedReceiver.
          txoWithDirection env keys TXIDVersionV2PoseidonMerkle
            (\<lambda>isSent. tryDecryptV2 env keys ciphertext blindedSender blindedReceiver isSent (cmBlockNumber c)) c))))"

definition txoFromV3CommitmentWithDirection :: "noteEnv \<Rightarrow> ScanKeys \<Rightarrow> V3Commitment \<Rightarrow> (StoredTXO \<times> bool) option res" where
  "txoFromV3CommitmentWithDirection env keys c =
     (if cmPreImage c \<noteq> None
      then andThen (txoFromShieldCommitment env keys (shieldDataOf TXIDVersionV3PoseidonMerkle c)) (\<lambda>txo.
        Inr (map_option (\<lambda>t. (t, False)) txo))
      else (case cmCiphertext c of
        None \<Rightarrow> Inr None
      | Some ciphertext \<Rightarrow>
          andThen (wrapErr ''blinded sender viewing key: %w'' [] (HexToBytes (v3BlindedSenderViewingKey ciphertext))) (\<lambda>blindedSender.
          andThen (wrapErr ''blinded receiver viewing key: %w'' [] (HexToBytes (v3BlindedReceiverViewingKey ciphertext))) (\<lambda>blindedReceiver.
          let batchIndex = (case cmTransactCommitmentBatchIndex c of None \<Rightarrow> 0 | Some i \<Rightarrow> i)
          in txoWithDirection env keys TXIDVersionV3PoseidonMerkle
            (\<lambda>isSent. tryDecryptV3 env keys ciphertext (cmSenderCiphertext c) blindedSender blindedReceiver isSent (cmBlockNumber c) batchIndex) c))))"

section \<open>The import of events\<close>

definition unshieldPOIStatusFromEvent :: "UnshieldStoredEvent \<Rightarrow> UnshieldPOIStatusInput" where
  "unshieldPOIStatusFromEvent event =
     \<lparr>usTXID = unTxid event, usRailgunTxid = unRailgunTxid event, usBlockNumber = unBlockNumber event, usCommitmentHash = [],
      usPOIsPerList = None\<rparr>"

definition unshieldPOIStatusFromV2Event :: "UnshieldStoredEvent \<Rightarrow> UnshieldPOIStatusInput" where
  "unshieldPOIStatusFromV2Event event =
     \<lparr>usTXID = unTxid event, usRailgunTxid = firstNonEmpty [unRailgunTxid event, unTxid event], usBlockNumber = unBlockNumber event,
      usCommitmentHash = [], usPOIsPerList = None\<rparr>"

definition sentCommitmentPOIStatusFromTXO :: "StoredTXO \<Rightarrow> string \<Rightarrow> string \<Rightarrow> SentCommitmentPOIStatusInput" where
  "sentCommitmentPOIStatusFromTXO txo txid railgunTxid =
     \<lparr>snTXID = txid, snRailgunTxid = railgunTxid, snTimestamp = stTimestamp txo, snBlockNumber = stBlockNumber txo,
      snCommitmentHash = stCommitmentHash txo, snBlindedCommitment = stBlindedCommitment txo, snTokenHash = stTokenHash txo,
      snTokenData = stTokenData txo, snValue = stValue txo, snOutputType = stOutputType txo, snWalletSource = stWalletSource txo,
      snMemoText = stMemoText txo, snSenderAddress = stSenderAddress txo, snRecipientAddress = stRecipientAddress txo,
      snPOIsPerList = stPOIsPerList txo\<rparr>"

definition unshieldEventMaps ::
  "UnshieldStoredEvent list \<Rightarrow> (string, UnshieldStoredEvent) gomap \<times> (string, UnshieldStoredEvent) gomap" where
  "unshieldEventMaps events =
     fold (\<lambda>event (byRailgunTxid, byTxid).
       (if unRailgunTxid event \<noteq> [] then gput (unRailgunTxid event) event byRailgunTxid else byRailgunTxid,
        if unTxid event \<noteq> [] then gput (unTxid event) event byTxid else byTxid)) events ([], [])"

definition applyUnshieldEventData :: "UnshieldData \<Rightarrow> UnshieldStoredEvent \<Rightarrow> UnshieldData" where
  "applyUnshieldEventData unshield event =
     unshield\<lparr>usValue := (if unAmount event \<noteq> [] then unAmount event else usValue unshield),
       usFee := unFee event,
       usToAddress := (if unToAddress event \<noteq> [] then unToAddress event else usToAddress unshield)\<rparr>"

definition storedRailgunTransactionV3 ::
  "poseidonConstantsRaw \<Rightarrow> RailgunTransactionV3 \<Rightarrow> (string, UnshieldStoredEvent) gomap \<Rightarrow> (string, UnshieldStoredEvent) gomap
   \<Rightarrow> Transaction res" where
  "storedRailgunTransactionV3 raw transaction byRailgunTxid byTxid =
     andThen (RailgunTransactionIDHex raw (r3Nullifiers transaction) (r3Commitments transaction) (r3BoundParamsHash transaction))
       (\<lambda>railgunTxid.
       let unshield = map_option (\<lambda>u.
             let data = \<lparr>usTokenData = urTokenData u, usToAddress = urToAddress u, usValue = urValue u, usFee = []\<rparr>
             in (case gget byRailgunTxid railgunTxid of
                  Some event \<Rightarrow> applyUnshieldEventData data event
                | None \<Rightarrow> (case gget byTxid (r3Txid transaction) of
                    Some event \<Rightarrow> applyUnshieldEventData data event
                  | None \<Rightarrow> data))) (r3Unshield transaction)
       in Inr \<lparr>txVersion = r3Version transaction, txRailgunTxid = railgunTxid, txTxid = r3Txid transaction,
            txBlockNumber = r3BlockNumber transaction, txCommitments = r3Commitments transaction,
            txNullifiers = r3Nullifiers transaction, txBoundParamsHash = r3BoundParamsHash transaction, txUnshield = unshield,
            txUTXOTreeIn = r3UTXOTreeIn transaction, txUTXOTreeOut = r3UTXOTreeOut transaction,
            txUTXOBatchStartPositionOut = r3UTXOBatchStartPositionOut transaction, txVerificationHash = r3VerificationHash transaction\<rparr>)"

text \<open>The calls of a store that returns a count.\<close>

definition countCall :: "('w \<Rightarrow> 'w \<times> nat res) \<Rightarrow> ('w, nat) act" where
  "countCall f = f"

definition indexCall :: "('w \<Rightarrow> 'w \<times> (nat \<times> gerr option)) \<Rightarrow> ('w, nat) act" where
  "indexCall f w = (case f w of (w', _, Some e) \<Rightarrow> (w', Inl e) | (w', n, None) \<Rightarrow> (w', Inr n))"

text \<open>The first part of both imports: the events go into the store of the commitment tree.\<close>

definition indexUTXOTree ::
  "ctx \<Rightarrow> 'w utxoTreeIface option \<Rightarrow> ('w utxoTreeIface \<Rightarrow> 'w \<Rightarrow> 'w \<times> (nat \<times> gerr option)) \<Rightarrow> Nullifier list
   \<Rightarrow> UnshieldStoredEvent list \<Rightarrow> ImportSummary \<Rightarrow> ('w, ImportSummary) act" where
  "indexUTXOTree ctx utxoTree index nullifiers unshields summary =
     ifSome utxoTree (\<lambda>tree.
       bind (indexCall (index tree)) (\<lambda>indexed.
       let summary = summary\<lparr>UTXOMerkleLeavesIndexed := indexed\<rparr>
       in bind (ifSome (utUpsertNullifiers tree) (\<lambda>up.
            bind (countCall (\<lambda>w. up ctx w nullifiers)) (\<lambda>n. ret (summary\<lparr>NullifierEventsIndexed := n\<rparr>))) summary) (\<lambda>summary.
          ifSome (utUpsertUnshieldEvents tree) (\<lambda>up.
            bind (countCall (\<lambda>w. up ctx w unshields False)) (\<lambda>n. ret (summary\<lparr>UnshieldEventsIndexed := n\<rparr>))) summary))) summary"

definition importUnshields ::
  "ctx \<Rightarrow> 'w spentIface option \<Rightarrow> (UnshieldStoredEvent \<Rightarrow> UnshieldPOIStatusInput) \<Rightarrow> UnshieldStoredEvent list \<Rightarrow> ImportSummary
   \<Rightarrow> ('w, ImportSummary) act" where
  "importUnshields ctx spent status events summary =
     ifSome spent (\<lambda>iface. foldAct (\<lambda>event summary.
       bind (lift (withCtx ctx (Inr ()))) (\<lambda>_.
       bind (call (\<lambda>w. spUpsertUnshieldPOIEvent iface ctx w (status event))) (\<lambda>_.
       ret (summary\<lparr>UnshieldPOIEventsIndexed := Suc (UnshieldPOIEventsIndexed summary)\<rparr>)))) events summary) summary"

text \<open>One commitment: \<open>convert\<close> gives its output and direction, \<open>railgunTxid\<close> the id of its
  transaction, for the event of a sent one.\<close>

definition importCommitment ::
  "ctx \<Rightarrow> 'w stateIface \<Rightarrow> 'w spentIface option \<Rightarrow> ('c commitment \<Rightarrow> (StoredTXO \<times> bool) option res)
   \<Rightarrow> ('c commitment \<Rightarrow> StoredTXO \<Rightarrow> string) \<Rightarrow> 'c commitment \<Rightarrow> ImportSummary \<Rightarrow> ('w, ImportSummary) act" where
  "importCommitment ctx store spent convert railgunTxid commitment summary =
     bind (lift (withCtx ctx (convert commitment))) (\<lambda>found.
     case found of
       None \<Rightarrow> ret (summary\<lparr>CommitmentsSkipped := Suc (CommitmentsSkipped summary)\<rparr>)
     | Some (txo, isSent) \<Rightarrow>
         if isSent
         then ifSome spent (\<lambda>iface.
           bind (call (\<lambda>w. spUpsertSentCommitmentPOIEvent iface ctx w
             (sentCommitmentPOIStatusFromTXO txo (cmTxid commitment) (railgunTxid commitment txo)))) (\<lambda>_.
           ret (summary\<lparr>SentCommitmentPOIEventsIndexed := Suc (SentCommitmentPOIEventsIndexed summary)\<rparr>))) summary
         else bind (call (\<lambda>w. ssUpsertTXO store ctx w txo)) (\<lambda>_.
           ret (summary\<lparr>TXOsImported := Suc (TXOsImported summary)\<rparr>)))"

definition markSpent :: "'w stateIface \<Rightarrow> ctx \<Rightarrow> 'w \<Rightarrow> string \<Rightarrow> Nullifier \<Rightarrow> 'w res" where
  "markSpent store ctx w nullifier event =
     (case ssReorg store of
        Some reorg \<Rightarrow> rsMarkTXOSpentAtBlock reorg ctx w nullifier (nuTxid event) (nuBlockNumber event)
      | None \<Rightarrow> ssMarkTXOSpent store ctx w nullifier (nuTxid event))"

text \<open>An error of the store only counts as skipped.\<close>

definition countSpend :: "('w \<Rightarrow> 'w res) \<Rightarrow> ImportSummary \<Rightarrow> ('w, ImportSummary) act" where
  "countSpend mark summary w =
     (case mark w of
        Inl _ \<Rightarrow> (w, Inr (summary\<lparr>SpendsSkipped := Suc (SpendsSkipped summary)\<rparr>))
      | Inr w' \<Rightarrow> (w', Inr (summary\<lparr>SpendsMarked := Suc (SpendsMarked summary)\<rparr>)))"

definition markNullifiersSpent :: "ctx \<Rightarrow> 'w stateIface \<Rightarrow> Nullifier list \<Rightarrow> ImportSummary \<Rightarrow> ('w, ImportSummary) act" where
  "markNullifiersSpent ctx store nullifiers summary =
     foldAct (\<lambda>event summary.
       bind (lift (withCtx ctx (wrapErr ''nullifier: %w'' [] (FormatHexToByteLength (nuNullifier event) 32 False)))) (\<lambda>nullifier.
       countSpend (\<lambda>w. markSpent store ctx w nullifier event) summary)) nullifiers summary"

definition ImportV2AccumulatedEventsWithAllStores ::
  "noteEnv \<Rightarrow> ctx \<Rightarrow> 'w stateIface option \<Rightarrow> 'w spentIface option \<Rightarrow> 'w utxoTreeIface option \<Rightarrow> ScanKeys
   \<Rightarrow> V2AccumulatedEvents \<Rightarrow> ('w, ImportSummary) act" where
  "ImportV2AccumulatedEventsWithAllStores env ctx store spent utxoTree keys accumulated =
     bind (lift (validateImportInputs store keys)) (\<lambda>_.
     bind (indexUTXOTree ctx utxoTree (\<lambda>tree w. IndexV2CommitmentEvents ctx (Some (utStoreV2 tree)) w (a2CommitmentEvents accumulated))
       (a2NullifierEvents accumulated) (a2UnshieldEvents accumulated) emptySummary) (\<lambda>summary.
     bind (importUnshields ctx spent unshieldPOIStatusFromV2Event (a2UnshieldEvents accumulated) summary) (\<lambda>summary.
     bind (foldAct (importCommitment ctx (the store) spent (txoFromV2CommitmentWithDirection env keys)
         (\<lambda>commitment txo. firstNonEmpty [cmRailgunTxid commitment, stTXID txo]))
       (concat (map ceCommitments (a2CommitmentEvents accumulated))) summary) (\<lambda>summary.
     markNullifiersSpent ctx (the store) (a2NullifierEvents accumulated) summary))))"

definition ImportV2AccumulatedEventsWithStores where
  "ImportV2AccumulatedEventsWithStores env ctx store spent keys accumulated =
     ImportV2AccumulatedEventsWithAllStores env ctx store spent None keys accumulated"

definition ImportV2AccumulatedEvents where
  "ImportV2AccumulatedEvents env ctx store keys accumulated =
     ImportV2AccumulatedEventsWithStores env ctx store None keys accumulated"

text \<open>The loop over the transactions of the V3 accumulator also collects the transaction of each
  commitment.\<close>

definition importTransaction ::
  "poseidonConstantsRaw \<Rightarrow> ctx \<Rightarrow> 'w transactionIface option \<Rightarrow> 'w merkleTreeIface option
   \<Rightarrow> (string, UnshieldStoredEvent) gomap \<times> (string, UnshieldStoredEvent) gomap
   \<Rightarrow> RailgunTransactionV3 \<Rightarrow> (string, string) gomap \<times> ImportSummary \<Rightarrow> ('w, (string, string) gomap \<times> ImportSummary) act" where
  "importTransaction raw ctx txidStore txidMerkleTree unshields transaction = (\<lambda>(txids, summary).
     bind (lift (withCtx ctx (storedRailgunTransactionV3 raw transaction (fst unshields) (snd unshields)))) (\<lambda>stored.
     let txids = fold (\<lambda>commitment. gput (normalizedHex commitment) (txRailgunTxid stored)) (txCommitments stored) txids
     in bind (ifSome txidStore (\<lambda>iface. bind (call (\<lambda>w. tsUpsertTransaction iface ctx w stored)) (\<lambda>_.
          ret (summary\<lparr>RailgunTransactionsIndexed := Suc (RailgunTransactionsIndexed summary)\<rparr>))) summary) (\<lambda>summary.
        bind (ifSome txidMerkleTree (\<lambda>iface.
          bind (call (\<lambda>w. andThen (AppendTransactionLeaf raw ctx (Some (mtStore iface)) w stored) (\<lambda>(w', _). Inr w'))) (\<lambda>_.
          ret (summary\<lparr>TXIDMerkleLeavesIndexed := Suc (TXIDMerkleLeavesIndexed summary)\<rparr>))) summary) (\<lambda>summary.
        ret (txids, summary)))))"

definition ImportV3AccumulatedEventsWithAllStores ::
  "noteEnv \<Rightarrow> ctx \<Rightarrow> 'w stateIface option \<Rightarrow> 'w transactionIface option \<Rightarrow> 'w merkleTreeIface option \<Rightarrow> 'w utxoTreeIface option
   \<Rightarrow> 'w spentIface option \<Rightarrow> ScanKeys \<Rightarrow> V3AccumulatorEvents \<Rightarrow> ('w, ImportSummary) act" where
  "ImportV3AccumulatedEventsWithAllStores env ctx store txidStore txidMerkleTree utxoTree spent keys accumulated =
     bind (lift (validateImportInputs store keys)) (\<lambda>_.
     bind (indexUTXOTree ctx utxoTree (\<lambda>tree w. IndexV3CommitmentEvents ctx (Some (utStoreV3 tree)) w (a3CommitmentEvents accumulated))
       (a3NullifierEvents accumulated) (a3UnshieldEvents accumulated) emptySummary) (\<lambda>summary.
     bind (if txidStore \<noteq> None \<or> txidMerkleTree \<noteq> None \<or> spent \<noteq> None
         then foldAct (importTransaction (neConstants env) ctx txidStore txidMerkleTree (unshieldEventMaps (a3UnshieldEvents accumulated)))
           (a3RailgunTransactionEvents accumulated) ([], summary)
         else ret ([], summary)) (\<lambda>(txids, summary).
     bind (importUnshields ctx spent unshieldPOIStatusFromEvent (a3UnshieldEvents accumulated) summary) (\<lambda>summary.
     bind (foldAct (importCommitment ctx (the store) spent (txoFromV3CommitmentWithDirection env keys)
         (\<lambda>commitment txo. firstNonEmpty [cmRailgunTxid commitment,
            (case gget txids (normalizedHex (stCommitmentHash txo)) of None \<Rightarrow> [] | Some found \<Rightarrow> found)]))
       (concat (map ceCommitments (a3CommitmentEvents accumulated))) summary) (\<lambda>summary.
     markNullifiersSpent ctx (the store) (a3NullifierEvents accumulated) summary)))))"

definition ImportV3AccumulatedEventsWithStores where
  "ImportV3AccumulatedEventsWithStores env ctx store txidStore txidMerkleTree spent keys accumulated =
     ImportV3AccumulatedEventsWithAllStores env ctx store txidStore txidMerkleTree None spent keys accumulated"

definition ImportV3AccumulatedEventsWithTXIDStores where
  "ImportV3AccumulatedEventsWithTXIDStores env ctx store txidStore txidMerkleTree keys accumulated =
     ImportV3AccumulatedEventsWithStores env ctx store txidStore txidMerkleTree None keys accumulated"

definition ImportV3AccumulatedEventsWithTXIDStore where
  "ImportV3AccumulatedEventsWithTXIDStore env ctx store txidStore keys accumulated =
     ImportV3AccumulatedEventsWithTXIDStores env ctx store txidStore None keys accumulated"

definition ImportV3AccumulatedEvents where
  "ImportV3AccumulatedEvents env ctx store keys accumulated =
     ImportV3AccumulatedEventsWithTXIDStore env ctx store None keys accumulated"

end
