(* ===== verification/ImportEffect.thy ===== *)
theory ImportEffect
  imports Importer
begin

text \<open>
  What an import does to the outputs of a wallet: the laws that it needs of the stores, their
  interpretation on the stores in memory and on file, and the effect that follows: the received
  outputs are stored, then the spends are marked.
\<close>

section \<open>The outputs that an import stores\<close>

lemma BigIntToHex_canonical:
  "BigIntToHex (Some v) n False = Inr s \<Longrightarrow> canonical n s \<and> 0 \<le> v \<and> s = hexWidth n v"
  using BigIntToHex_Some [of v n False] canonical_hexWidth [of v n]
  by (cases "v < 0") (auto simp: BigIntToHex_def)

text \<open>Inversions of the searches that end with no output.\<close>

lemma found_simps:
  "(case m of Inl e \<Rightarrow> Inr None | Inr x \<Rightarrow> f x) = Inr (Some t) \<longleftrightarrow> (\<exists>x. m = Inr x \<and> f x = Inr (Some t))"
  "(case p of None \<Rightarrow> Inr None | Some y \<Rightarrow> g y) = Inr (Some t) \<longleftrightarrow> (\<exists>y. p = Some y \<and> g y = Inr (Some t))"
  "(if b then Inr None else r) = Inr (Some t) \<longleftrightarrow> \<not> b \<and> r = Inr (Some t)"
  by (auto split: sum.splits option.splits)

text \<open>What both conversions establish of an output at a position of the commitment tree.\<close>

definition outputAt :: "poseidonConstantsRaw \<Rightarrow> int \<Rightarrow> string \<Rightarrow> 'c commitment \<Rightarrow> StoredTXO \<Rightarrow> bool" where
  "outputAt raw nullifyingKey version c t \<longleftrightarrow>
     0 \<le> cmUTXOTree c \<and> 0 \<le> cmUTXOIndex c \<and>
     (\<exists>nullifier. Railgun.Nullifier raw nullifyingKey (word_of_int (GetGlobalTreePosition (stTree t) (stPosition t))) = Inr nullifier \<and>
        0 \<le> nullifier \<and> HexToBigInt (stNullifier t) = Inr nullifier) \<and>
     canonical 32 (stNullifier t) \<and> canonical 32 (stCommitmentHash t) \<and> canonical 32 (stNotePublicKey t) \<and>
     (cmHash c = [] \<or> FormatHexToByteLength (cmHash c) 32 False = Inr (stCommitmentHash t)) \<and>
     stTXIDVersion t = version \<and> stTree t = word_of_int (cmUTXOTree c) \<and> stPosition t = word_of_int (cmUTXOIndex c) \<and>
     stBlockNumber t = cmBlockNumber c \<and> stValue t \<noteq> None \<and> stPOIsPerList t = None \<and> stSpendTXID t = [] \<and> stSpendBlockNumber t = None"

lemma nullifier_hex:
  assumes "Railgun.Nullifier raw nk p = Inr nf" and "BigIntToHex (Some nf) 32 False = Inr s"
  shows "0 \<le> nf \<and> canonical 32 s \<and> HexToBigInt s = Inr nf"
proof -
  have s: "canonical 32 s" "0 \<le> nf" "s = hexWidth 32 nf"
    using BigIntToHex_canonical [OF assms(2)] by blast+
  have "nf < SNARKPrime"
    using assms(1) Poseidon_range by (force simp: Railgun.Nullifier_def)
  then have "nf < 16 ^ (2 * 32)"
    using SNARKPrime_bound by simp
  then show ?thesis
    using s hexWidth_roundtrip [of nf 32] by (simp add: canonical_hexWidth)
qed

lemma outputIdentity_facts:
  assumes "outputIdentity raw keys hashHex npk tree position = Inr (nullifierHex, blinded)"
  shows "0 \<le> tree \<and> 0 \<le> position \<and> canonical 32 nullifierHex \<and>
    (\<exists>nf. Railgun.Nullifier raw (the (skNullifyingKey keys))
        (word_of_int (GetGlobalTreePosition (word_of_int tree) (word_of_int position))) = Inr nf \<and>
       0 \<le> nf \<and> HexToBigInt nullifierHex = Inr nf)"
proof -
  obtain global nf where g: "globalPosition tree position = Inr global" and
    n: "Railgun.Nullifier raw (the (skNullifyingKey keys)) global = Inr nf" "BigIntToHex (Some nf) 32 False = Inr nullifierHex"
    using assms by (auto simp: outputIdentity_def res_elims)
  from g have "0 \<le> tree" "0 \<le> position" "global = word_of_int (GetGlobalTreePosition (word_of_int tree) (word_of_int position))"
    by (auto simp: globalPosition_def Let_def split: if_splits)
  then show ?thesis
    using n nullifier_hex [OF n] by blast
qed

lemma hashMatches_True:
  "hashMatches e h = Inr True \<Longrightarrow> e = [] \<or> FormatHexToByteLength e 32 False = Inr h"
  by (auto simp: hashMatches_def res_elims split: if_splits)

lemma shield_output:
  assumes "txoFromShieldCommitment env keys (shieldDataOf version c) = Inr (Some t)"
  shows "outputAt (neConstants env) (the (skNullifyingKey keys)) version c t"
  using assms unfolding txoFromShieldCommitment_def shieldDataOf_def
  by (clarsimp simp: andThen_Inr found_simps)
    (drule outputIdentity_facts hashMatches_True BigIntToHex_canonical | simp add: outputAt_def canonical_hexWidth)+

lemma decrypted_output:
  assumes "txoFromDecryptedCommitment env keys decrypted (hashDataOf version txid c) = Inr (Some t)"
  shows "outputAt (neConstants env) (the (skNullifyingKey keys)) version c t"
  using assms unfolding txoFromDecryptedCommitment_def hashDataOf_def
  by (clarsimp simp: andThen_Inr found_simps)
    (drule outputIdentity_facts hashMatches_True BigIntToHex_canonical | simp add: outputAt_def canonical_hexWidth)+

lemma directed_output:
  assumes "txoWithDirection env keys version tryDecrypt c = Inr (Some (t, isSent))"
  shows "outputAt (neConstants env) (the (skNullifyingKey keys)) version c t"
  using assms by (auto simp: txoWithDirection_def andThen_Inr Let_def split: option.splits intro: decrypted_output)

lemma v2_output:
  assumes "txoFromV2CommitmentWithDirection env keys c = Inr (Some (t, isSent))"
  shows "outputAt (neConstants env) (the (skNullifyingKey keys)) TXIDVersionV2PoseidonMerkle c t"
  using assms unfolding txoFromV2CommitmentWithDirection_def
  by (auto simp: andThen_Inr wrapErr_Inr split: if_splits option.splits intro: shield_output directed_output)

lemma v3_output:
  assumes "txoFromV3CommitmentWithDirection env keys c = Inr (Some (t, isSent))"
  shows "outputAt (neConstants env) (the (skNullifyingKey keys)) TXIDVersionV3PoseidonMerkle c t"
  using assms unfolding txoFromV3CommitmentWithDirection_def
  by (auto simp: andThen_Inr wrapErr_Inr Let_def split: if_splits option.splits intro: shield_output directed_output)

section \<open>What an import does to the outputs\<close>

datatype walletOp = Received StoredTXO | SpentBy string Nullifier

type_synonym outputs = "string \<Rightarrow> StoredTXO option"

definition spendBy :: "Nullifier \<Rightarrow> StoredTXO \<Rightarrow> StoredTXO" where
  "spendBy e t = t\<lparr>stSpendTXID := nuTxid e, stSpendBlockNumber := Some (nuBlockNumber e)\<rparr>"

fun walletEffect :: "walletOp \<Rightarrow> outputs \<Rightarrow> outputs" where
  "walletEffect (Received t) f = f(stNullifier t \<mapsto> t)"
| "walletEffect (SpentBy n e) f = f(n := map_option (spendBy e) (f n))"

definition receivedOps :: "('c commitment \<Rightarrow> (StoredTXO \<times> bool) option res) \<Rightarrow> 'c commitment \<Rightarrow> walletOp list" where
  "receivedOps convert c = (case convert c of Inr (Some (t, False)) \<Rightarrow> [Received t] | _ \<Rightarrow> [])"

definition spentOps :: "Nullifier \<Rightarrow> walletOp list" where
  "spentOps e = (case FormatHexToByteLength (nuNullifier e) 32 False of Inr n \<Rightarrow> [SpentBy n e] | Inl _ \<Rightarrow> [])"

definition importOps ::
  "('c commitment \<Rightarrow> (StoredTXO \<times> bool) option res) \<Rightarrow> 'c commitmentEvent list \<Rightarrow> Nullifier list \<Rightarrow> walletOp list" where
  "importOps convert events nullifiers =
     concat (map (receivedOps convert) (concat (map ceCommitments events))) @ concat (map spentOps nullifiers)"

definition applyOps :: "walletOp list \<Rightarrow> outputs \<Rightarrow> outputs" where
  "applyOps ops = fold walletEffect ops"

lemma applyOps_simps [simp]:
  "applyOps [] f = f" "applyOps (op # ops) f = applyOps ops (walletEffect op f)" "applyOps (xs @ ys) f = applyOps ys (applyOps xs f)"
  by (simp_all add: applyOps_def)

text \<open>An output under one key: once it is received again, nothing of before counts; otherwise the
  last spend counts.\<close>

lemma walletEffect_cong: "f n = g n \<Longrightarrow> walletEffect op f n = walletEffect op g n"
  by (cases op) auto

lemma applyOps_cong: "f n = g n \<Longrightarrow> applyOps ops f n = applyOps ops g n"
proof (induction ops arbitrary: f g)
  case (Cons op ops)
  have "walletEffect op f n = walletEffect op g n" by (rule walletEffect_cong) (rule Cons.prems)
  from Cons.IH [where f = "walletEffect op f" and g = "walletEffect op g", OF this] show ?case by simp
qed simp

lemma spendBy_spendBy: "spendBy e (spendBy e' t) = spendBy e t"
  by (simp add: spendBy_def)

fun touches :: "string \<Rightarrow> walletOp \<Rightarrow> bool" where
  "touches n (Received t) \<longleftrightarrow> stNullifier t = n"
| "touches n (SpentBy k e) \<longleftrightarrow> k = n"

definition resets :: "string \<Rightarrow> walletOp list \<Rightarrow> bool" where
  "resets n ops \<longleftrightarrow> (\<exists>t. Received t \<in> set ops \<and> stNullifier t = n)"

lemma walletEffect_untouched: "\<not> touches n op \<Longrightarrow> walletEffect op f n = f n"
  by (cases op) auto

lemma applyOps_untouched:
  assumes "\<forall>op \<in> set ops. \<not> touches n op"
  shows "applyOps ops f n = f n"
  using assms by (induction ops arbitrary: f) (simp_all add: walletEffect_untouched)

lemma applyOps_reset:
  assumes "resets n ops"
  shows "applyOps ops f n = applyOps ops g n"
  using assms
proof (induction ops arbitrary: f g)
  case Nil
  then show ?case by (simp add: resets_def)
next
  case (Cons op ops)
  show ?case
  proof (cases "resets n ops")
    case True
    then show ?thesis using Cons.IH by simp
  next
    case False
    then obtain t where "op = Received t" "stNullifier t = n"
      using Cons.prems by (auto simp: resets_def)
    then have "walletEffect op f n = walletEffect op g n" by simp
    then show ?thesis
      using applyOps_cong [where f = "walletEffect op f" and g = "walletEffect op g"] by simp
  qed
qed

lemma applyOps_spends:
  assumes "\<not> resets n ops" and "\<exists>op \<in> set ops. touches n op"
  shows "\<exists>e. \<forall>f. applyOps ops f n = map_option (spendBy e) (f n)"
  using assms
proof (induction ops)
  case (Cons op ops)
  have r: "\<not> resets n ops" using Cons.prems(1) by (auto simp: resets_def)
  have op: "walletEffect op f n = (if touches n op then map_option (spendBy (case op of SpentBy _ e \<Rightarrow> e)) (f n) else f n)" for f
    using Cons.prems(1) by (cases op) (auto simp: resets_def)
  show ?case
  proof (cases "\<exists>op \<in> set ops. touches n op")
    case True
    then obtain e where e: "\<forall>f. applyOps ops f n = map_option (spendBy e) (f n)"
      using Cons.IH [OF r] by blast
    have "applyOps (op # ops) f n = map_option (spendBy e) (f n)" for f
      by (simp add: e op option.map_comp comp_def spendBy_spendBy)
    then show ?thesis by blast
  next
    case False
    then have "touches n op" using Cons.prems(2) by auto
    then have "applyOps (op # ops) f n = map_option (spendBy (case op of SpentBy _ e \<Rightarrow> e)) (f n)" for f
      using False by (simp add: applyOps_untouched op)
    then show ?thesis by blast
  qed
qed simp

lemma applyOps_absorb:
  assumes "set pre \<subseteq> set ops"
  shows "applyOps ops (applyOps pre f) = applyOps ops f"
proof
  fix n
  consider (reset) "resets n ops" | (untouched) "\<forall>op \<in> set pre. \<not> touches n op"
    | (spent) "\<not> resets n ops" "\<exists>op \<in> set pre. touches n op" by blast
  then show "applyOps ops (applyOps pre f) n = applyOps ops f n"
  proof cases
    case reset
    then show ?thesis by (rule applyOps_reset)
  next
    case untouched
    show ?thesis by (rule applyOps_cong) (rule applyOps_untouched [OF untouched])
  next
    case spent
    then obtain e where e: "\<forall>f. applyOps ops f n = map_option (spendBy e) (f n)"
      using applyOps_spends [of n ops] assms by blast
    have "\<not> resets n pre" using spent(1) assms by (auto simp: resets_def)
    then obtain e' where "\<forall>f. applyOps pre f n = map_option (spendBy e') (f n)"
      using applyOps_spends [of n pre] spent(2) by blast
    then show ?thesis by (simp add: e option.map_comp comp_def spendBy_spendBy)
  qed
qed

section \<open>The stores of a wallet\<close>

text \<open>
  What an import needs of the stores: \<open>outputsOf\<close> are the outputs of the state store and \<open>rest\<close> is
  what else of the world must not change, as the checkpoints.
\<close>

definition keeps :: "('w \<Rightarrow> bool) \<Rightarrow> ('w \<Rightarrow> outputs) \<Rightarrow> ('w \<Rightarrow> 'r) \<Rightarrow> 'w \<Rightarrow> 'w \<Rightarrow> bool" where
  "keeps ok outputsOf rest w w' \<longleftrightarrow> ok w' \<and> outputsOf w' = outputsOf w \<and> rest w' = rest w"

definition changes :: "('w \<Rightarrow> bool) \<Rightarrow> ('w \<Rightarrow> outputs) \<Rightarrow> ('w \<Rightarrow> 'r) \<Rightarrow> walletOp list \<Rightarrow> 'w \<Rightarrow> 'w \<Rightarrow> bool" where
  "changes ok outputsOf rest ops w w' \<longleftrightarrow> ok w' \<and> outputsOf w' = applyOps ops (outputsOf w) \<and> rest w' = rest w"

lemma changes_trans: "changes ok os rest xs w w1 \<Longrightarrow> changes ok os rest ys w1 w2 \<Longrightarrow> changes ok os rest (xs @ ys) w w2"
  by (simp add: changes_def)

lemma changes_Nil [simp]: "changes ok os rest [] w w' \<longleftrightarrow> keeps ok os rest w w'"
  by (simp add: changes_def keeps_def)

locale output_store =
  fixes store :: "'w stateIface" and ok :: "'w \<Rightarrow> bool" and outputsOf :: "'w \<Rightarrow> outputs" and rest :: "'w \<Rightarrow> 'r"
  assumes upsert: "ok w \<Longrightarrow> stPOIsPerList t = None \<Longrightarrow> stValue t \<noteq> None \<Longrightarrow> ssUpsertTXO store None w t = Inr w' \<Longrightarrow>
      changes ok outputsOf rest [Received t] w w'"
    and spend: "ok w \<Longrightarrow> markSpent store None w n e = Inr w' \<Longrightarrow> changes ok outputsOf rest [SpentBy n e] w w'"
    and spend_missing: "ok w \<Longrightarrow> markSpent store None w n e = Inl err \<Longrightarrow> outputsOf w n = None"

locale wallet_stores = output_store store ok outputsOf rest
  for store :: "'w stateIface" and ok :: "'w \<Rightarrow> bool" and outputsOf :: "'w \<Rightarrow> outputs" and rest :: "'w \<Rightarrow> 'r" +
  fixes spent :: "'w spentIface option" and tree :: "'w utxoTreeIface option"
  assumes sent_event: "ok w \<Longrightarrow> spent = Some i \<Longrightarrow> spUpsertSentCommitmentPOIEvent i None w event = Inr w' \<Longrightarrow> keeps ok outputsOf rest w w'"
    and unshield_event: "ok w \<Longrightarrow> spent = Some i \<Longrightarrow> spUpsertUnshieldPOIEvent i None w u = Inr w' \<Longrightarrow> keeps ok outputsOf rest w w'"
    and index_v2: "ok w \<Longrightarrow> tree = Some t \<Longrightarrow> IndexV2CommitmentEvents None (Some (utStoreV2 t)) w events2 = (w', r) \<Longrightarrow>
      keeps ok outputsOf rest w w'"
    and index_v3: "ok w \<Longrightarrow> tree = Some t \<Longrightarrow> IndexV3CommitmentEvents None (Some (utStoreV3 t)) w events3 = (w', r) \<Longrightarrow>
      keeps ok outputsOf rest w w'"
    and index_nullifiers: "ok w \<Longrightarrow> tree = Some t \<Longrightarrow> utUpsertNullifiers t = Some up \<Longrightarrow> up None w ns = (w', q) \<Longrightarrow> keeps ok outputsOf rest w w'"
    and index_unshields: "ok w \<Longrightarrow> tree = Some t \<Longrightarrow> utUpsertUnshieldEvents t = Some up' \<Longrightarrow> up' None w us replace = (w', q) \<Longrightarrow>
      keeps ok outputsOf rest w w'"
begin

abbreviation "changed \<equiv> changes ok outputsOf rest"
abbreviation "kept \<equiv> keeps ok outputsOf rest"

text \<open>Each step of an import changes the outputs by its part of the operations, also when it fails.\<close>

definition partly :: "walletOp list \<Rightarrow> 'w \<Rightarrow> 'w \<Rightarrow> bool" where
  "partly ops w w' \<longleftrightarrow> (\<exists>pre suf. ops = pre @ suf \<and> changed pre w w')"

lemma partly_Nil [simp]: "partly [] w w' \<longleftrightarrow> kept w w'"
  by (simp add: partly_def)

lemma partly_first: "partly xs w w' \<Longrightarrow> partly (xs @ ys) w w'"
  unfolding partly_def by (metis append.assoc)

lemma partly_then: "changed xs w w1 \<Longrightarrow> partly ys w1 w' \<Longrightarrow> partly (xs @ ys) w w'"
  unfolding partly_def by (metis append.assoc changes_trans)

lemma changed_partly: "changed ops w w' \<Longrightarrow> partly ops w w'"
  unfolding partly_def by (metis append_Nil2)

definition does :: "('w, 'z) act \<Rightarrow> walletOp list \<Rightarrow> bool" where
  "does m ops \<longleftrightarrow> (\<forall>w w' r. ok w \<longrightarrow> m w = (w', r) \<longrightarrow> partly ops w w' \<and> (\<forall>x. r = Inr x \<longrightarrow> changed ops w w'))"

lemma doesI:
  assumes "\<And>w w' r. ok w \<Longrightarrow> m w = (w', r) \<Longrightarrow> partly ops w w' \<and> (\<forall>x. r = Inr x \<longrightarrow> changed ops w w')"
  shows "does m ops"
  using assms by (simp add: does_def)

lemma does_ret: "does (ret x) []"
  by (auto simp: does_def run_ret keeps_def)

lemma does_lift: "does (lift m) []"
  by (auto simp: does_def run_lift keeps_def)

lemma does_fail: "does (lift (Inl e)) ops"
proof (rule doesI)
  fix w w' r assume a: "ok w" "lift (Inl e) w = (w', r)"
  then have "kept w w'" "r = Inl e" by (auto simp: run_lift keeps_def)
  then show "partly ops w w' \<and> (\<forall>x. r = Inr x \<longrightarrow> changed ops w w')"
    using partly_first [of "[]"] by simp
qed

lemma does_bind:
  assumes "does m xs" and "\<And>x. does (f x) ys"
  shows "does (bind m f) (xs @ ys)"
proof (rule doesI)
  fix w w' r assume a: "ok w" "bind m f w = (w', r)"
  obtain w1 r1 where m: "m w = (w1, r1)" by (cases "m w")
  show "partly (xs @ ys) w w' \<and> (\<forall>x. r = Inr x \<longrightarrow> changed (xs @ ys) w w')"
  proof (cases r1)
    case (Inl e)
    then have "w' = w1" "r = Inl e" using a(2) m by (simp_all add: run_bind)
    then show ?thesis using assms(1) a(1) m partly_first by (simp add: does_def)
  next
    case (Inr x)
    then have f: "f x w1 = (w', r)" using a(2) m by (simp add: run_bind)
    have c: "changed xs w w1" using assms(1) a(1) m Inr by (simp add: does_def)
    then have "ok w1" by (simp add: changes_def)
    then have "partly ys w1 w'" "\<forall>z. r = Inr z \<longrightarrow> changed ys w1 w'"
      using assms(2) [of x] f by (simp_all add: does_def)
    then show ?thesis using partly_then [OF c] changes_trans [OF c] by blast
  qed
qed

lemma does_bind_lift:
  assumes "\<And>x. m = Inr x \<Longrightarrow> does (f x) ops"
  shows "does (bind (lift m) f) ops"
  using assms does_fail by (cases m) (simp_all add: bind_lift)

lemma does_bind_Nil: "does m [] \<Longrightarrow> (\<And>x. does (f x) ops) \<Longrightarrow> does (bind m f) ops"
  using does_bind [of m "[]" f ops] by simp

lemma does_then_Nil: "does m ops \<Longrightarrow> (\<And>x. does (f x) []) \<Longrightarrow> does (bind m f) ops"
  using does_bind [of m ops f "[]"] by simp

lemma does_ifSome: "(\<And>i. s = Some i \<Longrightarrow> does (f i) []) \<Longrightarrow> does (ifSome s f x) []"
  by (cases s) (simp_all add: ifSome_def does_ret)

lemma does_call:
  assumes "\<And>w w'. ok w \<Longrightarrow> f w = Inr w' \<Longrightarrow> changed ops w w'"
  shows "does (call f) ops"
proof (rule doesI)
  fix w w' r assume a: "ok w" "call f w = (w', r)"
  show "partly ops w w' \<and> (\<forall>x. r = Inr x \<longrightarrow> changed ops w w')"
  proof (cases "f w")
    case (Inl e)
    then have "kept w w'" "r = Inl e" using a by (auto simp: run_call keeps_def)
    then show ?thesis using partly_first [of "[]"] by simp
  next
    case (Inr w1)
    then have "w' = w1" using a(2) by (simp add: run_call)
    then show ?thesis using assms [OF a(1)] Inr changed_partly by simp
  qed
qed

lemma does_foldAct:
  assumes "\<And>x s. x \<in> set xs \<Longrightarrow> does (f x s) (ops x)"
  shows "does (foldAct f xs s) (concat (map ops xs))"
  using assms
proof (induction xs arbitrary: s)
  case (Cons x xs)
  have rest_does: "does (foldAct f xs s) (concat (map ops xs))" for s
    by (rule Cons.IH) (simp add: Cons.prems)
  show ?case
    using does_bind [of "f x s" "ops x" "foldAct f xs" "concat (map ops xs)"] Cons.prems [of x s] rest_does by simp
qed (simp add: does_ret)

lemma does_foldAct_Nil:
  assumes "\<And>x s. does (f x s) []"
  shows "does (foldAct f xs s) []"
proof -
  have "concat (map (\<lambda>_. []) xs) = ([] :: walletOp list)" by (induction xs) simp_all
  with does_foldAct [of xs f "\<lambda>_. []" s] assms show ?thesis by simp
qed

lemma does_commitment:
  assumes "\<And>t b. convert c = Inr (Some (t, b)) \<Longrightarrow> stPOIsPerList t = None \<and> stValue t \<noteq> None"
  shows "does (importCommitment None store spent convert txid c s) (receivedOps convert c)"
  unfolding importCommitment_def
proof (rule does_bind_lift)
  fix found assume "withCtx None (convert c) = Inr found"
  then have c: "convert c = Inr found" by simp
  show "does (case found of None \<Rightarrow> ret (s\<lparr>CommitmentsSkipped := Suc (CommitmentsSkipped s)\<rparr>)
      | Some (txo, isSent) \<Rightarrow> if isSent
         then ifSome spent (\<lambda>iface. bind (call (\<lambda>w. spUpsertSentCommitmentPOIEvent iface None w
             (sentCommitmentPOIStatusFromTXO txo (cmTxid c) (txid c txo)))) (\<lambda>_.
           ret (s\<lparr>SentCommitmentPOIEventsIndexed := Suc (SentCommitmentPOIEventsIndexed s)\<rparr>))) s
         else bind (call (\<lambda>w. ssUpsertTXO store None w txo)) (\<lambda>_. ret (s\<lparr>TXOsImported := Suc (TXOsImported s)\<rparr>)))
    (receivedOps convert c)"
  proof (cases found)
    case None
    then show ?thesis by (simp add: receivedOps_def c does_ret)
  next
    case (Some p)
    obtain t b where p: "p = (t, b)" by (cases p)
    show ?thesis
    proof (cases b)
      case True
      have "receivedOps convert c = []" by (simp add: receivedOps_def c Some p True)
      then show ?thesis
        by (simp add: Some p True) (intro does_ifSome does_then_Nil does_call does_ret, simp add: sent_event)
    next
      case False
      have r: "receivedOps convert c = [Received t]" by (simp add: receivedOps_def c Some p False)
      have "does (call (\<lambda>w. ssUpsertTXO store None w t)) [Received t]"
        using assms [of t False] by (intro does_call upsert) (simp_all add: c Some p False)
      then show ?thesis unfolding r by (simp add: Some p False) (intro does_then_Nil does_ret)
    qed
  qed
qed

lemma does_countSpend: "does (countSpend (\<lambda>w. markSpent store None w n e) s) [SpentBy n e]"
proof (rule doesI)
  fix w w' r assume a: "ok w" "countSpend (\<lambda>w. markSpent store None w n e) s w = (w', r)"
  have "changed [SpentBy n e] w w'"
  proof (cases "markSpent store None w n e")
    case (Inl err)
    then have "w' = w" using a(2) by (simp add: countSpend_def)
    then show ?thesis using spend_missing [OF a(1) Inl] a(1) by (simp add: changes_def fun_upd_idem)
  next
    case (Inr w1)
    then have "w' = w1" using a(2) by (simp add: countSpend_def)
    then show ?thesis using spend [OF a(1) Inr] by simp
  qed
  then show "partly [SpentBy n e] w w' \<and> (\<forall>x. r = Inr x \<longrightarrow> changed [SpentBy n e] w w')"
    using changed_partly by blast
qed

lemma does_nullifiers: "does (markNullifiersSpent None store ns s) (concat (map spentOps ns))"
  unfolding markNullifiersSpent_def
proof (rule does_foldAct)
  fix e s
  show "does (bind (lift (withCtx None (wrapErr ''nullifier: %w'' [] (FormatHexToByteLength (nuNullifier e) 32 False))))
      (\<lambda>nullifier. countSpend (\<lambda>w. markSpent store None w nullifier e) s)) (spentOps e)"
    by (rule does_bind_lift) (auto simp: spentOps_def wrapErr_Inr does_countSpend)
qed

lemma does_indexUTXOTree:
  assumes "\<And>t w w' r. ok w \<Longrightarrow> tree = Some t \<Longrightarrow> index t w = (w', r) \<Longrightarrow> kept w w'"
  shows "does (indexUTXOTree None tree index ns us s) []"
  unfolding indexUTXOTree_def Let_def
proof (intro does_ifSome does_bind_Nil does_ret)
  fix t assume t: "tree = Some t"
  show "does (indexCall (index t)) []"
    by (rule doesI) (auto simp: indexCall_def split: prod.splits option.splits dest: assms [OF _ t])
  show "does (countCall (\<lambda>w. up None w ns)) []" if "utUpsertNullifiers t = Some up" for up
    by (rule doesI) (simp add: countCall_def index_nullifiers [OF _ t that])
  show "does (countCall (\<lambda>w. up None w us False)) []" if "utUpsertUnshieldEvents t = Some up" for up
    by (rule doesI) (simp add: countCall_def index_unshields [OF _ t that])
qed

lemma does_importUnshields: "does (importUnshields None spent status us s) []"
  unfolding importUnshields_def
  by (intro does_ifSome does_foldAct_Nil does_bind_lift does_then_Nil does_call does_ret) (simp add: unshield_event)

lemma does_import_v2:
  "does (ImportV2AccumulatedEventsWithAllStores env None (Some store) spent tree keys acc)
     (importOps (txoFromV2CommitmentWithDirection env keys) (a2CommitmentEvents acc) (a2NullifierEvents acc))"
  unfolding ImportV2AccumulatedEventsWithAllStores_def importOps_def option.sel
  by (intro does_bind_lift does_bind_Nil does_indexUTXOTree does_importUnshields does_bind does_foldAct does_commitment does_nullifiers)
    (auto simp: index_v2 outputAt_def dest!: v2_output)

end

end
