(* ===== verification/Details.thy ===== *)
theory Details
  imports Chain FileMap
begin

text \<open>
  Models \<^verbatim>\<open>pkg/wallet/details\_store.go\<close>: what the wallet keeps per chain and version of
  transaction ids, in memory and on file. Cloned maps are equal maps; a list of heights that is absent
  reads back as the empty one.
\<close>

section \<open>The store in memory\<close>

record WalletDetails =
  wdTreeScannedHeights :: "uint64 list"
  wdCreationTree :: "uint64 option"
  wdCreationTreeHeight :: "uint64 option"

type_synonym WalletDetailsMap = "(string, WalletDetails) gomap"
type_synonym MemoryWalletDetailsStore = "(string, WalletDetailsMap) gomap option"

record 'w detailsIface =
  LoadWalletDetailsMap :: "ctx \<Rightarrow> 'w \<Rightarrow> Chain \<Rightarrow> WalletDetailsMap res"
  SaveWalletDetailsMap :: "ctx \<Rightarrow> 'w \<Rightarrow> Chain \<Rightarrow> WalletDetailsMap \<Rightarrow> 'w res"

abbreviation detailsRequired :: string where
  "detailsRequired \<equiv> ''wallet details store is required''"

definition walletDetailsChainKey :: "Chain \<Rightarrow> string res" where
  "walletDetailsChainKey chain = FullNetworkIDHex chain"

definition defaultWalletDetails :: WalletDetails where
  "defaultWalletDetails = \<lparr>wdTreeScannedHeights = [], wdCreationTree = None, wdCreationTreeHeight = None\<rparr>"

definition detailsOf :: "(string, 'r) gomap \<Rightarrow> string \<Rightarrow> ('r \<Rightarrow> WalletDetailsMap) \<Rightarrow> WalletDetailsMap" where
  "detailsOf entries key details = (case gget entries key of None \<Rightarrow> [] | Some record \<Rightarrow> details record)"

definition MemoryWalletDetailsStore_LoadWalletDetailsMap :: "ctx \<Rightarrow> MemoryWalletDetailsStore \<Rightarrow> Chain \<Rightarrow> WalletDetailsMap res" where
  "MemoryWalletDetailsStore_LoadWalletDetailsMap ctx store chain =
     withCtx ctx (notNil detailsRequired store (\<lambda>details.
     andThen (walletDetailsChainKey chain) (\<lambda>key. Inr (detailsOf details key (\<lambda>m. m)))))"

definition MemoryWalletDetailsStore_SaveWalletDetailsMap ::
  "ctx \<Rightarrow> MemoryWalletDetailsStore \<Rightarrow> Chain \<Rightarrow> WalletDetailsMap \<Rightarrow> MemoryWalletDetailsStore res" where
  "MemoryWalletDetailsStore_SaveWalletDetailsMap ctx store chain details =
     withCtx ctx (notNil detailsRequired store (\<lambda>chains.
     andThen (walletDetailsChainKey chain) (\<lambda>key. Inr (Some (gput key details chains)))))"

section \<open>The store on file\<close>

record walletDetailsChainRecord =
  drChain :: Chain
  drDetails :: WalletDetailsMap

type_synonym walletDetailsFileState = "(string, walletDetailsChainRecord) gomap"
type_synonym FileWalletDetailsStore = "walletDetailsChainRecord list fileStore option"

text \<open>The map is walked by its sorted keys.\<close>

definition walletDetailsFileRecordsFromState :: "walletDetailsFileState \<Rightarrow> walletDetailsChainRecord list" where
  "walletDetailsFileRecordsFromState state = map snd (sortBy (\<lambda>a b. fst a < fst b) state)"

definition FileWalletDetailsStore_loadLocked :: "walletDetailsChainRecord list fileStore \<Rightarrow> walletDetailsFileState res" where
  "FileWalletDetailsStore_loadLocked store =
     (if Path store = [] then Err ''wallet details store file path is required''
      else readFile (fsFile store) [] (\<lambda>records.
        foldResI 0 (\<lambda>i r state. andThen (wrapErr ''chains[%d]: %w'' [ANat i] (walletDetailsChainKey (drChain r))) (\<lambda>key.
          Inr (gput key r state))) records []))"

definition FileWalletDetailsStore_load :: "FileWalletDetailsStore \<Rightarrow> walletDetailsFileState res" where
  "FileWalletDetailsStore_load store = notNil detailsRequired store FileWalletDetailsStore_loadLocked"

definition FileWalletDetailsStore_saveLocked ::
  "saveEnv \<Rightarrow> walletDetailsChainRecord list fileStore \<Rightarrow> walletDetailsFileState \<Rightarrow> walletDetailsChainRecord list fileStore res" where
  "FileWalletDetailsStore_saveLocked env store state =
     (if Path store = [] then Err ''wallet details store file path is required''
      else andThen (writeFile env (walletDetailsFileRecordsFromState state)) (\<lambda>f. Inr (store\<lparr>fsFile := f\<rparr>)))"

definition FileWalletDetailsStore_update ::
  "saveEnv \<Rightarrow> FileWalletDetailsStore \<Rightarrow> (walletDetailsFileState \<Rightarrow> walletDetailsFileState res) \<Rightarrow> FileWalletDetailsStore res" where
  "FileWalletDetailsStore_update env store upd =
     notNil detailsRequired store (\<lambda>s.
     andThen (FileWalletDetailsStore_loadLocked s) (\<lambda>state.
     andThen (upd state) (\<lambda>state.
     andThen (FileWalletDetailsStore_saveLocked env s state) (\<lambda>s. Inr (Some s)))))"

definition FileWalletDetailsStore_LoadWalletDetailsMap :: "ctx \<Rightarrow> FileWalletDetailsStore \<Rightarrow> Chain \<Rightarrow> WalletDetailsMap res" where
  "FileWalletDetailsStore_LoadWalletDetailsMap ctx store chain =
     withCtx ctx (andThen (walletDetailsChainKey chain) (\<lambda>key.
     andThen (FileWalletDetailsStore_load store) (\<lambda>state. Inr (detailsOf state key drDetails))))"

definition FileWalletDetailsStore_SaveWalletDetailsMap ::
  "saveEnv \<Rightarrow> ctx \<Rightarrow> FileWalletDetailsStore \<Rightarrow> Chain \<Rightarrow> WalletDetailsMap \<Rightarrow> FileWalletDetailsStore res" where
  "FileWalletDetailsStore_SaveWalletDetailsMap env ctx store chain details =
     withCtx ctx (andThen (walletDetailsChainKey chain) (\<lambda>key.
     FileWalletDetailsStore_update env store (\<lambda>state. Inr (gput key \<lparr>drChain = chain, drDetails = details\<rparr> state))))"

section \<open>The contract of both\<close>

text \<open>On the stores of \<open>ok\<close>: a save succeeds for every chain that has a key, and a load then returns
  what was saved for that chain, and for the others what it returned before.\<close>

locale details_store =
  fixes load :: "'s \<Rightarrow> Chain \<Rightarrow> WalletDetailsMap res" and save :: "'s \<Rightarrow> Chain \<Rightarrow> WalletDetailsMap \<Rightarrow> 's res" and ok :: "'s \<Rightarrow> bool"
  assumes load_ok: "ok s \<Longrightarrow> (case walletDetailsChainKey chain of Inl e \<Rightarrow> load s chain = Inl e | Inr _ \<Rightarrow> isl (load s chain) = False)"
    and save_ok: "ok s \<Longrightarrow> walletDetailsChainKey chain = Inr key \<Longrightarrow>
      (\<exists>s'. save s chain details = Inr s' \<and> ok s' \<and> (\<forall>other. load s' other =
         (if walletDetailsChainKey other = Inr key then Inr details else load s other)))"
begin

text \<open>The last save of a chain counts.\<close>

lemma saves:
  assumes "ok s" "walletDetailsChainKey chain = Inr key"
  shows "\<exists>s'. save s chain d = Inr s' \<and> ok s' \<and> load s' chain = Inr d"
  using save_ok [OF assms, of d] assms(2) by auto

lemma save_other:
  assumes "ok s" "walletDetailsChainKey chain = Inr key" "save s chain d = Inr s'" "walletDetailsChainKey other \<noteq> Inr key"
  shows "load s' other = load s other"
  using save_ok [OF assms(1,2), of d] assms(3,4) by auto

end

interpretation memoryDetails: details_store "MemoryWalletDetailsStore_LoadWalletDetailsMap None" "MemoryWalletDetailsStore_SaveWalletDetailsMap None"
    "\<lambda>s. s \<noteq> None"
proof (unfold_locales, goal_cases)
  case (1 s chain)
  then show ?case
    by (cases "walletDetailsChainKey chain") (auto simp: MemoryWalletDetailsStore_LoadWalletDetailsMap_def)
next
  case (2 s chain key details)
  then obtain m where "s = Some m" by auto
  then show ?case
    using 2(2) by (auto simp: MemoryWalletDetailsStore_LoadWalletDetailsMap_def MemoryWalletDetailsStore_SaveWalletDetailsMap_def
        detailsOf_def gget_gput andThen_def split: sum.splits)
qed

text \<open>The file reads back as the state that was saved.\<close>

definition chainKeyed :: "walletDetailsFileState \<Rightarrow> bool" where
  "chainKeyed state \<longleftrightarrow> wfmap state \<and> (\<forall>(key, r) \<in> set state. walletDetailsChainKey (drChain r) = Inr key)"

definition recordKey :: "walletDetailsChainRecord \<Rightarrow> string" where
  "recordKey r = (case walletDetailsChainKey (drChain r) of Inr key \<Rightarrow> key | Inl _ \<Rightarrow> [])"

lemma load_details:
  assumes "\<forall>r \<in> set rs. walletDetailsChainKey (drChain r) = Inr (recordKey r)"
  shows "foldResI i (\<lambda>i r state. andThen (wrapErr ''chains[%d]: %w'' [ANat i] (walletDetailsChainKey (drChain r))) (\<lambda>key.
          Inr (gput key r state))) rs m = Inr (loadBy recordKey rs m)"
  using assms by (induction rs arbitrary: i m) simp_all

lemma chainKeyed_entry: "chainKeyed state \<Longrightarrow> (key, r) \<in> set state \<Longrightarrow> walletDetailsChainKey (drChain r) = Inr key \<and> recordKey r = key"
  by (auto simp: chainKeyed_def recordKey_def)

lemma saved_details:
  assumes "chainKeyed state" "Path s \<noteq> []"
  shows "\<exists>s' state'. FileWalletDetailsStore_saveLocked writable s state = Inr s' \<and> Path s' = Path s \<and>
    FileWalletDetailsStore_loadLocked s' = Inr state' \<and> chainKeyed state' \<and> (\<forall>k. gget state' k = gget state k)"
proof -
  define es where "es = sortBy (\<lambda>a b. fst a < fst b) state"
  define rs where "rs = map snd es"
  have es: "mset es = mset state" by (simp add: es_def)
  have rs: "walletDetailsChainKey (drChain r) = Inr (recordKey r) \<and> gget state (recordKey r) = Some r" if "r \<in> set rs" for r
    using that es chainKeyed_entry [OF assms(1)] assms(1) by (fastforce simp: rs_def chainKeyed_def dest: mset_eq_setD)
  have keys: "map recordKey rs = map fst es"
    using es chainKeyed_entry [OF assms(1)] by (fastforce simp: rs_def dest: mset_eq_setD)
  then have dist: "distinct (map recordKey rs)"
    using assms(1) es unfolding chainKeyed_def by (metis mset_map distinct_count_atmost_1 mset_eq_imp_distinct_iff)
  define state' where "state' = loadBy recordKey rs []"
  have get: "gget state' k = gget state k" for k
  proof (cases "k \<in> recordKey ` set rs")
    case True
    then obtain r where "r \<in> set rs" "recordKey r = k" by auto
    then show ?thesis using loadBy_entry [OF dist, of r] rs by (auto simp: state'_def)
  next
    case False
    then have "k \<notin> fst ` set state" using keys es by (metis list.set_map mset_eq_setD)
    then have "gget state k = None" unfolding map_of_eq_None_iff .
    then show ?thesis using False by (simp add: state'_def loadBy_other)
  qed
  have "chainKeyed state'"
    unfolding chainKeyed_def
  proof (intro conjI ballI, simp add: state'_def, clarify)
    fix k r
    assume "(k, r) \<in> set state'"
    then have "gget state' k = Some r" by (simp add: state'_def)
    then show "walletDetailsChainKey (drChain r) = Inr k" using get chainKeyed_entry [OF assms(1)] by (auto dest: map_of_SomeD)
  qed
  moreover have "FileWalletDetailsStore_saveLocked writable s state = Inr (s\<lparr>fsFile := FileDoc rs\<rparr>)"
    using assms(2) by (simp add: FileWalletDetailsStore_saveLocked_def walletDetailsFileRecordsFromState_def rs_def es_def)
  moreover have "FileWalletDetailsStore_loadLocked (s\<lparr>fsFile := FileDoc rs\<rparr>) = Inr state'"
    using assms(2) rs by (simp add: FileWalletDetailsStore_loadLocked_def readFile_def load_details state'_def)
  ultimately show ?thesis using get by (intro exI [of _ "s\<lparr>fsFile := FileDoc rs\<rparr>"] exI [of _ state']) simp
qed

definition detailsOnFile :: "FileWalletDetailsStore \<Rightarrow> bool" where
  "detailsOnFile store \<longleftrightarrow> (\<exists>s state. store = Some s \<and> Path s \<noteq> [] \<and> FileWalletDetailsStore_loadLocked s = Inr state \<and> chainKeyed state)"

interpretation fileDetails: details_store "FileWalletDetailsStore_LoadWalletDetailsMap None" "FileWalletDetailsStore_SaveWalletDetailsMap writable None"
    detailsOnFile
proof (unfold_locales, goal_cases)
  case (1 s chain)
  then show ?case
    by (cases "walletDetailsChainKey chain")
      (auto simp: FileWalletDetailsStore_LoadWalletDetailsMap_def FileWalletDetailsStore_load_def detailsOnFile_def)
next
  case (2 store chain key details)
  then obtain s state where s: "store = Some s" "Path s \<noteq> []" "FileWalletDetailsStore_loadLocked s = Inr state" "chainKeyed state"
    by (auto simp: detailsOnFile_def)
  have "chainKeyed (gput key \<lparr>drChain = chain, drDetails = details\<rparr> state)"
    using s(4) 2(2) gput_set [of state _ key] unfolding chainKeyed_def by fastforce
  from saved_details [OF this s(2)] obtain s' state' where s':
      "FileWalletDetailsStore_saveLocked writable s (gput key \<lparr>drChain = chain, drDetails = details\<rparr> state) = Inr s'" "Path s' = Path s"
      "FileWalletDetailsStore_loadLocked s' = Inr state'" "chainKeyed state'"
      "\<And>k. gget state' k = gget (gput key \<lparr>drChain = chain, drDetails = details\<rparr> state) k"
    by blast
  have "FileWalletDetailsStore_SaveWalletDetailsMap writable None store chain details = Inr (Some s')"
    using 2(2) s s'(1) by (simp add: FileWalletDetailsStore_SaveWalletDetailsMap_def FileWalletDetailsStore_update_def)
  moreover have "detailsOnFile (Some s')" using s'(2-4) s(2) by (simp add: detailsOnFile_def)
  moreover have "FileWalletDetailsStore_LoadWalletDetailsMap None (Some s') other =
      (if walletDetailsChainKey other = Inr key then Inr details else FileWalletDetailsStore_LoadWalletDetailsMap None store other)" for other
    by (cases "walletDetailsChainKey other")
      (auto simp: FileWalletDetailsStore_LoadWalletDetailsMap_def FileWalletDetailsStore_load_def s(1,3) s'(3,5) detailsOf_def gget_gput)
  ultimately show ?case by blast
qed

end
