(* ===== verification/WalletWorld.thy ===== *)
theory WalletWorld
  imports ImportEffect Details
begin

text \<open>
  The stores of a wallet as one world, with the interfaces of the code's stores on it: the outputs in
  memory or on file, the other stores in memory. The laws of the imports hold on both worlds.
\<close>

section \<open>The world\<close>

record 's walletWorld =
  wwDetails :: MemoryWalletDetailsStore
  wwState :: 's
  wwSpent :: MemorySpentPOIEventStore
  wwTree :: MemoryStore
  wwTxids :: MemoryTransactionStore
  wwTxidTree :: MemoryMerkleTreeStore
  wwCheckpoints :: MemoryCheckpointStore

definition within :: "('w \<Rightarrow> 's) \<Rightarrow> ('s \<Rightarrow> 'w \<Rightarrow> 'w) \<Rightarrow> ('s \<Rightarrow> 's res) \<Rightarrow> 'w \<Rightarrow> 'w res" where
  "within get put f w = andThen (f (get w)) (\<lambda>s. Inr (put s w))"

abbreviation onState :: "('s \<Rightarrow> 's res) \<Rightarrow> 's walletWorld \<Rightarrow> 's walletWorld res" where
  "onState \<equiv> within wwState (\<lambda>s w. w\<lparr>wwState := s\<rparr>)"

abbreviation onSpent :: "(MemorySpentPOIEventStore \<Rightarrow> MemorySpentPOIEventStore res) \<Rightarrow> 's walletWorld \<Rightarrow> 's walletWorld res" where
  "onSpent \<equiv> within wwSpent (\<lambda>s w. w\<lparr>wwSpent := s\<rparr>)"

abbreviation onTree :: "(MemoryStore \<Rightarrow> MemoryStore res) \<Rightarrow> 's walletWorld \<Rightarrow> 's walletWorld res" where
  "onTree \<equiv> within wwTree (\<lambda>s w. w\<lparr>wwTree := s\<rparr>)"

abbreviation onCheckpoints :: "(MemoryCheckpointStore \<Rightarrow> MemoryCheckpointStore res) \<Rightarrow> 's walletWorld \<Rightarrow> 's walletWorld res" where
  "onCheckpoints \<equiv> within wwCheckpoints (\<lambda>s w. w\<lparr>wwCheckpoints := s\<rparr>)"

definition memoryState :: "(byte list \<Rightarrow> byte list) \<Rightarrow> MemoryStateStore walletWorld stateIface" where
  "memoryState keccak =
     \<lparr>ssUpsertTXO = \<lambda>ctx w txo. onState (\<lambda>s. MemoryStateStore_UpsertTXO ctx s txo) w,
      ssGetTXO = \<lambda>ctx w. MemoryStateStore_GetTXO ctx (wwState w),
      ssListTXOs = \<lambda>ctx w. MemoryStateStore_ListTXOs ctx (wwState w),
      ssMarkTXOSpent = \<lambda>ctx w n txid. onState (\<lambda>s. MemoryStateStore_MarkTXOSpent ctx s n txid) w,
      ssUpdateTXOPOIs = \<lambda>ctx w n pois. onState (\<lambda>s. MemoryStateStore_UpdateTXOPOIs ctx s n pois) w,
      ssTokenBalances = \<lambda>ctx w. MemoryStateStore_TokenBalances keccak ctx (wwState w),
      ssReorg = Some \<lparr>rsMarkTXOSpentAtBlock = \<lambda>ctx w n txid b. onState (\<lambda>s. MemoryStateStore_MarkTXOSpentAtBlock ctx s n txid b) w,
        rsRollbackToBlock = \<lambda>ctx w b. onState (\<lambda>s. MemoryStateStore_RollbackToBlock ctx s b) w\<rparr>\<rparr>"

definition fileState :: "(byte list \<Rightarrow> byte list) \<Rightarrow> saveEnv \<Rightarrow> FileStateStore walletWorld stateIface" where
  "fileState keccak env =
     \<lparr>ssUpsertTXO = \<lambda>ctx w txo. onState (\<lambda>s. FileStateStore_UpsertTXO env ctx s txo) w,
      ssGetTXO = \<lambda>ctx w. FileStateStore_GetTXO ctx (wwState w),
      ssListTXOs = \<lambda>ctx w. FileStateStore_ListTXOs ctx (wwState w),
      ssMarkTXOSpent = \<lambda>ctx w n txid. onState (\<lambda>s. FileStateStore_MarkTXOSpent env ctx s n txid) w,
      ssUpdateTXOPOIs = \<lambda>ctx w n pois. onState (\<lambda>s. FileStateStore_UpdateTXOPOIs env ctx s n pois) w,
      ssTokenBalances = \<lambda>ctx w. FileStateStore_TokenBalances keccak ctx (wwState w),
      ssReorg = Some \<lparr>rsMarkTXOSpentAtBlock = \<lambda>ctx w n txid b. onState (\<lambda>s. FileStateStore_MarkTXOSpentAtBlock env ctx s n txid b) w,
        rsRollbackToBlock = \<lambda>ctx w b. onState (\<lambda>s. FileStateStore_RollbackToBlock env ctx s b) w\<rparr>\<rparr>"

definition memorySpent :: "'s walletWorld spentIface" where
  "memorySpent =
     \<lparr>spUpsertSentCommitmentPOIEvent = \<lambda>ctx w e. onSpent (\<lambda>s. MemorySpentPOIEventStore_UpsertSentCommitmentPOIEvent ctx s e) w,
      spUpsertUnshieldPOIEvent = \<lambda>ctx w e. onSpent (\<lambda>s. MemorySpentPOIEventStore_UpsertUnshieldPOIEvent ctx s e) w,
      spListSentCommitmentPOIEvents = \<lambda>ctx w. MemorySpentPOIEventStore_ListSentCommitmentPOIEvents ctx (wwSpent w),
      spListUnshieldPOIEvents = \<lambda>ctx w. MemorySpentPOIEventStore_ListUnshieldPOIEvents ctx (wwSpent w),
      spMarkProofSubmitted = \<lambda>ctx w subs. onSpent (\<lambda>s. MemorySpentPOIEventStore_MarkProofSubmitted ctx s subs) w,
      spRollbackToBlock = Some (\<lambda>ctx w b. onSpent (\<lambda>s. MemorySpentPOIEventStore_RollbackToBlock ctx s b) w)\<rparr>"

definition memoryTreeStore :: "('s walletWorld, 'e) storeIface" where
  "memoryTreeStore =
     \<lparr>upsertEvents = None, upsertLeaves = Some (\<lambda>ctx w leaves. onTree (\<lambda>s. MemoryStore_UpsertLeaves ctx s leaves) w),
      upsertLeaf = \<lambda>ctx w leaf. onTree (\<lambda>s. MemoryStore_UpsertLeaf ctx s leaf) w\<rparr>"

abbreviation onTxids :: "(MemoryTransactionStore \<Rightarrow> MemoryTransactionStore res) \<Rightarrow> 's walletWorld \<Rightarrow> 's walletWorld res" where
  "onTxids \<equiv> within wwTxids (\<lambda>s w. w\<lparr>wwTxids := s\<rparr>)"

abbreviation onTxidTree :: "(MemoryMerkleTreeStore \<Rightarrow> MemoryMerkleTreeStore res) \<Rightarrow> 's walletWorld \<Rightarrow> 's walletWorld res" where
  "onTxidTree \<equiv> within wwTxidTree (\<lambda>s w. w\<lparr>wwTxidTree := s\<rparr>)"

definition memoryTxids :: "'s walletWorld transactionIface" where
  "memoryTxids =
     \<lparr>tsUpsertTransaction = \<lambda>ctx w tx. onTxids (\<lambda>s. MemoryTransactionStore_UpsertTransaction ctx s tx) w,
      tsGetByRailgunTxid = \<lambda>ctx w. MemoryTransactionStore_GetByRailgunTxid ctx (wwTxids w),
      tsListTransactions = \<lambda>ctx w. MemoryTransactionStore_ListTransactions ctx (wwTxids w),
      tsRollbackToBlock = Some (\<lambda>ctx w b. onTxids (\<lambda>s. MemoryTransactionStore_RollbackToBlock ctx s b) w)\<rparr>"

definition memoryTxidTree :: "'s walletWorld merkleTreeIface" where
  "memoryTxidTree =
     \<lparr>mtStore = \<lparr>ListLeaves = \<lambda>ctx w. MemoryMerkleTreeStore_ListLeaves ctx (wwTxidTree w),
        UpsertLeaf = \<lambda>ctx w leaf. onTxidTree (\<lambda>s. MemoryMerkleTreeStore_UpsertLeaf ctx s leaf) w\<rparr>,
      mtRollbackToBlock = Some (\<lambda>ctx w b. onTxidTree (\<lambda>s. MemoryMerkleTreeStore_RollbackToBlock ctx s b) w)\<rparr>"

text \<open>The commitment tree in memory has none of the optional interfaces but the rollback.\<close>

definition memoryTree :: "poseidonConstantsRaw \<Rightarrow> 's walletWorld utxoTreeIface" where
  "memoryTree raw =
     \<lparr>utStoreV2 = memoryTreeStore, utStoreV3 = memoryTreeStore,
      utRoot = \<lambda>ctx w. MemoryStore_Root (HashLeftRight raw) ctx (wwTree w),
      utProof = \<lambda>ctx w. MemoryStore_Proof (HashLeftRight raw) ctx (wwTree w), utUpsertNullifiers = None, utUpsertUnshieldEvents = None,
      utListV2Commitments = None, utListV3Commitments = None, utListNullifiers = None, utListUnshieldEvents = None,
      utRollbackToBlock = Some (\<lambda>ctx w b. onTree (\<lambda>s. MemoryStore_RollbackToBlock ctx s b) w)\<rparr>"

definition memoryCheckpoints :: "'s walletWorld checkpointIface" where
  "memoryCheckpoints =
     \<lparr>LoadCheckpoint = \<lambda>ctx w key. MemoryCheckpointStore_LoadCheckpoint ctx (wwCheckpoints w) key,
      SaveCheckpoint = \<lambda>ctx w key c. onCheckpoints (\<lambda>s. MemoryCheckpointStore_SaveCheckpoint ctx s key c) w,
      RollbackCheckpoint = Some (\<lambda>ctx w key b. onCheckpoints (\<lambda>s. MemoryCheckpointStore_RollbackCheckpoint ctx s key b) w)\<rparr>"

definition memoryDetails :: "'s walletWorld detailsIface" where
  "memoryDetails =
     \<lparr>LoadWalletDetailsMap = \<lambda>ctx w. MemoryWalletDetailsStore_LoadWalletDetailsMap ctx (wwDetails w),
      SaveWalletDetailsMap = \<lambda>ctx w chain m. within wwDetails (\<lambda>s w. w\<lparr>wwDetails := s\<rparr>)
        (\<lambda>s. MemoryWalletDetailsStore_SaveWalletDetailsMap ctx s chain m) w\<rparr>"

section \<open>The laws hold\<close>

lemma within_Inr: "within get put f w = Inr w' \<longleftrightarrow> (\<exists>s. f (get w) = Inr s \<and> w' = put s w)"
  by (auto simp: within_def andThen_Inr)

lemma within_Inl: "within get put f w = Inl e \<longleftrightarrow> f (get w) = Inl e"
  by (cases "f (get w)") (simp_all add: within_def)

definition memoryOutputs :: "MemoryStateStore walletWorld \<Rightarrow> outputs" where
  "memoryOutputs w = (case wwState w of None \<Rightarrow> Map.empty | Some m \<Rightarrow> gget m)"

definition hasState :: "MemoryStateStore walletWorld \<Rightarrow> bool" where
  "hasState w \<longleftrightarrow> wwState w \<noteq> None \<and> wwCheckpoints w \<noteq> None"

lemma memory_kept:
  "hasState w \<Longrightarrow> keeps hasState memoryOutputs wwCheckpoints w (w\<lparr>wwSpent := s\<rparr>)"
  "hasState w \<Longrightarrow> keeps hasState memoryOutputs wwCheckpoints w (w\<lparr>wwTree := t\<rparr>)"
  "hasState w \<Longrightarrow> keeps hasState memoryOutputs wwCheckpoints w w"
  by (simp_all add: keeps_def hasState_def memoryOutputs_def)

lemma index_memoryTree:
  assumes "\<And>t. P (w\<lparr>wwTree := t\<rparr>)" and "P w"
  shows "indexLeaves None memoryTreeStore w leaves = (w', r) \<Longrightarrow> P w'"
  using assms by (auto simp: indexLeaves_def memoryTreeStore_def within_Inr split: sum.splits)

lemma index_memory:
  assumes "\<And>t. P (w\<lparr>wwTree := t\<rparr>)" and "P w"
  shows "IndexV2CommitmentEvents None (Some memoryTreeStore) w es = (w', r) \<Longrightarrow> P w'"
    "IndexV3CommitmentEvents None (Some memoryTreeStore) w es' = (w', r) \<Longrightarrow> P w'"
proof -
  have none: "upsertEvents memoryTreeStore = None" by (simp add: memoryTreeStore_def)
  note ix = index_memoryTree [of P, OF assms]
  show "IndexV2CommitmentEvents None (Some memoryTreeStore) w es = (w', r) \<Longrightarrow> P w'"
    using assms(2) by (cases r) (auto simp: IndexV2CommitmentEvents_def none split: prod.splits option.splits dest: ix)
  show "IndexV3CommitmentEvents None (Some memoryTreeStore) w es' = (w', r) \<Longrightarrow> P w'"
    using assms(2) by (cases r) (auto simp: IndexV3CommitmentEvents_def none split: prod.splits option.splits dest: ix)
qed

lemma memory_state_ops:
  assumes "hasState w"
  shows "ssUpsertTXO (memoryState keccak) None w t = Inr w' \<Longrightarrow> changes hasState memoryOutputs wwCheckpoints [Received t] w w'"
    "markSpent (memoryState keccak) None w n e = Inr w' \<Longrightarrow> changes hasState memoryOutputs wwCheckpoints [SpentBy n e] w w'"
    "markSpent (memoryState keccak) None w n e = Inl err \<Longrightarrow> memoryOutputs w n = None"
proof -
  obtain m where m: "wwState w = Some m" using assms by (auto simp: hasState_def)
  have view: "hasState (w\<lparr>wwState := Some m'\<rparr>)" "memoryOutputs (w\<lparr>wwState := Some m'\<rparr>) = gget m'" "memoryOutputs w = gget m" for m'
    using assms m by (simp_all add: hasState_def memoryOutputs_def)
  show "changes hasState memoryOutputs wwCheckpoints [Received t] w w'" if "ssUpsertTXO (memoryState keccak) None w t = Inr w'"
    using that by (auto simp: memoryState_def within_Inr MemoryStateStore_UpsertTXO_def m changes_def view gget_gput split: if_splits)
  have mark: "markSpent (memoryState keccak) None w n e =
      (case gget m n of None \<Rightarrow> Inl (missingTXO n) | Some t \<Rightarrow> Inr (w\<lparr>wwState := Some (gput n (spendBy e t) m)\<rparr>))"
    by (simp add: memoryState_def markSpent_def within_def MemoryStateStore_MarkTXOSpentAtBlock_def MemoryStateStore_markTXOSpent_def
        spendTXO_def m spendBy_def split: option.splits)
  show "changes hasState memoryOutputs wwCheckpoints [SpentBy n e] w w'" if "markSpent (memoryState keccak) None w n e = Inr w'"
    using that unfolding mark by (auto simp: changes_def view gget_gput split: option.splits)
  show "memoryOutputs w n = None" if "markSpent (memoryState keccak) None w n e = Inl err"
    using that unfolding mark by (simp add: view split: option.splits)
qed

interpretation memoryWallet: wallet_stores "memoryState keccak" hasState memoryOutputs wwCheckpoints "Some memorySpent" "Some (memoryTree raw)"
proof (unfold_locales, goal_cases)
  case (1 w t w') then show ?case using memory_state_ops(1) by blast
next
  case (2 w n e w') then show ?case using memory_state_ops(2) by blast
next
  case (3 w n e err) then show ?case using memory_state_ops(3) by blast
next
  case (4 w i event w') then show ?case using memory_kept(1) by (auto simp: memorySpent_def within_Inr)
next
  case (5 w i u w') then show ?case using memory_kept(1) by (auto simp: memorySpent_def within_Inr)
next
  case (6 w t es w' r)
  then have ix: "IndexV2CommitmentEvents None (Some memoryTreeStore) w es = (w', r)" by (auto simp: memoryTree_def)
  show ?case by (rule index_memory(1) [OF _ _ ix]) (rule memory_kept [OF 6(1)])+
next
  case (7 w t es w' r)
  then have ix: "IndexV3CommitmentEvents None (Some memoryTreeStore) w es = (w', r)" by (auto simp: memoryTree_def)
  show ?case by (rule index_memory(2) [OF _ _ ix]) (rule memory_kept [OF 7(1)])+
qed (auto simp: memoryTree_def)

section \<open>The outputs on file\<close>

definition fileOutputs :: "FileStateStore walletWorld \<Rightarrow> outputs" where
  "fileOutputs w = (case FileStateStore_load (wwState w) of Inl _ \<Rightarrow> Map.empty | Inr m \<Rightarrow> (\<lambda>n. map_option normalTXO (gget m n)))"

definition goodFile :: "FileStateStore walletWorld \<Rightarrow> bool" where
  "goodFile w \<longleftrightarrow> wwCheckpoints w \<noteq> None \<and> (\<exists>s m. wwState w = Some s \<and> Path s \<noteq> [] \<and>
     FileStateStore_loadLocked s = Inr m \<and> goodTXOs m \<and> valued m)"

lemma file_kept:
  "goodFile w \<Longrightarrow> keeps goodFile fileOutputs wwCheckpoints w (w\<lparr>wwSpent := s\<rparr>)"
  "goodFile w \<Longrightarrow> keeps goodFile fileOutputs wwCheckpoints w (w\<lparr>wwTree := t\<rparr>)"
  "goodFile w \<Longrightarrow> keeps goodFile fileOutputs wwCheckpoints w w"
  by (simp_all add: keeps_def goodFile_def fileOutputs_def)

lemma file_step:
  assumes "FileStateStore_loadLocked s = Inr m" and "goodTXOs m" "valued m" "Path s \<noteq> []" "wwCheckpoints w \<noteq> None"
    and op: "valuedOp op" "applyOp op m = Inr m'" and r: "fileStep op (Some s) = Inr s'"
  shows "goodFile (w\<lparr>wwState := s'\<rparr>)" "fileOutputs (w\<lparr>wwState := s'\<rparr>) = (\<lambda>n. map_option normalTXO (gget m' n))"
proof -
  note ok = applyOp_good [OF assms(2) op(2)] applyOp_valued [OF assms(2,3) op]
  obtain s1 txos where save: "FileStateStore_saveLocked writable s m' = Inr s1" "Path s1 = Path s"
      "FileStateStore_loadLocked s1 = Inr txos" "goodTXOs txos" "\<And>n. gget txos n = map_option normalTXO (gget m' n)"
    by (rule save_load [OF ok assms(4)], rule that)
  have s': "s' = Some s1"
    using r unfolding fileStep_applyOp [OF assms(1)] op(2) by (simp add: save(1))
  have "valued txos"
    using ok(2) save(5) by (auto simp: valued_def)
  then show "goodFile (w\<lparr>wwState := s'\<rparr>)"
    using save(2-4) assms(4,5) by (simp add: goodFile_def s')
  show "fileOutputs (w\<lparr>wwState := s'\<rparr>) = (\<lambda>n. map_option normalTXO (gget m' n))"
    by (simp add: fileOutputs_def s' FileStateStore_load_def save(3,5) option.map_comp comp_def)
qed

lemma file_state_ops:
  assumes "goodFile w"
  shows "stPOIsPerList t = None \<Longrightarrow> stValue t \<noteq> None \<Longrightarrow> ssUpsertTXO (fileState keccak writable) None w t = Inr w' \<Longrightarrow>
      changes goodFile fileOutputs wwCheckpoints [Received t] w w'"
    "markSpent (fileState keccak writable) None w n e = Inr w' \<Longrightarrow> changes goodFile fileOutputs wwCheckpoints [SpentBy n e] w w'"
    "markSpent (fileState keccak writable) None w n e = Inl err \<Longrightarrow> fileOutputs w n = None"
proof -
  obtain s m where s: "wwState w = Some s" "FileStateStore_loadLocked s = Inr m" "goodTXOs m" "valued m" "Path s \<noteq> []" "wwCheckpoints w \<noteq> None"
    using assms by (auto simp: goodFile_def)
  have view: "fileOutputs w = (\<lambda>n. map_option normalTXO (gget m n))"
    by (simp add: fileOutputs_def s(1,2) FileStateStore_load_def)
  show "changes goodFile fileOutputs wwCheckpoints [Received t] w w'"
    if t: "stPOIsPerList t = None" "stValue t \<noteq> None" and up: "ssUpsertTXO (fileState keccak writable) None w t = Inr w'"
  proof -
    obtain s' where f: "fileStep (UpsertTXO t) (Some s) = Inr s'" and w': "w' = w\<lparr>wwState := s'\<rparr>"
      using up by (auto simp: fileState_def within_Inr s(1))
    then have n: "applyOp (UpsertTXO t) m = Inr (gput (stNullifier t) t m)"
      by (auto simp: FileStateStore_UpsertTXO_def split: if_splits)
    have "normalTXO t = t" using t(1) by (simp add: normalTXO_def omitEmpty_def)
    then show ?thesis
      using file_step [OF s(2-6) _ n f] t(2) by (auto simp: changes_def w' view gget_gput)
  qed
  have mark: "markSpent (fileState keccak writable) None w n e =
      andThen (fileStep (MarkTXOSpent n (nuTxid e) (Some (nuBlockNumber e))) (Some s)) (\<lambda>s'. Inr (w\<lparr>wwState := s'\<rparr>))"
    by (simp add: fileState_def markSpent_def within_def s(1))
  have op: "applyOp (MarkTXOSpent n (nuTxid e) (Some (nuBlockNumber e))) m =
      (case gget m n of None \<Rightarrow> Inl (missingTXO n) | Some t \<Rightarrow> Inr (gput n (spendBy e t) m))"
    by (simp add: spendTXO_def spendBy_def split: option.splits)
  show "changes goodFile fileOutputs wwCheckpoints [SpentBy n e] w w'" if r: "markSpent (fileState keccak writable) None w n e = Inr w'"
  proof -
    obtain s' where f: "fileStep (MarkTXOSpent n (nuTxid e) (Some (nuBlockNumber e))) (Some s) = Inr s'" and w': "w' = w\<lparr>wwState := s'\<rparr>"
      using r unfolding mark by (auto simp: andThen_Inr)
    obtain t where t: "gget m n = Some t"
      using f unfolding fileStep_applyOp [OF s(2)] op by (cases "gget m n") simp_all
    have n: "applyOp (MarkTXOSpent n (nuTxid e) (Some (nuBlockNumber e))) m = Inr (gput n (spendBy e t) m)"
      unfolding op by (simp add: t)
    have "normalTXO (spendBy e t) = spendBy e (normalTXO t)" by (simp add: spendBy_def normalTXO_update)
    then show ?thesis
      using file_step [OF s(2-6) _ n f] by (auto simp: changes_def w' view gget_gput t)
  qed
  show "fileOutputs w n = None" if r: "markSpent (fileState keccak writable) None w n e = Inl err"
  proof (cases "gget m n")
    case (Some t)
    then have n: "applyOp (MarkTXOSpent n (nuTxid e) (Some (nuBlockNumber e))) m = Inr (gput n (spendBy e t) m)"
      unfolding op by simp
    have ok: "goodTXOs (gput n (spendBy e t) m)" "valued (gput n (spendBy e t) m)"
      using applyOp_good [OF s(3) n] applyOp_valued [OF s(3,4) _ n] by simp_all
    obtain s1 txos where "FileStateStore_saveLocked writable s (gput n (spendBy e t) m) = Inr s1"
      by (rule save_load [OF ok s(5)], rule that)
    then show ?thesis using r unfolding mark fileStep_applyOp [OF s(2)] n by simp
  qed (simp add: view)
qed

interpretation fileWallet: wallet_stores "fileState keccak writable" goodFile fileOutputs wwCheckpoints "Some memorySpent" "Some (memoryTree raw)"
proof (unfold_locales, goal_cases)
  case (1 w t w') then show ?case using file_state_ops(1) by blast
next
  case (2 w n e w') then show ?case using file_state_ops(2) by blast
next
  case (3 w n e err) then show ?case using file_state_ops(3) by blast
next
  case (4 w i event w') then show ?case using file_kept(1) by (auto simp: memorySpent_def within_Inr)
next
  case (5 w i u w') then show ?case using file_kept(1) by (auto simp: memorySpent_def within_Inr)
next
  case (6 w t es w' r)
  then have ix: "IndexV2CommitmentEvents None (Some memoryTreeStore) w es = (w', r)" by (auto simp: memoryTree_def)
  show ?case by (rule index_memory(1) [OF _ _ ix]) (rule file_kept [OF 6(1)])+
next
  case (7 w t es w' r)
  then have ix: "IndexV3CommitmentEvents None (Some memoryTreeStore) w es = (w', r)" by (auto simp: memoryTree_def)
  show ?case by (rule index_memory(2) [OF _ _ ix]) (rule file_kept [OF 7(1)])+
qed (auto simp: memoryTree_def)

end
