(* ===== verification/WalletSync.thy ===== *)
theory WalletSync
  imports Importer Details
begin

text \<open>
  Models \<^verbatim>\<open>pkg/wallet/sync.go\<close>, the wallet of \<^verbatim>\<open>wallet.go\<close> with its
  rollback, and \<^verbatim>\<open>local_rescan.go\<close>: a sync scans the blocks after the checkpoint by
  chunks, imports each chunk and saves the checkpoint behind it.
\<close>

section \<open>Synchronisation\<close>

record SyncResult =
  srFrom :: uint64
  srTo :: uint64
  srScanned :: bool
  srCheckpoint :: ScanCheckpoint
  srImport :: ImportSummary

definition addImportSummary :: "ImportSummary \<Rightarrow> ImportSummary \<Rightarrow> ImportSummary" where
  "addImportSummary whole part =
     \<lparr>TXOsImported = TXOsImported whole + TXOsImported part,
      CommitmentsSkipped = CommitmentsSkipped whole + CommitmentsSkipped part,
      SpendsMarked = SpendsMarked whole + SpendsMarked part,
      SpendsSkipped = SpendsSkipped whole + SpendsSkipped part,
      RailgunTransactionsIndexed = RailgunTransactionsIndexed whole + RailgunTransactionsIndexed part,
      TXIDMerkleLeavesIndexed = TXIDMerkleLeavesIndexed whole + TXIDMerkleLeavesIndexed part,
      UTXOMerkleLeavesIndexed = UTXOMerkleLeavesIndexed whole + UTXOMerkleLeavesIndexed part,
      NullifierEventsIndexed = NullifierEventsIndexed whole + NullifierEventsIndexed part,
      UnshieldEventsIndexed = UnshieldEventsIndexed whole + UnshieldEventsIndexed part,
      SentCommitmentPOIEventsIndexed = SentCommitmentPOIEventsIndexed whole + SentCommitmentPOIEventsIndexed part,
      UnshieldPOIEventsIndexed = UnshieldPOIEventsIndexed whole + UnshieldPOIEventsIndexed part\<rparr>"

definition validateSyncInputs ::
  "checkpointedProvider option \<Rightarrow> 'w checkpointIface option \<Rightarrow> 'w stateIface option \<Rightarrow> ScanKeys \<Rightarrow> CheckpointedScan \<Rightarrow> unit res" where
  "validateSyncInputs provider checkpoints state keys scan =
     (if provider = None then Err ''event provider is required''
      else if checkpoints = None then Err ''checkpoint store is required''
      else if csKey scan = [] then Err ''checkpoint key is required''
      else validateImportInputs state keys)"

definition syncStartBlock :: "ctx \<Rightarrow> 'w checkpointIface \<Rightarrow> CheckpointedScan \<Rightarrow> 'w \<Rightarrow> uint64 res" where
  "syncStartBlock ctx checkpoints scan w =
     andThen (LoadCheckpoint checkpoints ctx w (csKey scan)) (\<lambda>found.
       Inr (case found of Some checkpoint \<Rightarrow> NextBlock checkpoint | None \<Rightarrow> csStartBlock scan))"

definition syncFinalizedToBlock :: "ctx \<Rightarrow> checkpointedProvider \<Rightarrow> uint64 \<Rightarrow> uint64 option res" where
  "syncFinalizedToBlock ctx provider confirmations =
     andThen (BlockNumber provider ctx) (\<lambda>latest. Inr (if latest < confirmations then None else Some (latest - confirmations)))"

text \<open>The handler of a chunk, with the result and the summary that it carries along.\<close>

definition syncChunk ::
  "ctx \<Rightarrow> 'w checkpointIface \<Rightarrow> string \<Rightarrow> ('ev \<Rightarrow> ('w, ImportSummary) act) \<Rightarrow> 'ev \<Rightarrow> ScannedLogChunk
   \<Rightarrow> 'w \<times> SyncResult \<times> ImportSummary \<Rightarrow> ('w \<times> SyncResult \<times> ImportSummary) \<times> gerr option" where
  "syncChunk ctx checkpoints key importEvents accumulated chunk = (\<lambda>(w, result, summary).
     case importEvents accumulated w of
       (w', Inl e) \<Rightarrow> ((w', result, summary), Some e)
     | (w', Inr part) \<Rightarrow>
         (let summary = addImportSummary summary part;
              checkpoint = \<lparr>NextBlock = scToBlock chunk + 1\<rparr>;
              result = result\<lparr>srTo := scToBlock chunk, srScanned := True, srImport := summary, srCheckpoint := checkpoint\<rparr>
          in (case SaveCheckpoint checkpoints ctx w' key checkpoint of
               Inl e \<Rightarrow> ((w', result, summary), Some e)
             | Inr w'' \<Rightarrow> ((w'', result, summary), None))))"

text \<open>The two syncs differ in the scan and the import only.\<close>

definition syncFromCheckpoint ::
  "(logProvider option \<Rightarrow> ScanRange \<Rightarrow> ('ev \<Rightarrow> ScannedLogChunk \<Rightarrow> 'w \<times> SyncResult \<times> ImportSummary
      \<Rightarrow> ('w \<times> SyncResult \<times> ImportSummary) \<times> gerr option) \<Rightarrow> 'w \<times> SyncResult \<times> ImportSummary
      \<Rightarrow> ('w \<times> SyncResult \<times> ImportSummary) \<times> gerr option)
   \<Rightarrow> ('ev \<Rightarrow> ('w, ImportSummary) act) \<Rightarrow> ctx \<Rightarrow> checkpointedProvider option \<Rightarrow> 'w checkpointIface option
   \<Rightarrow> 'w stateIface option \<Rightarrow> ScanKeys \<Rightarrow> CheckpointedScan \<Rightarrow> ('w, SyncResult) act" where
  "syncFromCheckpoint scanChunks importEvents ctx provider checkpoints state keys scan =
     bind (lift (validateSyncInputs provider checkpoints state keys scan)) (\<lambda>_.
     bind (reads (syncStartBlock ctx (the checkpoints) scan)) (\<lambda>start.
     bind (lift (syncFinalizedToBlock ctx (the provider) (csConfirmations scan))) (\<lambda>final.
     let result = \<lparr>srFrom = start, srTo = 0, srScanned = False, srCheckpoint = \<lparr>NextBlock = start\<rparr>, srImport = emptySummary\<rparr>
     in case final of
          None \<Rightarrow> ret result
        | Some stop \<Rightarrow>
            if stop < start then ret result
            else (\<lambda>w. case scanChunks (Some (FilterLogs (the provider)))
                     \<lparr>srAddresses = csAddresses scan, srFromBlock = start, srToBlock = stop, srChunkSize = csChunkSize scan\<rparr>
                     (syncChunk ctx (the checkpoints) (csKey scan) importEvents) (w, result, emptySummary) of
                   ((w', _), Some e) \<Rightarrow> (w', Inl e)
                 | ((w', result, _), None) \<Rightarrow> (w', Inr result)))))"

definition SyncV2FromCheckpointWithAllStores ::
  "noteEnv \<Rightarrow> v2Topics res \<Rightarrow> (ContractLog list \<Rightarrow> V2AccumulatedEvents res) \<Rightarrow> ctx \<Rightarrow> checkpointedProvider option
   \<Rightarrow> 'w checkpointIface option \<Rightarrow> 'w stateIface option \<Rightarrow> 'w spentIface option \<Rightarrow> 'w utxoTreeIface option \<Rightarrow> ScanKeys
   \<Rightarrow> CheckpointedScan \<Rightarrow> ('w, SyncResult) act" where
  "SyncV2FromCheckpointWithAllStores env topics accumulate ctx provider checkpoints state spent utxoTree keys scan =
     syncFromCheckpoint (ScanV2EventChunks topics accumulate ctx)
       (ImportV2AccumulatedEventsWithAllStores env ctx state spent utxoTree keys) ctx provider checkpoints state keys scan"

definition SyncV2FromCheckpointWithStores where
  "SyncV2FromCheckpointWithStores env topics accumulate ctx provider checkpoints state spent keys scan =
     SyncV2FromCheckpointWithAllStores env topics accumulate ctx provider checkpoints state spent None keys scan"

definition SyncV2FromCheckpoint where
  "SyncV2FromCheckpoint env topics accumulate ctx provider checkpoints state keys scan =
     SyncV2FromCheckpointWithStores env topics accumulate ctx provider checkpoints state None keys scan"

definition SyncV3FromCheckpointWithAllStores ::
  "noteEnv \<Rightarrow> string res \<Rightarrow> (ContractLog list \<Rightarrow> V3AccumulatorEvents res) \<Rightarrow> ctx \<Rightarrow> checkpointedProvider option
   \<Rightarrow> 'w checkpointIface option \<Rightarrow> 'w stateIface option \<Rightarrow> 'w transactionIface option \<Rightarrow> 'w merkleTreeIface option
   \<Rightarrow> 'w utxoTreeIface option \<Rightarrow> 'w spentIface option \<Rightarrow> ScanKeys \<Rightarrow> CheckpointedScan \<Rightarrow> ('w, SyncResult) act" where
  "SyncV3FromCheckpointWithAllStores env topic accumulate ctx provider checkpoints state txidStore txidMerkleTree utxoTree spent keys scan =
     syncFromCheckpoint (ScanV3EventChunks topic accumulate ctx)
       (ImportV3AccumulatedEventsWithAllStores env ctx state txidStore txidMerkleTree utxoTree spent keys)
       ctx provider checkpoints state keys scan"

definition SyncV3FromCheckpointWithStores where
  "SyncV3FromCheckpointWithStores env topic accumulate ctx provider checkpoints state txidStore txidMerkleTree spent keys scan =
     SyncV3FromCheckpointWithAllStores env topic accumulate ctx provider checkpoints state txidStore txidMerkleTree None spent keys scan"

definition SyncV3FromCheckpointWithTXIDStores where
  "SyncV3FromCheckpointWithTXIDStores env topic accumulate ctx provider checkpoints state txidStore txidMerkleTree keys scan =
     SyncV3FromCheckpointWithStores env topic accumulate ctx provider checkpoints state txidStore txidMerkleTree None keys scan"

definition SyncV3FromCheckpointWithTXIDStore where
  "SyncV3FromCheckpointWithTXIDStore env topic accumulate ctx provider checkpoints state txidStore keys scan =
     SyncV3FromCheckpointWithTXIDStores env topic accumulate ctx provider checkpoints state txidStore None keys scan"

definition SyncV3FromCheckpoint where
  "SyncV3FromCheckpoint env topic accumulate ctx provider checkpoints state keys scan =
     SyncV3FromCheckpointWithTXIDStore env topic accumulate ctx provider checkpoints state None keys scan"

section \<open>Rollback\<close>

text \<open>The optional stores, as their rollback.\<close>

type_synonym 'w rollback = "ctx \<Rightarrow> 'w \<Rightarrow> uint64 \<Rightarrow> 'w res"

definition rollbackStore :: "ctx \<Rightarrow> uint64 \<Rightarrow> 'w rollback option \<Rightarrow> ('w, unit) act" where
  "rollbackStore ctx fromBlock store = ifSome store (\<lambda>rollback. call (\<lambda>w. rollback ctx w fromBlock)) ()"

definition RollbackWalletSyncWithAllStores ::
  "ctx \<Rightarrow> 'w checkpointIface option \<Rightarrow> 'w stateIface option \<Rightarrow> 'w rollback option \<Rightarrow> 'w rollback option \<Rightarrow> 'w rollback option
   \<Rightarrow> 'w rollback option \<Rightarrow> string \<Rightarrow> uint64 \<Rightarrow> ('w, unit) act" where
  "RollbackWalletSyncWithAllStores ctx checkpoints state txidStore txidMerkleTree utxoTree spent checkpointKey fromBlock =
     (case Option.bind state ssReorg of
        None \<Rightarrow> lift (Err ''state store does not support rollback'')
      | Some reorgState \<Rightarrow>
          bind (call (\<lambda>w. rsRollbackToBlock reorgState ctx w fromBlock)) (\<lambda>_.
          bind (rollbackStore ctx fromBlock txidStore) (\<lambda>_.
          bind (rollbackStore ctx fromBlock txidMerkleTree) (\<lambda>_.
          bind (rollbackStore ctx fromBlock utxoTree) (\<lambda>_.
          bind (rollbackStore ctx fromBlock spent) (\<lambda>_.
          call (\<lambda>w. RollbackScanCheckpoint ctx checkpoints w checkpointKey fromBlock)))))))"

definition RollbackWalletSyncWithStores where
  "RollbackWalletSyncWithStores ctx checkpoints state txidStore txidMerkleTree spent checkpointKey fromBlock =
     RollbackWalletSyncWithAllStores ctx checkpoints state txidStore txidMerkleTree None spent checkpointKey fromBlock"

definition RollbackWalletSyncWithTXIDStores where
  "RollbackWalletSyncWithTXIDStores ctx checkpoints state txidStore txidMerkleTree checkpointKey fromBlock =
     RollbackWalletSyncWithStores ctx checkpoints state txidStore txidMerkleTree None checkpointKey fromBlock"

definition RollbackWalletSyncWithTXIDStore where
  "RollbackWalletSyncWithTXIDStore ctx checkpoints state txidStore checkpointKey fromBlock =
     RollbackWalletSyncWithTXIDStores ctx checkpoints state txidStore None checkpointKey fromBlock"

definition RollbackWalletSync where
  "RollbackWalletSync ctx checkpoints state checkpointKey fromBlock =
     RollbackWalletSyncWithTXIDStore ctx checkpoints state None checkpointKey fromBlock"

section \<open>The wallet\<close>

record 'w Wallet =
  waState :: "'w stateIface option"
  waCheckpoints :: "'w checkpointIface option"
  waKeys :: ScanKeys
  waPOIManager :: "Manager option"
  waTXIDStore :: "'w transactionIface option"
  waTXIDMerkleTree :: "'w merkleTreeIface option"
  waUTXOMerkleTree :: "'w utxoTreeIface option"
  waSpentPOIEvents :: "'w spentIface option"
  waDetails :: "'w detailsIface option"

definition validateWallet :: "'w Wallet option \<Rightarrow> unit res" where
  "validateWallet wallet =
     notNil ''wallet is required'' wallet (\<lambda>w.
     if waState w = None then Err ''state store is required''
     else if waCheckpoints w = None then Err ''checkpoint store is required''
     else if waPOIManager w = None then Err ''poi manager is required''
     else validateImportInputs (waState w) (waKeys w))"

definition withValid :: "'w Wallet option \<Rightarrow> ('w Wallet \<Rightarrow> ('w, 'a) act) \<Rightarrow> ('w, 'a) act" where
  "withValid wallet f = bind (lift (validateWallet wallet)) (\<lambda>_. f (the wallet))"

definition SyncV2 where
  "SyncV2 env topics accumulate ctx wallet provider scan =
     withValid wallet (\<lambda>w. SyncV2FromCheckpointWithAllStores env topics accumulate ctx provider (waCheckpoints w) (waState w)
       (waSpentPOIEvents w) (waUTXOMerkleTree w) (waKeys w) scan)"

definition SyncV3 where
  "SyncV3 env topic accumulate ctx wallet provider scan =
     withValid wallet (\<lambda>w. SyncV3FromCheckpointWithAllStores env topic accumulate ctx provider (waCheckpoints w) (waState w)
       (waTXIDStore w) (waTXIDMerkleTree w) (waUTXOMerkleTree w) (waSpentPOIEvents w) (waKeys w) scan)"

text \<open>The rollback of an optional store: a store that is there must support it.\<close>

definition reorgStore :: "string \<Rightarrow> ('i \<Rightarrow> 'w rollback option) \<Rightarrow> 'i option \<Rightarrow> 'w rollback option res" where
  "reorgStore unsupported rollback store =
     (case store of
        None \<Rightarrow> Inr None
      | Some iface \<Rightarrow> (case rollback iface of None \<Rightarrow> Err unsupported | Some r \<Rightarrow> Inr (Some r)))"

definition Rollback :: "ctx \<Rightarrow> 'w Wallet option \<Rightarrow> string \<Rightarrow> uint64 \<Rightarrow> ('w, unit) act" where
  "Rollback ctx wallet checkpointKey fromBlock =
     withValid wallet (\<lambda>w.
     bind (lift (reorgStore ''txid store does not support rollback'' tsRollbackToBlock (waTXIDStore w))) (\<lambda>txidStore.
     bind (lift (reorgStore ''txid merkle tree store does not support rollback'' mtRollbackToBlock (waTXIDMerkleTree w))) (\<lambda>txidMerkleTree.
     bind (lift (reorgStore ''utxo merkle tree store does not support rollback'' utRollbackToBlock (waUTXOMerkleTree w))) (\<lambda>utxoTree.
     bind (lift (reorgStore ''spent poi event store does not support rollback'' spRollbackToBlock (waSpentPOIEvents w))) (\<lambda>spent.
     RollbackWalletSyncWithAllStores ctx (waCheckpoints w) (waState w) txidStore txidMerkleTree utxoTree spent
       checkpointKey fromBlock)))))"

section \<open>The rescan of the local commitment tree\<close>

definition rescanLocalCommitments ::
  "string \<Rightarrow> (ctx \<Rightarrow> 'w \<Rightarrow> 'c commitment list res) option \<Rightarrow> ('c commitment \<Rightarrow> (StoredTXO \<times> bool) option res) \<Rightarrow> ctx
   \<Rightarrow> 'w stateIface \<Rightarrow> 'w spentIface option \<Rightarrow> ('w, ImportSummary) act" where
  "rescanLocalCommitments unsupported reader convert ctx store spent =
     (case reader of
        None \<Rightarrow> lift (Err unsupported)
      | Some listCommitments \<Rightarrow>
          bind (reads (listCommitments ctx)) (\<lambda>commitments.
          foldAct (importCommitment ctx store spent convert (\<lambda>commitment txo. firstNonEmpty [cmRailgunTxid commitment, stTXID txo]))
            commitments emptySummary))"

definition rescanLocalV2Commitments where
  "rescanLocalV2Commitments env ctx store spent utxoTree keys =
     rescanLocalCommitments ''utxo merkle tree store does not support V2 commitment reads'' (utListV2Commitments utxoTree)
       (txoFromV2CommitmentWithDirection env keys) ctx store spent"

definition rescanLocalV3Commitments where
  "rescanLocalV3Commitments env ctx store spent utxoTree keys =
     rescanLocalCommitments ''utxo merkle tree store does not support V3 commitment reads'' (utListV3Commitments utxoTree)
       (txoFromV3CommitmentWithDirection env keys) ctx store spent"

definition rescanLocalUnshieldEvents :: "ctx \<Rightarrow> 'w spentIface option \<Rightarrow> 'w utxoTreeIface \<Rightarrow> ('w, ImportSummary) act" where
  "rescanLocalUnshieldEvents ctx spent utxoTree =
     (case (spent, utListUnshieldEvents utxoTree) of
        (Some iface, Some listEvents) \<Rightarrow>
          bind (reads (listEvents ctx)) (\<lambda>events.
          importUnshields ctx spent unshieldPOIStatusFromV2Event events emptySummary)
      | _ \<Rightarrow> ret emptySummary)"

text \<open>Only the nullifiers of the wallet's own outputs are looked at.\<close>

definition markLocalRescanNullifiersSpent :: "ctx \<Rightarrow> 'w stateIface \<Rightarrow> 'w utxoTreeIface \<Rightarrow> ('w, ImportSummary) act" where
  "markLocalRescanNullifiersSpent ctx store utxoTree =
     (case utListNullifiers utxoTree of
        None \<Rightarrow> ret emptySummary
      | Some listNullifiers \<Rightarrow>
          bind (reads (listNullifiers ctx)) (\<lambda>nullifiers.
          bind (reads (ssListTXOs store ctx)) (\<lambda>txos.
          bind (lift (mapRes (\<lambda>txo. wrapErr ''txo nullifier: %w'' [] (FormatHexToByteLength (stNullifier txo) 32 False)) txos)) (\<lambda>owned.
          foldAct (\<lambda>event summary.
            bind (lift (withCtx ctx (wrapErr ''nullifier: %w'' [] (FormatHexToByteLength (nuNullifier event) 32 False)))) (\<lambda>nullifier.
            if nullifier \<notin> set owned then ret summary
            else countSpend (\<lambda>w. markSpent store ctx w nullifier event) summary)) nullifiers emptySummary))))"

definition rescanVersion ::
  "noteEnv \<Rightarrow> ctx \<Rightarrow> 'w Wallet \<Rightarrow> string \<Rightarrow> ('w, ImportSummary) act" where
  "rescanVersion env ctx w version =
     (if version = TXIDVersionV2PoseidonMerkle
      then rescanLocalV2Commitments env ctx (the (waState w)) (waSpentPOIEvents w) (the (waUTXOMerkleTree w)) (waKeys w)
      else if version = TXIDVersionV3PoseidonMerkle
      then rescanLocalV3Commitments env ctx (the (waState w)) (waSpentPOIEvents w) (the (waUTXOMerkleTree w)) (waKeys w)
      else lift (Inl (Errorf ''unsupported txid version %s'' [AStr version])))"

definition RescanLocalUTXOTree :: "noteEnv \<Rightarrow> ctx \<Rightarrow> 'w Wallet option \<Rightarrow> string list \<Rightarrow> ('w, ImportSummary) act" where
  "RescanLocalUTXOTree env ctx wallet txidVersions =
     withValid wallet (\<lambda>w.
     if waUTXOMerkleTree w = None then lift (Err ''utxo merkle tree store is required'')
     else bind (foldAct (\<lambda>version summary. bind (rescanVersion env ctx w version) (\<lambda>part. ret (addImportSummary summary part)))
         (if txidVersions = [] then [TXIDVersionV2PoseidonMerkle, TXIDVersionV3PoseidonMerkle] else txidVersions) emptySummary) (\<lambda>summary.
       bind (rescanLocalUnshieldEvents ctx (waSpentPOIEvents w) (the (waUTXOMerkleTree w))) (\<lambda>part.
       let summary = addImportSummary summary part
       in bind (markLocalRescanNullifiersSpent ctx (the (waState w)) (the (waUTXOMerkleTree w))) (\<lambda>part.
          ret (addImportSummary summary part)))))"

end
