(* ===== verification/SyncSafety.thy ===== *)
theory SyncSafety
  imports WalletSync WalletWorld
begin

text \<open>
  What a sync leaves behind: the chunks up to its checkpoint imported, after an error part of the next
  one. A sync that was interrupted and run again gives the outputs of one that was not.
\<close>

section \<open>What a sync does\<close>

text \<open>The changes of the outputs that the chunks from a block on ask for, by a provider that answers.\<close>

definition chunkOps ::
  "logProvider \<Rightarrow> (ContractLog list \<Rightarrow> 'ev res) \<Rightarrow> ('ev \<Rightarrow> walletOp list) \<Rightarrow> ScanRange \<Rightarrow> string list list \<Rightarrow> uint64 \<Rightarrow> walletOp list" where
  "chunkOps provider accumulate ops scan topics start =
     (case provider None \<lparr>lfAddresses = srAddresses scan, lfFromBlock = start, lfToBlock = chunkEnd scan start, lfTopics = topics\<rparr> of
        Inl _ \<Rightarrow> []
      | Inr logs \<Rightarrow> (case accumulate logs of Inl _ \<Rightarrow> [] | Inr ev \<Rightarrow> ops ev))"

function scanOps ::
  "logProvider \<Rightarrow> (ContractLog list \<Rightarrow> 'ev res) \<Rightarrow> ('ev \<Rightarrow> walletOp list) \<Rightarrow> ScanRange \<Rightarrow> string list list \<Rightarrow> uint64 \<Rightarrow> walletOp list" where
  "scanOps provider accumulate ops scan topics start =
     chunkOps provider accumulate ops scan topics start @
     (if chunkEnd scan start = srToBlock scan then [] else scanOps provider accumulate ops scan topics (chunkEnd scan start + 1))"
  by pat_completeness auto
termination
  by (relation "measure (\<lambda>(_, _, _, scan, _, start). unat (srToBlock scan - start))") (auto intro: chunk_measure)

declare scanOps.simps [simp del]

lemma scanOps_range:
  "scanOps p acc ops (scan\<lparr>srFromBlock := b\<rparr>) topics start = scanOps p acc ops scan topics start"
proof (induction p acc ops scan topics start rule: scanOps.induct)
  case (1 p acc ops scan topics start)
  have e: "chunkEnd (scan\<lparr>srFromBlock := b\<rparr>) start = chunkEnd scan start" by (simp add: chunkEnd_def Let_def)
  have c: "chunkOps p acc ops (scan\<lparr>srFromBlock := b\<rparr>) topics start = chunkOps p acc ops scan topics start"
    by (simp add: chunkOps_def e)
  show ?case
    by (subst (1 2) scanOps.simps) (use 1 in \<open>simp add: e c\<close>)
qed

text \<open>A provider that may fail where the other answers, but never answers otherwise.\<close>

definition answersOf :: "logProvider \<Rightarrow> logProvider \<Rightarrow> bool" where
  "answersOf p q \<longleftrightarrow> (\<forall>f logs. p None f = Inr logs \<longrightarrow> q None f = Inr logs)"

locale wallet_sync = wallet_stores store ok outputsOf rest spent tree
  for store :: "'w stateIface" and ok :: "'w \<Rightarrow> bool" and outputsOf :: "'w \<Rightarrow> outputs" and rest :: "'w \<Rightarrow> 'r"
    and spent :: "'w spentIface option" and tree :: "'w utxoTreeIface option" +
  fixes checkpoints :: "'w checkpointIface" and checkpointOf :: "'r \<Rightarrow> string \<Rightarrow> ScanCheckpoint option"
  assumes load: "ok w \<Longrightarrow> LoadCheckpoint checkpoints None w key = Inr (checkpointOf (rest w) key)"
    and save: "ok w \<Longrightarrow> SaveCheckpoint checkpoints None w key c = Inr w' \<Longrightarrow>
      ok w' \<and> outputsOf w' = outputsOf w \<and> checkpointOf (rest w') = (checkpointOf (rest w))(key \<mapsto> c)"
begin

text \<open>One chunk: its import and the checkpoint behind it, or part of the import and the old checkpoint.\<close>

lemma sync_chunk:
  assumes "ok w" and "does (importEvents ev) ops" and "syncChunk None checkpoints key importEvents ev chunk (w, r, sm) = ((w', r', sm'), err)"
  shows "ok w' \<and> (case err of
      None \<Rightarrow> outputsOf w' = applyOps ops (outputsOf w) \<and> checkpointOf (rest w') key = Some \<lparr>NextBlock = scToBlock chunk + 1\<rparr>
    | Some _ \<Rightarrow> checkpointOf (rest w') = checkpointOf (rest w) \<and> (\<exists>pre. set pre \<subseteq> set ops \<and> outputsOf w' = applyOps pre (outputsOf w)))"
proof -
  obtain w1 part where i: "importEvents ev w = (w1, part)" by (cases "importEvents ev w")
  have p: "partly ops w w1" and c: "\<And>x. part = Inr x \<Longrightarrow> changed ops w w1"
    using assms(2) i assms(1) by (auto simp: does_def)
  show ?thesis
  proof (cases part)
    case (Inl e)
    then have "w' = w1" "err = Some e" using assms(3) i by (simp_all add: syncChunk_def)
    then show ?thesis using p by (auto simp: partly_def changes_def)
  next
    case (Inr x)
    note ch = c [OF Inr]
    then have ok1: "ok w1" by (simp add: changes_def)
    show ?thesis
    proof (cases "SaveCheckpoint checkpoints None w1 key \<lparr>NextBlock = scToBlock chunk + 1\<rparr>")
      case (Inl e)
      then have "w' = w1" "err = Some e" using assms(3) i Inr by (simp_all add: syncChunk_def Let_def)
      then show ?thesis using ch by (auto simp: changes_def)
    next
      case saved: (Inr w2)
      then have "w' = w2" "err = None" using assms(3) i Inr by (simp_all add: syncChunk_def Let_def)
      then show ?thesis using save [OF ok1 saved] ch by (simp add: changes_def)
    qed
  qed
qed

text \<open>The scan: it did the chunks up to the saved checkpoint, and after an error part of the next.\<close>

lemma sync_scan:
  assumes "scanFrom None p scan topics (decodeThen accumulate (syncChunk None checkpoints key importEvents)) start (w, r, sm) = ((w', r', sm'), err)"
    and "ok w" and does_import: "\<And>ev. does (importEvents ev) (ops ev)" and "answersOf p q" and "start \<le> srToBlock scan"
  shows "ok w' \<and> (case err of
      None \<Rightarrow> outputsOf w' = applyOps (scanOps q accumulate ops scan topics start) (outputsOf w) \<and>
        checkpointOf (rest w') key = Some \<lparr>NextBlock = srToBlock scan + 1\<rparr>
    | Some _ \<Rightarrow> (\<exists>b don pre. b \<le> srToBlock scan \<and>
        (checkpointOf (rest w') key = Some \<lparr>NextBlock = b\<rparr> \<or> b = start \<and> checkpointOf (rest w') key = checkpointOf (rest w) key) \<and>
        scanOps q accumulate ops scan topics start = don @ scanOps q accumulate ops scan topics b \<and>
        set pre \<subseteq> set (scanOps q accumulate ops scan topics b) \<and> outputsOf w' = applyOps (don @ pre) (outputsOf w)))"
  using assms(1,2,5)
proof (induction "unat (srToBlock scan - start)" arbitrary: start w r sm rule: less_induct)
  case less
  note run = less.prems(1)
  define stop where "stop = chunkEnd scan start"
  define f where "f = \<lparr>lfAddresses = srAddresses scan, lfFromBlock = start, lfToBlock = stop, lfTopics = topics\<rparr>"
  let ?so = "scanOps q accumulate ops scan topics"
  have failed: ?case if e: "err = Some e" and c: "checkpointOf (rest w') = checkpointOf (rest w)" and "ok w'"
      and o: "outputsOf w' = applyOps pre (outputsOf w)" "set pre \<subseteq> set (?so start)" for e pre
  proof -
    have "?so start = [] @ ?so start" "outputsOf w' = applyOps ([] @ pre) (outputsOf w)" using o by simp_all
    then have "\<exists>b don pre. b \<le> srToBlock scan \<and>
        (checkpointOf (rest w') key = Some \<lparr>NextBlock = b\<rparr> \<or> b = start \<and> checkpointOf (rest w') key = checkpointOf (rest w) key) \<and>
        ?so start = don @ ?so b \<and> set pre \<subseteq> set (?so b) \<and> outputsOf w' = applyOps (don @ pre) (outputsOf w)"
      using c o(2) less.prems(3) by metis
    then show ?thesis using e \<open>ok w'\<close> by simp
  qed
  show ?case
  proof (cases "p None f")
    case (Inl e)
    then have "w' = w" "err = Some (Wrapf ''filter logs %d-%d: %w'' [ANat (unat start), ANat (unat stop)] e)"
      using run by (simp_all add: scanFrom.simps [of None p] Let_def stop_def f_def)
    then show ?thesis using failed [of _ "[]"] less.prems(2) by simp
  next
    case (Inr logs)
    then have q: "q None f = Inr logs" using assms(4) by (simp add: answersOf_def)
    show ?thesis
    proof (cases "accumulate logs")
      case (Inl e)
      then have "w' = w" "err = Some (Wrapf ''handle logs %d-%d: %w'' [ANat (unat start), ANat (unat stop)] e)"
        using run Inr by (simp_all add: scanFrom.simps [of None p] Let_def stop_def f_def decodeThen_def)
      then show ?thesis using failed [of _ "[]"] less.prems(2) by simp
    next
      case ev: (Inr ev)
      have here: "chunkOps q accumulate ops scan topics start = ops ev"
        using q ev by (simp add: chunkOps_def f_def stop_def)
      define chunk where "chunk = \<lparr>scFromBlock = start, scToBlock = stop, scLogs = length logs\<rparr>"
      obtain w1 r1 sm1 err1 where s: "syncChunk None checkpoints key importEvents ev chunk (w, r, sm) = ((w1, r1, sm1), err1)"
        by (metis prod.exhaust)
      note one = sync_chunk [OF less.prems(2) does_import s]
      show ?thesis
      proof (cases err1)
        case (Some e)
        then have "w' = w1" "err = Some (Wrapf ''handle logs %d-%d: %w'' [ANat (unat start), ANat (unat stop)] e)"
          using run Inr ev s by (simp_all add: scanFrom.simps [of None p] Let_def stop_def f_def decodeThen_def chunk_def)
        moreover obtain pre where "set pre \<subseteq> set (ops ev)" "outputsOf w1 = applyOps pre (outputsOf w)"
            "ok w1" "checkpointOf (rest w1) = checkpointOf (rest w)"
          using one Some by auto
        moreover have "set (ops ev) \<subseteq> set (?so start)"
          by (simp add: scanOps.simps [of q _ _ _ _ start] here)
        ultimately show ?thesis using failed [of _ pre] by auto
      next
        case None
        have one': "ok w1" "outputsOf w1 = applyOps (ops ev) (outputsOf w)" "checkpointOf (rest w1) key = Some \<lparr>NextBlock = stop + 1\<rparr>"
          using one None by (simp_all add: chunk_def)
        show ?thesis
        proof (cases "stop = srToBlock scan")
          case True
          then have "w' = w1" "err = None"
            using run Inr ev s None by (simp_all add: scanFrom.simps [of None p] Let_def stop_def f_def decodeThen_def chunk_def)
          then show ?thesis
            using one' True by (simp add: scanOps.simps [of q _ _ _ _ start] here stop_def)
        next
          case False
          note lt = chunkEnd_less [of scan start] chunk_measure [of scan start]
          have next_le: "stop + 1 \<le> srToBlock scan"
            using lt(2) False unfolding stop_def by (simp add: inc_le)
          have run1: "scanFrom None p scan topics (decodeThen accumulate (syncChunk None checkpoints key importEvents)) (stop + 1) (w1, r1, sm1)
              = ((w', r', sm'), err)"
            using run Inr ev s None False by (simp add: scanFrom.simps [of None p _ _ _ start] Let_def stop_def f_def decodeThen_def chunk_def)
          have so: "?so start = ops ev @ ?so (stop + 1)"
            using False by (simp add: scanOps.simps [of q _ _ _ _ start] here stop_def)
          have ih: "ok w' \<and> (case err of
              None \<Rightarrow> outputsOf w' = applyOps (?so (stop + 1)) (outputsOf w1) \<and> checkpointOf (rest w') key = Some \<lparr>NextBlock = srToBlock scan + 1\<rparr>
            | Some _ \<Rightarrow> (\<exists>b don pre. b \<le> srToBlock scan \<and>
                (checkpointOf (rest w') key = Some \<lparr>NextBlock = b\<rparr> \<or> b = stop + 1 \<and> checkpointOf (rest w') key = checkpointOf (rest w1) key) \<and>
                ?so (stop + 1) = don @ ?so b \<and> set pre \<subseteq> set (?so b) \<and> outputsOf w' = applyOps (don @ pre) (outputsOf w1)))"
            by (rule less.hyps [OF _ run1 one'(1) next_le]) (use lt(3) False in \<open>simp add: stop_def\<close>)
          show ?thesis
          proof (cases err)
            case None
            then show ?thesis using ih one' so by simp
          next
            case (Some e)
            then obtain b don pre where b: "ok w'" "b \<le> srToBlock scan" "checkpointOf (rest w') key = Some \<lparr>NextBlock = b\<rparr>"
                "?so (stop + 1) = don @ ?so b" "set pre \<subseteq> set (?so b)" "outputsOf w' = applyOps (don @ pre) (outputsOf w1)"
              using ih one'(3) by auto
            have "?so start = (ops ev @ don) @ ?so b" "outputsOf w' = applyOps ((ops ev @ don) @ pre) (outputsOf w)"
              using so b(4,6) one'(2) by simp_all
            then have "\<exists>b don pre. b \<le> srToBlock scan \<and>
                (checkpointOf (rest w') key = Some \<lparr>NextBlock = b\<rparr> \<or> b = start \<and> checkpointOf (rest w') key = checkpointOf (rest w) key) \<and>
                ?so start = don @ ?so b \<and> set pre \<subseteq> set (?so b) \<and> outputsOf w' = applyOps (don @ pre) (outputsOf w)"
              using b(2,3,5) by blast
            then show ?thesis using b(1) Some by simp
          qed
        qed
      qed
    qed
  qed
qed

end

section \<open>Interrupted syncs\<close>

context wallet_sync
begin

definition startOf :: "CheckpointedScan \<Rightarrow> 'w \<Rightarrow> uint64" where
  "startOf scan w = (case checkpointOf (rest w) (csKey scan) of Some c \<Rightarrow> NextBlock c | None \<Rightarrow> csStartBlock scan)"

definition rangeFrom :: "CheckpointedScan \<Rightarrow> uint64 \<Rightarrow> uint64 \<Rightarrow> ScanRange" where
  "rangeFrom scan start stop = \<lparr>srAddresses = csAddresses scan, srFromBlock = start, srToBlock = stop, srChunkSize = csChunkSize scan\<rparr>"

definition startResult :: "uint64 \<Rightarrow> SyncResult" where
  "startResult start = \<lparr>srFrom = start, srTo = 0, srScanned = False, srCheckpoint = \<lparr>NextBlock = start\<rparr>, srImport = emptySummary\<rparr>"

abbreviation sync where
  "sync scanChunks importEvents keys scan p \<equiv>
     syncFromCheckpoint scanChunks importEvents None (Some p) (Some checkpoints) (Some store) keys scan"

lemma sync_run:
  assumes "ok w" and "validateSyncInputs (Some p) (Some checkpoints) (Some store) keys scan = Inr ()"
  shows "sync scanChunks importEvents keys scan p w =
    (case syncFinalizedToBlock None p (csConfirmations scan) of
       Inl e \<Rightarrow> (w, Inl e)
     | Inr None \<Rightarrow> (w, Inr (startResult (startOf scan w)))
     | Inr (Some stop) \<Rightarrow>
         if stop < startOf scan w then (w, Inr (startResult (startOf scan w)))
         else (case scanChunks (Some (FilterLogs p)) (rangeFrom scan (startOf scan w) stop)
                  (syncChunk None checkpoints (csKey scan) importEvents) (w, startResult (startOf scan w), emptySummary) of
                ((w', _), Some e) \<Rightarrow> (w', Inl e) | ((w', result, _), None) \<Rightarrow> (w', Inr result)))"
proof -
  have start: "reads (syncStartBlock None checkpoints scan) w = (w, Inr (startOf scan w))"
    by (simp add: run_reads syncStartBlock_def load [OF assms(1)] startOf_def)
  show ?thesis
    unfolding syncFromCheckpoint_def assms(2) bind_lift option.sel run_bind(2) [of "reads (syncStartBlock None checkpoints scan)", OF start] Let_def
    by (cases "syncFinalizedToBlock None p (csConfirmations scan)")
      (simp_all add: bind_lift run_lift run_ret startResult_def rangeFrom_def split: option.splits)
qed

lemma sync_invalid:
  assumes "validateSyncInputs (Some p) (Some checkpoints) (Some store) keys scan = Inl e"
  shows "sync scanChunks importEvents keys scan p w = (w, Inl e)"
  unfolding syncFromCheckpoint_def assms by (simp add: bind_lift run_lift)

lemma sync_end:
  "(case x of ((w', r, sm), Some e) \<Rightarrow> (w', Inl e) | ((w', r, sm), None) \<Rightarrow> (w', Inr r)) = (v, Inr r') \<longleftrightarrow> (\<exists>sm. x = ((v, r', sm), None))"
  "(case x of ((w', r, sm), Some e) \<Rightarrow> (w', Inl e) | ((w', r, sm), None) \<Rightarrow> (w', Inr r)) = (v, Inl err) \<longleftrightarrow> (\<exists>r sm. x = ((v, r, sm), Some err))"
  by (auto split: prod.splits option.splits)

text \<open>A sync that an error interrupted, at a block number, a chunk or a checkpoint, is completed by the
  next one: the outputs and the checkpoint are those of a sync that nothing interrupted.\<close>

lemma interrupted_sync:
  assumes scan_chunks: "\<And>provider range h s. scanChunks provider range h s =
      (case topics of Inl e \<Rightarrow> (s, Some e) | Inr ts \<Rightarrow> scanLogChunks None provider range ts (decodeThen accumulate h) s)"
    and does_import: "\<And>ev. does (importEvents ev) (ops ev)"
    and ok: "ok w" and p: "answersOf (FilterLogs p) (FilterLogs q)" "\<And>n. BlockNumber p None = Inr n \<Longrightarrow> BlockNumber q None = Inr n"
    and run1: "sync scanChunks importEvents keys scan p w = (w1, Inl e)"
    and run2: "sync scanChunks importEvents keys scan q w1 = (w2, Inr r2)"
    and whole: "sync scanChunks importEvents keys scan q w = (w3, Inr r3)"
  shows "outputsOf w2 = outputsOf w3 \<and> checkpointOf (rest w2) (csKey scan) = checkpointOf (rest w3) (csKey scan)"
proof -
  have valid: "validateSyncInputs (Some x) (Some checkpoints) (Some store) keys scan = Inr ()" for x
  proof (cases "validateSyncInputs (Some q) (Some checkpoints) (Some store) keys scan")
    case (Inl err)
    show ?thesis using whole unfolding sync_invalid [OF Inl] by simp
  next
    case (Inr u)
    then show ?thesis by (simp add: validateSyncInputs_def)
  qed
  note run = sync_run [OF _ valid]
  have same: ?thesis if "w1 = w"
    using run2 whole that by simp
  show ?thesis
  proof (cases "syncFinalizedToBlock None p (csConfirmations scan)")
    case (Inl e')
    then have "w1 = w" using run1 unfolding run [OF ok] by simp
    then show ?thesis by (rule same)
  next
    case (Inr final)
    then have q: "syncFinalizedToBlock None q (csConfirmations scan) = Inr final"
      using p(2) by (auto simp: syncFinalizedToBlock_def andThen_Inr)
    obtain stop where stop: "final = Some stop" "startOf scan w \<le> stop"
      using run1 Inr unfolding run [OF ok] by (cases final) (simp_all add: not_less split: if_splits)
    obtain ts where ts: "topics = Inr ts"
      using whole leD [OF stop(2)] unfolding run [OF ok] q scan_chunks stop(1) by (cases topics) simp_all
    define key where "key = csKey scan"
    define b0 where "b0 = startOf scan w"
    have range: "rangeFrom scan b stop = (rangeFrom scan b0 stop)\<lparr>srFromBlock := b\<rparr>" "srToBlock (rangeFrom scan b stop) = stop"
        "srFromBlock (rangeFrom scan b stop) = b" for b
      by (simp_all add: rangeFrom_def)
    let ?so = "scanOps (FilterLogs q) accumulate ops (rangeFrom scan b0 stop) ts"
    have ops_range: "scanOps (FilterLogs q) accumulate ops (rangeFrom scan b stop) ts b = ?so b" for b
      by (subst range(1)) (rule scanOps_range)
    have log_chunks: "b \<le> stop \<Longrightarrow> scanChunks (Some x) (rangeFrom scan b stop) h s =
        scanFrom None x (rangeFrom scan b stop) ts (decodeThen accumulate h) b s" for x b h s
      by (simp add: scan_chunks ts scanLogChunks_def range(2,3) leD)
    let ?h = "syncChunk None checkpoints key importEvents"
    have finished: "outputsOf w' = applyOps (?so (startOf scan v)) (outputsOf v) \<and> checkpointOf (rest w') key = Some \<lparr>NextBlock = stop + 1\<rparr>"
      if v: "ok v" "startOf scan v \<le> stop" "sync scanChunks importEvents keys scan q v = (w', Inr r)" for v w' r
    proof -
      obtain sm' where s: "scanFrom None (FilterLogs q) (rangeFrom scan (startOf scan v) stop) ts (decodeThen accumulate ?h)
          (startOf scan v) (v, startResult (startOf scan v), emptySummary) = ((w', r, sm'), None)"
        using v(3) leD [OF v(2)] log_chunks [OF v(2)] unfolding run [OF v(1)] q stop(1) key_def
        by (simp add: sync_end) blast
      have "answersOf (FilterLogs q) (FilterLogs q)" by (simp add: answersOf_def)
      from sync_scan [OF s v(1) does_import this] v(2) show ?thesis
        by (simp add: range(2) ops_range)
    qed
    obtain r1 sm1 err where s1: "scanFrom None (FilterLogs p) (rangeFrom scan b0 stop) ts (decodeThen accumulate ?h)
        b0 (w, startResult b0, emptySummary) = ((w1, r1, sm1), Some err)"
      using run1 leD [OF stop(2)] log_chunks [OF stop(2)] unfolding run [OF ok] Inr stop(1) key_def b0_def
      by (simp add: sync_end) blast
    obtain b don pre where b: "ok w1" "b \<le> stop"
        "checkpointOf (rest w1) key = Some \<lparr>NextBlock = b\<rparr> \<or> b = b0 \<and> checkpointOf (rest w1) key = checkpointOf (rest w) key"
        "?so b0 = don @ ?so b" "set pre \<subseteq> set (?so b)" "outputsOf w1 = applyOps (don @ pre) (outputsOf w)"
      using sync_scan [OF s1 ok does_import p(1)] stop(2) unfolding range(2) b0_def option.case by blast
    have start1: "startOf scan w1 = b"
      using b(3) unfolding startOf_def key_def b0_def by (elim disjE) simp_all
    have "outputsOf w2 = applyOps (?so b) (applyOps pre (applyOps don (outputsOf w)))"
        "checkpointOf (rest w2) key = Some \<lparr>NextBlock = stop + 1\<rparr>"
      using finished [OF b(1) _ run2] b(2,6) start1 by simp_all
    moreover have "outputsOf w3 = applyOps (?so b) (applyOps don (outputsOf w))"
        "checkpointOf (rest w3) key = Some \<lparr>NextBlock = stop + 1\<rparr>"
      using finished [OF ok _ whole] stop(2) b(4) by (simp_all add: b0_def [symmetric])
    ultimately show ?thesis
      using applyOps_absorb [OF b(5)] by (simp add: key_def)
  qed
qed

end

section \<open>The wallet on its stores\<close>

definition checkpointIn :: "MemoryCheckpointStore \<Rightarrow> string \<Rightarrow> ScanCheckpoint option" where
  "checkpointIn s key = (case s of None \<Rightarrow> None | Some cps \<Rightarrow> gget cps key)"

lemma memoryCheckpoints_load:
  assumes "wwCheckpoints w \<noteq> None"
  shows "LoadCheckpoint memoryCheckpoints None w key = Inr (checkpointIn (wwCheckpoints w) key)"
  using assms by (auto simp: memoryCheckpoints_def MemoryCheckpointStore_LoadCheckpoint_def checkpointIn_def)

lemma memoryCheckpoints_save:
  assumes "wwCheckpoints w \<noteq> None" and "SaveCheckpoint memoryCheckpoints None w key c = Inr w'"
  obtains cps where "w' = w\<lparr>wwCheckpoints := Some cps\<rparr>" "checkpointIn (Some cps) = (checkpointIn (wwCheckpoints w))(key \<mapsto> c)"
  using assms by (auto simp: memoryCheckpoints_def MemoryCheckpointStore_SaveCheckpoint_def within_Inr checkpointIn_def
      fun_eq_iff gget_gput)

interpretation memorySync: wallet_sync "memoryState keccak" hasState memoryOutputs wwCheckpoints "Some memorySpent" "Some (memoryTree raw)"
  memoryCheckpoints checkpointIn
proof (unfold_locales, goal_cases)
  case (1 w key)
  then show ?case by (simp add: memoryCheckpoints_load hasState_def)
next
  case (2 w key c w')
  then obtain cps where "w' = w\<lparr>wwCheckpoints := Some cps\<rparr>" "checkpointIn (Some cps) = (checkpointIn (wwCheckpoints w))(key \<mapsto> c)"
    using memoryCheckpoints_save [of w key c w'] by (auto simp: hasState_def)
  then show ?case using 2(1) by (simp add: hasState_def memoryOutputs_def)
qed

interpretation fileSync: wallet_sync "fileState keccak writable" goodFile fileOutputs wwCheckpoints "Some memorySpent" "Some (memoryTree raw)"
  memoryCheckpoints checkpointIn
proof (unfold_locales, goal_cases)
  case (1 w key)
  then show ?case by (simp add: memoryCheckpoints_load goodFile_def)
next
  case (2 w key c w')
  then obtain cps where "w' = w\<lparr>wwCheckpoints := Some cps\<rparr>" "checkpointIn (Some cps) = (checkpointIn (wwCheckpoints w))(key \<mapsto> c)"
    using memoryCheckpoints_save [of w key c w'] by (auto simp: goodFile_def)
  then show ?case using 2(1) by (simp add: goodFile_def fileOutputs_def)
qed

text \<open>C4: a sync that an error interrupts is completed by the next one, where the outputs are on a file
  that never fails, the checkpoints, events and trees are in memory, both syncs decode logs alike, and the second provider
  answers all that the first one answered, and alike. When the second sync and one that nothing interrupted succeed, the
  outputs on file and the checkpoint are the same after both, although the chunk in which the first sync stopped is imported again.
  A file that fails is not covered: the code ignores a failed write of a spend and then saves the checkpoint.\<close>

theorem interrupted_sync_completes:
  assumes "goodFile w"
    and "answersOf (FilterLogs p) (FilterLogs q)" and "\<And>n. BlockNumber p None = Inr n \<Longrightarrow> BlockNumber q None = Inr n"
    and "SyncV2FromCheckpointWithAllStores env topics accumulate None (Some p) (Some memoryCheckpoints) (Some (fileState keccak writable))
      (Some memorySpent) (Some (memoryTree (neConstants env))) keys scan w = (w1, Inl e)"
    and "SyncV2FromCheckpointWithAllStores env topics accumulate None (Some q) (Some memoryCheckpoints) (Some (fileState keccak writable))
      (Some memorySpent) (Some (memoryTree (neConstants env))) keys scan w1 = (w2, Inr r2)"
    and "SyncV2FromCheckpointWithAllStores env topics accumulate None (Some q) (Some memoryCheckpoints) (Some (fileState keccak writable))
      (Some memorySpent) (Some (memoryTree (neConstants env))) keys scan w = (w3, Inr r3)"
  shows "fileOutputs w2 = fileOutputs w3 \<and> checkpointIn (wwCheckpoints w2) (csKey scan) = checkpointIn (wwCheckpoints w3) (csKey scan)"
proof (rule fileSync.interrupted_sync [OF _ fileWallet.does_import_v2 assms(1-3)
      assms(4-6) [unfolded SyncV2FromCheckpointWithAllStores_def]])
  show "ScanV2EventChunks topics accumulate None provider range h s =
      (case andThen (v2FilterTopics topics) (\<lambda>ts. Inr [ts]) of
         Inl e \<Rightarrow> (s, Some e) | Inr ts \<Rightarrow> scanLogChunks None provider range ts (decodeThen accumulate h) s)" for provider range h s
    by (cases "v2FilterTopics topics") (simp_all add: ScanV2EventChunks_def)
qed

definition sampleKeys :: ScanKeys where
  "sampleKeys = \<lparr>skMasterPublicKey = Some 1, skViewingPrivateKey = [1], skViewingPublicKey = [2], skNullifyingKey = Some 3, skTokenDataByHash = []\<rparr>"

definition sampleNullifier :: string where
  "sampleNullifier = ''7''"

definition sampleWallet :: "FileStateStore walletWorld" where
  "sampleWallet = \<lparr>wwDetails = Some [], wwState = Some \<lparr>Path = ''state'', fsFile = FileMissing\<rparr>, wwSpent = Some \<lparr>sentCommitments = [], unshieldEvents = []\<rparr>,
     wwTree = Some [], wwTxids = Some [], wwTxidTree = Some [], wwCheckpoints = Some []\<rparr>"

definition sampleDecoder :: "ContractLog list \<Rightarrow> V2AccumulatedEvents res" where
  "sampleDecoder logs = Inr \<lparr>a2CommitmentEvents = [], a2NullifierEvents = map (\<lambda>l. \<lparr>nuTxid = lgTransactionHash l, nuNullifier = lgData l,
     nuTreeNumber = 0, nuBlockNumber = lgBlockNumber l\<rparr>) logs, a2UnshieldEvents = []\<rparr>"

definition sampleSyncProvider :: "bool \<Rightarrow> checkpointedProvider" where
  "sampleSyncProvider down = \<lparr>FilterLogs = \<lambda>_ f. if down then Err ''timeout'' else
       Inr (filter (\<lambda>l. lfFromBlock f \<le> lgBlockNumber l \<and> lgBlockNumber l \<le> lfToBlock f)
         [\<lparr>lgTopics = [], lgData = sampleNullifier, lgTransactionHash = ''aa'', lgBlockNumber = 1, lgIndex = 0\<rparr>]),
     BlockNumber = \<lambda>_. Inr 3\<rparr>"

definition sampleCheckpointedScan :: CheckpointedScan where
  "sampleCheckpointedScan = \<lparr>csKey = ''k'', csAddresses = [], csStartBlock = 0, csChunkSize = 0, csConfirmations = 0\<rparr>"

definition sampleSync :: "bool \<Rightarrow> (FileStateStore walletWorld, SyncResult) act" where
  "sampleSync down = SyncV2FromCheckpointWithAllStores unhashedEnv (Inr \<lparr>tShield = ''s'', tTransact = ''t'', tUnshield = ''u'', tNullified = ''n''\<rparr>)
     sampleDecoder None (Some (sampleSyncProvider down)) (Some memoryCheckpoints) (Some (fileState (\<lambda>b. b) writable))
     (Some memorySpent) (Some (memoryTree (neConstants unhashedEnv))) sampleKeys sampleCheckpointedScan"

lemma sample_hex: "FormatHexToByteLength sampleNullifier 32 False = Inr (replicate 63 CHR ''0'' @ ''7'')"
  by code_simp

lemma sample_import:
  "ImportV2AccumulatedEventsWithAllStores unhashedEnv None (Some (fileState (\<lambda>b. b) writable)) (Some memorySpent) (Some (memoryTree (neConstants unhashedEnv))) sampleKeys
     \<lparr>a2CommitmentEvents = [], a2NullifierEvents = ns, a2UnshieldEvents = []\<rparr> w =
   bind (indexUTXOTree None (Some (memoryTree (neConstants unhashedEnv))) (\<lambda>tree w. IndexV2CommitmentEvents None (Some (utStoreV2 tree)) w []) ns [] emptySummary)
     (\<lambda>summary. markNullifiersSpent None (fileState (\<lambda>b. b) writable) ns summary) w"
  by (simp add: ImportV2AccumulatedEventsWithAllStores_def validateImportInputs_def sampleKeys_def bind_lift importUnshields_def
     ifSome_def bind_ret cong: if_cong)


lemma sample_good: "goodFile sampleWallet"
  by (simp add: goodFile_def sampleWallet_def FileStateStore_loadLocked_def readFile_def valued_def)

lemma sample_index:
  assumes "wwTree w = Some []"
  shows "indexUTXOTree None (Some (memoryTree (neConstants unhashedEnv))) (\<lambda>tree w. IndexV2CommitmentEvents None (Some (utStoreV2 tree)) w []) ns [] emptySummary w
    = (w, Inr emptySummary)"
proof -
  have "IndexV2CommitmentEvents None (Some memoryTreeStore) w [] = (w, 0, None)"
    using assms by (cases w) (simp add: IndexV2CommitmentEvents_def memoryTreeStore_def indexLeaves_def within_def
        MemoryStore_UpsertLeaves_def validateLeaves_def)
  then show ?thesis
    by (simp add: indexUTXOTree_def memoryTree_def indexCall_def bind_def ifSome_def ret_def emptySummary_def)
qed

lemma sample_mark:
  "wwState w = wwState sampleWallet \<Longrightarrow> \<exists>s. markNullifiersSpent None (fileState (\<lambda>b. b) writable)
     (map (\<lambda>l. \<lparr>nuTxid = lgTransactionHash l, nuNullifier = lgData l, nuTreeNumber = 0, nuBlockNumber = lgBlockNumber l\<rparr>)
       (filter P [\<lparr>lgTopics = [], lgData = sampleNullifier, lgTransactionHash = ''aa'', lgBlockNumber = 1, lgIndex = 0\<rparr>])) summary w = (w, Inr s)"
  by (simp add: markNullifiersSpent_def bind_lift sample_hex countSpend_def markSpent_def fileState_def within_def sampleWallet_def
      FileStateStore_MarkTXOSpentAtBlock_def FileStateStore_markTXOSpent_def FileStateStore_update_def FileStateStore_loadLocked_def
      readFile_def spendTXO_def bind_def ret_def run_lift)

lemma sample_chunk:
  assumes "wwTree w = Some []" "wwState w = wwState sampleWallet" "wwCheckpoints w = Some cps"
    "FilterLogs (sampleSyncProvider down) None \<lparr>lfAddresses = [], lfFromBlock = a, lfToBlock = b, lfTopics = ts\<rparr> = Inr logs"
  shows "\<exists>r s. decodeThen sampleDecoder (syncChunk None memoryCheckpoints ''k''
     (ImportV2AccumulatedEventsWithAllStores unhashedEnv None (Some (fileState (\<lambda>b. b) writable)) (Some memorySpent) (Some (memoryTree (neConstants unhashedEnv))) sampleKeys))
     logs \<lparr>scFromBlock = a, scToBlock = b, scLogs = n\<rparr> (w, result, summary) =
    ((w\<lparr>wwCheckpoints := Some (gput ''k'' \<lparr>NextBlock = b + 1\<rparr> cps)\<rparr>, r, s), None)"
proof -
  obtain P where logs: "logs = filter P [\<lparr>lgTopics = [], lgData = sampleNullifier, lgTransactionHash = ''aa'', lgBlockNumber = 1, lgIndex = 0\<rparr>]"
    using assms(4) by (auto simp add: sampleSyncProvider_def simp del: filter.simps split: if_splits)
  obtain s where "markNullifiersSpent None (fileState (\<lambda>b. b) writable)
     (map (\<lambda>l. \<lparr>nuTxid = lgTransactionHash l, nuNullifier = lgData l, nuTreeNumber = 0, nuBlockNumber = lgBlockNumber l\<rparr>) logs) emptySummary w = (w, Inr s)"
    using sample_mark [OF assms(2), of P emptySummary] unfolding logs by blast
  then show ?thesis
    by (simp add: decodeThen_def sampleDecoder_def syncChunk_def sample_import bind_def sample_index [OF assms(1)]
       memoryCheckpoints_def within_def MemoryCheckpointStore_SaveCheckpoint_def assms(3) Let_def)
qed


lemma sample_runs:
  "sampleSync True sampleWallet = (sampleWallet, Inl (Wrapf ''filter logs %d-%d: %w'' [ANat 0, ANat 3] (Errorf ''timeout'' [])))"
  "\<exists>r. sampleSync False sampleWallet = (sampleWallet\<lparr>wwCheckpoints := Some (gput ''k'' \<lparr>NextBlock = 4\<rparr> [])\<rparr>, Inr r)"
proof -
  let ?h = "decodeThen sampleDecoder (syncChunk None memoryCheckpoints ''k''
     (ImportV2AccumulatedEventsWithAllStores unhashedEnv None (Some (fileState (\<lambda>b. b) writable)) (Some memorySpent) (Some (memoryTree (neConstants unhashedEnv))) sampleKeys))"
  let ?range = "\<lparr>srAddresses = [], srFromBlock = 0, srToBlock = 3, srChunkSize = 0\<rparr>"
  have valid: "validateSyncInputs (Some p) (Some c) (Some store) sampleKeys sampleCheckpointedScan = Inr ()" for p c store
    by (simp add: validateSyncInputs_def validateImportInputs_def sampleKeys_def sampleCheckpointedScan_def)
  have final: "syncFinalizedToBlock None (sampleSyncProvider down) (csConfirmations sampleCheckpointedScan) = Inr (Some 3)" for down
    by (simp add: syncFinalizedToBlock_def sampleSyncProvider_def sampleCheckpointedScan_def)
  have start: "fileSync.startOf sampleCheckpointedScan sampleWallet = 0"
    by (simp add: fileSync.startOf_def checkpointIn_def sampleWallet_def sampleCheckpointedScan_def)
  have range: "fileSync.rangeFrom sampleCheckpointedScan 0 3 = ?range"
    by (simp add: fileSync.rangeFrom_def sampleCheckpointedScan_def)
  have key: "csKey sampleCheckpointedScan = ''k''" by (simp add: sampleCheckpointedScan_def)
  have topics: "ScanV2EventChunks (Inr \<lparr>tShield = ''s'', tTransact = ''t'', tUnshield = ''u'', tNullified = ''n''\<rparr>) sampleDecoder None (Some p) ?range h s =
      scanFrom None p ?range [[''s'', ''t'', ''u'', ''n'']] (decodeThen sampleDecoder h) 0 s" for p h s
    by (simp add: ScanV2EventChunks_def v2FilterTopics_def scanLogChunks_def)
  have one: "scanFrom None p ?range ts h 0 s =
      (case p None \<lparr>lfAddresses = [], lfFromBlock = 0, lfToBlock = 3, lfTopics = ts\<rparr> of
        Inl e \<Rightarrow> (s, Some (Wrapf ''filter logs %d-%d: %w'' [ANat 0, ANat 3] e))
      | Inr logs \<Rightarrow> (case h logs \<lparr>scFromBlock = 0, scToBlock = 3, scLogs = length logs\<rparr> s of
           (s', Some e) \<Rightarrow> (s', Some (Wrapf ''handle logs %d-%d: %w'' [ANat 0, ANat 3] e)) | (s', None) \<Rightarrow> (s', None)))" for p ts h s
    by (subst scanFrom.simps) (simp add: chunkEnd_def split: sum.splits)
  note run = fileSync.sync_run [OF sample_good valid, unfolded start key]
  show "sampleSync True sampleWallet = (sampleWallet, Inl (Wrapf ''filter logs %d-%d: %w'' [ANat 0, ANat 3] (Errorf ''timeout'' [])))"
    unfolding sampleSync_def SyncV2FromCheckpointWithAllStores_def run
    by (simp add: final range topics one) (simp add: sampleSyncProvider_def)
  obtain logs where logs: "FilterLogs (sampleSyncProvider False) None
      \<lparr>lfAddresses = [], lfFromBlock = 0, lfToBlock = 3, lfTopics = [[''s'', ''t'', ''u'', ''n'']]\<rparr> = Inr logs"
    by (simp add: sampleSyncProvider_def)
  obtain r s where c: "?h logs \<lparr>scFromBlock = 0, scToBlock = 3, scLogs = length logs\<rparr> (sampleWallet, fileSync.startResult 0, emptySummary) =
      ((sampleWallet\<lparr>wwCheckpoints := Some (gput ''k'' \<lparr>NextBlock = 3 + 1\<rparr> [])\<rparr>, r, s), None)"
    using sample_chunk [OF _ refl _ logs, where cps = "[]" and n = "length logs" and result = "fileSync.startResult 0" and summary = emptySummary]
    by (auto simp: sampleWallet_def)
  show "\<exists>r. sampleSync False sampleWallet = (sampleWallet\<lparr>wwCheckpoints := Some (gput ''k'' \<lparr>NextBlock = 4\<rparr> [])\<rparr>, Inr r)"
    unfolding sampleSync_def SyncV2FromCheckpointWithAllStores_def run
    by (simp add: final range topics one logs c)
qed

theorem interrupted_sync_completes_witness:
  "fileOutputs (fst (sampleSync False (fst (sampleSync True sampleWallet)))) = fileOutputs (fst (sampleSync False sampleWallet))"
proof -
  obtain r where r: "sampleSync False sampleWallet = (sampleWallet\<lparr>wwCheckpoints := Some (gput ''k'' \<lparr>NextBlock = 4\<rparr> [])\<rparr>, Inr r)"
    using sample_runs(2) by blast
  have p: "answersOf (FilterLogs (sampleSyncProvider True)) (FilterLogs (sampleSyncProvider False))"
    "\<And>n. BlockNumber (sampleSyncProvider True) None = Inr n \<Longrightarrow> BlockNumber (sampleSyncProvider False) None = Inr n"
    by (simp_all add: answersOf_def sampleSyncProvider_def)
  show ?thesis
    unfolding sample_runs(1) r fst_conv
    using interrupted_sync_completes [OF sample_good p sample_runs(1) [unfolded sampleSync_def] r [unfolded sampleSync_def]
        r [unfolded sampleSync_def]] by blast
qed

section \<open>Imports\<close>

text \<open>C5: an import of V2 events changes the wallet's outputs by the events in order: each
  output it can decrypt as received is stored under its nullifier, then each nullifier event marks the
  output it names, if the wallet has it. An import that fails did a first part of this; the checkpoints
  are left to the sync.\<close>

theorem import_v2_effect:
  "let w = \<lparr>wwDetails = details, wwState = Some m, wwSpent = spent, wwTree = tree, wwTxids = txids, wwTxidTree = txidTree, wwCheckpoints = Some cps\<rparr>;
       ops = importOps (txoFromV2CommitmentWithDirection env keys) (a2CommitmentEvents accumulated) (a2NullifierEvents accumulated)
   in case ImportV2AccumulatedEventsWithAllStores env None (Some (memoryState keccak)) (Some memorySpent) (Some (memoryTree (neConstants env))) keys accumulated w of
        (w', r) \<Rightarrow> \<exists>m' n. wwState w' = Some m' \<and> wwCheckpoints w' = Some cps \<and> gget m' = applyOps (take n ops) (gget m) \<and>
          (case r of Inr _ \<Rightarrow> n = length ops | Inl _ \<Rightarrow> n \<le> length ops)"
proof -
  define w where "w = \<lparr>wwDetails = details, wwState = Some m, wwSpent = spent, wwTree = tree, wwTxids = txids, wwTxidTree = txidTree, wwCheckpoints = Some cps\<rparr>"
  define ops where "ops = importOps (txoFromV2CommitmentWithDirection env keys) (a2CommitmentEvents accumulated) (a2NullifierEvents accumulated)"
  obtain w' r where run: "ImportV2AccumulatedEventsWithAllStores env None (Some (memoryState keccak)) (Some memorySpent) (Some (memoryTree (neConstants env))) keys accumulated w = (w', r)"
    by (metis prod.exhaust)
  have ok: "hasState w" "memoryOutputs w = gget m" "wwCheckpoints w = Some cps"
    by (simp_all add: w_def hasState_def memoryOutputs_def)
  have view: "\<exists>m'. wwState w' = Some m' \<and> wwCheckpoints w' = Some cps \<and> gget m' = applyOps xs (gget m)"
    if "changes hasState memoryOutputs wwCheckpoints xs w w'" for xs
    using that ok by (auto simp: changes_def hasState_def memoryOutputs_def)
  note eff = memoryWallet.does_import_v2 [unfolded memoryWallet.does_def, rule_format, OF ok(1) run, folded ops_def]
  have "\<exists>m' n. wwState w' = Some m' \<and> wwCheckpoints w' = Some cps \<and> gget m' = applyOps (take n ops) (gget m) \<and>
      (case r of Inr _ \<Rightarrow> n = length ops | Inl _ \<Rightarrow> n \<le> length ops)"
  proof (cases r)
    case (Inl e)
    obtain pre suf where "ops = pre @ suf" "changes hasState memoryOutputs wwCheckpoints pre w w'"
      using eff by (auto simp: memoryWallet.partly_def)
    then have "take (length pre) ops = pre" "length pre \<le> length ops" by simp_all
    then show ?thesis using view [of pre] Inl \<open>changes _ _ _ pre w w'\<close> by (metis sum.case(1))
  next
    case (Inr x)
    then have "changes hasState memoryOutputs wwCheckpoints ops w w'" using eff by simp
    from view [OF this] show ?thesis using Inr by (metis sum.case(2) take_all_iff order_refl)
  qed
  then show ?thesis unfolding Let_def w_def [symmetric] ops_def [symmetric] run by simp
qed

text \<open>C6: every output that the conversion of a V2 commitment gives carries the nullifier
  of its position under the wallet's nullifying key, in 64 hexadecimal digits as the stores look it up,
  the hash that the commitment has, and is unspent and unclassified.\<close>

theorem imported_output_at_position:
  "case txoFromV2CommitmentWithDirection env keys c of
     Inr (Some (t, isSent)) \<Rightarrow> 0 \<le> cmUTXOTree c \<and> 0 \<le> cmUTXOIndex c \<and>
       stTree t = word_of_int (cmUTXOTree c) \<and> stPosition t = word_of_int (cmUTXOIndex c) \<and>
       (\<exists>nullifier. Railgun.Nullifier (neConstants env) (the (skNullifyingKey keys))
            (word_of_int (GetGlobalTreePosition (stTree t) (stPosition t))) = Inr nullifier \<and> HexToBigInt (stNullifier t) = Inr nullifier) \<and>
       FormatHexToByteLength (stNullifier t) 32 False = Inr (stNullifier t) \<and> length (stNullifier t) = 64 \<and>
       (cmHash c = [] \<or> FormatHexToByteLength (cmHash c) 32 False = Inr (stCommitmentHash t)) \<and>
       stValue t \<noteq> None \<and> stSpendTXID t = [] \<and> stSpendBlockNumber t = None \<and> stPOIsPerList t = None
   | _ \<Rightarrow> True"
proof (cases "txoFromV2CommitmentWithDirection env keys c")
  case (Inr found)
  show ?thesis
  proof (cases found)
    case (Some p)
    obtain t isSent where p: "p = (t, isSent)" by (cases p)
    have o: "outputAt (neConstants env) (the (skNullifyingKey keys)) TXIDVersionV2PoseidonMerkle c t"
      using v2_output Inr Some p by blast
    from o have "FormatHexToByteLength (stNullifier t) 32 False = Inr (stNullifier t)" "length (stNullifier t) = 64"
      using FormatHex_canonical [of 32 "stNullifier t"] by (auto simp: outputAt_def canonical_def)
    moreover have "0 \<le> cmUTXOTree c" "0 \<le> cmUTXOIndex c" "stTree t = word_of_int (cmUTXOTree c)" "stPosition t = word_of_int (cmUTXOIndex c)"
        "stValue t \<noteq> None" "stSpendTXID t = []" "stSpendBlockNumber t = None" "stPOIsPerList t = None"
        "cmHash c = [] \<or> FormatHexToByteLength (cmHash c) 32 False = Inr (stCommitmentHash t)"
        "\<exists>nullifier. Railgun.Nullifier (neConstants env) (the (skNullifyingKey keys))
            (word_of_int (GetGlobalTreePosition (stTree t) (stPosition t))) = Inr nullifier \<and> HexToBigInt (stNullifier t) = Inr nullifier"
      using o unfolding outputAt_def by (blast, blast, blast, blast, simp, blast, blast, blast, blast, blast)
    ultimately show ?thesis unfolding Inr Some p by simp
  qed (simp add: Inr)
qed simp

section \<open>Rollback\<close>

definition memoryWalletOf :: "poseidonConstantsRaw \<Rightarrow> (byte list \<Rightarrow> byte list) \<Rightarrow> ScanKeys \<Rightarrow> Manager \<Rightarrow> MemoryStateStore walletWorld Wallet" where
  "memoryWalletOf raw keccak keys manager =
     \<lparr>waState = Some (memoryState keccak), waCheckpoints = Some memoryCheckpoints, waKeys = keys, waPOIManager = Some manager,
      waTXIDStore = Some memoryTxids, waTXIDMerkleTree = Some memoryTxidTree, waUTXOMerkleTree = Some (memoryTree raw),
      waSpentPOIEvents = Some memorySpent, waDetails = Some memoryDetails\<rparr>"

lemma rollback_run:
  assumes "validateImportInputs (Some (memoryState keccak)) keys = Inr ()" "key \<noteq> []"
  shows "Rollback None (Some (memoryWalletOf raw keccak keys manager)) key b
      \<lparr>wwDetails = details, wwState = Some m, wwSpent = spent, wwTree = Some leaves, wwTxids = Some txs, wwTxidTree = Some tleaves, wwCheckpoints = Some cps\<rparr> =
    (case spent of
       None \<Rightarrow> (\<lparr>wwDetails = details, wwState = Some (rollbackTXOs b m), wwSpent = None, wwTree = Some (rollbackLeaves b leaves),
           wwTxids = Some (rollbackTransactions b txs), wwTxidTree = Some (rollbackMerkleLeaves b tleaves), wwCheckpoints = Some cps\<rparr>,
         Err spentStoreRequired)
     | Some ev \<Rightarrow> (\<lparr>wwDetails = details, wwState = Some (rollbackTXOs b m), wwSpent = Some (rollbackEvents b ev), wwTree = Some (rollbackLeaves b leaves),
           wwTxids = Some (rollbackTransactions b txs), wwTxidTree = Some (rollbackMerkleLeaves b tleaves),
           wwCheckpoints = Some (case gget cps key of
             Some c \<Rightarrow> if b \<ge> NextBlock c then cps else gput key \<lparr>NextBlock = b\<rparr> cps
           | None \<Rightarrow> gput key \<lparr>NextBlock = b\<rparr> cps)\<rparr>, Inr ()))"
proof -
  have stores: "ssReorg (memoryState keccak) = Some \<lparr>rsMarkTXOSpentAtBlock = \<lambda>ctx w n txid b. onState (\<lambda>s. MemoryStateStore_MarkTXOSpentAtBlock ctx s n txid b) w,
        rsRollbackToBlock = \<lambda>ctx w b. onState (\<lambda>s. MemoryStateStore_RollbackToBlock ctx s b) w\<rparr>"
      "tsRollbackToBlock memoryTxids = Some (\<lambda>ctx w b. onTxids (\<lambda>s. MemoryTransactionStore_RollbackToBlock ctx s b) w)"
      "mtRollbackToBlock memoryTxidTree = Some (\<lambda>ctx w b. onTxidTree (\<lambda>s. MemoryMerkleTreeStore_RollbackToBlock ctx s b) w)"
      "utRollbackToBlock (memoryTree raw) = Some (\<lambda>ctx w b. onTree (\<lambda>s. MemoryStore_RollbackToBlock ctx s b) w)"
      "spRollbackToBlock memorySpent = Some (\<lambda>ctx w b. onSpent (\<lambda>s. MemorySpentPOIEventStore_RollbackToBlock ctx s b) w)"
      "RollbackCheckpoint memoryCheckpoints = Some (\<lambda>ctx w key b. onCheckpoints (\<lambda>s. MemoryCheckpointStore_RollbackCheckpoint ctx s key b) w)"
    by (simp_all add: memoryState_def memoryTxids_def memoryTxidTree_def memoryTree_def memorySpent_def memoryCheckpoints_def)
  have ops: "MemoryStateStore_RollbackToBlock None (Some m) b = Inr (Some (rollbackTXOs b m))"
      "MemoryTransactionStore_RollbackToBlock None (Some txs) b = Inr (Some (rollbackTransactions b txs))"
      "MemoryMerkleTreeStore_RollbackToBlock None (Some tleaves) b = Inr (Some (rollbackMerkleLeaves b tleaves))"
      "MemoryStore_RollbackToBlock None (Some leaves) b = Inr (Some (rollbackLeaves b leaves))"
      "MemorySpentPOIEventStore_RollbackToBlock None None b = Err spentStoreRequired"
      "MemorySpentPOIEventStore_RollbackToBlock None (Some ev) b = Inr (Some (rollbackEvents b ev))"
      "MemoryCheckpointStore_RollbackCheckpoint None (Some cps) key b = Inr (Some (case gget cps key of
             Some c \<Rightarrow> if b \<ge> NextBlock c then cps else gput key \<lparr>NextBlock = b\<rparr> cps
           | None \<Rightarrow> gput key \<lparr>NextBlock = b\<rparr> cps))" for ev
    by (simp_all add: MemoryStateStore_RollbackToBlock_def MemoryTransactionStore_RollbackToBlock_def MemoryMerkleTreeStore_RollbackToBlock_def
        MemoryStore_RollbackToBlock_def MemorySpentPOIEventStore_RollbackToBlock_def MemoryCheckpointStore_RollbackCheckpoint_def assms(2)
        split: option.splits)
  have valid: "validateWallet (Some (memoryWalletOf raw keccak keys manager)) = Inr ()"
    using assms(1) by (simp add: validateWallet_def memoryWalletOf_def)
  show ?thesis
    unfolding Rollback_def withValid_def valid bind_lift option.sel
    by (simp add: memoryWalletOf_def reorgStore_def stores bind_lift RollbackWalletSyncWithAllStores_def rollbackStore_def ifSome_def
        RollbackScanCheckpoint_def bind_def call_def run_lift run_ret within_def ops split: option.splits)
qed

text \<open>C7: a rollback of the wallet to a block takes every store back to the blocks before it.
  An output of an earlier block stays, its spend forgotten when that is of the given block or later,
  and an output of the given block or later is gone. Of the events of the proof of innocence, the
  commitments, the transactions and the leaves of both trees exactly those of earlier blocks are left,
  unchanged. The checkpoint under the key becomes the smaller of its block and the given one (the given one
  where there was none), and no other checkpoint changes. The stores are rolled back one after the other,
  the checkpoint last: when the store of the events fails because it does not exist, the rollback fails,
  the outputs have been rolled back already, and every checkpoint is as before.\<close>

theorem wallet_rollback:
  assumes "validateImportInputs (Some (memoryState keccak)) keys = Inr ()" and "key \<noteq> []" and "goodTXOs m" and "wf2 leaves" and "wf2 tleaves"
  shows "\<exists>m' ev' leaves' txs' tleaves' cps'.
    Rollback None (Some (memoryWalletOf raw keccak keys manager)) key b
      \<lparr>wwDetails = details, wwState = Some m, wwSpent = Some ev, wwTree = Some leaves, wwTxids = Some txs, wwTxidTree = Some tleaves, wwCheckpoints = Some cps\<rparr> =
      (\<lparr>wwDetails = details, wwState = Some m', wwSpent = Some ev', wwTree = Some leaves', wwTxids = Some txs', wwTxidTree = Some tleaves', wwCheckpoints = Some cps'\<rparr>, Inr ()) \<and>
    (\<forall>n. gget m' n = (case gget m n of
        None \<Rightarrow> None
      | Some t \<Rightarrow> if b \<le> stBlockNumber t then None
                  else if \<exists>spent. stSpendBlockNumber t = Some spent \<and> b \<le> spent then Some (t\<lparr>stSpendTXID := [], stSpendBlockNumber := None\<rparr>)
                  else Some t)) \<and>
    sentCommitments ev' = filter (\<lambda>(_, e). snBlockNumber e < b) (sentCommitments ev) \<and>
    unshieldEvents ev' = filter (\<lambda>(_, e). usBlockNumber e < b) (unshieldEvents ev) \<and>
    (\<forall>t i leaf. get2 leaves' t i = Some leaf \<longleftrightarrow> get2 leaves t i = Some leaf \<and> leafBlockNumber leaf < b) \<and>
    txs' = filter (\<lambda>(_, tx). txBlockNumber tx < b) txs \<and>
    (\<forall>t i leaf. get2 tleaves' t i = Some leaf \<longleftrightarrow> get2 tleaves t i = Some leaf \<and> mlBlockNumber leaf < b) \<and>
    gget cps' key = Some \<lparr>NextBlock = (case gget cps key of None \<Rightarrow> b | Some c \<Rightarrow> min (NextBlock c) b)\<rparr> \<and>
    (\<forall>other. other \<noteq> key \<longrightarrow> gget cps' other = gget cps other) \<and>
    (\<exists>w' e. Rollback None (Some (memoryWalletOf raw keccak keys manager)) key b
      \<lparr>wwDetails = details, wwState = Some m, wwSpent = None, wwTree = Some leaves, wwTxids = Some txs, wwTxidTree = Some tleaves, wwCheckpoints = Some cps\<rparr> =
      (w', Inl e) \<and> wwState w' = Some m' \<and> wwCheckpoints w' = Some cps)"
proof -
  define cps' where "cps' = (case gget cps key of
             Some c \<Rightarrow> if b \<ge> NextBlock c then cps else gput key \<lparr>NextBlock = b\<rparr> cps
           | None \<Rightarrow> gput key \<lparr>NextBlock = b\<rparr> cps)"
  have c: "gget cps' key = Some \<lparr>NextBlock = (case gget cps key of None \<Rightarrow> b | Some c \<Rightarrow> min (NextBlock c) b)\<rparr>"
    "\<And>other. other \<noteq> key \<Longrightarrow> gget cps' other = gget cps other"
    by (auto simp: cps'_def gget_gput min_def split: option.splits if_splits)
  have outputs: "gget (rollbackTXOs b m) n = (case gget m n of
        None \<Rightarrow> None
      | Some t \<Rightarrow> if b \<le> stBlockNumber t then None
                  else if \<exists>spent. stSpendBlockNumber t = Some spent \<and> b \<le> spent then Some (t\<lparr>stSpendTXID := [], stSpendBlockNumber := None\<rparr>)
                  else Some t)" for n
    by (simp add: gget_rollbackTXOs [OF assms(3)] rolledBack_def split: option.splits)
  have ev: "sentCommitments (rollbackEvents b ev) = filter (\<lambda>(_, e). snBlockNumber e < b) (sentCommitments ev)"
    "unshieldEvents (rollbackEvents b ev) = filter (\<lambda>(_, e). usBlockNumber e < b) (unshieldEvents ev)"
    by (simp_all add: rollbackEvents_def gkeep_def split_def not_le)
  have leaves: "get2 (rollbackLeaves b leaves) t i = Some leaf \<longleftrightarrow> get2 leaves t i = Some leaf \<and> leafBlockNumber leaf < b" for t i leaf
    using assms(4) by (auto simp: rollbackLeaves_def get2_keep2 not_le split: option.splits)
  have tleaves: "get2 (rollbackMerkleLeaves b tleaves) t i = Some leaf \<longleftrightarrow> get2 tleaves t i = Some leaf \<and> mlBlockNumber leaf < b" for t i leaf
    using assms(5) by (auto simp: rollbackMerkleLeaves_def get2_keep2 not_le split: option.splits)
  have txs: "rollbackTransactions b txs = filter (\<lambda>(_, tx). txBlockNumber tx < b) txs"
    by (simp add: rollbackTransactions_def gkeep_def split_def not_le)
  show ?thesis
    unfolding rollback_run [OF assms(1,2)] option.case cps'_def [symmetric]
    by (rule exI [of _ "rollbackTXOs b m"], rule exI [of _ "rollbackEvents b ev"], rule exI [of _ "rollbackLeaves b leaves"],
        rule exI [of _ "rollbackTransactions b txs"], rule exI [of _ "rollbackMerkleLeaves b tleaves"], rule exI [of _ cps'])
      (simp add: outputs ev leaves tleaves txs c)
qed


theorem wallet_rollback_witness:
  "\<exists>m' rest. Rollback None (Some (memoryWalletOf sampleConstants (\<lambda>b. b) sampleKeys \<lparr>mgLists = [], mgNode = None, mgLaunchBlocks = None\<rparr>)) ''k'' 5
      \<lparr>wwDetails = Some [], wwState = Some [(''n'', sampleStoredTXO ''n'' 7), (''k'', sampleStoredTXO ''k'' 3)],
       wwSpent = Some \<lparr>sentCommitments = [], unshieldEvents = []\<rparr>,
       wwTree = Some [], wwTxids = Some [], wwTxidTree = Some [], wwCheckpoints = Some [(''k'', \<lparr>NextBlock = 9\<rparr>)]\<rparr> =
      (\<lparr>wwDetails = Some [], wwState = Some m', wwSpent = fst rest, wwTree = fst (snd rest), wwTxids = fst (snd (snd rest)),
        wwTxidTree = fst (snd (snd (snd rest))), wwCheckpoints = snd (snd (snd (snd rest)))\<rparr>, Inr ()) \<and>
      gget m' ''n'' = None \<and> gget m' ''k'' = Some (sampleStoredTXO ''k'' 3)"
proof -
  have valid: "validateImportInputs (Some (memoryState (\<lambda>b. b))) sampleKeys = Inr ()"
    by (simp add: validateImportInputs_def sampleKeys_def)
  have good: "goodTXOs [(''n'', sampleStoredTXO ''n'' 7), (''k'', sampleStoredTXO ''k'' 3)]"
    by (simp add: goodTXOs_def sampleStoredTXO_def)
  have wf: "wf2 []"
    by (simp add: wf2_def inner_def)
  obtain m' ev' leaves' txs' tleaves' cps' where run:
    "Rollback None (Some (memoryWalletOf sampleConstants (\<lambda>b. b) sampleKeys \<lparr>mgLists = [], mgNode = None, mgLaunchBlocks = None\<rparr>)) ''k'' 5
      \<lparr>wwDetails = Some [], wwState = Some [(''n'', sampleStoredTXO ''n'' 7), (''k'', sampleStoredTXO ''k'' 3)],
       wwSpent = Some \<lparr>sentCommitments = [], unshieldEvents = []\<rparr>,
       wwTree = Some [], wwTxids = Some [], wwTxidTree = Some [], wwCheckpoints = Some [(''k'', \<lparr>NextBlock = 9\<rparr>)]\<rparr> =
      (\<lparr>wwDetails = Some [], wwState = Some m', wwSpent = Some ev', wwTree = Some leaves', wwTxids = Some txs', wwTxidTree = Some tleaves', wwCheckpoints = Some cps'\<rparr>, Inr ())"
    and m': "gget m' ''n'' = None" "gget m' ''k'' = Some (sampleStoredTXO ''k'' 3)"
    using wallet_rollback [where raw = sampleConstants and key = "''k''" and b = 5 and details = "Some []" and leaves = "[]" and txs = "[]"
        and manager = "\<lparr>mgLists = [], mgNode = None, mgLaunchBlocks = None\<rparr>" and ev = "\<lparr>sentCommitments = [], unshieldEvents = []\<rparr>"
        and tleaves = "[]" and cps = "[(''k'', \<lparr>NextBlock = 9\<rparr>)]", OF valid _ good wf wf] by (fastforce simp: sampleStoredTXO_def)
  from m' show ?thesis
    unfolding run by (intro exI [of _ m'] exI [of _ "(Some ev', Some leaves', Some txs', Some tleaves', Some cps')"]) simp
qed

end
