(* ===== verification/WalletQueries.thy ===== *)
theory WalletQueries
  imports WalletSync WalletWorld
begin

text \<open>
  Models what a wallet is asked: its balances (\<^verbatim>\<open>pkg/wallet/balances.go, txid\_versions.go\<close>
  and the rest of \<^verbatim>\<open>wallet.go\<close>), the Merkle proofs of its outputs (\<^verbatim>\<open>utxo\_tree.go\<close>),
  the states of its proofs of innocence (\<^verbatim>\<open>poi\_queries.go\<close>), and its details
  (\<^verbatim>\<open>details.go\<close>). The function \<open>keccak\<close> hashes the data of tokens.
\<close>

section \<open>Construction\<close>

text \<open>\<open>fresh\<close> is the store of details that a wallet without one gets, an empty one in memory.\<close>

definition NewWalletWithAllStoresAndDetails ::
  "'w detailsIface \<Rightarrow> 'w stateIface option \<Rightarrow> 'w checkpointIface option \<Rightarrow> ScanKeys \<Rightarrow> Manager option \<Rightarrow> 'w transactionIface option
   \<Rightarrow> 'w merkleTreeIface option \<Rightarrow> 'w utxoTreeIface option \<Rightarrow> 'w spentIface option \<Rightarrow> 'w detailsIface option \<Rightarrow> 'w Wallet res" where
  "NewWalletWithAllStoresAndDetails fresh state checkpoints keys poiManager txidStore txidMerkleTree utxoTree spent details =
     (let wallet = \<lparr>waState = state, waCheckpoints = checkpoints, waKeys = keys, waPOIManager = poiManager, waTXIDStore = txidStore,
        waTXIDMerkleTree = txidMerkleTree, waUTXOMerkleTree = utxoTree, waSpentPOIEvents = spent,
        waDetails = (if details = None then Some fresh else details)\<rparr>
      in andThen (validateWallet (Some wallet)) (\<lambda>_. Inr wallet))"

definition NewWalletWithStoresAndDetails where
  "NewWalletWithStoresAndDetails fresh state checkpoints keys poiManager txidStore txidMerkleTree spent details =
     NewWalletWithAllStoresAndDetails fresh state checkpoints keys poiManager txidStore txidMerkleTree None spent details"

definition NewWalletWithAllStores where
  "NewWalletWithAllStores fresh state checkpoints keys poiManager txidStore txidMerkleTree utxoTree spent =
     NewWalletWithAllStoresAndDetails fresh state checkpoints keys poiManager txidStore txidMerkleTree utxoTree spent None"

definition NewWalletWithStores where
  "NewWalletWithStores fresh state checkpoints keys poiManager txidStore txidMerkleTree spent =
     NewWalletWithStoresAndDetails fresh state checkpoints keys poiManager txidStore txidMerkleTree spent None"

definition NewWalletWithTXIDStores where
  "NewWalletWithTXIDStores fresh state checkpoints keys poiManager txidStore txidMerkleTree =
     NewWalletWithStores fresh state checkpoints keys poiManager txidStore txidMerkleTree None"

definition NewWalletWithTXIDStore where
  "NewWalletWithTXIDStore fresh state checkpoints keys poiManager txidStore =
     NewWalletWithTXIDStores fresh state checkpoints keys poiManager txidStore None"

definition NewWallet where
  "NewWallet fresh state checkpoints keys poiManager = NewWalletWithTXIDStores fresh state checkpoints keys poiManager None None"

section \<open>Balances\<close>

text \<open>A query of a valid wallet.\<close>

definition queried :: "'w Wallet option \<Rightarrow> ('w Wallet \<Rightarrow> 'a res) \<Rightarrow> 'a res" where
  "queried wallet f = andThen (validateWallet wallet) (\<lambda>_. f (the wallet))"

definition ofVersion :: "string \<Rightarrow> 'a res \<Rightarrow> 'a res" where
  "ofVersion txidVersion m = (if txidVersion = [] then Err ''txid version is required'' else m)"

definition txosForTXIDVersion :: "StoredTXO list \<Rightarrow> string \<Rightarrow> StoredTXO list" where
  "txosForTXIDVersion txos txidVersion = filter (\<lambda>txo. stTXIDVersion txo = [] \<or> stTXIDVersion txo = txidVersion) txos"

definition Balances :: "ctx \<Rightarrow> 'w Wallet option \<Rightarrow> string list \<Rightarrow> 'w \<Rightarrow> TokenBalances res" where
  "Balances ctx wallet includedBuckets w =
     queried wallet (\<lambda>wal. ssTokenBalances (the (waState wal)) ctx w (waPOIManager wal) includedBuckets)"

definition BalancesForTXIDVersion ::
  "(byte list \<Rightarrow> byte list) \<Rightarrow> ctx \<Rightarrow> 'w Wallet option \<Rightarrow> string \<Rightarrow> string list \<Rightarrow> 'w \<Rightarrow> TokenBalances res" where
  "BalancesForTXIDVersion keccak ctx wallet txidVersion includedBuckets w =
     queried wallet (\<lambda>wal. ofVersion txidVersion (andThen (ssListTXOs (the (waState wal)) ctx w) (\<lambda>txos.
       tokenBalancesFromTXOs keccak (txosForTXIDVersion txos txidVersion) (waPOIManager wal) includedBuckets)))"

definition SpendableBalances ::
  "(byte list \<Rightarrow> byte list) \<Rightarrow> ctx \<Rightarrow> 'w Wallet option \<Rightarrow> string \<Rightarrow> Chain \<Rightarrow> 'w \<Rightarrow> TokenBalances res" where
  "SpendableBalances keccak ctx wallet txidVersion chain w =
     queried wallet (\<lambda>wal. andThen (GetSpendableBalanceBuckets ctx (waPOIManager wal) chain) (\<lambda>buckets.
       BalancesForTXIDVersion keccak ctx wallet txidVersion buckets w))"

definition walletBalanceBuckets :: "string list" where
  "walletBalanceBuckets = [BucketSpent, BucketShieldPending, BucketMissingInternalPOI, BucketMissingExternalPOI, BucketSpendable,
     BucketShieldBlocked, BucketProofSubmitted]"

definition BalancesByBucket ::
  "(byte list \<Rightarrow> byte list) \<Rightarrow> ctx \<Rightarrow> 'w Wallet option \<Rightarrow> string \<Rightarrow> 'w \<Rightarrow> (string, TokenBalances) gomap res" where
  "BalancesByBucket keccak ctx wallet txidVersion w =
     queried wallet (\<lambda>wal. ofVersion txidVersion (andThen (ssListTXOs (the (waState wal)) ctx w) (\<lambda>txos.
       foldRes (\<lambda>bucket out.
         andThen (tokenBalancesFromTXOs keccak (txosForTXIDVersion txos txidVersion) (waPOIManager wal) [bucket]) (\<lambda>balances.
         Inr (gput bucket balances out))) walletBalanceBuckets [])))"

definition BalanceERC20 ::
  "(byte list \<Rightarrow> byte list) \<Rightarrow> ctx \<Rightarrow> 'w Wallet option \<Rightarrow> string \<Rightarrow> string \<Rightarrow> string list \<Rightarrow> 'w \<Rightarrow> int option res" where
  "BalanceERC20 keccak ctx wallet txidVersion tokenAddress includedBuckets w =
     andThen (TokenDataERC20 tokenAddress) (\<lambda>tokenData.
     andThen (TokenDataHash keccak tokenData) (\<lambda>tokenHash.
     andThen (BalancesForTXIDVersion keccak ctx wallet txidVersion includedBuckets w) (\<lambda>balances.
     Inr (map_option tbBalance (gget balances tokenHash)))))"

text \<open>The unspent shields of the transaction.\<close>

definition originCandidates :: "string \<Rightarrow> StoredTXO list \<Rightarrow> StoredTXO list res" where
  "originCandidates origin txos =
     foldRes (\<lambda>txo candidates.
       if stSpendTXID txo \<noteq> [] \<or> stTXID txo = [] \<or> \<not> isShieldCommitmentType (stCommitmentType txo) then Inr candidates
       else andThen (FormatHexToByteLength (stTXID txo) 32 True) (\<lambda>txid.
         Inr (if txid = origin then candidates @ [txo] else candidates))) txos []"

definition BalancesForUnshieldToOrigin ::
  "(byte list \<Rightarrow> byte list) \<Rightarrow> ctx \<Rightarrow> 'w Wallet option \<Rightarrow> string \<Rightarrow> string \<Rightarrow> 'w \<Rightarrow> TokenBalances res" where
  "BalancesForUnshieldToOrigin keccak ctx wallet txidVersion originShieldTxid w =
     queried wallet (\<lambda>wal. ofVersion txidVersion (
       andThen (FormatHexToByteLength originShieldTxid 32 True) (\<lambda>origin.
       andThen (ssListTXOs (the (waState wal)) ctx w) (\<lambda>txos.
       andThen (originCandidates origin (txosForTXIDVersion txos txidVersion)) (\<lambda>candidates.
       tokenBalancesFromTXOs keccak candidates (waPOIManager wal) [])))))"

section \<open>Balances by tree\<close>

record TreeBalance =
  trBalance :: "int option"
  trTokenData :: TokenData
  trUTXOs :: "StoredTXO list"

definition emptyTreeBalance :: TreeBalance where
  "emptyTreeBalance = \<lparr>trBalance = None, trTokenData = \<lparr>TokenAddress = [], TokenType = 0, TokenSubID = []\<rparr>, trUTXOs = []\<rparr>"

type_synonym TotalBalancesByTreeNumberMap = "(string, TreeBalance list) gomap"

text \<open>The list grows up to the tree; as an \<^verbatim>\<open>int\<close> a tree number of 63 bits or more is negative,
  so that the list does not grow and the index panics.\<close>

definition addToTree :: "StoredTXO \<Rightarrow> TreeBalance list \<Rightarrow> TreeBalance list res" where
  "addToTree txo treeBalances =
     (let tree = unat (stTree txo);
          treeBalances = (if tree \<ge> 2 ^ 63 then treeBalances else treeBalances @ replicate (Suc tree - length treeBalances) emptyTreeBalance)
      in if tree \<ge> length treeBalances then Inl (Panic ''index out of range'')
         else case stValue txo of
           None \<Rightarrow> Inl (Panic ''nil pointer dereference'')
         | Some v \<Rightarrow>
             (let treeBalance = treeBalances ! tree;
                  treeBalance = (if trBalance treeBalance = None then treeBalance\<lparr>trBalance := Some 0, trTokenData := stTokenData txo\<rparr> else treeBalance)
              in Inr (treeBalances[tree := treeBalance\<lparr>trBalance := Some (the (trBalance treeBalance) + v), trUTXOs := trUTXOs treeBalance @ [txo]\<rparr>])))"

definition totalBalancesByTreeNumberFromBalances :: "TokenBalances \<Rightarrow> TotalBalancesByTreeNumberMap res" where
  "totalBalancesByTreeNumberFromBalances balances =
     foldRes (\<lambda>(tokenHash, balance) out. andThen (foldRes addToTree (tbUTXOs balance) []) (\<lambda>treeBalances.
       Inr (gput tokenHash treeBalances out))) balances []"

definition TotalBalancesByTreeNumber ::
  "(byte list \<Rightarrow> byte list) \<Rightarrow> ctx \<Rightarrow> 'w Wallet option \<Rightarrow> string \<Rightarrow> string list \<Rightarrow> 'w \<Rightarrow> TotalBalancesByTreeNumberMap res" where
  "TotalBalancesByTreeNumber keccak ctx wallet txidVersion includedBuckets w =
     andThen (BalancesForTXIDVersion keccak ctx wallet txidVersion includedBuckets w) totalBalancesByTreeNumberFromBalances"

definition TotalBalancesByTreeNumberForUnshieldToOrigin ::
  "(byte list \<Rightarrow> byte list) \<Rightarrow> ctx \<Rightarrow> 'w Wallet option \<Rightarrow> string \<Rightarrow> string \<Rightarrow> 'w \<Rightarrow> TotalBalancesByTreeNumberMap res" where
  "TotalBalancesByTreeNumberForUnshieldToOrigin keccak ctx wallet txidVersion originShieldTxid w =
     andThen (BalancesForUnshieldToOrigin keccak ctx wallet txidVersion originShieldTxid w) totalBalancesByTreeNumberFromBalances"

definition treesOf :: "TotalBalancesByTreeNumberMap \<Rightarrow> string \<Rightarrow> TreeBalance list" where
  "treesOf totals tokenHash = (case gget totals tokenHash of None \<Rightarrow> [] | Some treeBalances \<Rightarrow> treeBalances)"

definition BalancesByTreeForToken where
  "BalancesByTreeForToken keccak ctx wallet txidVersion tokenHash includedBuckets w =
     andThen (TotalBalancesByTreeNumber keccak ctx wallet txidVersion includedBuckets w) (\<lambda>totals. Inr (treesOf totals tokenHash))"

definition BalancesByTreeForTokenForUnshieldToOrigin where
  "BalancesByTreeForTokenForUnshieldToOrigin keccak ctx wallet txidVersion tokenHash originShieldTxid w =
     andThen (TotalBalancesByTreeNumberForUnshieldToOrigin keccak ctx wallet txidVersion originShieldTxid w) (\<lambda>totals.
     Inr (treesOf totals tokenHash))"

definition TokenBalanceAcrossAllTrees :: "TreeBalance list \<Rightarrow> int" where
  "TokenBalanceAcrossAllTrees treeSortedBalances =
     fold (\<lambda>treeBalance sum. case trBalance treeBalance of None \<Rightarrow> sum | Some b \<Rightarrow> sum + b) treeSortedBalances 0"

section \<open>Balances of several versions\<close>

definition ActiveTXIDVersions :: "Chain list \<Rightarrow> Chain \<Rightarrow> string list" where
  "ActiveTXIDVersions chainsSupportingV3 chain =
     [TXIDVersionV2PoseidonMerkle] @ (if SupportsV3 chainsSupportingV3 chain then [TXIDVersionV3PoseidonMerkle] else [])"

definition BalancesForTXIDVersions ::
  "(byte list \<Rightarrow> byte list) \<Rightarrow> ctx \<Rightarrow> 'w Wallet option \<Rightarrow> string list \<Rightarrow> string list \<Rightarrow> 'w \<Rightarrow> (string, TokenBalances) gomap res" where
  "BalancesForTXIDVersions keccak ctx wallet txidVersions includedBuckets w =
     queried wallet (\<lambda>_. foldRes (\<lambda>txidVersion out.
       andThen (BalancesForTXIDVersion keccak ctx wallet txidVersion includedBuckets w) (\<lambda>balances.
       Inr (if length balances > 0 then gput txidVersion balances out else out))) txidVersions [])"

definition BalancesAllTXIDVersions where
  "BalancesAllTXIDVersions keccak chainsSupportingV3 ctx wallet chain includedBuckets w =
     BalancesForTXIDVersions keccak ctx wallet (ActiveTXIDVersions chainsSupportingV3 chain) includedBuckets w"

definition SpendableBalancesForTXIDVersions ::
  "(byte list \<Rightarrow> byte list) \<Rightarrow> ctx \<Rightarrow> 'w Wallet option \<Rightarrow> Chain \<Rightarrow> string list \<Rightarrow> 'w \<Rightarrow> (string, TokenBalances) gomap res" where
  "SpendableBalancesForTXIDVersions keccak ctx wallet chain txidVersions w =
     queried wallet (\<lambda>wal. andThen (GetSpendableBalanceBuckets ctx (waPOIManager wal) chain) (\<lambda>buckets.
       BalancesForTXIDVersions keccak ctx wallet txidVersions buckets w))"

definition SpendableBalancesAllTXIDVersions where
  "SpendableBalancesAllTXIDVersions keccak chainsSupportingV3 ctx wallet chain w =
     SpendableBalancesForTXIDVersions keccak ctx wallet chain (ActiveTXIDVersions chainsSupportingV3 chain) w"

section \<open>The commitment trees\<close>

definition treeRequired :: "'w Wallet \<Rightarrow> ('w utxoTreeIface \<Rightarrow> 'a res) \<Rightarrow> 'a res" where
  "treeRequired wal f = notNil ''utxo merkle tree store is required'' (waUTXOMerkleTree wal) f"

definition UTXOMerkleRoot :: "ctx \<Rightarrow> 'w Wallet option \<Rightarrow> uint64 \<Rightarrow> 'w \<Rightarrow> string res" where
  "UTXOMerkleRoot ctx wallet tree w = queried wallet (\<lambda>wal. treeRequired wal (\<lambda>store. utRoot store ctx w tree))"

definition UTXOMerkleProofForTXO :: "ctx \<Rightarrow> 'w utxoTreeIface option \<Rightarrow> StoredTXO \<Rightarrow> 'w \<Rightarrow> MerkleProof res" where
  "UTXOMerkleProofForTXO ctx store txo w =
     notNil ''utxo merkle tree store is required'' store (\<lambda>iface.
     if stCommitmentHash txo = [] then Err ''txo commitment hash is required''
     else andThen (utProof iface ctx w (stTree txo) (stPosition txo)) (\<lambda>proof.
       andThen (wrapErr ''txo commitment hash: %w'' [] (FormatHexToByteLength (stCommitmentHash txo) 32 False)) (\<lambda>expected.
       andThen (wrapErr ''utxo proof leaf: %w'' [] (FormatHexToByteLength (prfLeaf proof) 32 False)) (\<lambda>got.
       if got \<noteq> expected then Err ''utxo proof leaf does not match txo commitment hash'' else Inr proof))))"

definition UTXOMerkleProof :: "ctx \<Rightarrow> 'w Wallet option \<Rightarrow> string \<Rightarrow> 'w \<Rightarrow> MerkleProof res" where
  "UTXOMerkleProof ctx wallet nullifier w =
     queried wallet (\<lambda>wal. treeRequired wal (\<lambda>store.
       andThen (ssGetTXO (the (waState wal)) ctx w nullifier) (\<lambda>found.
       case found of
         None \<Rightarrow> Inl (Errorf ''missing txo for nullifier %s'' [AStr nullifier])
       | Some txo \<Rightarrow> UTXOMerkleProofForTXO ctx (Some store) txo w)))"

section \<open>Proofs of innocence\<close>

definition receivedCommitmentPOIs :: "string \<Rightarrow> StoredTXO list \<Rightarrow> POIsPerList option res" where
  "receivedCommitmentPOIs formattedCommitment txos =
     foldRes (\<lambda>txo found.
       if found \<noteq> None \<or> \<not> isTransactCommitmentType (stCommitmentType txo) \<or> stCommitmentHash txo = [] then Inr found
       else andThen (FormatHexToByteLength (stCommitmentHash txo) 32 True) (\<lambda>formatted.
         Inr (if formatted = formattedCommitment then Some (stPOIsPerList txo) else None))) txos None"

definition ReceiveCommitmentHasValidPOI :: "ctx \<Rightarrow> 'w Wallet option \<Rightarrow> string \<Rightarrow> string \<Rightarrow> 'w \<Rightarrow> bool res" where
  "ReceiveCommitmentHasValidPOI ctx wallet txidVersion commitment w =
     queried wallet (\<lambda>wal. ofVersion txidVersion (
       andThen (FormatHexToByteLength commitment 32 True) (\<lambda>formattedCommitment.
       andThen (ssListTXOs (the (waState wal)) ctx w) (\<lambda>txos.
       andThen (receivedCommitmentPOIs formattedCommitment (txosForTXIDVersion txos txidVersion)) (\<lambda>found.
       Inr (case found of None \<Rightarrow> False | Some pois \<Rightarrow> HasValidPOIsActiveLists (waPOIManager wal) pois))))))"

definition storedTXOToPOITXO :: "StoredTXO \<Rightarrow> TXO" where
  "storedTXOToPOITXO txo =
     \<lparr>txoSpendTXID = stSpendTXID txo, txoPOIsPerList = stPOIsPerList txo, txoCommitmentType = stCommitmentType txo,
      txoOutputType = stOutputType txo, txoValue = stValue txo, txoBlindedCommitment = stBlindedCommitment txo,
      txoBlockNumber = stBlockNumber txo, txoTransactCreationRailgunTxid = stTransactCreationRailgunTxid txo\<rparr>"

text \<open>Each value once, in the order of the first item that counts.\<close>

definition collectTxids :: "('e \<Rightarrow> string) \<Rightarrow> ('e \<Rightarrow> bool) \<Rightarrow> 'e list \<Rightarrow> string list \<Rightarrow> string list" where
  "collectTxids txidOf counts =
     fold (\<lambda>e txids. if txidOf e = [] \<or> txidOf e \<in> set txids \<or> \<not> counts e then txids else txids @ [txidOf e])"

definition SpendableReceivedChainTXIDs :: "ctx \<Rightarrow> 'w Wallet option \<Rightarrow> string \<Rightarrow> 'w \<Rightarrow> string list res" where
  "SpendableReceivedChainTXIDs ctx wallet txidVersion w =
     queried wallet (\<lambda>wal. ofVersion txidVersion (andThen (ssListTXOs (the (waState wal)) ctx w) (\<lambda>txos.
       Inr (collectTxids stTXID (\<lambda>txo. GetBalanceBucket (waPOIManager wal) (storedTXOToPOITXO txo) = BucketSpendable)
         (txosForTXIDVersion txos txidVersion) []))))"

definition poiSentCommitment :: "SentCommitmentPOIStatusInput \<Rightarrow> SentCommitment" where
  "poiSentCommitment e = \<lparr>scPOIsPerList = snPOIsPerList e, scValue = snValue e, scBlindedCommitment = snBlindedCommitment e,
     scRailgunTxid = snRailgunTxid e\<rparr>"

definition poiUnshieldEvent :: "UnshieldPOIStatusInput \<Rightarrow> UnshieldPOIEvent" where
  "poiUnshieldEvent e = \<lparr>uePOIsPerList = usPOIsPerList e, ueRailgunTxid = usRailgunTxid e\<rparr>"

definition ChainTXIDsStillPendingSpentPOIs :: "ctx \<Rightarrow> 'w Wallet option \<Rightarrow> 'w \<Rightarrow> string list res" where
  "ChainTXIDsStillPendingSpentPOIs ctx wallet w =
     queried wallet (\<lambda>wal. notNil ''spent poi event store is required'' (waSpentPOIEvents wal) (\<lambda>store.
       andThen (spListSentCommitmentPOIEvents store ctx w) (\<lambda>sent.
       andThen (spListUnshieldPOIEvents store ctx w) (\<lambda>unshields.
       Inr (collectTxids usTXID (\<lambda>e. ShouldGenerateSpentPOIsUnshieldEvent (waPOIManager wal) (poiUnshieldEvent e)) unshields
         (collectTxids snTXID (\<lambda>e. ShouldGenerateSpentPOIsSentCommitment (waPOIManager wal) (poiSentCommitment e)) sent []))))))"

section \<open>Details\<close>

definition WalletDetailsMapOf :: "ctx \<Rightarrow> 'w Wallet option \<Rightarrow> Chain \<Rightarrow> 'w \<Rightarrow> WalletDetailsMap res" where
  "WalletDetailsMapOf ctx wallet chain w =
     queried wallet (\<lambda>wal. case waDetails wal of None \<Rightarrow> Inr [] | Some store \<Rightarrow> LoadWalletDetailsMap store ctx w chain)"

definition WalletDetailsOf :: "ctx \<Rightarrow> 'w Wallet option \<Rightarrow> string \<Rightarrow> Chain \<Rightarrow> 'w \<Rightarrow> WalletDetails res" where
  "WalletDetailsOf ctx wallet txidVersion chain w =
     queried wallet (\<lambda>_. ofVersion txidVersion (andThen (WalletDetailsMapOf ctx wallet chain w) (\<lambda>detailsMap.
       Inr (case gget detailsMap txidVersion of None \<Rightarrow> defaultWalletDetails | Some details \<Rightarrow> details))))"

definition SaveWalletDetails :: "ctx \<Rightarrow> 'w Wallet option \<Rightarrow> string \<Rightarrow> Chain \<Rightarrow> WalletDetails \<Rightarrow> 'w \<Rightarrow> 'w res" where
  "SaveWalletDetails ctx wallet txidVersion chain details w =
     queried wallet (\<lambda>wal. notNil ''wallet details store is required'' (waDetails wal) (\<lambda>store.
       ofVersion txidVersion (andThen (LoadWalletDetailsMap store ctx w chain) (\<lambda>detailsMap.
       SaveWalletDetailsMap store ctx w chain (gput txidVersion details detailsMap)))))"

definition setHeight :: "uint64 \<Rightarrow> uint64 \<Rightarrow> uint64 list \<Rightarrow> uint64 list res" where
  "setHeight tree height heights =
     (let i = unat tree; heights = (if i \<ge> 2 ^ 63 then heights else heights @ replicate (Suc i - length heights) 0)
      in if i \<ge> length heights then Inl (Panic ''index out of range'') else Inr (heights[i := height]))"

definition UpdateTreeScannedHeight :: "ctx \<Rightarrow> 'w Wallet option \<Rightarrow> string \<Rightarrow> Chain \<Rightarrow> uint64 \<Rightarrow> uint64 \<Rightarrow> 'w \<Rightarrow> 'w res" where
  "UpdateTreeScannedHeight ctx wallet txidVersion chain tree height w =
     andThen (WalletDetailsOf ctx wallet txidVersion chain w) (\<lambda>details.
     andThen (setHeight tree height (wdTreeScannedHeights details)) (\<lambda>heights.
     SaveWalletDetails ctx wallet txidVersion chain (details\<lparr>wdTreeScannedHeights := heights\<rparr>) w))"

definition SetWalletCreationDetails ::
  "ctx \<Rightarrow> 'w Wallet option \<Rightarrow> string \<Rightarrow> Chain \<Rightarrow> uint64 option \<Rightarrow> uint64 option \<Rightarrow> 'w \<Rightarrow> 'w res" where
  "SetWalletCreationDetails ctx wallet txidVersion chain creationTree creationTreeHeight w =
     andThen (WalletDetailsOf ctx wallet txidVersion chain w) (\<lambda>details.
     SaveWalletDetails ctx wallet txidVersion chain
       (details\<lparr>wdCreationTree := creationTree, wdCreationTreeHeight := creationTreeHeight\<rparr>) w)"

section \<open>The balances of a token by tree\<close>

abbreviation worth :: "StoredTXO \<Rightarrow> int" where
  "worth txo \<equiv> (case stValue txo of None \<Rightarrow> 0 | Some v \<Rightarrow> v)"

abbreviation treeWorth :: "TreeBalance \<Rightarrow> int" where
  "treeWorth treeBalance \<equiv> (case trBalance treeBalance of None \<Rightarrow> 0 | Some b \<Rightarrow> b)"

abbreviation inTree :: "nat \<Rightarrow> StoredTXO list \<Rightarrow> StoredTXO list" where
  "inTree i \<equiv> filter (\<lambda>txo. unat (stTree txo) = i)"

lemma across_sum: "TokenBalanceAcrossAllTrees tbs = sum_list (map treeWorth tbs)"
proof -
  have "fold (\<lambda>treeBalance sum. case trBalance treeBalance of None \<Rightarrow> sum | Some b \<Rightarrow> sum + b) tbs s = s + sum_list (map treeWorth tbs)" for s
    by (induction tbs arbitrary: s) (auto split: option.splits)
  from this [of 0] show ?thesis by (simp add: TokenBalanceAcrossAllTrees_def)
qed

lemma sum_list_change:
  "k < length xs \<Longrightarrow> sum_list (map f (xs[k := x])) = sum_list (map f xs) - f (xs ! k) + (f x :: int)"
proof (induction xs arbitrary: k)
  case (Cons y xs)
  then show ?case by (cases k) auto
qed simp

text \<open>The list of the trees of the outputs \<open>txos\<close>.\<close>

definition treesHold :: "StoredTXO list \<Rightarrow> TreeBalance list \<Rightarrow> bool" where
  "treesHold txos tbs \<longleftrightarrow> map trUTXOs tbs = map (\<lambda>i. inTree i txos) [0..<length tbs] \<and>
     (\<forall>txo \<in> set txos. unat (stTree txo) < length tbs) \<and> sum_list (map treeWorth tbs) = sum_list (map worth txos)"

lemma treesHold_Nil: "treesHold [] []"
  by (simp add: treesHold_def)

lemma treesHold_grow:
  assumes "treesHold txos tbs"
  shows "treesHold txos (tbs @ replicate n emptyTreeBalance)"
proof -
  have none: "inTree i txos = []" if "\<not> i < length tbs" for i
    using assms that by (auto simp: treesHold_def filter_empty_conv)
  have "trUTXOs ((tbs @ replicate n emptyTreeBalance) ! i) = inTree i txos" if "i < length tbs + n" for i
  proof (cases "i < length tbs")
    case True
    have "map trUTXOs tbs ! i = map (\<lambda>i. inTree i txos) [0..<length tbs] ! i" using assms by (simp add: treesHold_def)
    then show ?thesis using True by (simp add: nth_append)
  next
    case False
    then show ?thesis using that none [OF False] by (simp add: nth_append emptyTreeBalance_def)
  qed
  then have "map trUTXOs (tbs @ replicate n emptyTreeBalance) = map (\<lambda>i. inTree i txos) [0..<length (tbs @ replicate n emptyTreeBalance)]"
    by (intro nth_equalityI) (simp_all del: map_append)
  moreover have "sum_list (map treeWorth (replicate n emptyTreeBalance)) = 0"
    by (induction n) (simp_all add: emptyTreeBalance_def)
  ultimately show ?thesis using assms by (fastforce simp: treesHold_def)
qed

lemma treesHold_put:
  assumes "treesHold txos tbs" "unat (stTree txo) < length tbs"
    and "trUTXOs tb = trUTXOs (tbs ! unat (stTree txo)) @ [txo]" "treeWorth tb = treeWorth (tbs ! unat (stTree txo)) + worth txo"
  shows "treesHold (txos @ [txo]) (tbs[unat (stTree txo) := tb])"
proof -
  let ?k = "unat (stTree txo)"
  have old: "trUTXOs (tbs ! i) = inTree i txos" if "i < length tbs" for i
  proof -
    have "map trUTXOs tbs ! i = map (\<lambda>i. inTree i txos) [0..<length tbs] ! i" using assms(1) by (simp add: treesHold_def)
    then show ?thesis using that by simp
  qed
  have "trUTXOs (tbs[?k := tb] ! i) = inTree i (txos @ [txo])" if "i < length tbs" for i
    using that old [OF that] assms(2,3) by (cases "i = ?k") simp_all
  then have "map trUTXOs (tbs[?k := tb]) = map (\<lambda>i. inTree i (txos @ [txo])) [0..<length (tbs[?k := tb])]"
    by (intro nth_equalityI) (simp_all del: map_update filter_append)
  moreover have "sum_list (map treeWorth (tbs[?k := tb])) = sum_list (map worth (txos @ [txo]))"
    using assms(1,4) sum_list_change [OF assms(2), of treeWorth tb] by (simp add: treesHold_def)
  ultimately show ?thesis using assms(1,2) by (simp add: treesHold_def)
qed

lemma addToTree_Inr:
  assumes "addToTree txo tbs = Inr tbs'"
  obtains g tb where "g = (if unat (stTree txo) \<ge> 2 ^ 63 then tbs else tbs @ replicate (Suc (unat (stTree txo)) - length tbs) emptyTreeBalance)"
    "unat (stTree txo) < length g" "trUTXOs tb = trUTXOs (g ! unat (stTree txo)) @ [txo]"
    "treeWorth tb = treeWorth (g ! unat (stTree txo)) + worth txo" "tbs' = g[unat (stTree txo) := tb]"
proof -
  define g where "g = (if unat (stTree txo) \<ge> 2 ^ 63 then tbs else tbs @ replicate (Suc (unat (stTree txo)) - length tbs) emptyTreeBalance)"
  obtain v where v: "stValue txo = Some v" "unat (stTree txo) < length g"
    using assms unfolding addToTree_def Let_def g_def [symmetric] by (auto split: option.splits if_split_asm)
  show thesis
  proof (cases "trBalance (g ! unat (stTree txo))")
    case None
    show thesis
      by (rule that [OF g_def v(2), where tb = "(g ! unat (stTree txo))\<lparr>trTokenData := stTokenData txo, trBalance := Some v,
           trUTXOs := trUTXOs (g ! unat (stTree txo)) @ [txo]\<rparr>"])
        (use assms [unfolded addToTree_def Let_def, folded g_def] v None in \<open>auto simp: not_le Let_def\<close>)
  next
    case (Some b)
    show thesis
      by (rule that [OF g_def v(2), where tb = "(g ! unat (stTree txo))\<lparr>trBalance := Some (b + v),
           trUTXOs := trUTXOs (g ! unat (stTree txo)) @ [txo]\<rparr>"])
        (use assms [unfolded addToTree_def Let_def, folded g_def] v Some in \<open>auto simp: not_le Let_def\<close>)
  qed
qed

lemma addToTree_holds:
  assumes "addToTree txo tbs = Inr tbs'" "treesHold txos tbs"
  shows "treesHold (txos @ [txo]) tbs'"
proof -
  obtain g tb where g: "g = (if unat (stTree txo) \<ge> 2 ^ 63 then tbs else tbs @ replicate (Suc (unat (stTree txo)) - length tbs) emptyTreeBalance)"
    "unat (stTree txo) < length g" "trUTXOs tb = trUTXOs (g ! unat (stTree txo)) @ [txo]"
    "treeWorth tb = treeWorth (g ! unat (stTree txo)) + worth txo" "tbs' = g[unat (stTree txo) := tb]"
    by (rule addToTree_Inr [OF assms(1)])
  have "treesHold txos g" using assms(2) treesHold_grow by (simp add: g(1))
  from treesHold_put [OF this g(2-4)] show ?thesis by (simp add: g(5))
qed

lemma addToTree_total:
  assumes "unat (stTree txo) < 2 ^ 63" "stValue txo = Some v"
  shows "\<exists>tbs'. addToTree txo tbs = Inr tbs'"
  using assms by (auto simp: addToTree_def Let_def)

lemma addAll_holds:
  assumes "foldRes addToTree txos tbs = Inr tbs'" "treesHold txos0 tbs"
  shows "treesHold (txos0 @ txos) tbs'"
  using assms
proof (induction txos arbitrary: tbs txos0)
  case (Cons txo txos)
  then obtain u where u: "addToTree txo tbs = Inr u" "foldRes addToTree txos u = Inr tbs'" by (auto simp: res_elims)
  from Cons.IH [OF u(2) addToTree_holds [OF u(1) Cons.prems(2)]] show ?case by simp
qed simp

lemma addAll_total:
  "\<forall>txo \<in> set txos. unat (stTree txo) < 2 ^ 63 \<and> stValue txo \<noteq> None \<Longrightarrow> \<exists>tbs'. foldRes addToTree txos tbs = Inr tbs'"
proof (induction txos arbitrary: tbs)
  case (Cons txo txos)
  then obtain v where v: "unat (stTree txo) < 2 ^ 63" "stValue txo = Some v" by auto
  obtain u where "addToTree txo tbs = Inr u" using addToTree_total [OF v] by blast
  then show ?case using Cons by simp
qed simp

text \<open>What the balances of a wallet say of themselves.\<close>

definition summed :: "TokenBalances \<Rightarrow> bool" where
  "summed balances \<longleftrightarrow> wfmap balances \<and> (\<forall>(h, b) \<in> set balances. tbBalance b = sum_list (map worth (tbUTXOs b)) \<and>
     (\<forall>txo \<in> set (tbUTXOs b). stValue txo \<noteq> None))"

lemma addBalance_summed:
  assumes "summed out" "stValue txo = Some v"
  shows "summed (addBalance h txo v out)"
proof -
  define b where "b = (case gget out h of None \<Rightarrow> \<lparr>tbBalance = v, tbTokenData = stTokenData txo, tbUTXOs = [txo]\<rparr>
       | Some balance \<Rightarrow> balance\<lparr>tbBalance := tbBalance balance + v, tbUTXOs := tbUTXOs balance @ [txo]\<rparr>)"
  have "tbBalance b = sum_list (map worth (tbUTXOs b)) \<and> (\<forall>txo \<in> set (tbUTXOs b). stValue txo \<noteq> None)"
    using assms unfolding b_def summed_def by (auto split: option.splits dest!: map_of_SomeD)
  moreover have "x = (h, b) \<or> x \<in> set out" if "x \<in> set (gput h b out)" for x
    using gput_set [OF _ that] assms(1) by (auto simp: summed_def)
  ultimately show ?thesis using assms(1) unfolding summed_def addBalance_def b_def [symmetric] by fastforce
qed

lemma tokenBalances_summed:
  assumes "tokenBalancesFromTXOs keccak txos manager buckets = Inr balances"
  shows "summed balances"
  using assms unfolding tokenBalancesFromTXOs_def
  by (rule foldRes_invariant)
    (auto simp: summed_def [of "[]"] Let_def res_elims split: option.splits if_splits intro: addBalance_summed)

definition treesOk :: "TokenBalances \<Rightarrow> TotalBalancesByTreeNumberMap \<Rightarrow> bool" where
  "treesOk balances totals \<longleftrightarrow> (\<forall>h. case gget totals h of None \<Rightarrow> gget balances h = None
     | Some tbs \<Rightarrow> (\<exists>b. gget balances h = Some b \<and> treesHold (tbUTXOs b) tbs))"

lemma treesOk_gput:
  assumes "treesOk done out" "h \<notin> fst ` set done" "treesHold (tbUTXOs b) tbs"
  shows "treesOk (done @ [(h, b)]) (gput h tbs out)"
  unfolding treesOk_def
proof
  fix h'
  have new: "gget (done @ [(h, b)]) h' = (if h' = h then Some b else gget done h')"
    using assms(2) by (cases "gget done h'") (auto simp: map_add_def dest!: map_of_SomeD intro: rev_image_eqI split: option.splits)
  show "case gget (gput h tbs out) h' of None \<Rightarrow> gget (done @ [(h, b)]) h' = None
     | Some tbs \<Rightarrow> (\<exists>c. gget (done @ [(h, b)]) h' = Some c \<and> treesHold (tbUTXOs c) tbs)"
    using assms(3) spec [OF assms(1) [unfolded treesOk_def], of h'] unfolding new gget_gput by (cases "h' = h") simp_all
qed

lemma totals_trees:
  assumes "totalBalancesByTreeNumberFromBalances balances = Inr totals" "wfmap balances"
  shows "treesOk balances totals"
proof -
  have "treesOk (done @ balances) totals"
    if "foldRes (\<lambda>(tokenHash, balance) out. andThen (foldRes addToTree (tbUTXOs balance) []) (\<lambda>treeBalances.
       Inr (gput tokenHash treeBalances out))) balances out = Inr totals" "treesOk done out" "wfmap (done @ balances)"
    for "done" out
    using that
  proof (induction balances arbitrary: "done" out)
    case (Cons hb balances)
    obtain h b where hb: "hb = (h, b)" by (cases hb)
    from Cons.prems(1) obtain tbs where t: "foldRes addToTree (tbUTXOs b) [] = Inr tbs"
      and r: "foldRes (\<lambda>(tokenHash, balance) out. andThen (foldRes addToTree (tbUTXOs balance) []) (\<lambda>treeBalances.
       Inr (gput tokenHash treeBalances out))) balances (gput h tbs out) = Inr totals"
      by (auto simp: hb res_elims)
    have h: "h \<notin> fst ` set done" using Cons.prems(3) by (auto simp: hb)
    have "treesHold (tbUTXOs b) tbs" using addAll_holds [OF t treesHold_Nil] by simp
    then have "treesOk (done @ [(h, b)]) (gput h tbs out)"
      using h by (intro treesOk_gput [OF Cons.prems(2)])
    from Cons.IH [OF r this] Cons.prems(3) show ?case by (simp add: hb)
  qed simp
  from this [of "[]" "[]"] assms show ?thesis by (simp add: totalBalancesByTreeNumberFromBalances_def treesOk_def)
qed

lemma totals_total:
  assumes "summed balances" "\<forall>(h, b) \<in> set balances. \<forall>txo \<in> set (tbUTXOs b). unat (stTree txo) < 2 ^ 63"
  shows "\<exists>totals. totalBalancesByTreeNumberFromBalances balances = Inr totals"
proof -
  have all: "\<forall>(h, b) \<in> set balances. \<exists>tbs. foldRes addToTree (tbUTXOs b) [] = Inr tbs"
    using assms by (fastforce simp: summed_def intro!: addAll_total)
  have "\<exists>totals. foldRes (\<lambda>(tokenHash, balance) out. andThen (foldRes addToTree (tbUTXOs balance) []) (\<lambda>treeBalances.
       Inr (gput tokenHash treeBalances out))) balances out = Inr totals" for out
    using all by (induction balances arbitrary: out) auto
  then show ?thesis by (simp add: totalBalancesByTreeNumberFromBalances_def)
qed

text \<open>C9: The balances by tree split the balance of each token: the list of a token holds, at
  the number of each tree, the outputs of the token in that tree in their order, and its amounts add up
  to the balance of the token. The split fails only for a tree number that is no \<^verbatim>\<open>int\<close>.\<close>

theorem tree_balances_split:
  "case BalancesForTXIDVersion keccak ctx wallet txidVersion buckets w of Inl _ \<Rightarrow> True | Inr balances \<Rightarrow>
     (case TotalBalancesByTreeNumber keccak ctx wallet txidVersion buckets w of
        Inl _ \<Rightarrow> list_ex (\<lambda>(h, b). list_ex (\<lambda>txo. unat (stTree txo) \<ge> 2 ^ 63) (tbUTXOs b)) balances
      | Inr totals \<Rightarrow>
          TokenBalanceAcrossAllTrees (treesOf totals token) = (case gget balances token of None \<Rightarrow> 0 | Some b \<Rightarrow> tbBalance b) \<and>
          map trUTXOs (treesOf totals token) =
            map (\<lambda>i. filter (\<lambda>txo. unat (stTree txo) = i) (case gget balances token of None \<Rightarrow> [] | Some b \<Rightarrow> tbUTXOs b))
              [0..<length (treesOf totals token)])"
proof (cases "BalancesForTXIDVersion keccak ctx wallet txidVersion buckets w")
  case (Inr balances)
  then have s: "summed balances"
    by (auto simp: BalancesForTXIDVersion_def queried_def ofVersion_def res_elims intro: tokenBalances_summed split: if_splits)
  show ?thesis
  proof (cases "totalBalancesByTreeNumberFromBalances balances")
    case (Inl e)
    then show ?thesis using totals_total [OF s] Inr
      by (fastforce simp: TotalBalancesByTreeNumber_def list_ex_iff not_less)
  next
    case r: (Inr totals)
    have ok: "treesOk balances totals" using totals_trees [OF r] s by (simp add: summed_def)
    have "TokenBalanceAcrossAllTrees (treesOf totals token) = (case gget balances token of None \<Rightarrow> 0 | Some b \<Rightarrow> tbBalance b) \<and>
          map trUTXOs (treesOf totals token) =
            map (\<lambda>i. inTree i (case gget balances token of None \<Rightarrow> [] | Some b \<Rightarrow> tbUTXOs b)) [0..<length (treesOf totals token)]"
    proof (cases "gget totals token")
      case None
      then show ?thesis using ok by (auto simp: treesOk_def treesOf_def across_sum split: option.splits dest: spec [of _ token])
    next
      case (Some tbs)
      then obtain b where b: "gget balances token = Some b" "treesHold (tbUTXOs b) tbs"
        using ok [unfolded treesOk_def, rule_format, of token] by auto
      then have "tbBalance b = sum_list (map worth (tbUTXOs b))" using s by (auto simp: summed_def dest!: map_of_SomeD)
      then show ?thesis using b Some by (simp add: treesOf_def across_sum treesHold_def)
    qed
    then show ?thesis by (simp add: TotalBalancesByTreeNumber_def Inr r)
  qed
qed simp

section \<open>The proof of an output\<close>

text \<open>C8: The Merkle proof that a wallet with trees in memory gives of one of its outputs leads
  from the commitment of the output, at the position of the output, to the root that the wallet reports.\<close>

theorem output_proof_verifies:
  assumes "constantsOk raw 2" "memReach (wwTree w)" "UTXOMerkleProofForTXO None (Some (memoryTree raw)) txo w = Inr proof"
  shows "VerifyProof raw proof = Inr True \<and> utRoot (memoryTree raw) None w (stTree txo) = Inr (prfRoot proof) \<and>
    HexToBigInt (prfIndices proof) = Inr (uint (stPosition txo)) \<and>
    FormatHexToByteLength (prfLeaf proof) 32 False = FormatHexToByteLength (stCommitmentHash txo) 32 False"
proof -
  have p: "MemoryStore_Proof (HashLeftRight raw) None (wwTree w) (stTree txo) (stPosition txo) = Inr proof"
    and leaf: "FormatHexToByteLength (prfLeaf proof) 32 False = FormatHexToByteLength (stCommitmentHash txo) 32 False"
    using assms(3) by (auto simp: UTXOMerkleProofForTXO_def memoryTree_def res_elims wrapErr_def split: sum.splits if_splits)
  obtain leaf where "MemoryStore_GetLeaf None (wwTree w) (stTree txo) (stPosition txo) = Inr (Some leaf)"
    using p by (cases "MemoryStore_GetLeaf None (wwTree w) (stTree txo) (stPosition txo)")
      (auto simp: MemoryStore_Proof_def MemoryStore_GetLeaf_def proofFromLeaves_def get2_def res_elims split: option.splits if_splits)
  from memory_proof [OF assms(1,2) this] show ?thesis using p leaf by (auto simp: memoryTree_def)
qed

definition sampleOutput :: StoredTXO where
  "sampleOutput = (sampleStoredTXO ''7'' 3)\<lparr>stPosition := 5, stCommitmentHash := ''0a'', stCommitmentType := ''TransactCommitmentV2'',
     stBlindedCommitment := ''bb''\<rparr>"

definition sampleMemoryWallet :: "MemoryStateStore walletWorld" where
  "sampleMemoryWallet = \<lparr>wwDetails = Some [], wwState = Some [(''7'', sampleOutput)], wwSpent = Some \<lparr>sentCommitments = [], unshieldEvents = []\<rparr>,
     wwTree = Some (putLeaf sampleLeaf []), wwTxids = Some [], wwTxidTree = Some [], wwCheckpoints = Some []\<rparr>"

theorem output_proof_verifies_witness:
  "\<exists>proof. UTXOMerkleProofForTXO None (Some (memoryTree sampleConstants)) sampleOutput sampleMemoryWallet = Inr proof \<and>
     VerifyProof sampleConstants proof = Inr True"
proof -
  have at: "stTree sampleOutput = 0" "stPosition sampleOutput = 5" "stCommitmentHash sampleOutput = ''0a''"
      "wwTree sampleMemoryWallet = Some (putLeaf sampleLeaf [])" "leafHash sampleLeaf = ''0a''"
    by (simp_all add: sampleOutput_def sampleStoredTXO_def sampleMemoryWallet_def sampleLeaf_def)
  have leaf: "MemoryStore_GetLeaf None (Some (putLeaf sampleLeaf [])) 0 5 = Inr (Some sampleLeaf)" by code_simp
  have ok: "constantsOk sampleConstants 2" by (rule sampleConstants_ok) simp_all
  obtain p where p: "MemoryStore_Proof (HashLeftRight sampleConstants) None (Some (putLeaf sampleLeaf [])) 0 5 = Inr p" "prfLeaf p = ''0a''"
    using memory_proof [OF ok sample_reach leaf] unfolding at(5) by blast
  have "FormatHexToByteLength ''0a'' 32 False = Inr (replicate 62 CHR ''0'' @ ''0a'')" by code_simp
  then have "UTXOMerkleProofForTXO None (Some (memoryTree sampleConstants)) sampleOutput sampleMemoryWallet = Inr p"
    by (simp add: UTXOMerkleProofForTXO_def memoryTree_def at p wrapErr_def)
  moreover from output_proof_verifies [OF ok _ this] have "VerifyProof sampleConstants p = Inr True"
    using sample_reach by (simp add: at)
  ultimately show ?thesis by blast
qed

end
