(* ===== verification/PoiRefresh.thy ===== *)
theory PoiRefresh
  imports WalletQueries
begin

text \<open>
  Models \<^verbatim>\<open>pkg/wallet/poi\_refresh.go\<close>: the wallet asks the POI node, in batches, for the
  proofs of innocence of the outputs and events that lack them, and stores the answers.
\<close>

section \<open>Batches\<close>

definition poiRefreshBatchSize :: nat where
  "poiRefreshBatchSize = 1000"

text \<open>The loops over \<^verbatim>\<open>start\<close> in steps of the batch size.\<close>

function batchesOf :: "'c list \<Rightarrow> 'c list list" where
  "batchesOf cs = (if cs = [] then [] else take poiRefreshBatchSize cs # batchesOf (drop poiRefreshBatchSize cs))"
  by pat_completeness auto
termination by (relation "measure length") (simp_all add: poiRefreshBatchSize_def)

declare batchesOf.simps [simp del]

section \<open>Outputs\<close>

record RefreshPOIsSummary =
  TXOsChecked :: nat
  TXOsMatched :: nat
  Requests :: nat
  TXOsUpdated :: nat
  TXOsMissing :: nat

record poiRefreshCandidate =
  rcNullifier :: string
  rcData :: BlindedCommitmentData

definition blindedCommitmentTypeForTXO :: "StoredTXO \<Rightarrow> string res" where
  "blindedCommitmentTypeForTXO txo =
     (if isShieldCommitmentType (stCommitmentType txo) then Inr ''Shield''
      else if isTransactCommitmentType (stCommitmentType txo) then Inr ''Transact''
      else Inl (Errorf ''unsupported commitment type for POI refresh: %s'' [AStr (stCommitmentType txo)]))"

definition refreshCandidates :: "Manager \<Rightarrow> string \<Rightarrow> StoredTXO list \<Rightarrow> poiRefreshCandidate list res" where
  "refreshCandidates poiManager txidVersion txos =
     foldRes (\<lambda>txo candidates.
       if stTXIDVersion txo \<noteq> [] \<and> stTXIDVersion txo \<noteq> txidVersion then Inr candidates
       else if \<not> ShouldRetrieveTXOPOIs (Some poiManager) (storedTXOToPOITXO txo) then Inr candidates
       else andThen (blindedCommitmentTypeForTXO txo) (\<lambda>commitmentType.
         Inr (candidates @ [\<lparr>rcNullifier = stNullifier txo,
           rcData = \<lparr>bcdBlindedCommitment = stBlindedCommitment txo, bcdType = commitmentType\<rparr>\<rparr>]))) txos []"

definition refreshTXO ::
  "ctx \<Rightarrow> 'w stateIface \<Rightarrow> (string, POIsPerList) gomap \<Rightarrow> poiRefreshCandidate \<Rightarrow> RefreshPOIsSummary \<Rightarrow> ('w, RefreshPOIsSummary) act" where
  "refreshTXO ctx store poisByCommitment candidate summary =
     (case gget poisByCommitment (bcdBlindedCommitment (rcData candidate)) of
        None \<Rightarrow> ret (summary\<lparr>TXOsMissing := Suc (TXOsMissing summary)\<rparr>)
      | Some pois \<Rightarrow> bind (call (\<lambda>w. ssUpdateTXOPOIs store ctx w (rcNullifier candidate) pois)) (\<lambda>_.
          ret (summary\<lparr>TXOsUpdated := Suc (TXOsUpdated summary)\<rparr>)))"

definition refreshBatch ::
  "ctx \<Rightarrow> 'w stateIface \<Rightarrow> Manager \<Rightarrow> string \<Rightarrow> Chain \<Rightarrow> poiRefreshCandidate list \<Rightarrow> RefreshPOIsSummary \<Rightarrow> ('w, RefreshPOIsSummary) act" where
  "refreshBatch ctx store poiManager txidVersion chain batch summary =
     bind (lift (RetrievePOIsForBlindedCommitments ctx (Some poiManager) txidVersion chain (map rcData batch))) (\<lambda>poisByCommitment.
     foldAct (refreshTXO ctx store poisByCommitment) batch (summary\<lparr>Requests := Suc (Requests summary)\<rparr>))"

definition RefreshPOIs ::
  "ctx \<Rightarrow> 'w stateIface option \<Rightarrow> Manager option \<Rightarrow> string \<Rightarrow> Chain \<Rightarrow> ('w, RefreshPOIsSummary) act" where
  "RefreshPOIs ctx store poiManager txidVersion chain =
     (case (store, poiManager) of
        (None, _) \<Rightarrow> lift (Err ''state store is required'')
      | (_, None) \<Rightarrow> lift (Err ''poi manager is required'')
      | (Some iface, Some manager) \<Rightarrow>
          if txidVersion = [] then lift (Err ''txid version is required'')
          else bind (reads (ssListTXOs iface ctx)) (\<lambda>txos.
               bind (lift (refreshCandidates manager txidVersion txos)) (\<lambda>candidates.
               foldAct (refreshBatch ctx iface manager txidVersion chain) (batchesOf candidates)
                 \<lparr>TXOsChecked = length txos, TXOsMatched = length candidates, Requests = 0, TXOsUpdated = 0, TXOsMissing = 0\<rparr>)))"

definition WalletRefreshPOIs where
  "WalletRefreshPOIs ctx wallet txidVersion chain =
     withValid wallet (\<lambda>wal. RefreshPOIs ctx (waState wal) (waPOIManager wal) txidVersion chain)"

section \<open>Events\<close>

record RefreshSpentPOIEventsSummary =
  SentCommitmentsChecked :: nat
  UnshieldEventsChecked :: nat
  EventsMatched :: nat
  EventRequests :: nat
  EventsUpdated :: nat
  EventsMissing :: nat

text \<open>The code tells the two by the blinded commitment, which every candidate of a sent commitment has.\<close>

datatype spentPOIEventRefreshCandidate = SentCandidate SentCommitmentPOIStatusInput | UnshieldCandidate UnshieldPOIStatusInput

fun candidateData :: "spentPOIEventRefreshCandidate \<Rightarrow> BlindedCommitmentData" where
  "candidateData (SentCandidate e) = \<lparr>bcdBlindedCommitment = snBlindedCommitment e, bcdType = ''Transact''\<rparr>"
| "candidateData (UnshieldCandidate e) = \<lparr>bcdBlindedCommitment = usRailgunTxid e, bcdType = ''Unshield''\<rparr>"

definition eventCandidates ::
  "Manager \<Rightarrow> SentCommitmentPOIStatusInput list \<Rightarrow> UnshieldPOIStatusInput list \<Rightarrow> spentPOIEventRefreshCandidate list" where
  "eventCandidates poiManager sentEvents unshields =
     map SentCandidate (filter (\<lambda>e. ShouldRetrieveSentCommitmentPOIs (Some poiManager) (poiSentCommitment e)) sentEvents) @
     map UnshieldCandidate (filter (\<lambda>e. ShouldRetrieveUnshieldEventPOIs (Some poiManager) (poiUnshieldEvent e)) unshields)"

definition refreshEvent ::
  "ctx \<Rightarrow> 'w spentIface \<Rightarrow> (string, POIsPerList) gomap \<Rightarrow> spentPOIEventRefreshCandidate \<Rightarrow> RefreshSpentPOIEventsSummary
   \<Rightarrow> ('w, RefreshSpentPOIEventsSummary) act" where
  "refreshEvent ctx store poisByCommitment candidate summary =
     (case gget poisByCommitment (bcdBlindedCommitment (candidateData candidate)) of
        None \<Rightarrow> ret (summary\<lparr>EventsMissing := Suc (EventsMissing summary)\<rparr>)
      | Some pois \<Rightarrow> bind (call (\<lambda>w. case candidate of
            SentCandidate e \<Rightarrow> spUpsertSentCommitmentPOIEvent store ctx w (e\<lparr>snPOIsPerList := pois\<rparr>)
          | UnshieldCandidate e \<Rightarrow> spUpsertUnshieldPOIEvent store ctx w (e\<lparr>usPOIsPerList := pois\<rparr>))) (\<lambda>_.
          ret (summary\<lparr>EventsUpdated := Suc (EventsUpdated summary)\<rparr>)))"

definition refreshEventBatch ::
  "ctx \<Rightarrow> 'w spentIface \<Rightarrow> Manager \<Rightarrow> string \<Rightarrow> Chain \<Rightarrow> spentPOIEventRefreshCandidate list \<Rightarrow> RefreshSpentPOIEventsSummary
   \<Rightarrow> ('w, RefreshSpentPOIEventsSummary) act" where
  "refreshEventBatch ctx store poiManager txidVersion chain batch summary =
     bind (lift (RetrievePOIsForBlindedCommitments ctx (Some poiManager) txidVersion chain (map candidateData batch))) (\<lambda>poisByCommitment.
     foldAct (refreshEvent ctx store poisByCommitment) batch (summary\<lparr>EventRequests := Suc (EventRequests summary)\<rparr>))"

definition RefreshSpentPOIEvents ::
  "ctx \<Rightarrow> 'w spentIface option \<Rightarrow> Manager option \<Rightarrow> string \<Rightarrow> Chain \<Rightarrow> ('w, RefreshSpentPOIEventsSummary) act" where
  "RefreshSpentPOIEvents ctx store poiManager txidVersion chain =
     (case (store, poiManager) of
        (None, _) \<Rightarrow> lift (Err ''spent poi event store is required'')
      | (_, None) \<Rightarrow> lift (Err ''poi manager is required'')
      | (Some iface, Some manager) \<Rightarrow>
          if txidVersion = [] then lift (Err ''txid version is required'')
          else bind (reads (spListSentCommitmentPOIEvents iface ctx)) (\<lambda>sentEvents.
               bind (reads (spListUnshieldPOIEvents iface ctx)) (\<lambda>unshields.
               let candidates = eventCandidates manager sentEvents unshields
               in foldAct (refreshEventBatch ctx iface manager txidVersion chain) (batchesOf candidates)
                 \<lparr>SentCommitmentsChecked = length sentEvents, UnshieldEventsChecked = length unshields,
                  EventsMatched = length candidates, EventRequests = 0, EventsUpdated = 0, EventsMissing = 0\<rparr>)))"

definition WalletRefreshSpentPOIEvents where
  "WalletRefreshSpentPOIEvents ctx wallet txidVersion chain =
     withValid wallet (\<lambda>wal. RefreshSpentPOIEvents ctx (waSpentPOIEvents wal) (waPOIManager wal) txidVersion chain)"

section \<open>What a refresh does\<close>

lemma batches:
  "batchesOf [] = []"
  "cs \<noteq> [] \<Longrightarrow> batchesOf cs = take poiRefreshBatchSize cs # batchesOf (drop poiRefreshBatchSize cs)"
  by (subst batchesOf.simps, simp)+

lemma concat_batchesOf: "concat (batchesOf cs) = cs"
proof (induction cs rule: batchesOf.induct)
  case (1 cs)
  then show ?case by (cases "cs = []") (simp_all add: batches)
qed

lemma batch_size: "b \<in> set (batchesOf cs) \<Longrightarrow> length b \<le> poiRefreshBatchSize"
proof (induction cs rule: batchesOf.induct)
  case (1 cs)
  show ?case
  proof (cases "cs = []")
    case False
    then show ?thesis using 1 by (auto simp: batches(2) [OF False])
  qed (use 1 in \<open>simp add: batches\<close>)
qed

lemma batches_step:
  assumes "0 < (k :: nat)" "0 < n"
  shows "Suc ((n - k + k - 1) div k) = (n + k - 1) div k"
proof -
  obtain j where j: "n = Suc j" using assms(2) by (cases n) auto
  have "(n - k + k - 1) div k = j div k"
  proof (cases "n \<le> k")
    case True
    then have "n - k + k - 1 = k - 1" "k - 1 < k" "j < k" using assms(1) j by auto
    then show ?thesis by (simp only: div_less)
  next
    case False
    then have "n - k + k - 1 = j" using j by auto
    then show ?thesis by (simp only:)
  qed
  moreover have "n + k - 1 = j + k" using j by simp
  then have "(n + k - 1) div k = Suc (j div k)" using assms(1) by (simp only: div_add_self2)
  ultimately show ?thesis by (simp only:)
qed

lemma batch_count: "length (batchesOf cs) = (length cs + poiRefreshBatchSize - 1) div poiRefreshBatchSize"
proof (induction cs rule: batchesOf.induct)
  case (1 cs)
  have k: "0 < poiRefreshBatchSize" by (simp add: poiRefreshBatchSize_def)
  show ?case
  proof (cases "cs = []")
    case True
    then show ?thesis using k by (simp add: batches)
  next
    case False
    have "length (batchesOf cs) = Suc ((length cs - poiRefreshBatchSize + poiRefreshBatchSize - 1) div poiRefreshBatchSize)"
      using 1 [OF False] unfolding batches(2) [OF False] length_Cons length_drop by (rule arg_cong)
    then show ?thesis using batches_step [OF k, of "length cs"] False by simp
  qed
qed

lemma refreshTXO_counts:
  assumes "refreshTXO ctx store pois c s w = (w', Inr s')"
  shows "Requests s' = Requests s \<and> TXOsUpdated s' + TXOsMissing s' = Suc (TXOsUpdated s + TXOsMissing s) \<and>
    TXOsMatched s' = TXOsMatched s"
  using assms unfolding refreshTXO_def
  by (auto simp: ret_def bind_Inr split: option.splits)

lemma refreshBatch_counts:
  assumes "refreshBatch ctx store manager v chain batch s w = (w', Inr s')"
  shows "Requests s' = Suc (Requests s) \<and> TXOsUpdated s' + TXOsMissing s' = length batch + (TXOsUpdated s + TXOsMissing s) \<and>
    TXOsMatched s' = TXOsMatched s"
proof -
  obtain pois where run: "foldAct (refreshTXO ctx store pois) batch (s\<lparr>Requests := Suc (Requests s)\<rparr>) w = (w', Inr s')"
    using assms by (auto simp: refreshBatch_def bind_Inr run_lift)
  define I where "I ys t \<longleftrightarrow> Requests t = Suc (Requests s) \<and>
      TXOsUpdated t + TXOsMissing t = length ys + (TXOsUpdated s + TXOsMissing s) \<and> TXOsMatched t = TXOsMatched s"
    for ys :: "poiRefreshCandidate list" and t :: RefreshPOIsSummary
  have "I batch s'"
    by (rule foldAct_run [OF run, of "\<lambda>ys t _. I ys t"]) (auto simp: I_def dest!: refreshTXO_counts)
  then show ?thesis by (simp add: I_def)
qed

text \<open>A successful refresh asks for every output that lacks a proof of innocence exactly
  once, in as many requests as batches of a thousand are needed, none of which is larger than what the
  node accepts, and counts each as updated or missing.\<close>

lemma refresh_accounts:
  "case RefreshPOIs ctx store poiManager txidVersion chain w of
     (_, Inr summary) \<Rightarrow> Requests summary = (TXOsMatched summary + 999) div 1000 \<and>
       TXOsUpdated summary + TXOsMissing summary = TXOsMatched summary \<and>
       list_all (\<lambda>batch. length batch \<le> maxBlindedCommitmentPOIRetrieval) (batchesOf (candidates :: poiRefreshCandidate list)) \<and>
       concat (batchesOf candidates) = candidates
   | (_, Inl _) \<Rightarrow> True"
proof (cases "RefreshPOIs ctx store poiManager txidVersion chain w")
  case (Pair w' r)
  show ?thesis
  proof (cases r)
    case (Inr summary)
    obtain iface manager where sm: "store = Some iface" "poiManager = Some manager"
      using Pair Inr by (cases store; cases poiManager) (auto simp: RefreshPOIs_def run_lift)
    define start where "start txos cs = \<lparr>TXOsChecked = length txos, TXOsMatched = length cs, Requests = 0, TXOsUpdated = 0, TXOsMissing = 0\<rparr>"
      for txos :: "StoredTXO list" and cs :: "poiRefreshCandidate list"
    obtain txos cs where run: "foldAct (refreshBatch ctx iface manager txidVersion chain) (batchesOf cs) (start txos cs) w = (w', Inr summary)"
      using Pair Inr unfolding sm by (auto simp: RefreshPOIs_def bind_Inr run_lift run_reads start_def split: if_splits)
    define I where "I bs t \<longleftrightarrow> Requests t = length bs \<and> TXOsUpdated t + TXOsMissing t = length (concat bs) \<and>
        TXOsMatched t = length cs" for bs :: "poiRefreshCandidate list list" and t :: RefreshPOIsSummary
    have "I (batchesOf cs) summary"
      by (rule foldAct_run [OF run, of "\<lambda>bs t _. I bs t"]) (auto simp: I_def start_def dest!: refreshBatch_counts)
    then show ?thesis
      using batch_size [of _ candidates] Pair Inr
      by (auto simp: I_def concat_batchesOf batch_count poiRefreshBatchSize_def maxBlindedCommitmentPOIRetrieval_def list_all_iff)
  qed (simp add: Pair)
qed

section \<open>The outputs after a refresh\<close>

definition wantsPOIs :: "Manager \<Rightarrow> string \<Rightarrow> StoredTXO \<Rightarrow> bool" where
  "wantsPOIs manager txidVersion txo \<longleftrightarrow> (stTXIDVersion txo = [] \<or> stTXIDVersion txo = txidVersion) \<and>
     ShouldRetrieveTXOPOIs (Some manager) (storedTXOToPOITXO txo)"

definition candidateOf :: "StoredTXO \<Rightarrow> poiRefreshCandidate" where
  "candidateOf txo = \<lparr>rcNullifier = stNullifier txo, rcData = \<lparr>bcdBlindedCommitment = stBlindedCommitment txo,
     bcdType = (case blindedCommitmentTypeForTXO txo of Inr t \<Rightarrow> t | Inl _ \<Rightarrow> [])\<rparr>\<rparr>"

lemma refreshCandidates_map:
  assumes "refreshCandidates manager txidVersion txos = Inr cs"
  shows "cs = map candidateOf (filter (wantsPOIs manager txidVersion) txos)"
proof -
  have "cs = cs0 @ map candidateOf (filter (wantsPOIs manager txidVersion) txos)"
    if "foldRes (\<lambda>txo candidates.
       if stTXIDVersion txo \<noteq> [] \<and> stTXIDVersion txo \<noteq> txidVersion then Inr candidates
       else if \<not> ShouldRetrieveTXOPOIs (Some manager) (storedTXOToPOITXO txo) then Inr candidates
       else andThen (blindedCommitmentTypeForTXO txo) (\<lambda>commitmentType.
         Inr (candidates @ [\<lparr>rcNullifier = stNullifier txo,
           rcData = \<lparr>bcdBlindedCommitment = stBlindedCommitment txo, bcdType = commitmentType\<rparr>\<rparr>]))) txos cs0 = Inr cs" for cs0
    using that
  proof (induction txos arbitrary: cs0)
    case (Cons txo txos)
    show ?case
    proof (cases "wantsPOIs manager txidVersion txo")
      case True
      then have guards: "\<not> (stTXIDVersion txo \<noteq> [] \<and> stTXIDVersion txo \<noteq> txidVersion)"
          "ShouldRetrieveTXOPOIs (Some manager) (storedTXOToPOITXO txo)"
        by (auto simp: wantsPOIs_def)
      obtain t where t: "blindedCommitmentTypeForTXO txo = Inr t"
        using Cons.prems guards by (auto simp: res_elims)
      have "cs = (cs0 @ [candidateOf txo]) @ map candidateOf (filter (wantsPOIs manager txidVersion) txos)"
        by (rule Cons.IH) (use Cons.prems in \<open>simp only: foldRes.simps guards t andThen_simps candidateOf_def sum.case if_False not_True_eq_False\<close>)
      then show ?thesis using True by simp
    next
      case False
      then have "cs = cs0 @ map candidateOf (filter (wantsPOIs manager txidVersion) txos)"
        using Cons.prems by (intro Cons.IH) (auto simp: wantsPOIs_def split: if_splits)
      then show ?thesis using False by simp
    qed
  qed simp
  from this [of "[]"] assms show ?thesis by (simp add: refreshCandidates_def)
qed

definition withPOIs :: "(string \<Rightarrow> POIsPerList option) \<Rightarrow> poiRefreshCandidate \<Rightarrow> outputs \<Rightarrow> outputs" where
  "withPOIs answer c out = (case answer (bcdBlindedCommitment (rcData c)) of
     None \<Rightarrow> out | Some pois \<Rightarrow> out(rcNullifier c := map_option (\<lambda>t. t\<lparr>stPOIsPerList := pois\<rparr>) (out (rcNullifier c))))"

lemma fold_withPOIs_other: "n \<notin> rcNullifier ` set cs \<Longrightarrow> fold (withPOIs answer) cs out n = out n"
  by (induction cs arbitrary: out) (auto simp: withPOIs_def split: option.splits)

lemma fold_withPOIs_entry:
  "distinct (map rcNullifier cs) \<Longrightarrow> c \<in> set cs \<Longrightarrow> fold (withPOIs answer) cs out (rcNullifier c) = withPOIs answer c out (rcNullifier c)"
proof (induction cs arbitrary: out)
  case (Cons d cs)
  show ?case
  proof (cases "c = d")
    case True
    then show ?thesis using Cons.prems by (simp add: fold_withPOIs_other)
  next
    case False
    then have "c \<in> set cs" "rcNullifier d \<notin> rcNullifier ` set cs" using Cons.prems by auto
    then have "rcNullifier c \<noteq> rcNullifier d" by (metis imageI)
    then have "withPOIs answer c (withPOIs answer d out) (rcNullifier c) = withPOIs answer c out (rcNullifier c)"
      by (simp add: withPOIs_def split: option.splits)
    then show ?thesis using Cons False by simp
  qed
qed simp

definition outputsNow :: "outputs \<Rightarrow> MemoryStateStore walletWorld \<Rightarrow> bool" where
  "outputsNow out w \<longleftrightarrow> (\<exists>m. wwState w = Some m \<and> gget m = out)"

lemma refreshTXO_outputs:
  assumes "refreshTXO None (memoryState keccak) pois c s w = (w', Inr s')" "outputsNow out w"
    and "gget pois (bcdBlindedCommitment (rcData c)) = answer (bcdBlindedCommitment (rcData c))"
  shows "outputsNow (withPOIs answer c out) w'"
proof -
  obtain m where m: "wwState w = Some m" "gget m = out" using assms(2) by (auto simp: outputsNow_def)
  show ?thesis
  proof (cases "answer (bcdBlindedCommitment (rcData c))")
    case None
    then show ?thesis using assms by (simp add: refreshTXO_def run_ret withPOIs_def)
  next
    case (Some p)
    then obtain t where t: "gget m (rcNullifier c) = Some t" "w' = w\<lparr>wwState := Some (gput (rcNullifier c) (t\<lparr>stPOIsPerList := p\<rparr>) m)\<rparr>"
      using assms(1,3) m(1)
      by (auto simp: refreshTXO_def bind_Inr run_ret call_Inr memoryState_def within_Inr MemoryStateStore_UpdateTXOPOIs_def updatePOIs_def
          res_elims split: option.splits)
    have "gget (gput (rcNullifier c) (t\<lparr>stPOIsPerList := p\<rparr>) m) = withPOIs answer c out"
      using t(1) m(2) by (auto simp: withPOIs_def Some gget_gput fun_eq_iff)
    then show ?thesis by (simp add: outputsNow_def t(2))
  qed
qed

lemma batch_outputs:
  assumes "foldAct (refreshTXO None (memoryState keccak) pois) cs s w = (w', Inr s')" "outputsNow out w"
    and "\<And>c. c \<in> set cs \<Longrightarrow> gget pois (bcdBlindedCommitment (rcData c)) = answer (bcdBlindedCommitment (rcData c))"
  shows "outputsNow (fold (withPOIs answer) cs out) w'"
  by (rule foldAct_run [OF assms(1), of "\<lambda>ys _ w. outputsNow (fold (withPOIs answer) ys out) w"])
    (auto simp: assms(2) intro!: refreshTXO_outputs assms(3))

text \<open>An output lacks a proof when the status of some list is missing or not valid.\<close>

definition lacksProof :: "Manager \<Rightarrow> StoredTXO \<Rightarrow> bool" where
  "lacksProof manager txo \<longleftrightarrow> (\<exists>list \<in> set (mgLists manager).
     (case stPOIsPerList txo of None \<Rightarrow> None | Some statuses \<Rightarrow> gget statuses (ListKey list)) \<noteq> Some StatusValid)"

lemma lacksProof_retrieved:
  "ShouldRetrieveTXOPOIs (Some manager) (storedTXOToPOITXO txo) \<longleftrightarrow> stBlindedCommitment txo \<noteq> [] \<and> lacksProof manager txo"
proof (cases "stPOIsPerList txo")
  case None
  then show ?thesis
    by (cases "mgLists manager") (auto simp: ShouldRetrieveTXOPOIs_def storedTXOToPOITXO_def hasValidPOIsAllLists_def
      validatePOIStatusForLists_def hasAllKeys_def GetAllListKeys_def lacksProof_def)
next
  case (Some statuses)
  have "(\<forall>k \<in> ks. gget statuses (ListKey k) \<noteq> None) \<and> (\<forall>k \<in> ks. poiStatus (Some statuses) (ListKey k) = StatusValid) \<longleftrightarrow>
      (\<forall>k \<in> ks. gget statuses (ListKey k) = Some StatusValid)" for ks
    by (fastforce simp: poiStatus_def split: option.splits)
  from this [of "set (mgLists manager)"] Some show ?thesis
    by (simp add: ShouldRetrieveTXOPOIs_def storedTXOToPOITXO_def hasValidPOIsAllLists_def
      validatePOIStatusForLists_def hasAllKeys_def GetAllListKeys_def lacksProof_def)
qed

text \<open>The batches done so far: each was answered, its outputs have the answer, no other has changed.\<close>

definition batchesDone :: "Manager \<Rightarrow> string \<Rightarrow> Chain \<Rightarrow> outputs \<Rightarrow> poiRefreshCandidate list list \<Rightarrow> outputs \<Rightarrow> bool" where
  "batchesDone manager txidVersion chain out0 bs out \<longleftrightarrow>
     (\<forall>b \<in> set bs. \<exists>pois. RetrievePOIsForBlindedCommitments None (Some manager) txidVersion chain (map rcData b) = Inr pois \<and>
        (\<forall>c \<in> set b. out (rcNullifier c) = withPOIs (gget pois) c out0 (rcNullifier c))) \<and>
     (\<forall>n. n \<notin> rcNullifier ` set (concat bs) \<longrightarrow> out n = out0 n)"

lemma batchesDone_snoc:
  assumes "batchesDone manager txidVersion chain out0 bs out" and d: "distinct (map rcNullifier (concat (bs @ [b])))"
    and "RetrievePOIsForBlindedCommitments None (Some manager) txidVersion chain (map rcData b) = Inr pois"
  shows "batchesDone manager txidVersion chain out0 (bs @ [b]) (fold (withPOIs (gget pois)) b out)"
proof -
  have db: "distinct (map rcNullifier b)" and disj: "rcNullifier ` set (concat bs) \<inter> rcNullifier ` set b = {}"
    using d by auto
  have old: "fold (withPOIs (gget pois)) b out (rcNullifier c) = out (rcNullifier c)" if "c \<in> set (concat bs)" for c
    using that disj by (intro fold_withPOIs_other) blast
  have new: "fold (withPOIs (gget pois)) b out (rcNullifier c) = withPOIs (gget pois) c out0 (rcNullifier c)" if "c \<in> set b" for c
  proof -
    have "rcNullifier c \<notin> rcNullifier ` set (concat bs)" using that disj by blast
    then have "out (rcNullifier c) = out0 (rcNullifier c)" using assms(1) by (simp add: batchesDone_def)
    then show ?thesis using fold_withPOIs_entry [OF db that] by (simp add: withPOIs_def split: option.splits)
  qed
  have "\<exists>pois'. RetrievePOIsForBlindedCommitments None (Some manager) txidVersion chain (map rcData b') = Inr pois' \<and>
      (\<forall>c \<in> set b'. fold (withPOIs (gget pois)) b out (rcNullifier c) = withPOIs (gget pois') c out0 (rcNullifier c))"
    if b': "b' \<in> set bs" for b'
  proof -
    have "c \<in> set (concat bs)" if "c \<in> set b'" for c using that b' by auto
    then show ?thesis using assms(1) b' old by (simp add: batchesDone_def)
  qed
  moreover have "fold (withPOIs (gget pois)) b out n = out0 n" if "n \<notin> rcNullifier ` set (concat (bs @ [b]))" for n
  proof -
    have "n \<notin> rcNullifier ` set b" "n \<notin> rcNullifier ` set (concat bs)" using that by auto
    moreover have "out n = out0 n" using assms(1) calculation(2) unfolding batchesDone_def by blast
    ultimately show ?thesis by (simp only: fold_withPOIs_other not_False_eq_True)
  qed
  ultimately show ?thesis
    unfolding batchesDone_def set_append list.set ball_Un using new assms(3) by blast
qed

text \<open>A request of at most a thousand commitments for the version, the chain and all lists, with its
  answer: the new output has the proofs that the answer holds for its commitment, if it holds any.\<close>

definition answeredByNode :: "Manager \<Rightarrow> string \<Rightarrow> Chain \<Rightarrow> StoredTXO \<Rightarrow> StoredTXO \<Rightarrow> bool" where
  "answeredByNode manager txidVersion chain txo txo' \<longleftrightarrow> (\<exists>node datas pois. mgNode manager = Some node \<and>
     length datas \<le> 1000 \<and> stBlindedCommitment txo \<in> set (map bcdBlindedCommitment datas) \<and>
     GetPOIsPerList node None \<lparr>gpTXIDVersion = txidVersion, gpChain = chain, gpListKeys = map ListKey (mgLists manager),
       gpBlindedCommitmentDatas = datas\<rparr> = Inr pois \<and>
     txo' = (case gget pois (stBlindedCommitment txo) of None \<Rightarrow> txo | Some answer \<Rightarrow> txo\<lparr>stPOIsPerList := answer\<rparr>))"

lemma batchesDone_answered:
  assumes b0: "batchesDone manager txidVersion chain out0 bs out" and "candidateOf txo \<in> set (concat bs)" and "out0 (stNullifier txo) = Some txo"
  shows "\<exists>txo'. out (stNullifier txo) = Some txo' \<and> answeredByNode manager txidVersion chain txo txo'"
proof -
  have c: "rcNullifier (candidateOf txo) = stNullifier txo" "bcdBlindedCommitment (rcData (candidateOf txo)) = stBlindedCommitment txo"
    by (simp_all add: candidateOf_def)
  obtain b where b: "b \<in> set bs" "candidateOf txo \<in> set b" using assms(2) by auto
  then obtain pois where p: "RetrievePOIsForBlindedCommitments None (Some manager) txidVersion chain (map rcData b) = Inr pois"
      "out (rcNullifier (candidateOf txo)) = withPOIs (gget pois) (candidateOf txo) out0 (rcNullifier (candidateOf txo))"
    using b0 unfolding batchesDone_def by blast
  obtain node where node: "mgNode manager = Some node"
      "GetPOIsPerList node None \<lparr>gpTXIDVersion = txidVersion, gpChain = chain, gpListKeys = map ListKey (mgLists manager),
         gpBlindedCommitmentDatas = map rcData b\<rparr> = Inr pois" "length (map rcData b) \<le> 1000"
    using p(1) by (cases "mgNode manager") (auto simp: RetrievePOIsForBlindedCommitments_def managerNode_def GetAllListKeys_def
        maxBlindedCommitmentPOIRetrieval_def split: if_splits)
  have "stBlindedCommitment txo \<in> set (map bcdBlindedCommitment (map rcData b))"
    using b(2) by (force simp: c(2) [symmetric])
  moreover have "out (stNullifier txo) = Some (case gget pois (stBlindedCommitment txo) of None \<Rightarrow> txo | Some answer \<Rightarrow> txo\<lparr>stPOIsPerList := answer\<rparr>)"
    using p(2) assms(3) by (simp add: withPOIs_def c split: option.splits)
  ultimately show ?thesis using node unfolding answeredByNode_def by blast
qed

lemma refresh_batches:
  assumes "goodTXOs m" and "wwState w = Some m"
    and "RefreshPOIs None (Some (memoryState keccak)) (Some manager) txidVersion chain w = (w', Inr summary)"
  shows "\<exists>m'. wwState w' = Some m' \<and> batchesDone manager txidVersion chain (gget m)
    (batchesOf (map candidateOf (filter (wantsPOIs manager txidVersion) (sortedTXOs m)))) (gget m')"
proof -
  define cs where "cs = map candidateOf (filter (wantsPOIs manager txidVersion) (sortedTXOs m))"
  obtain cs' s0 where c: "refreshCandidates manager txidVersion (sortedTXOs m) = Inr cs'"
    and run: "foldAct (refreshBatch None (memoryState keccak) manager txidVersion chain) (batchesOf cs') s0 w = (w', Inr summary)"
    using assms(2,3)
    by (auto simp: RefreshPOIs_def bind_Inr run_lift run_reads memoryState_def MemoryStateStore_ListTXOs_def split: if_splits)
  have cs: "cs' = cs" unfolding cs_def by (rule refreshCandidates_map [OF c])
  define I where "I bs v \<longleftrightarrow> (distinct (map rcNullifier (concat bs)) \<longrightarrow>
    (\<exists>out. outputsNow out v \<and> batchesDone manager txidVersion chain (gget m) bs out))" for bs v
  have "I (batchesOf cs) w'"
  proof (rule foldAct_run [OF run [unfolded cs], of "\<lambda>bs _ w. I bs w"])
    show "I [] w" using assms(2) by (auto simp: I_def outputsNow_def batchesDone_def)
  next
    fix bs b s u u' s'
    assume I: "I bs u" and step: "refreshBatch None (memoryState keccak) manager txidVersion chain b s u = (u', Inr s')"
    obtain pois where p: "RetrievePOIsForBlindedCommitments None (Some manager) txidVersion chain (map rcData b) = Inr pois"
      and f: "foldAct (refreshTXO None (memoryState keccak) pois) b (s\<lparr>Requests := Suc (Requests s)\<rparr>) u = (u', Inr s')"
      using step by (auto simp: refreshBatch_def bind_Inr run_lift)
    show "I (bs @ [b]) u'" unfolding I_def
    proof
      assume d: "distinct (map rcNullifier (concat (bs @ [b])))"
      then have "distinct (map rcNullifier (concat bs))" by simp
      then obtain out where o: "outputsNow out u" "batchesDone manager txidVersion chain (gget m) bs out"
        using I unfolding I_def by blast
      show "\<exists>out. outputsNow out u' \<and> batchesDone manager txidVersion chain (gget m) (bs @ [b]) out"
        using batch_outputs [OF f o(1) refl] batchesDone_snoc [OF o(2) d p] by blast
    qed
  qed
  moreover have "rcNullifier (candidateOf t) = stNullifier t" for t by (simp add: candidateOf_def)
  then have "distinct (map rcNullifier cs)"
    using distinct_sortedTXOs [OF assms(1)] by (simp add: cs_def comp_def distinct_map_filter)
  ultimately show ?thesis unfolding cs_def [symmetric] by (auto simp: I_def outputsNow_def concat_batchesOf)
qed

text \<open>C10: After a successful refresh each output that has a blinded commitment, is of the given TXID
  version (or of none) and lacks a valid status for some list has what the node answered for its commitment, if it
  answered at all, to one request of at most a thousand commitments for that version and chain and for all
  lists. Everything else of it, and every output of another version, without commitment or with all
  its proofs, is as before, and no output appears.\<close>

theorem refresh_updates_outputs:
  assumes "goodTXOs m"
    and "RefreshPOIs None (Some (memoryState keccak)) (Some manager) txidVersion chain w = (w', Inr summary)" and "wwState w = Some m"
  shows "\<exists>m'. wwState w' = Some m' \<and> (\<forall>n. case gget m n of
      None \<Rightarrow> gget m' n = None
    | Some txo \<Rightarrow> if stTXIDVersion txo \<in> {[], txidVersion} \<and> stBlindedCommitment txo \<noteq> [] \<and> lacksProof manager txo
        then \<exists>txo'. gget m' n = Some txo' \<and> answeredByNode manager txidVersion chain txo txo'
        else gget m' n = Some txo)"
proof -
  let ?cs = "map candidateOf (filter (wantsPOIs manager txidVersion) (sortedTXOs m))"
  obtain m' where m': "wwState w' = Some m'" "batchesDone manager txidVersion chain (gget m) (batchesOf ?cs) (gget m')"
    using refresh_batches [OF assms(1,3,2)] by blast
  have wants: "wantsPOIs manager txidVersion txo \<longleftrightarrow>
      stTXIDVersion txo \<in> {[], txidVersion} \<and> stBlindedCommitment txo \<noteq> [] \<and> lacksProof manager txo" for txo
    by (auto simp: wantsPOIs_def lacksProof_retrieved)
  have listed: "t \<in> set (sortedTXOs m) \<longleftrightarrow> gget m (stNullifier t) = Some t" for t using set_sortedTXOs [OF assms(1), of t] by auto
  have kept: "gget m' n = gget m n" if "\<And>t. gget m n = Some t \<Longrightarrow> \<not> wantsPOIs manager txidVersion t" for n
  proof -
    have "n \<notin> rcNullifier ` set ?cs" using that listed by (auto simp: candidateOf_def)
    then show ?thesis using m'(2) unfolding batchesDone_def concat_batchesOf by blast
  qed
  have answered: "\<exists>txo'. gget m' n = Some txo' \<and> answeredByNode manager txidVersion chain txo txo'"
    if txo: "gget m n = Some txo" "wantsPOIs manager txidVersion txo" for n txo
  proof -
    have n: "stNullifier txo = n" using goodTXOs_lookup [OF assms(1) txo(1)] by simp
    then have "candidateOf txo \<in> set (concat (batchesOf ?cs))" using txo listed by (simp add: concat_batchesOf)
    from batchesDone_answered [OF m'(2) this] show ?thesis using txo(1) n by simp
  qed
  have "case gget m n of None \<Rightarrow> gget m' n = None
    | Some txo \<Rightarrow> if wantsPOIs manager txidVersion txo then \<exists>txo'. gget m' n = Some txo' \<and> answeredByNode manager txidVersion chain txo txo'
        else gget m' n = Some txo" for n
    using kept [of n] answered [of n] by (cases "gget m n") simp_all
  then show ?thesis unfolding wants [symmetric] using m'(1) by blast
qed

definition sampleNode :: NodeInterface where
  "sampleNode = \<lparr>IsActive = \<lambda>_. True, IsRequired = \<lambda>_ _. Inr True,
     GetPOIsPerList = \<lambda>_ request. Inr (map (\<lambda>d. (bcdBlindedCommitment d, Some [(''L'', StatusValid)])) (gpBlindedCommitmentDatas request)),
     nodeGetPOIMerkleProofs = \<lambda>_ _. Inr [], nodeValidatePOIMerkleRoots = \<lambda>_ _. Inr True, nodeSubmitPOI = \<lambda>_ _. Inr (),
     nodeSubmitLegacyTransactProofs = \<lambda>_ _. Inr ()\<rparr>"

definition sampleManager :: Manager where
  "sampleManager = \<lparr>mgLists = [\<lparr>ListKey = ''L'', ListType = [], ListName = [], ListDescription = []\<rparr>], mgNode = Some sampleNode, mgLaunchBlocks = None\<rparr>"

lemma sample_answers:
  "d \<in> set ds \<Longrightarrow> gget (map (\<lambda>d. (bcdBlindedCommitment d, Some [(''L'', StatusValid)])) ds) (bcdBlindedCommitment d) = Some (Some [(''L'', StatusValid)])"
  by (induction ds) auto

lemma sample_refresh:
  "\<exists>w' summary. RefreshPOIs None (Some (memoryState keccak)) (Some sampleManager) ''V2_PoseidonMerkle'' chain sampleMemoryWallet = (w', Inr summary)"
  by (simp add: RefreshPOIs_def memoryState_def run_reads bind_def run_lift MemoryStateStore_ListTXOs_def sampleMemoryWallet_def
      sortedTXOs_def refreshCandidates_def sampleOutput_def sampleStoredTXO_def ShouldRetrieveTXOPOIs_def storedTXOToPOITXO_def
      hasValidPOIsAllLists_def validatePOIStatusForLists_def hasAllKeys_def GetAllListKeys_def sampleManager_def blindedCommitmentTypeForTXO_def
      isShieldCommitmentType_def isTransactCommitmentType_def batches poiRefreshBatchSize_def refreshBatch_def
      RetrievePOIsForBlindedCommitments_def managerNode_def sampleNode_def maxBlindedCommitmentPOIRetrieval_def refreshTXO_def
      call_def within_def MemoryStateStore_UpdateTXOPOIs_def updatePOIs_def ret_def)

theorem refresh_updates_outputs_witness:
  "\<exists>w' summary. RefreshPOIs None (Some (memoryState (\<lambda>b. b))) (Some sampleManager) ''V2_PoseidonMerkle'' \<lparr>ChainType = 0, ChainID = 1\<rparr> sampleMemoryWallet
       = (w', Inr summary) \<and>
     (\<exists>m'. wwState w' = Some m' \<and> map_option stPOIsPerList (gget m' ''7'') = Some (Some [(''L'', StatusValid)]))"
proof -
  have good: "goodTXOs [(''7'', sampleOutput)]" by (simp add: goodTXOs_def sampleOutput_def sampleStoredTXO_def)
  obtain w' summary where run: "RefreshPOIs None (Some (memoryState (\<lambda>b. b))) (Some sampleManager) ''V2_PoseidonMerkle'' \<lparr>ChainType = 0, ChainID = 1\<rparr> sampleMemoryWallet
       = (w', Inr summary)"
    using sample_refresh by blast
  have "wwState sampleMemoryWallet = Some [(''7'', sampleOutput)]" by (simp add: sampleMemoryWallet_def)
  from refresh_updates_outputs [OF good run this]
  obtain m' where m': "wwState w' = Some m'" and all: "\<And>n. case gget [(''7'', sampleOutput)] n of
      None \<Rightarrow> gget m' n = None
    | Some txo \<Rightarrow> if stTXIDVersion txo \<in> {[], ''V2_PoseidonMerkle''} \<and> stBlindedCommitment txo \<noteq> [] \<and> lacksProof sampleManager txo
        then \<exists>txo'. gget m' n = Some txo' \<and> answeredByNode sampleManager ''V2_PoseidonMerkle'' \<lparr>ChainType = 0, ChainID = 1\<rparr> txo txo'
        else gget m' n = Some txo"
    by blast
  have "stTXIDVersion sampleOutput \<in> {[], ''V2_PoseidonMerkle''} \<and> stBlindedCommitment sampleOutput \<noteq> [] \<and> lacksProof sampleManager sampleOutput"
    by (simp add: sampleOutput_def sampleStoredTXO_def sampleManager_def lacksProof_def)
  then obtain txo' where t: "gget m' ''7'' = Some txo'" "answeredByNode sampleManager ''V2_PoseidonMerkle'' \<lparr>ChainType = 0, ChainID = 1\<rparr> sampleOutput txo'"
    using all [of "''7''"] by auto
  then obtain datas :: "BlindedCommitmentData list" where d: "stBlindedCommitment sampleOutput \<in> set (map bcdBlindedCommitment datas)"
      "txo' = (case gget (map (\<lambda>d. (bcdBlindedCommitment d, Some [(''L'', StatusValid)])) datas) (stBlindedCommitment sampleOutput) of
        None \<Rightarrow> sampleOutput | Some answer \<Rightarrow> sampleOutput\<lparr>stPOIsPerList := answer\<rparr>)"
    unfolding answeredByNode_def by (simp add: sampleManager_def sampleNode_def del: set_map map_of_map) blast
  from d(1) obtain x where "x \<in> set datas" "bcdBlindedCommitment x = stBlindedCommitment sampleOutput" by auto
  then have "stPOIsPerList txo' = Some [(''L'', StatusValid)]"
    using d(2) sample_answers [of x datas] by simp
  then show ?thesis using run m' t(1) by auto
qed

end
