(* ===== verification/History.thy ===== *)
theory History
  imports WalletQueries SyncSafety
begin

text \<open>
  Models \<^verbatim>\<open>pkg/wallet/transaction_history.go\<close> and the histories over several versions of
  \<^verbatim>\<open>txid_versions.go\<close>: what a wallet received and spent, by transaction. A Go map of pointers
  with the slice of its keys in the order of their insertion is a map in that order.
\<close>

section \<open>Entries\<close>

definition TransactionHistoryItemVersionUnknown :: nat where "TransactionHistoryItemVersionUnknown = 0"
definition TransactionHistoryItemVersionLegacy :: nat where "TransactionHistoryItemVersionLegacy = 1"
definition TransactionHistoryItemVersionUpdatedAug2022 :: nat where "TransactionHistoryItemVersionUpdatedAug2022 = 2"
definition TransactionHistoryItemVersionUpdatedNov2022 :: nat where "TransactionHistoryItemVersionUpdatedNov2022 = 3"

record TransactionHistoryTokenAmount =
  haTokenHash :: string
  haTokenData :: TokenData
  haAmount :: "int option"
  haOutputType :: "int option"
  haWalletSource :: string
  haMemoText :: string
  haHasValidPOIForActiveLists :: bool

record TransactionHistoryTransferTokenAmount =
  htAmount :: TransactionHistoryTokenAmount
  htRecipientAddress :: string

record TransactionHistoryUnshieldTokenAmount =
  huTransfer :: TransactionHistoryTransferTokenAmount
  huUnshieldFee :: string

record TransactionHistoryReceiveTokenAmount =
  hrAmount :: TransactionHistoryTokenAmount
  hrSenderAddress :: string
  hrShieldFee :: string
  hrBalanceBucket :: string

record TransactionHistoryEntry =
  heTXIDVersion :: string
  heTXID :: string
  heTimestamp :: "uint64 option"
  heBlockNumber :: uint64
  heReceiveTokenAmounts :: "TransactionHistoryReceiveTokenAmount list"
  heTransferTokenAmounts :: "TransactionHistoryTransferTokenAmount list"
  heChangeTokenAmounts :: "TransactionHistoryTokenAmount list"
  heBroadcasterFeeTokenAmount :: "TransactionHistoryTokenAmount option"
  heUnshieldTokenAmounts :: "TransactionHistoryUnshieldTokenAmount list"
  heVersion :: nat

type_synonym historyMap = "(string, TransactionHistoryEntry) gomap"

definition newEntry :: "string \<Rightarrow> string \<Rightarrow> uint64 option \<Rightarrow> uint64 \<Rightarrow> nat \<Rightarrow> TransactionHistoryEntry" where
  "newEntry txidVersion txid timestamp blockNumber version =
     \<lparr>heTXIDVersion = txidVersion, heTXID = txid, heTimestamp = timestamp, heBlockNumber = blockNumber,
      heReceiveTokenAmounts = [], heTransferTokenAmounts = [], heChangeTokenAmounts = [], heBroadcasterFeeTokenAmount = None,
      heUnshieldTokenAmounts = [], heVersion = version\<rparr>"

definition historyBlockIncluded :: "uint64 \<Rightarrow> uint64 option \<Rightarrow> bool" where
  "historyBlockIncluded blockNumber startingBlock \<longleftrightarrow>
     (case startingBlock of None \<Rightarrow> True | Some b \<Rightarrow> blockNumber = 0 \<or> blockNumber \<ge> b)"

definition filterHistoryTXOs :: "StoredTXO list \<Rightarrow> uint64 option \<Rightarrow> StoredTXO list" where
  "filterHistoryTXOs txos startingBlock =
     (if startingBlock = None then txos else filter (\<lambda>txo. historyBlockIncluded (stBlockNumber txo) startingBlock) txos)"

definition tokenHashForTXO :: "(byte list \<Rightarrow> byte list) \<Rightarrow> StoredTXO \<Rightarrow> string res" where
  "tokenHashForTXO keccak txo =
     (if stTokenHash txo \<noteq> [] then FormatHexToByteLength (stTokenHash txo) 32 False else TokenDataHash keccak (stTokenData txo))"

definition tokenHashForSentCommitment :: "(byte list \<Rightarrow> byte list) \<Rightarrow> SentCommitmentPOIStatusInput \<Rightarrow> string res" where
  "tokenHashForSentCommitment keccak event =
     (if snTokenHash event \<noteq> [] then FormatHexToByteLength (snTokenHash event) 32 False else TokenDataHash keccak (snTokenData event))"

section \<open>Received amounts\<close>

definition receiveTXO ::
  "(byte list \<Rightarrow> byte list) \<Rightarrow> Manager option \<Rightarrow> string \<Rightarrow> StoredTXO \<Rightarrow> historyMap \<Rightarrow> historyMap res" where
  "receiveTXO keccak poiManager txidVersion txo byTXID =
     (if stValue txo = None \<or> stValue txo = Some 0 then Inr byTXID
      else let txid = (if stTXID txo = [] then stTransactCreationRailgunTxid txo else stTXID txo)
      in if txid = [] then Inr byTXID
      else let entry = (case gget byTXID txid of Some e \<Rightarrow> e
             | None \<Rightarrow> newEntry txidVersion txid (stTimestamp txo) (stBlockNumber txo) TransactionHistoryItemVersionUnknown)
      in andThen (tokenHashForTXO keccak txo) (\<lambda>tokenHash.
         let amount = \<lparr>hrAmount = \<lparr>haTokenHash = tokenHash, haTokenData = stTokenData txo, haAmount = stValue txo,
               haOutputType = stOutputType txo, haWalletSource = stWalletSource txo, haMemoText = stMemoText txo,
               haHasValidPOIForActiveLists = HasValidPOIsActiveLists poiManager (stPOIsPerList txo)\<rparr>,
             hrSenderAddress = stSenderAddress txo, hrShieldFee = stShieldFee txo,
             hrBalanceBucket = GetBalanceBucket poiManager (storedTXOToPOITXO txo)\<rparr>
         in Inr (gput txid (entry\<lparr>heReceiveTokenAmounts := heReceiveTokenAmounts entry @ [amount]\<rparr>) byTXID)))"

definition transactionReceiveHistory ::
  "(byte list \<Rightarrow> byte list) \<Rightarrow> Manager option \<Rightarrow> string \<Rightarrow> StoredTXO list \<Rightarrow> TransactionHistoryEntry list res" where
  "transactionReceiveHistory keccak poiManager txidVersion txos =
     andThen (foldRes (receiveTXO keccak poiManager txidVersion) txos []) (\<lambda>byTXID. Inr (map snd byTXID))"

section \<open>Spent amounts\<close>

definition ensureSpendHistoryEntry ::
  "historyMap \<Rightarrow> string \<Rightarrow> string \<Rightarrow> uint64 option \<Rightarrow> uint64 \<Rightarrow> nat \<Rightarrow> TransactionHistoryEntry" where
  "ensureSpendHistoryEntry byTXID txidVersion txid timestamp blockNumber version =
     (case gget byTXID txid of
        Some entry \<Rightarrow> entry\<lparr>
          heTimestamp := (if heTimestamp entry = None then timestamp else heTimestamp entry),
          heBlockNumber := (if heBlockNumber entry = 0 then blockNumber else heBlockNumber entry),
          heVersion := (if version > heVersion entry then version else heVersion entry)\<rparr>
      | None \<Rightarrow> newEntry txidVersion txid timestamp blockNumber version)"

definition historyVersionForOutputType :: "int option \<Rightarrow> nat" where
  "historyVersionForOutputType outputType =
     (if outputType = None then TransactionHistoryItemVersionLegacy else TransactionHistoryItemVersionUpdatedNov2022)"

definition outputTypeValue :: "int option \<Rightarrow> int" where
  "outputTypeValue outputType = (case outputType of None \<Rightarrow> OutputTypeTransfer | Some t \<Rightarrow> t)"

definition tokenAmountFromSentCommitment ::
  "(byte list \<Rightarrow> byte list) \<Rightarrow> Manager option \<Rightarrow> SentCommitmentPOIStatusInput \<Rightarrow> TransactionHistoryTokenAmount res" where
  "tokenAmountFromSentCommitment keccak poiManager event =
     andThen (tokenHashForSentCommitment keccak event) (\<lambda>tokenHash.
     Inr \<lparr>haTokenHash = tokenHash, haTokenData = snTokenData event, haAmount = snValue event, haOutputType = snOutputType event,
       haWalletSource = snWalletSource event, haMemoText = snMemoText event,
       haHasValidPOIForActiveLists = HasValidPOIsActiveLists poiManager (snPOIsPerList event)\<rparr>)"

definition unshieldTokenAmountFromTransaction ::
  "(byte list \<Rightarrow> byte list) \<Rightarrow> UnshieldData \<Rightarrow> TransactionHistoryUnshieldTokenAmount res" where
  "unshieldTokenAmountFromTransaction keccak unshield =
     andThen (wrapErr ''unshield value: %w'' [] (NumberishToBigInt (usValue unshield))) (\<lambda>v.
     andThen (TokenDataHash keccak (usTokenData unshield)) (\<lambda>tokenHash.
     Inr \<lparr>huTransfer = \<lparr>htAmount = \<lparr>haTokenHash = tokenHash, haTokenData = usTokenData unshield, haAmount = Some v, haOutputType = None,
         haWalletSource = [], haMemoText = [], haHasValidPOIForActiveLists = False\<rparr>, htRecipientAddress = usToAddress unshield\<rparr>,
       huUnshieldFee = usFee unshield\<rparr>))"

definition spendEvent ::
  "(byte list \<Rightarrow> byte list) \<Rightarrow> Manager option \<Rightarrow> string \<Rightarrow> uint64 option \<Rightarrow> SentCommitmentPOIStatusInput \<Rightarrow> historyMap \<Rightarrow> historyMap res" where
  "spendEvent keccak poiManager txidVersion startingBlock event byTXID =
     (if snValue event = None \<or> snValue event = Some 0 \<or> \<not> historyBlockIncluded (snBlockNumber event) startingBlock \<or> snTXID event = []
      then Inr byTXID
      else let entry = ensureSpendHistoryEntry byTXID txidVersion (snTXID event) (snTimestamp event) (snBlockNumber event)
             (historyVersionForOutputType (snOutputType event))
      in andThen (tokenAmountFromSentCommitment keccak poiManager event) (\<lambda>amount.
         let outputType = outputTypeValue (snOutputType event);
             entry = (if outputType = OutputTypeBroadcasterFee then entry\<lparr>heBroadcasterFeeTokenAmount := Some amount\<rparr>
               else if outputType = OutputTypeChange then entry\<lparr>heChangeTokenAmounts := heChangeTokenAmounts entry @ [amount]\<rparr>
               else entry\<lparr>heTransferTokenAmounts := heTransferTokenAmounts entry @
                 [\<lparr>htAmount = amount, htRecipientAddress = snRecipientAddress event\<rparr>]\<rparr>)
         in Inr (gput (snTXID event) entry byTXID)))"

definition spendTransaction ::
  "(byte list \<Rightarrow> byte list) \<Rightarrow> string \<Rightarrow> uint64 option \<Rightarrow> Transaction \<Rightarrow> historyMap \<Rightarrow> historyMap res" where
  "spendTransaction keccak txidVersion startingBlock transaction byTXID =
     (case txUnshield transaction of
        None \<Rightarrow> Inr byTXID
      | Some unshield \<Rightarrow>
          if txTxid transaction = [] \<or> \<not> historyBlockIncluded (txBlockNumber transaction) startingBlock then Inr byTXID
          else let entry = ensureSpendHistoryEntry byTXID txidVersion (txTxid transaction) None (txBlockNumber transaction)
                 TransactionHistoryItemVersionUpdatedNov2022
          in andThen (unshieldTokenAmountFromTransaction keccak unshield) (\<lambda>amount.
             Inr (gput (txTxid transaction) (entry\<lparr>heUnshieldTokenAmounts := heUnshieldTokenAmounts entry @ [amount]\<rparr>) byTXID)))"

definition transactionSpendHistory ::
  "(byte list \<Rightarrow> byte list) \<Rightarrow> ctx \<Rightarrow> 'w Wallet \<Rightarrow> string \<Rightarrow> uint64 option \<Rightarrow> 'w \<Rightarrow> TransactionHistoryEntry list res" where
  "transactionSpendHistory keccak ctx wal txidVersion startingBlock w =
     andThen (case waSpentPOIEvents wal of
         None \<Rightarrow> Inr []
       | Some spent \<Rightarrow> andThen (spListSentCommitmentPOIEvents spent ctx w) (\<lambda>sentCommitments.
           foldRes (spendEvent keccak (waPOIManager wal) txidVersion startingBlock) sentCommitments [])) (\<lambda>byTXID.
     andThen (case waTXIDStore wal of
         None \<Rightarrow> Inr byTXID
       | Some store \<Rightarrow> andThen (tsListTransactions store ctx w) (\<lambda>transactions.
           foldRes (spendTransaction keccak txidVersion startingBlock) transactions byTXID)) (\<lambda>byTXID.
     Inr (map snd byTXID)))"

section \<open>The history\<close>

primrec findHistoryEntry :: "TransactionHistoryEntry list \<Rightarrow> string \<Rightarrow> nat option" where
  "findHistoryEntry [] txid = None"
| "findHistoryEntry (entry # history) txid = (if heTXID entry = txid then Some 0 else map_option Suc (findHistoryEntry history txid))"

definition tokenAmountsMatch :: "TransactionHistoryTokenAmount \<Rightarrow> TransactionHistoryTokenAmount \<Rightarrow> bool" where
  "tokenAmountsMatch left right \<longleftrightarrow>
     \<not> (haTokenHash left \<noteq> haTokenHash right \<or> haAmount left = None \<or> haAmount right = None) \<and> haAmount left = haAmount right"

definition noAmount :: TransactionHistoryTokenAmount where
  "noAmount = \<lparr>haTokenHash = [], haTokenData = \<lparr>TokenAddress = [], TokenType = 0, TokenSubID = []\<rparr>, haAmount = None, haOutputType = None,
     haWalletSource = [], haMemoText = [], haHasValidPOIForActiveLists = False\<rparr>"

primrec findTransfer :: "TransactionHistoryTransferTokenAmount list \<Rightarrow> TransactionHistoryTokenAmount \<Rightarrow> nat option" where
  "findTransfer [] received = None"
| "findTransfer (t # ts) received = (if tokenAmountsMatch (htAmount t) received then Some 0 else map_option Suc (findTransfer ts received))"

text \<open>The second component is the index of a transfer, \<open>None\<close> for -1.\<close>

definition matchingChangeOrLegacyTransfer ::
  "TransactionHistoryEntry \<Rightarrow> TransactionHistoryTokenAmount \<Rightarrow> TransactionHistoryTokenAmount \<times> nat option" where
  "matchingChangeOrLegacyTransfer entry received =
     (case find (\<lambda>change. tokenAmountsMatch change received) (heChangeTokenAmounts entry) of
        Some change \<Rightarrow> (change, None)
      | None \<Rightarrow>
          if heVersion entry \<noteq> TransactionHistoryItemVersionLegacy \<and> heVersion entry \<noteq> TransactionHistoryItemVersionUnknown
          then (noAmount, None)
          else case findTransfer (heTransferTokenAmounts entry) received of
            Some i \<Rightarrow> (htAmount (heTransferTokenAmounts entry ! i), Some i)
          | None \<Rightarrow> (noAmount, None))"

definition addReceived :: "TransactionHistoryReceiveTokenAmount \<Rightarrow> TransactionHistoryEntry \<Rightarrow> TransactionHistoryEntry" where
  "addReceived amount existing =
     (let (change, transferIndex) = matchingChangeOrLegacyTransfer existing (hrAmount amount)
      in case transferIndex of
           Some i \<Rightarrow> existing\<lparr>heTransferTokenAmounts := take i (heTransferTokenAmounts existing) @ drop (Suc i) (heTransferTokenAmounts existing),
             heChangeTokenAmounts := heChangeTokenAmounts existing @ [change]\<rparr>
         | None \<Rightarrow> if haTokenHash change \<noteq> [] then existing
             else existing\<lparr>heReceiveTokenAmounts := heReceiveTokenAmounts existing @ [amount]\<rparr>)"

definition mergeReceive :: "TransactionHistoryEntry \<Rightarrow> TransactionHistoryEntry list \<Rightarrow> TransactionHistoryEntry list" where
  "mergeReceive receive history =
     (case findHistoryEntry history (heTXID receive) of
        None \<Rightarrow> history @ [receive]
      | Some i \<Rightarrow> history[i := fold addReceived (heReceiveTokenAmounts receive) (history ! i)])"

definition historyLess :: "TransactionHistoryEntry \<Rightarrow> TransactionHistoryEntry \<Rightarrow> bool" where
  "historyLess a b \<longleftrightarrow>
     (if heBlockNumber a \<noteq> heBlockNumber b then heBlockNumber a > heBlockNumber b
      else if heTimestamp a \<noteq> None \<and> heTimestamp b \<noteq> None \<and> heTimestamp a \<noteq> heTimestamp b then the (heTimestamp a) > the (heTimestamp b)
      else heTXID a > heTXID b)"

definition sortTransactionHistory :: "TransactionHistoryEntry list \<Rightarrow> TransactionHistoryEntry list" where
  "sortTransactionHistory history = sortBy historyLess history"

definition TransactionHistory ::
  "(byte list \<Rightarrow> byte list) \<Rightarrow> ctx \<Rightarrow> 'w Wallet option \<Rightarrow> string \<Rightarrow> uint64 option \<Rightarrow> 'w \<Rightarrow> TransactionHistoryEntry list res" where
  "TransactionHistory keccak ctx wallet txidVersion startingBlock w =
     queried wallet (\<lambda>wal. ofVersion txidVersion (
       andThen (ssListTXOs (the (waState wal)) ctx w) (\<lambda>txos.
       andThen (transactionReceiveHistory keccak (waPOIManager wal) txidVersion
         (filterHistoryTXOs (txosForTXIDVersion txos txidVersion) startingBlock)) (\<lambda>receiveHistory.
       andThen (transactionSpendHistory keccak ctx wal txidVersion startingBlock w) (\<lambda>spendHistory.
       Inr (sortTransactionHistory (fold mergeReceive receiveHistory spendHistory)))))))"

definition TransactionHistoryForTXIDVersions ::
  "(byte list \<Rightarrow> byte list) \<Rightarrow> ctx \<Rightarrow> 'w Wallet option \<Rightarrow> string list \<Rightarrow> uint64 option \<Rightarrow> 'w \<Rightarrow> TransactionHistoryEntry list res" where
  "TransactionHistoryForTXIDVersions keccak ctx wallet txidVersions startingBlock w =
     queried wallet (\<lambda>_. andThen (foldRes (\<lambda>txidVersion history.
       andThen (TransactionHistory keccak ctx wallet txidVersion startingBlock w) (\<lambda>versionHistory.
       Inr (history @ versionHistory))) txidVersions []) (\<lambda>history. Inr (sortTransactionHistory history)))"

definition TransactionHistoryAllTXIDVersions where
  "TransactionHistoryAllTXIDVersions keccak chainsSupportingV3 ctx wallet chain startingBlock w =
     TransactionHistoryForTXIDVersions keccak ctx wallet (ActiveTXIDVersions chainsSupportingV3 chain) startingBlock w"

section \<open>One entry per transaction\<close>

lemma distinct_map_sortBy: "distinct (map f (sortBy lt xs)) \<longleftrightarrow> distinct (map f xs)"
  by (metis mset_eq_imp_distinct_iff mset_map mset_sortBy)

text \<open>The maps that the loops build.\<close>

definition historyOk :: "string \<Rightarrow> historyMap \<Rightarrow> bool" where
  "historyOk v m \<longleftrightarrow> wfmap m \<and> (\<forall>(k, e) \<in> set m. heTXID e = k \<and> k \<noteq> [] \<and> heTXIDVersion e = v)"

lemma historyOk_Nil: "historyOk v []"
  by (simp add: historyOk_def)

lemma historyOk_gput:
  assumes "historyOk v m" "heTXID e = k" "k \<noteq> []" "heTXIDVersion e = v"
  shows "historyOk v (gput k e m)"
  using assms gput_set [of m _ k e] unfolding historyOk_def by fastforce

lemma historyOk_get: "historyOk v m \<Longrightarrow> gget m k = Some e \<Longrightarrow> heTXID e = k \<and> heTXIDVersion e = v"
  by (auto simp: historyOk_def dest!: map_of_SomeD)

lemma ensure_keys:
  assumes "historyOk v m"
  shows "heTXID (ensureSpendHistoryEntry m v txid ts bn version) = txid"
    "heTXIDVersion (ensureSpendHistoryEntry m v txid ts bn version) = v"
  using historyOk_get [OF assms] by (auto simp: ensureSpendHistoryEntry_def newEntry_def split: option.splits)

lemma receiveTXO_ok: "historyOk v m \<Longrightarrow> receiveTXO keccak manager v txo m = Inr m' \<Longrightarrow> historyOk v m'"
  by (auto simp: receiveTXO_def Let_def newEntry_def res_elims split: option.splits if_splits dest: historyOk_get intro!: historyOk_gput)

lemma spendEvent_ok: "historyOk v m \<Longrightarrow> spendEvent keccak manager v start event m = Inr m' \<Longrightarrow> historyOk v m'"
  by (auto simp: spendEvent_def Let_def res_elims ensure_keys split: if_splits intro!: historyOk_gput)

lemma spendTransaction_ok: "historyOk v m \<Longrightarrow> spendTransaction keccak v start tx m = Inr m' \<Longrightarrow> historyOk v m'"
  by (auto simp: spendTransaction_def Let_def res_elims ensure_keys split: option.splits if_splits intro!: historyOk_gput)

text \<open>The lists that come out of them.\<close>

definition entriesOk :: "string \<Rightarrow> TransactionHistoryEntry list \<Rightarrow> bool" where
  "entriesOk v es \<longleftrightarrow> distinct (map heTXID es) \<and> (\<forall>e \<in> set es. heTXID e \<noteq> [] \<and> heTXIDVersion e = v)"

lemma historyOk_entries: "historyOk v m \<Longrightarrow> entriesOk v (map snd m)"
proof -
  assume ok: "historyOk v m"
  then have "map heTXID (map snd m) = map fst m" by (auto simp: historyOk_def)
  then show ?thesis using ok by (auto simp: entriesOk_def historyOk_def simp del: map_map)
qed

lemma receive_entries: "transactionReceiveHistory keccak manager v txos = Inr es \<Longrightarrow> entriesOk v es"
  unfolding transactionReceiveHistory_def andThen_Inr
  by (auto intro!: historyOk_entries elim!: foldRes_invariant intro: historyOk_Nil receiveTXO_ok)

lemma spend_run:
  assumes "transactionSpendHistory keccak ctx wal v start w = Inr es"
  obtains m m' where "historyOk v m" "historyOk v m'" "es = map snd m'"
    "case waTXIDStore wal of None \<Rightarrow> m' = m
     | Some store \<Rightarrow> (\<exists>txs. tsListTransactions store ctx w = Inr txs \<and> foldRes (spendTransaction keccak v start) txs m = Inr m')"
proof -
  obtain m m' where m: "(case waSpentPOIEvents wal of None \<Rightarrow> Inr [] | Some spent \<Rightarrow> andThen (spListSentCommitmentPOIEvents spent ctx w)
       (\<lambda>evs. foldRes (spendEvent keccak (waPOIManager wal) v start) evs [])) = Inr m"
    "(case waTXIDStore wal of None \<Rightarrow> Inr m | Some store \<Rightarrow> andThen (tsListTransactions store ctx w)
       (\<lambda>txs. foldRes (spendTransaction keccak v start) txs m)) = Inr m'" "es = map snd m'"
    using assms by (auto simp: transactionSpendHistory_def andThen_Inr)
  have ok: "historyOk v m"
    using m(1) by (auto simp: res_elims historyOk_Nil split: option.splits elim!: foldRes_invariant intro: historyOk_Nil spendEvent_ok)
  have "historyOk v m'"
    using m(2) ok by (auto simp: res_elims split: option.splits elim!: foldRes_invariant intro: spendTransaction_ok)
  then show thesis using that [OF ok _ m(3)] m(2) by (auto simp: res_elims split: option.splits)
qed

lemma spend_entries: "transactionSpendHistory keccak ctx wal v start w = Inr es \<Longrightarrow> entriesOk v es"
  by (erule spend_run) (simp add: historyOk_entries)

lemma addReceived_keeps:
  "heTXID (addReceived a e) = heTXID e" "heTXIDVersion (addReceived a e) = heTXIDVersion e"
  "heUnshieldTokenAmounts (addReceived a e) = heUnshieldTokenAmounts e"
  by (auto simp: addReceived_def Let_def split: prod.splits option.splits)

lemma fold_addReceived_keeps:
  "heTXID (fold addReceived as e) = heTXID e" "heTXIDVersion (fold addReceived as e) = heTXIDVersion e"
  "heUnshieldTokenAmounts (fold addReceived as e) = heUnshieldTokenAmounts e"
  by (induction as arbitrary: e) (simp_all add: addReceived_keeps)

lemma findHistoryEntry_None: "findHistoryEntry es t = None \<longleftrightarrow> t \<notin> heTXID ` set es"
  by (induction es) auto

lemma findHistoryEntry_Some: "findHistoryEntry es t = Some i \<Longrightarrow> i < length es \<and> heTXID (es ! i) = t"
  by (induction es arbitrary: i) (auto split: if_splits)

text \<open>The part of an entry that received amounts do not change.\<close>

definition spentPart :: "TransactionHistoryEntry \<Rightarrow> string \<times> string \<times> TransactionHistoryUnshieldTokenAmount list" where
  "spentPart e = (heTXID e, heTXIDVersion e, heUnshieldTokenAmounts e)"

lemma mergeReceive_map:
  "map spentPart (mergeReceive r es) = map spentPart es @ (if heTXID r \<in> heTXID ` set es then [] else [spentPart r])"
proof (cases "findHistoryEntry es (heTXID r)")
  case None
  then show ?thesis using findHistoryEntry_None [of es "heTXID r"] by (simp add: mergeReceive_def)
next
  case (Some i)
  then have i: "i < length es" "heTXID r \<in> heTXID ` set es"
    using findHistoryEntry_Some [OF Some] findHistoryEntry_None [of es "heTXID r"] by auto
  have "spentPart (fold addReceived (heReceiveTokenAmounts r) (es ! i)) = map spentPart es ! i"
    using i(1) by (simp add: spentPart_def fold_addReceived_keeps)
  then have "map spentPart (es[i := fold addReceived (heReceiveTokenAmounts r) (es ! i)]) = map spentPart es"
    by (simp only: map_update list_update_id)
  then show ?thesis using i(2) by (simp add: mergeReceive_def Some)
qed

lemma merge_ok:
  assumes "entriesOk v es" "heTXID r \<noteq> []" "heTXIDVersion r = v"
  shows "entriesOk v (mergeReceive r es)"
proof -
  let ?new = "if heTXID r \<in> heTXID ` set es then [] else [spentPart r]"
  have "map fst (map spentPart (mergeReceive r es)) = map fst (map spentPart es @ ?new)" by (simp only: mergeReceive_map)
  then have ids: "map heTXID (mergeReceive r es) = map heTXID es @ (if heTXID r \<in> heTXID ` set es then [] else [heTXID r])"
    by (simp add: spentPart_def comp_def split: if_splits)
  have "set (map (fst \<circ> snd) (map spentPart (mergeReceive r es))) = set (map (fst \<circ> snd) (map spentPart es @ ?new))"
    by (simp only: mergeReceive_map)
  then have "heTXIDVersion ` set (mergeReceive r es) \<subseteq> insert (heTXIDVersion r) (heTXIDVersion ` set es)"
    by (auto simp: spentPart_def image_image split: if_splits)
  then have versions: "heTXIDVersion e = v" if "e \<in> set (mergeReceive r es)" for e
    using that assms(1,3) by (auto simp: entriesOk_def)
  have "heTXID ` set (mergeReceive r es) \<subseteq> insert (heTXID r) (heTXID ` set es)"
    using arg_cong [OF ids, of set] by (auto split: if_splits)
  then have "heTXID e \<noteq> []" if "e \<in> set (mergeReceive r es)" for e
    using that assms(1,2) by (auto simp: entriesOk_def)
  moreover have "distinct (map heTXID (mergeReceive r es))"
    using assms(1) unfolding ids by (simp add: entriesOk_def)
  ultimately show ?thesis using versions by (simp add: entriesOk_def)
qed

lemma merged_ok: "entriesOk v es \<Longrightarrow> entriesOk v rs \<Longrightarrow> entriesOk v (fold mergeReceive rs es)"
proof (induction rs arbitrary: es)
  case (Cons r rs)
  have r: "heTXID r \<noteq> []" "heTXIDVersion r = v" "entriesOk v rs" using Cons.prems(2) by (simp_all add: entriesOk_def)
  show ?case using Cons.IH [OF merge_ok [OF Cons.prems(1) r(1,2)] r(3)] by simp
qed simp

lemma sorted_entries: "entriesOk v es \<Longrightarrow> entriesOk v (sortTransactionHistory es)"
  by (simp add: entriesOk_def sortTransactionHistory_def distinct_map_sortBy)

lemma history_run:
  assumes "TransactionHistory keccak ctx wallet v start w = Inr es"
  obtains wal rs ss where "wallet = Some wal" "transactionSpendHistory keccak ctx wal v start w = Inr ss" "entriesOk v rs"
    "es = sortTransactionHistory (fold mergeReceive rs ss)"
proof -
  obtain wal where wal: "wallet = Some wal"
    using assms by (cases wallet) (auto simp: TransactionHistory_def queried_def validateWallet_def)
  obtain txos rs ss where "transactionReceiveHistory keccak (waPOIManager wal) v txos = Inr rs"
    "transactionSpendHistory keccak ctx wal v start w = Inr ss" "es = sortTransactionHistory (fold mergeReceive rs ss)"
    using assms unfolding wal TransactionHistory_def queried_def ofVersion_def by (auto simp: andThen_Inr split: if_splits)
  then show thesis using that [OF wal] receive_entries by blast
qed

lemma history_entries: "TransactionHistory keccak ctx wallet v start w = Inr es \<Longrightarrow> entriesOk v es"
  by (erule history_run) (simp add: sorted_entries merged_ok spend_entries)

section \<open>What an entry holds\<close>

text \<open>The items that count for a transaction. An output counts in the history of its version, a sent
  commitment and an unshield in that of every version.\<close>

definition countsFrom :: "uint64 option \<Rightarrow> uint64 \<Rightarrow> bool" where
  "countsFrom startingBlock block \<longleftrightarrow> (\<forall>b. startingBlock = Some b \<longrightarrow> block = 0 \<or> b \<le> block)"

definition receiptsOf :: "string \<Rightarrow> uint64 option \<Rightarrow> string \<Rightarrow> StoredTXO list \<Rightarrow> StoredTXO list" where
  "receiptsOf v start txid = filter (\<lambda>txo. stTXIDVersion txo \<in> {[], v} \<and> countsFrom start (stBlockNumber txo) \<and> stValue txo \<notin> {None, Some 0} \<and>
     (if stTXID txo = [] then stTransactCreationRailgunTxid txo else stTXID txo) = txid)"

definition sendsOf :: "uint64 option \<Rightarrow> string \<Rightarrow> SentCommitmentPOIStatusInput list \<Rightarrow> SentCommitmentPOIStatusInput list" where
  "sendsOf start txid = filter (\<lambda>e. snValue e \<notin> {None, Some 0} \<and> countsFrom start (snBlockNumber e) \<and> snTXID e = txid)"

definition unshieldsIn :: "uint64 option \<Rightarrow> string \<Rightarrow> Transaction list \<Rightarrow> Transaction list" where
  "unshieldsIn start txid = filter (\<lambda>tx. txUnshield tx \<noteq> None \<and> countsFrom start (txBlockNumber tx) \<and> txTxid tx = txid)"

definition isFee :: "SentCommitmentPOIStatusInput \<Rightarrow> bool" where
  "isFee e \<longleftrightarrow> snOutputType e = Some OutputTypeBroadcasterFee"

definition isChange :: "SentCommitmentPOIStatusInput \<Rightarrow> bool" where
  "isChange e \<longleftrightarrow> snOutputType e = Some OutputTypeChange"

text \<open>The amount that stands for an item.\<close>

definition receivedAs :: "(byte list \<Rightarrow> byte list) \<Rightarrow> StoredTXO \<Rightarrow> TransactionHistoryReceiveTokenAmount \<Rightarrow> bool" where
  "receivedAs keccak txo r \<longleftrightarrow> tokenHashForTXO keccak txo = Inr (haTokenHash (hrAmount r)) \<and> haTokenData (hrAmount r) = stTokenData txo \<and>
     haAmount (hrAmount r) = stValue txo \<and> haOutputType (hrAmount r) = stOutputType txo \<and> haWalletSource (hrAmount r) = stWalletSource txo \<and>
     haMemoText (hrAmount r) = stMemoText txo \<and> hrSenderAddress r = stSenderAddress txo \<and> hrShieldFee r = stShieldFee txo"

definition sentAs :: "(byte list \<Rightarrow> byte list) \<Rightarrow> SentCommitmentPOIStatusInput \<Rightarrow> TransactionHistoryTokenAmount \<Rightarrow> bool" where
  "sentAs keccak e a \<longleftrightarrow> tokenHashForSentCommitment keccak e = Inr (haTokenHash a) \<and> haTokenData a = snTokenData e \<and> haAmount a = snValue e \<and>
     haOutputType a = snOutputType e \<and> haWalletSource a = snWalletSource e \<and> haMemoText a = snMemoText e"

definition transferredAs :: "(byte list \<Rightarrow> byte list) \<Rightarrow> SentCommitmentPOIStatusInput \<Rightarrow> TransactionHistoryTransferTokenAmount \<Rightarrow> bool" where
  "transferredAs keccak e t \<longleftrightarrow> sentAs keccak e (htAmount t) \<and> htRecipientAddress t = snRecipientAddress e"

definition unshieldedAs :: "(byte list \<Rightarrow> byte list) \<Rightarrow> Transaction \<Rightarrow> TransactionHistoryUnshieldTokenAmount \<Rightarrow> bool" where
  "unshieldedAs keccak tx u \<longleftrightarrow> (\<exists>unshield v. txUnshield tx = Some unshield \<and> NumberishToBigInt (usValue unshield) = Inr v \<and>
     haAmount (htAmount (huTransfer u)) = Some v \<and> haTokenData (htAmount (huTransfer u)) = usTokenData unshield \<and>
     TokenDataHash keccak (usTokenData unshield) = Inr (haTokenHash (htAmount (huTransfer u))) \<and>
     htRecipientAddress (huTransfer u) = usToAddress unshield \<and> huUnshieldFee u = usFee unshield)"

definition feeAs :: "(byte list \<Rightarrow> byte list) \<Rightarrow> SentCommitmentPOIStatusInput list \<Rightarrow> TransactionHistoryTokenAmount option \<Rightarrow> bool" where
  "feeAs keccak fees fee \<longleftrightarrow> (case fee of None \<Rightarrow> fees = [] | Some a \<Rightarrow> fees \<noteq> [] \<and> sentAs keccak (last fees) a)"

lemma countsFrom_included: "historyBlockIncluded b start \<longleftrightarrow> countsFrom start b"
  by (simp add: historyBlockIncluded_def countsFrom_def split: option.splits)

lemma receiptsOf_filtered:
  "receiptsOf v start txid txos = receiptsOf v None txid (filterHistoryTXOs (txosForTXIDVersion txos v) start)"
  by (simp add: receiptsOf_def filterHistoryTXOs_def txosForTXIDVersion_def countsFrom_included)
    (auto simp: countsFrom_def intro: filter_cong)

lemma foldRes_prefix:
  assumes "foldRes f xs s = Inr t" and "P [] s"
    and step: "\<And>ys x s t. P ys s \<Longrightarrow> f x s = Inr t \<Longrightarrow> P (ys @ [x]) t"
  shows "P xs t"
proof -
  have "foldRes f zs s = Inr t \<Longrightarrow> P ys s \<Longrightarrow> P (ys @ zs) t" for ys zs s
  proof (induction zs arbitrary: ys s)
    case (Cons z zs)
    obtain u where u: "f z s = Inr u" "foldRes f zs u = Inr t" using Cons.prems(1) by (auto simp: res_elims)
    show ?case using Cons.IH [OF u(2) step [OF Cons.prems(2) u(1)]] by simp
  qed simp
  from this [OF assms(1,2)] show ?thesis by simp
qed

text \<open>The entry of a transaction after the loop over the outputs.\<close>

definition receiveEntry :: "(byte list \<Rightarrow> byte list) \<Rightarrow> StoredTXO list \<Rightarrow> TransactionHistoryEntry option \<Rightarrow> bool" where
  "receiveEntry keccak rs entry \<longleftrightarrow> (case entry of None \<Rightarrow> rs = []
     | Some e \<Rightarrow> rs \<noteq> [] \<and> list_all2 (receivedAs keccak) rs (heReceiveTokenAmounts e) \<and> heTransferTokenAmounts e = [] \<and>
         heChangeTokenAmounts e = [] \<and> heBroadcasterFeeTokenAmount e = None \<and> heUnshieldTokenAmounts e = [])"

definition txidOf :: "StoredTXO \<Rightarrow> string" where
  "txidOf txo = (if stTXID txo = [] then stTransactCreationRailgunTxid txo else stTXID txo)"

lemma receiveTXO_cases:
  assumes "receiveTXO keccak manager v txo m = Inr m'"
  obtains (skipped) "stValue txo \<in> {None, Some 0} \<or> txidOf txo = []" "m' = m"
    | (counted) e amount where "stValue txo \<notin> {None, Some 0}" "txidOf txo \<noteq> []" "receivedAs keccak txo amount"
      "e = (case gget m (txidOf txo) of Some e \<Rightarrow> e
        | None \<Rightarrow> newEntry v (txidOf txo) (stTimestamp txo) (stBlockNumber txo) TransactionHistoryItemVersionUnknown)"
      "m' = gput (txidOf txo) (e\<lparr>heReceiveTokenAmounts := heReceiveTokenAmounts e @ [amount]\<rparr>) m"
proof (cases "stValue txo \<in> {None, Some 0} \<or> txidOf txo = []")
  case True
  then have "m' = m" using assms by (auto simp: receiveTXO_def txidOf_def Let_def split: if_splits)
  then show ?thesis using True skipped by blast
next
  case False
  then have go: "\<not> (stValue txo = None \<or> stValue txo = Some 0)" "txidOf txo \<noteq> []" by auto
  obtain hash where hash: "tokenHashForTXO keccak txo = Inr hash"
    using assms go by (auto simp: receiveTXO_def Let_def txidOf_def [symmetric] res_elims)
  define amount where "amount = \<lparr>hrAmount = \<lparr>haTokenHash = hash, haTokenData = stTokenData txo, haAmount = stValue txo,
               haOutputType = stOutputType txo, haWalletSource = stWalletSource txo, haMemoText = stMemoText txo,
               haHasValidPOIForActiveLists = HasValidPOIsActiveLists manager (stPOIsPerList txo)\<rparr>,
             hrSenderAddress = stSenderAddress txo, hrShieldFee = stShieldFee txo,
             hrBalanceBucket = GetBalanceBucket manager (storedTXOToPOITXO txo)\<rparr>"
  have "receivedAs keccak txo amount" by (simp add: receivedAs_def amount_def hash)
  then show ?thesis
    by (rule counted [rotated 2, OF _ refl])
      (use assms go hash in \<open>simp_all add: receiveTXO_def Let_def txidOf_def [symmetric] amount_def\<close>)
qed

lemma receiveTXO_entry:
  assumes "txid \<noteq> []" "receiveEntry keccak (receiptsOf v None txid ys) (gget m txid)" "stTXIDVersion txo \<in> {[], v}"
    and "receiveTXO keccak manager v txo m = Inr m'"
  shows "receiveEntry keccak (receiptsOf v None txid (ys @ [txo])) (gget m' txid)"
  using assms(4)
proof (cases rule: receiveTXO_cases)
  case skipped
  then have "receiptsOf v None txid (ys @ [txo]) = receiptsOf v None txid ys"
    using assms(1) by (auto simp: receiptsOf_def txidOf_def)
  then show ?thesis using assms(2) skipped(2) by simp
next
  case (counted e amount)
  show ?thesis
  proof (cases "txidOf txo = txid")
    case True
    then have "receiptsOf v None txid (ys @ [txo]) = receiptsOf v None txid ys @ [txo]"
      using assms(3) counted(1) by (simp add: receiptsOf_def txidOf_def countsFrom_def)
    then show ?thesis using assms(2) counted(3,4,5) True
      by (auto simp: receiveEntry_def gget_gput newEntry_def intro: list_all2_appendI split: option.splits)
  next
    case False
    then have "receiptsOf v None txid (ys @ [txo]) = receiptsOf v None txid ys"
      by (auto simp: receiptsOf_def txidOf_def)
    then show ?thesis using assms(2) counted(5) False by (simp add: gget_gput)
  qed
qed

lemma receive_entry:
  assumes "txid \<noteq> []" "foldRes (receiveTXO keccak manager v) txos [] = Inr m" "\<forall>txo \<in> set txos. stTXIDVersion txo \<in> {[], v}"
  shows "receiveEntry keccak (receiptsOf v None txid txos) (gget m txid)"
proof -
  define P where "P ys m \<longleftrightarrow> ((\<forall>txo \<in> set ys. stTXIDVersion txo \<in> {[], v}) \<longrightarrow> receiveEntry keccak (receiptsOf v None txid ys) (gget m txid))"
    for ys and m :: historyMap
  have "P txos m"
  proof (rule foldRes_prefix [OF assms(2), of P])
    show "P [] []" by (simp add: P_def receiveEntry_def receiptsOf_def)
  next
    fix ys txo m m'
    assume "P ys m" and step: "receiveTXO keccak manager v txo m = Inr m'"
    then show "P (ys @ [txo]) m'" unfolding P_def using receiveTXO_entry [OF assms(1) _ _ step] by simp
  qed
  then show ?thesis using assms(3) by (simp add: P_def)
qed

text \<open>The entry of a transaction after the loop over the sent commitments, then that over the transactions.\<close>

definition spentEntry :: "(byte list \<Rightarrow> byte list) \<Rightarrow> SentCommitmentPOIStatusInput list \<Rightarrow> Transaction list \<Rightarrow> TransactionHistoryEntry \<Rightarrow> bool" where
  "spentEntry keccak ss us e \<longleftrightarrow> heReceiveTokenAmounts e = [] \<and>
     list_all2 (transferredAs keccak) (filter (\<lambda>s. \<not> isFee s \<and> \<not> isChange s) ss) (heTransferTokenAmounts e) \<and>
     list_all2 (sentAs keccak) (filter isChange ss) (heChangeTokenAmounts e) \<and>
     feeAs keccak (filter isFee ss) (heBroadcasterFeeTokenAmount e) \<and>
     list_all2 (unshieldedAs keccak) us (heUnshieldTokenAmounts e)"

definition versionFor :: "SentCommitmentPOIStatusInput list \<Rightarrow> Transaction list \<Rightarrow> nat" where
  "versionFor ss us = (if us \<noteq> [] \<or> (\<exists>s \<in> set ss. snOutputType s \<noteq> None) then TransactionHistoryItemVersionUpdatedNov2022
     else TransactionHistoryItemVersionLegacy)"

definition spendEntry :: "(byte list \<Rightarrow> byte list) \<Rightarrow> SentCommitmentPOIStatusInput list \<Rightarrow> Transaction list \<Rightarrow> TransactionHistoryEntry option \<Rightarrow> bool" where
  "spendEntry keccak ss us entry \<longleftrightarrow> (case entry of None \<Rightarrow> ss = [] \<and> us = []
     | Some e \<Rightarrow> (ss \<noteq> [] \<or> us \<noteq> []) \<and> spentEntry keccak ss us e \<and> heVersion e = versionFor ss us)"

lemma ensured_entry:
  assumes "spendEntry keccak ss us (gget m txid)"
  shows "spentEntry keccak ss us (ensureSpendHistoryEntry m v txid ts bn version)"
    "version = versionFor ss' us' \<Longrightarrow> heVersion (ensureSpendHistoryEntry m v txid ts bn version) = versionFor (ss @ ss') (us @ us')"
proof -
  have "spentEntry keccak ss us (ensureSpendHistoryEntry m v txid ts bn version) \<and>
    (version = versionFor ss' us' \<longrightarrow> heVersion (ensureSpendHistoryEntry m v txid ts bn version) = versionFor (ss @ ss') (us @ us'))"
  proof (cases "gget m txid")
    case None
    then show ?thesis using assms
      by (simp add: spendEntry_def spentEntry_def ensureSpendHistoryEntry_def newEntry_def feeAs_def)
  next
    case (Some e)
    then have e: "spentEntry keccak ss us e" "heVersion e = versionFor ss us" using assms by (simp_all add: spendEntry_def)
    have "spentEntry keccak ss us (ensureSpendHistoryEntry m v txid ts bn version)"
      using e(1) Some by (simp add: spentEntry_def ensureSpendHistoryEntry_def)
    moreover have "heVersion (ensureSpendHistoryEntry m v txid ts bn (versionFor ss' us')) = versionFor (ss @ ss') (us @ us')"
      using e(2) Some by (auto simp: ensureSpendHistoryEntry_def versionFor_def
        TransactionHistoryItemVersionUpdatedNov2022_def TransactionHistoryItemVersionLegacy_def)
    ultimately show ?thesis by blast
  qed
  then show "spentEntry keccak ss us (ensureSpendHistoryEntry m v txid ts bn version)"
    "version = versionFor ss' us' \<Longrightarrow> heVersion (ensureSpendHistoryEntry m v txid ts bn version) = versionFor (ss @ ss') (us @ us')"
    by blast+
qed

lemma feeAs_snoc: "sentAs keccak s a \<Longrightarrow> feeAs keccak (fees @ [s]) (Some a)"
  by (simp add: feeAs_def)

lemma spendEvent_cases:
  assumes "spendEvent keccak manager v start event m = Inr m'"
  obtains (skipped) "\<not> (snValue event \<notin> {None, Some 0} \<and> countsFrom start (snBlockNumber event) \<and> snTXID event \<noteq> [])" "m' = m"
    | (counted) e a where "snValue event \<notin> {None, Some 0}" "countsFrom start (snBlockNumber event)" "snTXID event \<noteq> []" "sentAs keccak event a"
      "e = ensureSpendHistoryEntry m v (snTXID event) (snTimestamp event) (snBlockNumber event) (versionFor [event] [])"
      "m' = gput (snTXID event) (if isFee event then e\<lparr>heBroadcasterFeeTokenAmount := Some a\<rparr>
        else if isChange event then e\<lparr>heChangeTokenAmounts := heChangeTokenAmounts e @ [a]\<rparr>
        else e\<lparr>heTransferTokenAmounts := heTransferTokenAmounts e @ [\<lparr>htAmount = a, htRecipientAddress = snRecipientAddress event\<rparr>]\<rparr>) m"
proof (cases "snValue event \<notin> {None, Some 0} \<and> countsFrom start (snBlockNumber event) \<and> snTXID event \<noteq> []")
  case False
  then have "m' = m" using assms by (auto simp: spendEvent_def countsFrom_included split: if_splits)
  then show ?thesis using False skipped by blast
next
  case True
  then have go: "(snValue event = None \<or> snValue event = Some 0 \<or> \<not> historyBlockIncluded (snBlockNumber event) start \<or> snTXID event = []) = False"
    by (simp add: countsFrom_included)
  obtain a where a: "tokenAmountFromSentCommitment keccak manager event = Inr a"
    using assms unfolding spendEvent_def go if_False by (auto simp: Let_def res_elims)
  then have "sentAs keccak event a" by (auto simp: tokenAmountFromSentCommitment_def sentAs_def res_elims)
  moreover have "outputTypeValue (snOutputType event) = OutputTypeBroadcasterFee \<longleftrightarrow> isFee event"
      "outputTypeValue (snOutputType event) = OutputTypeChange \<longleftrightarrow> isChange event"
    by (auto simp: outputTypeValue_def isFee_def isChange_def OutputTypeTransfer_def OutputTypeBroadcasterFee_def OutputTypeChange_def split: option.splits)
  moreover have "historyVersionForOutputType (snOutputType event) = versionFor [event] []"
    by (simp add: historyVersionForOutputType_def versionFor_def)
  ultimately show ?thesis
    using True assms unfolding spendEvent_def go if_False a
    by (intro counted [OF _ _ _ _ refl]) (auto simp: Let_def cong: if_cong)
qed

lemma spendEvent_entry:
  assumes "txid \<noteq> []" "spendEntry keccak (sendsOf start txid ys) [] (gget m txid)" "spendEvent keccak manager v start event m = Inr m'"
  shows "spendEntry keccak (sendsOf start txid (ys @ [event])) [] (gget m' txid)"
  using assms(3)
proof (cases rule: spendEvent_cases)
  case skipped
  then have "sendsOf start txid (ys @ [event]) = sendsOf start txid ys" using assms(1) by (auto simp: sendsOf_def)
  then show ?thesis using assms(2) skipped(2) by simp
next
  case (counted e a)
  show ?thesis
  proof (cases "snTXID event = txid")
    case True
    then have ss: "sendsOf start txid (ys @ [event]) = sendsOf start txid ys @ [event]" using counted(1,2) by (simp add: sendsOf_def)
    have e: "spentEntry keccak (sendsOf start txid ys) [] e" "heVersion e = versionFor (sendsOf start txid ys @ [event]) []"
      unfolding counted(5) True using ensured_entry [OF assms(2)] by auto
    have "transferredAs keccak event \<lparr>htAmount = a, htRecipientAddress = snRecipientAddress event\<rparr>"
      using counted(4) by (simp add: transferredAs_def)
    moreover have "\<not> (isFee event \<and> isChange event)"
      by (auto simp: isFee_def isChange_def OutputTypeBroadcasterFee_def OutputTypeChange_def)
    ultimately show ?thesis unfolding ss counted(6) True gget_gput
      using e counted(4) by (auto simp: spendEntry_def spentEntry_def intro: list_all2_appendI feeAs_snoc)
  next
    case False
    then have "sendsOf start txid (ys @ [event]) = sendsOf start txid ys" by (simp add: sendsOf_def)
    then show ?thesis using assms(2) counted(6) False by (simp add: gget_gput)
  qed
qed


lemma spendTransaction_entry:
  assumes "txid \<noteq> []" "spendEntry keccak ss (unshieldsIn start txid ys) (gget m txid)" "spendTransaction keccak v start tx m = Inr m'"
  shows "spendEntry keccak ss (unshieldsIn start txid (ys @ [tx])) (gget m' txid)"
proof (cases "txUnshield tx \<noteq> None \<and> countsFrom start (txBlockNumber tx) \<and> txTxid tx = txid")
  case True
  then have us: "unshieldsIn start txid (ys @ [tx]) = unshieldsIn start txid ys @ [tx]" by (simp add: unshieldsIn_def)
  obtain unshield where u: "txUnshield tx = Some unshield" using True by blast
  define e where "e = ensureSpendHistoryEntry m v txid None (txBlockNumber tx) (versionFor [] [tx])"
  have version: "versionFor [] [tx] = TransactionHistoryItemVersionUpdatedNov2022" by (simp add: versionFor_def)
  have e: "spentEntry keccak ss (unshieldsIn start txid ys) e" "heVersion e = versionFor ss (unshieldsIn start txid ys @ [tx])"
    unfolding e_def using ensured_entry(1) [OF assms(2)] ensured_entry(2) [OF assms(2), where ss' = "[]" and us' = "[tx]"] by auto
  obtain a where a: "unshieldTokenAmountFromTransaction keccak unshield = Inr a"
    and m': "m' = gput txid (e\<lparr>heUnshieldTokenAmounts := heUnshieldTokenAmounts e @ [a]\<rparr>) m"
    using assms(1,3) True u by (auto simp: spendTransaction_def countsFrom_included Let_def res_elims e_def version)
  have "unshieldedAs keccak tx a"
    using a u by (auto simp: unshieldedAs_def unshieldTokenAmountFromTransaction_def res_elims wrapErr_Inr)
  then show ?thesis unfolding us m' gget_gput
    using e by (auto simp: spendEntry_def spentEntry_def intro: list_all2_appendI)
next
  case False
  then have "unshieldsIn start txid (ys @ [tx]) = unshieldsIn start txid ys" by (simp add: unshieldsIn_def)
  moreover have "gget m' txid = gget m txid"
    using assms(3) False by (auto simp: spendTransaction_def countsFrom_included Let_def res_elims gget_gput split: option.splits if_splits)
  ultimately show ?thesis using assms(2) by simp
qed

text \<open>What a wallet's event store and transaction store list; a wallet need not have them.\<close>

definition walletSent :: "ctx \<Rightarrow> 'w Wallet \<Rightarrow> 'w \<Rightarrow> SentCommitmentPOIStatusInput list res" where
  "walletSent ctx wal w = (case waSpentPOIEvents wal of None \<Rightarrow> Inr [] | Some spent \<Rightarrow> spListSentCommitmentPOIEvents spent ctx w)"

definition walletTransactions :: "ctx \<Rightarrow> 'w Wallet \<Rightarrow> 'w \<Rightarrow> Transaction list res" where
  "walletTransactions ctx wal w = (case waTXIDStore wal of None \<Rightarrow> Inr [] | Some store \<Rightarrow> tsListTransactions store ctx w)"

lemma spend_entry:
  assumes "transactionSpendHistory keccak ctx wal v start w = Inr es"
  obtains m ss txs where "historyOk v m" "es = map snd m" "walletSent ctx wal w = Inr ss" "walletTransactions ctx wal w = Inr txs"
    "\<And>txid. txid \<noteq> [] \<Longrightarrow> spendEntry keccak (sendsOf start txid ss) (unshieldsIn start txid txs) (gget m txid)"
proof -
  obtain m m' ss txs where ss: "walletSent ctx wal w = Inr ss" "foldRes (spendEvent keccak (waPOIManager wal) v start) ss [] = Inr m"
    and txs: "walletTransactions ctx wal w = Inr txs" "foldRes (spendTransaction keccak v start) txs m = Inr m'" and es: "es = map snd m'"
    using assms by (cases "waSpentPOIEvents wal"; cases "waTXIDStore wal")
      (auto simp: transactionSpendHistory_def walletSent_def walletTransactions_def andThen_Inr)
  have "historyOk v m" using ss(2) by (rule foldRes_invariant) (auto intro: historyOk_Nil spendEvent_ok)
  with txs(2) have "historyOk v m'" by (rule foldRes_invariant) (auto intro: spendTransaction_ok)
  moreover have "spendEntry keccak (sendsOf start txid ss) (unshieldsIn start txid txs) (gget m' txid)" if txid: "txid \<noteq> []" for txid
  proof -
    have "spendEntry keccak (sendsOf start txid ss) [] (gget m txid)"
      by (rule foldRes_prefix [OF ss(2), of "\<lambda>ys m. spendEntry keccak (sendsOf start txid ys) [] (gget m txid)"])
        (simp add: spendEntry_def sendsOf_def, rule spendEvent_entry [OF txid])
    then show ?thesis
      by (intro foldRes_prefix [OF txs(2), of "\<lambda>ys m. spendEntry keccak (sendsOf start txid ss) (unshieldsIn start txid ys) (gget m txid)"])
        (simp add: unshieldsIn_def, rule spendTransaction_entry [OF txid])
  qed
  ultimately show thesis using that [OF _ es ss(1) txs(1)] by blast
qed


text \<open>Received amounts that are already among the change of an entry, or become it, are not listed as received.\<close>

definition sameAmount :: "TransactionHistoryTokenAmount \<Rightarrow> TransactionHistoryTokenAmount \<Rightarrow> bool" where
  "sameAmount a b \<longleftrightarrow> haTokenHash a = haTokenHash b \<and> haAmount a = haAmount b"

definition mergedWith :: "TransactionHistoryReceiveTokenAmount list \<Rightarrow> TransactionHistoryEntry \<Rightarrow> TransactionHistoryEntry \<Rightarrow> bool" where
  "mergedWith received e0 e \<longleftrightarrow> (\<exists>merged moved.
     mset (heReceiveTokenAmounts e) + mset merged = mset (heReceiveTokenAmounts e0) + mset received \<and>
     (\<forall>r \<in> set merged. \<exists>c \<in> set (heChangeTokenAmounts e). sameAmount c (hrAmount r)) \<and>
     mset (heTransferTokenAmounts e) + mset moved = mset (heTransferTokenAmounts e0) \<and>
     mset (heChangeTokenAmounts e) = mset (heChangeTokenAmounts e0) + mset (map htAmount moved) \<and>
     (moved \<noteq> [] \<longrightarrow> heVersion e0 \<in> {TransactionHistoryItemVersionLegacy, TransactionHistoryItemVersionUnknown})) \<and>
   heBroadcasterFeeTokenAmount e = heBroadcasterFeeTokenAmount e0 \<and> heUnshieldTokenAmounts e = heUnshieldTokenAmounts e0 \<and>
   heVersion e = heVersion e0"

lemma findTransfer_Some: "findTransfer ts r = Some i \<Longrightarrow> i < length ts \<and> sameAmount (htAmount (ts ! i)) r"
  by (induction ts arbitrary: i) (auto simp: tokenAmountsMatch_def sameAmount_def split: if_splits)

lemma mergedWith_refl: "mergedWith [] e e"
  unfolding mergedWith_def by (rule conjI, rule exI [of _ "[]"], rule exI [of _ "[]"]) simp_all

lemma addReceived_cases:
  obtains (received) "addReceived a e = e\<lparr>heReceiveTokenAmounts := heReceiveTokenAmounts e @ [a]\<rparr>"
    | (change) c where "c \<in> set (heChangeTokenAmounts e)" "sameAmount c (hrAmount a)" "addReceived a e = e"
    | (moved) i where "i < length (heTransferTokenAmounts e)" "sameAmount (htAmount (heTransferTokenAmounts e ! i)) (hrAmount a)"
      "heVersion e \<in> {TransactionHistoryItemVersionLegacy, TransactionHistoryItemVersionUnknown}"
      "addReceived a e = e\<lparr>heTransferTokenAmounts := take i (heTransferTokenAmounts e) @ drop (Suc i) (heTransferTokenAmounts e),
        heChangeTokenAmounts := heChangeTokenAmounts e @ [htAmount (heTransferTokenAmounts e ! i)]\<rparr>"
proof (cases "find (\<lambda>c. tokenAmountsMatch c (hrAmount a)) (heChangeTokenAmounts e)")
  case (Some c)
  then have "c \<in> set (heChangeTokenAmounts e)" "sameAmount c (hrAmount a)"
    by (auto simp: find_Some_iff tokenAmountsMatch_def sameAmount_def)
  moreover have "addReceived a e = (if haTokenHash c \<noteq> [] then e else e\<lparr>heReceiveTokenAmounts := heReceiveTokenAmounts e @ [a]\<rparr>)"
    using Some by (simp add: addReceived_def matchingChangeOrLegacyTransfer_def)
  ultimately show ?thesis using received change by (auto split: if_splits)
next
  case None
  show ?thesis
  proof (cases "heVersion e \<in> {TransactionHistoryItemVersionLegacy, TransactionHistoryItemVersionUnknown} \<and>
      findTransfer (heTransferTokenAmounts e) (hrAmount a) \<noteq> None")
    case True
    then obtain i where i: "findTransfer (heTransferTokenAmounts e) (hrAmount a) = Some i" by blast
    show ?thesis
      by (rule moved [of i]) (use True i None findTransfer_Some [OF i] in \<open>auto simp: addReceived_def matchingChangeOrLegacyTransfer_def\<close>)
  next
    case False
    then have "addReceived a e = e\<lparr>heReceiveTokenAmounts := heReceiveTokenAmounts e @ [a]\<rparr>"
      using None by (auto simp: addReceived_def matchingChangeOrLegacyTransfer_def noAmount_def split: option.splits)
    then show ?thesis by (rule received)
  qed
qed

lemma mset_remove_nth: "i < length ts \<Longrightarrow> mset (take i ts @ drop (Suc i) ts) + {# ts ! i #} = mset ts"
  by (subst (4) id_take_nth_drop [of i ts]) (simp_all add: add.commute)

lemma mergedWith_step: 
  assumes "mergedWith received e0 e"
  shows "mergedWith (received @ [a]) e0 (addReceived a e)"
proof -
  obtain merged moved where m: "mset (heReceiveTokenAmounts e) + mset merged = mset (heReceiveTokenAmounts e0) + mset received"
     "\<forall>r \<in> set merged. \<exists>c \<in> set (heChangeTokenAmounts e). sameAmount c (hrAmount r)"
     "mset (heTransferTokenAmounts e) + mset moved = mset (heTransferTokenAmounts e0)"
     "mset (heChangeTokenAmounts e) = mset (heChangeTokenAmounts e0) + mset (map htAmount moved)"
     "moved \<noteq> [] \<longrightarrow> heVersion e0 \<in> {TransactionHistoryItemVersionLegacy, TransactionHistoryItemVersionUnknown}"
   and same: "heBroadcasterFeeTokenAmount e = heBroadcasterFeeTokenAmount e0" "heUnshieldTokenAmounts e = heUnshieldTokenAmounts e0"
     "heVersion e = heVersion e0"
    using assms unfolding mergedWith_def by blast
  show ?thesis
  proof (cases rule: addReceived_cases [of a e])
    case received
    show ?thesis unfolding mergedWith_def received
      by (rule conjI, rule exI [of _ merged], rule exI [of _ moved]) (use m same in \<open>simp_all\<close>)
  next
    case (change c)
    show ?thesis unfolding mergedWith_def change(3)
      by (rule conjI, rule exI [of _ "merged @ [a]"], rule exI [of _ moved]) (use m same change in \<open>auto\<close>)
  next
    case (moved i)
    let ?t = "heTransferTokenAmounts e ! i"
    have "mset (take i (heTransferTokenAmounts e) @ drop (Suc i) (heTransferTokenAmounts e)) + mset (moved @ [?t]) = mset (heTransferTokenAmounts e0)"
      unfolding m(3) [symmetric] mset_remove_nth [OF moved(1), symmetric] by simp
    moreover have "heVersion e0 \<in> {TransactionHistoryItemVersionLegacy, TransactionHistoryItemVersionUnknown}"
      using moved(3) same(3) by simp
    moreover have "\<forall>r \<in> set (merged @ [a]). \<exists>c \<in> set (heChangeTokenAmounts e @ [htAmount ?t]). sameAmount c (hrAmount r)"
      using m(2) moved(2) by auto
    ultimately show ?thesis unfolding mergedWith_def moved(4)
      using m(1,4) same by (intro conjI exI [of _ "merged @ [a]"] exI [of _ "moved @ [?t]"]) simp_all
  qed
qed

lemma mergedWith_fold: "mergedWith received (e :: TransactionHistoryEntry) (fold addReceived received e)"
proof -
  have "mergedWith (bs @ as) e (fold addReceived as e')" if "mergedWith bs e e'" for as bs e'
    using that
  proof (induction as arbitrary: bs e')
    case (Cons a as)
    from Cons.IH [OF mergedWith_step [OF Cons.prems, of a]] show ?case by simp
  qed simp
  from this [OF mergedWith_refl] show ?thesis by simp
qed

text \<open>The entry of a transaction in a list of entries.\<close>

definition entryFor :: "TransactionHistoryEntry list \<Rightarrow> string \<Rightarrow> TransactionHistoryEntry option" where
  "entryFor es txid = find (\<lambda>e. heTXID e = txid) es"

lemma entryFor_Some: "entriesOk v es \<Longrightarrow> entryFor es txid = Some e \<longleftrightarrow> e \<in> set es \<and> heTXID e = txid"
  unfolding entriesOk_def entryFor_def
  by (induction es) (auto simp: image_iff)

lemma entryFor_None: "entryFor es txid = None \<longleftrightarrow> txid \<notin> heTXID ` set es"
  by (auto simp: entryFor_def find_None_iff)


lemma mergeReceive_simps:
  "mergeReceive r [] = [r]"
  "mergeReceive r (e # es) = (if heTXID e = heTXID r then fold addReceived (heReceiveTokenAmounts r) e # es else e # mergeReceive r es)"
  by (auto simp: mergeReceive_def split: option.splits)

lemma entryFor_Cons: "entryFor (r # rs) txid = (if heTXID r = txid then Some r else entryFor rs txid)"
  by (simp add: entryFor_def)

lemma entryFor_merge:
  "entryFor (mergeReceive r es) txid = (if heTXID r = txid
     then Some (case entryFor es txid of None \<Rightarrow> r | Some e \<Rightarrow> fold addReceived (heReceiveTokenAmounts r) e) else entryFor es txid)"
  by (induction es) (auto simp: entryFor_def mergeReceive_simps fold_addReceived_keeps)

lemma entryFor_merged:
  assumes "distinct (map heTXID rs)"
  shows "entryFor (fold mergeReceive rs es) txid = (case entryFor rs txid of None \<Rightarrow> entryFor es txid
     | Some r \<Rightarrow> Some (case entryFor es txid of None \<Rightarrow> r | Some e \<Rightarrow> fold addReceived (heReceiveTokenAmounts r) e))"
  using assms
proof (induction rs arbitrary: es)
  case (Cons r rs)
  have "heTXID r \<notin> heTXID ` set rs" using Cons.prems by auto
  then have "entryFor rs (heTXID r) = None" by (simp add: entryFor_None)
  then show ?case using Cons by (cases "entryFor rs txid") (auto simp: entryFor_merge entryFor_Cons)
qed (simp add: entryFor_def)

lemma entryFor_map: "historyOk v m \<Longrightarrow> txid \<noteq> [] \<Longrightarrow> entryFor (map snd m) txid = gget m txid"
proof (induction m)
  case (Cons kv m)
  obtain k e where kv: "kv = (k, e)" by fastforce
  have "historyOk v m" "heTXID e = k" using Cons.prems(1) by (auto simp: historyOk_def kv)
  then show ?case using Cons kv by (simp add: entryFor_def)
qed (simp add: entryFor_def)

definition historyEntry ::
  "(byte list \<Rightarrow> byte list) \<Rightarrow> StoredTXO list \<Rightarrow> SentCommitmentPOIStatusInput list \<Rightarrow> Transaction list \<Rightarrow> TransactionHistoryEntry \<Rightarrow> bool" where
  "historyEntry keccak rs ss us e \<longleftrightarrow>
     (\<exists>received transfers changes merged moved.
       list_all2 (receivedAs keccak) rs received \<and>
       list_all2 (transferredAs keccak) (filter (\<lambda>s. \<not> isFee s \<and> \<not> isChange s) ss) transfers \<and>
       list_all2 (sentAs keccak) (filter isChange ss) changes \<and>
       mset (heReceiveTokenAmounts e) + mset merged = mset received \<and>
       (\<forall>r \<in> set merged. \<exists>c \<in> set (heChangeTokenAmounts e). sameAmount c (hrAmount r)) \<and>
       mset (heTransferTokenAmounts e) + mset moved = mset transfers \<and>
       mset (heChangeTokenAmounts e) = mset changes + mset (map htAmount moved) \<and>
       (moved \<noteq> [] \<longrightarrow> us = [] \<and> (\<forall>s \<in> set ss. snOutputType s = None))) \<and>
     feeAs keccak (filter isFee ss) (heBroadcasterFeeTokenAmount e) \<and>
     list_all2 (unshieldedAs keccak) us (heUnshieldTokenAmounts e)"

lemma received_only: "receiveEntry keccak rs (Some e) \<Longrightarrow> historyEntry keccak rs [] [] e"
  unfolding historyEntry_def
  by (intro conjI exI [of _ "heReceiveTokenAmounts e"] exI [of _ "[]"]) (simp_all add: receiveEntry_def feeAs_def)

lemma version_legacy: "versionFor ss us \<in> {TransactionHistoryItemVersionLegacy, TransactionHistoryItemVersionUnknown} \<Longrightarrow>
    us = [] \<and> (\<forall>s \<in> set ss. snOutputType s = None)"
  by (auto simp: versionFor_def TransactionHistoryItemVersionLegacy_def TransactionHistoryItemVersionUnknown_def
      TransactionHistoryItemVersionUpdatedNov2022_def split: if_splits)

lemma merged_entry:
  assumes "list_all2 (receivedAs keccak) rs received" "spentEntry keccak ss us e0" "heVersion e0 = versionFor ss us" "mergedWith received e0 e"
  shows "historyEntry keccak rs ss us e"
proof -
  obtain merged moved where m: "mset (heReceiveTokenAmounts e) + mset merged = mset (heReceiveTokenAmounts e0) + mset received"
     "\<forall>r \<in> set merged. \<exists>c \<in> set (heChangeTokenAmounts e). sameAmount c (hrAmount r)"
     "mset (heTransferTokenAmounts e) + mset moved = mset (heTransferTokenAmounts e0)"
     "mset (heChangeTokenAmounts e) = mset (heChangeTokenAmounts e0) + mset (map htAmount moved)"
     "moved \<noteq> [] \<longrightarrow> us = [] \<and> (\<forall>s \<in> set ss. snOutputType s = None)"
   and same: "heBroadcasterFeeTokenAmount e = heBroadcasterFeeTokenAmount e0" "heUnshieldTokenAmounts e = heUnshieldTokenAmounts e0"
    using assms(3,4) version_legacy [of ss us] unfolding mergedWith_def by auto
  have e0: "heReceiveTokenAmounts e0 = []"
     "list_all2 (transferredAs keccak) (filter (\<lambda>s. \<not> isFee s \<and> \<not> isChange s) ss) (heTransferTokenAmounts e0)"
     "list_all2 (sentAs keccak) (filter isChange ss) (heChangeTokenAmounts e0)"
     "feeAs keccak (filter isFee ss) (heBroadcasterFeeTokenAmount e0)" "list_all2 (unshieldedAs keccak) us (heUnshieldTokenAmounts e0)"
    using assms(2) by (simp_all add: spentEntry_def)
  have "mset (heReceiveTokenAmounts e) + mset merged = mset received" using m(1) e0(1) by simp
  with m(2-5) e0(2,3) assms(1)
  have "\<exists>received transfers changes merged moved.
       list_all2 (receivedAs keccak) rs received \<and>
       list_all2 (transferredAs keccak) (filter (\<lambda>s. \<not> isFee s \<and> \<not> isChange s) ss) transfers \<and>
       list_all2 (sentAs keccak) (filter isChange ss) changes \<and>
       mset (heReceiveTokenAmounts e) + mset merged = mset received \<and>
       (\<forall>r \<in> set merged. \<exists>c \<in> set (heChangeTokenAmounts e). sameAmount c (hrAmount r)) \<and>
       mset (heTransferTokenAmounts e) + mset moved = mset transfers \<and>
       mset (heChangeTokenAmounts e) = mset changes + mset (map htAmount moved) \<and>
       (moved \<noteq> [] \<longrightarrow> us = [] \<and> (\<forall>s \<in> set ss. snOutputType s = None))"
    by (intro exI [of _ received] exI [of _ "heTransferTokenAmounts e0"] exI [of _ "heChangeTokenAmounts e0"] exI [of _ merged] exI [of _ moved] conjI)
  then show ?thesis unfolding historyEntry_def same using e0(4,5) by blast
qed


lemma entryFor_sorted: "entriesOk v es \<Longrightarrow> entryFor (sortTransactionHistory es) txid = entryFor es txid"
proof -
  assume ok: "entriesOk v es"
  have "entryFor (sortTransactionHistory es) txid = Some e \<longleftrightarrow> entryFor es txid = Some e" for e
    by (simp add: entryFor_Some [OF ok] entryFor_Some [OF sorted_entries [OF ok]]) (simp add: sortTransactionHistory_def)
  then show ?thesis by (cases "entryFor es txid"; cases "entryFor (sortTransactionHistory es) txid") auto
qed

lemma history_entry:
  assumes "TransactionHistory keccak ctx (Some wal) v start w = Inr history"
  obtains txos ss txs where "ssListTXOs (the (waState wal)) ctx w = Inr txos" "walletSent ctx wal w = Inr ss" "walletTransactions ctx wal w = Inr txs"
    "\<And>txid. txid \<noteq> [] \<Longrightarrow> case entryFor history txid of
       None \<Rightarrow> receiptsOf v start txid txos = [] \<and> sendsOf start txid ss = [] \<and> unshieldsIn start txid txs = []
     | Some e \<Rightarrow> (receiptsOf v start txid txos \<noteq> [] \<or> sendsOf start txid ss \<noteq> [] \<or> unshieldsIn start txid txs \<noteq> []) \<and>
         historyEntry keccak (receiptsOf v start txid txos) (sendsOf start txid ss) (unshieldsIn start txid txs) e"
proof -
  let ?counted = "\<lambda>txos. filterHistoryTXOs (txosForTXIDVersion txos v) start"
  obtain txos m rs es where r: "ssListTXOs (the (waState wal)) ctx w = Inr txos"
      "foldRes (receiveTXO keccak (waPOIManager wal) v) (?counted txos) [] = Inr m" "rs = map snd m"
      "transactionSpendHistory keccak ctx wal v start w = Inr es" "history = sortTransactionHistory (fold mergeReceive rs es)"
    using assms unfolding TransactionHistory_def queried_def ofVersion_def transactionReceiveHistory_def by (auto simp: andThen_Inr split: if_splits)
  obtain m' ss txs where sp: "historyOk v m'" "es = map snd m'" "walletSent ctx wal w = Inr ss" "walletTransactions ctx wal w = Inr txs"
      "\<And>txid. txid \<noteq> [] \<Longrightarrow> spendEntry keccak (sendsOf start txid ss) (unshieldsIn start txid txs) (gget m' txid)"
    by (rule spend_entry [OF r(4)]) blast
  have ok: "historyOk v m" using r(2) by (rule foldRes_invariant) (auto intro: historyOk_Nil receiveTXO_ok)
  have entries: "entriesOk v rs" "entriesOk v (fold mergeReceive rs es)"
    using historyOk_entries [OF ok] historyOk_entries [OF sp(1)] unfolding r(3) sp(2) by (auto intro: merged_ok)
  have "case entryFor history txid of
       None \<Rightarrow> receiptsOf v start txid txos = [] \<and> sendsOf start txid ss = [] \<and> unshieldsIn start txid txs = []
     | Some e \<Rightarrow> (receiptsOf v start txid txos \<noteq> [] \<or> sendsOf start txid ss \<noteq> [] \<or> unshieldsIn start txid txs \<noteq> []) \<and>
         historyEntry keccak (receiptsOf v start txid txos) (sendsOf start txid ss) (unshieldsIn start txid txs) e" if txid: "txid \<noteq> []" for txid
  proof -
    let ?r = "receiptsOf v start txid txos" and ?s = "sendsOf start txid ss" and ?u = "unshieldsIn start txid txs"
    have rec: "receiveEntry keccak ?r (gget m txid)"
      unfolding receiptsOf_filtered [of v start] by (rule receive_entry [OF txid r(2)]) (auto simp: filterHistoryTXOs_def txosForTXIDVersion_def)
    have "entryFor history txid = entryFor (fold mergeReceive rs es) txid"
      unfolding r(5) by (rule entryFor_sorted [OF entries(2)])
    also have "\<dots> = (case gget m txid of None \<Rightarrow> gget m' txid
        | Some r \<Rightarrow> Some (case gget m' txid of None \<Rightarrow> r | Some e \<Rightarrow> fold addReceived (heReceiveTokenAmounts r) e))"
      using entries(1) unfolding entriesOk_def
      by (subst entryFor_merged) (simp_all only: r(3) sp(2) entryFor_map [OF ok txid] entryFor_map [OF sp(1) txid])
    finally have e: "entryFor history txid = \<dots>" .
    show ?thesis
    proof (cases "gget m txid")
      case None
      then have "?r = []" using rec by (simp add: receiveEntry_def)
      then show ?thesis using None sp(5) [OF txid] mergedWith_refl
        by (auto simp: e spendEntry_def intro: merged_entry split: option.splits)
    next
      case (Some r)
      then have received: "?r \<noteq> []" "list_all2 (receivedAs keccak) ?r (heReceiveTokenAmounts r)" using rec by (simp_all add: receiveEntry_def)
      show ?thesis
      proof (cases "gget m' txid")
        case None
        then have "?s = []" "?u = []" using sp(5) [OF txid] by (simp_all add: spendEntry_def)
        then show ?thesis using received(1) received_only rec Some None by (simp add: e)
      next
        case (Some e0)
        then have "spentEntry keccak ?s ?u e0" "heVersion e0 = versionFor ?s ?u" using sp(5) [OF txid] by (simp_all add: spendEntry_def)
        from merged_entry [OF received(2) this mergedWith_fold] show ?thesis
          using received(1) Some \<open>gget m txid = Some r\<close> by (simp add: e)
      qed
    qed
  qed
  then show thesis using that [OF r(1) sp(3,4)] by blast
qed


text \<open>C12: The history of a version has one entry per transaction, for exactly the non-empty Txids
  that something counted belongs to: an output received for that version or for none, or a commitment sent, whatever its
  version, of a non-zero value, or an unshield, each in a block from the starting one on (or in block 0).
  The entry lists every unshield in order and holds the last broadcaster fee. Each other sent commitment is
  among its transfers or, when its output type says so, its change. Each received output is listed as received, except
  that one of the token and amount of some change of the entry may be left out as that change; only where no
  output type is known (and nothing is unshielded) can a transfer have become such change.\<close>

theorem history_once:
  assumes "TransactionHistory keccak ctx (Some wal) txidVersion startingBlock w = Inr history"
  shows "\<exists>txos sent transactions. ssListTXOs (the (waState wal)) ctx w = Inr txos \<and> walletSent ctx wal w = Inr sent \<and>
    walletTransactions ctx wal w = Inr transactions \<and> distinct (map heTXID history) \<and>
    heTXID ` set history = {txid. txid \<noteq> [] \<and> (receiptsOf txidVersion startingBlock txid txos \<noteq> [] \<or> sendsOf startingBlock txid sent \<noteq> [] \<or>
      unshieldsIn startingBlock txid transactions \<noteq> [])} \<and>
    (\<forall>entry \<in> set history. heTXIDVersion entry = txidVersion \<and>
      historyEntry keccak (receiptsOf txidVersion startingBlock (heTXID entry) txos) (sendsOf startingBlock (heTXID entry) sent)
        (unshieldsIn startingBlock (heTXID entry) transactions) entry)"
proof -
  have ok: "entriesOk txidVersion history" by (rule history_entries [OF assms])
  then have ids: "[] \<notin> heTXID ` set history" by (auto simp: entriesOk_def)
  obtain txos sent txs where lists: "ssListTXOs (the (waState wal)) ctx w = Inr txos" "walletSent ctx wal w = Inr sent" "walletTransactions ctx wal w = Inr txs"
    and entry: "\<And>txid. txid \<noteq> [] \<Longrightarrow> case entryFor history txid of
       None \<Rightarrow> receiptsOf txidVersion startingBlock txid txos = [] \<and> sendsOf startingBlock txid sent = [] \<and> unshieldsIn startingBlock txid txs = []
     | Some e \<Rightarrow> (receiptsOf txidVersion startingBlock txid txos \<noteq> [] \<or> sendsOf startingBlock txid sent \<noteq> [] \<or> unshieldsIn startingBlock txid txs \<noteq> []) \<and>
         historyEntry keccak (receiptsOf txidVersion startingBlock txid txos) (sendsOf startingBlock txid sent) (unshieldsIn startingBlock txid txs) e"
    by (rule history_entry [OF assms]) blast
  have "txid \<in> heTXID ` set history \<longleftrightarrow> txid \<noteq> [] \<and> (receiptsOf txidVersion startingBlock txid txos \<noteq> [] \<or> sendsOf startingBlock txid sent \<noteq> [] \<or>
      unshieldsIn startingBlock txid txs \<noteq> [])" for txid
    using entry [of txid] ids entryFor_None [of history txid] by (cases "txid = []"; cases "entryFor history txid") (auto simp del: image_iff)
  moreover have "historyEntry keccak (receiptsOf txidVersion startingBlock (heTXID e) txos) (sendsOf startingBlock (heTXID e) sent)
        (unshieldsIn startingBlock (heTXID e) txs) e" if "e \<in> set history" for e
  proof -
    have "entryFor history (heTXID e) = Some e" "heTXID e \<noteq> []" using that ok by (auto simp: entryFor_Some [OF ok] entriesOk_def)
    then show ?thesis using entry [of "heTXID e"] by simp
  qed
  ultimately show ?thesis using lists ok unfolding entriesOk_def by blast
qed




definition sampleUnshield :: UnshieldData where
  "sampleUnshield = \<lparr>usTokenData = \<lparr>TokenAddress = ''01'', TokenType = 0, TokenSubID = ''0''\<rparr>, usToAddress = ''0x09'', usValue = ''7'', usFee = ''0''\<rparr>"

definition sampleForeign :: Transaction where
  "sampleForeign = \<lparr>txVersion = ''V2'', txRailgunTxid = ''0b'', txTxid = ''0a'', txBlockNumber = 4, txCommitments = [], txNullifiers = [],
     txBoundParamsHash = [], txUnshield = Some sampleUnshield, txUTXOTreeIn = 0, txUTXOTreeOut = 0, txUTXOBatchStartPositionOut = 0,
     txVerificationHash = []\<rparr>"

definition emptyWallet :: "MemoryStateStore walletWorld" where
  "emptyWallet = \<lparr>wwDetails = Some [], wwState = Some [], wwSpent = Some \<lparr>sentCommitments = [], unshieldEvents = []\<rparr>,
     wwTree = Some [], wwTxids = Some [(''0b'', sampleForeign)], wwTxidTree = Some [], wwCheckpoints = Some []\<rparr>"








text \<open>An output that came back as change, received and sent in one transaction.\<close>

definition sampleReceived :: StoredTXO where
  "sampleReceived = (sampleStoredTXO ''7'' 3)\<lparr>stTXID := ''0a'', stTokenHash := ''0a''\<rparr>"

definition sampleSent :: SentCommitmentPOIStatusInput where
  "sampleSent = \<lparr>snTXID = ''0a'', snRailgunTxid = ''0b'', snTimestamp = None, snBlockNumber = 3, snCommitmentHash = ''0c'', snBlindedCommitment = ''0d'',
     snTokenHash = ''0a'', snTokenData = \<lparr>TokenAddress = [], TokenType = 0, TokenSubID = []\<rparr>, snValue = Some 5, snOutputType = Some OutputTypeChange,
     snWalletSource = [], snMemoText = [], snSenderAddress = [], snRecipientAddress = [], snPOIsPerList = Some []\<rparr>"

definition changeWallet :: "MemoryStateStore walletWorld" where
  "changeWallet = emptyWallet\<lparr>wwState := Some [(''7'', sampleReceived)], wwSpent := Some \<lparr>sentCommitments = [(''0d'', sampleSent)], unshieldEvents = []\<rparr>,
     wwTxids := Some []\<rparr>"

lemma sample_change_history:
  "\<exists>es. TransactionHistory (\<lambda>b. b) None
     (Some (memoryWalletOf sampleConstants (\<lambda>b. b) sampleKeys \<lparr>mgLists = [], mgNode = None, mgLaunchBlocks = None\<rparr>)) ''V2_PoseidonMerkle'' None changeWallet = Inr es"
proof -
  have "FormatHexToByteLength ''0a'' 32 False = Inr (replicate 62 CHR ''0'' @ ''0a'')" by code_simp
  then show ?thesis
    by (auto simp: TransactionHistory_def queried_def ofVersion_def validateWallet_def memoryWalletOf_def validateImportInputs_def sampleKeys_def
        memoryState_def MemoryStateStore_ListTXOs_def emptyWallet_def changeWallet_def sortedTXOs_def transactionReceiveHistory_def filterHistoryTXOs_def
        txosForTXIDVersion_def transactionSpendHistory_def memorySpent_def memoryTxids_def MemorySpentPOIEventStore_ListSentCommitmentPOIEvents_def
        MemoryTransactionStore_ListTransactions_def sortedTransactions_def sampleReceived_def sampleStoredTXO_def sampleSent_def
        sortedSentCommitmentPOIEvents_def receiveTXO_def spendEvent_def historyBlockIncluded_def tokenHashForTXO_def
        tokenAmountFromSentCommitment_def tokenHashForSentCommitment_def Let_def)
qed

theorem history_once_witness:
  "\<exists>history entry. TransactionHistory (\<lambda>b. b) None
     (Some (memoryWalletOf sampleConstants (\<lambda>b. b) sampleKeys \<lparr>mgLists = [], mgNode = None, mgLaunchBlocks = None\<rparr>)) ''V2_PoseidonMerkle'' None changeWallet = Inr history \<and>
    entry \<in> set history \<and> heTXID entry = ''0a'' \<and> historyEntry (\<lambda>b. b) [sampleReceived] [sampleSent] [] entry"
proof -
  obtain history where run: "TransactionHistory (\<lambda>b. b) None
     (Some (memoryWalletOf sampleConstants (\<lambda>b. b) sampleKeys \<lparr>mgLists = [], mgNode = None, mgLaunchBlocks = None\<rparr>)) ''V2_PoseidonMerkle'' None changeWallet = Inr history"
    using sample_change_history by blast
  define wal where "wal = memoryWalletOf sampleConstants (\<lambda>b. b) sampleKeys \<lparr>mgLists = [], mgNode = None, mgLaunchBlocks = None\<rparr>"
  have lists: "ssListTXOs (the (waState wal)) None changeWallet = Inr [sampleReceived]" "walletSent None wal changeWallet = Inr [sampleSent]"
      "walletTransactions None wal changeWallet = Inr []"
    by (simp_all add: wal_def memoryWalletOf_def memoryState_def MemoryStateStore_ListTXOs_def changeWallet_def emptyWallet_def sortedTXOs_def
        walletSent_def memorySpent_def MemorySpentPOIEventStore_ListSentCommitmentPOIEvents_def sortedSentCommitmentPOIEvents_def
        walletTransactions_def memoryTxids_def MemoryTransactionStore_ListTransactions_def sortedTransactions_def sampleSent_def)
  have counted: "receiptsOf ''V2_PoseidonMerkle'' None ''0a'' [sampleReceived] = [sampleReceived]" "sendsOf None ''0a'' [sampleSent] = [sampleSent]"
      "unshieldsIn None ''0a'' [] = []"
    by (simp_all add: receiptsOf_def sendsOf_def unshieldsIn_def sampleReceived_def sampleStoredTXO_def sampleSent_def countsFrom_def)
  from history_once [OF run [folded wal_def]] lists
  have ids: "heTXID ` set history = {txid. txid \<noteq> [] \<and> (receiptsOf ''V2_PoseidonMerkle'' None txid [sampleReceived] \<noteq> [] \<or>
      sendsOf None txid [sampleSent] \<noteq> [] \<or> unshieldsIn None txid [] \<noteq> [])}"
    and entries: "\<forall>entry \<in> set history. historyEntry (\<lambda>b. b) (receiptsOf ''V2_PoseidonMerkle'' None (heTXID entry) [sampleReceived])
        (sendsOf None (heTXID entry) [sampleSent]) (unshieldsIn None (heTXID entry) []) entry"
    by auto
  have "''0a'' \<in> heTXID ` set history" unfolding ids by (simp add: counted)
  then obtain entry where "entry \<in> set history" "heTXID entry = ''0a''" by auto
  then show ?thesis using run entries counted by fastforce
qed

end
