(* ===== verification/PoiStatus.thy ===== *)
theory PoiStatus
  imports PoiRefresh
begin

text \<open>
  Models \<^verbatim>\<open>pkg/wallet/poi_status.go\<close>, the rest of \<^verbatim>\<open>poi_queries.go\<close> and
  \<^verbatim>\<open>legacy_poi.go\<close>: the reports on the proofs of innocence of what a wallet received and
  spent, and the submission of the data of outputs that are older than the proofs.
\<close>

section \<open>Received outputs\<close>

record ReceivedPOIStatusInfo =
  rsTree :: uint64
  rsPosition :: uint64
  rsTXID :: string
  rsCommitment :: string
  rsBlindedCommitment :: string
  rsPOIsPerList :: POIsPerList

definition unavailablePOIStatusField :: string where
  "unavailablePOIStatusField = ''Unavailable''"

definition nonEmptyOrUnavailable :: "string \<Rightarrow> string" where
  "nonEmptyOrUnavailable value = (if value = [] then unavailablePOIStatusField else value)"

definition nonEmptyOrMissing :: "string \<Rightarrow> string" where
  "nonEmptyOrMissing value = (if value = [] then ''Missing'' else value)"

definition commitmentStatusField :: "StoredTXO \<Rightarrow> string" where
  "commitmentStatusField txo =
     (if stCommitmentHash txo = [] \<and> stCommitmentType txo = [] then unavailablePOIStatusField
      else if stCommitmentHash txo = [] then unavailablePOIStatusField @ '' ('' @ stCommitmentType txo @ '')''
      else if stCommitmentType txo = [] then stCommitmentHash txo
      else stCommitmentHash txo @ '' ('' @ stCommitmentType txo @ '')'')"

definition receivedLess :: "ReceivedPOIStatusInfo \<Rightarrow> ReceivedPOIStatusInfo \<Rightarrow> bool" where
  "receivedLess a b \<longleftrightarrow>
     (let left = GetGlobalTreePosition (rsTree a) (rsPosition a); right = GetGlobalTreePosition (rsTree b) (rsPosition b)
      in if right \<noteq> left then right < left else rsTXID a > rsTXID b)"

definition receivedStatus :: "StoredTXO \<Rightarrow> ReceivedPOIStatusInfo" where
  "receivedStatus txo = \<lparr>rsTree = stTree txo, rsPosition = stPosition txo, rsTXID = stTXID txo, rsCommitment = commitmentStatusField txo,
     rsBlindedCommitment = nonEmptyOrUnavailable (stBlindedCommitment txo), rsPOIsPerList = stPOIsPerList txo\<rparr>"

definition FormatReceivedPOIStatusInfo :: "StoredTXO list \<Rightarrow> ReceivedPOIStatusInfo list" where
  "FormatReceivedPOIStatusInfo txos = sortBy receivedLess (map receivedStatus txos)"

definition ReceivedPOIStatus :: "ctx \<Rightarrow> 'w Wallet option \<Rightarrow> 'w \<Rightarrow> ReceivedPOIStatusInfo list res" where
  "ReceivedPOIStatus ctx wallet w =
     queried wallet (\<lambda>wal. andThen (ssListTXOs (the (waState wal)) ctx w) (\<lambda>txos. Inr (FormatReceivedPOIStatusInfo txos)))"

section \<open>Spent outputs\<close>

record SpentPOIStatusInfo =
  siBlockNumber :: uint64
  siTXID :: string
  siRailgunTxid :: string
  siRailgunTransactionInfo :: string
  siPOIStatusesSpentTXOs :: "POIsPerList list"
  siSentCommitmentsBlinded :: string
  siPOIStatusesSentCommitments :: "POIsPerList list"
  siUnshieldEventsBlinded :: string
  siPOIStatusesUnshieldEvents :: "POIsPerList list"
  siListKeysCanGenerateSpentPOIs :: "string list"

record spentStatusGroup =
  sgTXID :: string
  sgRailgunTxid :: string
  sgSentCommitments :: "SentCommitmentPOIStatusInput list"
  sgUnshieldEvents :: "UnshieldPOIStatusInput list"

type_synonym statusGroups = "(string, spentStatusGroup) gomap"

definition groupOf :: "statusGroups \<Rightarrow> string \<Rightarrow> string \<Rightarrow> string \<times> spentStatusGroup" where
  "groupOf byKey TXID railgunTxid =
     (let txid = nonEmptyOrMissing TXID; railgunTxid = nonEmptyOrMissing railgunTxid; key = txid @ [CHR 0x00] @ railgunTxid
      in (key, case gget byKey key of Some grp \<Rightarrow> grp
          | None \<Rightarrow> \<lparr>sgTXID = txid, sgRailgunTxid = railgunTxid, sgSentCommitments = [], sgUnshieldEvents = []\<rparr>))"

definition groupSent :: "SentCommitmentPOIStatusInput \<Rightarrow> statusGroups \<Rightarrow> statusGroups" where
  "groupSent e byKey =
     (let (key, grp) = groupOf byKey (snTXID e) (snRailgunTxid e)
      in gput key (grp\<lparr>sgSentCommitments := sgSentCommitments grp @ [e]\<rparr>) byKey)"

definition groupUnshield :: "UnshieldPOIStatusInput \<Rightarrow> statusGroups \<Rightarrow> statusGroups" where
  "groupUnshield e byKey =
     (let (key, grp) = groupOf byKey (usTXID e) (usRailgunTxid e)
      in gput key (grp\<lparr>sgUnshieldEvents := sgUnshieldEvents grp @ [e]\<rparr>) byKey)"

definition groupLess :: "spentStatusGroup \<Rightarrow> spentStatusGroup \<Rightarrow> bool" where
  "groupLess a b \<longleftrightarrow> (if sgTXID a \<noteq> sgTXID b then sgTXID a < sgTXID b else sgRailgunTxid a < sgRailgunTxid b)"

definition spentStatusGroups :: "SentCommitmentPOIStatusInput list \<Rightarrow> UnshieldPOIStatusInput list \<Rightarrow> spentStatusGroup list" where
  "spentStatusGroups sentEvents unshields =
     sortBy groupLess (map snd (fold groupUnshield unshields (fold groupSent sentEvents [])))"

definition spentGroupBlockNumber :: "spentStatusGroup \<Rightarrow> uint64" where
  "spentGroupBlockNumber grp =
     (case sgSentCommitments grp of e # _ \<Rightarrow> snBlockNumber e
      | [] \<Rightarrow> (case sgUnshieldEvents grp of e # _ \<Rightarrow> usBlockNumber e | [] \<Rightarrow> 0))"

definition transactionHasAllNullifiers :: "Transaction \<Rightarrow> StoredTXO list \<Rightarrow> bool" where
  "transactionHasAllNullifiers transaction txos \<longleftrightarrow>
     (\<forall>nullifier \<in> set (txNullifiers transaction). \<exists>txo \<in> set txos.
        normalizedHex (stNullifier txo) = normalizedHex nullifier \<and> sint (stTree txo) = txUTXOTreeIn transaction)"

definition transactionHasAllCommitments :: "Transaction \<Rightarrow> spentStatusGroup \<Rightarrow> bool" where
  "transactionHasAllCommitments transaction grp \<longleftrightarrow>
     (let commitments = map normalizedHex (filter (\<lambda>h. h \<noteq> []) (map snCommitmentHash (sgSentCommitments grp))) @
            map normalizedHex (filter (\<lambda>h. h \<noteq> []) (map usCommitmentHash (sgUnshieldEvents grp)))
      in \<forall>commitment \<in> set (txCommitments transaction). normalizedHex commitment \<in> set commitments)"

definition filterSpentTXOs :: "StoredTXO list \<Rightarrow> string list \<Rightarrow> int \<Rightarrow> StoredTXO list" where
  "filterSpentTXOs txos nullifiers utxoTreeIn =
     filter (\<lambda>txo. sint (stTree txo) = utxoTreeIn \<and> normalizedHex (stNullifier txo) \<in> set (map normalizedHex nullifiers)) txos"

definition poiTXOsFromStored :: "StoredTXO list \<Rightarrow> TXO list" where
  "poiTXOsFromStored txos = map storedTXOToPOITXO txos"

definition poiSentCommitmentsFromStatusInputs :: "SentCommitmentPOIStatusInput list \<Rightarrow> SentCommitment list" where
  "poiSentCommitmentsFromStatusInputs = map poiSentCommitment"

definition poiUnshieldEventsFromStatusInputs :: "UnshieldPOIStatusInput list \<Rightarrow> UnshieldPOIEvent list" where
  "poiUnshieldEventsFromStatusInputs = map poiUnshieldEvent"

definition poisRowsFromTXOs :: "StoredTXO list \<Rightarrow> POIsPerList list" where
  "poisRowsFromTXOs = map stPOIsPerList"

definition poisRowsFromSentCommitments :: "SentCommitmentPOIStatusInput list \<Rightarrow> POIsPerList list" where
  "poisRowsFromSentCommitments = map snPOIsPerList"

definition poisRowsFromUnshieldEvents :: "UnshieldPOIStatusInput list \<Rightarrow> POIsPerList list" where
  "poisRowsFromUnshieldEvents = map usPOIsPerList"

text \<open>\<^verbatim>\<open>strings.Join\<close>.\<close>

fun Join :: "string list \<Rightarrow> string \<Rightarrow> string" where
  "Join [] sep = []"
| "Join [s] sep = s"
| "Join (s # t # ts) sep = s @ sep @ Join (t # ts) sep"

definition sentCommitmentsBlinded :: "SentCommitmentPOIStatusInput list \<Rightarrow> string" where
  "sentCommitmentsBlinded es = Join (map (\<lambda>e. nonEmptyOrUnavailable (snBlindedCommitment e)) es) '', ''"

definition unshieldEventsBlinded :: "UnshieldPOIStatusInput list \<Rightarrow> string" where
  "unshieldEventsBlinded es = Join (map (\<lambda>e. nonEmptyOrUnavailable (usRailgunTxid e)) es) '', ''"

text \<open>The check mark in UTF-8.\<close>

definition checkMark :: "bool \<Rightarrow> string" where
  "checkMark ok = (if ok then [CHR 0xE2, CHR 0x9C, CHR 0x93] else ''x'')"

definition transactionInfo :: "Transaction \<Rightarrow> StoredTXO list \<Rightarrow> spentStatusGroup \<Rightarrow> string" where
  "transactionInfo transaction txos grp =
     decimal (int (length (txNullifiers transaction))) @ '' nul: '' @ Join (txNullifiers transaction) '', '' @ '' ('' @
     checkMark (transactionHasAllNullifiers transaction txos) @ ''), '' @
     decimal (int (length (txCommitments transaction))) @ '' com/unsh: '' @ Join (txCommitments transaction) '', '' @ '' ('' @
     checkMark (transactionHasAllCommitments transaction grp) @ '')''"

definition formatSpentStatusGroup ::
  "ctx \<Rightarrow> Manager option \<Rightarrow> 'w transactionIface \<Rightarrow> Chain \<Rightarrow> StoredTXO list \<Rightarrow> spentStatusGroup \<Rightarrow> 'w \<Rightarrow> SpentPOIStatusInfo res" where
  "formatSpentStatusGroup ctx poiManager txidStore chain txos grp w =
     andThen (if sgRailgunTxid grp \<noteq> [] \<and> sgRailgunTxid grp \<noteq> ''Missing''
         then andThen (tsGetByRailgunTxid txidStore ctx w (sgRailgunTxid grp)) (\<lambda>found.
           case found of
             None \<Rightarrow> Inr (''Not found'', [], [])
           | Some transaction \<Rightarrow>
               notNil ''No POI launch block for railgun txids'' (LaunchBlock poiManager chain) (\<lambda>launchBlock.
               let isLegacyPOIProof = txBlockNumber transaction < launchBlock;
                   spentTXOs = filterSpentTXOs txos (txNullifiers transaction) (txUTXOTreeIn transaction)
               in Inr (transactionInfo transaction txos grp, spentTXOs,
                    GetListKeysCanGenerateSpentPOIs poiManager (poiTXOsFromStored spentTXOs)
                      (poiSentCommitmentsFromStatusInputs (sgSentCommitments grp))
                      (poiUnshieldEventsFromStatusInputs (sgUnshieldEvents grp)) isLegacyPOIProof)))
         else Inr (''Missing'', [], [])) (\<lambda>(info, spentTXOs, listKeys).
     Inr \<lparr>siBlockNumber = spentGroupBlockNumber grp, siTXID = sgTXID grp, siRailgunTxid = sgRailgunTxid grp,
       siRailgunTransactionInfo = info, siPOIStatusesSpentTXOs = poisRowsFromTXOs spentTXOs,
       siSentCommitmentsBlinded = sentCommitmentsBlinded (sgSentCommitments grp),
       siPOIStatusesSentCommitments = poisRowsFromSentCommitments (sgSentCommitments grp),
       siUnshieldEventsBlinded = unshieldEventsBlinded (sgUnshieldEvents grp),
       siPOIStatusesUnshieldEvents = poisRowsFromUnshieldEvents (sgUnshieldEvents grp),
       siListKeysCanGenerateSpentPOIs = listKeys\<rparr>)"

definition spentLess :: "SpentPOIStatusInfo \<Rightarrow> SpentPOIStatusInfo \<Rightarrow> bool" where
  "spentLess a b \<longleftrightarrow>
     (if siBlockNumber a \<noteq> siBlockNumber b then siBlockNumber a > siBlockNumber b
      else if siTXID a \<noteq> siTXID b then siTXID a > siTXID b
      else siRailgunTxid a > siRailgunTxid b)"

definition FormatSpentPOIStatusInfo ::
  "ctx \<Rightarrow> Manager option \<Rightarrow> 'w transactionIface option \<Rightarrow> Chain \<Rightarrow> StoredTXO list \<Rightarrow> SentCommitmentPOIStatusInput list
   \<Rightarrow> UnshieldPOIStatusInput list \<Rightarrow> 'w \<Rightarrow> SpentPOIStatusInfo list res" where
  "FormatSpentPOIStatusInfo ctx poiManager txidStore chain txos sentEvents unshields w =
     (if poiManager = None then Err ''poi manager is required''
      else notNil ''txid store is required'' txidStore (\<lambda>store.
        andThen (mapRes (\<lambda>grp. withCtx ctx (formatSpentStatusGroup ctx poiManager store chain txos grp w))
          (spentStatusGroups sentEvents unshields)) (\<lambda>statuses.
        Inr (sortBy spentLess statuses))))"

definition SpentPOIStatus ::
  "ctx \<Rightarrow> 'w Wallet option \<Rightarrow> Chain \<Rightarrow> SentCommitmentPOIStatusInput list \<Rightarrow> UnshieldPOIStatusInput list \<Rightarrow> 'w
   \<Rightarrow> SpentPOIStatusInfo list res" where
  "SpentPOIStatus ctx wallet chain sentEvents unshields w =
     queried wallet (\<lambda>wal. if waTXIDStore wal = None then Err ''txid store is required''
       else andThen (ssListTXOs (the (waState wal)) ctx w) (\<lambda>txos.
         FormatSpentPOIStatusInfo ctx (waPOIManager wal) (waTXIDStore wal) chain txos sentEvents unshields w))"

definition SpentPOIStatusFromStore :: "ctx \<Rightarrow> 'w Wallet option \<Rightarrow> Chain \<Rightarrow> 'w \<Rightarrow> SpentPOIStatusInfo list res" where
  "SpentPOIStatusFromStore ctx wallet chain w =
     queried wallet (\<lambda>wal. notNil ''spent poi event store is required'' (waSpentPOIEvents wal) (\<lambda>store.
       andThen (spListSentCommitmentPOIEvents store ctx w) (\<lambda>sentEvents.
       andThen (spListUnshieldPOIEvents store ctx w) (\<lambda>unshields.
       SpentPOIStatus ctx wallet chain sentEvents unshields w))))"

definition MarkSpentPOIProofsSubmitted :: "ctx \<Rightarrow> 'w Wallet option \<Rightarrow> SubmittedPreTransactionPOI list \<Rightarrow> 'w \<Rightarrow> 'w res" where
  "MarkSpentPOIProofsSubmitted ctx wallet submissions w =
     queried wallet (\<lambda>wal. notNil ''spent poi event store is required'' (waSpentPOIEvents wal) (\<lambda>store.
       spMarkProofSubmitted store ctx w submissions))"

definition NumSpendPOIProofsPossible :: "ctx \<Rightarrow> 'w Wallet option \<Rightarrow> Chain \<Rightarrow> 'w \<Rightarrow> nat res" where
  "NumSpendPOIProofsPossible ctx wallet chain w =
     andThen (SpentPOIStatusFromStore ctx wallet chain w) (\<lambda>statuses.
     Inr (fold (\<lambda>status n. n + length (siListKeysCanGenerateSpentPOIs status)) statuses 0))"

section \<open>Legacy outputs\<close>

record SubmitLegacyTransactPOIEventsSummary =
  lsTXOsChecked :: nat
  lsTXOsMatched :: nat
  lsTXIDIndicesMissing :: nat
  lsProofDatasSubmitted :: nat
  lsListKeysSubmitted :: "string list"

record SubmitLegacyTransactPOIEventsAndRefreshSummary =
  lrSubmit :: SubmitLegacyTransactPOIEventsSummary
  lrRefresh :: RefreshPOIsSummary

definition txidLeavesByRailgunTxid :: "ctx \<Rightarrow> 'w merkleTreeIface \<Rightarrow> 'w \<Rightarrow> (string, MerkleLeaf) gomap res" where
  "txidLeavesByRailgunTxid ctx store w =
     andThen (ListLeaves (mtStore store) ctx w) (\<lambda>leaves.
     Inr (fold (\<lambda>leaf leavesByTxid. if mlRailgunTxid leaf \<noteq> [] then gput (mlRailgunTxid leaf) leaf leavesByTxid else leavesByTxid) leaves []))"

definition legacyTransactProofDataFromTXO :: "StoredTXO \<Rightarrow> MerkleLeaf \<Rightarrow> LegacyTransactProofData res" where
  "legacyTransactProofDataFromTXO txo leaf =
     (if stNotePublicKey txo = [] then Inl (Errorf ''txo %s note public key is required'' [AStr (stNullifier txo)])
      else case stValue txo of
        None \<Rightarrow> Inl (Errorf ''txo %s value is required'' [AStr (stNullifier txo)])
      | Some v \<Rightarrow>
          andThen (wrapErr ''txo %s note public key: %w'' [AStr (stNullifier txo)] (FormatHexToByteLength (stNotePublicKey txo) 32 True)) (\<lambda>npk.
          Inr \<lparr>ltTXIDIndex = decimal (GetGlobalTreePosition (mlTree leaf) (mlIndex leaf)), ltNPK = npk, ltValue = decimal v,
            ltTokenHash = stTokenHash txo, ltBlindedCommitment = stBlindedCommitment txo\<rparr>))"

text \<open>The datas of the candidates that the tree has, and the number of those it lacks.\<close>

definition legacyProofDatas ::
  "(string, MerkleLeaf) gomap \<Rightarrow> StoredTXO list \<Rightarrow> (LegacyTransactProofData list \<times> nat) res" where
  "legacyProofDatas leavesByRailgunTxid candidates =
     foldRes (\<lambda>txo (proofDatas, missing).
       case gget leavesByRailgunTxid (stTransactCreationRailgunTxid txo) of
         None \<Rightarrow> Inr (proofDatas, Suc missing)
       | Some leaf \<Rightarrow> andThen (legacyTransactProofDataFromTXO txo leaf) (\<lambda>proofData. Inr (proofDatas @ [proofData], missing))) candidates ([], 0)"

definition SubmitLegacyTransactPOIEvents ::
  "ctx \<Rightarrow> 'w stateIface option \<Rightarrow> Manager option \<Rightarrow> 'w merkleTreeIface option \<Rightarrow> string \<Rightarrow> Chain \<Rightarrow> 'w
   \<Rightarrow> SubmitLegacyTransactPOIEventsSummary res" where
  "SubmitLegacyTransactPOIEvents ctx store poiManager txidMerkleTree txidVersion chain w =
     notNil ''state store is required'' store (\<lambda>state.
     if poiManager = None then Err ''poi manager is required''
     else notNil ''txid merkle tree store is required'' txidMerkleTree (\<lambda>tree.
     ofVersion txidVersion (andThen (ssListTXOs state ctx w) (\<lambda>txos.
       let txos = txosForTXIDVersion txos txidVersion;
           candidates = filter (\<lambda>txo. ShouldSubmitLegacyTransactEventsTXO poiManager chain (storedTXOToPOITXO txo)) txos;
           summary = \<lparr>lsTXOsChecked = length txos, lsTXOsMatched = length candidates, lsTXIDIndicesMissing = 0, lsProofDatasSubmitted = 0,
             lsListKeysSubmitted = []\<rparr>
       in if candidates = [] then Inr summary
          else andThen (txidLeavesByRailgunTxid ctx tree w) (\<lambda>leavesByRailgunTxid.
               andThen (legacyProofDatas leavesByRailgunTxid candidates) (\<lambda>(proofDatas, missing).
               let summary = summary\<lparr>lsTXIDIndicesMissing := missing\<rparr>;
                   listKeys = GetListKeysCanSubmitLegacyTransactEvents poiManager (poiTXOsFromStored txos)
               in if proofDatas = [] \<or> listKeys = [] then Inr summary
                  else andThen (SubmitLegacyTransactProofs ctx poiManager \<lparr>slTXIDVersion = txidVersion, slChain = chain, slListKeys = listKeys,
                      slLegacyTransactProofDatas = proofDatas\<rparr>) (\<lambda>_.
                    Inr (summary\<lparr>lsProofDatasSubmitted := length proofDatas, lsListKeysSubmitted := listKeys\<rparr>))))))))"

definition SubmitLegacyTransactPOIEventsAndRefresh ::
  "ctx \<Rightarrow> 'w stateIface option \<Rightarrow> Manager option \<Rightarrow> 'w merkleTreeIface option \<Rightarrow> string \<Rightarrow> Chain
   \<Rightarrow> ('w, SubmitLegacyTransactPOIEventsAndRefreshSummary) act" where
  "SubmitLegacyTransactPOIEventsAndRefresh ctx store poiManager txidMerkleTree txidVersion chain =
     bind (reads (SubmitLegacyTransactPOIEvents ctx store poiManager txidMerkleTree txidVersion chain)) (\<lambda>submit.
     if lsTXOsMatched submit = 0
     then ret \<lparr>lrSubmit = submit, lrRefresh = \<lparr>TXOsChecked = 0, TXOsMatched = 0, Requests = 0, TXOsUpdated = 0, TXOsMissing = 0\<rparr>\<rparr>
     else bind (RefreshPOIs ctx store poiManager txidVersion chain) (\<lambda>refresh. ret \<lparr>lrSubmit = submit, lrRefresh = refresh\<rparr>))"

definition WalletSubmitLegacyTransactPOIEvents where
  "WalletSubmitLegacyTransactPOIEvents ctx wallet txidVersion chain w =
     queried wallet (\<lambda>wal. SubmitLegacyTransactPOIEvents ctx (waState wal) (waPOIManager wal) (waTXIDMerkleTree wal) txidVersion chain w)"

definition WalletSubmitLegacyTransactPOIEventsAndRefresh where
  "WalletSubmitLegacyTransactPOIEventsAndRefresh ctx wallet txidVersion chain =
     withValid wallet (\<lambda>wal. SubmitLegacyTransactPOIEventsAndRefresh ctx (waState wal) (waPOIManager wal) (waTXIDMerkleTree wal) txidVersion chain)"

section \<open>What a report holds\<close>

lemma mset_values_gput:
  assumes "wfmap m"
  shows "image_mset f (mset (map snd (gput k v m))) + (case gget m k of None \<Rightarrow> {#} | Some old \<Rightarrow> {#f old#}) =
    image_mset f (mset (map snd m)) + {#f v#}"
  using assms
proof (induction m)
  case (Cons kv m)
  then show ?case by (cases "fst kv = k") (auto simp: map_of_eq_None_iff split: option.splits prod.splits)
qed simp

definition sentOf :: "spentStatusGroup list \<Rightarrow> SentCommitmentPOIStatusInput multiset" where
  "sentOf groups = mset (concat (map sgSentCommitments groups))"

definition unshieldsOf :: "spentStatusGroup list \<Rightarrow> UnshieldPOIStatusInput multiset" where
  "unshieldsOf groups = mset (concat (map sgUnshieldEvents groups))"

lemma mset_concat_map: "mset (concat (map f xs)) = \<Sum>\<^sub># (image_mset (mset \<circ> f) (mset xs))"
  by (induction xs) auto

lemma contents_mset:
  "sentOf groups = \<Sum>\<^sub># (image_mset (mset \<circ> sgSentCommitments) (mset groups))"
  "unshieldsOf groups = \<Sum>\<^sub># (image_mset (mset \<circ> sgUnshieldEvents) (mset groups))"
  unfolding sentOf_def unshieldsOf_def by (rule mset_concat_map)+

lemma put_contents:
  assumes "wfmap m" "case gget m k of None \<Rightarrow> sgSentCommitments g = ss \<and> sgUnshieldEvents g = us
     | Some old \<Rightarrow> sgSentCommitments g = sgSentCommitments old @ ss \<and> sgUnshieldEvents g = sgUnshieldEvents old @ us"
  shows "sentOf (map snd (gput k g m)) = sentOf (map snd m) + mset ss"
    "unshieldsOf (map snd (gput k g m)) = unshieldsOf (map snd m) + mset us"
proof -
  have sum: "\<Sum>\<^sub># (image_mset f (mset (map snd (gput k g m)))) + (case gget m k of None \<Rightarrow> {#} | Some old \<Rightarrow> f old) =
      \<Sum>\<^sub># (image_mset f (mset (map snd m))) + f g" for f :: "spentStatusGroup \<Rightarrow> 'z multiset"
    using arg_cong [OF mset_values_gput [OF assms(1), of f k g], of sum_mset] by (cases "gget m k") (simp_all add: add.commute)
  show "sentOf (map snd (gput k g m)) = sentOf (map snd m) + mset ss"
    using assms(2) sum [of "mset \<circ> sgSentCommitments"] unfolding contents_mset by (cases "gget m k") simp_all
  show "unshieldsOf (map snd (gput k g m)) = unshieldsOf (map snd m) + mset us"
    using assms(2) sum [of "mset \<circ> sgUnshieldEvents"] unfolding contents_mset by (cases "gget m k") simp_all
qed

lemma group_contents:
  assumes "wfmap m"
  shows "wfmap (groupSent e m)" "sentOf (map snd (groupSent e m)) = add_mset e (sentOf (map snd m))"
    "unshieldsOf (map snd (groupSent e m)) = unshieldsOf (map snd m)"
    "wfmap (groupUnshield u m)" "sentOf (map snd (groupUnshield u m)) = sentOf (map snd m)"
    "unshieldsOf (map snd (groupUnshield u m)) = add_mset u (unshieldsOf (map snd m))"
proof -
  obtain k g where s: "groupOf m (snTXID e) (snRailgunTxid e) = (k, g)" by fastforce
  then have "case gget m k of None \<Rightarrow> sgSentCommitments g = [] \<and> sgUnshieldEvents g = [] | Some old \<Rightarrow> g = old"
    by (auto simp: groupOf_def Let_def split: option.splits)
  then have "case gget m k of None \<Rightarrow> sgSentCommitments (g\<lparr>sgSentCommitments := sgSentCommitments g @ [e]\<rparr>) = [e] \<and>
        sgUnshieldEvents (g\<lparr>sgSentCommitments := sgSentCommitments g @ [e]\<rparr>) = []
     | Some old \<Rightarrow> sgSentCommitments (g\<lparr>sgSentCommitments := sgSentCommitments g @ [e]\<rparr>) = sgSentCommitments old @ [e] \<and>
        sgUnshieldEvents (g\<lparr>sgSentCommitments := sgSentCommitments g @ [e]\<rparr>) = sgUnshieldEvents old @ []"
    by (cases "gget m k") simp_all
  note c = put_contents [OF assms this]
  show "wfmap (groupSent e m)" using assms by (simp add: groupSent_def s)
  show "sentOf (map snd (groupSent e m)) = add_mset e (sentOf (map snd m))"
    "unshieldsOf (map snd (groupSent e m)) = unshieldsOf (map snd m)"
    using c by (simp_all add: groupSent_def s)
next
  obtain k g where s: "groupOf m (usTXID u) (usRailgunTxid u) = (k, g)" by fastforce
  then have "case gget m k of None \<Rightarrow> sgSentCommitments g = [] \<and> sgUnshieldEvents g = [] | Some old \<Rightarrow> g = old"
    by (auto simp: groupOf_def Let_def split: option.splits)
  then have "case gget m k of None \<Rightarrow> sgSentCommitments (g\<lparr>sgUnshieldEvents := sgUnshieldEvents g @ [u]\<rparr>) = [] \<and>
        sgUnshieldEvents (g\<lparr>sgUnshieldEvents := sgUnshieldEvents g @ [u]\<rparr>) = [u]
     | Some old \<Rightarrow> sgSentCommitments (g\<lparr>sgUnshieldEvents := sgUnshieldEvents g @ [u]\<rparr>) = sgSentCommitments old @ [] \<and>
        sgUnshieldEvents (g\<lparr>sgUnshieldEvents := sgUnshieldEvents g @ [u]\<rparr>) = sgUnshieldEvents old @ [u]"
    by (cases "gget m k") simp_all
  note c = put_contents [OF assms this]
  show "wfmap (groupUnshield u m)" using assms by (simp add: groupUnshield_def s)
  show "sentOf (map snd (groupUnshield u m)) = sentOf (map snd m)"
    "unshieldsOf (map snd (groupUnshield u m)) = add_mset u (unshieldsOf (map snd m))"
    using c by (simp_all add: groupUnshield_def s)
qed

lemma fold_group_contents:
  assumes "wfmap m"
  shows "wfmap (fold groupSent es m)" "sentOf (map snd (fold groupSent es m)) = mset es + sentOf (map snd m)"
    "unshieldsOf (map snd (fold groupSent es m)) = unshieldsOf (map snd m)"
    "wfmap (fold groupUnshield us m)" "sentOf (map snd (fold groupUnshield us m)) = sentOf (map snd m)"
    "unshieldsOf (map snd (fold groupUnshield us m)) = mset us + unshieldsOf (map snd m)"
proof -
  show "wfmap (fold groupSent es m)" "sentOf (map snd (fold groupSent es m)) = mset es + sentOf (map snd m)"
    "unshieldsOf (map snd (fold groupSent es m)) = unshieldsOf (map snd m)"
    using assms by (induction es arbitrary: m) (simp_all add: group_contents del: List.map.compositionality)
  show "wfmap (fold groupUnshield us m)" "sentOf (map snd (fold groupUnshield us m)) = sentOf (map snd m)"
    "unshieldsOf (map snd (fold groupUnshield us m)) = mset us + unshieldsOf (map snd m)"
    using assms by (induction us arbitrary: m) (simp_all add: group_contents)
qed

lemma groups_hold_all:
  "sentOf (spentStatusGroups es us) = mset es" "unshieldsOf (spentStatusGroups es us) = mset us"
proof -
  have sorted: "sentOf (sortBy groupLess gs) = sentOf gs" "unshieldsOf (sortBy groupLess gs) = unshieldsOf gs" for gs
    by (simp_all add: contents_mset)
  have none: "sentOf (map snd []) = {#}" "unshieldsOf (map snd []) = {#}" by (simp_all add: sentOf_def unshieldsOf_def)
  have nil: "wfmap ([] :: statusGroups)" by simp
  note inner = fold_group_contents(1-3) [OF nil, of es]
  note outer = fold_group_contents(5,6) [OF inner(1), of us]
  show "sentOf (spentStatusGroups es us) = mset es" "unshieldsOf (spentStatusGroups es us) = mset us"
    unfolding spentStatusGroups_def sorted outer inner(2,3) none by simp_all
qed

lemma formatted_rows:
  assumes "formatSpentStatusGroup ctx manager store chain txos grp w = Inr status"
  shows "siPOIStatusesSentCommitments status = map snPOIsPerList (sgSentCommitments grp)"
    "siPOIStatusesUnshieldEvents status = map usPOIsPerList (sgUnshieldEvents grp)"
  using assms unfolding formatSpentStatusGroup_def andThen_Inr
  by (auto simp: poisRowsFromSentCommitments_def poisRowsFromUnshieldEvents_def)

lemma rows_of_groups:
  assumes "list_all2 (\<lambda>grp status. withCtx ctx (formatSpentStatusGroup ctx manager store chain txos grp w) = Inr status) groups statuses"
  shows "concat (map siPOIStatusesSentCommitments statuses) = map snPOIsPerList (concat (map sgSentCommitments groups))"
    "concat (map siPOIStatusesUnshieldEvents statuses) = map usPOIsPerList (concat (map sgUnshieldEvents groups))"
  using assms by (induction rule: list_all2_induct) (auto simp: withCtx_Inr formatted_rows)

text \<open>C13: A report on the spent outputs has the statuses of every event that it was given exactly
  once: grouping the events by transaction drops and repeats none.\<close>

theorem spent_report_complete:
  "case FormatSpentPOIStatusInfo ctx poiManager txidStore chain txos sentEvents unshields w of
     Inl _ \<Rightarrow> True
   | Inr statuses \<Rightarrow>
       mset (concat (map siPOIStatusesSentCommitments statuses)) = mset (map snPOIsPerList sentEvents) \<and>
       mset (concat (map siPOIStatusesUnshieldEvents statuses)) = mset (map usPOIsPerList unshields)"
proof (cases "FormatSpentPOIStatusInfo ctx poiManager txidStore chain txos sentEvents unshields w")
  case (Inr statuses)
  then obtain store statuses0 where run: "mapRes (\<lambda>grp. withCtx ctx (formatSpentStatusGroup ctx poiManager store chain txos grp w))
      (spentStatusGroups sentEvents unshields) = Inr statuses0" "statuses = sortBy spentLess statuses0"
    by (auto simp: FormatSpentPOIStatusInfo_def res_elims)
  have rows: "mset (concat (map f statuses)) = mset (concat (map f statuses0))" for f :: "SpentPOIStatusInfo \<Rightarrow> POIsPerList list"
    by (simp add: run(2) mset_concat_map)
  note all = rows_of_groups [OF run(1) [unfolded mapRes_list_all2]]
  show ?thesis
    using groups_hold_all [of sentEvents unshields, unfolded sentOf_def unshieldsOf_def] unfolding Inr sum.case rows all
    by (metis mset_map)
qed simp

end
