(* ===== verification/Spec2Isabelle.thy ===== *)
theory Spec2Isabelle
  imports Prelude Hex Poseidon Merkle LeafMap Railgun Chain Events UtxoTree TxidTree Solutions Scan EventsV2 EventsV3
    Wtns ProofInputs Poi PreTransaction Address FeeCache Broadcaster StateStore
    Cipher Memo Keys TransactNote FileMap PoiEvents Action Importer ImportEffect WalletWorld WalletSync
    SyncSafety Details WalletQueries PoiRefresh History PoiStatus
begin

text \<open>
  A model of \<^verbatim>\<open>railgun-go\<close>, a Go client library for the RAILGUN privacy
  protocol, with the properties that make its parts correct.

  \<^bold>\<open>Parts and theories.\<close>

  \<^item> \<open>Prelude\<close>: the conventions below, Go maps and sorting.
  \<^item> \<open>Hex\<close> (\<^verbatim>\<open>pkg/crypto/bytes.go, hash.go, token.go\<close>):
    conversions between hexadecimal text, numbers and bytes; token data and its hash.
  \<^item> \<open>Poseidon\<close> (\<^verbatim>\<open>pkg/crypto/poseidon.go\<close>): the hash of the trees and notes.
  \<^item> \<open>Railgun\<close> (\<^verbatim>\<open>pkg/crypto/railgun.go\<close>): public keys, note hashes, nullifiers.
  \<^item> \<open>Chain\<close> (\<^verbatim>\<open>pkg/chain/chain.go\<close>): network ids.
  \<^item> \<open>Merkle\<close> (\<^verbatim>\<open>pkg/merkletree/merkletree.go\<close> and the level functions that
    \<^verbatim>\<open>pkg/utxotree/store.go\<close> and \<^verbatim>\<open>pkg/txid/merkletree.go\<close> both have):
    proofs, their verification, the sparse levels of a tree.
  \<^item> \<open>LeafMap\<close>: the two-level maps of leaves, their listing and their JSON file, as both
    tree packages have them.
  \<^item> \<open>UtxoTree\<close> (\<^verbatim>\<open>pkg/utxotree/store.go\<close>): the commitment trees, in
    memory and on file, and the functions that index commitment events into them.
  \<^item> \<open>TxidTree\<close> (\<^verbatim>\<open>pkg/txid\<close>): transaction ids, transaction stores, and the
    append-only tree of transactions.
  \<^item> \<open>Events\<close>, \<open>EventsV2\<close> (\<^verbatim>\<open>pkg/events/v2.go, accumulator.go\<close>): the events of
    the V2 contract, from ABI-decoded logs to the records the stores index; \<open>EventsV3\<close>
    (\<^verbatim>\<open>v3.go\<close>): the updates of the V3 accumulator and the fees of its treasury.
  \<^item> \<open>Scan\<close> (\<^verbatim>\<open>pkg/events/scanner.go, checkpoint.go\<close>): the scan of a block
    range by chunks, checkpoints, scans that continue from one.
  \<^item> \<open>Solutions\<close> (\<^verbatim>\<open>pkg/transaction/solutions.go\<close>): the choice of UTXOs for
    the outputs of a transaction, and its change.
  \<^item> \<open>ProofInputs\<close> (\<^verbatim>\<open>pkg/proof\<close>, its pure part): the inputs of the circuits, their
    public signals, and the prover that calls a backend; \<open>Wtns\<close> (\<^verbatim>\<open>pkg/proof/witness/wtns.go\<close>):
    the parser of witness files.
  \<^item> \<open>Poi\<close> (\<^verbatim>\<open>pkg/poi/manager.go, config.go\<close>): the lists of the proof of innocence and
    the balance buckets they give; \<open>PreTransaction\<close> (\<^verbatim>\<open>pkg/poi/pre_transaction.go\<close> and
    \<^verbatim>\<open>pkg/validation/poi.go\<close>): the proofs sent ahead of a transaction and their check by the receiver.
  \<^item> \<open>Address\<close> (\<^verbatim>\<open>pkg/address\<close>): addresses in bech32m.
  \<^item> \<open>FeeCache\<close> (\<^verbatim>\<open>fee_cache.go, search.go, status.go\<close> of \<^verbatim>\<open>pkg/broadcaster\<close> and their
    helpers): the fee quotes of broadcasters, the search among them, the connection status;
    \<open>Broadcaster\<close> (\<^verbatim>\<open>fees_message.go, response.go, transaction.go\<close>): the signed
    announcements that fill the cache, and the sending of a transaction with its retries.
  \<^item> \<open>Cipher\<close>, \<open>Memo\<close>, \<open>Keys\<close> (\<^verbatim>\<open>aes.go, xchacha.go, memo.go, keys.go\<close> of \<^verbatim>\<open>pkg/crypto\<close>):
    ciphers over hexadecimal text, annotations of sent notes, the blinding of viewing keys;
    \<open>TransactNote\<close> (\<^verbatim>\<open>transact_note.go\<close>): the encryption of notes and their decryption.
  \<^item> \<open>StateStore\<close> (\<^verbatim>\<open>state_store.go, file_state_store.go\<close> of \<^verbatim>\<open>pkg/wallet\<close>): the
    wallet's transaction outputs and the balances of its tokens; \<open>PoiEvents\<close>
    (\<^verbatim>\<open>poi_event_store.go, poi_submission.go\<close>): the events whose proofs of innocence the
    wallet follows; \<open>FileMap\<close>: stores that keep one map on file, for both.
  \<^item> \<open>Action\<close>: code that works on several stores and may fail between two of them;
    \<open>Importer\<close> (\<^verbatim>\<open>pkg/wallet/importer.go\<close>): the outputs of the wallet among the
    commitments of a scan, and the import of the V2 and V3 events into its stores; \<open>ImportEffect\<close>
    and \<open>WalletWorld\<close>: what an import does to the outputs, over any stores that keep the laws,
    and the stores of the program as such stores.
  \<^item> \<open>WalletSync\<close> (\<^verbatim>\<open>sync.go, wallet.go, local_rescan.go\<close>): the sync of a wallet
    from its checkpoint, its rollback, the rescan of its local tree; \<open>SyncSafety\<close>: what an
    interrupted sync leaves, and the properties of the import and the rollback.
  \<^item> \<open>Details\<close> (\<^verbatim>\<open>details_store.go\<close>): the heights up to which a wallet has scanned
    each tree, in memory and on file; \<open>WalletQueries\<close> (\<^verbatim>\<open>balances.go, utxo_tree.go,
    txid_versions.go, poi_queries.go, details.go\<close>): the balances and proofs that a wallet
    reports; \<open>PoiRefresh\<close> (\<^verbatim>\<open>poi_refresh.go\<close>): the update of the proofs of innocence
    from the POI node; \<open>History\<close> (\<^verbatim>\<open>transaction_history.go\<close>): what a wallet received
    and spent, by transaction; \<open>PoiStatus\<close> (\<^verbatim>\<open>poi_status.go, legacy_poi.go\<close>): the reports
    on its proofs of innocence and the submission of legacy outputs.

  They interact as the program does: the scan asks a provider for logs, the V2 decoder turns
  them into commitment events, the index functions put their commitments into the UTXO trees,
  whose roots and proofs are Poseidon hashes checked by the proof verification. The wallet's sync runs the
  scan with a handler that imports the events of each chunk and then saves the checkpoint.

  \<^bold>\<open>Conventions.\<close> A Go function that returns an error is a function into the sum type
  \<open>'a res\<close>, with the error and its format arguments on the left, so that wrapped errors are
  told apart. A method takes the state of its receiver and returns the new one; a nil receiver or
  interface is \<open>None\<close>. The context is an argument: \<open>None\<close> when it is alive, the error of
  \<^verbatim>\<open>ctx.Err()\<close> otherwise. Integers of 64 bits are words, Go's \<^verbatim>\<open>int\<close> is an
  integer brought into range where the code may overflow, \<^verbatim>\<open>*big.Int\<close> is an integer (an
  option where nil is possible). A Go map is an association list with one entry per key, walked in
  the order of the list: a result that would depend on the order shows in a property that
  quantifies over it. \<^verbatim>\<open>sort.Slice\<close> is a stable insertion sort.
  A JSON file is represented by the value it decodes to, and a save fails as a whole, since the
  code writes a temporary file and renames it. Mutexes are left out: one call runs at a time.

  \<^bold>\<open>Parameters.\<close> Keccak-256, the constants of Poseidon (an embedded JSON file), the ABI
  decoder of go-ethereum, the log provider, the POI node, the proving backend, the JSON decoder, the ciphers, the curve library and the cryptography of
  the broadcaster's messages are arguments of the definitions, and so are the clock and the random numbers. What the proofs
  need of them is a named hypothesis, stated beside its theorem, as \<open>constantsOk\<close> (the constants have the shape the code
  indexes), \<open>rangeAdditive\<close> (the provider answers a range by the logs of its parts), \<open>cipherLaws\<close>
  (opening undoes sealing, a key stream undoes itself), \<open>primeOrderKey\<close> (on points of prime order a
  non-zero scalar is undone by its inverse).

  \<^bold>\<open>Interfaces.\<close> The locales \<open>node_hash\<close> (a hash of two field elements),
  \<open>leaf_tree\<close> and \<open>leaf_store\<close> (a store of leaves whose roots and proofs come from its
  listing), \<open>merkle_client\<close> (the append of a transaction on a tree store), \<open>accumulator\<close> (a
  decoder that works log by log), \<open>checkpoint_store\<close>, \<open>mirrored_store\<close> (a file that mirrors a map in memory),
  \<open>slice_less\<close> (the order of a sort), \<open>output_store\<close>, \<open>wallet_stores\<close> (the stores of an
  import), \<open>wallet_sync\<close> (those with checkpoints) and \<open>details_store\<close> (what a save of
  details changes)
  are each interpreted on the definitions of the code.

  \<^bold>\<open>Loops.\<close> Every loop is a total function: the loop over chunks ends because each chunk
  ends nearer to the last block, the filling of an output because each batch uses up a UTXO.

  \<^bold>\<open>Not modelled.\<close> Network transports, JSON-RPC, GraphQL, the Pebble database, the provers
  and the signatures of third-party cryptography, the Waku node and the encryption of requests to
  broadcasters, which are I/O or calls of libraries that are not part of the repository. The batching and
  the calldata of transactions and the facade of \<^verbatim>\<open>pkg/sdk\<close> are plain Go code that is left out.
\<close>

end
